(* ===== verification/Prelude.thy ===== *)
theory Prelude
  imports Complex_Main "HOL-Library.Product_Lexorder" "HOL-Library.List_Lexorder" "HOL-Library.Char_ord"
begin

section \<open>Shared vocabulary of the development\<close>

text \<open>
  The generic part of the library: Python exceptions as values of one error type and the
  bind of fallible code; insertion-ordered dictionaries; database tables as lists of rows
  with the primary-key operations the repositories use; the few string functions of
  Python's standard library that the sources call.

  Conventions used by every component:
  \<^item> a Python function that may raise returns \<open>py_error + 'a\<close>; a raised exception is
    \<open>Inl\<close>, and the caller's transaction is rolled back, so no state comes with it;
  \<^item> \<open>utc_now()\<close>, \<open>uuid.uuid4()\<close> and the monotonic clock are arguments (\<open>now\<close>,
    \<open>new_id\<close>) of the operations that read them;
  \<^item> a text is a list of code points below 256 (\<open>string\<close>), so a length is Python's \<open>len\<close>;
  \<^item> instants are integers (milliseconds), and a table is the list of its rows.
\<close>

subsection \<open>Exceptions as values\<close>

datatype py_error =
    ValueError string
  | KeyError string
  | LookupError string
  | InvalidSessionTransition string
  | RuntimeError string
  | AssistantStateConflict string
  | AssistantIdempotencyConflict string
  | ActionGrantUnavailable string
  | GrantAuthorizationError string
  | PermissionDeniedError string
  | PackageBuildError string
  | PackageValidationError string
  | HLSURLValidationError string
  | ArtifactReviewError string
  | PackageBindingError string
  | RevisionError string
  | MeetingStateConflictError string
  | MeetingPluginDenied string
  | MeetingPluginConflict string

type_synonym 'a res = "py_error + 'a"
type_synonym instant = int

named_theorems res_simps \<open>rewriting of fallible code\<close>
named_theorems dict_simps \<open>rewriting of dictionaries\<close>
named_theorems table_simps \<open>rewriting of tables\<close>

definition rbind :: "'e + 'a \<Rightarrow> ('a \<Rightarrow> 'e + 'b) \<Rightarrow> 'e + 'b" where
  "rbind r f = (case r of Inl e \<Rightarrow> Inl e | Inr x \<Rightarrow> f x)"

lemma rbind_Inl [simp, res_simps]: "rbind (Inl e) f = Inl e"
  by (simp add: rbind_def)

lemma rbind_Inr [simp, res_simps]: "rbind (Inr x) f = f x"
  by (simp add: rbind_def)

lemma rbind_eq_Inr [res_simps]: "rbind r f = Inr y \<longleftrightarrow> (\<exists>x. r = Inr x \<and> f x = Inr y)"
  by (cases r) simp_all

lemma rbind_eq_Inl [res_simps]:
  "rbind r f = Inl e \<longleftrightarrow> r = Inl e \<or> (\<exists>x. r = Inr x \<and> f x = Inl e)"
  by (cases r) simp_all

definition succeeds :: "'e + 'a \<Rightarrow> bool" where
  "succeeds r \<longleftrightarrow> (case r of Inl _ \<Rightarrow> False | Inr _ \<Rightarrow> True)"

lemma succeeds_simps [simp]: "\<not> succeeds (Inl e)" "succeeds (Inr x)"
  by (simp_all add: succeeds_def)

lemma succeeds_iff: "succeeds r \<longleftrightarrow> (\<exists>x. r = Inr x)"
  by (cases r) simp_all

text \<open>A \<open>x or default\<close> on an optional argument.\<close>

definition or_else :: "'a option \<Rightarrow> 'a \<Rightarrow> 'a" where
  "or_else v d = (case v of None \<Rightarrow> d | Some x \<Rightarrow> x)"

lemma or_else_simps [simp]: "or_else None d = d" "or_else (Some x) d = x"
  by (simp_all add: or_else_def)

text \<open>The same on an optional text, where the empty text is false too.\<close>

definition str_or :: "string option \<Rightarrow> string \<Rightarrow> string" where
  "str_or v d = (case v of None \<Rightarrow> d | Some s \<Rightarrow> if s = [] then d else s)"

subsection \<open>Dictionaries with insertion order\<close>

type_synonym ('k, 'v) dict = "('k \<times> 'v) list"

fun dict_set :: "('k, 'v) dict \<Rightarrow> 'k \<Rightarrow> 'v \<Rightarrow> ('k, 'v) dict" where
  "dict_set [] k v = [(k, v)]"
| "dict_set ((k', v') # d) k v = (if k' = k then (k, v) # d else (k', v') # dict_set d k v)"

definition dict_pop :: "('k, 'v) dict \<Rightarrow> 'k \<Rightarrow> ('k, 'v) dict" where
  "dict_pop d k = filter (\<lambda>e. fst e \<noteq> k) d"

abbreviation dict_get :: "('k, 'v) dict \<Rightarrow> 'k \<Rightarrow> 'v option" where
  "dict_get d \<equiv> map_of d"

abbreviation dict_values :: "('k, 'v) dict \<Rightarrow> 'v list" where
  "dict_values d \<equiv> map snd d"

definition dict_wf :: "('k, 'v) dict \<Rightarrow> bool" where
  "dict_wf d \<longleftrightarrow> distinct (map fst d)"

lemma dict_get_set [simp, dict_simps]: "dict_get (dict_set d k v) = (dict_get d)(k \<mapsto> v)"
  by (induction d k v rule: dict_set.induct) (auto simp: fun_eq_iff)

lemma dict_get_pop [simp, dict_simps]: "dict_get (dict_pop d k) = (dict_get d)(k := None)"
  by (induction d) (auto simp: dict_pop_def fun_eq_iff)

lemma dict_keys_set [dict_simps]:
  "set (map fst (dict_set d k v)) = insert k (set (map fst d))"
  by (induction d k v rule: dict_set.induct) auto

lemma dict_wf_Nil [simp, intro]: "dict_wf []"
  by (simp add: dict_wf_def)

lemma dict_wf_set [simp, intro]: "dict_wf d \<Longrightarrow> dict_wf (dict_set d k v)"
proof (induction d k v rule: dict_set.induct)
  case (2 k' v' d k v)
  then show ?case
    using dict_keys_set [of d k v] by (auto simp: dict_wf_def)
qed (simp add: dict_wf_def)

lemma dict_wf_pop [simp, intro]: "dict_wf d \<Longrightarrow> dict_wf (dict_pop d k)"
  by (induction d) (auto simp: dict_wf_def dict_pop_def)

lemma dict_values_get:
  "dict_wf d \<Longrightarrow> v \<in> set (dict_values d) \<longleftrightarrow> (\<exists>k. dict_get d k = Some v)"
  by (auto simp: dict_wf_def image_iff Bex_def)

text \<open>\<open>list(dict.fromkeys(xs))\<close>: first occurrences, in order.\<close>

definition fromkeys :: "'a list \<Rightarrow> 'a list" where
  "fromkeys xs = rev (remdups (rev xs))"

lemma set_fromkeys [simp]: "set (fromkeys xs) = set xs"
  by (simp add: fromkeys_def)

lemma distinct_fromkeys [simp, intro]: "distinct (fromkeys xs)"
  by (simp add: fromkeys_def)

subsection \<open>Tables\<close>

text \<open>
  A table is the list of its rows. \<open>find_row\<close> is a \<open>select\<close> that expects at most one row,
  \<open>update_rows\<close> an \<open>update ... where\<close> and \<open>rowcount\<close> the number of rows it touches.
\<close>

abbreviation find_row :: "('r \<Rightarrow> bool) \<Rightarrow> 'r list \<Rightarrow> 'r option" where
  "find_row p rows \<equiv> List.find p rows"

definition update_rows :: "('r \<Rightarrow> bool) \<Rightarrow> ('r \<Rightarrow> 'r) \<Rightarrow> 'r list \<Rightarrow> 'r list" where
  "update_rows p f rows = map (\<lambda>r. if p r then f r else r) rows"

definition rowcount :: "('r \<Rightarrow> bool) \<Rightarrow> 'r list \<Rightarrow> nat" where
  "rowcount p rows = length (filter p rows)"

lemma find_row_Some: "find_row p rows = Some r \<Longrightarrow> r \<in> set rows \<and> p r"
  by (induction rows) (auto split: if_splits)

lemma find_row_None: "find_row p rows = None \<longleftrightarrow> (\<forall>r \<in> set rows. \<not> p r)"
  by (induction rows) auto

lemma find_row_append:
  "find_row p (rows @ rows') =
     (case find_row p rows of None \<Rightarrow> find_row p rows' | Some r \<Rightarrow> Some r)"
  by (induction rows) auto

lemma length_update_rows [simp, table_simps]: "length (update_rows p f rows) = length rows"
  by (simp add: update_rows_def)

lemma set_update_rows [table_simps]:
  "set (update_rows p f rows) = (\<lambda>r. if p r then f r else r) ` set rows"
  by (simp add: update_rows_def)

lemma map_update_rows [table_simps]:
  "(\<And>r. p r \<Longrightarrow> g (f r) = g r) \<Longrightarrow> map g (update_rows p f rows) = map g rows"
  by (auto simp: update_rows_def)

lemma find_update_rows_key:
  assumes "\<And>r. key (f r) = key r"
  shows "find_row (\<lambda>r. key r = k) (update_rows (\<lambda>r. key r = k') f rows) =
     (if k = k' then map_option f (find_row (\<lambda>r. key r = k) rows)
      else find_row (\<lambda>r. key r = k) rows)"
  by (induction rows) (auto simp: update_rows_def assms)

lemma map_key_update_rows:
  "(\<And>r. key (f r) = key r) \<Longrightarrow> map key (update_rows p f rows) = map key rows"
  by (auto simp: update_rows_def)

lemma rowcount_pos: "0 < rowcount p rows \<longleftrightarrow> (\<exists>r \<in> set rows. p r)"
  by (auto simp: rowcount_def filter_empty_conv)

lemma find_distinct_key:
  "distinct (map key rows) \<Longrightarrow> r \<in> set rows \<Longrightarrow> find_row (\<lambda>x. key x = key r) rows = Some r"
  by (induction rows) (auto simp: image_iff)

lemma rowcount_distinct_key:
  assumes "distinct (map key rows)"
  shows "rowcount (\<lambda>r. key r = k \<and> p r) rows =
     (case find_row (\<lambda>r. key r = k) rows of None \<Rightarrow> 0 | Some r \<Rightarrow> if p r then 1 else 0)"
  using assms
proof (induction rows)
  case (Cons x rows)
  have none: "rowcount (\<lambda>r. key r = k \<and> p r) rows = 0" if "key x = k"
    using Cons.prems that by (auto simp: rowcount_def filter_empty_conv) (metis image_eqI)
  show ?case
    using Cons none by (auto simp: rowcount_def)
qed (simp add: rowcount_def)

lemma sort_key_sorted: "sorted (map f xs) \<Longrightarrow> sort_key f xs = xs"
  by (induction xs) (auto simp: insort_is_Cons)

lemma sort_key_again [simp]: "sort_key f (sort_key f xs) = sort_key f xs"
  by (rule sort_key_sorted) simp

lemma distinct_filter_key:
  assumes "distinct (map f xs)" "x \<in> set xs" "f x = k"
  shows "filter (\<lambda>y. f y = k) xs = [x]"
  using assms
proof (induction xs)
  case (Cons y ys)
  then show ?case by (cases "y = x") (auto simp: filter_empty_conv rev_image_eqI)
qed simp

text \<open>
  An object of the ORM is read by its key, changed and flushed. \<open>modify_row\<close> is that
  pattern; the row relation \<open>R\<close> of \<open>modify_row_rel\<close> is what a change keeps.
\<close>

definition modify_row ::
  "('r \<Rightarrow> 'k) \<Rightarrow> 'k \<Rightarrow> py_error \<Rightarrow> ('r \<Rightarrow> 'r res) \<Rightarrow> 'r list \<Rightarrow> ('r list \<times> 'r) res" where
  "modify_row key k missing f rows =
     (case find_row (\<lambda>r. key r = k) rows of
        None \<Rightarrow> Inl missing
      | Some r \<Rightarrow> rbind (f r) (\<lambda>r'. Inr (update_rows (\<lambda>x. key x = k) (\<lambda>_. r') rows, r')))"

lemma list_all2_update_row:
  assumes "distinct (map key rows)" and "find_row (\<lambda>x. key x = k) rows = Some r"
    and "R r r'" and "\<And>x. R x x"
  shows "list_all2 R rows (update_rows (\<lambda>x. key x = k) (\<lambda>_. r') rows)"
  using assms(1,2)
proof (induction rows)
  case (Cons x rows)
  have same: "update_rows (\<lambda>x. key x = k) (\<lambda>_. r') rows = rows" if "key x = k"
    using Cons.prems(1) that by (auto simp: update_rows_def intro!: map_idI) (metis image_eqI)
  show ?case
    using Cons same assms(3,4)
    by (auto simp: update_rows_def list.rel_refl split: if_splits)
qed simp

lemma modify_row_rel:
  assumes "distinct (map key rows)" and "modify_row key k e f rows = Inr (rows', r')"
    and "\<And>r r'. f r = Inr r' \<Longrightarrow> key r = k \<Longrightarrow> R r r'" and "\<And>x. R x x"
  shows "list_all2 R rows rows'"
  using assms list_all2_update_row [of key rows k _ R r']
  by (auto simp: modify_row_def res_simps split: option.splits dest: find_row_Some)

lemma list_all2_keys:
  "list_all2 R xs ys \<Longrightarrow> (\<And>x y. R x y \<Longrightarrow> key y = key x) \<Longrightarrow> map key ys = map key xs"
  by (induction rule: list_all2_induct) auto

lemma list_all2_all:
  "list_all2 R xs ys \<Longrightarrow> (\<And>x y. R x y \<Longrightarrow> P x \<Longrightarrow> P y) \<Longrightarrow> list_all P xs \<Longrightarrow> list_all P ys"
  by (induction rule: list_all2_induct) auto

subsection \<open>Python strings\<close>

definition is_space :: "char \<Rightarrow> bool" where
  "is_space c = (let n = (of_char c :: nat) in
     (9 \<le> n \<and> n \<le> 13) \<or> (28 \<le> n \<and> n \<le> 32) \<or> n = 133 \<or> n = 160)"

text \<open>The line boundaries of \<open>str.splitlines\<close> (the carriage return is treated by callers).\<close>

definition is_linebreak :: "char \<Rightarrow> bool" where
  "is_linebreak c = (let n = (of_char c :: nat) in
     (10 \<le> n \<and> n \<le> 13) \<or> (28 \<le> n \<and> n \<le> 30) \<or> n = 133)"

definition strip_by :: "(char \<Rightarrow> bool) \<Rightarrow> string \<Rightarrow> string" where
  "strip_by p s = rev (dropWhile p (rev (dropWhile p s)))"

abbreviation py_strip :: "string \<Rightarrow> string" where
  "py_strip \<equiv> strip_by is_space"

lemma set_strip_by: "set (strip_by p s) \<subseteq> set s"
  by (auto simp: strip_by_def dest!: set_dropWhileD)

lemma strip_by_eq_Nil: "strip_by p s = [] \<longleftrightarrow> (\<forall>c \<in> set s. p c)"
proof
  assume "strip_by p s = []"
  then have "\<forall>c \<in> set (dropWhile p s). p c"
    by (simp add: strip_by_def)
  then show "\<forall>c \<in> set s. p c"
    by (metis dropWhile_eq_Nil_conv hd_dropWhile hd_in_set)
next
  assume "\<forall>c \<in> set s. p c"
  then show "strip_by p s = []" by (auto simp: strip_by_def dest!: set_dropWhileD)
qed

fun split_words :: "string \<Rightarrow> string \<Rightarrow> string list" where
  "split_words acc [] = (if acc = [] then [] else [rev acc])"
| "split_words acc (c # cs) =
     (if is_space c then (if acc = [] then split_words [] cs else rev acc # split_words [] cs)
      else split_words (c # acc) cs)"

abbreviation py_split :: "string \<Rightarrow> string list" where
  "py_split \<equiv> split_words []"

fun py_join :: "string \<Rightarrow> string list \<Rightarrow> string" where
  "py_join sep [] = []"
| "py_join sep [x] = x"
| "py_join sep (x # y # zs) = x @ sep @ py_join sep (y # zs)"

lemma set_py_join: "set (py_join sep xs) \<subseteq> set sep \<union> \<Union> (set ` set xs)"
  by (induction sep xs rule: py_join.induct) auto

text \<open>
  \<open>str.casefold\<close> on code points below 256. The micro sign folds to a code point outside
  this range in Python; no other code point below 256 folds there, so keeping it as it is
  gives the same comparisons.
\<close>

definition casefold_char :: "char \<Rightarrow> string" where
  "casefold_char c = (let n = (of_char c :: nat) in
     if (65 \<le> n \<and> n \<le> 90) \<or> (192 \<le> n \<and> n \<le> 222 \<and> n \<noteq> 215) then [char_of (n + 32)]
     else if n = 223 then ''ss'' else [c])"

definition casefold :: "string \<Rightarrow> string" where
  "casefold s = concat (map casefold_char s)"

subsection \<open>Decimal numbers\<close>

fun show_nat :: "nat \<Rightarrow> string" where
  "show_nat n = (if n < 10 then [char_of (48 + n)]
     else show_nat (n div 10) @ [char_of (48 + n mod 10)])"

declare show_nat.simps [simp del]

fun read_nat_acc :: "nat \<Rightarrow> string \<Rightarrow> nat" where
  "read_nat_acc a [] = a"
| "read_nat_acc a (c # cs) = read_nat_acc (10 * a + (of_char c - 48)) cs"

abbreviation read_nat :: "string \<Rightarrow> nat" where
  "read_nat \<equiv> read_nat_acc 0"

definition zero_pad :: "nat \<Rightarrow> string \<Rightarrow> string" where
  "zero_pad w s = replicate (w - length s) (CHR ''0'') @ s"

definition is_digit :: "char \<Rightarrow> bool" where
  "is_digit c = (let n = (of_char c :: nat) in 48 \<le> n \<and> n \<le> 57)"

lemma read_nat_acc_append: "read_nat_acc a (s @ t) = read_nat_acc (read_nat_acc a s) t"
  by (induction a s rule: read_nat_acc.induct) auto

lemma of_char_digit [simp]: "d < 10 \<Longrightarrow> (of_char (char_of (48 + d :: nat)) :: nat) = 48 + d"
  by simp

lemma read_show_nat [simp]: "read_nat (show_nat n) = n"
proof (induction n rule: show_nat.induct)
  case (1 n)
  show ?case
  proof (cases "n < 10")
    case True
    then show ?thesis by (simp add: show_nat.simps [of n])
  next
    case False
    with 1 have "read_nat (show_nat (n div 10)) = n div 10" by simp
    with False show ?thesis
      by (simp add: show_nat.simps [of n] read_nat_acc_append)
  qed
qed

lemma read_zero_pad [simp]: "read_nat (zero_pad w s) = read_nat s"
proof -
  have "read_nat (replicate k (CHR ''0'') @ s) = read_nat s" for k
    by (induction k) auto
  then show ?thesis by (simp add: zero_pad_def)
qed

lemma digits_show_nat: "\<forall>c \<in> set (show_nat n). is_digit c"
proof (induction n rule: show_nat.induct)
  case (1 n)
  have "is_digit (char_of (48 + d))" if "d < 10" for d :: nat
    using that by (simp add: is_digit_def)
  with 1 show ?case
    by (auto simp: show_nat.simps [of n])
qed

lemma digits_zero_pad: "\<forall>c \<in> set s. is_digit c \<Longrightarrow> \<forall>c \<in> set (zero_pad w s). is_digit c"
  by (auto simp: zero_pad_def is_digit_def)

lemma length_show_nat_le: "n < 10 ^ k \<Longrightarrow> 0 < k \<Longrightarrow> length (show_nat n) \<le> k"
proof (induction n arbitrary: k rule: show_nat.induct)
  case (1 n)
  show ?case
  proof (cases "n < 10")
    case True
    with 1(3) show ?thesis by (simp add: show_nat.simps [of n])
  next
    case False
    with 1(2,3) have "k \<noteq> 1" by auto
    with 1(3) obtain j where k: "k = Suc j" and j: "0 < j"
      by (cases k) auto
    have "n div 10 < 10 ^ j"
      using 1(2) by (auto simp: k div_less_iff_less_mult mult.commute)
    with 1(1) [OF False, of j] j have "length (show_nat (n div 10)) \<le> j" by blast
    with False show ?thesis by (simp add: show_nat.simps [of n] k)
  qed
qed

lemma length_zero_pad: "length s \<le> w \<Longrightarrow> length (zero_pad w s) = w"
  by (simp add: zero_pad_def)

lemma distinct_map_sort: "distinct (map f xs) \<Longrightarrow> distinct (map f (sort_key g xs))"
  by (simp add: distinct_map)

text \<open>\<open>str.endswith\<close>.\<close>

definition ends_with :: "string \<Rightarrow> string \<Rightarrow> bool" where
  "ends_with suffix s \<longleftrightarrow> length suffix \<le> length s \<and> drop (length s - length suffix) s = suffix"

subsection \<open>One current row per group\<close>

text \<open>
  An operation that makes \<open>target\<close> the current row of its group and demotes the others: at most
  one row per group stays current, and for the group of \<open>target\<close> it is \<open>target\<close>.
\<close>

lemma switch_current:
  assumes keys: "distinct (map key rows)" and row: "target \<in> set rows"
    and grp: "\<And>r. grp (g r) = grp r"
    and cur: "\<And>r. cur (g r) \<longleftrightarrow> key r = key target \<or> grp r \<noteq> grp target \<and> cur r"
    and one: "\<And>s. length (filter (\<lambda>r. grp r = s \<and> cur r) rows) \<le> 1"
  shows "filter (\<lambda>r. grp r = grp target \<and> cur r) (map g rows) = [g target]"
    "length (filter (\<lambda>r. grp r = s \<and> cur r) (map g rows)) \<le> 1"
proof -
  have self: "r = target" if "r \<in> set rows" "key r = key target" for r
    using keys that row by (auto simp: distinct_map inj_on_def)
  have "filter (\<lambda>r. grp r = grp target \<and> cur r) (map g rows) = map g (filter (\<lambda>r. key r = key target) rows)"
    unfolding filter_map comp_def
    by (rule arg_cong [where f = "map g"], rule filter_cong [OF refl]) (use grp cur self in auto)
  then show target: "filter (\<lambda>r. grp r = grp target \<and> cur r) (map g rows) = [g target]"
    using distinct_filter_key [OF keys row refl] by simp
  show "length (filter (\<lambda>r. grp r = s \<and> cur r) (map g rows)) \<le> 1"
  proof (cases "s = grp target")
    case True
    then show ?thesis using target by simp
  next
    case False
    then have "filter (\<lambda>r. grp r = s \<and> cur r) (map g rows) = map g (filter (\<lambda>r. grp r = s \<and> cur r) rows)"
      unfolding filter_map comp_def
      by (intro arg_cong [where f = "map g"] filter_cong refl) (use grp cur self in auto)
    then show ?thesis using one by simp
  qed
qed

end
