(* ===== verification/Session_State.thy ===== *)
theory Session_State
  imports Prelude
begin

section \<open>The session lifecycle\<close>

text \<open>
  Models \<open>backend/app/sessions/state.py\<close>: the status literals, their parsing and the
  transition function. The interface \<open>status_machine\<close> collects what every lifecycle of
  the program (sessions here, executions, tool calls, claims and subagents later) promises
  its callers: a transition returns its target or raises, and a status without successors
  is never left.
\<close>

subsection \<open>The interface of a status machine\<close>

fun run_targets :: "('s \<Rightarrow> 's \<Rightarrow> 'e + 's) \<Rightarrow> 's \<Rightarrow> 's list \<Rightarrow> 's" where
  "run_targets tr s [] = s"
| "run_targets tr s (t # ts) =
     run_targets tr (case tr s t of Inl _ \<Rightarrow> s | Inr s' \<Rightarrow> s') ts"

locale status_machine =
  fixes states :: "'s set"
    and targets :: "'s \<Rightarrow> 's set"
    and transition :: "'s \<Rightarrow> 's \<Rightarrow> 'e + 's"
  assumes targets_states: "s \<in> states \<Longrightarrow> targets s \<subseteq> states"
    and transition_self: "s \<in> states \<Longrightarrow> transition s s = Inr s"
    and transition_target: "s \<in> states \<Longrightarrow> t \<in> targets s \<Longrightarrow> transition s t = Inr t"
    and transition_refused:
      "s \<notin> states \<or> s \<noteq> t \<and> t \<notin> targets s \<Longrightarrow> \<exists>e. transition s t = Inl e"
begin

lemma transition_Inr:
  "transition s t = Inr u \<longleftrightarrow> s \<in> states \<and> u = t \<and> (s = t \<or> t \<in> targets s)"
  using transition_self [of s] transition_target [of s t] transition_refused [of s t]
  by (cases "s = t"; cases "t \<in> targets s"; cases "s \<in> states") auto

lemma transition_states: "transition s t = Inr u \<Longrightarrow> u \<in> states"
  using targets_states [of s] by (auto simp: transition_Inr)

lemma terminal_stays: "targets s = {} \<Longrightarrow> transition s t = Inr u \<Longrightarrow> u = s"
  by (auto simp: transition_Inr)

lemma terminal_absorbing:
  assumes "targets s = {}"
  shows "run_targets transition s ts = s"
  using assms transition_Inr [of s]
  by (induction ts) (auto split: sum.splits)

lemma run_path: "(s, run_targets transition s ts) \<in> {(a, b). b \<in> targets a}\<^sup>*"
proof (induction ts arbitrary: s)
  case (Cons t ts)
  show ?case
  proof (cases "transition s t")
    case (Inl e)
    then show ?thesis using Cons.IH [of s] by simp
  next
    case (Inr u)
    then have "u = s \<or> u \<in> targets s" by (auto simp: transition_Inr)
    with Inr Cons.IH [of u] show ?thesis
      by (auto intro: converse_rtrancl_into_rtrancl)
  qed
qed simp

end

subsection \<open>Statuses\<close>

datatype session_status =
  Created | Starting | Running | Finalizing | Completed | Failed | Cancelled

fun status_value :: "session_status \<Rightarrow> string" where
  "status_value Created = ''created''"
| "status_value Starting = ''starting''"
| "status_value Running = ''running''"
| "status_value Finalizing = ''finalizing''"
| "status_value Completed = ''completed''"
| "status_value Failed = ''failed''"
| "status_value Cancelled = ''cancelled''"

definition NORMAL_SESSION_STATES :: "session_status list" where
  "NORMAL_SESSION_STATES = [Created, Starting, Running, Finalizing, Completed]"

definition TERMINAL_SESSION_STATES :: "session_status list" where
  "TERMINAL_SESSION_STATES = [Completed, Failed, Cancelled]"

definition SESSION_STATUSES :: "session_status list" where
  "SESSION_STATUSES = NORMAL_SESSION_STATES @ TERMINAL_SESSION_STATES"

lemmas session_state_lists =
  NORMAL_SESSION_STATES_def TERMINAL_SESSION_STATES_def SESSION_STATUSES_def

definition parse_session_status :: "string \<Rightarrow> session_status res" where
  "parse_session_status v =
     (case find_row (\<lambda>s. status_value s = v) SESSION_STATUSES of
        None \<Rightarrow> Inl (ValueError (''unsupported session status: '' @ v))
      | Some s \<Rightarrow> Inr s)"

fun index_of :: "'a \<Rightarrow> 'a list \<Rightarrow> nat option" where
  "index_of x [] = None"
| "index_of x (y # ys) = (if x = y then Some 0 else map_option Suc (index_of x ys))"

definition transition_session_status ::
  "session_status \<Rightarrow> session_status \<Rightarrow> session_status res" where
  "transition_session_status current target =
     (if current = target then Inr current
      else if current \<in> set TERMINAL_SESSION_STATES then
        Inl (InvalidSessionTransition (''terminal session cannot transition from ''
               @ status_value current @ '' to '' @ status_value target))
      else if target = Failed \<or> target = Cancelled then Inr target
      else (case index_of current NORMAL_SESSION_STATES of
              None \<Rightarrow> Inl (ValueError ''tuple.index(x): x not in tuple'')
            | Some current_index \<Rightarrow>
                if current_index + 1 < length NORMAL_SESSION_STATES
                   \<and> NORMAL_SESSION_STATES ! (current_index + 1) = target
                then Inr target
                else Inl (InvalidSessionTransition (''invalid session transition from ''
                       @ status_value current @ '' to '' @ status_value target))))"

subsection \<open>The machine\<close>

fun session_targets :: "session_status \<Rightarrow> session_status set" where
  "session_targets Created = {Starting, Failed, Cancelled}"
| "session_targets Starting = {Running, Failed, Cancelled}"
| "session_targets Running = {Finalizing, Failed, Cancelled}"
| "session_targets Finalizing = {Completed, Failed, Cancelled}"
| "session_targets _ = {}"

lemma parse_status_value [simp]: "parse_session_status (status_value s) = Inr s"
  by (cases s) (simp_all add: parse_session_status_def session_state_lists)

lemma parse_session_status_Inr:
  "parse_session_status v = Inr s \<longleftrightarrow> v = status_value s"
proof
  assume "parse_session_status v = Inr s"
  then show "v = status_value s"
    by (auto simp: parse_session_status_def split: option.splits dest!: find_row_Some)
qed simp

lemma status_value_inject [simp]: "status_value s = status_value t \<longleftrightarrow> s = t"
  by (metis parse_status_value sum.inject(2))

declare status_value.simps [simp del]

interpretation session: status_machine UNIV session_targets transition_session_status
proof
  show "session_targets s \<subseteq> UNIV" for s by simp
  show "transition_session_status s s = Inr s" for s
    by (simp add: transition_session_status_def)
  show "transition_session_status s t = Inr t" if "t \<in> session_targets s" for s t
    using that by (cases s) (auto simp: transition_session_status_def session_state_lists)
  show "\<exists>e. transition_session_status s t = Inl e"
    if "s \<notin> UNIV \<or> s \<noteq> t \<and> t \<notin> session_targets s" for s t
    using that by (cases s; cases t)
      (simp_all add: transition_session_status_def session_state_lists)
qed

text \<open>How far a session has come; a transition never takes it back.\<close>

fun status_rank :: "session_status \<Rightarrow> nat" where
  "status_rank Created = 0"
| "status_rank Starting = 1"
| "status_rank Running = 2"
| "status_rank Finalizing = 3"
| "status_rank _ = 4"

definition is_terminal :: "session_status \<Rightarrow> bool" where
  "is_terminal s \<longleftrightarrow> s \<in> set TERMINAL_SESSION_STATES"

lemma is_terminal_targets: "is_terminal s \<longleftrightarrow> session_targets s = {}"
  by (cases s) (simp_all add: is_terminal_def session_state_lists)

lemma is_terminal_iff [simp]:
  "is_terminal s \<longleftrightarrow> s = Completed \<or> s = Failed \<or> s = Cancelled"
  by (auto simp: is_terminal_def session_state_lists)

lemma session_targets_rank: "t \<in> session_targets s \<Longrightarrow> status_rank s < status_rank t"
  by (cases s) auto

lemma session_rank_rtrancl:
  "(s, t) \<in> {(a, b). b \<in> session_targets a}\<^sup>* \<Longrightarrow> s = t \<or> status_rank s < status_rank t"
  by (induction rule: rtrancl_induct) (auto dest: session_targets_rank)

lemma normal_successor:
  "(\<exists>i. i + 1 < length NORMAL_SESSION_STATES \<and> NORMAL_SESSION_STATES ! i = s
        \<and> NORMAL_SESSION_STATES ! (i + 1) = t) \<longleftrightarrow>
      (s, t) \<in> {(Created, Starting), (Starting, Running), (Running, Finalizing),
                (Finalizing, Completed)}" (is "?L \<longleftrightarrow> ?R")
proof
  assume ?L
  then obtain i where i: "i + 1 < length NORMAL_SESSION_STATES" "NORMAL_SESSION_STATES ! i = s"
    "NORMAL_SESSION_STATES ! (i + 1) = t" by blast
  from i(1) have "i < 4" by (simp add: NORMAL_SESSION_STATES_def)
  then consider "i = 0" | "i = 1" | "i = 2" | "i = 3" by linarith
  then show ?R
    using i(2,3) by cases (simp_all add: NORMAL_SESSION_STATES_def)
next
  assume ?R
  then consider "s = Created \<and> t = Starting" | "s = Starting \<and> t = Running"
    | "s = Running \<and> t = Finalizing" | "s = Finalizing \<and> t = Completed" by auto
  then show ?L
  proof cases
    case 1 then show ?thesis by (auto simp: NORMAL_SESSION_STATES_def intro!: exI [of _ 0])
  next
    case 2 then show ?thesis by (auto simp: NORMAL_SESSION_STATES_def intro!: exI [of _ 1])
  next
    case 3 then show ?thesis by (auto simp: NORMAL_SESSION_STATES_def intro!: exI [of _ 2])
  next
    case 4 then show ?thesis by (auto simp: NORMAL_SESSION_STATES_def intro!: exI [of _ 3])
  qed
qed

text \<open>
  Every way a session status may change: a transition succeeds exactly when the target
  is the current status, or the current status is not terminal and the target is either a
  failure/cancellation or the immediate successor in the normal order; every other request
  raises and a success returns the requested target.
\<close>

lemma session_transition_exact:
  "transition_session_status s t = Inr u \<longleftrightarrow>
     u = t \<and> (s = t \<or> s \<notin> set TERMINAL_SESSION_STATES \<and>
       (t = Failed \<or> t = Cancelled \<or>
        (\<exists>i. i + 1 < length NORMAL_SESSION_STATES \<and> NORMAL_SESSION_STATES ! i = s
              \<and> NORMAL_SESSION_STATES ! (i + 1) = t)))"
proof -
  note step = normal_successor [of s t]
  show ?thesis
    unfolding step session.transition_Inr
    by (cases s) (auto simp: session_state_lists)
qed

text \<open>
  C1. A session never regresses or revives: after any sequence of requested transitions
  (refused ones leave the status as it was) the status is the starting one or strictly
  further along, and a terminal status is final.
\<close>

theorem session_never_regresses:
  "(let s' = run_targets transition_session_status s ts in
     (s' = s \<or> status_rank s < status_rank s') \<and> (is_terminal s \<longrightarrow> s' = s))"
  using session_rank_rtrancl [OF session.run_path [of s ts]]
    session.terminal_absorbing [of s ts] is_terminal_targets [of s]
  by (auto simp: Let_def)

theorem session_never_regresses_witness:
  "run_targets transition_session_status Completed [Running, Failed] = Completed"
  using session_never_regresses [of Completed "[Running, Failed]"]
  by (simp only: Let_def is_terminal_iff) simp

end
