(* ===== verification/Session_Repository.thy ===== *)
theory Session_Repository
  imports Session_State
begin

section \<open>The session repository\<close>

text \<open>
  Models \<open>backend/app/persistence/sessions.py\<close> over the rows of \<open>SessionRecord\<close>
  (\<open>backend/app/persistence/models.py\<close>): creation, the guarded lifecycle operations, and
  the separate sub-lifecycles of the translation track and of the media source. An
  operation that changes one ORM object is \<open>modify_row\<close> with the change of that row.
\<close>

subsection \<open>The record\<close>

record session_record =
  ses_id :: string
  ses_room_id :: "string option"
  ses_room_name :: string
  ses_status :: string
  ses_error_code :: "string option"
  ses_error_message :: "string option"
  ses_stop_reason :: "string option"
  ses_failure_code :: "string option"
  ses_failure_detail :: "string option"
  ses_source_type :: string
  ses_source_name :: string
  ses_language :: string
  ses_target_language :: "string option"
  ses_asr_provider :: "string option"
  ses_asr_model :: "string option"
  ses_translation_status :: string
  ses_translation_provider :: "string option"
  ses_translation_model :: "string option"
  ses_translation_error_code :: "string option"
  ses_translation_error_message :: "string option"
  ses_translation_ended_at :: "instant option"
  ses_source_status :: string
  ses_source_ended_at :: "instant option"
  ses_cleanup_status :: string
  ses_cleanup_detail :: "string option"
  ses_final_result_count :: "int option"
  ses_first_partial_latency_ms :: "rat option"
  ses_average_final_latency_ms :: "rat option"
  ses_provider_error_count :: "int option"
  ses_sent_audio_chunk_count :: "int option"
  ses_sent_audio_bytes :: "int option"
  ses_started_at :: "instant option"
  ses_ended_at :: "instant option"
  ses_created_at :: instant

type_synonym session_table = "session_record list"

subsection \<open>Creation and queries\<close>

definition session_create ::
  "session_table \<Rightarrow> string \<Rightarrow> string option \<Rightarrow> string \<Rightarrow> string \<Rightarrow> string \<Rightarrow> string option
   \<Rightarrow> string option \<Rightarrow> instant option \<Rightarrow> string \<Rightarrow> instant \<Rightarrow> (session_table \<times> session_record) res" where
  "session_create db room_name room_id source_type source_name language target_language
     session_id created_at new_id now =
     (if room_name = [] then Inl (ValueError ''room_name is required'')
      else if source_type = [] then Inl (ValueError ''source_type is required'')
      else if source_name = [] then Inl (ValueError ''source_name is required'')
      else if language = [] then Inl (ValueError ''language is required'')
      else let rec = \<lparr>ses_id = str_or session_id new_id, ses_room_id = room_id,
             ses_room_name = room_name, ses_status = ''created'',
             ses_error_code = None, ses_error_message = None, ses_stop_reason = None,
             ses_failure_code = None, ses_failure_detail = None,
             ses_source_type = source_type, ses_source_name = source_name,
             ses_language = language, ses_target_language = target_language,
             ses_asr_provider = None, ses_asr_model = None,
             ses_translation_status =
               (if target_language \<noteq> None then ''starting'' else ''disabled''),
             ses_translation_provider = None, ses_translation_model = None,
             ses_translation_error_code = None, ses_translation_error_message = None,
             ses_translation_ended_at = None, ses_source_status = ''starting'',
             ses_source_ended_at = None, ses_cleanup_status = ''not_started'',
             ses_cleanup_detail = None, ses_final_result_count = None,
             ses_first_partial_latency_ms = None, ses_average_final_latency_ms = None,
             ses_provider_error_count = None, ses_sent_audio_chunk_count = None,
             ses_sent_audio_bytes = None, ses_started_at = None, ses_ended_at = None,
             ses_created_at = or_else created_at now\<rparr>
           in if ses_id rec \<in> set (map ses_id db) then Inl (RuntimeError ''IntegrityError'')
              else Inr (db @ [rec], rec))"

definition session_get :: "session_table \<Rightarrow> string \<Rightarrow> session_record option" where
  "session_get db sid = find_row (\<lambda>r. ses_id r = sid) db"

definition session_missing :: "string \<Rightarrow> py_error" where
  "session_missing sid = LookupError (''Session not found: '' @ sid)"

definition session_get_required :: "session_table \<Rightarrow> string \<Rightarrow> session_record res" where
  "session_get_required db sid =
     (case session_get db sid of None \<Rightarrow> Inl (session_missing sid) | Some r \<Rightarrow> Inr r)"

abbreviation session_modify ::
  "session_table \<Rightarrow> string \<Rightarrow> (session_record \<Rightarrow> session_record res)
   \<Rightarrow> (session_table \<times> session_record) res" where
  "session_modify db sid f \<equiv> modify_row ses_id sid (session_missing sid) f db"

text \<open>\<open>order_by(created_at.desc(), id.desc())\<close>: the reverse of the ascending order.\<close>

definition newest_first :: "session_record list \<Rightarrow> session_record list" where
  "newest_first rows = rev (sort_key (\<lambda>r. (ses_created_at r, ses_id r)) rows)"

definition session_list_newest_first :: "session_table \<Rightarrow> session_record list" where
  "session_list_newest_first db = newest_first db"

definition session_list_for_room :: "session_table \<Rightarrow> string \<Rightarrow> session_record list" where
  "session_list_for_room db room = newest_first (filter (\<lambda>r. ses_room_id r = Some room) db)"

definition session_get_active_for_room :: "session_table \<Rightarrow> string \<Rightarrow> session_record option" where
  "session_get_active_for_room db room =
     (case newest_first (filter (\<lambda>r. ses_room_id r = Some room
         \<and> ses_status r \<notin> {''completed'', ''failed'', ''cancelled''}) db) of
        [] \<Rightarrow> None | r # _ \<Rightarrow> Some r)"

subsection \<open>Lifecycle operations\<close>

definition set_status :: "session_status \<Rightarrow> instant \<Rightarrow> session_record \<Rightarrow> session_record" where
  "set_status next_status timestamp rec =
     rec\<lparr>ses_status := status_value next_status,
         ses_started_at := (if next_status = Running \<and> ses_started_at rec = None
                            then Some timestamp else ses_started_at rec),
         ses_ended_at := (if next_status \<in> {Completed, Failed, Cancelled}
                          then Some timestamp else ses_ended_at rec)\<rparr>"

definition transition_row ::
  "session_status \<Rightarrow> instant option \<Rightarrow> instant \<Rightarrow> session_record \<Rightarrow> session_record res" where
  "transition_row target changed_at now rec =
     rbind (parse_session_status (ses_status rec)) (\<lambda>current.
     rbind (transition_session_status current target) (\<lambda>next_status.
       if current = next_status then Inr rec
       else Inr (set_status next_status (or_else changed_at now) rec)))"

definition session_transition ::
  "session_table \<Rightarrow> string \<Rightarrow> session_status \<Rightarrow> instant option \<Rightarrow> instant
   \<Rightarrow> (session_table \<times> session_record) res" where
  "session_transition db sid target changed_at now =
     session_modify db sid (transition_row target changed_at now)"

definition session_mark_room_ready ::
  "session_table \<Rightarrow> string \<Rightarrow> instant \<Rightarrow> (session_table \<times> session_record) res" where
  "session_mark_room_ready db sid now =
     session_modify db sid (\<lambda>rec.
       rbind (parse_session_status (ses_status rec)) (\<lambda>current.
         if current = Created then transition_row Starting None now rec else Inr rec))"

text \<open>The part \<open>start_replay\<close> and \<open>mark_transcribing\<close> share: bring the session to running.\<close>

definition reach_running ::
  "string \<Rightarrow> instant option \<Rightarrow> instant \<Rightarrow> session_record \<Rightarrow> session_record res" where
  "reach_running what changed_at now rec =
     rbind (parse_session_status (ses_status rec)) (\<lambda>current.
       if current = Created then
         rbind (transition_row Starting changed_at now rec) (transition_row Running changed_at now)
       else if current = Starting then transition_row Running changed_at now rec
       else if current = Running then Inr rec
       else Inl (ValueError (''Session cannot start '' @ what @ '' from '' @ status_value current)))"

definition session_start_replay ::
  "session_table \<Rightarrow> string \<Rightarrow> instant option \<Rightarrow> instant \<Rightarrow> (session_table \<times> session_record) res" where
  "session_start_replay db sid changed_at now =
     session_modify db sid (reach_running ''replay'' changed_at now)"

definition session_mark_transcribing ::
  "session_table \<Rightarrow> string \<Rightarrow> string \<Rightarrow> string \<Rightarrow> instant option \<Rightarrow> instant
   \<Rightarrow> (session_table \<times> session_record) res" where
  "session_mark_transcribing db sid provider model changed_at now =
     (if provider = [] then Inl (ValueError ''provider is required'')
      else if model = [] then Inl (ValueError ''model is required'')
      else session_modify db sid (\<lambda>rec.
        rbind (reach_running ''ASR'' changed_at now rec) (\<lambda>rec.
          Inr (rec\<lparr>ses_asr_provider := Some provider, ses_asr_model := Some model\<rparr>))))"

definition session_begin_finalizing ::
  "session_table \<Rightarrow> string \<Rightarrow> instant option \<Rightarrow> instant \<Rightarrow> (session_table \<times> session_record) res" where
  "session_begin_finalizing db sid changed_at now =
     session_transition db sid Finalizing changed_at now"

text \<open>The columns \<open>complete\<close>, \<open>fail\<close> and \<open>cancel\<close> write after their transition.\<close>

definition completion_columns ::
  "int \<Rightarrow> rat option \<Rightarrow> rat option \<Rightarrow> int \<Rightarrow> int \<Rightarrow> int \<Rightarrow> string option
   \<Rightarrow> session_record \<Rightarrow> session_record" where
  "completion_columns final_result_count first_partial_latency_ms average_final_latency_ms
     provider_error_count sent_audio_chunk_count sent_audio_bytes stop_reason rec =
     rec\<lparr>ses_final_result_count := Some final_result_count,
         ses_first_partial_latency_ms := first_partial_latency_ms,
         ses_average_final_latency_ms := average_final_latency_ms,
         ses_provider_error_count := Some provider_error_count,
         ses_sent_audio_chunk_count := Some sent_audio_chunk_count,
         ses_sent_audio_bytes := Some sent_audio_bytes,
         ses_error_code := None, ses_error_message := None,
         ses_failure_code := None, ses_failure_detail := None,
         ses_stop_reason := (if stop_reason \<noteq> None then stop_reason else ses_stop_reason rec)\<rparr>"

definition failure_columns :: "string \<Rightarrow> string \<Rightarrow> session_record \<Rightarrow> session_record" where
  "failure_columns error_code error_message rec =
     rec\<lparr>ses_error_code := Some error_code, ses_error_message := Some error_message,
         ses_failure_code := Some error_code, ses_failure_detail := Some error_message,
         ses_stop_reason := None\<rparr>"

definition cancellation_columns :: "string \<Rightarrow> session_record \<Rightarrow> session_record" where
  "cancellation_columns stop_reason rec =
     rec\<lparr>ses_error_code := None, ses_error_message := None,
         ses_failure_code := None, ses_failure_detail := None,
         ses_stop_reason := (if ses_stop_reason rec = None \<or> stop_reason \<noteq> ''worker_cancelled''
                             then Some stop_reason else ses_stop_reason rec)\<rparr>"

definition session_complete ::
  "session_table \<Rightarrow> string \<Rightarrow> int \<Rightarrow> rat option \<Rightarrow> rat option \<Rightarrow> int \<Rightarrow> int \<Rightarrow> int
   \<Rightarrow> instant option \<Rightarrow> string option \<Rightarrow> instant \<Rightarrow> (session_table \<times> session_record) res" where
  "session_complete db sid final_result_count first_partial_latency_ms average_final_latency_ms
     provider_error_count sent_audio_chunk_count sent_audio_bytes changed_at stop_reason now =
     (if \<exists>v \<in> set [final_result_count, provider_error_count, sent_audio_chunk_count,
                 sent_audio_bytes]. v < 0
      then Inl (ValueError ''transcription metrics must be non-negative'')
      else if \<exists>l \<in> set [first_partial_latency_ms, average_final_latency_ms].
                 (case l of None \<Rightarrow> False | Some v \<Rightarrow> v < 0)
      then Inl (ValueError ''transcription metrics must be non-negative'')
      else session_modify db sid (\<lambda>rec.
        rbind (transition_row Completed changed_at now rec) (\<lambda>rec.
          Inr (completion_columns final_result_count first_partial_latency_ms
                 average_final_latency_ms provider_error_count sent_audio_chunk_count
                 sent_audio_bytes stop_reason rec))))"

definition session_fail ::
  "session_table \<Rightarrow> string \<Rightarrow> string \<Rightarrow> string \<Rightarrow> instant option \<Rightarrow> instant
   \<Rightarrow> (session_table \<times> session_record) res" where
  "session_fail db sid error_code error_message changed_at now =
     (if error_code = [] then Inl (ValueError ''error_code is required'')
      else if error_message = [] then Inl (ValueError ''error_message is required'')
      else session_modify db sid (\<lambda>rec.
        rbind (transition_row Failed changed_at now rec) (\<lambda>rec.
          Inr (failure_columns error_code error_message rec))))"

definition session_cancel ::
  "session_table \<Rightarrow> string \<Rightarrow> instant option \<Rightarrow> string \<Rightarrow> instant
   \<Rightarrow> (session_table \<times> session_record) res" where
  "session_cancel db sid changed_at stop_reason now =
     session_modify db sid (\<lambda>rec.
       rbind (transition_row Cancelled changed_at now rec) (\<lambda>rec.
         Inr (cancellation_columns stop_reason rec)))"

subsection \<open>The translation track\<close>

definition session_mark_translation_starting ::
  "session_table \<Rightarrow> string \<Rightarrow> string \<Rightarrow> string \<Rightarrow> (session_table \<times> session_record) res" where
  "session_mark_translation_starting db sid provider model =
     session_modify db sid (\<lambda>rec.
       if ses_target_language rec = None then Inl (ValueError ''Session translation is disabled'')
       else Inr (rec\<lparr>ses_translation_status := ''starting'',
              ses_translation_provider := Some provider, ses_translation_model := Some model,
              ses_translation_error_code := None, ses_translation_error_message := None,
              ses_translation_ended_at := None\<rparr>))"

definition session_mark_translation_active ::
  "session_table \<Rightarrow> string \<Rightarrow> (session_table \<times> session_record) res" where
  "session_mark_translation_active db sid =
     session_modify db sid (\<lambda>rec.
       if ses_target_language rec = None then Inl (ValueError ''Session translation is disabled'')
       else Inr (rec\<lparr>ses_translation_status := ''running''\<rparr>))"

definition session_begin_translation_finalizing ::
  "session_table \<Rightarrow> string \<Rightarrow> (session_table \<times> session_record) res" where
  "session_begin_translation_finalizing db sid =
     session_modify db sid (\<lambda>rec.
       if ses_translation_status rec \<in> {''completed'', ''failed'', ''disabled''} then Inr rec
       else Inr (rec\<lparr>ses_translation_status := ''running''\<rparr>))"

definition session_complete_translation ::
  "session_table \<Rightarrow> string \<Rightarrow> instant \<Rightarrow> (session_table \<times> session_record) res" where
  "session_complete_translation db sid now =
     session_modify db sid (\<lambda>rec.
       if ses_translation_status rec = ''failed'' then Inr rec
       else Inr (rec\<lparr>ses_translation_status := ''completed'',
              ses_translation_error_code := None, ses_translation_error_message := None,
              ses_translation_ended_at := Some now\<rparr>))"

definition session_fail_translation ::
  "session_table \<Rightarrow> string \<Rightarrow> string \<Rightarrow> string \<Rightarrow> instant \<Rightarrow> (session_table \<times> session_record) res" where
  "session_fail_translation db sid error_code error_message now =
     (if error_code = [] then Inl (ValueError ''error_code is required'')
      else if error_message = [] then Inl (ValueError ''error_message is required'')
      else session_modify db sid (\<lambda>rec.
       if ses_translation_status rec = ''completed'' then Inr rec
       else Inr (rec\<lparr>ses_translation_status := ''failed'',
              ses_translation_error_code := Some error_code,
              ses_translation_error_message := Some error_message,
              ses_translation_ended_at := Some now\<rparr>)))"

subsection \<open>The media source\<close>

definition session_mark_source_running ::
  "session_table \<Rightarrow> string \<Rightarrow> (session_table \<times> session_record) res" where
  "session_mark_source_running db sid =
     session_modify db sid (\<lambda>rec.
       if ses_source_status rec = ''stopped'' then Inr rec
       else Inr (rec\<lparr>ses_source_status := ''running'', ses_cleanup_status := ''not_started'',
              ses_cleanup_detail := None\<rparr>))"

definition session_mark_source_stopping ::
  "session_table \<Rightarrow> string \<Rightarrow> (session_table \<times> session_record) res" where
  "session_mark_source_stopping db sid =
     session_modify db sid (\<lambda>rec.
       if ses_source_status rec = ''stopped'' then Inr rec
       else Inr (rec\<lparr>ses_source_status := ''stopping'', ses_cleanup_status := ''in_progress''\<rparr>))"

definition session_mark_source_stopped ::
  "session_table \<Rightarrow> string \<Rightarrow> string option \<Rightarrow> instant option \<Rightarrow> instant
   \<Rightarrow> (session_table \<times> session_record) res" where
  "session_mark_source_stopped db sid cleanup_detail changed_at now =
     session_modify db sid (\<lambda>rec.
       if ses_source_status rec = ''stopped'' \<and> ses_cleanup_status rec = ''completed''
       then Inr rec
       else Inr (rec\<lparr>ses_source_status := ''stopped'',
              ses_source_ended_at := Some (or_else changed_at now),
              ses_cleanup_status := ''completed'', ses_cleanup_detail := cleanup_detail\<rparr>))"

definition session_mark_source_cleanup_failed ::
  "session_table \<Rightarrow> string \<Rightarrow> string \<Rightarrow> instant \<Rightarrow> (session_table \<times> session_record) res" where
  "session_mark_source_cleanup_failed db sid cleanup_detail now =
     (if cleanup_detail = [] then Inl (ValueError ''cleanup_detail is required'')
      else session_modify db sid (\<lambda>rec.
        let rec = (if ses_source_status rec \<noteq> ''stopped''
                   then rec\<lparr>ses_source_status := ''failed'', ses_source_ended_at := Some now\<rparr>
                   else rec)
        in Inr (rec\<lparr>ses_cleanup_status := ''failed'', ses_cleanup_detail := Some cleanup_detail\<rparr>)))"

definition session_mark_source_lost ::
  "session_table \<Rightarrow> string \<Rightarrow> string \<Rightarrow> instant option \<Rightarrow> instant
   \<Rightarrow> (session_table \<times> session_record) res" where
  "session_mark_source_lost db sid cleanup_detail changed_at now =
     (if cleanup_detail = [] then Inl (ValueError ''cleanup_detail is required'')
      else session_modify db sid (\<lambda>rec.
        Inr (rec\<lparr>ses_source_status := ''lost'',
               ses_source_ended_at := Some (or_else changed_at now),
               ses_cleanup_status := ''failed'', ses_cleanup_detail := Some cleanup_detail\<rparr>)))"

subsection \<open>The row invariant\<close>

text \<open>
  What the columns of one row always say together: the status is one of the literals, a
  terminal status has an end time and no other one has, a session that reached running has
  a start time, only a failed session carries an error (a code and a message, and the two
  columns that mirror them), and the metrics are either all absent or those of a completed
  session, and then none of them is negative.
\<close>

definition known_count :: "int option \<Rightarrow> bool" where
  "known_count c = (case c of None \<Rightarrow> False | Some v \<Rightarrow> 0 \<le> v)"

definition metric_columns :: "session_record \<Rightarrow> int option list" where
  "metric_columns r = [ses_final_result_count r, ses_provider_error_count r,
     ses_sent_audio_chunk_count r, ses_sent_audio_bytes r]"

definition row_ok_at :: "session_status \<Rightarrow> session_record \<Rightarrow> bool" where
  "row_ok_at s r \<longleftrightarrow>
     (ses_ended_at r \<noteq> None) = is_terminal s
     \<and> (s \<in> {Running, Finalizing, Completed} \<longrightarrow> ses_started_at r \<noteq> None)
     \<and> (ses_error_code r \<noteq> None \<longrightarrow> s = Failed)
     \<and> (ses_error_message r = None) = (ses_error_code r = None)
     \<and> ses_failure_code r = ses_error_code r
     \<and> ses_failure_detail r = ses_error_message r
     \<and> (list_all (\<lambda>c. c = None) (metric_columns r)
        \<or> s = Completed \<and> list_all known_count (metric_columns r))"

definition session_row_ok :: "session_record \<Rightarrow> bool" where
  "session_row_ok r =
     (case parse_session_status (ses_status r) of Inl _ \<Rightarrow> False | Inr s \<Rightarrow> row_ok_at s r)"

lemma session_row_ok_at: "ses_status r = status_value s \<Longrightarrow> session_row_ok r = row_ok_at s r"
  by (simp add: session_row_ok_def)

text \<open>
  What the outcome of a session is reported with: a failed session has its error, a
  completed one all its metrics. \<open>fail\<close> and \<open>complete\<close> write them; a bare
  \<open>transition\<close> to \<open>failed\<close> or \<open>completed\<close> does not.
\<close>

definition row_reported_at :: "session_status \<Rightarrow> session_record \<Rightarrow> bool" where
  "row_reported_at s r \<longleftrightarrow>
     (ses_error_code r \<noteq> None) = (s = Failed)
     \<and> (s = Completed \<longrightarrow> list_all known_count (metric_columns r))"

definition session_row_reported :: "session_record \<Rightarrow> bool" where
  "session_row_reported r =
     (case parse_session_status (ses_status r) of Inl _ \<Rightarrow> False | Inr s \<Rightarrow> row_reported_at s r)"

lemma session_row_reported_at:
  "ses_status r = status_value s \<Longrightarrow> session_row_reported r = row_reported_at s r"
  by (simp add: session_row_reported_def)

text \<open>
  What one operation may do to a row: keep its identity, keep the invariant, move the
  status along the lifecycle only, and leave the times of a finished session alone.
\<close>

abbreviation lifecycle_path :: "(session_status \<times> session_status) set" where
  "lifecycle_path \<equiv> {(a, b). b \<in> session_targets a}\<^sup>*"

definition session_evolves :: "session_record \<Rightarrow> session_record \<Rightarrow> bool" where
  "session_evolves r r' \<longleftrightarrow>
     ses_id r' = ses_id r \<and> ses_created_at r' = ses_created_at r \<and>
     (\<forall>s. ses_status r = status_value s \<longrightarrow>
        (\<exists>s'. ses_status r' = status_value s' \<and> (s, s') \<in> lifecycle_path \<and>
          (is_terminal s \<longrightarrow> s' = s \<and> ses_ended_at r' = ses_ended_at r
                              \<and> ses_started_at r' = ses_started_at r))) \<and>
     (session_row_ok r \<longrightarrow> session_row_ok r')"

lemma session_evolves_refl [simp, intro]: "session_evolves r r"
  by (auto simp: session_evolves_def)

text \<open>Every operation but a bare finishing transition also keeps a row reported.\<close>

definition session_keeps :: "session_record \<Rightarrow> session_record \<Rightarrow> bool" where
  "session_keeps r r' \<longleftrightarrow> session_evolves r r' \<and>
     (session_row_ok r \<longrightarrow> session_row_reported r \<longrightarrow> session_row_reported r')"

lemma session_keeps_evolves: "session_keeps r r' \<Longrightarrow> session_evolves r r'"
  by (simp add: session_keeps_def)

lemma session_keeps_refl [simp, intro]: "session_keeps r r"
  by (simp add: session_keeps_def)

lemma session_keeps_same_status:
  assumes "ses_id r' = ses_id r" "ses_created_at r' = ses_created_at r"
    "ses_status r' = ses_status r" "ses_ended_at r' = ses_ended_at r"
    "ses_started_at r' = ses_started_at r" "session_row_ok r \<Longrightarrow> session_row_ok r'"
    "session_row_reported r \<Longrightarrow> session_row_reported r'"
  shows "session_keeps r r'"
  using assms by (auto simp: session_evolves_def session_keeps_def)

lemma session_evolves_status:
  assumes "session_evolves r r'" "ses_status r = status_value s"
  obtains s' where "ses_status r' = status_value s'" "(s, s') \<in> lifecycle_path"
    "is_terminal s \<Longrightarrow> s' = s \<and> ses_ended_at r' = ses_ended_at r
       \<and> ses_started_at r' = ses_started_at r"
  using assms unfolding session_evolves_def by blast

lemma transition_row_Inr:
  "transition_row target changed_at now r = Inr r' \<longleftrightarrow>
     (\<exists>s. ses_status r = status_value s \<and>
       (if s = target then r' = r
        else target \<in> session_targets s \<and> r' = set_status target (or_else changed_at now) r))"
  unfolding transition_row_def rbind_eq_Inr session.transition_Inr parse_session_status_Inr
  by (auto split: if_splits)

lemma session_evolvesI:
  assumes "ses_id r' = ses_id r" "ses_created_at r' = ses_created_at r"
    and "ses_status r = status_value s" "ses_status r' = status_value s'"
    and "s' = s \<or> s' \<in> session_targets s"
    and "is_terminal s \<Longrightarrow> ses_ended_at r' = ses_ended_at r \<and> ses_started_at r' = ses_started_at r"
    and "row_ok_at s r \<Longrightarrow> row_ok_at s' r'"
  shows "session_evolves r r'"
  using assms is_terminal_targets [of s]
  by (auto simp: session_evolves_def session_row_ok_at simp del: is_terminal_iff)

lemma session_keepsI:
  assumes "session_evolves r r'"
    and "ses_status r = status_value s" "ses_status r' = status_value s'"
    and "row_ok_at s r \<Longrightarrow> row_reported_at s r \<Longrightarrow> row_reported_at s' r'"
  shows "session_keeps r r'"
  using assms by (simp add: session_keeps_def session_row_ok_at session_row_reported_at)

lemma session_evolves_trans [trans]:
  assumes 12: "session_evolves r1 r2" and 23: "session_evolves r2 r3"
  shows "session_evolves r1 r3"
proof -
  have "\<exists>u. ses_status r3 = status_value u \<and> (s, u) \<in> lifecycle_path \<and>
      (is_terminal s \<longrightarrow> u = s \<and> ses_ended_at r3 = ses_ended_at r1
         \<and> ses_started_at r3 = ses_started_at r1)" if s: "ses_status r1 = status_value s" for s
  proof -
    obtain t where t: "ses_status r2 = status_value t" "(s, t) \<in> lifecycle_path"
      "is_terminal s \<Longrightarrow> t = s \<and> ses_ended_at r2 = ses_ended_at r1
         \<and> ses_started_at r2 = ses_started_at r1"
      using session_evolves_status [OF 12 s] by blast
    obtain u where u: "ses_status r3 = status_value u" "(t, u) \<in> lifecycle_path"
      "is_terminal t \<Longrightarrow> u = t \<and> ses_ended_at r3 = ses_ended_at r2
         \<and> ses_started_at r3 = ses_started_at r2"
      using session_evolves_status [OF 23 t(1)] by blast
    have "(s, u) \<in> lifecycle_path" by (rule rtrancl_trans [OF t(2) u(2)])
    moreover have "u = s \<and> ses_ended_at r3 = ses_ended_at r1 \<and> ses_started_at r3 = ses_started_at r1"
      if "is_terminal s"
      using t(3) [OF that] u(3) that by (simp del: is_terminal_iff)
    ultimately show ?thesis using u(1) by blast
  qed
  note path = this
  have ids: "ses_id r3 = ses_id r1" "ses_created_at r3 = ses_created_at r1"
    and ok: "session_row_ok r1 \<Longrightarrow> session_row_ok r3"
    using 12 23 unfolding session_evolves_def by simp_all
  show ?thesis
    unfolding session_evolves_def using ids ok path by blast
qed

lemma session_keeps_trans [trans]:
  "session_keeps r1 r2 \<Longrightarrow> session_keeps r2 r3 \<Longrightarrow> session_keeps r1 r3"
  unfolding session_keeps_def using session_evolves_trans
  by (metis session_evolves_def)

lemma transition_row_evolves:
  assumes "transition_row t ca now r = Inr r1"
  shows "session_evolves r r1"
proof -
  from assms(1) obtain s where s: "ses_status r = status_value s"
    "if s = t then r1 = r else t \<in> session_targets s \<and> r1 = set_status t (or_else ca now) r"
    unfolding transition_row_Inr by blast
  show ?thesis
  proof (cases "s = t")
    case False
    then have t: "t \<in> session_targets s" and r1: "r1 = set_status t (or_else ca now) r"
      using s(2) by simp_all
    have nt: "\<not> is_terminal s" using t is_terminal_targets [of s] by auto
    show ?thesis
    proof (rule session_evolvesI [OF _ _ s(1), of _ t])
      show "row_ok_at t r1" if "row_ok_at s r"
        using that t unfolding r1 set_status_def row_ok_at_def metric_columns_def
        by (cases s; cases t) auto
    qed (simp_all add: r1 set_status_def t nt del: is_terminal_iff)
  qed (use s in simp)
qed

text \<open>A transition reports the outcome unless it newly completes or fails the session.\<close>

lemma transition_row_keeps:
  assumes tr: "transition_row t ca now r = Inr r1"
    and "t \<in> {Completed, Failed} \<Longrightarrow> ses_status r = status_value t"
  shows "session_keeps r r1"
proof -
  from tr obtain s where s: "ses_status r = status_value s"
    "if s = t then r1 = r else t \<in> session_targets s \<and> r1 = set_status t (or_else ca now) r"
    unfolding transition_row_Inr by blast
  show ?thesis
  proof (cases "s = t")
    case False
    then have t: "t \<in> session_targets s" and r1: "r1 = set_status t (or_else ca now) r"
      using s(2) by simp_all
    have "t \<notin> {Completed, Failed}" using assms(2) s(1) False by auto
    with t show ?thesis
      by (intro session_keepsI [OF transition_row_evolves [OF tr] s(1), of t])
        (cases s; auto simp: r1 set_status_def row_reported_at_def row_ok_at_def)+
  qed (use s in simp)
qed

text \<open>
  A terminal transition followed by the columns the operation writes with it.
\<close>

lemma transition_row_then_keeps:
  assumes "transition_row t ca now r = Inr r1" and "r' = f r1"
    and "\<And>x. ses_id (f x) = ses_id x \<and> ses_created_at (f x) = ses_created_at x
           \<and> ses_status (f x) = ses_status x \<and> ses_ended_at (f x) = ses_ended_at x
           \<and> ses_started_at (f x) = ses_started_at x"
    and "\<And>x. ses_ended_at x \<noteq> None \<Longrightarrow> ses_started_at x \<noteq> None \<or> t \<noteq> Completed
           \<Longrightarrow> list_all (\<lambda>c. c = None) (metric_columns x) \<or> t = Completed
           \<Longrightarrow> row_ok_at t (f x) \<and> row_reported_at t (f x)"
    and "t \<in> {Completed, Failed, Cancelled}"
  shows "session_keeps r r'"
proof -
  from assms(1) obtain s where s: "ses_status r = status_value s"
    "if s = t then r1 = r else t \<in> session_targets s \<and> r1 = set_status t (or_else ca now) r"
    unfolding transition_row_Inr by blast
  have st: "ses_status r1 = status_value t" "s = t \<or> t \<in> session_targets s"
    using s by (auto simp: set_status_def split: if_splits)
  have keep: "is_terminal s \<Longrightarrow> r1 = r"
    using s st(2) is_terminal_targets [of s] by (auto split: if_splits)
  have ids: "ses_id r1 = ses_id r" "ses_created_at r1 = ses_created_at r"
    "metric_columns r1 = metric_columns r"
    using s by (auto simp: set_status_def metric_columns_def split: if_splits)
  have ok: "row_ok_at t r' \<and> row_reported_at t r'" if "row_ok_at s r"
    unfolding assms(2)
  proof (rule assms(4))
    show "ses_ended_at r1 \<noteq> None"
      using s that assms(5) by (cases "s = t") (auto simp: set_status_def row_ok_at_def)
    show "ses_started_at r1 \<noteq> None \<or> t \<noteq> Completed"
      using s that by (cases "s = t"; cases s) (auto simp: set_status_def row_ok_at_def)
    show "list_all (\<lambda>c. c = None) (metric_columns r1) \<or> t = Completed"
      using st(2) that unfolding ids(3) by (cases s) (auto simp: row_ok_at_def)
  qed
  have st': "ses_status r' = status_value t" using st(1) assms(2,3) by simp
  have "session_evolves r r'"
    by (rule session_evolvesI [of _ _ s t])
      (use s st keep ids ok assms(2,3) in \<open>auto simp del: is_terminal_iff\<close>)
  then show ?thesis by (rule session_keepsI [OF _ s(1) st']) (use ok in blast)
qed

subsection \<open>Steps of the repository and reachable tables\<close>

text \<open>
  One step is one successful repository operation with any arguments (a raising one is
  rolled back and changes nothing): one of the named operations, or the public
  \<open>transition\<close> with any target.
\<close>

inductive session_named_step :: "session_table \<Rightarrow> session_table \<Rightarrow> bool" where
  step_mark_room_ready: "session_mark_room_ready db i now = Inr (db', r) \<Longrightarrow> session_named_step db db'"
| step_start_replay: "session_start_replay db i ca now = Inr (db', r) \<Longrightarrow> session_named_step db db'"
| step_mark_transcribing:
    "session_mark_transcribing db i p m ca now = Inr (db', r) \<Longrightarrow> session_named_step db db'"
| step_begin_finalizing:
    "session_begin_finalizing db i ca now = Inr (db', r) \<Longrightarrow> session_named_step db db'"
| step_complete: "session_complete db i a b c d e f ca sr now = Inr (db', r) \<Longrightarrow> session_named_step db db'"
| step_fail: "session_fail db i ec em ca now = Inr (db', r) \<Longrightarrow> session_named_step db db'"
| step_cancel: "session_cancel db i ca sr' now = Inr (db', r) \<Longrightarrow> session_named_step db db'"
| step_translation_starting:
    "session_mark_translation_starting db i p m = Inr (db', r) \<Longrightarrow> session_named_step db db'"
| step_translation_active: "session_mark_translation_active db i = Inr (db', r) \<Longrightarrow> session_named_step db db'"
| step_translation_finalizing:
    "session_begin_translation_finalizing db i = Inr (db', r) \<Longrightarrow> session_named_step db db'"
| step_complete_translation:
    "session_complete_translation db i now = Inr (db', r) \<Longrightarrow> session_named_step db db'"
| step_fail_translation:
    "session_fail_translation db i ec em now = Inr (db', r) \<Longrightarrow> session_named_step db db'"
| step_source_running: "session_mark_source_running db i = Inr (db', r) \<Longrightarrow> session_named_step db db'"
| step_source_stopping: "session_mark_source_stopping db i = Inr (db', r) \<Longrightarrow> session_named_step db db'"
| step_source_stopped:
    "session_mark_source_stopped db i cd ca now = Inr (db', r) \<Longrightarrow> session_named_step db db'"
| step_cleanup_failed:
    "session_mark_source_cleanup_failed db i cd' now = Inr (db', r) \<Longrightarrow> session_named_step db db'"
| step_source_lost:
    "session_mark_source_lost db i cd' ca now = Inr (db', r) \<Longrightarrow> session_named_step db db'"

inductive session_step :: "session_table \<Rightarrow> session_table \<Rightarrow> bool" where
  step_transition: "session_transition db i t ca now = Inr (db', r) \<Longrightarrow> session_step db db'"
| step_named: "session_named_step db db' \<Longrightarrow> session_step db db'"

inductive session_reachable :: "session_table \<Rightarrow> bool" where
  reach_empty: "session_reachable []"
| reach_create: "session_reachable db \<Longrightarrow>
     session_create db rn ri st sn lg tg i ca ni now = Inr (db', r) \<Longrightarrow> session_reachable db'"
| reach_step: "session_reachable db \<Longrightarrow> session_step db db' \<Longrightarrow> session_reachable db'"

text \<open>
  The same histories, remembering the sessions that a bare \<open>transition\<close> moved to
  \<open>completed\<close> or \<open>failed\<close>.
\<close>

definition finished_bare :: "session_table \<Rightarrow> string \<Rightarrow> session_status \<Rightarrow> string set" where
  "finished_bare db i t =
     (case session_get db i of
        None \<Rightarrow> {}
      | Some r \<Rightarrow> if t \<in> {Completed, Failed} \<and> ses_status r \<noteq> status_value t then {i} else {})"

inductive session_history :: "string set \<Rightarrow> session_table \<Rightarrow> bool" where
  history_empty: "session_history {} []"
| history_create: "session_history bare db \<Longrightarrow>
     session_create db rn ri st sn lg tg i ca ni now = Inr (db', r) \<Longrightarrow> session_history bare db'"
| history_transition: "session_history bare db \<Longrightarrow>
     session_transition db i t ca now = Inr (db', r) \<Longrightarrow>
     session_history (bare \<union> finished_bare db i t) db'"
| history_named: "session_history bare db \<Longrightarrow> session_named_step db db' \<Longrightarrow>
     session_history bare db'"

lemma session_reachable_history: "session_reachable db \<longleftrightarrow> (\<exists>bare. session_history bare db)"
proof
  show "session_reachable db \<Longrightarrow> \<exists>bare. session_history bare db"
    by (induction rule: session_reachable.induct)
      (blast intro: session_history.intros elim: session_step.cases)+
  assume "\<exists>bare. session_history bare db"
  then obtain bare where "session_history bare db" by blast
  then show "session_reachable db"
    by induction (blast intro: session_reachable.intros session_step.intros)+
qed

lemma reach_running_keeps:
  assumes "reach_running w ca now r = Inr r'"
  shows "session_keeps r r'"
proof -
  from assms consider (two) r1 where "transition_row Starting ca now r = Inr r1"
      "transition_row Running ca now r1 = Inr r'"
    | (one) "transition_row Running ca now r = Inr r'" | (same) "r' = r"
    by (auto simp: reach_running_def rbind_eq_Inr split: if_splits)
  then show ?thesis
  proof cases
    case two
    then have "session_keeps r r1" "session_keeps r1 r'"
      by (auto intro: transition_row_keeps)
    then show ?thesis by (rule session_keeps_trans)
  qed (auto intro: transition_row_keeps)
qed

lemma mark_transcribing_keeps:
  assumes "reach_running w ca now r = Inr r1"
  shows "session_keeps r (r1\<lparr>ses_asr_provider := p, ses_asr_model := m\<rparr>)"
  by (rule session_keeps_trans [OF reach_running_keeps [OF assms] session_keeps_same_status])
    (auto simp: session_row_ok_def row_ok_at_def session_row_reported_def row_reported_at_def
      metric_columns_def split: sum.splits)

lemma known_count_Some [simp]: "known_count (Some v) \<longleftrightarrow> 0 \<le> v"
  by (simp add: known_count_def)

text \<open>The operations on the translation track and the source leave the lifecycle columns alone.\<close>

definition lifecycle_columns where
  "lifecycle_columns r =
     ((ses_id r, ses_created_at r, ses_status r, ses_started_at r, ses_ended_at r),
      (ses_error_code r, ses_error_message r, ses_failure_code r, ses_failure_detail r),
      (ses_final_result_count r, ses_provider_error_count r, ses_sent_audio_chunk_count r,
       ses_sent_audio_bytes r))"

lemma same_lifecycle_keeps:
  "lifecycle_columns r' = lifecycle_columns r \<Longrightarrow> session_keeps r r'"
  by (rule session_keeps_same_status)
    (auto simp: lifecycle_columns_def session_row_ok_def row_ok_at_def session_row_reported_def
      row_reported_at_def metric_columns_def split: sum.splits)

lemma lifecycle_columns_update [simp]:
  "lifecycle_columns (r\<lparr>ses_translation_status := a\<rparr>) = lifecycle_columns r"
  "lifecycle_columns (r\<lparr>ses_translation_provider := b\<rparr>) = lifecycle_columns r"
  "lifecycle_columns (r\<lparr>ses_translation_model := b\<rparr>) = lifecycle_columns r"
  "lifecycle_columns (r\<lparr>ses_translation_error_code := b\<rparr>) = lifecycle_columns r"
  "lifecycle_columns (r\<lparr>ses_translation_error_message := b\<rparr>) = lifecycle_columns r"
  "lifecycle_columns (r\<lparr>ses_translation_ended_at := c\<rparr>) = lifecycle_columns r"
  "lifecycle_columns (r\<lparr>ses_source_status := a\<rparr>) = lifecycle_columns r"
  "lifecycle_columns (r\<lparr>ses_source_ended_at := c\<rparr>) = lifecycle_columns r"
  "lifecycle_columns (r\<lparr>ses_cleanup_status := a\<rparr>) = lifecycle_columns r"
  "lifecycle_columns (r\<lparr>ses_cleanup_detail := b\<rparr>) = lifecycle_columns r"
  by (simp_all add: lifecycle_columns_def)

lemma complete_keeps:
  assumes "transition_row Completed ca now r = Inr r1" "0 \<le> a" "0 \<le> d" "0 \<le> e" "0 \<le> f"
  shows "session_keeps r (completion_columns a b c d e f sr r1)"
  by (rule transition_row_then_keeps [OF assms(1) refl])
    (use assms in \<open>auto simp: completion_columns_def row_ok_at_def row_reported_at_def metric_columns_def\<close>)

lemma fail_keeps:
  assumes "transition_row Failed ca now r = Inr r1"
  shows "session_keeps r (failure_columns ec em r1)"
  by (rule transition_row_then_keeps [OF assms refl])
    (auto simp: failure_columns_def row_ok_at_def row_reported_at_def metric_columns_def)

lemma cancel_keeps:
  assumes "transition_row Cancelled ca now r = Inr r1"
  shows "session_keeps r (cancellation_columns sr r1)"
  by (rule transition_row_then_keeps [OF assms refl])
    (auto simp: cancellation_columns_def row_ok_at_def row_reported_at_def metric_columns_def)

lemma session_named_step_keeps:
  assumes "session_named_step db db'" and dist: "distinct (map ses_id db)"
  shows "list_all2 session_keeps db db'"
  using assms(1)
proof cases
  case step_mark_room_ready
  then show ?thesis
    unfolding session_mark_room_ready_def
    by - (rule modify_row_rel [OF dist], assumption,
        auto simp: rbind_eq_Inr intro: transition_row_keeps split: if_splits)
next
  case step_start_replay
  then show ?thesis
    unfolding session_start_replay_def
    by - (rule modify_row_rel [OF dist], assumption, auto intro: reach_running_keeps)
next
  case step_mark_transcribing
  then show ?thesis
    unfolding session_mark_transcribing_def
    by (auto simp: rbind_eq_Inr intro!: mark_transcribing_keeps split: if_splits
        elim!: modify_row_rel [OF dist])
next
  case step_begin_finalizing
  then show ?thesis
    unfolding session_begin_finalizing_def session_transition_def
    by - (rule modify_row_rel [OF dist], assumption, auto intro: transition_row_keeps)
next
  case step_complete
  then show ?thesis
    unfolding session_complete_def
    by (auto simp: rbind_eq_Inr not_less intro!: complete_keeps split: if_splits
        elim!: modify_row_rel [OF dist])
next
  case step_fail
  then show ?thesis
    unfolding session_fail_def
    by (auto simp: rbind_eq_Inr not_less intro!: fail_keeps split: if_splits
        elim!: modify_row_rel [OF dist])
next
  case step_cancel
  then show ?thesis
    unfolding session_cancel_def
    by (auto simp: rbind_eq_Inr not_less intro!: cancel_keeps split: if_splits
        elim!: modify_row_rel [OF dist])
next
  case step_translation_starting
  then show ?thesis
    unfolding session_mark_translation_starting_def Let_def
    by (auto intro!: same_lifecycle_keeps split: if_splits elim!: modify_row_rel [OF dist])
next
  case step_translation_active
  then show ?thesis
    unfolding session_mark_translation_active_def Let_def
    by (auto intro!: same_lifecycle_keeps split: if_splits elim!: modify_row_rel [OF dist])
next
  case step_translation_finalizing
  then show ?thesis
    unfolding session_begin_translation_finalizing_def Let_def
    by (auto intro!: same_lifecycle_keeps split: if_splits elim!: modify_row_rel [OF dist])
next
  case step_complete_translation
  then show ?thesis
    unfolding session_complete_translation_def Let_def
    by (auto intro!: same_lifecycle_keeps split: if_splits elim!: modify_row_rel [OF dist])
next
  case step_fail_translation
  then show ?thesis
    unfolding session_fail_translation_def Let_def
    by (auto intro!: same_lifecycle_keeps split: if_splits elim!: modify_row_rel [OF dist])
next
  case step_source_running
  then show ?thesis
    unfolding session_mark_source_running_def Let_def
    by (auto intro!: same_lifecycle_keeps split: if_splits elim!: modify_row_rel [OF dist])
next
  case step_source_stopping
  then show ?thesis
    unfolding session_mark_source_stopping_def Let_def
    by (auto intro!: same_lifecycle_keeps split: if_splits elim!: modify_row_rel [OF dist])
next
  case step_source_stopped
  then show ?thesis
    unfolding session_mark_source_stopped_def Let_def
    by (auto intro!: same_lifecycle_keeps split: if_splits elim!: modify_row_rel [OF dist])
next
  case step_cleanup_failed
  then show ?thesis
    unfolding session_mark_source_cleanup_failed_def Let_def
    by (auto intro!: same_lifecycle_keeps split: if_splits elim!: modify_row_rel [OF dist])
next
  case step_source_lost
  then show ?thesis
    unfolding session_mark_source_lost_def Let_def
    by (auto intro!: same_lifecycle_keeps split: if_splits elim!: modify_row_rel [OF dist])
qed

lemma session_transition_evolves:
  assumes "session_transition db i t ca now = Inr (db', r)" and dist: "distinct (map ses_id db)"
  shows "list_all2 session_evolves db db'"
  using assms(1) unfolding session_transition_def
  by - (rule modify_row_rel [OF dist], assumption, auto intro: transition_row_evolves)

lemma session_step_evolves:
  assumes "session_step db db'" and dist: "distinct (map ses_id db)"
  shows "list_all2 session_evolves db db'"
  using assms(1)
proof cases
  case step_transition
  then show ?thesis using session_transition_evolves dist by blast
next
  case step_named
  show ?thesis
    by (rule list_all2_mono [OF session_named_step_keeps [OF step_named dist] session_keeps_evolves])
qed

lemma session_create_Inr:
  assumes "session_create db rn ri st sn lg tg i ca ni now = Inr (db', r)"
  shows "db' = db @ [r] \<and> ses_id r \<notin> set (map ses_id db) \<and> session_row_ok r
    \<and> session_row_reported r"
proof -
  have "''created'' = status_value Created" by (simp add: status_value.simps)
  with assms show ?thesis
    by (auto simp: session_create_def Let_def session_row_ok_def row_ok_at_def metric_columns_def
        session_row_reported_def row_reported_at_def split: if_splits)
qed

lemma session_evolves_id: "session_evolves r r' \<Longrightarrow> ses_id r' = ses_id r"
  by (simp add: session_evolves_def)

lemma session_reachable_ids: "session_reachable db \<Longrightarrow> distinct (map ses_id db)"
proof (induction rule: session_reachable.induct)
  case (reach_create db rn ri st sn lg tg i ca ni now db' r)
  with session_create_Inr [OF reach_create.hyps(2)] show ?case by auto
next
  case (reach_step db db')
  then have "list_all2 session_evolves db db'" by (blast intro: session_step_evolves)
  then have "map ses_id db' = map ses_id db" by (rule list_all2_keys) (rule session_evolves_id)
  with reach_step.IH show ?case by simp
qed simp

text \<open>A table with one session, created and then cancelled.\<close>

definition demo_session :: session_record where
  "demo_session = snd (projr (session_create [] ''room'' None ''hls'' ''feed'' ''en'' None
     (Some ''s1'') (Some 1) ''x'' 1))"

definition demo_cancelled :: session_record where
  "demo_cancelled = cancellation_columns ''user'' (set_status Cancelled 7 demo_session)"

lemma demo_session_created:
  "session_create [] ''room'' None ''hls'' ''feed'' ''en'' None (Some ''s1'') (Some 1) ''x'' 1
     = Inr ([demo_session], demo_session)"
  by (simp add: demo_session_def session_create_def Let_def)

lemma demo_session_columns: "ses_id demo_session = ''s1''" "ses_status demo_session = status_value Created"
  by (simp_all add: demo_session_def session_create_def Let_def str_or_def status_value.simps)

lemma demo_session_cancelled:
  "session_cancel [demo_session] ''s1'' (Some 7) ''user'' 9 = Inr ([demo_cancelled], demo_cancelled)"
proof -
  have "transition_row Cancelled (Some 7) 9 demo_session = Inr (set_status Cancelled 7 demo_session)"
    unfolding transition_row_Inr by (auto simp: demo_session_columns)
  then show ?thesis
    by (simp add: session_cancel_def modify_row_def demo_session_columns demo_cancelled_def
        update_rows_def)
qed

lemma demo_session_reachable: "session_reachable [demo_session]" "session_reachable [demo_cancelled]"
proof -
  show 1: "session_reachable [demo_session]"
    by (rule reach_create [OF reach_empty demo_session_created])
  show "session_reachable [demo_cancelled]"
    by (rule reach_step [OF 1 step_named [OF step_cancel [OF demo_session_cancelled]]])
qed

text \<open>
  The public \<open>transition\<close> on the same session: through \<open>starting\<close> to \<open>failed\<close>.
\<close>

definition demo_bare :: session_record where
  "demo_bare = set_status Failed 9 (set_status Starting 8 demo_session)"

lemma demo_history: "session_history {} [demo_cancelled]" "session_history {''s1''} [demo_bare]"
proof -
  have c: "session_history {} [demo_session]"
    by (rule history_create [OF history_empty demo_session_created])
  show "session_history {} [demo_cancelled]"
    by (rule history_named [OF c step_cancel [OF demo_session_cancelled]])
  let ?r = "set_status Starting 8 demo_session"
  have st: "ses_status ?r = status_value Starting" "ses_id ?r = ''s1''"
    by (simp_all add: set_status_def demo_session_columns)
  have "transition_row Starting (Some 8) 0 demo_session = Inr ?r"
    "transition_row Failed (Some 9) 0 ?r = Inr demo_bare"
    unfolding transition_row_Inr demo_bare_def by (auto simp: demo_session_columns st)
  then have t: "session_transition [demo_session] ''s1'' Starting (Some 8) 0 = Inr ([?r], ?r)"
      "session_transition [?r] ''s1'' Failed (Some 9) 0 = Inr ([demo_bare], demo_bare)"
    by (simp_all add: session_transition_def modify_row_def demo_session_columns st update_rows_def)
  have "finished_bare [demo_session] ''s1'' Starting = {}"
    "finished_bare [?r] ''s1'' Failed = {''s1''}"
    by (simp_all add: finished_bare_def session_get_def demo_session_columns st)
  with history_transition [OF history_transition [OF c t(1)] t(2)]
  show "session_history {''s1''} [demo_bare]" by simp
qed

text \<open>
  A transition keeps every row reported but the one it newly completes or fails.
\<close>

lemma session_transition_keeps:
  assumes tr: "session_transition db i t ca now = Inr (db', r)"
    and dist: "distinct (map ses_id db)"
  shows "list_all2 (\<lambda>x y. ses_id x \<in> finished_bare db i t \<or> session_keeps x y) db db'"
proof -
  obtain x where x: "find_row (\<lambda>r. ses_id r = i) db = Some x"
    "transition_row t ca now x = Inr r" "db' = update_rows (\<lambda>x. ses_id x = i) (\<lambda>_. r) db"
    using tr unfolding session_transition_def modify_row_def
    by (auto simp: rbind_eq_Inr split: option.splits)
  have "ses_id x = i" using x(1) by (auto dest: find_row_Some)
  then have "ses_id x \<in> finished_bare db i t \<or> session_keeps x r"
    using transition_row_keeps [OF x(2)] x(1) by (auto simp: finished_bare_def session_get_def)
  then show ?thesis
    unfolding x(3) by (intro list_all2_update_row [OF dist x(1)]) auto
qed

lemma rows_kept:
  assumes "list_all2 session_evolves db db'"
    and "list_all2 (\<lambda>x y. ses_id x \<in> new \<or> session_keeps x y) db db'"
    and "list_all session_row_ok db \<and> (\<forall>r \<in> set db. ses_id r \<in> old \<or> session_row_reported r)"
  shows "list_all session_row_ok db'
    \<and> (\<forall>r \<in> set db'. ses_id r \<in> old \<union> new \<or> session_row_reported r)"
  using assms
proof (induction rule: list_all2_induct)
  case (Cons x xs y ys)
  then show ?case
    by (auto simp: session_keeps_def session_evolves_def)
qed simp

text \<open>
  C2. Every table the repository can produce, by any interleaving of creations and of
  successful operations with any arguments (the public \<open>transition\<close> to any target
  included): the session ids are unique and every row is consistent: a known status, an end
  time exactly when the status is terminal, a start time from running on, an error (code,
  message and their mirrors together) only when failed, and metrics, all four and none
  negative, only when completed. Moreover every failed session carries its error and every
  completed one its metrics, except the sessions that a bare \<open>transition\<close>, which
  writes neither, moved to failed or completed.
\<close>

theorem session_table_invariant:
  assumes "session_history bare db"
  shows "session_reachable db \<and> distinct (map ses_id db) \<and> list_all session_row_ok db
    \<and> (\<forall>r \<in> set db. ses_id r \<in> bare \<or> session_row_reported r)"
proof -
  have reach: "session_reachable db" using assms session_reachable_history by blast
  have "list_all session_row_ok db \<and> (\<forall>r \<in> set db. ses_id r \<in> bare \<or> session_row_reported r)"
    using assms
  proof (induction rule: session_history.induct)
    case (history_create bare db rn ri st sn lg tg i ca ni now db' r)
    with session_create_Inr [OF history_create.hyps(2)] show ?case by auto
  next
    case (history_transition bare db i t ca now db' r)
    then have dist: "distinct (map ses_id db)"
      using session_reachable_history session_reachable_ids by blast
    note step = history_transition.hyps(2) history_transition.IH dist
    show ?case
      using rows_kept [OF session_transition_evolves [OF step(1,3)]
          session_transition_keeps [OF step(1,3)]] step(2) by blast
  next
    case (history_named bare db db')
    then have "distinct (map ses_id db)"
      using session_reachable_history session_reachable_ids by blast
    with history_named.hyps(2) have k: "list_all2 session_keeps db db'"
      by (rule session_named_step_keeps)
    have "list_all2 (\<lambda>x y. ses_id x \<in> {} \<or> session_keeps x y) db db'"
      by (rule list_all2_mono [OF k]) simp
    from rows_kept [OF list_all2_mono [OF k session_keeps_evolves] this history_named.IH]
    show ?case by simp
  qed simp
  with reach show ?thesis using session_reachable_ids by blast
qed

theorem session_table_invariant_witness:
  "session_history {} [demo_cancelled] \<and> session_row_ok demo_cancelled
   \<and> session_row_reported demo_cancelled
   \<and> session_history {''s1''} [demo_bare] \<and> session_row_ok demo_bare
   \<and> \<not> session_row_reported demo_bare"
proof -
  have "ses_status demo_bare = status_value Failed" "ses_error_code demo_bare = None"
    by (simp_all add: demo_bare_def set_status_def demo_session_def session_create_def Let_def)
  then have "\<not> session_row_reported demo_bare"
    by (simp add: session_row_reported_at row_reported_at_def)
  then show ?thesis
    using session_table_invariant [OF demo_history(1)] session_table_invariant [OF demo_history(2)]
      demo_history by simp
qed

text \<open>
  A finished session stays finished: one more successful operation, whatever it is,
  leaves the status, the start time and the end time of a terminal row unchanged, and never
  removes the row.
\<close>

lemma terminal_session_frozen:
  assumes "session_reachable db" and "session_step db db'" and "k < length db"
    and "ses_status (db ! k) \<in> {''completed'', ''failed'', ''cancelled''}"
  shows "length db' = length db \<and> ses_id (db' ! k) = ses_id (db ! k)
    \<and> ses_status (db' ! k) = ses_status (db ! k)
    \<and> ses_started_at (db' ! k) = ses_started_at (db ! k)
    \<and> ses_ended_at (db' ! k) = ses_ended_at (db ! k)"
proof -
  have ev: "list_all2 session_evolves db db'"
    using session_step_evolves assms(2) session_reachable_ids [OF assms(1)] .
  with assms(3) have evk: "session_evolves (db ! k) (db' ! k)"
    by (simp add: list_all2_conv_all_nth)
  from assms(4) obtain s where s: "ses_status (db ! k) = status_value s" "is_terminal s"
    by (auto simp: status_value.simps(5-7) [symmetric])
  obtain s' where s': "ses_status (db' ! k) = status_value s'"
    "s' = s \<and> ses_ended_at (db' ! k) = ses_ended_at (db ! k)
       \<and> ses_started_at (db' ! k) = ses_started_at (db ! k)"
    using session_evolves_status [OF evk s(1)] s(2) by blast
  show ?thesis
    using s(1) s' session_evolves_id [OF evk] list_all2_lengthD [OF ev] by simp
qed

end
