(* ===== verification/Reconciler.thy ===== *)
theory Reconciler
  imports Prelude
begin

section \<open>The interface of a revision reconciler\<close>

text \<open>
  Both caption tracks (source transcript and translation) turn provider events into
  revisions of segments with the same contract. The locale states it once: what a consumed
  event does to the last revision and the finality of a segment, and that an event already
  consumed is ignored. Its lemmas are about whole event streams.
\<close>

fun consume_all ::
  "('s \<Rightarrow> 'e \<Rightarrow> ('s \<times> 'c option) res) \<Rightarrow> 's \<Rightarrow> 'e list \<Rightarrow> ('s \<times> 'c list) res" where
  "consume_all consume s [] = Inr (s, [])"
| "consume_all consume s (e # es) =
     rbind (consume s e) (\<lambda>(s1, out).
     rbind (consume_all consume s1 es) (\<lambda>(s2, outs).
       Inr (s2, (case out of None \<Rightarrow> outs | Some c \<Rightarrow> c # outs))))"

locale revision_reconciler =
  fixes consume :: "'s \<Rightarrow> 'e \<Rightarrow> ('s \<times> 'c option) res"
    and inv :: "'s \<Rightarrow> bool"
    and seg :: "'c \<Rightarrow> string"
    and rev_no :: "'c \<Rightarrow> int"
    and fin :: "'c \<Rightarrow> bool"
    and last_rev :: "'s \<Rightarrow> string \<Rightarrow> int"
    and finalized :: "'s \<Rightarrow> string \<Rightarrow> bool"
  assumes inv_consume: "inv s \<Longrightarrow> consume s e = Inr (s', out) \<Longrightarrow> inv s'"
    and silent_state: "inv s \<Longrightarrow> consume s e = Inr (s', None) \<Longrightarrow>
      last_rev s' = last_rev s \<and> finalized s' = finalized s"
    and emitted_state: "inv s \<Longrightarrow> consume s e = Inr (s', Some c) \<Longrightarrow>
      \<not> finalized s (seg c) \<and> rev_no c = last_rev s (seg c) + 1
      \<and> last_rev s' = (last_rev s)(seg c := rev_no c)
      \<and> finalized s' = (finalized s)(seg c := fin c)"
    and replay_ignored: "consume s e = Inr (s', out) \<Longrightarrow> consume s' e = Inr (s', None)"
begin

lemma consume_all_inv:
  "inv s \<Longrightarrow> consume_all consume s es = Inr (s', outs) \<Longrightarrow> inv s'"
  by (induction es arbitrary: s outs)
    (auto simp: rbind_eq_Inr split: prod.splits dest: inv_consume)

lemma consume_all_Cons_cases:
  assumes "consume_all consume s (e # es) = Inr (s', outs)"
  obtains (silent) s1 where "consume s e = Inr (s1, None)" "consume_all consume s1 es = Inr (s', outs)"
    | (emitted) s1 c outs1 where "consume s e = Inr (s1, Some c)"
        "consume_all consume s1 es = Inr (s', outs1)" "outs = c # outs1"
  using assms by (auto simp: rbind_eq_Inr split: option.splits)

text \<open>The revisions emitted for one segment continue its last revision without a gap.\<close>

lemma revisions_consecutive:
  assumes "inv s" and "consume_all consume s es = Inr (s', outs)"
  shows "map rev_no (filter (\<lambda>c. seg c = k) outs) = [last_rev s k + 1 .. last_rev s' k]
    \<and> last_rev s k \<le> last_rev s' k"
  using assms
proof (induction es arbitrary: s outs)
  case (Cons e es)
  from Cons.prems(2) show ?case
  proof (cases rule: consume_all_Cons_cases)
    case (silent s1)
    then show ?thesis
      using Cons.IH [of s1] inv_consume [OF Cons.prems(1) silent(1)]
        silent_state [OF Cons.prems(1) silent(1)] by simp
  next
    case (emitted s1 c outs1)
    note st = emitted_state [OF Cons.prems(1) emitted(1)]
    have IH: "map rev_no (filter (\<lambda>c. seg c = k) outs1) = [last_rev s1 k + 1 .. last_rev s' k]
        \<and> last_rev s1 k \<le> last_rev s' k"
      using Cons.IH [OF inv_consume [OF Cons.prems(1) emitted(1)] emitted(2)] .
    show ?thesis
    proof (cases "seg c = k")
      case True
      then show ?thesis
        using st IH emitted(3) by (auto simp: upto_rec1)
    qed (use st IH emitted(3) in auto)
  qed
qed simp

text \<open>A final revision closes its segment: it is the last one emitted for it.\<close>

lemma final_closes:
  assumes "inv s" and "consume_all consume s es = Inr (s', outs)"
  shows "(finalized s k \<longrightarrow> filter (\<lambda>c. seg c = k) outs = []) \<and>
     list_all (\<lambda>c. \<not> fin c) (butlast (filter (\<lambda>c. seg c = k) outs))"
  using assms
proof (induction es arbitrary: s outs)
  case (Cons e es)
  from Cons.prems(2) show ?case
  proof (cases rule: consume_all_Cons_cases)
    case (silent s1)
    then show ?thesis
      using Cons.IH [of s1] inv_consume [OF Cons.prems(1) silent(1)]
        silent_state [OF Cons.prems(1) silent(1)] by simp
  next
    case (emitted s1 c outs1)
    note st = emitted_state [OF Cons.prems(1) emitted(1)]
    note IH = Cons.IH [OF inv_consume [OF Cons.prems(1) emitted(1)] emitted(2)]
    show ?thesis
      using st IH emitted(3) by (auto split: if_splits)
  qed
qed simp

lemma at_most_one_final:
  assumes "inv s" and "consume_all consume s es = Inr (s', outs)"
  shows "length (filter (\<lambda>c. seg c = k \<and> fin c) outs) \<le> 1"
proof -
  define xs where "xs = filter (\<lambda>c. seg c = k) outs"
  have nf: "filter fin (butlast xs) = []"
    using final_closes [OF assms, of k] unfolding xs_def
    by (simp add: filter_empty_conv list_all_iff)
  have "length (filter fin xs) \<le> 1"
  proof (cases xs rule: rev_cases)
    case (snoc ys y)
    with nf show ?thesis by simp
  qed simp
  then show ?thesis by (simp add: xs_def conj_commute)
qed

lemma replay_noop:
  assumes "consume s e = Inr (s', out)"
  shows "consume_all consume s' (replicate n e) = Inr (s', [])"
  using replay_ignored [OF assms] by (induction n) simp_all

end

end
