(* ===== verification/Captions.thy ===== *)
theory Captions
  imports Reconciler "HOL-Library.Multiset"
begin

section \<open>Source captions\<close>

text \<open>
  Models \<open>captions/models.py\<close>, \<open>transcription/models.py\<close> (the event) and
  \<open>captions/reconciler.py\<close>: the provider-neutral caption revision, the recognition event
  and the \<open>TranscriptReconciler\<close> with its seven fields. Dictionaries keep insertion order;
  the raw provider payload of an event is never read by this code and is left out.
\<close>

subsection \<open>Events and captions\<close>

datatype asr_event_type =
  STREAM_STARTED | PARTIAL_RESULT | FINAL_RESULT | STREAM_COMPLETED | STREAM_ERROR

record asr_event =
  ae_event_type :: asr_event_type
  ae_provider_event_id :: string
  ae_segment_id :: "string option"
  ae_text :: "string option"
  ae_begin_time_ms :: "int option"
  ae_end_time_ms :: "int option"
  ae_confidence :: "rat option"
  ae_received_at_ms :: int

datatype caption_status = DRAFT | FINAL

fun caption_status_value :: "caption_status \<Rightarrow> string" where
  "caption_status_value DRAFT = ''draft''"
| "caption_status_value FINAL = ''final''"

record caption_event =
  ce_session_id :: string
  ce_segment_id :: string
  ce_revision :: int
  ce_status :: caption_status
  ce_text :: string
  ce_audio_start_ms :: "int option"
  ce_audio_end_ms :: "int option"
  ce_confidence :: "rat option"
  ce_provider_event_id :: string
  ce_received_at_ms :: int

text \<open>\<open>__post_init__\<close>: the constructor raises on an event that breaks its contract.\<close>

definition caption_post_init :: "caption_event \<Rightarrow> caption_event res" where
  "caption_post_init c =
     (if ce_session_id c = [] then Inl (ValueError ''session_id is required'')
      else if ce_segment_id c = [] then Inl (ValueError ''segment_id is required'')
      else if ce_revision c \<le> 0 then Inl (ValueError ''revision must be positive'')
      else Inr c)"

definition caption_is_final :: "caption_event \<Rightarrow> bool" where
  "caption_is_final c \<longleftrightarrow> ce_status c = FINAL"

subsection \<open>The reconciler\<close>

type_synonym fingerprint =
  "asr_event_type \<times> string \<times> string \<times> int option \<times> int option \<times> rat option"

record transcript_reconciler =
  tr_session_id :: string
  tr_active :: "(string, caption_event) dict"
  tr_final :: "(string, caption_event) dict"
  tr_last_revision :: "(string, int) dict"
  tr_seen_provider_event_ids :: "string set"
  tr_seen_fingerprints :: "fingerprint set"
  tr_final_order :: "(string, int) dict"
  tr_next_final_order :: int

definition reconciler_init :: "string \<Rightarrow> transcript_reconciler res" where
  "reconciler_init session_id =
     (if session_id = [] then Inl (ValueError ''session_id is required'')
      else Inr \<lparr>tr_session_id = session_id, tr_active = [], tr_final = [], tr_last_revision = [],
             tr_seen_provider_event_ids = {}, tr_seen_fingerprints = {}, tr_final_order = [],
             tr_next_final_order = 0\<rparr>)"

text \<open>\<open>_time_key\<close> puts an unknown time after every known one (\<open>float("inf")\<close>).\<close>

definition time_key :: "int option \<Rightarrow> bool \<times> int" where
  "time_key v = (case v of None \<Rightarrow> (True, 0) | Some t \<Rightarrow> (False, t))"

definition active_draft_segments :: "transcript_reconciler \<Rightarrow> caption_event list" where
  "active_draft_segments s =
     sort_key (\<lambda>c. (time_key (ce_audio_start_ms c), time_key (ce_audio_end_ms c), ce_segment_id c))
       (dict_values (tr_active s))"

definition final_segments :: "transcript_reconciler \<Rightarrow> caption_event list" where
  "final_segments s =
     sort_key (\<lambda>c. (time_key (ce_audio_start_ms c), time_key (ce_audio_end_ms c),
                    or_else (dict_get (tr_final_order s) (ce_segment_id c)) 0))
       (dict_values (tr_final s))"

text \<open>The end of \<open>consume\<close>: build the revision and file it as draft or final.\<close>

definition emit_caption ::
  "transcript_reconciler \<Rightarrow> asr_event \<Rightarrow> string \<Rightarrow> string
   \<Rightarrow> (transcript_reconciler \<times> caption_event option) res" where
  "emit_caption s ev segment text =
     (let revision = or_else (dict_get (tr_last_revision s) segment) 0 + 1;
          status = (if ae_event_type ev = FINAL_RESULT then FINAL else DRAFT)
      in rbind (caption_post_init
           \<lparr>ce_session_id = tr_session_id s, ce_segment_id = segment, ce_revision = revision,
            ce_status = status, ce_text = text, ce_audio_start_ms = ae_begin_time_ms ev,
            ce_audio_end_ms = ae_end_time_ms ev, ce_confidence = ae_confidence ev,
            ce_provider_event_id = ae_provider_event_id ev,
            ce_received_at_ms = ae_received_at_ms ev\<rparr>) (\<lambda>caption.
         let s = s\<lparr>tr_last_revision := dict_set (tr_last_revision s) segment revision\<rparr>
         in if caption_is_final caption then
              Inr (s\<lparr>tr_active := dict_pop (tr_active s) segment,
                   tr_final := dict_set (tr_final s) segment caption,
                   tr_next_final_order := tr_next_final_order s + 1,
                   tr_final_order :=
                     dict_set (tr_final_order s) segment (tr_next_final_order s + 1)\<rparr>,
                   Some caption)
            else Inr (s\<lparr>tr_active := dict_set (tr_active s) segment caption\<rparr>, Some caption)))"

definition consume_caption ::
  "transcript_reconciler \<Rightarrow> asr_event \<Rightarrow> (transcript_reconciler \<times> caption_event option) res" where
  "consume_caption s ev =
     (if ae_event_type ev \<notin> {PARTIAL_RESULT, FINAL_RESULT} then Inr (s, None)
      else if ae_segment_id ev = None \<or> ae_segment_id ev = Some [] then
        Inl (ValueError ''caption ASR event requires a stable segment_id'')
      else case ae_text ev of
        None \<Rightarrow> Inl (ValueError ''caption ASR event requires text'')
      | Some text \<Rightarrow>
          if py_strip text = [] then Inr (s, None)
          else if ae_provider_event_id ev \<in> tr_seen_provider_event_ids s then Inr (s, None)
          else
            let segment = the (ae_segment_id ev);
                fingerprint = (ae_event_type ev, segment, text, ae_begin_time_ms ev,
                               ae_end_time_ms ev, ae_confidence ev);
                s = s\<lparr>tr_seen_provider_event_ids :=
                        insert (ae_provider_event_id ev) (tr_seen_provider_event_ids s)\<rparr>
            in if fingerprint \<in> tr_seen_fingerprints s then Inr (s, None)
               else
                 let s = s\<lparr>tr_seen_fingerprints := insert fingerprint (tr_seen_fingerprints s)\<rparr>
                 in if dict_get (tr_final s) segment \<noteq> None then Inr (s, None)
                    else emit_caption s ev segment text)"

subsection \<open>The invariant\<close>

definition last_rev_of :: "transcript_reconciler \<Rightarrow> string \<Rightarrow> int" where
  "last_rev_of s k = or_else (dict_get (tr_last_revision s) k) 0"

definition finalized_in :: "transcript_reconciler \<Rightarrow> string \<Rightarrow> bool" where
  "finalized_in s k \<longleftrightarrow> dict_get (tr_final s) k \<noteq> None"

definition filed :: "transcript_reconciler \<Rightarrow> string \<Rightarrow> caption_event \<Rightarrow> bool" where
  "filed s k c \<longleftrightarrow> ce_session_id c = tr_session_id s \<and> ce_segment_id c = k
     \<and> dict_get (tr_last_revision s) k = Some (ce_revision c)"

definition reconciler_inv :: "transcript_reconciler \<Rightarrow> bool" where
  "reconciler_inv s \<longleftrightarrow>
     tr_session_id s \<noteq> [] \<and> dict_wf (tr_active s) \<and> dict_wf (tr_final s)
     \<and> dict_wf (tr_last_revision s) \<and> dict_wf (tr_final_order s)
     \<and> (\<forall>k r. dict_get (tr_last_revision s) k = Some r \<longrightarrow> 0 < r)
     \<and> (\<forall>k c. dict_get (tr_active s) k = Some c \<longrightarrow> filed s k c \<and> ce_status c = DRAFT)
     \<and> (\<forall>k c. dict_get (tr_final s) k = Some c \<longrightarrow> filed s k c \<and> ce_status c = FINAL)
     \<and> dom (dict_get (tr_active s)) \<inter> dom (dict_get (tr_final s)) = {}
     \<and> dom (dict_get (tr_final_order s)) = dom (dict_get (tr_final s))
     \<and> (\<forall>k n. dict_get (tr_final_order s) k = Some n \<longrightarrow> 0 < n \<and> n \<le> tr_next_final_order s)
     \<and> inj_on (dict_get (tr_final_order s)) (dom (dict_get (tr_final_order s)))
     \<and> 0 \<le> tr_next_final_order s"

lemma reconciler_init_inv: "reconciler_init sid = Inr s \<Longrightarrow> reconciler_inv s"
  by (auto simp: reconciler_init_def reconciler_inv_def split: if_splits)

lemma emit_caption_Inr:
  assumes "emit_caption s ev k text = Inr (s', out)"
  obtains c where "out = Some c" "filed s' k c" "ce_revision c = last_rev_of s k + 1"
    "0 < ce_revision c" "ce_status c = (if ae_event_type ev = FINAL_RESULT then FINAL else DRAFT)"
    "ce_text c = text"
    "s' = (if caption_is_final c
           then s\<lparr>tr_last_revision := dict_set (tr_last_revision s) k (ce_revision c),
                  tr_active := dict_pop (tr_active s) k,
                  tr_final := dict_set (tr_final s) k c,
                  tr_next_final_order := tr_next_final_order s + 1,
                  tr_final_order := dict_set (tr_final_order s) k (tr_next_final_order s + 1)\<rparr>
           else s\<lparr>tr_last_revision := dict_set (tr_last_revision s) k (ce_revision c),
                  tr_active := dict_set (tr_active s) k c\<rparr>)"
  using assms
  by (auto simp: emit_caption_def Let_def rbind_eq_Inr caption_post_init_def caption_is_final_def
      last_rev_of_def filed_def split: if_splits)

lemma consume_caption_cases:
  assumes "consume_caption s ev = Inr (s', out)"
  obtains (silent) A B where "out = None" "s' = s\<lparr>tr_seen_provider_event_ids := A,
            tr_seen_fingerprints := B\<rparr>"
    | (emitted) A B k tx where "dict_get (tr_final s) k = None"
        "emit_caption (s\<lparr>tr_seen_provider_event_ids := A, tr_seen_fingerprints := B\<rparr>) ev k tx
           = Inr (s', out)"
        "ae_segment_id ev = Some k" "ae_text ev = Some tx"
proof -
  have same: thesis if "out = None" "s' = s"
    by (rule silent [where A = "tr_seen_provider_event_ids s" and B = "tr_seen_fingerprints s"]) (use that in simp_all)
  have ids: thesis if "out = None" "s' = s\<lparr>tr_seen_provider_event_ids := A\<rparr>" for A
    by (rule silent [where A = A and B = "tr_seen_fingerprints s"]) (use that in simp_all)
  show thesis
    using assms unfolding consume_caption_def Let_def
    by (auto split: if_splits option.splits intro: same ids silent emitted)
qed

lemma seen_update_inv [simp]:
  "reconciler_inv (s\<lparr>tr_seen_provider_event_ids := A, tr_seen_fingerprints := B\<rparr>) = reconciler_inv s"
  by (simp add: reconciler_inv_def filed_def)

lemma seen_update_proj [simp]:
  "last_rev_of (s\<lparr>tr_seen_provider_event_ids := A, tr_seen_fingerprints := B\<rparr>) = last_rev_of s"
  "finalized_in (s\<lparr>tr_seen_provider_event_ids := A, tr_seen_fingerprints := B\<rparr>) = finalized_in s"
  by (simp_all add: last_rev_of_def finalized_in_def fun_eq_iff)

lemma inj_on_fresh_update:
  assumes "inj_on m (dom m)" and "\<And>k v. m k = Some v \<Longrightarrow> v \<noteq> (w :: int)" and "m x = None"
  shows "inj_on (m(x \<mapsto> w)) (insert x (dom m))"
  using assms unfolding inj_on_def by (auto simp: dom_def) metis+

lemma emit_caption_inv:
  assumes inv: "reconciler_inv s" and none: "dict_get (tr_final s) k = None"
    and emit: "emit_caption s ev k text = Inr (s', out)"
  shows "reconciler_inv s'"
proof -
  from emit obtain c where c: "filed s' k c" "ce_revision c = last_rev_of s k + 1"
    "0 < ce_revision c"
    "s' = (if caption_is_final c
           then s\<lparr>tr_last_revision := dict_set (tr_last_revision s) k (ce_revision c),
                  tr_active := dict_pop (tr_active s) k,
                  tr_final := dict_set (tr_final s) k c,
                  tr_next_final_order := tr_next_final_order s + 1,
                  tr_final_order := dict_set (tr_final_order s) k (tr_next_final_order s + 1)\<rparr>
           else s\<lparr>tr_last_revision := dict_set (tr_last_revision s) k (ce_revision c),
                  tr_active := dict_set (tr_active s) k c\<rparr>)"
    by (rule emit_caption_Inr)
  show ?thesis
  proof (cases "caption_is_final c")
    case True
    have fresh: "dict_get (tr_final_order s) k = None"
      "\<And>j n. dict_get (tr_final_order s) j = Some n \<Longrightarrow> n \<noteq> tr_next_final_order s + 1"
    proof -
      have "dom (dict_get (tr_final_order s)) = dom (dict_get (tr_final s))"
        using inv by (simp add: reconciler_inv_def)
      with none show "dict_get (tr_final_order s) k = None" by (metis domIff)
      fix j n
      assume "dict_get (tr_final_order s) j = Some n"
      then have "n \<le> tr_next_final_order s" using inv by (simp add: reconciler_inv_def)
      then show "n \<noteq> tr_next_final_order s + 1" by simp
    qed
    have "inj_on ((dict_get (tr_final_order s))(k \<mapsto> tr_next_final_order s + 1))
        (insert k (dom (dict_get (tr_final_order s))))"
      by (rule inj_on_fresh_update) (use inv fresh in \<open>auto simp: reconciler_inv_def\<close>)
    moreover have "\<forall>j n. dict_get (tr_final_order s) j = Some n \<longrightarrow> n \<le> tr_next_final_order s + 1"
      using inv by (fastforce simp: reconciler_inv_def)
    ultimately show ?thesis
      using True c inv fresh
      unfolding reconciler_inv_def
      by (intro conjI) (auto simp: filed_def caption_is_final_def split: if_splits)
  next
    case False
    then have "ce_status c = DRAFT" by (cases "ce_status c") (auto simp: caption_is_final_def)
    with False c inv none show ?thesis
      unfolding reconciler_inv_def
      by (intro conjI) (auto simp: filed_def split: if_splits)
  qed
qed

interpretation transcript: revision_reconciler consume_caption reconciler_inv ce_segment_id
  ce_revision caption_is_final last_rev_of finalized_in
proof
  fix s s' :: transcript_reconciler and ev out
  assume inv: "reconciler_inv s" and c: "consume_caption s ev = Inr (s', out)"
  from c show "reconciler_inv s'"
    by (cases rule: consume_caption_cases) (use inv in \<open>auto intro: emit_caption_inv [rotated 2]\<close>)
next
  fix s s' :: transcript_reconciler and ev
  assume "consume_caption s ev = Inr (s', None)"
  then show "last_rev_of s' = last_rev_of s \<and> finalized_in s' = finalized_in s"
    by (cases rule: consume_caption_cases) (auto elim: emit_caption_Inr)
next
  fix s s' :: transcript_reconciler and ev c
  assume inv: "reconciler_inv s" and con: "consume_caption s ev = Inr (s', Some c)"
  from con show "\<not> finalized_in s (ce_segment_id c)
      \<and> ce_revision c = last_rev_of s (ce_segment_id c) + 1
      \<and> last_rev_of s' = (last_rev_of s)(ce_segment_id c := ce_revision c)
      \<and> finalized_in s' = (finalized_in s)(ce_segment_id c := caption_is_final c)"
  proof (cases rule: consume_caption_cases)
    case (emitted A B k tx)
    from emitted(2) show ?thesis
      by (rule emit_caption_Inr)
        (use emitted(1) in \<open>auto simp: filed_def last_rev_of_def finalized_in_def fun_eq_iff\<close>)
  qed simp
next
  fix s s' :: transcript_reconciler and ev out
  assume con: "consume_caption s ev = Inr (s', out)"
  show "consume_caption s' ev = Inr (s', None)"
  proof (cases "ae_event_type ev \<in> {PARTIAL_RESULT, FINAL_RESULT}
      \<and> (\<exists>text. ae_text ev = Some text \<and> py_strip text \<noteq> [])")
    case True
    have "ae_provider_event_id ev \<in> tr_seen_provider_event_ids s'"
      using con True unfolding consume_caption_def Let_def
      by (auto split: if_splits option.splits elim!: emit_caption_Inr)
    with con True show ?thesis
      by (auto simp: consume_caption_def split: if_splits)
  next
    case False
    with con have "s' = s" "out = None"
      by (auto simp: consume_caption_def split: if_splits option.splits)
    with con show ?thesis by simp
  qed
qed

subsection \<open>Views and streams\<close>

abbreviation captions_of :: "string \<Rightarrow> caption_event list \<Rightarrow> caption_event list" where
  "captions_of k outs \<equiv> filter (\<lambda>c. ce_segment_id c = k) outs"

lemma dict_set_fresh: "dict_get d k = None \<Longrightarrow> dict_set d k v = d @ [(k, v)]"
  by (induction d k v rule: dict_set.induct) auto

text \<open>
  What one event does to the two dictionaries the views read: a Final is appended to the
  finals with the next order number and takes the draft of its segment away, a draft
  replaces the draft of its segment.
\<close>

lemma consume_caption_filed:
  assumes "reconciler_inv s" "consume_caption s ev = Inr (s', out)"
  shows "dict_get (tr_active s') = (case out of None \<Rightarrow> dict_get (tr_active s)
       | Some c \<Rightarrow> (dict_get (tr_active s))
           (ce_segment_id c := if caption_is_final c then None else Some c))
    \<and> tr_final s' = tr_final s @ (case out of None \<Rightarrow> []
       | Some c \<Rightarrow> if caption_is_final c then [(ce_segment_id c, c)] else [])
    \<and> tr_next_final_order s \<le> tr_next_final_order s'
    \<and> dict_get (tr_final_order s') = (case out of None \<Rightarrow> dict_get (tr_final_order s)
       | Some c \<Rightarrow> if caption_is_final c
           then (dict_get (tr_final_order s))(ce_segment_id c \<mapsto> tr_next_final_order s + 1)
           else dict_get (tr_final_order s))
    \<and> tr_session_id s' = tr_session_id s"
  using assms(2)
proof (cases rule: consume_caption_cases)
  case (emitted A B k tx)
  from emitted(2) show ?thesis
    by (rule emit_caption_Inr) (use emitted(1) in \<open>auto simp: filed_def dict_set_fresh\<close>)
qed simp

lemma consume_caption_shown:
  assumes "reconciler_inv s" "consume_caption s ev = Inr (s', out)"
  shows "ran (dict_get (tr_final s')) = ran (dict_get (tr_final s))
        \<union> (case out of None \<Rightarrow> {} | Some c \<Rightarrow> if caption_is_final c then {c} else {})
    \<and> tr_session_id s' = tr_session_id s"
proof -
  have "reconciler_inv s'" by (rule transcript.inv_consume [OF assms])
  then have wf: "dict_wf (tr_final s)" "dict_wf (tr_final s')"
    using assms(1) by (simp_all add: reconciler_inv_def)
  then have "ran (dict_get (tr_final s)) = snd ` set (tr_final s)"
    "ran (dict_get (tr_final s')) = snd ` set (tr_final s')"
    by (simp_all add: dict_wf_def ran_distinct)
  then show ?thesis
    using consume_caption_filed [OF assms] by (simp split: option.splits)
qed

text \<open>The order numbers of the finals grow with their position.\<close>

abbreviation order_of :: "transcript_reconciler \<Rightarrow> caption_event \<Rightarrow> int" where
  "order_of s c \<equiv> or_else (dict_get (tr_final_order s) (ce_segment_id c)) 0"

definition ordered_finals :: "transcript_reconciler \<Rightarrow> bool" where
  "ordered_finals s \<longleftrightarrow> sorted (map (order_of s) (dict_values (tr_final s)))"

lemma consume_caption_ordered:
  assumes inv: "reconciler_inv s" and con: "consume_caption s ev = Inr (s', out)"
    and ord: "ordered_finals s"
  shows "ordered_finals s'"
proof (cases "\<exists>c. out = Some c \<and> caption_is_final c")
  case True
  then obtain c where c: "out = Some c" "caption_is_final c" by blast
  note st = consume_caption_filed [OF inv con]
  have inv': "reconciler_inv s'" by (rule transcript.inv_consume [OF inv con])
  have fin: "tr_final s' = tr_final s @ [(ce_segment_id c, c)]"
    "dict_get (tr_final_order s')
       = (dict_get (tr_final_order s))(ce_segment_id c \<mapsto> tr_next_final_order s + 1)"
    using st c by simp_all
  have old: "order_of s' x = order_of s x" "order_of s x \<le> tr_next_final_order s"
    if x: "x \<in> set (dict_values (tr_final s))" for x
  proof -
    from x obtain k where k: "(k, x) \<in> set (tr_final s)" by auto
    have "dict_wf (tr_final s)" using inv by (simp add: reconciler_inv_def)
    with k have "dict_get (tr_final s) k = Some x" by (simp add: dict_wf_def)
    with inv have kx: "ce_segment_id x = k" by (simp add: reconciler_inv_def filed_def)
    have "ce_segment_id c \<notin> fst ` set (tr_final s)"
      using inv' fin(1) by (simp add: reconciler_inv_def dict_wf_def)
    with k kx have "ce_segment_id x \<noteq> ce_segment_id c" by force
    then show "order_of s' x = order_of s x" by (simp add: fin(2))
    show "order_of s x \<le> tr_next_final_order s"
      using inv by (cases "dict_get (tr_final_order s) (ce_segment_id x)")
        (auto simp: reconciler_inv_def)
  qed
  have "sorted (map (order_of s') (dict_values (tr_final s)))"
  proof -
    have "map (order_of s') (dict_values (tr_final s)) = map (order_of s) (dict_values (tr_final s))"
      by (rule map_cong [OF refl old(1)])
    with ord show ?thesis unfolding ordered_finals_def by (simp only:)
  qed
  moreover have "order_of s' x \<le> order_of s' c" if "x \<in> set (dict_values (tr_final s))" for x
  proof -
    have "order_of s' c = tr_next_final_order s + 1" by (simp add: fin(2))
    with old [OF that] show ?thesis by simp
  qed
  ultimately show ?thesis
    unfolding ordered_finals_def fin(1) map_append sorted_append by auto
next
  case False
  then have "tr_final s' = tr_final s" "dict_get (tr_final_order s') = dict_get (tr_final_order s)"
    using consume_caption_filed [OF inv con] by (auto split: option.splits)
  with ord show ?thesis by (simp add: ordered_finals_def)
qed

lemma consume_all_filed:
  assumes "reconciler_inv s" "ordered_finals s"
    "consume_all consume_caption s evs = Inr (s', outs)"
  shows "(captions_of k outs = [] \<longrightarrow> dict_get (tr_active s') k = dict_get (tr_active s) k)
    \<and> (captions_of k outs \<noteq> [] \<longrightarrow> dict_get (tr_active s') k =
         (if caption_is_final (last (captions_of k outs)) then None
          else Some (last (captions_of k outs))))
    \<and> dict_values (tr_final s') = dict_values (tr_final s) @ filter caption_is_final outs
    \<and> ordered_finals s' \<and> tr_session_id s' = tr_session_id s"
  using assms
proof (induction evs arbitrary: s outs)
  case (Cons ev evs)
  from Cons.prems(3) show ?case
  proof (cases rule: transcript.consume_all_Cons_cases)
    case (silent s1)
    show ?thesis
      using Cons.IH [OF transcript.inv_consume [OF Cons.prems(1) silent(1)]
          consume_caption_ordered [OF Cons.prems(1) silent(1) Cons.prems(2)] silent(2)]
        consume_caption_filed [OF Cons.prems(1) silent(1)] by simp
  next
    case (emitted s1 c outs1)
    note IH = Cons.IH [OF transcript.inv_consume [OF Cons.prems(1) emitted(1)]
        consume_caption_ordered [OF Cons.prems(1) emitted(1) Cons.prems(2)] emitted(2)]
    note st = consume_caption_filed [OF Cons.prems(1) emitted(1)]
    have "dict_values (tr_final s') = dict_values (tr_final s) @ filter caption_is_final outs"
      using IH st emitted(3) by simp
    moreover have "dict_get (tr_active s1) k = (if ce_segment_id c = k
        then if caption_is_final c then None else Some c else dict_get (tr_active s) k)"
      using st by simp
    ultimately show ?thesis using IH st emitted(3) by simp
  qed
qed simp

lemma set_final_values: "set (final_segments s) = set (dict_values (tr_final s))"
  by (simp add: final_segments_def)

lemma set_active_draft_segments:
  "reconciler_inv s \<Longrightarrow> c \<in> set (active_draft_segments s) \<longleftrightarrow>
     dict_get (tr_active s) (ce_segment_id c) = Some c"
  unfolding active_draft_segments_def set_sort reconciler_inv_def
  by (subst dict_values_get) (auto simp: filed_def)

lemma keys_of_values:
  assumes "\<And>k c. dict_get d k = Some c \<Longrightarrow> ce_segment_id c = k" and "dict_wf d"
  shows "map ce_segment_id (dict_values d) = map fst d"
proof -
  have "ce_segment_id c = k" if "(k, c) \<in> set d" for k c
    using assms that by (simp add: dict_wf_def)
  then show ?thesis by auto
qed

lemma distinct_map_mset: "mset xs = mset ys \<Longrightarrow> distinct (map f xs) = distinct (map f ys)"
  by (metis mset_eq_imp_distinct_iff mset_map)

lemma views_distinct:
  assumes inv: "reconciler_inv s"
  shows "distinct (map ce_segment_id (active_draft_segments s @ final_segments s))"
proof -
  have keys: "map ce_segment_id (dict_values (tr_active s)) = map fst (tr_active s)"
    "map ce_segment_id (dict_values (tr_final s)) = map fst (tr_final s)"
    by (rule keys_of_values; use inv in \<open>simp add: reconciler_inv_def filed_def\<close>)+
  have "distinct (map fst (tr_active s) @ map fst (tr_final s))"
    using inv by (auto simp: reconciler_inv_def dict_wf_def dom_map_of_conv_image_fst)
  then have "distinct (map ce_segment_id (dict_values (tr_active s) @ dict_values (tr_final s)))"
    by (simp only: map_append keys)
  moreover have "mset (active_draft_segments s @ final_segments s)
      = mset (dict_values (tr_active s) @ dict_values (tr_final s))"
    by (simp add: active_draft_segments_def final_segments_def)
  ultimately show ?thesis by (metis distinct_map_mset)
qed

text \<open>Sorting by a key and a tie-breaker that the list already respects is stable sorting.\<close>

lemma sort_key_tie:
  assumes "sorted (map g xs)"
  shows "sort_key (\<lambda>x. (f1 x, f2 x, g x)) xs = sort_key (\<lambda>x. (f1 x, f2 x)) xs"
proof (rule sym, rule properties_for_sort_key)
  let ?h = "\<lambda>x. (f1 x, f2 x, g x)"
  show "mset (sort_key ?h xs) = mset xs" by simp
  fix k
  let ?P = "\<lambda>x. (f1 k, f2 k) = (f1 x, f2 x)"
  have "sorted (map g (filter ?P xs))" by (rule sorted_filter [OF assms])
  then have "sorted (map ?h (filter ?P xs))"
    by (auto simp: sorted_wrt_map elim!: sorted_wrt_mono_rel [rotated])
  then have "sort_key ?h (filter ?P xs) = filter ?P xs" by (rule sort_key_id_if_sorted)
  then show "filter ?P (sort_key ?h xs) = filter ?P xs" by (simp only: filter_sort)
next
  show "sorted (map (\<lambda>x. (f1 x, f2 x)) (sort_key (\<lambda>x. (f1 x, f2 x, g x)) xs))"
    using sorted_sort_key [of "\<lambda>x. (f1 x, f2 x, g x)" xs]
    unfolding sorted_wrt_map by (auto elim!: sorted_wrt_mono_rel [rotated])
qed

lemma set_final_segments:
  "reconciler_inv s \<Longrightarrow> set (final_segments s) = ran (dict_get (tr_final s))"
  by (auto simp: final_segments_def reconciler_inv_def ran_def dict_wf_def image_iff Bex_def)

lemma init_projections:
  assumes "reconciler_init sid = Inr s"
  shows "reconciler_inv s" "last_rev_of s k = 0" "finalized_in s k = False" "ordered_finals s"
    "dict_get (tr_active s) = Map.empty" "dict_get (tr_final s) = Map.empty" "tr_session_id s = sid"
  using assms by (auto simp: reconciler_init_inv)
    (auto simp: reconciler_init_def last_rev_of_def finalized_in_def ordered_finals_def
      split: if_splits)

lemma consume_caption_error:
  assumes "reconciler_inv s"
  shows "(\<exists>e. consume_caption s ev = Inl e) \<longleftrightarrow>
       ae_event_type ev \<in> {PARTIAL_RESULT, FINAL_RESULT} \<and>
       (ae_segment_id ev \<in> {None, Some []} \<or> ae_text ev = None)"
proof -
  have pos: "0 \<le> last_rev_of s k" for k
    using assms by (cases "dict_get (tr_last_revision s) k")
      (auto simp: last_rev_of_def reconciler_inv_def order.strict_iff_order)
  have emit: "\<exists>r. emit_caption (s\<lparr>tr_seen_provider_event_ids := A, tr_seen_fingerprints := B\<rparr>) ev k tx
      = Inr r" if "k \<noteq> []" for A B k tx
    using assms that pos [of k]
    by (auto simp: emit_caption_def caption_post_init_def reconciler_inv_def last_rev_of_def Let_def)
  show ?thesis
    unfolding consume_caption_def Let_def using emit
    by (auto split: option.splits) (metis Inl_Inr_False)+
qed

text \<open>
  C3. Revision numbers of a segment are gapless and start at one: for any stream of
  recognition events consumed without an exception, the revisions emitted for each segment
  are exactly 1, 2, ..., n in this order.
\<close>

theorem caption_revisions_gapless:
  assumes "reconciler_init sid = Inr s" and "consume_all consume_caption s evs = Inr (s', outs)"
  shows "map ce_revision (captions_of k outs) = [1 .. int (length (captions_of k outs))]"
proof -
  have rev: "map ce_revision (captions_of k outs) = [1 .. last_rev_of s' k] \<and> 0 \<le> last_rev_of s' k"
    using transcript.revisions_consecutive [OF init_projections(1) [OF assms(1)] assms(2), of k]
    by (simp add: init_projections [OF assms(1)])
  then have "length (captions_of k outs) = length [1 .. last_rev_of s' k]"
    by (metis length_map)
  with rev show ?thesis by simp
qed

text \<open>
  C4. A provider Final is authoritative: in any stream, each segment gets at most one FINAL
  revision, it is the last revision emitted for that segment, and the reconciler's final
  segments are exactly the FINAL revisions it emitted.
\<close>

theorem caption_final_authoritative:
  assumes "reconciler_init sid = Inr s" and "consume_all consume_caption s evs = Inr (s', outs)"
  shows "length (filter caption_is_final (captions_of k outs)) \<le> 1
    \<and> list_all (\<lambda>c. \<not> caption_is_final c) (butlast (captions_of k outs))
    \<and> set (final_segments s') = {c \<in> set outs. caption_is_final c}"
proof -
  note inv = init_projections(1) [OF assms(1)]
  have "set (final_segments s') = {c \<in> set outs. caption_is_final c}"
    using consume_all_filed [OF inv init_projections(4) [OF assms(1)] assms(2)]
      set_final_values [of s']
      init_projections(6) [OF assms(1)] by simp
  then show ?thesis
    using transcript.at_most_one_final [OF inv assms(2), of k]
      transcript.final_closes [OF inv assms(2), of k]
    by (simp add: conj_commute)
qed

text \<open>
  C5. The two views of the reconciler, after any stream: \<open>active_draft_segments\<close> holds
  exactly the segments whose last emitted caption is a draft, each with that caption, in the
  order of start, end and segment id; \<open>final_segments\<close> is the list of the emitted
  Finals, sorted by start and end, those with equal times in the order they became final.
  No segment appears twice, neither in one view nor in both.
\<close>

theorem caption_shows_latest:
  assumes "reconciler_init sid = Inr s" and "consume_all consume_caption s evs = Inr (s', outs)"
  shows "(\<forall>c. c \<in> set (active_draft_segments s') \<longleftrightarrow>
        captions_of (ce_segment_id c) outs \<noteq> []
        \<and> last (captions_of (ce_segment_id c) outs) = c \<and> \<not> caption_is_final c)
    \<and> sorted (map (\<lambda>c. (time_key (ce_audio_start_ms c), time_key (ce_audio_end_ms c),
        ce_segment_id c)) (active_draft_segments s'))
    \<and> final_segments s' = sort_key
        (\<lambda>c. (time_key (ce_audio_start_ms c), time_key (ce_audio_end_ms c)))
        (filter caption_is_final outs)
    \<and> distinct (map ce_segment_id (active_draft_segments s' @ final_segments s'))"
proof -
  note init = init_projections [OF assms(1)]
  note run = consume_all_filed [OF init(1,4) assms(2)]
  have inv: "reconciler_inv s'" by (rule transcript.consume_all_inv [OF init(1) assms(2)])
  have act: "c \<in> set (active_draft_segments s') \<longleftrightarrow>
      captions_of (ce_segment_id c) outs \<noteq> []
      \<and> last (captions_of (ce_segment_id c) outs) = c \<and> \<not> caption_is_final c" for c
    unfolding set_active_draft_segments [OF inv]
    using run [of "ce_segment_id c"] init(5) by (auto split: if_splits)
  have "tr_final s = []" using init(6) by simp
  then have vals: "dict_values (tr_final s') = filter caption_is_final outs"
    using run by simp
  have ord: "sorted (map (order_of s') (dict_values (tr_final s')))"
    using run unfolding ordered_finals_def by blast
  have fin: "final_segments s' = sort_key
        (\<lambda>c. (time_key (ce_audio_start_ms c), time_key (ce_audio_end_ms c)))
        (filter caption_is_final outs)"
    unfolding final_segments_def using sort_key_tie [OF ord] by (simp only: vals)
  have "sorted (map (\<lambda>c. (time_key (ce_audio_start_ms c), time_key (ce_audio_end_ms c),
        ce_segment_id c)) (active_draft_segments s'))"
    unfolding active_draft_segments_def by (rule sorted_sort_key)
  with act fin show ?thesis using views_distinct [OF inv] by blast
qed

text \<open>
  Consuming an event raises exactly when it is a result without a segment id or without
  text; every other event, also a repeated or blank one, is accepted. Delivering an accepted
  event again any number of times emits nothing and leaves the reconciler as it was.
\<close>

lemma consume_caption_total_and_idempotent:
  assumes "reconciler_inv s"
  shows "((\<exists>e. consume_caption s ev = Inl e) \<longleftrightarrow>
       ae_event_type ev \<in> {PARTIAL_RESULT, FINAL_RESULT} \<and>
       (ae_segment_id ev \<in> {None, Some []} \<or> ae_text ev = None))
    \<and> (consume_caption s ev = Inr (s', out) \<longrightarrow>
       consume_all consume_caption s' (replicate n ev) = Inr (s', []))"
  using consume_caption_error [OF assms, of ev] transcript.replay_noop [of s ev s' out n] by simp

subsection \<open>A stream of two segments\<close>

definition demo_event :: "asr_event_type \<Rightarrow> string \<Rightarrow> string \<Rightarrow> string \<Rightarrow> int \<Rightarrow> asr_event" where
  "demo_event ty pid seg tx begin = \<lparr>ae_event_type = ty, ae_provider_event_id = pid,
     ae_segment_id = Some seg, ae_text = Some tx, ae_begin_time_ms = Some begin,
     ae_end_time_ms = Some (begin + 500), ae_confidence = None, ae_received_at_ms = 1000\<rparr>"

definition demo_stream :: "asr_event list" where
  "demo_stream = [demo_event PARTIAL_RESULT ''e1'' ''a'' ''hel'' 0,
     demo_event PARTIAL_RESULT ''e2'' ''a'' ''hello'' 0, demo_event PARTIAL_RESULT ''e2'' ''a'' ''hello'' 0,
     demo_event FINAL_RESULT ''e3'' ''a'' ''hello.'' 0, demo_event FINAL_RESULT ''e4'' ''a'' ''late'' 0,
     demo_event PARTIAL_RESULT ''e5'' ''b'' ''wor'' 500]"

definition demo_start :: transcript_reconciler where
  "demo_start = projr (reconciler_init ''s1'')"

definition demo_end :: "transcript_reconciler \<times> caption_event list" where
  "demo_end = projr (consume_all consume_caption demo_start demo_stream)"

lemma demo_start_ok: "reconciler_init ''s1'' = Inr demo_start"
  by (simp add: demo_start_def reconciler_init_def)

lemma demo_run: "consume_all consume_caption demo_start demo_stream = Inr (fst demo_end, snd demo_end)"
  "map (\<lambda>c. (ce_segment_id c, ce_revision c, ce_status c, ce_text c)) (snd demo_end) =
     [(''a'', 1, DRAFT, ''hel''), (''a'', 2, DRAFT, ''hello''), (''a'', 3, FINAL, ''hello.''),
      (''b'', 1, DRAFT, ''wor'')]"
  by code_simp+

theorem caption_revisions_gapless_witness:
  "map ce_revision (captions_of ''a'' (snd demo_end)) = [1, 2, 3]"
proof -
  have "length (captions_of ''a'' (snd demo_end)) = 3" by code_simp
  with caption_revisions_gapless [OF demo_start_ok demo_run(1), of "''a''"] show ?thesis
    by (simp add: upto_rec1)
qed

theorem caption_final_authoritative_witness:
  "length (filter caption_is_final (captions_of ''a'' (snd demo_end))) = 1
   \<and> set (final_segments (fst demo_end)) = {c \<in> set (snd demo_end). caption_is_final c}"
proof -
  have "length (filter caption_is_final (captions_of ''a'' (snd demo_end))) = 1" by code_simp
  with caption_final_authoritative [OF demo_start_ok demo_run(1), of "''a''"] show ?thesis
    by blast
qed

theorem caption_shows_latest_witness:
  "map ce_text (active_draft_segments (fst demo_end)) = [''wor'']
   \<and> map ce_text (final_segments (fst demo_end)) = [''hello.'']
   \<and> distinct (map ce_segment_id (active_draft_segments (fst demo_end) @ final_segments (fst demo_end)))"
proof -
  note run = caption_shows_latest [OF demo_start_ok demo_run(1)]
  have "map ce_text (filter caption_is_final (snd demo_end)) = [''hello.'']" by code_simp
  then obtain c where "filter caption_is_final (snd demo_end) = [c]" "ce_text c = ''hello.''"
    by (auto simp: map_eq_Cons_conv)
  then have "map ce_text (final_segments (fst demo_end)) = [''hello.'']" using run by simp
  moreover have "map ce_text (active_draft_segments (fst demo_end)) = [''wor'']" by code_simp
  ultimately show ?thesis using run by blast
qed

end
