(* ===== verification/Translation.thy ===== *)
theory Translation
  imports Reconciler
begin

section \<open>Translated captions\<close>

text \<open>
  Models \<open>translation/models.py\<close> and \<open>translation/reconciler.py\<close>: the translation
  event with its constructor checks, the metrics, and the reconciler of one target-language
  stream. It meets the same interface as the source reconciler, with a set of final segment
  ids instead of a dictionary of final captions.
\<close>

datatype translation_event_type =
  T_STREAM_STARTED | T_PARTIAL_RESULT | T_FINAL_RESULT | T_STREAM_COMPLETED | T_STREAM_ERROR

datatype translation_caption_status = T_DRAFT | T_FINAL

record translation_event =
  te_event_type :: translation_event_type
  te_provider_event_id :: string
  te_target_language :: string
  te_segment_id :: "string option"
  te_text :: "string option"
  te_begin_time_ms :: "int option"
  te_end_time_ms :: "int option"
  te_received_at_ms :: int

definition translation_event_post_init :: "translation_event \<Rightarrow> translation_event res" where
  "translation_event_post_init ev =
     (if te_provider_event_id ev = [] then Inl (ValueError ''provider_event_id is required'')
      else if te_target_language ev = [] then Inl (ValueError ''target_language is required'')
      else Inr ev)"

definition translation_event_is_final :: "translation_event \<Rightarrow> bool" where
  "translation_event_is_final ev \<longleftrightarrow> te_event_type ev = T_FINAL_RESULT"

subsection \<open>Metrics\<close>

record translation_metrics =
  tm_final_result_count :: int
  tm_provider_error_count :: int
  tm_sent_audio_chunk_count :: int
  tm_sent_audio_bytes :: int

definition metrics_observe :: "translation_metrics \<Rightarrow> translation_event \<Rightarrow> translation_metrics" where
  "metrics_observe m ev =
     (if te_event_type ev = T_FINAL_RESULT
      then m\<lparr>tm_final_result_count := tm_final_result_count m + 1\<rparr>
      else if te_event_type ev = T_STREAM_ERROR
      then m\<lparr>tm_provider_error_count := tm_provider_error_count m + 1\<rparr>
      else m)"

definition metrics_mark_audio_sent :: "translation_metrics \<Rightarrow> int \<Rightarrow> translation_metrics res" where
  "metrics_mark_audio_sent m byte_count =
     (if byte_count < 0 then Inl (ValueError ''byte_count must be non-negative'')
      else Inr (m\<lparr>tm_sent_audio_chunk_count := tm_sent_audio_chunk_count m + 1,
               tm_sent_audio_bytes := tm_sent_audio_bytes m + byte_count\<rparr>))"

definition metrics_log_fields :: "translation_metrics \<Rightarrow> (string, int) dict" where
  "metrics_log_fields m =
     [(''translation_final_result_count'', tm_final_result_count m),
      (''translation_provider_error_count'', tm_provider_error_count m),
      (''translation_sent_audio_chunk_count'', tm_sent_audio_chunk_count m),
      (''translation_sent_audio_bytes'', tm_sent_audio_bytes m)]"

subsection \<open>Captions and the reconciler\<close>

record translation_caption =
  tc_session_id :: string
  tc_segment_id :: string
  tc_revision :: int
  tc_status :: translation_caption_status
  tc_text :: string
  tc_source_language :: string
  tc_target_language :: string
  tc_audio_start_ms :: "int option"
  tc_audio_end_ms :: "int option"
  tc_source_segment_ids :: "string list"
  tc_provider_event_id :: string
  tc_received_at_ms :: int

definition translation_caption_post_init :: "translation_caption \<Rightarrow> translation_caption res" where
  "translation_caption_post_init c =
     (if tc_session_id c = [] then Inl (ValueError ''session_id is required'')
      else if tc_segment_id c = [] then Inl (ValueError ''segment_id is required'')
      else if tc_revision c \<le> 0 then Inl (ValueError ''revision must be positive'')
      else Inr c)"

definition translation_is_final :: "translation_caption \<Rightarrow> bool" where
  "translation_is_final c \<longleftrightarrow> tc_status c = T_FINAL"

record translation_reconciler =
  xr_session_id :: string
  xr_source_language :: string
  xr_target_language :: string
  xr_last_revision :: "(string, int) dict"
  xr_final :: "string set"
  xr_seen_event_ids :: "string set"
  xr_seen_fingerprints ::
    "(translation_event_type \<times> string \<times> string \<times> int option \<times> int option) set"

definition translation_reconciler_init :: "string \<Rightarrow> string \<Rightarrow> string \<Rightarrow> translation_reconciler" where
  "translation_reconciler_init session_id source_language target_language =
     \<lparr>xr_session_id = session_id, xr_source_language = source_language,
      xr_target_language = target_language, xr_last_revision = [], xr_final = {},
      xr_seen_event_ids = {}, xr_seen_fingerprints = {}\<rparr>"

definition emit_translation ::
  "translation_reconciler \<Rightarrow> translation_event \<Rightarrow> string \<Rightarrow> string
   \<Rightarrow> (translation_reconciler \<times> translation_caption option) res" where
  "emit_translation s ev segment text =
     (let revision = or_else (dict_get (xr_last_revision s) segment) 0 + 1;
          status = (if te_event_type ev = T_FINAL_RESULT then T_FINAL else T_DRAFT)
      in rbind (translation_caption_post_init
           \<lparr>tc_session_id = xr_session_id s, tc_segment_id = segment, tc_revision = revision,
            tc_status = status, tc_text = text, tc_source_language = xr_source_language s,
            tc_target_language = xr_target_language s, tc_audio_start_ms = te_begin_time_ms ev,
            tc_audio_end_ms = te_end_time_ms ev, tc_source_segment_ids = [],
            tc_provider_event_id = te_provider_event_id ev,
            tc_received_at_ms = te_received_at_ms ev\<rparr>) (\<lambda>caption.
         let s = s\<lparr>xr_last_revision := dict_set (xr_last_revision s) segment revision\<rparr>;
             s = (if translation_is_final caption then s\<lparr>xr_final := insert segment (xr_final s)\<rparr> else s)
         in Inr (s, Some caption)))"

definition consume_translation ::
  "translation_reconciler \<Rightarrow> translation_event
   \<Rightarrow> (translation_reconciler \<times> translation_caption option) res" where
  "consume_translation s ev =
     (if te_event_type ev \<notin> {T_PARTIAL_RESULT, T_FINAL_RESULT} then Inr (s, None)
      else if te_segment_id ev = None \<or> te_segment_id ev = Some [] then
        Inl (ValueError ''translation event requires a segment_id'')
      else case te_text ev of
        None \<Rightarrow> Inl (ValueError ''translation event requires text'')
      | Some text \<Rightarrow>
          if py_strip text = [] then Inr (s, None)
          else if te_provider_event_id ev \<in> xr_seen_event_ids s then Inr (s, None)
          else
            let segment = the (te_segment_id ev);
                fingerprint = (te_event_type ev, segment, text, te_begin_time_ms ev, te_end_time_ms ev);
                s = s\<lparr>xr_seen_event_ids := insert (te_provider_event_id ev) (xr_seen_event_ids s)\<rparr>
            in if fingerprint \<in> xr_seen_fingerprints s then Inr (s, None)
               else
                 let s = s\<lparr>xr_seen_fingerprints := insert fingerprint (xr_seen_fingerprints s)\<rparr>
                 in if segment \<in> xr_final s then Inr (s, None)
                    else emit_translation s ev segment text)"

subsection \<open>The interface holds\<close>

definition translation_last_rev :: "translation_reconciler \<Rightarrow> string \<Rightarrow> int" where
  "translation_last_rev s k = or_else (dict_get (xr_last_revision s) k) 0"

definition translation_finalized :: "translation_reconciler \<Rightarrow> string \<Rightarrow> bool" where
  "translation_finalized s k \<longleftrightarrow> k \<in> xr_final s"

lemma emit_translation_Inr:
  assumes "emit_translation s ev k tx = Inr (s', out)"
  obtains c where "out = Some c" "tc_segment_id c = k" "tc_revision c = translation_last_rev s k + 1"
    "s' = s\<lparr>xr_last_revision := dict_set (xr_last_revision s) k (tc_revision c),
            xr_final := (if translation_is_final c then insert k (xr_final s) else xr_final s)\<rparr>"
  using assms
  by (auto simp: emit_translation_def Let_def rbind_eq_Inr translation_caption_post_init_def
      translation_is_final_def translation_last_rev_def split: if_splits)

lemma consume_translation_cases:
  assumes "consume_translation s ev = Inr (s', out)"
  obtains (silent) A B where "out = None" "s' = s\<lparr>xr_seen_event_ids := A, xr_seen_fingerprints := B\<rparr>"
    | (emitted) A B k tx where "k \<notin> xr_final s"
        "emit_translation (s\<lparr>xr_seen_event_ids := A, xr_seen_fingerprints := B\<rparr>) ev k tx = Inr (s', out)"
proof -
  have same: thesis if "out = None" "s' = s"
    by (rule silent [where A = "xr_seen_event_ids s" and B = "xr_seen_fingerprints s"])
      (use that in simp_all)
  have ids: thesis if "out = None" "s' = s\<lparr>xr_seen_event_ids := A\<rparr>" for A
    by (rule silent [where A = A and B = "xr_seen_fingerprints s"]) (use that in simp_all)
  show thesis
    using assms unfolding consume_translation_def Let_def
    by (auto split: if_splits option.splits intro: same ids silent emitted)
qed

lemmas translation_projections = translation_last_rev_def translation_finalized_def fun_eq_iff

interpretation translation: revision_reconciler consume_translation "\<lambda>_. True" tc_segment_id
  tc_revision translation_is_final translation_last_rev translation_finalized
proof
  fix s s' :: translation_reconciler and ev
  assume "consume_translation s ev = Inr (s', None)"
  then show "translation_last_rev s' = translation_last_rev s
      \<and> translation_finalized s' = translation_finalized s"
    by (cases rule: consume_translation_cases)
      (auto simp: translation_projections elim: emit_translation_Inr)
next
  fix s s' :: translation_reconciler and ev c
  assume "consume_translation s ev = Inr (s', Some c)"
  then show "\<not> translation_finalized s (tc_segment_id c)
      \<and> tc_revision c = translation_last_rev s (tc_segment_id c) + 1
      \<and> translation_last_rev s' = (translation_last_rev s)(tc_segment_id c := tc_revision c)
      \<and> translation_finalized s' = (translation_finalized s)(tc_segment_id c := translation_is_final c)"
  proof (cases rule: consume_translation_cases)
    case (emitted A B k tx)
    from emitted(2) show ?thesis
      by (rule emit_translation_Inr) (use emitted(1) in \<open>auto simp: translation_projections\<close>)
  qed simp
next
  fix s s' :: translation_reconciler and ev out
  assume con: "consume_translation s ev = Inr (s', out)"
  show "consume_translation s' ev = Inr (s', None)"
  proof (cases "te_event_type ev \<in> {T_PARTIAL_RESULT, T_FINAL_RESULT}
      \<and> (\<exists>tx. te_text ev = Some tx \<and> py_strip tx \<noteq> [])")
    case True
    have "te_provider_event_id ev \<in> xr_seen_event_ids s'"
      using con True unfolding consume_translation_def Let_def
      by (auto split: if_splits option.splits elim!: emit_translation_Inr)
    with con True show ?thesis
      by (auto simp: consume_translation_def split: if_splits)
  next
    case False
    with con have "s' = s" "out = None"
      by (auto simp: consume_translation_def split: if_splits option.splits)
    with con show ?thesis by simp
  qed
qed simp

text \<open>
  C6. The translation track keeps the same promises as the source track: for any event
  stream, the revisions of a segment are 1, 2, ..., n, at most one of them is FINAL, and it
  is the last.
\<close>

theorem translation_revisions_gapless:
  assumes "consume_all consume_translation (translation_reconciler_init sid sl tg) evs = Inr (s', outs)"
  shows "(let xs = filter (\<lambda>c. tc_segment_id c = k) outs in
     map tc_revision xs = [1 .. int (length xs)] \<and> length (filter translation_is_final xs) \<le> 1
     \<and> list_all (\<lambda>c. \<not> translation_is_final c) (butlast xs))"
proof -
  let ?xs = "filter (\<lambda>c. tc_segment_id c = k) outs"
  have "translation_last_rev (translation_reconciler_init sid sl tg) k = 0"
    by (simp add: translation_last_rev_def translation_reconciler_init_def)
  then have rev: "map tc_revision ?xs = [1 .. translation_last_rev s' k]
      \<and> 0 \<le> translation_last_rev s' k"
    using translation.revisions_consecutive [OF TrueI assms, of k] by simp
  then have "length ?xs = length [1 .. translation_last_rev s' k]" by (metis length_map)
  with rev show ?thesis
    using translation.at_most_one_final [OF TrueI assms, of k]
      translation.final_closes [OF TrueI assms, of k]
    by (simp add: conj_commute)
qed

definition demo_translation :: "translation_event list" where
  "demo_translation = map (\<lambda>(ty, pid, tx). \<lparr>te_event_type = ty, te_provider_event_id = pid,
     te_target_language = ''zh'', te_segment_id = Some ''a'', te_text = Some tx,
     te_begin_time_ms = None, te_end_time_ms = None, te_received_at_ms = 1\<rparr>)
     [(T_PARTIAL_RESULT, ''e1'', ''ni''), (T_FINAL_RESULT, ''e2'', ''ni hao''),
      (T_FINAL_RESULT, ''e3'', ''other'')]"

theorem translation_revisions_gapless_witness:
  "map tc_revision (snd (projr (consume_all consume_translation
     (translation_reconciler_init ''s1'' ''en'' ''zh'') demo_translation))) = [1, 2]"
proof -
  let ?r = "projr (consume_all consume_translation
     (translation_reconciler_init ''s1'' ''en'' ''zh'') demo_translation)"
  have run: "consume_all consume_translation (translation_reconciler_init ''s1'' ''en'' ''zh'')
      demo_translation = Inr (fst ?r, snd ?r)" by code_simp
  have "filter (\<lambda>c. tc_segment_id c = ''a'') (snd ?r) = snd ?r" "length (snd ?r) = 2"
    by code_simp+
  with translation_revisions_gapless [OF run, of "''a''"] show ?thesis
    by (simp add: Let_def upto_rec1)
qed

end
