(* ===== verification/Audio.thy ===== *)
theory Audio
  imports Prelude
begin

section \<open>Audio: chunking and routing\<close>

text \<open>
  Models \<open>transcription/chunker.py\<close> (\<open>AudioChunker\<close>, which regroups PCM frames into
  provider-sized chunks) and \<open>worker/audio_router.py\<close> (\<open>AudioRouter\<close>, which sends each
  frame to the required source route and to isolated optional routes).
\<close>

subsection \<open>The chunker\<close>

record 'b audio_chunker =
  ch_sample_rate :: int
  ch_channels :: int
  ch_sample_width_bytes :: int
  ch_chunk_duration_ms :: int
  ch_bytes_per_chunk :: int
  ch_buffer :: "'b list"

definition chunker_init :: "int \<Rightarrow> int \<Rightarrow> int \<Rightarrow> int \<Rightarrow> 'b audio_chunker res" where
  "chunker_init sample_rate channels sample_width_bytes chunk_duration_ms =
     (if sample_rate \<le> 0 then Inl (ValueError ''sample_rate must be positive'')
      else if channels \<le> 0 then Inl (ValueError ''channels must be positive'')
      else if sample_width_bytes \<noteq> 2 then Inl (ValueError ''only PCM16 (2-byte samples) is supported'')
      else if chunk_duration_ms \<le> 0 then Inl (ValueError ''chunk_duration_ms must be positive'')
      else let byte_milliseconds = sample_rate * channels * sample_width_bytes * chunk_duration_ms in
        if byte_milliseconds mod 1000 \<noteq> 0
        then Inl (ValueError ''chunk duration must produce a whole number of bytes'')
        else Inr \<lparr>ch_sample_rate = sample_rate, ch_channels = channels,
               ch_sample_width_bytes = sample_width_bytes, ch_chunk_duration_ms = chunk_duration_ms,
               ch_bytes_per_chunk = byte_milliseconds div 1000, ch_buffer = []\<rparr>)"

text \<open>
  The loop of \<open>feed\<close>. With a chunk size of zero it would never end; the constructor gives a
  positive one (\<open>chunker_init_positive\<close>), which is the guard \<open>0 < n\<close> here.
\<close>

function drain :: "nat \<Rightarrow> 'b list \<Rightarrow> 'b list list \<times> 'b list" where
  "drain n buf =
     (if 0 < n \<and> n \<le> length buf
      then (let (chunks, rest) = drain n (drop n buf) in (take n buf # chunks, rest))
      else ([], buf))"
  by pat_completeness auto
termination
  by (relation "measure (\<lambda>(n, buf). length buf)") auto

declare drain.simps [simp del]

definition chunker_feed :: "'b audio_chunker \<Rightarrow> 'b list \<Rightarrow> ('b audio_chunker \<times> 'b list list) res" where
  "chunker_feed c pcm =
     (if int (length pcm) mod ch_sample_width_bytes c \<noteq> 0
      then Inl (ValueError ''PCM16 input must contain complete 2-byte samples'')
      else if pcm = [] then Inr (c, [])
      else let (chunks, rest) = drain (nat (ch_bytes_per_chunk c)) (ch_buffer c @ pcm)
           in Inr (c\<lparr>ch_buffer := rest\<rparr>, chunks))"

definition chunker_flush :: "'b audio_chunker \<Rightarrow> 'b audio_chunker \<times> 'b list option" where
  "chunker_flush c =
     (if ch_buffer c = [] then (c, None) else (c\<lparr>ch_buffer := []\<rparr>, Some (ch_buffer c)))"

fun feed_all :: "'b audio_chunker \<Rightarrow> 'b list list \<Rightarrow> ('b audio_chunker \<times> 'b list list) res" where
  "feed_all c [] = Inr (c, [])"
| "feed_all c (f # fs) =
     rbind (chunker_feed c f) (\<lambda>(c1, chunks).
     rbind (feed_all c1 fs) (\<lambda>(c2, more). Inr (c2, chunks @ more)))"

definition chunker_inv :: "'b audio_chunker \<Rightarrow> bool" where
  "chunker_inv c \<longleftrightarrow> 0 < ch_bytes_per_chunk c \<and> ch_sample_width_bytes c = 2
     \<and> int (length (ch_buffer c)) < ch_bytes_per_chunk c"

lemma chunker_init_positive:
  assumes "chunker_init sr ch w d = Inr c"
  shows "chunker_inv c \<and> ch_buffer c = [] \<and> ch_bytes_per_chunk c * 1000 = sr * ch * w * d"
proof -
  have pos: "0 < sr * ch * w * d" and div: "sr * ch * w * d mod 1000 = 0"
    using assms by (auto simp: chunker_init_def Let_def split: if_splits)
  then have "1000 \<le> sr * ch * w * d"
    by (metis mod_0_imp_dvd zdvd_imp_le)
  then have "0 < sr * ch * w * d div 1000" by (simp add: pos_imp_zdiv_pos_iff)
  with assms div show ?thesis
    by (auto simp: chunker_init_def Let_def chunker_inv_def split: if_splits)
qed

lemma drain_spec:
  "0 < n \<Longrightarrow> drain n buf = (chunks, rest) \<Longrightarrow>
     concat chunks @ rest = buf \<and> list_all (\<lambda>c. length c = n) chunks \<and> length rest < n"
proof (induction n buf arbitrary: chunks rest rule: drain.induct)
  case (1 n buf)
  show ?case
  proof (cases "n \<le> length buf")
    case True
    obtain cs r where d: "drain n (drop n buf) = (cs, r)" by (cases "drain n (drop n buf)")
    with True 1(2,3) have "chunks = take n buf # cs" "rest = r"
      by (auto simp: drain.simps [of n buf])
    with 1(1) [of cs r] True 1(2) d show ?thesis by (simp add: append.assoc)
  next
    case False
    with 1(2,3) show ?thesis by (auto simp: drain.simps [of n buf])
  qed
qed

lemma chunker_feed_spec:
  assumes "chunker_inv c" and "chunker_feed c pcm = Inr (c', chunks)"
  shows "chunker_inv c' \<and> ch_bytes_per_chunk c' = ch_bytes_per_chunk c
     \<and> concat chunks @ ch_buffer c' = ch_buffer c @ pcm
     \<and> list_all (\<lambda>x. int (length x) = ch_bytes_per_chunk c) chunks"
proof (cases "pcm = []")
  case False
  obtain cs r where d: "drain (nat (ch_bytes_per_chunk c)) (ch_buffer c @ pcm) = (cs, r)"
    by (cases "drain (nat (ch_bytes_per_chunk c)) (ch_buffer c @ pcm)")
  have n: "0 < nat (ch_bytes_per_chunk c)" using assms(1) by (simp add: chunker_inv_def)
  from False assms(2) d have "c' = c\<lparr>ch_buffer := r\<rparr>" "chunks = cs"
    by (auto simp: chunker_feed_def split: if_splits)
  with drain_spec [OF n d] assms(1) show ?thesis
    by (auto simp: chunker_inv_def list_all_iff)
qed (use assms in \<open>auto simp: chunker_feed_def split: if_splits\<close>)

lemma feed_all_spec:
  assumes "chunker_inv c" and "feed_all c fs = Inr (c', chunks)"
  shows "chunker_inv c' \<and> ch_bytes_per_chunk c' = ch_bytes_per_chunk c
     \<and> concat chunks @ ch_buffer c' = ch_buffer c @ concat fs
     \<and> list_all (\<lambda>x. int (length x) = ch_bytes_per_chunk c) chunks"
  using assms
proof (induction fs arbitrary: c chunks)
  case (Cons f fs)
  from Cons.prems(2) obtain c1 xs ys where f: "chunker_feed c f = Inr (c1, xs)"
    "feed_all c1 fs = Inr (c', ys)" "chunks = xs @ ys"
    by (auto simp: rbind_eq_Inr)
  note 1 = chunker_feed_spec [OF Cons.prems(1) f(1)]
  note 2 = Cons.IH [OF 1 [THEN conjunct1] f(2)]
  have "concat chunks @ ch_buffer c' = concat xs @ ch_buffer c1 @ concat fs"
    using 2 f(3) by simp
  also have "\<dots> = ch_buffer c @ concat (f # fs)"
    using 1 by (metis append.assoc concat.simps(2))
  finally show ?case using 1 2 f(3) by simp
qed simp

text \<open>
  C7. Chunking loses and reorders nothing: for a chunker built by the constructor and any
  sequence of accepted frames, the emitted chunks followed by the flushed tail are exactly
  the concatenated input; every emitted chunk has the configured size, and less than one
  chunk stays buffered.
\<close>

theorem chunker_lossless:
  assumes "chunker_init sr ch w d = Inr c" and "feed_all c frames = Inr (c', chunks)"
  shows "concat chunks @ (case snd (chunker_flush c') of None \<Rightarrow> [] | Some tail \<Rightarrow> tail) = concat frames
    \<and> list_all (\<lambda>x. int (length x) * 1000 = sr * ch * w * d) chunks
    \<and> int (length (ch_buffer c')) < ch_bytes_per_chunk c
    \<and> ch_buffer (fst (chunker_flush c')) = []"
proof -
  note i = chunker_init_positive [OF assms(1)]
  note f = feed_all_spec [OF i [THEN conjunct1] assms(2)]
  have "list_all (\<lambda>x. int (length x) * 1000 = sr * ch * w * d) chunks"
    using i f by (auto simp: list_all_iff)
  then show ?thesis
    using i f by (auto simp: chunker_flush_def chunker_inv_def)
qed

theorem chunker_lossless_witness:
  "(let c = projr (chunker_init 1000 1 2 2) in
     feed_all c [[1, 2], [3, 4, 5, 6], [7, 8 :: nat]] = Inr (c\<lparr>ch_buffer := []\<rparr>, [[1, 2, 3, 4], [5, 6, 7, 8]]))
   \<and> concat [[1, 2, 3, 4], [5, 6, 7, 8 :: nat]] = concat [[1, 2], [3, 4, 5, 6], [7, 8]]"
proof -
  let ?c = "projr (chunker_init 1000 1 2 2) :: nat audio_chunker"
  have i: "chunker_init 1000 1 2 2 = Inr ?c" by (simp add: chunker_init_def)
  have r: "feed_all ?c [[1, 2], [3, 4, 5, 6], [7, 8]] = Inr (?c\<lparr>ch_buffer := []\<rparr>, [[1, 2, 3, 4], [5, 6, 7, 8]])"
    by code_simp
  have "snd (chunker_flush (?c\<lparr>ch_buffer := []\<rparr>)) = None" by (simp add: chunker_flush_def)
  with chunker_lossless [OF i r] r show ?thesis by (simp only: Let_def) simp
qed

text \<open>
  The constructor asks for a whole number of bytes, not of samples: at 11025 Hz, mono and
  20 ms it accepts a chunk of 441 bytes, so chunk boundaries fall inside a 2-byte sample.
\<close>

lemma chunker_accepts_odd_chunk:
  "map_sum id ch_bytes_per_chunk (chunker_init 11025 1 2 20 :: nat audio_chunker res) = Inr 441"
  by (simp add: chunker_init_def)

subsection \<open>The router\<close>

text \<open>
  A sink is code outside the router: it acts on a world \<open>'w\<close> and returns, raises
  \<open>asyncio.CancelledError\<close> or raises another exception. So does a failure handler. The
  exception of \<open>route\<close> itself is part of its result, with the state it leaves behind.
\<close>

datatype outcome = Returned | Raised_Cancelled | Raised string

type_synonym ('p, 'w) sink = "'p \<Rightarrow> 'w \<Rightarrow> 'w \<times> outcome"
type_synonym 'w failure_handler = "outcome \<Rightarrow> 'w \<Rightarrow> 'w \<times> outcome"

record ('p, 'w) optional_route =
  ort_name :: string
  ort_sink :: "('p, 'w) sink"
  ort_on_failure :: "'w failure_handler"
  ort_active :: bool

record ('p, 'w) audio_router =
  rt_source :: "('p, 'w) sink"
  rt_optional :: "('p, 'w) optional_route list"

definition router_init :: "('p, 'w) sink \<Rightarrow> ('p, 'w) audio_router" where
  "router_init source = \<lparr>rt_source = source, rt_optional = []\<rparr>"

definition add_optional ::
  "('p, 'w) audio_router \<Rightarrow> string \<Rightarrow> ('p, 'w) sink \<Rightarrow> 'w failure_handler \<Rightarrow> ('p, 'w) audio_router res" where
  "add_optional r name sink on_failure =
     (if name = [] then Inl (ValueError ''route name is required'')
      else Inr (r\<lparr>rt_optional := rt_optional r @
             [\<lparr>ort_name = name, ort_sink = sink, ort_on_failure = on_failure, ort_active = True\<rparr>]\<rparr>))"

text \<open>The loop over the optional routes; the error log of a failing report has no effect.\<close>

fun route_optional ::
  "('p, 'w) optional_route list \<Rightarrow> 'p \<Rightarrow> 'w \<Rightarrow> ('p, 'w) optional_route list \<times> 'w \<times> outcome" where
  "route_optional [] pcm w = ([], w, Returned)"
| "route_optional (r # rs) pcm w =
     (if \<not> ort_active r then
        (case route_optional rs pcm w of (rs', w', res) \<Rightarrow> (r # rs', w', res))
      else case ort_sink r pcm w of
        (w1, Returned) \<Rightarrow>
          (case route_optional rs pcm w1 of (rs', w', res) \<Rightarrow> (r # rs', w', res))
      | (w1, Raised_Cancelled) \<Rightarrow> (r # rs, w1, Raised_Cancelled)
      | (w1, Raised e) \<Rightarrow>
          (case ort_on_failure r (Raised e) w1 of
             (w2, Raised_Cancelled) \<Rightarrow> (r\<lparr>ort_active := False\<rparr> # rs, w2, Raised_Cancelled)
           | (w2, _) \<Rightarrow>
               (case route_optional rs pcm w2 of
                  (rs', w', res) \<Rightarrow> (r\<lparr>ort_active := False\<rparr> # rs', w', res))))"

definition route ::
  "('p, 'w) audio_router \<Rightarrow> 'p \<Rightarrow> 'w \<Rightarrow> ('p, 'w) audio_router \<times> 'w \<times> outcome" where
  "route r pcm w =
     (case rt_source r pcm w of
        (w1, Returned) \<Rightarrow>
          (case route_optional (rt_optional r) pcm w1 of
             (rs, w2, res) \<Rightarrow> (r\<lparr>rt_optional := rs\<rparr>, w2, res))
      | (w1, raised) \<Rightarrow> (r, w1, raised))"

definition is_optional_active :: "('p, 'w) audio_router \<Rightarrow> string \<Rightarrow> bool" where
  "is_optional_active r name \<longleftrightarrow> list_ex (\<lambda>x. ort_name x = name \<and> ort_active x) (rt_optional r)"

text \<open>A route that never raises \<open>CancelledError\<close>, in its sink or in its handler.\<close>

definition never_cancels :: "('p, 'w) optional_route \<Rightarrow> bool" where
  "never_cancels r \<longleftrightarrow> (\<forall>p w. snd (ort_sink r p w) \<noteq> Raised_Cancelled)
     \<and> (\<forall>e w. snd (ort_on_failure r e w) \<noteq> Raised_Cancelled)"

lemma route_optional_returns:
  "list_all never_cancels rs \<Longrightarrow> snd (snd (route_optional rs pcm w)) = Returned"
  by (induction rs pcm w rule: route_optional.induct)
    (auto simp: never_cancels_def split: prod.splits outcome.splits, (metis snd_conv)+)

text \<open>The routes keep their identity, and only an active one can become inactive.\<close>

definition demoted :: "('p, 'w) optional_route \<Rightarrow> ('p, 'w) optional_route \<Rightarrow> bool" where
  "demoted r r' \<longleftrightarrow> r' = r \<or> (ort_active r \<and> r' = r\<lparr>ort_active := False\<rparr>)"

lemma route_optional_demotes: "list_all2 demoted rs (fst (route_optional rs pcm w))"
  by (induction rs pcm w rule: route_optional.induct)
    (auto simp: demoted_def split: prod.splits outcome.splits intro: list.rel_refl)

lemma route_optional_inactive:
  "list_all (\<lambda>r. \<not> ort_active r) rs \<Longrightarrow> route_optional rs pcm w = (rs, w, Returned)"
  by (induction rs pcm w rule: route_optional.induct) auto

text \<open>
  C8. Failures of auxiliary routes are isolated from the source: whatever the optional
  sinks and failure handlers do short of cancellation, routing a frame raises exactly when
  the required source raises; a source failure reaches the caller before any optional route
  is touched; and an optional route is only ever switched off, never on, changed or lost.
\<close>

theorem router_isolates_optional_failures:
  assumes "list_all never_cancels (rt_optional r)"
  shows "snd (snd (route r pcm w)) = snd (rt_source r pcm w)
    \<and> (snd (rt_source r pcm w) \<noteq> Returned \<longrightarrow> route r pcm w = (r, rt_source r pcm w))
    \<and> list_all2 demoted (rt_optional r) (rt_optional (fst (route r pcm w)))"
proof (cases "rt_source r pcm w")
  case (Pair w1 res)
  show ?thesis
    using Pair route_optional_returns [OF assms, of pcm w1]
      route_optional_demotes [of "rt_optional r" pcm w1]
    by (cases res)
      (auto simp: route_def demoted_def split: prod.splits intro: list.rel_refl)
qed

text \<open>
  A sink that records the frames it gets, and one that fails; the failing route reports and
  stays off.
\<close>

definition demo_router :: "(nat, (string \<times> nat) list) audio_router" where
  "demo_router = \<lparr>rt_source = (\<lambda>p w. (w @ [(''asr'', p)], Returned)),
     rt_optional = [\<lparr>ort_name = ''translate'', ort_sink = (\<lambda>p w. (w, Raised ''full'')),
       ort_on_failure = (\<lambda>e w. (w @ [(''report'', 0)], Raised ''down'')), ort_active = True\<rparr>]\<rparr>"

theorem router_isolates_optional_failures_witness:
  "snd (route demo_router 7 []) = ([(''asr'', 7), (''report'', 0)], Returned)
   \<and> \<not> is_optional_active (fst (route demo_router 7 [])) ''translate''"
proof -
  have "list_all never_cancels (rt_optional demo_router)"
    by (simp add: demo_router_def never_cancels_def)
  from router_isolates_optional_failures [OF this, of 7 "[]"]
  have "snd (snd (route demo_router 7 [])) = Returned" by (simp add: demo_router_def)
  then show ?thesis by (auto simp: demo_router_def route_def is_optional_active_def)
qed

end
