(* ===== verification/Segment_Store.thy ===== *)
theory Segment_Store
  imports Captions Translation
begin

section \<open>Persisted segments\<close>

text \<open>
  Models \<open>persistence/segments.py\<close>, \<open>persistence/translations.py\<close> and
  \<open>persistence/rooms.py\<close>. Final captions are upserted under a natural key and only a
  higher revision replaces a stored one; the interface \<open>revision_store\<close> states this for
  both tables. A translated segment is aligned with the source segments it overlaps.
\<close>

subsection \<open>The interface of a store of revisions\<close>

fun put_all :: "('x \<Rightarrow> 'db \<Rightarrow> 'c \<Rightarrow> ('db \<times> 'r) res) \<Rightarrow> 'db \<Rightarrow> ('x \<times> 'c) list \<Rightarrow> 'db res" where
  "put_all put db [] = Inr db"
| "put_all put db ((x, c) # cs) = rbind (put x db c) (\<lambda>(db', r). put_all put db' cs)"

locale revision_store =
  fixes put :: "'x \<Rightarrow> 'db \<Rightarrow> 'c \<Rightarrow> ('db \<times> 'r) res"
    and lookup :: "'db \<Rightarrow> 'k \<Rightarrow> 'r option"
    and key :: "'c \<Rightarrow> 'k"
    and rev_c :: "'c \<Rightarrow> int"
    and rev_r :: "'r \<Rightarrow> int"
    and text_c :: "'c \<Rightarrow> string"
    and text_r :: "'r \<Rightarrow> string"
  assumes put_stale: "put x db c = Inr (db', r) \<Longrightarrow> lookup db (key c) = Some r0 \<Longrightarrow>
      rev_c c \<le> rev_r r0 \<Longrightarrow> db' = db \<and> r = r0"
    and put_fresh: "put x db c = Inr (db', r) \<Longrightarrow>
      (\<And>r0. lookup db (key c) = Some r0 \<Longrightarrow> rev_r r0 < rev_c c) \<Longrightarrow>
      lookup db' = (lookup db)(key c \<mapsto> r) \<and> rev_r r = rev_c c \<and> text_r r = text_c c"
begin

lemma put_cases:
  assumes "put x db c = Inr (db', r)"
  obtains (stale) "db' = db" "lookup db (key c) = Some r" "rev_c c \<le> rev_r r"
    | (fresh) "lookup db' = (lookup db)(key c \<mapsto> r)" "rev_r r = rev_c c" "text_r r = text_c c"
        "\<And>r0. lookup db (key c) = Some r0 \<Longrightarrow> rev_r r0 < rev_c c"
proof (cases "\<exists>r0. lookup db (key c) = Some r0 \<and> rev_c c \<le> rev_r r0")
  case True
  with put_stale [OF assms] stale show thesis by blast
next
  case False
  then have "\<And>r0. lookup db (key c) = Some r0 \<Longrightarrow> rev_r r0 < rev_c c" by force
  with put_fresh [OF assms] fresh show thesis by blast
qed

text \<open>A stored revision never goes down, and every caption put in is covered by it.\<close>

lemma put_mono:
  "put x db c = Inr (db', r) \<Longrightarrow> lookup db k = Some r0 \<Longrightarrow>
     \<exists>r1. lookup db' k = Some r1 \<and> rev_r r0 \<le> rev_r r1"
  by (erule put_cases) (auto intro: less_imp_le)

lemma put_all_mono:
  "put_all put db cs = Inr db' \<Longrightarrow> lookup db k = Some r0 \<Longrightarrow>
     \<exists>r1. lookup db' k = Some r1 \<and> rev_r r0 \<le> rev_r r1"
proof (induction cs arbitrary: db r0)
  case (Cons xc cs)
  then show ?case
    by (cases xc) (auto simp: rbind_eq_Inr, meson put_mono order_trans)
qed simp

lemma put_all_covers:
  "put_all put db cs = Inr db' \<Longrightarrow> (x, c) \<in> set cs \<Longrightarrow>
     \<exists>r. lookup db' (key c) = Some r \<and> rev_c c \<le> rev_r r"
proof (induction cs arbitrary: db)
  case (Cons xc cs)
  obtain y d where xc: "xc = (y, d)" by (cases xc)
  with Cons.prems(1) obtain db1 r1 where p: "put y db d = Inr (db1, r1)"
    "put_all put db1 cs = Inr db'"
    by (auto simp: rbind_eq_Inr)
  show ?case
  proof (cases "(x, c) \<in> set cs")
    case False
    then have "c = d" using Cons.prems(2) xc by simp
    moreover from p(1) have "lookup db1 (key d) = Some r1 \<and> rev_c d \<le> rev_r r1"
      by (rule put_cases) auto
    ultimately show ?thesis using put_all_mono [OF p(2), of "key c" r1] by auto
  qed (use Cons.IH [OF p(2)] in blast)
qed simp

lemma put_all_origin:
  "put_all put db cs = Inr db' \<Longrightarrow> lookup db' k = Some r \<Longrightarrow>
     lookup db k = Some r \<or> (\<exists>(x, c) \<in> set cs. key c = k \<and> rev_r r = rev_c c \<and> text_r r = text_c c)"
proof (induction cs arbitrary: db)
  case (Cons xc cs)
  obtain y d where xc: "xc = (y, d)" by (cases xc)
  with Cons.prems(1) obtain db1 r1 where p: "put y db d = Inr (db1, r1)"
    "put_all put db1 cs = Inr db'"
    by (auto simp: rbind_eq_Inr)
  have "lookup db1 k = Some r \<Longrightarrow> lookup db k = Some r
      \<or> (key d = k \<and> rev_r r = rev_c d \<and> text_r r = text_c d)"
    using p(1) by (rule put_cases) (auto split: if_splits)
  with Cons.IH [OF p(2) Cons.prems(2)] xc show ?case by auto
qed simp

text \<open>The stored row is the newest one: the highest revision put under its key.\<close>

lemma put_all_newest:
  assumes "put_all put db cs = Inr db'" and "lookup db k = None" and "\<exists>(x, c) \<in> set cs. key c = k"
  shows "\<exists>r. lookup db' k = Some r \<and> rev_r r = Max (rev_c ` {c \<in> snd ` set cs. key c = k})
     \<and> (\<exists>c \<in> snd ` set cs. key c = k \<and> rev_c c = rev_r r \<and> text_c c = text_r r)"
proof -
  let ?C = "{c \<in> snd ` set cs. key c = k}"
  from assms(3) obtain x c where c: "(x, c) \<in> set cs" "key c = k" by blast
  obtain r where r: "lookup db' k = Some r" using put_all_covers [OF assms(1) c(1)] c(2) by blast
  obtain d where d: "d \<in> snd ` set cs" "key d = k" "rev_r r = rev_c d" "text_r r = text_c d"
    using put_all_origin [OF assms(1) r] assms(2) by force
  have "Max (rev_c ` ?C) = rev_c d"
  proof (rule Max_eqI)
    fix n assume "n \<in> rev_c ` ?C"
    then obtain y e where "(y, e) \<in> set cs" "key e = k" "n = rev_c e" by auto
    with put_all_covers [OF assms(1), of y e] r d(3) show "n \<le> rev_c d" by auto
  qed (use d in auto)
  with r d show ?thesis by metis
qed

end

subsection \<open>The segment table\<close>

record segment_record =
  sg_id :: string
  sg_session_id :: string
  sg_segment_id :: string
  sg_track_id :: string
  sg_revision :: int
  sg_language :: string
  sg_raw_text :: string
  sg_display_text :: string
  sg_audio_start_ms :: "int option"
  sg_audio_end_ms :: "int option"
  sg_confidence :: "rat option"
  sg_status :: string
  sg_received_at_ms :: int
  sg_finalized_at :: instant
  sg_created_at :: instant
  sg_updated_at :: instant

type_synonym segment_table = "segment_record list"

definition segment_key :: "segment_record \<Rightarrow> string \<times> string" where
  "segment_key r = (sg_session_id r, sg_segment_id r)"

abbreviation segment_lookup :: "segment_table \<Rightarrow> string \<times> string \<Rightarrow> segment_record option" where
  "segment_lookup db k \<equiv> find_row (\<lambda>r. segment_key r = k) db"

definition revise_segment ::
  "caption_event \<Rightarrow> string \<Rightarrow> string \<Rightarrow> instant \<Rightarrow> segment_record \<Rightarrow> segment_record" where
  "revise_segment caption track_id language now existing =
     existing\<lparr>sg_track_id := track_id, sg_revision := ce_revision caption, sg_language := language,
       sg_raw_text := ce_text caption, sg_display_text := ce_text caption,
       sg_audio_start_ms := ce_audio_start_ms caption, sg_audio_end_ms := ce_audio_end_ms caption,
       sg_confidence := ce_confidence caption, sg_status := caption_status_value FINAL,
       sg_received_at_ms := ce_received_at_ms caption,
       sg_finalized_at := ce_received_at_ms caption, sg_updated_at := now\<rparr>"

text \<open>\<open>fromtimestamp(received_at_ms / 1000)\<close> is the instant \<open>received_at_ms\<close> itself.\<close>

definition upsert_final ::
  "segment_table \<Rightarrow> caption_event \<Rightarrow> string \<Rightarrow> string \<Rightarrow> string \<Rightarrow> instant
   \<Rightarrow> (segment_table \<times> segment_record) res" where
  "upsert_final db caption track_id language new_id now =
     (if ce_status caption \<noteq> FINAL then Inl (ValueError ''only Final captions can be persisted'')
      else if track_id = [] then Inl (ValueError ''track_id is required'')
      else if language = [] then Inl (ValueError ''language is required'')
      else case segment_lookup db (ce_session_id caption, ce_segment_id caption) of
        Some existing \<Rightarrow>
          if ce_revision caption \<le> sg_revision existing then Inr (db, existing)
          else Inr (update_rows (\<lambda>r. segment_key r = segment_key existing)
                      (revise_segment caption track_id language now) db,
                    revise_segment caption track_id language now existing)
      | None \<Rightarrow>
          let rec = \<lparr>sg_id = new_id, sg_session_id = ce_session_id caption,
                sg_segment_id = ce_segment_id caption, sg_track_id = track_id,
                sg_revision = ce_revision caption, sg_language = language,
                sg_raw_text = ce_text caption, sg_display_text = ce_text caption,
                sg_audio_start_ms = ce_audio_start_ms caption,
                sg_audio_end_ms = ce_audio_end_ms caption, sg_confidence = ce_confidence caption,
                sg_status = caption_status_value FINAL,
                sg_received_at_ms = ce_received_at_ms caption,
                sg_finalized_at = ce_received_at_ms caption, sg_created_at = now,
                sg_updated_at = now\<rparr>
          in if new_id \<in> set (map sg_id db) then Inl (RuntimeError ''IntegrityError'')
             else Inr (db @ [rec], rec))"

definition list_final :: "segment_table \<Rightarrow> string \<Rightarrow> segment_record list" where
  "list_final db session_id =
     sort_key (\<lambda>r. (time_key (sg_audio_start_ms r), time_key (sg_audio_end_ms r), sg_created_at r, sg_id r))
       (filter (\<lambda>r. sg_session_id r = session_id \<and> sg_status r = ''final'') db)"

definition segment_table_inv :: "segment_table \<Rightarrow> bool" where
  "segment_table_inv db \<longleftrightarrow> distinct (map segment_key db) \<and> distinct (map sg_id db)
     \<and> list_all (\<lambda>r. sg_status r = ''final'') db"

lemma revise_segment_sel [simp]:
  "segment_key (revise_segment c t l n r) = segment_key r" "sg_id (revise_segment c t l n r) = sg_id r"
  "sg_revision (revise_segment c t l n r) = ce_revision c"
  "sg_display_text (revise_segment c t l n r) = ce_text c"
  "sg_status (revise_segment c t l n r) = ''final''"
  by (simp_all add: revise_segment_def segment_key_def)

lemma upsert_final_cases:
  assumes "upsert_final db c t l i now = Inr (db', r)"
  obtains (stale) "db' = db" "segment_lookup db (ce_session_id c, ce_segment_id c) = Some r"
      "ce_revision c \<le> sg_revision r"
    | (revised) r0 where "segment_lookup db (ce_session_id c, ce_segment_id c) = Some r0"
        "sg_revision r0 < ce_revision c" "r = revise_segment c t l now r0"
        "db' = update_rows (\<lambda>r. segment_key r = segment_key r0) (revise_segment c t l now) db"
    | (inserted) "segment_lookup db (ce_session_id c, ce_segment_id c) = None" "db' = db @ [r]"
        "sg_id r = i" "i \<notin> set (map sg_id db)" "segment_key r = (ce_session_id c, ce_segment_id c)"
        "sg_revision r = ce_revision c" "sg_display_text r = ce_text c" "sg_status r = ''final''"
  using assms
  by (auto simp: upsert_final_def Let_def segment_key_def not_le split: if_splits option.splits)

lemma upsert_final_inv:
  assumes "segment_table_inv db" and "upsert_final db c t l i now = Inr (db', r)"
  shows "segment_table_inv db'"
  using assms(2)
proof (cases rule: upsert_final_cases)
  case revised
  with assms(1) show ?thesis
    by (auto simp: segment_table_inv_def map_key_update_rows list_all_iff set_update_rows)
next
  case inserted
  with assms(1) show ?thesis
    by (auto simp: segment_table_inv_def find_row_None)
qed (use assms in simp)

lemma list_final_segment_ids:
  assumes "segment_table_inv segs"
  shows "distinct (map sg_segment_id (list_final segs sid))" "set (map sg_segment_id (list_final segs sid))
    = {sg_segment_id r | r. r \<in> set segs \<and> sg_session_id r = sid}"
proof -
  have rows: "set (list_final segs sid) = {r \<in> set segs. sg_session_id r = sid}"
    using assms by (auto simp: list_final_def segment_table_inv_def list_all_iff)
  have "inj_on segment_key (set segs)" "distinct segs"
    using assms by (simp_all add: segment_table_inv_def distinct_map)
  then have "inj_on sg_segment_id (set (list_final segs sid))" "distinct (list_final segs sid)"
    unfolding rows by (auto simp: inj_on_def segment_key_def list_final_def)
  then show "distinct (map sg_segment_id (list_final segs sid))" by (simp add: distinct_map)
  show "set (map sg_segment_id (list_final segs sid)) = {sg_segment_id r | r. r \<in> set segs \<and> sg_session_id r = sid}"
    by (auto simp: rows)
qed

type_synonym upsert_args = "string \<times> string \<times> string \<times> instant"

definition put_segment ::
  "upsert_args \<Rightarrow> segment_table \<Rightarrow> caption_event \<Rightarrow> (segment_table \<times> segment_record) res" where
  "put_segment x db c = (case x of (track_id, language, new_id, now) \<Rightarrow>
     upsert_final db c track_id language new_id now)"

interpretation segments: revision_store put_segment segment_lookup
  "\<lambda>c. (ce_session_id c, ce_segment_id c)" ce_revision sg_revision ce_text sg_display_text
proof
  fix x db c db' r r0
  assume "put_segment x db c = Inr (db', r)"
    and "segment_lookup db (ce_session_id c, ce_segment_id c) = Some r0"
    and "ce_revision c \<le> sg_revision r0"
  then show "db' = db \<and> r = r0"
    by (cases x) (auto simp: put_segment_def elim!: upsert_final_cases)
next
  fix x db c db' r
  assume put: "put_segment x db c = Inr (db', r)"
    and new: "\<And>r0. segment_lookup db (ce_session_id c, ce_segment_id c) = Some r0
        \<Longrightarrow> sg_revision r0 < ce_revision c"
  obtain t l i now where up: "upsert_final db c t l i now = Inr (db', r)"
    using put by (cases x) (auto simp: put_segment_def)
  from up show "segment_lookup db' = (segment_lookup db)((ce_session_id c, ce_segment_id c) \<mapsto> r)
      \<and> sg_revision r = ce_revision c \<and> sg_display_text r = ce_text c"
  proof (cases rule: upsert_final_cases)
    case (revised r0)
    then have "segment_key r0 = (ce_session_id c, ce_segment_id c)"
      using find_row_Some by fastforce
    with revised show ?thesis
      by (auto simp: fun_eq_iff find_update_rows_key)
  qed (use new in \<open>auto simp: fun_eq_iff find_row_append split: option.splits\<close>)
qed

lemma put_segments_inv:
  "segment_table_inv db \<Longrightarrow> put_all put_segment db cs = Inr db' \<Longrightarrow> segment_table_inv db'"
proof (induction cs arbitrary: db)
  case (Cons xc cs)
  then show ?case
    by (cases xc) (auto simp: rbind_eq_Inr put_segment_def dest: upsert_final_inv)
qed simp

text \<open>
  C9. Persisting Finals is idempotent and monotone: whatever sequence of Final captions is
  upserted into an empty table (with any tracks, languages and times), a segment's row holds
  the highest revision that was put for it, with the text of a caption of that revision; the
  table has one row per segment, all final.
\<close>

theorem upsert_final_keeps_newest:
  assumes "put_all put_segment [] cs = Inr db"
    and "\<exists>(x, c) \<in> set cs. (ce_session_id c, ce_segment_id c) = k"
  shows "segment_table_inv db
    \<and> (\<exists>r. segment_lookup db k = Some r
       \<and> sg_revision r = Max (ce_revision ` {c \<in> snd ` set cs. (ce_session_id c, ce_segment_id c) = k})
       \<and> (\<exists>c \<in> snd ` set cs. (ce_session_id c, ce_segment_id c) = k
            \<and> ce_revision c = sg_revision r \<and> ce_text c = sg_display_text r))"
  using segments.put_all_newest [OF assms(1) _ assms(2)] put_segments_inv [OF _ assms(1)]
  by (simp add: segment_table_inv_def)

definition demo_final :: "int \<Rightarrow> string \<Rightarrow> caption_event" where
  "demo_final rv tx = \<lparr>ce_session_id = ''s1'', ce_segment_id = ''a'', ce_revision = rv,
     ce_status = FINAL, ce_text = tx, ce_audio_start_ms = Some 0, ce_audio_end_ms = Some 900,
     ce_confidence = None, ce_provider_event_id = ''p'', ce_received_at_ms = 1000\<rparr>"

definition demo_puts :: "(upsert_args \<times> caption_event) list" where
  "demo_puts = [((''t'', ''en'', ''r1'', 5), demo_final 2 ''two''), ((''t'', ''en'', ''r2'', 6), demo_final 1 ''one''),
     ((''t'', ''en'', ''r3'', 7), demo_final 3 ''three'')]"

theorem upsert_final_keeps_newest_witness:
  "map (\<lambda>r. (sg_id r, sg_revision r, sg_display_text r)) (projr (put_all put_segment [] demo_puts))
     = [(''r1'', 3, ''three'')]
   \<and> segment_table_inv (projr (put_all put_segment [] demo_puts))"
proof -
  have run: "put_all put_segment [] demo_puts = Inr (projr (put_all put_segment [] demo_puts))"
    by code_simp
  have "\<exists>(x, c) \<in> set demo_puts. (ce_session_id c, ce_segment_id c) = (''s1'', ''a'')"
    by (simp add: demo_puts_def demo_final_def)
  from upsert_final_keeps_newest [OF run this]
  have "segment_table_inv (projr (put_all put_segment [] demo_puts))" by blast
  moreover have "map (\<lambda>r. (sg_id r, sg_revision r, sg_display_text r))
      (projr (put_all put_segment [] demo_puts)) = [(''r1'', 3, ''three'')]" by code_simp
  ultimately show ?thesis by blast
qed

subsection \<open>The translation table and its alignment\<close>

record translation_record =
  ts_id :: string
  ts_session_id :: string
  ts_segment_id :: string
  ts_revision :: int
  ts_source_language :: string
  ts_target_language :: string
  ts_text :: string
  ts_audio_start_ms :: "int option"
  ts_audio_end_ms :: "int option"
  ts_source_segment_ids :: "string list"
  ts_status :: string
  ts_received_at_ms :: int
  ts_finalized_at :: instant
  ts_created_at :: instant
  ts_updated_at :: instant

type_synonym translation_table = "translation_record list"

definition translation_key :: "translation_record \<Rightarrow> string \<times> string \<times> string" where
  "translation_key r = (ts_session_id r, ts_target_language r, ts_segment_id r)"

abbreviation translation_lookup ::
  "translation_table \<Rightarrow> string \<times> string \<times> string \<Rightarrow> translation_record option" where
  "translation_lookup db k \<equiv> find_row (\<lambda>r. translation_key r = k) db"

definition source_for_alignment :: "segment_table \<Rightarrow> string \<Rightarrow> segment_record list" where
  "source_for_alignment segs session_id =
     sort_key (\<lambda>r. (time_key (sg_audio_start_ms r), sg_created_at r, sg_id r))
       (filter (\<lambda>r. sg_session_id r = session_id \<and> sg_status r = ''final'') segs)"

definition overlaps_with :: "int \<Rightarrow> int \<Rightarrow> segment_record \<Rightarrow> bool" where
  "overlaps_with start_ms end_ms r =
     (case (sg_audio_start_ms r, sg_audio_end_ms r) of
        (Some s, Some e) \<Rightarrow> start_ms \<le> e \<and> s \<le> end_ms | _ \<Rightarrow> False)"

definition starts_before :: "int \<Rightarrow> segment_record \<Rightarrow> bool" where
  "starts_before end_ms r = (case sg_audio_start_ms r of Some s \<Rightarrow> s \<le> end_ms | None \<Rightarrow> False)"

definition align_source_segments ::
  "segment_table \<Rightarrow> string \<Rightarrow> int option \<Rightarrow> int option \<Rightarrow> string list" where
  "align_source_segments segs session_id start_ms end_ms =
     (let source = source_for_alignment segs session_id in
      if source = [] then []
      else case (start_ms, end_ms) of
        (Some s, Some e) \<Rightarrow>
          let overlaps = map sg_segment_id (filter (overlaps_with s e) source) in
          if overlaps \<noteq> [] then overlaps
          else let prior = filter (starts_before e) source in
            [sg_segment_id (if prior \<noteq> [] then last prior else hd source)]
      | _ \<Rightarrow> [sg_segment_id (last source)])"

definition revise_translation ::
  "translation_caption \<Rightarrow> string list \<Rightarrow> instant \<Rightarrow> translation_record \<Rightarrow> translation_record" where
  "revise_translation caption source_segment_ids now existing =
     existing\<lparr>ts_revision := tc_revision caption, ts_source_language := tc_source_language caption,
       ts_text := tc_text caption, ts_audio_start_ms := tc_audio_start_ms caption,
       ts_audio_end_ms := tc_audio_end_ms caption, ts_source_segment_ids := source_segment_ids,
       ts_status := ''final'', ts_received_at_ms := tc_received_at_ms caption,
       ts_finalized_at := tc_received_at_ms caption, ts_updated_at := now\<rparr>"

definition upsert_final_translation ::
  "segment_table \<Rightarrow> translation_table \<Rightarrow> translation_caption \<Rightarrow> string \<Rightarrow> instant
   \<Rightarrow> (translation_table \<times> translation_record) res" where
  "upsert_final_translation segs db caption new_id now =
     (if tc_status caption \<noteq> T_FINAL then Inl (ValueError ''only Final translations can be persisted'')
      else
        let source_segment_ids = align_source_segments segs (tc_session_id caption)
              (tc_audio_start_ms caption) (tc_audio_end_ms caption)
        in case translation_lookup db
             (tc_session_id caption, tc_target_language caption, tc_segment_id caption) of
          Some existing \<Rightarrow>
            if tc_revision caption \<le> ts_revision existing then Inr (db, existing)
            else Inr (update_rows (\<lambda>r. translation_key r = translation_key existing)
                        (revise_translation caption source_segment_ids now) db,
                      revise_translation caption source_segment_ids now existing)
        | None \<Rightarrow>
            let rec = \<lparr>ts_id = new_id, ts_session_id = tc_session_id caption,
                  ts_segment_id = tc_segment_id caption, ts_revision = tc_revision caption,
                  ts_source_language = tc_source_language caption,
                  ts_target_language = tc_target_language caption, ts_text = tc_text caption,
                  ts_audio_start_ms = tc_audio_start_ms caption,
                  ts_audio_end_ms = tc_audio_end_ms caption,
                  ts_source_segment_ids = source_segment_ids, ts_status = ''final'',
                  ts_received_at_ms = tc_received_at_ms caption,
                  ts_finalized_at = tc_received_at_ms caption, ts_created_at = now,
                  ts_updated_at = now\<rparr>
            in if new_id \<in> set (map ts_id db) then Inl (RuntimeError ''IntegrityError'')
               else Inr (db @ [rec], rec))"

definition list_final_translations :: "translation_table \<Rightarrow> string \<Rightarrow> translation_record list" where
  "list_final_translations db session_id =
     sort_key (\<lambda>r. (time_key (ts_audio_start_ms r), time_key (ts_audio_end_ms r), ts_created_at r, ts_id r))
       (filter (\<lambda>r. ts_session_id r = session_id \<and> ts_status r = ''final'') db)"

text \<open>\<open>realign_session\<close> visits the final rows of the session; each row depends on itself only.\<close>

definition realign_row :: "segment_table \<Rightarrow> instant \<Rightarrow> translation_record \<Rightarrow> translation_record" where
  "realign_row segs now r =
     (let aligned = align_source_segments segs (ts_session_id r) (ts_audio_start_ms r) (ts_audio_end_ms r)
      in if aligned \<noteq> ts_source_segment_ids r
         then r\<lparr>ts_source_segment_ids := aligned, ts_updated_at := now\<rparr> else r)"

definition realign_session ::
  "segment_table \<Rightarrow> translation_table \<Rightarrow> string \<Rightarrow> instant \<Rightarrow> translation_table" where
  "realign_session segs db session_id now =
     update_rows (\<lambda>r. ts_session_id r = session_id \<and> ts_status r = ''final'') (realign_row segs now) db"

lemma revise_translation_sel [simp]:
  "translation_key (revise_translation c ids n r) = translation_key r"
  "ts_revision (revise_translation c ids n r) = tc_revision c"
  "ts_text (revise_translation c ids n r) = tc_text c"
  by (simp_all add: revise_translation_def translation_key_def)

lemma upsert_translation_cases:
  assumes "upsert_final_translation segs db c i now = Inr (db', r)"
  obtains (stale) "db' = db"
      "translation_lookup db (tc_session_id c, tc_target_language c, tc_segment_id c) = Some r"
      "tc_revision c \<le> ts_revision r"
    | (revised) r0 ids where
        "translation_lookup db (tc_session_id c, tc_target_language c, tc_segment_id c) = Some r0"
        "ts_revision r0 < tc_revision c" "r = revise_translation c ids now r0"
        "db' = update_rows (\<lambda>r. translation_key r = translation_key r0) (revise_translation c ids now) db"
    | (inserted) "translation_lookup db (tc_session_id c, tc_target_language c, tc_segment_id c) = None"
        "db' = db @ [r]" "translation_key r = (tc_session_id c, tc_target_language c, tc_segment_id c)"
        "ts_revision r = tc_revision c" "ts_text r = tc_text c"
  using assms
  by (auto simp: upsert_final_translation_def Let_def translation_key_def not_le
      split: if_splits option.splits)

definition put_translation ::
  "segment_table \<times> string \<times> instant \<Rightarrow> translation_table \<Rightarrow> translation_caption
   \<Rightarrow> (translation_table \<times> translation_record) res" where
  "put_translation x db c = (case x of (segs, new_id, now) \<Rightarrow>
     upsert_final_translation segs db c new_id now)"

abbreviation caption_key :: "translation_caption \<Rightarrow> string \<times> string \<times> string" where
  "caption_key c \<equiv> (tc_session_id c, tc_target_language c, tc_segment_id c)"

interpretation translated: revision_store put_translation translation_lookup
  caption_key tc_revision ts_revision tc_text ts_text
proof
  fix x db c db' r r0
  assume "put_translation x db c = Inr (db', r)" and "translation_lookup db (caption_key c) = Some r0"
    and "tc_revision c \<le> ts_revision r0"
  then show "db' = db \<and> r = r0"
    by (cases x) (auto simp: put_translation_def elim!: upsert_translation_cases)
next
  fix x db c db' r
  assume put: "put_translation x db c = Inr (db', r)"
    and new: "\<And>r0. translation_lookup db (caption_key c) = Some r0 \<Longrightarrow> ts_revision r0 < tc_revision c"
  obtain segs i now where up: "upsert_final_translation segs db c i now = Inr (db', r)"
    using put by (cases x) (auto simp: put_translation_def)
  from up show "translation_lookup db' = (translation_lookup db)(caption_key c \<mapsto> r)
      \<and> ts_revision r = tc_revision c \<and> ts_text r = tc_text c"
  proof (cases rule: upsert_translation_cases)
    case (revised r0 ids)
    then have "translation_key r0 = caption_key c" using find_row_Some by fastforce
    with revised show ?thesis by (auto simp: fun_eq_iff find_update_rows_key)
  qed (use new in \<open>auto simp: fun_eq_iff find_row_append split: option.splits\<close>)
qed

lemma set_source_for_alignment [simp]:
  "set (source_for_alignment segs sid) = {r \<in> set segs. sg_session_id r = sid \<and> sg_status r = ''final''}"
  by (auto simp: source_for_alignment_def)

text \<open>The finals of a session and the order the query puts them in.\<close>

abbreviation finals_of :: "segment_table \<Rightarrow> string \<Rightarrow> segment_record set" where
  "finals_of segs sid \<equiv> {r \<in> set segs. sg_session_id r = sid \<and> sg_status r = ''final''}"

abbreviation source_order :: "segment_record \<Rightarrow> (bool \<times> int) \<times> instant \<times> string" where
  "source_order r \<equiv> (time_key (sg_audio_start_ms r), sg_created_at r, sg_id r)"

lemma sorted_ends:
  assumes "sorted (map f xs)" "x \<in> set xs"
  shows "f (hd xs) \<le> f x" "f x \<le> f (last xs)"
proof -
  from assms(2) have "xs \<noteq> []" by auto
  then obtain y ys where y: "xs = y # ys" by (cases xs) auto
  show "f (hd xs) \<le> f x" using assms y by auto
  obtain zs z where "xs = zs @ [z]" using \<open>xs \<noteq> []\<close> by (cases xs rule: rev_cases) auto
  then show "f x \<le> f (last xs)" using assms by (auto simp: sorted_append)
qed

lemma source_for_alignment_sorted:
  "sorted (map source_order (filter P (source_for_alignment segs sid)))"
  unfolding source_for_alignment_def by (rule sorted_filter, rule sorted_sort_key)

text \<open>The last and the first of the filtered sources are extremal in the order of the query.\<close>

lemma last_source:
  assumes "filter P (source_for_alignment segs sid) \<noteq> []"
  shows "\<exists>r \<in> finals_of segs sid. r = last (filter P (source_for_alignment segs sid)) \<and> P r
    \<and> (\<forall>x \<in> finals_of segs sid. P x \<longrightarrow> source_order x \<le> source_order r)"
  using last_in_set [OF assms] sorted_ends(2) [OF source_for_alignment_sorted [of P segs sid]]
  by auto

lemma first_source:
  assumes "source_for_alignment segs sid \<noteq> []"
  shows "\<exists>r \<in> finals_of segs sid. r = hd (source_for_alignment segs sid)
    \<and> (\<forall>x \<in> finals_of segs sid. source_order r \<le> source_order x)"
  using hd_in_set [OF assms] sorted_ends(1) [OF source_for_alignment_sorted [of "\<lambda>_. True" segs sid]]
  by auto

text \<open>
  C10. Alignment of a translated segment names exactly the source segments it should, among
  the finals of the same session in the order of the query (start time, unknown starts last,
  then creation time, then id): nothing when there is no final; with a known time range and
  some overlap, the overlapping finals, all of them, in that order; without overlap, the
  single latest final that starts no later than the end of the range, and when there is none
  the single earliest final; with an unknown time range the single latest final.
\<close>

theorem alignment_correct:
  "(finals_of segs sid = {} \<longrightarrow> align_source_segments segs sid s e = [])
    \<and> (finals_of segs sid \<noteq> {} \<and> (s = None \<or> e = None) \<longrightarrow>
        (\<exists>r \<in> finals_of segs sid. align_source_segments segs sid s e = [sg_segment_id r]
          \<and> (\<forall>x \<in> finals_of segs sid. source_order x \<le> source_order r)))
    \<and> (\<forall>a b. s = Some a \<and> e = Some b \<and> (\<exists>r \<in> finals_of segs sid. overlaps_with a b r) \<longrightarrow>
        (\<exists>rs. align_source_segments segs sid s e = map sg_segment_id rs
          \<and> set rs = {r \<in> finals_of segs sid. overlaps_with a b r}
          \<and> length rs = length (filter (\<lambda>r. r \<in> finals_of segs sid \<and> overlaps_with a b r) segs)
          \<and> sorted (map source_order rs)))
    \<and> (\<forall>a b. s = Some a \<and> e = Some b \<and> \<not> (\<exists>r \<in> finals_of segs sid. overlaps_with a b r)
        \<and> (\<exists>r \<in> finals_of segs sid. starts_before b r) \<longrightarrow>
        (\<exists>r \<in> finals_of segs sid. align_source_segments segs sid s e = [sg_segment_id r]
          \<and> starts_before b r
          \<and> (\<forall>x \<in> finals_of segs sid. starts_before b x \<longrightarrow> source_order x \<le> source_order r)))
    \<and> (\<forall>a b. s = Some a \<and> e = Some b \<and> finals_of segs sid \<noteq> {}
        \<and> \<not> (\<exists>r \<in> finals_of segs sid. overlaps_with a b r \<or> starts_before b r) \<longrightarrow>
        (\<exists>r \<in> finals_of segs sid. align_source_segments segs sid s e = [sg_segment_id r]
          \<and> (\<forall>x \<in> finals_of segs sid. source_order r \<le> source_order x)))"
proof -
  let ?src = "source_for_alignment segs sid"
  note def = align_source_segments_def [of segs sid s e] Let_def
  have empty: "?src = [] \<longleftrightarrow> finals_of segs sid = {}"
    by (metis set_empty set_source_for_alignment)
  have sel: "filter P ?src \<noteq> [] \<longleftrightarrow> (\<exists>r \<in> finals_of segs sid. P r)" for P
    by (auto simp: filter_empty_conv)
  have unknown: "finals_of segs sid \<noteq> {} \<and> (s = None \<or> e = None) \<longrightarrow>
      (\<exists>r \<in> finals_of segs sid. align_source_segments segs sid s e = [sg_segment_id r]
        \<and> (\<forall>x \<in> finals_of segs sid. source_order x \<le> source_order r))"
    using last_source [of "\<lambda>_. True" segs sid] empty unfolding def
    by (auto split: option.splits)
  have overlap: "\<exists>rs. align_source_segments segs sid s e = map sg_segment_id rs
        \<and> set rs = {r \<in> finals_of segs sid. overlaps_with a b r}
        \<and> length rs = length (filter (\<lambda>r. r \<in> finals_of segs sid \<and> overlaps_with a b r) segs)
        \<and> sorted (map source_order rs)"
    if h: "s = Some a" "e = Some b" "\<exists>r \<in> finals_of segs sid. overlaps_with a b r" for a b
  proof (intro exI conjI)
    have ov: "filter (overlaps_with a b) ?src \<noteq> []" using h(3) sel by blast
    then have "?src \<noteq> []" by auto
    with ov h(1,2) show "align_source_segments segs sid s e
        = map sg_segment_id (filter (overlaps_with a b) ?src)"
      unfolding def by simp
    show "set (filter (overlaps_with a b) ?src) = {r \<in> finals_of segs sid. overlaps_with a b r}"
      by auto
    show "length (filter (overlaps_with a b) ?src)
        = length (filter (\<lambda>r. r \<in> finals_of segs sid \<and> overlaps_with a b r) segs)"
      unfolding source_for_alignment_def filter_sort length_sort filter_filter
      by (rule arg_cong [where f = length]) (rule filter_cong [OF refl], blast)
  qed (rule source_for_alignment_sorted)
  have prior: "\<exists>r \<in> finals_of segs sid. align_source_segments segs sid s e = [sg_segment_id r]
        \<and> starts_before b r
        \<and> (\<forall>x \<in> finals_of segs sid. starts_before b x \<longrightarrow> source_order x \<le> source_order r)"
    if h: "s = Some a" "e = Some b" "\<not> (\<exists>r \<in> finals_of segs sid. overlaps_with a b r)"
      "\<exists>r \<in> finals_of segs sid. starts_before b r" for a b
  proof -
    have p: "filter (starts_before b) ?src \<noteq> []" using h(4) sel by blast
    have "filter (overlaps_with a b) ?src = []" using h(3) sel by blast
    moreover have "?src \<noteq> []" using p by auto
    ultimately have "align_source_segments segs sid s e
        = [sg_segment_id (last (filter (starts_before b) ?src))]"
      using p h(1,2) unfolding def by simp
    with last_source [OF p] show ?thesis by auto
  qed
  have first: "\<exists>r \<in> finals_of segs sid. align_source_segments segs sid s e = [sg_segment_id r]
        \<and> (\<forall>x \<in> finals_of segs sid. source_order r \<le> source_order x)"
    if h: "s = Some a" "e = Some b" "finals_of segs sid \<noteq> {}"
      "\<not> (\<exists>r \<in> finals_of segs sid. overlaps_with a b r \<or> starts_before b r)" for a b
  proof -
    have "filter (overlaps_with a b) ?src = []" "filter (starts_before b) ?src = []" "?src \<noteq> []"
      using h(3,4) sel empty by blast+
    then have "align_source_segments segs sid s e = [sg_segment_id (hd ?src)]"
      using h(1,2) unfolding def by simp
    with first_source [OF \<open>?src \<noteq> []\<close>] show ?thesis by auto
  qed
  have none: "finals_of segs sid = {} \<longrightarrow> align_source_segments segs sid s e = []"
    using empty unfolding def by simp
  show ?thesis
    by (rule conjI [OF none conjI [OF unknown]], intro conjI allI impI; elim conjE)
      (rule overlap prior first; assumption)+
qed

definition demo_source :: "string \<Rightarrow> int \<Rightarrow> int \<Rightarrow> segment_record" where
  "demo_source k s e =
     (hd (projr (put_all put_segment [] demo_puts)))\<lparr>sg_id := k, sg_segment_id := k,
       sg_audio_start_ms := Some s, sg_audio_end_ms := Some e\<rparr>"

definition demo_sources :: segment_table where
  "demo_sources = [demo_source ''b'' 500 600, demo_source ''a'' 100 300, demo_source ''c'' 900 950]"

theorem alignment_correct_witness:
  "align_source_segments demo_sources ''s1'' (Some 250) (Some 550) = [''a'', ''b'']
   \<and> align_source_segments demo_sources ''s1'' (Some 700) (Some 800) = [''b'']
   \<and> align_source_segments demo_sources ''s1'' (Some 10) (Some 20) = [''a'']
   \<and> align_source_segments demo_sources ''s1'' None None = [''c'']
   \<and> align_source_segments demo_sources ''s2'' None None = []"
proof -
  have "\<exists>r \<in> set demo_sources. sg_session_id r = ''s1'' \<and> sg_status r = ''final''
      \<and> starts_before 800 r"
    "\<not> (\<exists>r \<in> set demo_sources. (sg_session_id r = ''s1'' \<and> sg_status r = ''final'')
      \<and> overlaps_with 700 800 r)" by code_simp+
  then have "\<exists>r \<in> set demo_sources. starts_before 800 r
      \<and> align_source_segments demo_sources ''s1'' (Some 700) (Some 800) = [sg_segment_id r]"
    using alignment_correct [of demo_sources "''s1''" "Some 700" "Some 800"] by blast
  then have "align_source_segments demo_sources ''s1'' (Some 700) (Some 800) \<noteq> [''c'']"
    by (auto simp: demo_sources_def demo_source_def starts_before_def)
  moreover have "align_source_segments demo_sources ''s1'' (Some 250) (Some 550) = [''a'', ''b'']"
    "align_source_segments demo_sources ''s1'' (Some 700) (Some 800) = [''b'']"
    "align_source_segments demo_sources ''s1'' (Some 10) (Some 20) = [''a'']"
    "align_source_segments demo_sources ''s1'' None None = [''c'']"
    "align_source_segments demo_sources ''s2'' None None = []" by code_simp+
  ultimately show ?thesis by blast
qed

lemma realign_row_idem: "realign_row segs now2 (realign_row segs now1 r) = realign_row segs now1 r"
  by (auto simp: realign_row_def Let_def)

lemma realign_row_sel [simp]:
  "ts_session_id (realign_row segs now r) = ts_session_id r" "ts_status (realign_row segs now r) = ts_status r"
  by (auto simp: realign_row_def Let_def)

text \<open>
  Realigning the translations of a session is stable: doing it again against the same
  segments changes nothing, whatever the clock says, and rows of other sessions are untouched.
\<close>

lemma realign_session_stable:
  "realign_session segs (realign_session segs db sid now1) sid now2 = realign_session segs db sid now1
   \<and> filter (\<lambda>r. ts_session_id r \<noteq> sid) (realign_session segs db sid now1) =
     filter (\<lambda>r. ts_session_id r \<noteq> sid) db"
proof
  show "realign_session segs (realign_session segs db sid now1) sid now2 = realign_session segs db sid now1"
    by (simp add: realign_session_def update_rows_def realign_row_idem)
  show "filter (\<lambda>r. ts_session_id r \<noteq> sid) (realign_session segs db sid now1) =
     filter (\<lambda>r. ts_session_id r \<noteq> sid) db"
    by (induction db) (auto simp: realign_session_def update_rows_def)
qed

subsection \<open>Rooms\<close>

record room_record =
  rm_id :: string
  rm_room_name :: string
  rm_display_name :: string
  rm_status :: string
  rm_created_at :: instant
  rm_updated_at :: instant
  rm_closed_at :: "instant option"

type_synonym room_table = "room_record list"

definition room_create ::
  "room_table \<Rightarrow> string \<Rightarrow> string \<Rightarrow> string option \<Rightarrow> instant option \<Rightarrow> string \<Rightarrow> instant
   \<Rightarrow> (room_table \<times> room_record) res" where
  "room_create db room_name display_name room_id created_at new_id now =
     (if room_name = [] then Inl (ValueError ''room_name is required'')
      else if display_name = [] then Inl (ValueError ''display_name is required'')
      else let timestamp = or_else created_at now;
               rec = \<lparr>rm_id = str_or room_id new_id, rm_room_name = room_name,
                      rm_display_name = display_name, rm_status = ''ready'',
                      rm_created_at = timestamp, rm_updated_at = timestamp, rm_closed_at = None\<rparr>
           in if rm_id rec \<in> set (map rm_id db) \<or> room_name \<in> set (map rm_room_name db)
              then Inl (RuntimeError ''IntegrityError'') else Inr (db @ [rec], rec))"

definition room_missing :: "string \<Rightarrow> py_error" where
  "room_missing room_id = LookupError (''Room not found: '' @ room_id)"

definition room_get :: "room_table \<Rightarrow> string \<Rightarrow> room_record option" where
  "room_get db room_id = find_row (\<lambda>r. rm_id r = room_id) db"

definition room_get_required :: "room_table \<Rightarrow> string \<Rightarrow> room_record res" where
  "room_get_required db room_id =
     (case room_get db room_id of None \<Rightarrow> Inl (room_missing room_id) | Some r \<Rightarrow> Inr r)"

definition room_list_newest_first :: "room_table \<Rightarrow> room_record list" where
  "room_list_newest_first db = rev (sort_key (\<lambda>r. (rm_created_at r, rm_id r)) db)"

definition room_rename ::
  "room_table \<Rightarrow> string \<Rightarrow> string \<Rightarrow> instant \<Rightarrow> (room_table \<times> room_record) res" where
  "room_rename db room_id display_name now =
     (if display_name = [] then Inl (ValueError ''display_name is required'')
      else modify_row rm_id room_id (room_missing room_id)
        (\<lambda>r. Inr (r\<lparr>rm_display_name := display_name, rm_updated_at := now\<rparr>)) db)"

definition room_close :: "room_table \<Rightarrow> string \<Rightarrow> instant \<Rightarrow> (room_table \<times> room_record) res" where
  "room_close db room_id now =
     modify_row rm_id room_id (room_missing room_id)
       (\<lambda>r. if rm_status r = ''closed'' then Inr r
            else Inr (r\<lparr>rm_status := ''closed'', rm_closed_at := Some now, rm_updated_at := now\<rparr>)) db"

lemma modify_row_again:
  assumes "distinct (map key rows)" and "modify_row key k e f rows = Inr (rows', r')"
    and "\<And>r r'. f r = Inr r' \<Longrightarrow> g r' = Inr r' \<and> key r' = key r"
  shows "modify_row key k e g rows' = Inr (rows', r')"
proof -
  from assms(2) obtain r where r: "find_row (\<lambda>x. key x = k) rows = Some r" "f r = Inr r'"
    "rows' = update_rows (\<lambda>x. key x = k) (\<lambda>_. r') rows"
    by (auto simp: modify_row_def rbind_eq_Inr split: option.splits)
  have key': "key r' = k" and g: "g r' = Inr r'"
    using assms(3) [OF r(2)] find_row_Some [OF r(1)] by auto
  have "find_row (\<lambda>x. key x = k) rows' = Some r'"
    using r(1) unfolding r(3) by (induction rows) (auto simp: update_rows_def key')
  moreover have "update_rows (\<lambda>x. key x = k) (\<lambda>_. r') rows' = rows'"
    by (simp add: r(3) update_rows_def key')
  ultimately show ?thesis by (simp add: modify_row_def g)
qed

text \<open>
  Closing a room is idempotent: a second close, at any later time, returns the same row
  and leaves the table, in particular the first closing time, as it was.
\<close>

lemma room_close_idempotent:
  assumes "distinct (map rm_id db)" and "room_close db room_id now1 = Inr (db', r)"
  shows "rm_status r = ''closed'' \<and> room_close db' room_id now2 = Inr (db', r)"
proof -
  have "rm_status r = ''closed''"
    using assms(2) by (auto simp: room_close_def modify_row_def rbind_eq_Inr split: option.splits if_splits)
  moreover have "room_close db' room_id now2 = Inr (db', r)"
    using assms unfolding room_close_def
    by (rule modify_row_again) (auto split: if_splits)
  ultimately show ?thesis by simp
qed

end
