(* ===== verification/Timeline.thy ===== *)
theory Timeline
  imports Segment_Store "HOL-Library.Multiset"
begin

section \<open>The normalized timeline\<close>

text \<open>
  Models \<open>timeline/models.py\<close> and \<open>timeline/service.py\<close>: the deterministic order of the
  Final segments by source audio time and the repair of missing or inconsistent times that
  every export reads.
\<close>

record timeline_segment =
  tl_id :: string
  tl_session_id :: string
  tl_segment_id :: string
  tl_track_id :: string
  tl_revision :: int
  tl_language :: string
  tl_raw_text :: string
  tl_display_text :: string
  tl_audio_start_ms :: int
  tl_audio_end_ms :: int
  tl_confidence :: "rat option"
  tl_received_at_ms :: int
  tl_finalized_at :: instant
  tl_created_at :: instant
  tl_updated_at :: instant

record timeline =
  tln_segments :: "timeline_segment list"
  tln_duration_ms :: int

definition MISSING_END_DURATION_MS :: int where
  "MISSING_END_DURATION_MS = 2000"

definition clamp0 :: "int option \<Rightarrow> int" where
  "clamp0 v = (case v of None \<Rightarrow> 0 | Some t \<Rightarrow> max 0 t)"

definition timeline_sort_key ::
  "segment_record \<Rightarrow> bool \<times> int \<times> bool \<times> int \<times> instant \<times> string" where
  "timeline_sort_key r =
     (sg_audio_start_ms r = None, clamp0 (sg_audio_start_ms r), sg_audio_end_ms r = None,
      clamp0 (sg_audio_end_ms r), sg_created_at r, sg_id r)"

text \<open>\<open>_next_known_start(records, index)\<close> looks at the records after the index.\<close>

fun next_known_start :: "segment_record list \<Rightarrow> int option" where
  "next_known_start [] = None"
| "next_known_start (r # rs) =
     (case sg_audio_start_ms r of Some s \<Rightarrow> Some (max 0 s) | None \<Rightarrow> next_known_start rs)"

definition segment_times :: "int \<Rightarrow> segment_record \<Rightarrow> segment_record list \<Rightarrow> int \<times> int" where
  "segment_times previous_end_ms r following =
     (let start_ms = (case sg_audio_start_ms r of None \<Rightarrow> previous_end_ms | Some s \<Rightarrow> max 0 s);
          end_ms = (case sg_audio_end_ms r of
              Some e \<Rightarrow> max start_ms (max 0 e)
            | None \<Rightarrow>
                (case next_known_start following of
                   Some n \<Rightarrow> if n > start_ms then n else start_ms + MISSING_END_DURATION_MS
                 | None \<Rightarrow> start_ms + MISSING_END_DURATION_MS))
      in (start_ms, end_ms))"

definition timeline_segment_of :: "segment_record \<Rightarrow> int \<Rightarrow> int \<Rightarrow> timeline_segment" where
  "timeline_segment_of r start_ms end_ms =
     \<lparr>tl_id = sg_id r, tl_session_id = sg_session_id r, tl_segment_id = sg_segment_id r,
      tl_track_id = sg_track_id r, tl_revision = sg_revision r, tl_language = sg_language r,
      tl_raw_text = sg_raw_text r, tl_display_text = sg_display_text r,
      tl_audio_start_ms = start_ms, tl_audio_end_ms = end_ms, tl_confidence = sg_confidence r,
      tl_received_at_ms = sg_received_at_ms r, tl_finalized_at = sg_finalized_at r,
      tl_created_at = sg_created_at r, tl_updated_at = sg_updated_at r\<rparr>"

text \<open>The loop, with the running \<open>previous_end_ms\<close> and \<open>duration_ms\<close>.\<close>

fun normalize_loop :: "int \<Rightarrow> int \<Rightarrow> segment_record list \<Rightarrow> timeline_segment list \<times> int" where
  "normalize_loop previous_end_ms duration_ms [] = ([], duration_ms)"
| "normalize_loop previous_end_ms duration_ms (r # rs) =
     (let (start_ms, end_ms) = segment_times previous_end_ms r rs;
          (segs, dur) = normalize_loop end_ms (max duration_ms end_ms) rs
      in (timeline_segment_of r start_ms end_ms # segs, dur))"

definition normalize_timeline :: "segment_record list \<Rightarrow> timeline res" where
  "normalize_timeline segments =
     (if list_ex (\<lambda>r. sg_status r \<noteq> ''final'') segments
      then Inl (ValueError ''only Final segments can be normalized'')
      else let (segs, dur) = normalize_loop 0 0 (sort_key timeline_sort_key segments)
           in Inr \<lparr>tln_segments = segs, tln_duration_ms = dur\<rparr>)"

definition translation_as_segment :: "translation_record \<Rightarrow> segment_record" where
  "translation_as_segment r =
     \<lparr>sg_id = ts_id r, sg_session_id = ts_session_id r, sg_segment_id = ts_segment_id r,
      sg_track_id = ''translation'', sg_revision = ts_revision r,
      sg_language = ts_target_language r, sg_raw_text = ts_text r, sg_display_text = ts_text r,
      sg_audio_start_ms = ts_audio_start_ms r, sg_audio_end_ms = ts_audio_end_ms r,
      sg_confidence = None, sg_status = ts_status r, sg_received_at_ms = ts_received_at_ms r,
      sg_finalized_at = ts_finalized_at r, sg_created_at = ts_created_at r,
      sg_updated_at = ts_updated_at r\<rparr>"

definition normalize_translation_timeline :: "translation_record list \<Rightarrow> timeline res" where
  "normalize_translation_timeline segments = normalize_timeline (map translation_as_segment segments)"

subsection \<open>Properties of the loop\<close>

lemma segment_times_bounds:
  assumes "segment_times prev r rs = (s, e)" and "0 \<le> prev"
  shows "0 \<le> s \<and> s \<le> e \<and> s = (case sg_audio_start_ms r of None \<Rightarrow> prev | Some t \<Rightarrow> max 0 t)"
  using assms
  by (auto simp: segment_times_def Let_def MISSING_END_DURATION_MS_def
      split: option.splits if_splits)

lemma normalize_loop_segments:
  "map (\<lambda>t. (tl_id t, tl_segment_id t, tl_display_text t)) (fst (normalize_loop p d rs)) =
     map (\<lambda>r. (sg_id r, sg_segment_id r, sg_display_text r)) rs"
  by (induction p d rs rule: normalize_loop.induct)
    (auto simp: Let_def timeline_segment_of_def split: prod.splits)

lemma normalize_loop_duration:
  "snd (normalize_loop p d rs) = fold max (map tl_audio_end_ms (fst (normalize_loop p d rs))) d"
proof (induction p d rs rule: normalize_loop.induct)
  case (2 p d r rs)
  obtain s e where "segment_times p r rs = (s, e)" by (cases "segment_times p r rs")
  then show ?case
    using 2 by (auto simp: timeline_segment_of_def max.commute split: prod.splits)
qed simp

text \<open>
  Known starts come first and ascend; an unknown start takes the end of its predecessor, so
  the produced starts ascend as well.
\<close>

lemma sort_key_starts:
  assumes "sorted_wrt (\<lambda>a b. timeline_sort_key a \<le> timeline_sort_key b) (r # rs)" and "x \<in> set rs"
  shows "sg_audio_start_ms r = None \<Longrightarrow> sg_audio_start_ms x = None"
    and "sg_audio_start_ms r = Some a \<Longrightarrow> sg_audio_start_ms x = Some b \<Longrightarrow> max 0 a \<le> max 0 b"
proof -
  have le: "timeline_sort_key r \<le> timeline_sort_key x" using assms by simp
  show "sg_audio_start_ms r = None \<Longrightarrow> sg_audio_start_ms x = None"
    using le by (auto simp: timeline_sort_key_def less_eq_prod_simp)
  show "sg_audio_start_ms r = Some a \<Longrightarrow> sg_audio_start_ms x = Some b \<Longrightarrow> max 0 a \<le> max 0 b"
    using le by (auto simp: timeline_sort_key_def less_eq_prod_simp clamp0_def)
qed

lemma normalize_loop_sorted:
  assumes "sorted_wrt (\<lambda>a b. timeline_sort_key a \<le> timeline_sort_key b) rs"
    and "\<And>r a. r \<in> set rs \<Longrightarrow> sg_audio_start_ms r = Some a \<Longrightarrow> lo \<le> max 0 a"
    and "lo \<le> p" and "0 \<le> p"
  shows "sorted (lo # map tl_audio_start_ms (fst (normalize_loop p d rs)))
    \<and> list_all (\<lambda>t. 0 \<le> tl_audio_start_ms t \<and> tl_audio_start_ms t \<le> tl_audio_end_ms t)
        (fst (normalize_loop p d rs))"
  using assms
proof (induction rs arbitrary: lo p d)
  case (Cons r rs)
  obtain s e where se: "segment_times p r rs = (s, e)" by (cases "segment_times p r rs")
  note b = segment_times_bounds [OF se Cons.prems(4)]
  have "lo \<le> s"
    using b Cons.prems(2) [of r] Cons.prems(3) by (auto split: option.splits)
  moreover have "sorted (s # map tl_audio_start_ms (fst (normalize_loop e (max d e) rs)))
    \<and> list_all (\<lambda>t. 0 \<le> tl_audio_start_ms t \<and> tl_audio_start_ms t \<le> tl_audio_end_ms t)
        (fst (normalize_loop e (max d e) rs))"
  proof (rule Cons.IH)
    show "sorted_wrt (\<lambda>a b. timeline_sort_key a \<le> timeline_sort_key b) rs" using Cons.prems(1) by simp
    show "s \<le> e" "0 \<le> e" using b by auto
    fix x c assume x: "x \<in> set rs" "sg_audio_start_ms x = Some c"
    then obtain a where a: "sg_audio_start_ms r = Some a"
      using sort_key_starts(1) [OF Cons.prems(1) x(1)] by (cases "sg_audio_start_ms r") auto
    then show "s \<le> max 0 c"
      using sort_key_starts(2) [OF Cons.prems(1) x(1) a x(2)] b by simp
  qed
  ultimately show ?case
    using se b [THEN conjunct1] b [THEN conjunct2, THEN conjunct1]
    by (auto simp: timeline_segment_of_def split: prod.splits intro: order_trans)
qed simp

lemma sorted_sort_key_wrt: "sorted_wrt (\<lambda>a b. f a \<le> f b) (sort_key f xs)"
  using sorted_sort_key [of f xs] by (simp add: sorted_map)

lemma normalize_timeline_Inr:
  "normalize_timeline rs = Inr tln \<longleftrightarrow> list_all (\<lambda>r. sg_status r = ''final'') rs
     \<and> tln_segments tln = fst (normalize_loop 0 0 (sort_key timeline_sort_key rs))
     \<and> tln_duration_ms tln = snd (normalize_loop 0 0 (sort_key timeline_sort_key rs))"
  by (cases tln) (auto simp: normalize_timeline_def list_ex_iff list_all_iff split: prod.splits)

lemma timeline_wellformed:
  assumes "normalize_timeline rs = Inr tln"
  shows "sorted (map tl_audio_start_ms (tln_segments tln))"
    "list_all (\<lambda>t. 0 \<le> tl_audio_start_ms t \<and> tl_audio_start_ms t \<le> tl_audio_end_ms t) (tln_segments tln)"
  using normalize_loop_sorted [OF sorted_sort_key_wrt, of rs 0 0 0] assms
  by (simp_all add: normalize_timeline_Inr)

lemma fold_max_props:
  "(d :: int) \<le> fold max xs d" "x \<in> set xs \<Longrightarrow> x \<le> fold max xs d" "fold max xs d \<in> insert d (set xs)"
proof -
  show 1: "(d :: int) \<le> fold max xs d" for d xs
    by (induction xs arbitrary: d) (auto simp: max_def intro: order_trans split: if_splits,
        (meson linorder_not_le order.trans order_less_imp_le)+)
  show "x \<in> set xs \<Longrightarrow> x \<le> fold max xs d"
    by (induction xs arbitrary: d) (auto intro: order_trans [OF _ 1])
  show "fold max xs d \<in> insert d (set xs)"
  proof (induction xs arbitrary: d)
    case (Cons a xs)
    then show ?case using Cons.IH [of "max a d"] by (auto simp: max_def split: if_splits)
  qed simp
qed

text \<open>
  C11. The timeline is well formed for any set of Final records, whatever times the provider
  gave: it has exactly the given segments (same ids and texts), start times are
  non-decreasing, every segment has \<open>0 \<le> start \<le> end\<close>, and the duration is the largest end
  (zero without segments). A record that is not final is the only reason to raise.
\<close>

theorem timeline_normalized:
  assumes "normalize_timeline rs = Inr tln"
  shows "mset (map (\<lambda>t. (tl_id t, tl_segment_id t, tl_display_text t)) (tln_segments tln)) =
        mset (map (\<lambda>r. (sg_id r, sg_segment_id r, sg_display_text r)) rs)
    \<and> sorted (map tl_audio_start_ms (tln_segments tln))
    \<and> list_all (\<lambda>t. 0 \<le> tl_audio_start_ms t \<and> tl_audio_start_ms t \<le> tl_audio_end_ms t
         \<and> tl_audio_end_ms t \<le> tln_duration_ms tln) (tln_segments tln)
    \<and> tln_duration_ms tln \<in> insert 0 (set (map tl_audio_end_ms (tln_segments tln)))
    \<and> list_all (\<lambda>r. sg_status r = ''final'') rs"
proof -
  let ?L = "normalize_loop 0 0 (sort_key timeline_sort_key rs)"
  have seg: "tln_segments tln = fst ?L" and dur: "tln_duration_ms tln = fold max (map tl_audio_end_ms (fst ?L)) 0"
    using assms normalize_loop_duration [of 0 0 "sort_key timeline_sort_key rs"]
    by (simp_all add: normalize_timeline_Inr)
  have "mset (map (\<lambda>t. (tl_id t, tl_segment_id t, tl_display_text t)) (fst ?L)) =
      mset (map (\<lambda>r. (sg_id r, sg_segment_id r, sg_display_text r)) rs)"
    unfolding normalize_loop_segments mset_map by simp
  moreover have "\<And>t. t \<in> set (fst ?L) \<Longrightarrow> tl_audio_end_ms t \<le> tln_duration_ms tln"
    unfolding dur by (rule fold_max_props(2)) simp
  moreover have "tln_duration_ms tln \<in> insert 0 (set (map tl_audio_end_ms (fst ?L)))"
    unfolding dur by (rule fold_max_props(3))
  ultimately show ?thesis
    using timeline_wellformed [OF assms] assms
    by (simp add: seg list_all_iff normalize_timeline_Inr)
qed

definition demo_segment :: "string \<Rightarrow> int option \<Rightarrow> int option \<Rightarrow> segment_record" where
  "demo_segment i s e = \<lparr>sg_id = i, sg_session_id = ''s1'', sg_segment_id = i, sg_track_id = ''t'',
     sg_revision = 1, sg_language = ''en'', sg_raw_text = i, sg_display_text = i,
     sg_audio_start_ms = s, sg_audio_end_ms = e, sg_confidence = None, sg_status = ''final'',
     sg_received_at_ms = 0, sg_finalized_at = 0, sg_created_at = 0, sg_updated_at = 0\<rparr>"

definition demo_segments :: "segment_record list" where
  "demo_segments = [demo_segment ''c'' None None, demo_segment ''b'' (Some 900) (Some 400),
     demo_segment ''a'' (Some (-5)) None]"

theorem timeline_normalized_witness:
  "map (\<lambda>t. (tl_id t, tl_audio_start_ms t, tl_audio_end_ms t))
      (tln_segments (projr (normalize_timeline demo_segments)))
     = [(''a'', 0, 900), (''b'', 900, 900), (''c'', 900, 2900)]
   \<and> sorted (map tl_audio_start_ms (tln_segments (projr (normalize_timeline demo_segments))))"
proof -
  have "normalize_timeline demo_segments = Inr (projr (normalize_timeline demo_segments))" by code_simp
  from timeline_normalized [OF this]
  have "sorted (map tl_audio_start_ms (tln_segments (projr (normalize_timeline demo_segments))))" by blast
  moreover have "map (\<lambda>t. (tl_id t, tl_audio_start_ms t, tl_audio_end_ms t))
      (tln_segments (projr (normalize_timeline demo_segments)))
     = [(''a'', 0, 900), (''b'', 900, 900), (''c'', 900, 2900)]" by code_simp
  ultimately show ?thesis by blast
qed

end
