(* ===== verification/Export.thy ===== *)
theory Export
  imports Timeline Session_Repository
begin

section \<open>Deterministic exports\<close>

text \<open>
  Models \<open>export/models.py\<close>, \<open>export/srt_exporter.py\<close>, \<open>export/vtt_exporter.py\<close> and
  \<open>export/markdown_exporter.py\<close>. The exporters return the text they encode; the final
  \<open>encode("utf-8")\<close> is not modelled. \<open>isoformat\<close> (a rendering of a \<open>datetime\<close>) and the
  dash shown for a missing provider, a code point above 255, are arguments.
\<close>

subsection \<open>Documents and text helpers\<close>

record export_document =
  ed_session :: session_record
  ed_timeline :: timeline
  ed_content :: string
  ed_exported_at :: instant

definition partial_export :: "export_document \<Rightarrow> bool" where
  "partial_export d \<longleftrightarrow>
     ses_status (ed_session d) \<notin> set (map status_value TERMINAL_SESSION_STATES)"

definition format_timestamp :: "int \<Rightarrow> string \<Rightarrow> string res" where
  "format_timestamp milliseconds separator =
     (if milliseconds < 0 then Inl (ValueError ''timestamp must be non-negative'')
      else let hours = milliseconds div 3600000; remainder = milliseconds mod 3600000;
               minutes = remainder div 60000; remainder = remainder mod 60000;
               seconds = remainder div 1000; millis = remainder mod 1000
           in Inr (zero_pad 2 (show_nat (nat hours)) @ '':'' @ zero_pad 2 (show_nat (nat minutes)) @ '':''
                 @ zero_pad 2 (show_nat (nat seconds)) @ separator @ zero_pad 3 (show_nat (nat millis))))"

abbreviation CR :: char where "CR \<equiv> CHR 0x0D"
abbreviation LF :: char where "LF \<equiv> CHR 0x0A"

fun replace_crlf :: "string \<Rightarrow> string" where
  "replace_crlf (c # d # cs) = (if c = CR \<and> d = LF then LF # replace_crlf cs else c # replace_crlf (d # cs))"
| "replace_crlf cs = cs"

definition replace_cr :: "string \<Rightarrow> string" where
  "replace_cr s = map (\<lambda>c. if c = CR then LF else c) s"

definition normalize_caption_text :: "string \<Rightarrow> string" where
  "normalize_caption_text v = strip_by (\<lambda>c. c = LF) (replace_cr (replace_crlf v))"

text \<open>\<open>str.splitlines\<close> on a text without carriage returns.\<close>

fun splitlines_acc :: "string \<Rightarrow> string \<Rightarrow> string list" where
  "splitlines_acc acc [] = (if acc = [] then [] else [rev acc])"
| "splitlines_acc acc (c # cs) =
     (if is_linebreak c then rev acc # splitlines_acc [] cs else splitlines_acc (c # acc) cs)"

definition one_line :: "string \<Rightarrow> string" where
  "one_line v = py_join '' '' (splitlines_acc [] (replace_cr v))"

fun html_escape :: "string \<Rightarrow> string" where
  "html_escape [] = []"
| "html_escape (c # cs) =
     (if c = CHR ''&'' then ''&amp;'' else if c = CHR ''<'' then ''&lt;''
      else if c = CHR ''>'' then ''&gt;'' else [c]) @ html_escape cs"

subsection \<open>The exporters\<close>

fun srt_cues :: "nat \<Rightarrow> timeline_segment list \<Rightarrow> string list res" where
  "srt_cues index [] = Inr []"
| "srt_cues index (t # ts) =
     rbind (format_timestamp (tl_audio_start_ms t) '','') (\<lambda>start.
     rbind (format_timestamp (tl_audio_end_ms t) '','') (\<lambda>end_t.
     rbind (srt_cues (Suc index) ts) (\<lambda>cues.
       Inr ((show_nat index @ [LF] @ start @ '' --> '' @ end_t @ [LF]
             @ normalize_caption_text (tl_display_text t)) # cues))))"

definition export_srt :: "export_document \<Rightarrow> string res" where
  "export_srt d =
     rbind (srt_cues 1 (tln_segments (ed_timeline d))) (\<lambda>cues.
       Inr (if cues = [] then [] else py_join [LF, LF] cues @ [LF]))"

fun vtt_cues :: "timeline_segment list \<Rightarrow> string list res" where
  "vtt_cues [] = Inr []"
| "vtt_cues (t # ts) =
     rbind (format_timestamp (tl_audio_start_ms t) ''.'') (\<lambda>start.
     rbind (format_timestamp (tl_audio_end_ms t) ''.'') (\<lambda>end_t.
     rbind (vtt_cues ts) (\<lambda>cues.
       Inr ((start @ '' --> '' @ end_t @ [LF]
             @ html_escape (normalize_caption_text (tl_display_text t))) # cues))))"

definition export_vtt :: "(instant \<Rightarrow> string) \<Rightarrow> export_document \<Rightarrow> string res" where
  "export_vtt isoformat d =
     rbind (vtt_cues (tln_segments (ed_timeline d))) (\<lambda>cues.
       let header = ''WEBVTT'' @ [LF, LF] @
             (if partial_export d then
                ''NOTE session_status='' @ ses_status (ed_session d) @ '' exported_at=''
                @ isoformat (ed_exported_at d) @ '' partial_export=true'' @ [LF, LF]
              else [])
       in Inr (if cues = [] then header else header @ py_join [LF, LF] cues @ [LF]))"

fun markdown_segments :: "timeline_segment list \<Rightarrow> string list res" where
  "markdown_segments [] = Inr []"
| "markdown_segments (t # ts) =
     rbind (format_timestamp (tl_audio_start_ms t) ''.'') (\<lambda>start.
     rbind (format_timestamp (tl_audio_end_ms t) ''.'') (\<lambda>end_t.
     rbind (markdown_segments ts) (\<lambda>lines.
       Inr ([''['' @ start @ '' - '' @ end_t @ '']'', normalize_caption_text (tl_display_text t), []]
            @ lines))))"

definition export_markdown ::
  "(instant \<Rightarrow> string) \<Rightarrow> string \<Rightarrow> export_document \<Rightarrow> string res" where
  "export_markdown isoformat dash d =
     (let session = ed_session d in
      rbind (format_timestamp (tln_duration_ms (ed_timeline d)) ''.'') (\<lambda>duration.
      rbind (if tln_segments (ed_timeline d) = [] then Inr [''_No Final captions._'', []]
             else markdown_segments (tln_segments (ed_timeline d))) (\<lambda>body.
        Inr (py_join [LF] (
          [''# Session '' @ one_line (ses_id session)]
          @ (if partial_export d then
               [[], ''Session status: '' @ one_line (ses_status session),
                ''Exported at: '' @ isoformat (ed_exported_at d), ''Partial export: true'']
             else [])
          @ [[], ''Source: '' @ one_line (ses_source_name session),
             ''Language: '' @ one_line (ses_language session), ''Duration: '' @ duration,
             ''Provider: '' @ one_line (str_or (ses_asr_provider session) dash),
             ''Model: '' @ one_line (str_or (ses_asr_model session) dash), []]
          @ body)))))"

subsection \<open>Timestamps\<close>

text \<open>Reading a timestamp back: hours, minutes, seconds and milliseconds from the right.\<close>

definition read_timestamp :: "string \<Rightarrow> int" where
  "read_timestamp s =
     (let n = length s in
        int (read_nat (take (n - 10) s)) * 3600000 + int (read_nat (take 2 (drop (n - 9) s))) * 60000
        + int (read_nat (take 2 (drop (n - 6) s))) * 1000 + int (read_nat (drop (n - 3) s)))"

lemma length_pad: "m < 10 ^ w \<Longrightarrow> 0 < w \<Longrightarrow> length (zero_pad w (show_nat m)) = w"
  by (simp add: length_zero_pad length_show_nat_le)

lemma read_timestamp_parts:
  assumes "length m = 2" "length s = 2" "length sep = 1" "length l = 3"
  shows "read_timestamp (h @ '':'' @ m @ '':'' @ s @ sep @ l) =
     int (read_nat h) * 3600000 + int (read_nat m) * 60000 + int (read_nat s) * 1000 + int (read_nat l)"
  using assms by (simp add: read_timestamp_def Let_def numeral_eq_Suc)

lemma timestamp_reads_back:
  assumes "length sep = 1" and "0 \<le> ms"
  shows "\<exists>t. format_timestamp ms sep = Inr t \<and> read_timestamp t = ms"
proof -
  define r1 where "r1 = ms mod 3600000"
  define r2 where "r2 = r1 mod 60000"
  have b: "0 \<le> r1" "r1 < 3600000" "0 \<le> r2" "r2 < 60000" by (simp_all add: r1_def r2_def)
  have bounds: "nat (r1 div 60000) < 10 ^ 2" "nat (r2 div 1000) < 10 ^ 2" "nat (r2 mod 1000) < 10 ^ 3"
    using b by (simp_all add: nat_less_iff div_less_iff_less_mult)
  have eq: "ms div 3600000 * 3600000 + r1 div 60000 * 60000 + r2 div 1000 * 1000 + r2 mod 1000 = ms"
    by (simp add: r1_def r2_def)
  have "read_timestamp (zero_pad 2 (show_nat (nat (ms div 3600000))) @ '':''
      @ zero_pad 2 (show_nat (nat (r1 div 60000))) @ '':'' @ zero_pad 2 (show_nat (nat (r2 div 1000)))
      @ sep @ zero_pad 3 (show_nat (nat (r2 mod 1000)))) =
        int (nat (ms div 3600000)) * 3600000 + int (nat (r1 div 60000)) * 60000
        + int (nat (r2 div 1000)) * 1000 + int (nat (r2 mod 1000))"
    using length_pad [OF bounds(1)] length_pad [OF bounds(2)] length_pad [OF bounds(3)]
    by (subst read_timestamp_parts) (simp_all only: assms read_zero_pad read_show_nat zero_less_numeral)
  also have "\<dots> = ms div 3600000 * 3600000 + r1 div 60000 * 60000 + r2 div 1000 * 1000 + r2 mod 1000"
    using assms(2) b(1,3) by (simp add: pos_imp_zdiv_nonneg_iff)
  also note eq
  finally have "read_timestamp (zero_pad 2 (show_nat (nat (ms div 3600000))) @ '':''
      @ zero_pad 2 (show_nat (nat (r1 div 60000))) @ '':'' @ zero_pad 2 (show_nat (nat (r2 div 1000)))
      @ sep @ zero_pad 3 (show_nat (nat (r2 mod 1000)))) = ms" .
  moreover have "format_timestamp ms sep = Inr (zero_pad 2 (show_nat (nat (ms div 3600000))) @ '':''
      @ zero_pad 2 (show_nat (nat (r1 div 60000))) @ '':'' @ zero_pad 2 (show_nat (nat (r2 div 1000)))
      @ sep @ zero_pad 3 (show_nat (nat (r2 mod 1000))))"
    using assms(2) [folded linorder_not_less]
    by (simp only: format_timestamp_def Let_def r1_def r2_def if_False)
  ultimately show ?thesis by blast
qed

text \<open>
  Timestamps round trip: for every non-negative number of milliseconds (hours are not
  limited to two digits) and any one-character separator the text written into an export
  reads back as the same number; a negative one raises.
\<close>

lemma format_timestamp_roundtrip:
  assumes "length sep = 1"
  shows "(0 \<le> ms \<longrightarrow> (\<exists>t. format_timestamp ms sep = Inr t \<and> read_timestamp t = ms))
    \<and> (ms < 0 \<longrightarrow> format_timestamp ms sep = Inl (ValueError ''timestamp must be non-negative''))"
  using timestamp_reads_back [OF assms, of ms] by (auto simp: format_timestamp_def)

lemma format_timestamp_nonneg: "0 \<le> ms \<Longrightarrow> \<exists>t. format_timestamp ms sep = Inr t"
  by (simp add: format_timestamp_def Let_def)

subsection \<open>Text hygiene\<close>

lemma splitlines_no_break: "\<forall>c \<in> set acc. \<not> is_linebreak c \<Longrightarrow> l \<in> set (splitlines_acc acc s) \<Longrightarrow>
   c \<in> set l \<Longrightarrow> \<not> is_linebreak c"
  by (induction acc s rule: splitlines_acc.induct) (auto split: if_splits)

lemma normalize_caption_text_no_cr: "CR \<notin> set (normalize_caption_text v)"
  using set_strip_by [of "\<lambda>c. c = LF" "replace_cr (replace_crlf v)"]
  by (auto simp: normalize_caption_text_def replace_cr_def)

lemma strip_by_ends:
  assumes "strip_by p s \<noteq> []"
  shows "\<not> p (hd (strip_by p s))" "\<not> p (last (strip_by p s))"
proof -
  let ?d = "dropWhile p s"
  have d: "dropWhile p (rev ?d) \<noteq> []" using assms by (simp add: strip_by_def)
  then show "\<not> p (last (strip_by p s))"
    by (simp add: strip_by_def last_rev hd_dropWhile)
  have ne: "?d \<noteq> []"
  proof
    assume "?d = []"
    then have "dropWhile p (rev ?d) = []" by (simp only: rev.simps dropWhile.simps)
    with d show False by simp
  qed
  then have hd: "\<not> p (hd ?d)" by (rule hd_dropWhile)
  have "rev ?d = takeWhile p (rev ?d) @ dropWhile p (rev ?d)" by simp
  then have "?d = rev (dropWhile p (rev ?d)) @ rev (takeWhile p (rev ?d))"
    by (metis rev_append rev_rev_ident)
  then have "hd ?d = hd (rev (dropWhile p (rev ?d)))" using d by (metis hd_append2 rev_is_Nil_conv)
  with hd show "\<not> p (hd (strip_by p s))" by (simp add: strip_by_def)
qed

lemma one_line_no_break: "c \<in> set (one_line v) \<Longrightarrow> \<not> is_linebreak c"
proof -
  assume "c \<in> set (one_line v)"
  then have "c = CHR '' '' \<or> (\<exists>l \<in> set (splitlines_acc [] (replace_cr v)). c \<in> set l)"
    using set_py_join [of "'' ''" "splitlines_acc [] (replace_cr v)"] by (auto simp: one_line_def)
  then show ?thesis
    using splitlines_no_break [of "[]" _ "replace_cr v" c] by (auto simp: is_linebreak_def)
qed

text \<open>\<open>html.unescape\<close> on the three entities the exporter writes.\<close>

fun html_unescape :: "string \<Rightarrow> string" where
  "html_unescape [] = []"
| "html_unescape (c # cs) =
     (if c \<noteq> CHR ''&'' then c # html_unescape cs
      else if take 4 cs = ''amp;'' then CHR ''&'' # html_unescape (drop 4 cs)
      else if take 3 cs = ''lt;'' then CHR ''<'' # html_unescape (drop 3 cs)
      else if take 3 cs = ''gt;'' then CHR ''>'' # html_unescape (drop 3 cs)
      else c # html_unescape cs)"

lemma html_unescape_escape: "html_unescape (html_escape s) = s"
  by (induction s) simp_all

lemma html_escape_safe: "CHR ''<'' \<notin> set (html_escape s)" "CHR ''>'' \<notin> set (html_escape s)"
  by (induction s) auto

lemma html_escape_eq_Nil: "html_escape s = [] \<longleftrightarrow> s = []"
  by (cases s) auto

subsection \<open>Reading subtitles back\<close>

text \<open>
  A reader of the subtitle formats separates the cues at blank lines and takes the number,
  the timing line and the text of each.
\<close>

fun split_blank :: "string \<Rightarrow> string \<Rightarrow> string list" where
  "split_blank acc [] = [rev acc]"
| "split_blank acc [c] = [rev (c # acc)]"
| "split_blank acc (c # d # cs) =
     (if c = LF \<and> d = LF then rev acc # split_blank [] cs else split_blank (c # acc) (d # cs))"

fun blank_free :: "string \<Rightarrow> bool" where
  "blank_free (c # d # cs) \<longleftrightarrow> \<not> (c = LF \<and> d = LF) \<and> blank_free (d # cs)"
| "blank_free cs \<longleftrightarrow> True"

lemma split_blank_cue:
  "blank_free x \<Longrightarrow> x \<noteq> [] \<Longrightarrow> last x \<noteq> LF \<Longrightarrow>
     split_blank acc (x @ LF # LF # rest) = (rev acc @ x) # split_blank [] rest"
  by (induction acc x rule: split_blank.induct) auto

lemma split_blank_last: "blank_free x \<Longrightarrow> split_blank acc x = [rev acc @ x]"
  by (induction acc x rule: split_blank.induct) auto

lemma split_blank_join:
  assumes "cues \<noteq> []" and "\<forall>x \<in> set cues. blank_free x \<and> x \<noteq> [] \<and> last x \<noteq> LF"
  shows "split_blank [] (py_join [LF, LF] cues) = cues"
  using assms
proof (induction "[LF, LF]" cues rule: py_join.induct)
  case (2 x)
  then show ?case by (simp add: split_blank_last)
next
  case (3 x y zs)
  then show ?case using split_blank_cue [of x "[]" "py_join [LF, LF] (y # zs)"] by simp
qed simp

lemma blank_free_append:
  "blank_free (x @ y) \<longleftrightarrow> blank_free x \<and> blank_free y \<and> (x \<noteq> [] \<and> y \<noteq> [] \<and> last x = LF \<longrightarrow> hd y \<noteq> LF)"
proof (induction x)
  case (Cons c x)
  then show ?case by (cases x; cases y) auto
qed simp

lemma blank_free_no_lf: "LF \<notin> set x \<Longrightarrow> blank_free x"
  by (induction x rule: blank_free.induct) auto

lemma blank_free_line:
  assumes "LF \<notin> set a" "blank_free b" "b \<noteq> []" "hd b \<noteq> LF"
  shows "blank_free (a @ LF # b)"
proof -
  have "blank_free (LF # b)" using assms by (cases b) auto
  moreover have "a \<noteq> [] \<Longrightarrow> last a \<noteq> LF" using assms(1) last_in_set [of a] by metis
  ultimately show ?thesis using assms(1) by (auto simp: blank_free_append blank_free_no_lf)
qed

definition parse_cue :: "string \<Rightarrow> nat \<times> int \<times> int \<times> string" where
  "parse_cue c =
     (let number = takeWhile (\<lambda>x. x \<noteq> LF) c;
          rest = drop (length number + 1) c;
          timing = takeWhile (\<lambda>x. x \<noteq> LF) rest;
          start = takeWhile (\<lambda>x. x \<noteq> CHR '' '') timing
      in (read_nat number, read_timestamp start, read_timestamp (drop (length start + 5) timing),
          drop (length timing + 1) rest))"

definition parse_srt :: "string \<Rightarrow> (nat \<times> int \<times> int \<times> string) list" where
  "parse_srt s = (if s = [] then [] else map parse_cue (split_blank [] (butlast s)))"

lemma takeWhile_until: "x \<notin> set a \<Longrightarrow> takeWhile (\<lambda>c. c \<noteq> x) (a @ x # b) = a"
  by (induction a) auto

lemma parse_cue_parts:
  assumes "LF \<notin> set n" "LF \<notin> set s" "LF \<notin> set e" "CHR '' '' \<notin> set s"
  shows "parse_cue (n @ [LF] @ s @ '' --> '' @ e @ [LF] @ t) =
     (read_nat n, read_timestamp s, read_timestamp e, t)"
proof -
  have a: "takeWhile (\<lambda>x. x \<noteq> LF) (n @ [LF] @ s @ '' --> '' @ e @ [LF] @ t) = n"
    using takeWhile_until [OF assms(1)] by simp
  have b: "takeWhile (\<lambda>x. x \<noteq> LF) (s @ '' --> '' @ e @ [LF] @ t) = s @ '' --> '' @ e"
    using takeWhile_until [of LF "s @ '' --> '' @ e" t] assms(2,3) by simp
  have c: "takeWhile (\<lambda>x. x \<noteq> CHR '' '') (s @ '' --> '' @ e) = s"
    using takeWhile_until [OF assms(4), of "''--> '' @ e"] by simp
  have d: "drop (6 + length e) ('' --> '' @ e @ LF # t) = t" by (simp add: numeral_eq_Suc)
  show ?thesis
    using a b c d by (simp add: parse_cue_def Let_def)
qed

lemma timestamp_chars:
  assumes "format_timestamp ms '','' = Inr t"
  shows "LF \<notin> set t \<and> CHR '' '' \<notin> set t"
proof -
  have d: "LF \<notin> set (zero_pad w (show_nat n)) \<and> CHR '' '' \<notin> set (zero_pad w (show_nat n))" for w n
    using digits_zero_pad [OF digits_show_nat, of w n] by (auto simp: is_digit_def Let_def)
  show ?thesis
    using assms by (auto simp: format_timestamp_def Let_def d split: if_splits)
qed

lemma show_nat_no_lf: "LF \<notin> set (show_nat n)"
  using digits_show_nat [of n] by (auto simp: is_digit_def Let_def)

lemma normalize_caption_text_ends:
  "normalize_caption_text v \<noteq> [] \<Longrightarrow> hd (normalize_caption_text v) \<noteq> LF \<and> last (normalize_caption_text v) \<noteq> LF"
  using strip_by_ends [of "\<lambda>c. c = LF" "replace_cr (replace_crlf v)"]
  by (simp add: normalize_caption_text_def)

definition cue_safe :: "timeline_segment \<Rightarrow> bool" where
  "cue_safe t \<longleftrightarrow> normalize_caption_text (tl_display_text t) \<noteq> []
     \<and> blank_free (normalize_caption_text (tl_display_text t))"

lemma srt_cues_ok:
  assumes "list_all (\<lambda>t. 0 \<le> tl_audio_start_ms t \<and> tl_audio_start_ms t \<le> tl_audio_end_ms t) ts"
  shows "\<exists>cues. srt_cues i ts = Inr cues
    \<and> map parse_cue cues = map (\<lambda>(n, t). (n, tl_audio_start_ms t, tl_audio_end_ms t,
           normalize_caption_text (tl_display_text t))) (enumerate i ts)
    \<and> (list_all cue_safe ts \<longrightarrow> (\<forall>x \<in> set cues. blank_free x \<and> x \<noteq> [] \<and> last x \<noteq> LF))"
  using assms
proof (induction ts arbitrary: i)
  case (Cons t ts)
  let ?x = "normalize_caption_text (tl_display_text t)"
  from Cons obtain cues where c: "srt_cues (Suc i) ts = Inr cues"
    "map parse_cue cues = map (\<lambda>(n, t). (n, tl_audio_start_ms t, tl_audio_end_ms t,
        normalize_caption_text (tl_display_text t))) (enumerate (Suc i) ts)"
    "list_all cue_safe ts \<longrightarrow> (\<forall>x \<in> set cues. blank_free x \<and> x \<noteq> [] \<and> last x \<noteq> LF)" by fastforce
  obtain s where s: "format_timestamp (tl_audio_start_ms t) '','' = Inr s"
    "read_timestamp s = tl_audio_start_ms t"
    using Cons.prems timestamp_reads_back [of "'',''" "tl_audio_start_ms t"] by auto
  obtain e where e: "format_timestamp (tl_audio_end_ms t) '','' = Inr e"
    "read_timestamp e = tl_audio_end_ms t"
    using Cons.prems timestamp_reads_back [of "'',''" "tl_audio_end_ms t"] by auto
  note chars = timestamp_chars [OF s(1)] timestamp_chars [OF e(1)] show_nat_no_lf [of i]
  let ?cue = "show_nat i @ [LF] @ s @ '' --> '' @ e @ [LF] @ ?x"
  have "parse_cue ?cue = (i, tl_audio_start_ms t, tl_audio_end_ms t, ?x)"
    using chars by (subst parse_cue_parts) (simp_all add: s e)
  moreover have "blank_free ?cue \<and> ?cue \<noteq> [] \<and> last ?cue \<noteq> LF" if "cue_safe t"
  proof -
    have "blank_free ((s @ '' --> '' @ e) @ LF # ?x)"
      using that normalize_caption_text_ends [of "tl_display_text t"] chars
      by (intro blank_free_line) (simp_all add: cue_safe_def)
    moreover have "hd ((s @ '' --> '' @ e) @ LF # ?x) \<noteq> LF"
      using chars(1) by (cases s) auto
    ultimately have "blank_free (show_nat i @ LF # ((s @ '' --> '' @ e) @ LF # ?x))"
      using chars(3) by (intro blank_free_line [of "show_nat i"]) simp_all
    then have "blank_free ?cue" by simp
    then show ?thesis
      using that normalize_caption_text_ends [of "tl_display_text t"] by (simp add: cue_safe_def)
  qed
  ultimately show ?case
    using c s(1) e(1) by (auto simp del: append_Cons append.simps)
qed simp

text \<open>
  C12. SubRip round trip: for every list of Final records whose captions, once normalized,
  are not empty and have no blank line, the SRT export succeeds and a reader that separates
  cues at blank lines gets back exactly the numbered cues of the timeline, with their start
  and end times in milliseconds and their texts.
\<close>

theorem srt_roundtrip:
  assumes "normalize_timeline rs = Inr (ed_timeline d)"
    and "list_all cue_safe (tln_segments (ed_timeline d))"
  shows "\<exists>out. export_srt d = Inr out
    \<and> parse_srt out = map (\<lambda>(n, t). (n, tl_audio_start_ms t, tl_audio_end_ms t,
         normalize_caption_text (tl_display_text t))) (enumerate 1 (tln_segments (ed_timeline d)))"
proof -
  let ?ts = "tln_segments (ed_timeline d)"
  obtain cues where c: "srt_cues 1 ?ts = Inr cues"
    "map parse_cue cues = map (\<lambda>(n, t). (n, tl_audio_start_ms t, tl_audio_end_ms t,
         normalize_caption_text (tl_display_text t))) (enumerate 1 ?ts)"
    "\<forall>x \<in> set cues. blank_free x \<and> x \<noteq> [] \<and> last x \<noteq> LF"
    using srt_cues_ok [OF timeline_wellformed(2) [OF assms(1)], of 1] assms(2) by blast
  have "parse_srt (if cues = [] then [] else py_join [LF, LF] cues @ [LF]) = map parse_cue cues"
    using split_blank_join [OF _ c(3)] by (simp add: parse_srt_def)
  with c show ?thesis by (simp add: export_srt_def)
qed

definition demo_document :: export_document where
  "demo_document = \<lparr>ed_session = demo_session, ed_timeline = projr (normalize_timeline demo_segments),
     ed_content = ''source'', ed_exported_at = 0\<rparr>"

theorem srt_roundtrip_witness:
  "\<exists>out. export_srt demo_document = Inr out
     \<and> parse_srt out = [(1, 0, 900, ''a''), (2, 900, 900, ''b''), (3, 900, 2900, ''c'')]"
proof -
  have n: "normalize_timeline demo_segments = Inr (ed_timeline demo_document)" by code_simp
  have s: "list_all cue_safe (tln_segments (ed_timeline demo_document))" by code_simp
  have "map (\<lambda>(n, t). (n, tl_audio_start_ms t, tl_audio_end_ms t,
         normalize_caption_text (tl_display_text t))) (enumerate 1 (tln_segments (ed_timeline demo_document)))
      = [(1, 0, 900, ''a''), (2, 900, 900, ''b''), (3, 900, 2900, ''c'')]" by code_simp
  with srt_roundtrip [OF n s] show ?thesis by simp
qed

text \<open>
  The two conditions on the captions are needed: interior blank lines survive
  \<open>normalize_caption_text\<close>, so the cue they stand in is read as two.
\<close>

lemma srt_blank_line_splits_cue:
  "(case export_srt (demo_document \<lparr>ed_timeline := \<lparr>tln_segments =
        [timeline_segment_of ((demo_segment ''a'' None None)\<lparr>sg_display_text := ''x'' @ [LF, LF] @ ''y''\<rparr>) 0 5],
        tln_duration_ms = 5\<rparr>\<rparr>) of Inl _ \<Rightarrow> False | Inr out \<Rightarrow> length (parse_srt out) = 2)"
  by code_simp

lemma vtt_cues_ok:
  assumes "list_all (\<lambda>t. 0 \<le> tl_audio_start_ms t \<and> tl_audio_start_ms t \<le> tl_audio_end_ms t) ts"
  shows "\<exists>cues. vtt_cues ts = Inr cues" "\<exists>lines. markdown_segments ts = Inr lines"
proof -
  have t: "\<exists>s e. format_timestamp (tl_audio_start_ms t) sep = Inr s
      \<and> format_timestamp (tl_audio_end_ms t) sep = Inr e" if "t \<in> set ts" for t sep
    using assms that format_timestamp_nonneg [of "tl_audio_start_ms t" sep]
      format_timestamp_nonneg [of "tl_audio_end_ms t" sep] by (auto simp: list_all_iff)
  show "\<exists>cues. vtt_cues ts = Inr cues" using t
  proof (induction ts)
    case (Cons a ts)
    then show ?case using Cons.prems [of a "''.''"] by fastforce
  qed simp
  show "\<exists>lines. markdown_segments ts = Inr lines" using t
  proof (induction ts)
    case (Cons a ts)
    then show ?case using Cons.prems [of a "''.''"] by fastforce
  qed simp
qed

lemma timeline_duration_nonneg: "normalize_timeline rs = Inr tln \<Longrightarrow> 0 \<le> tln_duration_ms tln"
  using normalize_loop_duration [of 0 0 "sort_key timeline_sort_key rs"]
  by (simp add: normalize_timeline_Inr fold_max_props(1))

text \<open>
  C13. No normalized timeline makes an export fail: whatever Final records the store holds,
  the SRT, WebVTT and Markdown exporters all return a document, and the WebVTT header marks
  exactly the exports of sessions that are not terminal.
\<close>

theorem exports_total:
  assumes "normalize_timeline rs = Inr (ed_timeline d)"
  shows "succeeds (export_srt d) \<and> succeeds (export_markdown isof dash d)
    \<and> (\<exists>body. export_vtt isof d = Inr (''WEBVTT'' @ [LF, LF] @
         (if \<exists>s \<in> set TERMINAL_SESSION_STATES. ses_status (ed_session d) = status_value s then []
          else ''NOTE session_status='' @ ses_status (ed_session d) @ '' exported_at=''
                @ isof (ed_exported_at d) @ '' partial_export=true'' @ [LF, LF]) @ body))"
proof -
  note wf = timeline_wellformed(2) [OF assms]
  obtain v where v: "vtt_cues (tln_segments (ed_timeline d)) = Inr v" using vtt_cues_ok(1) [OF wf] by blast
  have "partial_export d \<longleftrightarrow>
      \<not> (\<exists>s \<in> set TERMINAL_SESSION_STATES. ses_status (ed_session d) = status_value s)"
    by (auto simp: partial_export_def)
  then show ?thesis
    using srt_cues_ok [OF wf, of 1] vtt_cues_ok(2) [OF wf] v
      format_timestamp_nonneg [OF timeline_duration_nonneg [OF assms], of "''.''"]
    by (auto simp: export_srt_def export_vtt_def export_markdown_def Let_def)
qed

theorem exports_total_witness:
  "succeeds (export_srt demo_document) \<and> succeeds (export_markdown (\<lambda>_. ''2026'') ''-'' demo_document)"
proof -
  have n: "normalize_timeline demo_segments = Inr (ed_timeline demo_document)" by code_simp
  from exports_total [OF n, of "\<lambda>_. ''2026''" "''-''"] show ?thesis by blast
qed

end
