(* ===== verification/Json.thy ===== *)
theory Json
  imports Prelude
begin

section \<open>JSON values\<close>

text \<open>
  The values of the JSON columns and of tool arguments: what \<open>json.loads\<close> produces. A
  dictionary is its list of entries. Python's \<open>==\<close> compares numbers and booleans as numbers
  and dictionaries without their order.
\<close>

datatype json =
    JNull
  | JBool bool
  | JNum rat
  | JStr string
  | JArr "json list"
  | JObj "(string \<times> json) list"

type_synonym payload = "(string, json) dict"

fun json_number :: "json \<Rightarrow> rat option" where
  "json_number (JBool b) = Some (if b then 1 else 0)"
| "json_number (JNum n) = Some n"
| "json_number _ = None"

fun scalar_eq :: "json \<Rightarrow> json \<Rightarrow> bool" where
  "scalar_eq JNull r \<longleftrightarrow> r = JNull"
| "scalar_eq (JStr s) r \<longleftrightarrow> r = JStr s"
| "scalar_eq a r \<longleftrightarrow> json_number a \<noteq> None \<and> json_number a = json_number r"

lemma json_size_entry [termination_simp]: "e \<in> set d \<Longrightarrow> size (snd e) < Suc (size_list (size_prod (\<lambda>x. 0) size) d)"
  by (induction d) auto

lemma json_size_get [termination_simp]:
  "dict_get d k = Some v \<Longrightarrow> size v < Suc (size_list (size_prod (\<lambda>x. 0) size) d)"
  using json_size_entry [of "(k, v)" d] by (auto dest: map_of_SomeD)

fun json_eq :: "json \<Rightarrow> json \<Rightarrow> bool" where
  "json_eq (JArr a) r \<longleftrightarrow> (case r of JArr b \<Rightarrow> list_all2 json_eq a b | _ \<Rightarrow> False)"
| "json_eq (JObj a) r \<longleftrightarrow>
     (case r of JObj b \<Rightarrow> length a = length b \<and>
          list_all (\<lambda>e. case dict_get b (fst e) of None \<Rightarrow> False | Some w \<Rightarrow> json_eq (snd e) w) a
      | _ \<Rightarrow> False)"
| "json_eq a r \<longleftrightarrow> scalar_eq a r"

fun json_wf :: "json \<Rightarrow> bool" where
  "json_wf (JArr a) \<longleftrightarrow> list_all json_wf a"
| "json_wf (JObj a) \<longleftrightarrow> distinct (map fst a) \<and> list_all (\<lambda>e. json_wf (snd e)) a"
| "json_wf _ \<longleftrightarrow> True"

lemma scalar_eq_refl: "json_number a \<noteq> None \<or> a = JNull \<or> (\<exists>s. a = JStr s) \<Longrightarrow> scalar_eq a a"
  by (cases a) auto

lemma json_eq_refl: "json_wf a \<Longrightarrow> json_eq a a"
proof (induction a)
  case (JArr x)
  then show ?case by (auto simp: list_all2_same list_all_iff)
next
  case (JObj x)
  have "case dict_get x (fst e) of None \<Rightarrow> False | Some w \<Rightarrow> json_eq (snd e) w" if "e \<in> set x" for e
    using JObj.IH [of e "snd e"] JObj.prems that by (cases e) (auto simp: list_all_iff)
  then show ?case by (simp add: list_all_iff)
qed auto

end
