(* ===== verification/Optimistic.thy ===== *)
theory Optimistic
  imports Prelude
begin

section \<open>Tables shared by concurrent writers\<close>

text \<open>
  The repositories are used by several transactions at once. An ORM session answers
  \<open>get\<close> from its identity map, so the row an operation looks at (its \<^emph>\<open>view\<close>) may be an
  older version of the row in the table; the decisive write is an \<open>update ... where\<close> that
  compares the columns the decision rests on, followed by a check of \<open>rowcount\<close>. This
  theory has that write (\<open>cas_update\<close>), insertion with unique columns and the two
  interfaces the client proofs use: \<open>shared_table\<close>, invariants that hold under every
  interleaving of readers and writers, and \<open>idempotent_insert\<close>, creation keyed by a
  client-chosen key, safe against a race between its \<open>select\<close> and its \<open>insert\<close>.
\<close>

abbreviation integrity_error :: py_error where
  "integrity_error \<equiv> RuntimeError ''IntegrityError''"

subsection \<open>Writes\<close>

definition insert_row :: "('r \<Rightarrow> 'k) \<Rightarrow> 'r \<Rightarrow> 'r list \<Rightarrow> ('r list \<times> 'r) res" where
  "insert_row key r rows =
     (if key r \<in> set (map key rows) then Inl integrity_error else Inr (rows @ [r], r))"

definition cas_update ::
  "('r \<Rightarrow> 'k) \<Rightarrow> 'k \<Rightarrow> ('r \<Rightarrow> bool) \<Rightarrow> ('r \<Rightarrow> 'r) \<Rightarrow> py_error \<Rightarrow> py_error \<Rightarrow> 'r list
   \<Rightarrow> ('r list \<times> 'r) res" where
  "cas_update key k guard f changed missing rows =
     (if rowcount (\<lambda>r. key r = k \<and> guard r) rows \<noteq> 1 then Inl changed
      else let rows' = update_rows (\<lambda>r. key r = k \<and> guard r) f rows
           in case find_row (\<lambda>r. key r = k) rows' of
                None \<Rightarrow> Inl missing
              | Some r \<Rightarrow> Inr (rows', r))"

lemma update_rows_key_guard:
  assumes "distinct (map key rows)" "r \<in> set rows" "guard r" "key r = k"
  shows "update_rows (\<lambda>x. key x = k \<and> guard x) f rows = update_rows (\<lambda>x. key x = k) (\<lambda>_. f r) rows"
proof -
  have inj: "inj_on key (set rows)" using assms(1) by (simp add: distinct_map)
  have "x = r" if "x \<in> set rows" "key x = k" for x
    by (rule inj_onD [OF inj _ that(1) assms(2)]) (simp add: that(2) assms(4))
  then show ?thesis
    unfolding update_rows_def using assms(3) by (intro map_cong refl) auto
qed

lemma cas_update_Inr:
  assumes "distinct (map key rows)" and "\<And>r. key (f r) = key r"
    and "cas_update key k guard f changed missing rows = Inr (rows', r')"
  obtains r where "r \<in> set rows" "key r = k" "guard r" "r' = f r"
    "rows' = update_rows (\<lambda>x. key x = k) (\<lambda>_. r') rows"
proof -
  have "rowcount (\<lambda>r. key r = k \<and> guard r) rows = 1"
    using assms(3) by (auto simp: cas_update_def split: if_splits)
  then obtain r where r: "find_row (\<lambda>r. key r = k) rows = Some r" "guard r"
    by (auto simp: rowcount_distinct_key [OF assms(1)] split: option.splits if_splits)
  then have mem: "r \<in> set rows" "key r = k" by (auto dest: find_row_Some)
  have rows': "rows' = update_rows (\<lambda>x. key x = k) (\<lambda>_. f r) rows"
    using assms(3) update_rows_key_guard [of key rows r guard k f, OF assms(1) mem(1) r(2) mem(2)]
    by (auto simp: cas_update_def Let_def split: if_splits option.splits)
  have "find_row (\<lambda>r. key r = k) (update_rows (\<lambda>x. key x = k) (\<lambda>_. f r) rows) = Some (f r)"
    using r mem assms(2) [of r] by (induction rows) (auto simp: update_rows_def split: if_splits)
  then have "r' = f r"
    using assms(3) rows' by (auto simp: cas_update_def Let_def split: if_splits option.splits)
  with that mem r rows' show ?thesis by blast
qed

lemma cas_update_rel:
  assumes "distinct (map key rows)" and "\<And>r. key (f r) = key r"
    and "cas_update key k guard f changed missing rows = Inr (rows', r')"
    and "\<And>r. r \<in> set rows \<Longrightarrow> key r = k \<Longrightarrow> guard r \<Longrightarrow> R r (f r)" and "\<And>x. R x x"
  shows "list_all2 R rows rows'"
proof -
  obtain r where r: "r \<in> set rows" "key r = k" "guard r" "r' = f r"
    "rows' = update_rows (\<lambda>x. key x = k) (\<lambda>_. r') rows"
    using cas_update_Inr [OF assms(1,2,3)] by metis
  have "find_row (\<lambda>x. key x = k) rows = Some r"
    using find_distinct_key [OF assms(1) r(1)] r(2) by simp
  with list_all2_update_row [OF assms(1), of k r R r'] assms(4,5) r show ?thesis by blast
qed

subsection \<open>Interleavings\<close>

text \<open>
  A state is the table and the rows held by readers. Rows are inserted, read at any time,
  and written by a step that looks at any held row, however old.
\<close>

inductive interleaving ::
  "('r \<Rightarrow> 'k) \<Rightarrow> ('r \<Rightarrow> bool) \<Rightarrow> ('r \<Rightarrow> 'r list \<Rightarrow> 'r list \<Rightarrow> bool) \<Rightarrow> 'r list \<Rightarrow> 'r list \<Rightarrow> bool"
  for key fresh step where
  empty: "interleaving key fresh step [] []"
| create: "interleaving key fresh step rows views \<Longrightarrow> fresh r \<Longrightarrow> key r \<notin> set (map key rows)
     \<Longrightarrow> interleaving key fresh step (rows @ [r]) views"
| load: "interleaving key fresh step rows views \<Longrightarrow> r \<in> set rows
     \<Longrightarrow> interleaving key fresh step rows (r # views)"
| store: "interleaving key fresh step rows views \<Longrightarrow> v \<in> set views \<Longrightarrow> step v rows rows'
     \<Longrightarrow> interleaving key fresh step rows' views"

locale shared_table =
  fixes key :: "'r \<Rightarrow> 'k"
    and fresh :: "'r \<Rightarrow> bool"
    and step :: "'r \<Rightarrow> 'r list \<Rightarrow> 'r list \<Rightarrow> bool"
    and inv :: "'r \<Rightarrow> bool"
    and evolves :: "'r \<Rightarrow> 'r \<Rightarrow> bool"
  assumes fresh_inv: "fresh r \<Longrightarrow> inv r"
    and evolves_refl: "evolves r r"
    and evolves_trans: "evolves a b \<Longrightarrow> evolves b c \<Longrightarrow> evolves a c"
    and evolves_key: "evolves a b \<Longrightarrow> key b = key a"
    and step_evolves: "distinct (map key rows) \<Longrightarrow> list_all inv rows \<Longrightarrow> inv v \<Longrightarrow>
      (\<And>r. r \<in> set rows \<Longrightarrow> key r = key v \<Longrightarrow> evolves v r) \<Longrightarrow> step v rows rows' \<Longrightarrow>
      list_all2 (\<lambda>x y. evolves x y \<and> inv y) rows rows'"
begin

text \<open>Every held row is an earlier version of a row of the table.\<close>

definition consistent :: "'r list \<Rightarrow> 'r list \<Rightarrow> bool" where
  "consistent rows views \<longleftrightarrow> distinct (map key rows) \<and> list_all inv rows
     \<and> (\<forall>v \<in> set views. inv v \<and> (\<exists>r \<in> set rows. key r = key v \<and> evolves v r))"

lemma consistent_version:
  assumes "consistent rows views" "v \<in> set views" "r \<in> set rows" "key r = key v"
  shows "evolves v r"
proof -
  obtain r' where "r' \<in> set rows" "key r' = key v" "evolves v r'"
    using assms(1,2) by (auto simp: consistent_def)
  moreover have "r' = r"
    using assms calculation by (metis consistent_def distinct_map inj_onD)
  ultimately show ?thesis by simp
qed

lemma consistent_write:
  assumes "consistent rows views" "v \<in> set views" "step v rows rows'"
  shows "list_all2 (\<lambda>x y. evolves x y \<and> inv y) rows rows'" "consistent rows' views"
proof -
  show rel: "list_all2 (\<lambda>x y. evolves x y \<and> inv y) rows rows'"
    using step_evolves [OF _ _ _ _ assms(3)] assms(1,2) consistent_version [OF assms(1,2)]
    by (auto simp: consistent_def)
  have keys: "map key rows' = map key rows"
    by (rule list_all2_keys [OF rel]) (auto simp: evolves_key)
  have "list_all inv rows'"
    using assms(1) rel by (auto simp: consistent_def intro: list_all2_all [OF rel])
  moreover have "\<exists>r \<in> set rows'. key r = key v \<and> evolves v r" if v: "v \<in> set views" for v
  proof -
    obtain r where r: "r \<in> set rows" "key r = key v" "evolves v r"
      using assms(1) v by (auto simp: consistent_def)
    then obtain r' where "r' \<in> set rows'" "evolves r r'"
      using rel by (metis (no_types, lifting) in_set_conv_nth list_all2_conv_all_nth)
    with r show ?thesis using evolves_trans evolves_key by metis
  qed
  ultimately show "consistent rows' views"
    using assms(1) by (auto simp: consistent_def keys)
qed

lemma interleaving_consistent: "interleaving key fresh step rows views \<Longrightarrow> consistent rows views"
proof (induction rule: interleaving.induct)
  case empty
  show ?case by (simp add: consistent_def)
next
  case (create rows views r)
  then show ?case by (fastforce simp: consistent_def fresh_inv)
next
  case (load rows views r)
  then show ?case by (auto simp: consistent_def list_all_iff evolves_refl)
next
  case (store rows views v rows')
  then show ?case using consistent_write(2) by blast
qed

lemma interleaving_inv: "interleaving key fresh step rows views \<Longrightarrow> r \<in> set rows \<Longrightarrow> inv r"
  using interleaving_consistent by (auto simp: consistent_def list_all_iff)

lemma interleaving_step:
  assumes "interleaving key fresh step rows views" "v \<in> set views" "step v rows rows'" "r' \<in> set rows'"
  shows "\<exists>r \<in> set rows. evolves r r' \<and> inv r'"
proof -
  have "list_all2 (\<lambda>x y. evolves x y \<and> inv y) rows rows'"
    by (rule consistent_write(1) [OF interleaving_consistent [OF assms(1)] assms(2,3)])
  with assms(4) show ?thesis
    by (metis (no_types, lifting) in_set_conv_nth list_all2_conv_all_nth)
qed

end

subsection \<open>Creation keyed by the client\<close>

text \<open>
  A \<open>select\<close> of the row with the client's key on the table \<open>rows0\<close>; when there is none, an
  \<open>insert\<close> into the table \<open>rows\<close>, in which other transactions may have inserted since; when
  that violates a unique column, a second \<open>select\<close>. The flag tells whether a row was created.
\<close>

definition get_or_insert ::
  "('r \<Rightarrow> 'i) \<Rightarrow> ('r \<Rightarrow> bool) \<Rightarrow> ('r \<Rightarrow> bool) \<Rightarrow> py_error \<Rightarrow> 'r \<Rightarrow> 'r list \<Rightarrow> 'r list
   \<Rightarrow> ('r list \<times> 'r \<times> bool) res" where
  "get_or_insert rid same ok conflict r rows0 rows =
     (let answer = (\<lambda>x. if ok x then Inr (rows, x, False) else Inl conflict)
      in case find_row same rows0 of
           Some x \<Rightarrow> answer x
         | None \<Rightarrow>
             if rid r \<in> set (map rid rows) \<or> list_ex same rows
             then (case find_row same rows of None \<Rightarrow> Inl integrity_error | Some x \<Rightarrow> answer x)
             else Inr (rows @ [r], r, True))"

lemma get_or_insert_existing:
  "get_or_insert rid same ok conflict r rows0 rows = Inr (rows', x, False) \<Longrightarrow>
     rows' = rows \<and> (x \<in> set rows0 \<or> x \<in> set rows) \<and> same x \<and> ok x"
  by (auto simp: get_or_insert_def Let_def split: option.splits if_splits dest: find_row_Some)

lemma get_or_insert_created:
  "get_or_insert rid same ok conflict r rows0 rows = Inr (rows', x, True) \<Longrightarrow>
     x = r \<and> rows' = rows @ [r] \<and> rid r \<notin> rid ` set rows \<and> (\<forall>y \<in> set rows. \<not> same y)"
  by (auto simp: get_or_insert_def Let_def list_ex_iff split: option.splits if_splits)

text \<open>Rows are never deleted; their identity and the client's key do not change.\<close>

definition extends :: "('r \<Rightarrow> 'i) \<Rightarrow> ('r \<Rightarrow> 'k) \<Rightarrow> 'r list \<Rightarrow> 'r list \<Rightarrow> bool" where
  "extends rid key rows rows' \<longleftrightarrow> (\<forall>x \<in> set rows. \<exists>y \<in> set rows'. rid y = rid x \<and> key y = key x)"

definition unique_keys :: "('r \<Rightarrow> 'i) \<Rightarrow> ('r \<Rightarrow> 'k option) \<Rightarrow> 'r list \<Rightarrow> bool" where
  "unique_keys rid key rows \<longleftrightarrow> distinct (map rid rows)
     \<and> (\<forall>x \<in> set rows. \<forall>y \<in> set rows. key x \<noteq> None \<longrightarrow> key x = key y \<longrightarrow> x = y)"

locale idempotent_insert =
  fixes rid :: "'r \<Rightarrow> 'i"
    and key :: "'r \<Rightarrow> 'k option"
    and args_key :: "'a \<Rightarrow> 'k option"
    and create :: "'a \<Rightarrow> 'r list \<Rightarrow> 'r list \<Rightarrow> ('r list \<times> 'r \<times> bool) res"
  assumes create_existing: "create a rows0 rows = Inr (rows', x, False) \<Longrightarrow>
      rows' = rows \<and> (x \<in> set rows0 \<or> x \<in> set rows) \<and> args_key a \<noteq> None \<and> key x = args_key a"
    and create_new: "create a rows0 rows = Inr (rows', x, True) \<Longrightarrow>
      rows' = rows @ [x] \<and> key x = args_key a \<and> rid x \<notin> rid ` set rows
      \<and> (args_key a \<noteq> None \<longrightarrow> args_key a \<notin> key ` set rows)"
begin

lemma create_keeps_unique:
  assumes "unique_keys rid key rows" "create a rows0 rows = Inr (rows', x, b)"
  shows "unique_keys rid key rows'"
proof (cases b)
  case True
  with create_new [of a rows0 rows rows' x] assms(2)
  have c: "rows' = rows @ [x]" "key x = args_key a" "rid x \<notin> rid ` set rows"
    "args_key a \<noteq> None \<longrightarrow> args_key a \<notin> key ` set rows" by simp_all
  have "y = z" if "y \<in> set rows'" "z \<in> set rows'" "key y \<noteq> None" "key y = key z" for y z
  proof -
    have new: "w = x" if "w \<in> set rows'" "key w = key x" "key w \<noteq> None" for w
      using that c by (auto simp: image_iff)
    show ?thesis
    proof (cases "y = x \<or> z = x")
      case True
      then show ?thesis using new that by metis
    next
      case False
      then show ?thesis using that c(1) assms(1) by (auto simp: unique_keys_def)
    qed
  qed
  moreover have "distinct (map rid rows')" using assms(1) c by (simp add: unique_keys_def)
  ultimately show ?thesis by (auto simp: unique_keys_def)
next
  case False
  then show ?thesis using assms create_existing [of a rows0 rows rows' x] by simp
qed

lemma create_result:
  assumes "create a rows0 rows = Inr (rows', x, b)" "extends rid key rows0 rows"
  shows "\<exists>y \<in> set rows'. rid y = rid x \<and> key y = args_key a"
  using assms create_existing [of a rows0 rows rows' x] create_new [of a rows0 rows rows' x]
  by (cases b) (fastforce simp: extends_def)+

text \<open>A retry, at any later time and in any race, finds the row and creates nothing.\<close>

lemma create_retry:
  assumes "create a rows0 rows1 = Inr (rows1', x, b)" "extends rid key rows0 rows1"
    and "extends rid key rows1' rows2" "unique_keys rid key rows2"
    and "create a' rows0' rows2 = Inr (rows2', y, c)" "extends rid key rows0' rows2"
    and "args_key a = Some k" "args_key a' = Some k"
  shows "rid y = rid x \<and> \<not> c \<and> rows2' = rows2"
proof -
  obtain z1 where "z1 \<in> set rows1'" "rid z1 = rid x" "key z1 = Some k"
    using create_result [OF assms(1,2)] assms(7) by auto
  then obtain z where z: "z \<in> set rows2" "rid z = rid x" "key z = Some k"
    using assms(3) by (fastforce simp: extends_def)
  have "\<not> c"
  proof
    assume c
    then have "Some k \<notin> key ` set rows2" using create_new [of a' rows0' rows2 rows2' y] assms(5,8) by auto
    with z show False by (metis image_eqI)
  qed
  then have y: "rows2' = rows2" "y \<in> set rows0' \<or> y \<in> set rows2" "key y = Some k"
    using create_existing [of a' rows0' rows2 rows2' y] assms(5,8) by auto
  then obtain y' where "y' \<in> set rows2" "rid y' = rid y" "key y' = Some k"
    using assms(6) by (fastforce simp: extends_def)
  moreover have "y' = z" using calculation z assms(4) by (auto simp: unique_keys_def)
  ultimately show ?thesis using z y \<open>\<not> c\<close> by simp
qed

end

end
