(* ===== verification/Grants.thy ===== *)
theory Grants
  imports Json Optimistic
begin

section \<open>Action grants\<close>

text \<open>
  Models \<open>assistant/grants.py\<close> (authorization of one tool use against a grant), the
  \<open>ActionGrant\<close> value of \<open>assistant/models.py\<close> and the grant operations of
  \<open>AssistantRepository\<close>: creation, consumption and release of side effects, revocation and
  expiry. Instants are integers in UTC, so \<open>_as_utc\<close> is the identity on them.

  The repository operations take the row their \<open>get\<close> returned (\<open>seen\<close>, \<open>None\<close> when there is
  none) and the table they write to.
\<close>

subsection \<open>Records\<close>

record action_grant_record =
  gr_id :: string
  gr_session_id :: string
  gr_actor_id :: string
  gr_goal :: string
  gr_capabilities :: "string list"
  gr_resource_scope :: payload
  gr_candidate_ids :: "string list"
  gr_linear_team_id :: "string option"
  gr_max_side_effects :: int
  gr_used_side_effects :: int
  gr_unresolved_identity_policy :: string
  gr_expires_at :: instant
  gr_status :: string
  gr_created_at :: instant
  gr_updated_at :: instant
  gr_revoked_at :: "instant option"

record action_grant =
  ag_grant_id :: string
  ag_session_id :: string
  ag_actor_id :: string
  ag_goal :: string
  ag_capabilities :: "string list"
  ag_resource_scope :: payload
  ag_candidate_ids :: "string list"
  ag_linear_team_id :: "string option"
  ag_max_side_effects :: int
  ag_used_side_effects :: int
  ag_unresolved_identity_policy :: string
  ag_expires_at :: instant
  ag_status :: string
  ag_created_at :: instant

definition text_between :: "nat \<Rightarrow> nat \<Rightarrow> string \<Rightarrow> bool" where
  "text_between lo hi s \<longleftrightarrow> lo \<le> length s \<and> length s \<le> hi"

text \<open>The field constraints and the validator of the \<open>ActionGrant\<close> model.\<close>

definition validate_action_grant :: "action_grant \<Rightarrow> action_grant res" where
  "validate_action_grant g =
     (if text_between 1 36 (ag_grant_id g) \<and> text_between 1 36 (ag_session_id g)
         \<and> text_between 1 255 (ag_actor_id g) \<and> ag_goal g \<noteq> []
         \<and> (case ag_linear_team_id g of None \<Rightarrow> True | Some t \<Rightarrow> length t \<le> 255)
         \<and> 0 \<le> ag_max_side_effects g \<and> 0 \<le> ag_used_side_effects g
         \<and> ag_unresolved_identity_policy g = ''placeholder''
         \<and> ag_status g \<in> {''active'', ''consumed'', ''revoked'', ''expired''}
      then if ag_used_side_effects g > ag_max_side_effects g
           then Inl (ValueError ''used side effects exceed the Grant maximum'') else Inr g
      else Inl (ValueError ''validation error for ActionGrant''))"

definition action_grant_from_record :: "action_grant_record \<Rightarrow> action_grant res" where
  "action_grant_from_record r = validate_action_grant
     \<lparr>ag_grant_id = gr_id r, ag_session_id = gr_session_id r, ag_actor_id = gr_actor_id r,
      ag_goal = gr_goal r, ag_capabilities = gr_capabilities r,
      ag_resource_scope = gr_resource_scope r, ag_candidate_ids = gr_candidate_ids r,
      ag_linear_team_id = gr_linear_team_id r, ag_max_side_effects = gr_max_side_effects r,
      ag_used_side_effects = gr_used_side_effects r,
      ag_unresolved_identity_policy = gr_unresolved_identity_policy r,
      ag_expires_at = gr_expires_at r, ag_status = gr_status r, ag_created_at = gr_created_at r\<rparr>"

subsection \<open>Authorization of one invocation\<close>

definition normalized_text :: "string \<Rightarrow> string" where
  "normalized_text v = py_join '' '' (py_split (casefold v))"

fun scope_value_allows :: "json \<Rightarrow> json \<Rightarrow> bool" where
  "scope_value_allows (JObj authorized) requested \<longleftrightarrow>
     (case requested of
        JObj r \<Rightarrow> list_all (\<lambda>e. case dict_get authorized (fst e) of
            None \<Rightarrow> False | Some v \<Rightarrow> scope_value_allows v (snd e)) r
      | _ \<Rightarrow> False)"
| "scope_value_allows (JArr authorized) requested \<longleftrightarrow>
     (case requested of
        JArr r \<Rightarrow> list_all (\<lambda>q. list_ex (\<lambda>a. scope_value_allows a q) authorized) r
      | _ \<Rightarrow> list_ex (\<lambda>a. scope_value_allows a requested) authorized)"
| "scope_value_allows authorized requested \<longleftrightarrow> scalar_eq authorized requested"

definition authorize_tool_use ::
  "action_grant option \<Rightarrow> string \<Rightarrow> string \<Rightarrow> string \<Rightarrow> string \<Rightarrow> string option \<Rightarrow> payload
   \<Rightarrow> instant \<Rightarrow> action_grant option res" where
  "authorize_tool_use grant effect capability session_id execution_goal candidate_id scope now =
     (if effect \<noteq> ''external_write'' then Inr grant
      else case grant of
          None \<Rightarrow> Inl (GrantAuthorizationError ''grant_required'')
        | Some g \<Rightarrow>
            if ag_status g \<noteq> ''active'' \<or> ag_expires_at g \<le> now
            then Inl (GrantAuthorizationError ''grant_inactive'')
            else if ag_session_id g \<noteq> session_id
            then Inl (GrantAuthorizationError ''grant_session_mismatch'')
            else if normalized_text (ag_goal g) \<noteq> normalized_text execution_goal
            then Inl (GrantAuthorizationError ''grant_goal_mismatch'')
            else if capability \<notin> set (ag_capabilities g)
            then Inl (GrantAuthorizationError ''grant_capability_missing'')
            else if (case candidate_id of None \<Rightarrow> False | Some c \<Rightarrow> c \<notin> set (ag_candidate_ids g))
            then Inl (GrantAuthorizationError ''grant_candidate_mismatch'')
            else if ag_candidate_ids g \<noteq> [] \<and> candidate_id = None
            then Inl (GrantAuthorizationError ''grant_candidate_required'')
            else if \<not> scope_value_allows (JObj (ag_resource_scope g)) (JObj scope)
            then Inl (GrantAuthorizationError ''grant_resource_scope_mismatch'')
            else if ag_used_side_effects g \<ge> ag_max_side_effects g
            then Inl (GrantAuthorizationError ''grant_budget_exhausted'')
            else Inr (Some g))"

subsection \<open>Repository operations\<close>

type_synonym grant_table = "action_grant_record list"

definition create_grant ::
  "string \<Rightarrow> string \<Rightarrow> string \<Rightarrow> string list \<Rightarrow> payload \<Rightarrow> string list \<Rightarrow> int \<Rightarrow> instant
   \<Rightarrow> string option \<Rightarrow> string \<Rightarrow> string option \<Rightarrow> instant option \<Rightarrow> string \<Rightarrow> instant
   \<Rightarrow> grant_table \<Rightarrow> (grant_table \<times> action_grant_record) res" where
  "create_grant session_id actor_id goal capabilities resource_scope candidate_ids max_side_effects
     expires_at linear_team_id policy grant_id created_at new_id now rows =
     (if max_side_effects < 0 then Inl (ValueError ''max_side_effects must be non-negative'')
      else let timestamp = or_else created_at now in
        insert_row gr_id
          \<lparr>gr_id = str_or grant_id new_id, gr_session_id = session_id, gr_actor_id = actor_id,
           gr_goal = goal, gr_capabilities = fromkeys capabilities,
           gr_resource_scope = resource_scope, gr_candidate_ids = fromkeys candidate_ids,
           gr_linear_team_id = linear_team_id, gr_max_side_effects = max_side_effects,
           gr_used_side_effects = 0, gr_unresolved_identity_policy = policy,
           gr_expires_at = expires_at, gr_status = ''active'', gr_created_at = timestamp,
           gr_updated_at = timestamp, gr_revoked_at = None\<rparr> rows)"

definition get_grant :: "string \<Rightarrow> grant_table \<Rightarrow> action_grant_record option" where
  "get_grant grant_id rows = find_row (\<lambda>r. gr_id r = grant_id) rows"

definition grant_missing :: "string \<Rightarrow> py_error" where
  "grant_missing grant_id = LookupError (''Action Grant not found: '' @ grant_id)"

definition grant_changed :: "string \<Rightarrow> py_error" where
  "grant_changed grant_id = ActionGrantUnavailable (''Action Grant changed: '' @ grant_id)"

definition consume_grant ::
  "string \<Rightarrow> int \<Rightarrow> instant option \<Rightarrow> instant \<Rightarrow> action_grant_record option \<Rightarrow> grant_table
   \<Rightarrow> (grant_table \<times> action_grant_record) res" where
  "consume_grant grant_id side_effects consumed_at now seen rows =
     (if side_effects < 1 then Inl (ValueError ''side_effects must be positive'')
      else case seen of
          None \<Rightarrow> Inl (grant_missing grant_id)
        | Some record \<Rightarrow>
            let timestamp = or_else consumed_at now;
                next_used = gr_used_side_effects record + side_effects
            in if gr_status record \<noteq> ''active'' \<or> gr_expires_at record \<le> timestamp
                  \<or> next_used > gr_max_side_effects record
               then Inl (ActionGrantUnavailable (''Action Grant is unavailable: '' @ grant_id))
               else cas_update gr_id grant_id
                 (\<lambda>r. gr_status r = ''active'' \<and> gr_used_side_effects r = gr_used_side_effects record
                      \<and> gr_expires_at r > timestamp)
                 (\<lambda>r. r\<lparr>gr_used_side_effects := next_used,
                        gr_status := (if next_used = gr_max_side_effects record
                                      then ''consumed'' else ''active''),
                        gr_updated_at := timestamp\<rparr>)
                 (grant_changed grant_id) (grant_missing grant_id) rows)"

definition release_grant_side_effect ::
  "string \<Rightarrow> int \<Rightarrow> instant option \<Rightarrow> instant \<Rightarrow> action_grant_record option \<Rightarrow> grant_table
   \<Rightarrow> (grant_table \<times> action_grant_record) res" where
  "release_grant_side_effect grant_id side_effects released_at now seen rows =
     (if side_effects < 1 then Inl (ValueError ''side_effects must be positive'')
      else case seen of
          None \<Rightarrow> Inl (grant_missing grant_id)
        | Some record \<Rightarrow>
            if gr_used_side_effects record < side_effects
            then Inl (ActionGrantUnavailable (''Action Grant has no reserved side effect: '' @ grant_id))
            else
              let timestamp = or_else released_at now;
                  next_used = gr_used_side_effects record - side_effects;
                  next_status = (if gr_expires_at record \<le> timestamp then ''expired'' else ''active'')
              in cas_update gr_id grant_id
                 (\<lambda>r. gr_status r \<in> {''active'', ''consumed''}
                      \<and> gr_used_side_effects r = gr_used_side_effects record)
                 (\<lambda>r. r\<lparr>gr_used_side_effects := next_used, gr_status := next_status,
                        gr_updated_at := timestamp\<rparr>)
                 (grant_changed grant_id) (grant_missing grant_id) rows)"

definition transition_grant_status ::
  "string \<Rightarrow> string \<Rightarrow> string option \<Rightarrow> instant option \<Rightarrow> instant \<Rightarrow> action_grant_record option
   \<Rightarrow> grant_table \<Rightarrow> (grant_table \<times> action_grant_record) res" where
  "transition_grant_status grant_id target expected_status changed_at now seen rows =
     (if target \<notin> {''revoked'', ''expired''}
      then Inl (ValueError ''Grant status changes must use consume/release or revoke/expire'')
      else case seen of
          None \<Rightarrow> Inl (grant_missing grant_id)
        | Some record \<Rightarrow>
            if expected_status \<noteq> None \<and> expected_status \<noteq> Some (gr_status record)
            then Inl (grant_changed grant_id)
            else if gr_status record \<in> {''revoked'', ''expired''}
            then if gr_status record = target then Inr (rows, record)
                 else Inl (ActionGrantUnavailable (''Action Grant is terminal: '' @ grant_id))
            else
              let timestamp = or_else changed_at now
              in cas_update gr_id grant_id (\<lambda>r. gr_status r = gr_status record)
                 (\<lambda>r. r\<lparr>gr_status := target, gr_updated_at := timestamp,
                        gr_revoked_at := (if target = ''revoked'' then Some timestamp
                                          else gr_revoked_at record)\<rparr>)
                 (grant_changed grant_id) (grant_missing grant_id) rows)"

definition revoke_grant ::
  "string \<Rightarrow> string option \<Rightarrow> instant option \<Rightarrow> instant \<Rightarrow> action_grant_record option
   \<Rightarrow> grant_table \<Rightarrow> (grant_table \<times> action_grant_record) res" where
  "revoke_grant grant_id = transition_grant_status grant_id ''revoked''"

definition expire_grant ::
  "string \<Rightarrow> string option \<Rightarrow> instant option \<Rightarrow> instant \<Rightarrow> action_grant_record option
   \<Rightarrow> grant_table \<Rightarrow> (grant_table \<times> action_grant_record) res" where
  "expire_grant grant_id = transition_grant_status grant_id ''expired''"

subsection \<open>Scopes\<close>

lemma scope_entry:
  "scope_value_allows (JObj a) (JObj r) \<longleftrightarrow>
     (\<forall>(k, q) \<in> set r. \<exists>v. dict_get a k = Some v \<and> scope_value_allows v q)"
  by (auto simp: list_all_iff split: option.splits)

lemma scope_entryD:
  "scope_value_allows (JObj a) (JObj r) \<Longrightarrow> (k, q) \<in> set r \<Longrightarrow>
     \<exists>v. dict_get a k = Some v \<and> scope_value_allows v q"
  unfolding scope_entry by (drule bspec, assumption) simp

lemma scope_entryI:
  "(\<And>k q. (k, q) \<in> set r \<Longrightarrow> \<exists>v. dict_get a k = Some v \<and> scope_value_allows v q) \<Longrightarrow>
     scope_value_allows (JObj a) (JObj r)"
  unfolding scope_entry by (rule ballI) auto

lemma scope_value_allows_refl: "json_wf a \<Longrightarrow> scope_value_allows a a"
proof (induction a)
  case (JArr x)
  then show ?case by (auto simp: list_all_iff list_ex_iff)
next
  case (JObj x)
  have "\<exists>v. dict_get x k = Some v \<and> scope_value_allows v q" if "(k, q) \<in> set x" for k q
    using JObj that by (auto simp: list_all_iff)
  then show ?case by (rule scope_entryI)
qed (auto simp: scalar_eq_refl)

lemma scope_scalar_trans:
  "scalar_eq a b \<Longrightarrow> scope_value_allows b c \<Longrightarrow> scalar_eq a c"
  by (cases a; cases b; cases c) auto

lemma scope_arr_intro:
  assumes "\<And>q. (case c of JArr r \<Rightarrow> q \<in> set r | _ \<Rightarrow> q = c) \<Longrightarrow> \<exists>x \<in> set a. scope_value_allows x q"
  shows "scope_value_allows (JArr a) c"
  using assms by (cases c) (auto simp: list_all_iff list_ex_iff)

lemma scope_arr_elim:
  assumes "scope_value_allows (JArr a) c" "(case c of JArr r \<Rightarrow> q \<in> set r | _ \<Rightarrow> q = c)"
  shows "\<exists>x \<in> set a. scope_value_allows x q"
  using assms by (cases c) (auto simp: list_all_iff list_ex_iff)

lemma scope_not_arr: "scope_value_allows b c \<Longrightarrow> \<forall>ys. b \<noteq> JArr ys \<Longrightarrow> c \<noteq> JArr r"
  by (cases b; cases c) auto

lemma scope_value_allows_trans:
  "scope_value_allows a b \<Longrightarrow> scope_value_allows b c \<Longrightarrow> scope_value_allows a c"
proof (induction a arbitrary: b c)
  case (JArr xs)
  show ?case
  proof (rule scope_arr_intro)
    fix q assume q: "case c of JArr r \<Rightarrow> q \<in> set r | _ \<Rightarrow> q = c"
    show "\<exists>x \<in> set xs. scope_value_allows x q"
    proof (cases "\<exists>ys. b = JArr ys")
      case True
      then obtain ys where b: "b = JArr ys" by blast
      obtain y where y: "y \<in> set ys" "scope_value_allows y q"
        using scope_arr_elim [OF JArr.prems(2) [unfolded b] q] by blast
      then obtain x where "x \<in> set xs" "scope_value_allows x y"
        using scope_arr_elim [OF JArr.prems(1), of y] b by auto
      with y JArr.IH show ?thesis by blast
    next
      case False
      then have "q = c" using q scope_not_arr [OF JArr.prems(2)] by (cases c) auto
      moreover obtain x where "x \<in> set xs" "scope_value_allows x b"
        using scope_arr_elim [OF JArr.prems(1), of b] False by (cases b) auto
      ultimately show ?thesis using JArr.IH JArr.prems(2) by blast
    qed
  qed
next
  case (JObj xs)
  then obtain ys where b: "b = JObj ys" by (cases b) auto
  with JObj.prems obtain zs where c: "c = JObj zs" by (cases c) auto
  have "\<exists>v. dict_get xs k = Some v \<and> scope_value_allows v q" if m: "(k, q) \<in> set zs" for k q
  proof -
    obtain w where w: "dict_get ys k = Some w" "scope_value_allows w q"
      using scope_entryD [OF JObj.prems(2) [unfolded b c] m] by blast
    obtain v where v: "dict_get xs k = Some v" "scope_value_allows v w"
      using scope_entryD [OF JObj.prems(1) [unfolded b] map_of_SomeD [OF w(1)]] by blast
    have "scope_value_allows v q"
      by (rule JObj.IH [OF map_of_SomeD [OF v(1)] _ v(2) w(2)]) simp
    with v show ?thesis by blast
  qed
  then show ?case unfolding c by (rule scope_entryI)
next
  case JNull then show ?case using scope_scalar_trans [of JNull b c] by (simp only: scope_value_allows.simps)
next
  case (JBool x) then show ?case using scope_scalar_trans [of "JBool x" b c] by (simp only: scope_value_allows.simps)
next
  case (JNum x) then show ?case using scope_scalar_trans [of "JNum x" b c] by (simp only: scope_value_allows.simps)
next
  case (JStr x) then show ?case using scope_scalar_trans [of "JStr x" b c] by (simp only: scope_value_allows.simps)
qed

text \<open>
  Scopes narrow consistently: a scope authorizes itself, and whatever is authorized by a
  value that is itself authorized is authorized; an agent that passes a narrower scope on
  cannot widen the grant.
\<close>

lemma scope_preorder:
  "(json_wf a \<longrightarrow> scope_value_allows a a)
   \<and> (scope_value_allows a b \<and> scope_value_allows b c \<longrightarrow> scope_value_allows a c)"
  using scope_value_allows_refl scope_value_allows_trans by blast

subsection \<open>Authorization\<close>

text \<open>
  What an authorization means: an external write is authorized exactly when there is a
  grant that is active and not expired, for this meeting and (up to case and spacing) this
  goal, includes the capability, selects the candidate (a grant with candidates needs one),
  covers the requested resources, and has side effects left; the grant itself is returned
  unchanged. Other effects need no grant.
\<close>

lemma authorize_tool_use_exact:
  "authorize_tool_use grant effect capability sid goal cand scope now = Inr res \<longleftrightarrow>
     res = grant \<and> (effect \<noteq> ''external_write'' \<or>
       (\<exists>g. grant = Some g \<and> ag_status g = ''active'' \<and> now < ag_expires_at g \<and> ag_session_id g = sid
          \<and> normalized_text (ag_goal g) = normalized_text goal \<and> capability \<in> set (ag_capabilities g)
          \<and> (case cand of None \<Rightarrow> ag_candidate_ids g = [] | Some c \<Rightarrow> c \<in> set (ag_candidate_ids g))
          \<and> scope_value_allows (JObj (ag_resource_scope g)) (JObj scope)
          \<and> ag_used_side_effects g < ag_max_side_effects g))"
proof (cases grant)
  case None
  then show ?thesis by (auto simp: authorize_tool_use_def)
next
  case (Some g)
  show ?thesis
    unfolding authorize_tool_use_def Some
    by (cases cand) (simp_all del: scope_value_allows.simps, auto simp del: scope_value_allows.simps)
qed

definition demo_action_grant :: action_grant where
  "demo_action_grant = \<lparr>ag_grant_id = ''g'', ag_session_id = ''s'', ag_actor_id = ''a'', ag_goal = ''File  it'',
     ag_capabilities = [''task.create''], ag_resource_scope = [(''team'', JArr [JStr ''T1''])],
     ag_candidate_ids = [''c1''], ag_linear_team_id = None, ag_max_side_effects = 2,
     ag_used_side_effects = 1, ag_unresolved_identity_policy = ''placeholder'', ag_expires_at = 100,
     ag_status = ''active'', ag_created_at = 0\<rparr>"

subsection \<open>The side-effect budget under concurrency\<close>

definition grant_row_ok :: "action_grant_record \<Rightarrow> bool" where
  "grant_row_ok r \<longleftrightarrow> 0 \<le> gr_used_side_effects r \<and> gr_used_side_effects r \<le> gr_max_side_effects r
     \<and> gr_status r \<in> {''active'', ''consumed'', ''revoked'', ''expired''}
     \<and> (gr_status r = ''consumed'' \<longrightarrow> gr_used_side_effects r = gr_max_side_effects r)
     \<and> (gr_status r = ''active'' \<longrightarrow>
          gr_used_side_effects r < gr_max_side_effects r \<or> gr_max_side_effects r = 0)"

definition grant_terms where
  "grant_terms r = ((gr_id r, gr_session_id r, gr_actor_id r, gr_goal r, gr_capabilities r),
     (gr_resource_scope r, gr_candidate_ids r, gr_linear_team_id r, gr_max_side_effects r,
      gr_unresolved_identity_policy r, gr_expires_at r, gr_created_at r))"

text \<open>A revoked or expired grant keeps its status and its counter; the terms never change.\<close>

definition grant_evolves :: "action_grant_record \<Rightarrow> action_grant_record \<Rightarrow> bool" where
  "grant_evolves r r' \<longleftrightarrow> grant_terms r' = grant_terms r
     \<and> (gr_status r \<in> {''revoked'', ''expired''} \<longrightarrow>
          gr_status r' = gr_status r \<and> gr_used_side_effects r' = gr_used_side_effects r)"

definition grant_fresh :: "action_grant_record \<Rightarrow> bool" where
  "grant_fresh r \<longleftrightarrow> gr_used_side_effects r = 0 \<and> 0 \<le> gr_max_side_effects r \<and> gr_status r = ''active''"

inductive grant_step :: "action_grant_record \<Rightarrow> grant_table \<Rightarrow> grant_table \<Rightarrow> bool" where
  step_consume: "consume_grant (gr_id v) n ts now (Some v) rows = Inr (rows', r) \<Longrightarrow> grant_step v rows rows'"
| step_release: "release_grant_side_effect (gr_id v) n ts now (Some v) rows = Inr (rows', r)
     \<Longrightarrow> grant_step v rows rows'"
| step_transition: "transition_grant_status (gr_id v) target expected ts now (Some v) rows = Inr (rows', r)
     \<Longrightarrow> grant_step v rows rows'"

lemma create_grant_fresh:
  "create_grant s a g cs sc ids m e lt p gid ca nid now rows = Inr (rows', r) \<Longrightarrow>
     rows' = rows @ [r] \<and> grant_fresh r \<and> gr_id r \<notin> set (map gr_id rows)"
  by (auto simp: create_grant_def insert_row_def Let_def grant_fresh_def split: if_splits)

lemma grant_terms_update [simp]:
  "grant_terms (r\<lparr>gr_used_side_effects := u\<rparr>) = grant_terms r"
  "grant_terms (r\<lparr>gr_status := s\<rparr>) = grant_terms r"
  "grant_terms (r\<lparr>gr_updated_at := t\<rparr>) = grant_terms r"
  "grant_terms (r\<lparr>gr_revoked_at := v\<rparr>) = grant_terms r"
  by (simp_all add: grant_terms_def)

lemma grant_terms_max: "grant_terms r = grant_terms v \<Longrightarrow>
   gr_max_side_effects r = gr_max_side_effects v \<and> gr_expires_at r = gr_expires_at v \<and> gr_id r = gr_id v"
  by (simp add: grant_terms_def)

lemma consume_evolves:
  assumes "distinct (map gr_id rows)" "list_all grant_row_ok rows"
    and ver: "\<And>r. r \<in> set rows \<Longrightarrow> gr_id r = gr_id v \<Longrightarrow> grant_evolves v r"
    and "consume_grant (gr_id v) n ts now (Some v) rows = Inr (rows', x)"
  shows "list_all2 (\<lambda>r r'. grant_evolves r r' \<and> grant_row_ok r') rows rows'"
    "\<exists>r \<in> set rows. gr_id r = gr_id v \<and> gr_id x = gr_id v \<and> gr_status r = ''active''
       \<and> gr_used_side_effects x = gr_used_side_effects r + n
       \<and> gr_used_side_effects x \<le> gr_max_side_effects r \<and> x \<in> set rows'"
proof -
  let ?t = "or_else ts now" and ?n = "gr_used_side_effects v + n"
  let ?g = "\<lambda>r. gr_status r = ''active'' \<and> gr_used_side_effects r = gr_used_side_effects v \<and> gr_expires_at r > ?t"
  let ?f = "\<lambda>r :: action_grant_record. r\<lparr>gr_used_side_effects := ?n,
     gr_status := (if ?n = gr_max_side_effects v then ''consumed'' else ''active''), gr_updated_at := ?t\<rparr>"
  have pre: "1 \<le> n" "?n \<le> gr_max_side_effects v"
    and cas: "cas_update gr_id (gr_id v) ?g ?f (grant_changed (gr_id v)) (grant_missing (gr_id v)) rows = Inr (rows', x)"
    using assms(4) by (auto simp: consume_grant_def Let_def not_less split: if_splits)
  have one: "grant_evolves r (?f r) \<and> grant_row_ok (?f r) \<and> ?n \<le> gr_max_side_effects r"
    if "r \<in> set rows" "gr_id r = gr_id v" "?g r" for r
    using ver [OF that(1,2)] that assms(2) pre
    by (auto simp: grant_evolves_def grant_row_ok_def list_all_iff dest!: grant_terms_max)
  have "list_all2 (\<lambda>r r'. grant_row_ok r \<longrightarrow> grant_evolves r r' \<and> grant_row_ok r') rows rows'"
    using one by (intro cas_update_rel [OF assms(1) _ cas]) (auto simp: grant_evolves_def)
  then show "list_all2 (\<lambda>r r'. grant_evolves r r' \<and> grant_row_ok r') rows rows'"
    using assms(2) by (auto simp: list_all2_conv_all_nth list_all_length)
  have key: "gr_id (?f r) = gr_id r" for r by simp
  obtain r where r: "r \<in> set rows" "gr_id r = gr_id v" "?g r" "x = ?f r"
    "rows' = update_rows (\<lambda>y. gr_id y = gr_id v) (\<lambda>_. x) rows"
    by (rule cas_update_Inr [OF assms(1) key cas])
  have "x \<in> set rows'" unfolding r(5) set_update_rows using r(1,2) by force
  with r(1-4) one [OF r(1-3)] show "\<exists>r \<in> set rows. gr_id r = gr_id v \<and> gr_id x = gr_id v \<and> gr_status r = ''active''
       \<and> gr_used_side_effects x = gr_used_side_effects r + n
       \<and> gr_used_side_effects x \<le> gr_max_side_effects r \<and> x \<in> set rows'"
    by (intro bexI [of _ r]) auto
qed

lemma release_evolves:
  assumes "distinct (map gr_id rows)" "list_all grant_row_ok rows"
    and ver: "\<And>r. r \<in> set rows \<Longrightarrow> gr_id r = gr_id v \<Longrightarrow> grant_evolves v r"
    and "release_grant_side_effect (gr_id v) n ts now (Some v) rows = Inr (rows', x)"
  shows "list_all2 (\<lambda>r r'. grant_evolves r r' \<and> grant_row_ok r') rows rows'"
proof -
  let ?t = "or_else ts now" and ?n = "gr_used_side_effects v - n"
  let ?g = "\<lambda>r. gr_status r \<in> {''active'', ''consumed''} \<and> gr_used_side_effects r = gr_used_side_effects v"
  let ?f = "\<lambda>r :: action_grant_record. r\<lparr>gr_used_side_effects := ?n,
     gr_status := (if gr_expires_at v \<le> ?t then ''expired'' else ''active''), gr_updated_at := ?t\<rparr>"
  have pre: "1 \<le> n" "n \<le> gr_used_side_effects v"
    and cas: "cas_update gr_id (gr_id v) ?g ?f (grant_changed (gr_id v)) (grant_missing (gr_id v)) rows = Inr (rows', x)"
    using assms(4) by (auto simp: release_grant_side_effect_def Let_def not_less split: if_splits)
  have "grant_evolves r (?f r) \<and> grant_row_ok (?f r)"
    if "r \<in> set rows" "gr_id r = gr_id v" "?g r" for r
    using ver [OF that(1,2)] that assms(2) pre
    by (auto simp: grant_evolves_def grant_row_ok_def list_all_iff dest!: grant_terms_max)
  then have "list_all2 (\<lambda>r r'. grant_row_ok r \<longrightarrow> grant_evolves r r' \<and> grant_row_ok r') rows rows'"
    by (intro cas_update_rel [OF assms(1) _ cas]) (auto simp: grant_evolves_def)
  then show ?thesis
    using assms(2) by (auto simp: list_all2_conv_all_nth list_all_length)
qed

lemma transition_evolves:
  assumes "distinct (map gr_id rows)" "list_all grant_row_ok rows"
    and "transition_grant_status (gr_id v) target expected ts now (Some v) rows = Inr (rows', x)"
  shows "list_all2 (\<lambda>r r'. grant_evolves r r' \<and> grant_row_ok r') rows rows'"
proof -
  have refl: "list_all2 (\<lambda>r r'. grant_row_ok r \<longrightarrow> grant_evolves r r' \<and> grant_row_ok r') rows rows"
    by (auto simp: list_all2_same grant_evolves_def)
  have "list_all2 (\<lambda>r r'. grant_row_ok r \<longrightarrow> grant_evolves r r' \<and> grant_row_ok r') rows rows'"
  proof (cases "gr_status v \<in> {''revoked'', ''expired''}")
    case True
    then have "rows' = rows"
      using assms(3) by (auto simp: transition_grant_status_def split: if_splits)
    with refl show ?thesis by simp
  next
    case False
    let ?f = "\<lambda>r :: action_grant_record. r\<lparr>gr_status := target, gr_updated_at := or_else ts now,
       gr_revoked_at := (if target = ''revoked'' then Some (or_else ts now) else gr_revoked_at v)\<rparr>"
    have cas: "cas_update gr_id (gr_id v) (\<lambda>r. gr_status r = gr_status v) ?f
        (grant_changed (gr_id v)) (grant_missing (gr_id v)) rows = Inr (rows', x)"
      and t: "target \<in> {''revoked'', ''expired''}"
      using assms(3) False by (auto simp: transition_grant_status_def Let_def split: if_splits)
    show ?thesis
      using False t by (intro cas_update_rel [OF assms(1) _ cas])
        (auto simp: grant_evolves_def grant_row_ok_def)
  qed
  then show ?thesis
    using assms(2) by (auto simp: list_all2_conv_all_nth list_all_length)
qed

interpretation grant_rows: shared_table gr_id grant_fresh grant_step grant_row_ok grant_evolves
proof
  show "grant_row_ok r" if "grant_fresh r" for r
    using that by (auto simp: grant_fresh_def grant_row_ok_def)
  show "grant_evolves r r" for r by (simp add: grant_evolves_def)
  show "grant_evolves a c" if "grant_evolves a b" "grant_evolves b c" for a b c
    using that by (auto simp: grant_evolves_def)
  show "gr_id b = gr_id a" if "grant_evolves a b" for a b
    using that grant_terms_max [of b a] by (simp add: grant_evolves_def)
  show "list_all2 (\<lambda>x y. grant_evolves x y \<and> grant_row_ok y) rows rows'"
    if "distinct (map gr_id rows)" "list_all grant_row_ok rows" "grant_row_ok v"
      "\<And>r. r \<in> set rows \<Longrightarrow> gr_id r = gr_id v \<Longrightarrow> grant_evolves v r" "grant_step v rows rows'"
    for rows v rows'
    using that(5)
  proof cases
    case step_consume
    then show ?thesis using consume_evolves(1) [OF that(1,2) that(4)] by blast
  next
    case step_release
    then show ?thesis using release_evolves [OF that(1,2) that(4)] by blast
  next
    case step_transition
    then show ?thesis using transition_evolves [OF that(1,2)] by blast
  qed
qed

text \<open>
  C14. The side-effect budget is safe under every interleaving: whatever transactions create,
  read, consume, release, revoke and expire grants, and however stale the rows they look at,
  every grant keeps \<open>0 \<le> used \<le> max\<close>, is \<open>consumed\<close> only with nothing left and \<open>active\<close> only with
  something left (or nothing ever granted); every write keeps the terms of every grant, and
  a revoked or expired grant is never active again and never charged.
\<close>

theorem grant_budget_concurrent:
  assumes "interleaving gr_id grant_fresh grant_step rows views"
  shows "(\<forall>r \<in> set rows. 0 \<le> gr_used_side_effects r \<and> gr_used_side_effects r \<le> gr_max_side_effects r
      \<and> (gr_status r = ''consumed'' \<longrightarrow> gr_used_side_effects r = gr_max_side_effects r)
      \<and> (gr_status r = ''active'' \<longrightarrow>
           gr_used_side_effects r < gr_max_side_effects r \<or> gr_max_side_effects r = 0))
    \<and> (\<forall>v rows' r'. v \<in> set views \<and> grant_step v rows rows' \<and> r' \<in> set rows' \<longrightarrow>
        (\<exists>r \<in> set rows. gr_id r = gr_id r' \<and> gr_max_side_effects r' = gr_max_side_effects r
           \<and> gr_capabilities r' = gr_capabilities r \<and> gr_resource_scope r' = gr_resource_scope r
           \<and> gr_expires_at r' = gr_expires_at r
           \<and> (gr_status r \<in> {''revoked'', ''expired''} \<longrightarrow>
                gr_status r' = gr_status r \<and> gr_used_side_effects r' = gr_used_side_effects r)))"
proof -
  have "grant_row_ok r" if "r \<in> set rows" for r
    using grant_rows.interleaving_inv [OF assms that] .
  moreover have "\<exists>r \<in> set rows. gr_id r = gr_id r' \<and> gr_max_side_effects r' = gr_max_side_effects r
      \<and> gr_capabilities r' = gr_capabilities r \<and> gr_resource_scope r' = gr_resource_scope r
      \<and> gr_expires_at r' = gr_expires_at r
      \<and> (gr_status r \<in> {''revoked'', ''expired''} \<longrightarrow>
           gr_status r' = gr_status r \<and> gr_used_side_effects r' = gr_used_side_effects r)"
    if "v \<in> set views" "grant_step v rows rows'" "r' \<in> set rows'" for v rows' r'
    using grant_rows.interleaving_step [OF assms that]
    by (auto simp: grant_evolves_def grant_terms_def)
  ultimately show ?thesis by (auto simp: grant_row_ok_def)
qed

definition demo_grant :: action_grant_record where
  "demo_grant = \<lparr>gr_id = ''g'', gr_session_id = ''s'', gr_actor_id = ''a'', gr_goal = ''file it'',
     gr_capabilities = [''task.create''], gr_resource_scope = [], gr_candidate_ids = [],
     gr_linear_team_id = None, gr_max_side_effects = 1, gr_used_side_effects = 0,
     gr_unresolved_identity_policy = ''placeholder'', gr_expires_at = 100, gr_status = ''active'',
     gr_created_at = 0, gr_updated_at = 0, gr_revoked_at = None\<rparr>"

definition demo_grant_used :: action_grant_record where
  "demo_grant_used = demo_grant\<lparr>gr_used_side_effects := 1, gr_status := ''consumed'', gr_updated_at := 5\<rparr>"

lemma demo_grant_consumed:
  "consume_grant ''g'' 1 None 5 (Some demo_grant) [demo_grant] = Inr ([demo_grant_used], demo_grant_used)"
  by code_simp

lemma demo_interleaving: "interleaving gr_id grant_fresh grant_step [demo_grant] [demo_grant]"
proof -
  have "interleaving gr_id grant_fresh grant_step ([] @ [demo_grant]) []"
    by (intro interleaving.intros) (simp_all add: grant_fresh_def demo_grant_def)
  then show ?thesis using interleaving.load [of gr_id grant_fresh grant_step "[demo_grant]" "[]"] by simp
qed

lemma demo_interleaving_used:
  "interleaving gr_id grant_fresh grant_step [demo_grant_used] [demo_grant]"
proof (rule interleaving.store [OF demo_interleaving])
  have "gr_id demo_grant = ''g''" by (simp add: demo_grant_def)
  then show "grant_step demo_grant [demo_grant] [demo_grant_used]"
    using grant_step.step_consume [of demo_grant 1 None 5] demo_grant_consumed by simp
qed simp

theorem grant_budget_concurrent_witness:
  "interleaving gr_id grant_fresh grant_step [demo_grant_used] [demo_grant]
   \<and> gr_used_side_effects demo_grant_used \<le> gr_max_side_effects demo_grant_used"
  using grant_budget_concurrent [OF demo_interleaving_used] demo_interleaving_used by simp

text \<open>
  No side effect is charged twice or lost: when \<open>consume_grant\<close> succeeds on any row ever
  read, the current row was active and its counter went up by exactly the requested amount
  and stays within the maximum, so of two transactions that read the same version only one
  can succeed.
\<close>

lemma consume_grant_exact:
  assumes "interleaving gr_id grant_fresh grant_step rows views" and "v \<in> set views"
    and "consume_grant (gr_id v) n ts now (Some v) rows = Inr (rows', x)"
  shows "\<exists>r \<in> set rows. gr_id r = gr_id v \<and> gr_id x = gr_id v \<and> gr_status r = ''active''
     \<and> gr_used_side_effects x = gr_used_side_effects r + n \<and> 1 \<le> n
     \<and> gr_used_side_effects x \<le> gr_max_side_effects r \<and> x \<in> set rows'"
proof -
  have c: "grant_rows.consistent rows views" by (rule grant_rows.interleaving_consistent [OF assms(1)])
  have "1 \<le> n" using assms(3) by (auto simp: consume_grant_def split: if_splits)
  with consume_evolves(2) [OF _ _ grant_rows.consistent_version [OF c assms(2)] assms(3)] c
  show ?thesis by (auto simp: grant_rows.consistent_def)
qed

end
