(* ===== verification/Assistant_State.thy ===== *)
theory Assistant_State
  imports Session_State
begin

section \<open>The lifecycles of the assistant\<close>

text \<open>
  Models \<open>assistant/state_machine.py\<close>. Statuses are the literals of the source, kept as
  texts because the functions accept any text and reject the unknown ones; a transition
  table is the dictionary of the source. Every machine is an instance of the interface
  \<open>status_machine\<close>.
\<close>

type_synonym transition_table = "(string, string list) dict"

definition FAST_TURN_TRANSITIONS :: transition_table where
  "FAST_TURN_TRANSITIONS = [
     (''received'', [''contextualizing'', ''failed'', ''cancelled'']),
     (''contextualizing'', [''deciding'', ''failed'', ''cancelled'']),
     (''deciding'', [''responding'', ''executing_reads'', ''handed_off'', ''failed'', ''cancelled'']),
     (''executing_reads'', [''responding'', ''handed_off'', ''failed'', ''cancelled'']),
     (''responding'', [''completed'', ''failed'', ''cancelled'']),
     (''handed_off'', []), (''completed'', []), (''failed'', []), (''cancelled'', [])]"

definition ACTION_RUN_TRANSITIONS :: transition_table where
  "ACTION_RUN_TRANSITIONS = [
     (''queued'', [''planning'', ''failed'', ''cancelled'']),
     (''planning'', [''queued'', ''executing'', ''needs_input'', ''failed'', ''cancelled'']),
     (''executing'', [''observing'', ''waiting_external'', ''reconciling'', ''failed'', ''cancelled'']),
     (''observing'', [''queued'', ''planning'', ''completed'', ''partial'', ''failed'', ''cancelled'']),
     (''waiting_external'', [''observing'', ''reconciling'', ''failed'', ''cancelled'']),
     (''reconciling'', [''observing'', ''needs_input'', ''failed'', ''cancelled'']),
     (''needs_input'', [''planning'', ''failed'', ''cancelled'']),
     (''completed'', []), (''partial'', []), (''failed'', []), (''cancelled'', [])]"

definition EXTERNAL_ACTION_CLAIM_TRANSITIONS :: transition_table where
  "EXTERNAL_ACTION_CLAIM_TRANSITIONS = [
     (''reserved'', [''requesting'', ''failed_safe'']),
     (''requesting'', [''unknown'', ''succeeded'', ''failed_safe'']),
     (''unknown'', [''succeeded'', ''failed_safe'']),
     (''succeeded'', []), (''failed_safe'', [])]"

definition TOOL_CALL_TRANSITIONS :: transition_table where
  "TOOL_CALL_TRANSITIONS = [
     (''prepared'', [''requesting'', ''failed'']),
     (''requesting'', [''pending'', ''succeeded'', ''failed'', ''unknown'']),
     (''pending'', [''reconciling'', ''unknown'', ''failed'']),
     (''unknown'', [''reconciling'', ''failed'']),
     (''reconciling'', [''pending'', ''succeeded'', ''failed'', ''unknown'']),
     (''succeeded'', []), (''failed'', [])]"

definition SUBAGENT_TRANSITIONS :: transition_table where
  "SUBAGENT_TRANSITIONS = [
     (''queued'', [''running'', ''cancelled'']),
     (''running'', [''queued'', ''completed'', ''failed'', ''cancelled'']),
     (''completed'', []), (''failed'', []), (''cancelled'', [])]"

definition dict_has :: "('k, 'v) dict \<Rightarrow> 'k \<Rightarrow> bool" where
  "dict_has d k \<longleftrightarrow> dict_get d k \<noteq> None"

definition next_statuses :: "transition_table \<Rightarrow> string \<Rightarrow> string list" where
  "next_statuses table s = (case dict_get table s of None \<Rightarrow> [] | Some ts \<Rightarrow> ts)"

definition execution_transitions :: "string \<Rightarrow> transition_table" where
  "execution_transitions profile =
     (if profile = ''fast_turn'' then FAST_TURN_TRANSITIONS else ACTION_RUN_TRANSITIONS)"

definition initial_execution_status :: "string \<Rightarrow> string" where
  "initial_execution_status profile = (if profile = ''fast_turn'' then ''received'' else ''queued'')"

definition validate_execution_status :: "string \<Rightarrow> string \<Rightarrow> string res" where
  "validate_execution_status profile status =
     (if \<not> dict_has (execution_transitions profile) status
      then Inl (ValueError (''invalid '' @ profile @ '' status: '' @ status))
      else Inr status)"

definition transition_execution_status :: "string \<Rightarrow> string \<Rightarrow> string \<Rightarrow> string res" where
  "transition_execution_status profile current target =
     rbind (validate_execution_status profile current) (\<lambda>current_status.
     rbind (validate_execution_status profile target) (\<lambda>target_status.
       if current_status = target_status then Inr current_status
       else if target_status \<notin> set (next_statuses (execution_transitions profile) current_status)
       then Inl (ValueError (''invalid '' @ profile @ '' transition: '' @ current_status @ '' -> ''
              @ target_status))
       else Inr target_status))"

definition is_terminal_execution_status :: "string \<Rightarrow> string \<Rightarrow> bool res" where
  "is_terminal_execution_status profile status =
     rbind (validate_execution_status profile status) (\<lambda>checked.
       Inr (next_statuses (execution_transitions profile) checked = []))"

definition transition_external_action_claim :: "string \<Rightarrow> string \<Rightarrow> string res" where
  "transition_external_action_claim current target =
     (if current = target then Inr current
      else case dict_get EXTERNAL_ACTION_CLAIM_TRANSITIONS current of
          None \<Rightarrow> Inl (KeyError current)
        | Some targets \<Rightarrow>
            if target \<notin> set targets
            then Inl (ValueError (''invalid external action claim transition: '' @ current @ '' -> '' @ target))
            else Inr target)"

definition transition_tool_call_status :: "string \<Rightarrow> string \<Rightarrow> string res" where
  "transition_tool_call_status current target =
     (if \<not> dict_has TOOL_CALL_TRANSITIONS current \<or> \<not> dict_has TOOL_CALL_TRANSITIONS target
      then Inl (ValueError (''invalid ToolCall status: '' @ current @ '' -> '' @ target))
      else if current = target then Inr current
      else if target \<notin> set (next_statuses TOOL_CALL_TRANSITIONS current)
      then Inl (ValueError (''invalid ToolCall transition: '' @ current @ '' -> '' @ target))
      else Inr target)"

definition transition_subagent_status :: "string \<Rightarrow> string \<Rightarrow> string res" where
  "transition_subagent_status current target =
     (if \<not> dict_has SUBAGENT_TRANSITIONS current \<or> \<not> dict_has SUBAGENT_TRANSITIONS target
      then Inl (ValueError (''invalid Subagent status: '' @ current @ '' -> '' @ target))
      else if current = target then Inr current
      else if target \<notin> set (next_statuses SUBAGENT_TRANSITIONS current)
      then Inl (ValueError (''invalid Subagent transition: '' @ current @ '' -> '' @ target))
      else Inr target)"

subsection \<open>Closed tables\<close>

text \<open>Every successor named by a table is a key of the table.\<close>

definition table_closed :: "transition_table \<Rightarrow> bool" where
  "table_closed t \<longleftrightarrow> list_all (\<lambda>(s, ts). list_all (dict_has t) ts) t"

lemma tables_closed:
  "table_closed FAST_TURN_TRANSITIONS" "table_closed ACTION_RUN_TRANSITIONS"
  "table_closed TOOL_CALL_TRANSITIONS" "table_closed SUBAGENT_TRANSITIONS"
  "table_closed EXTERNAL_ACTION_CLAIM_TRANSITIONS"
  by code_simp+

lemma execution_table_closed: "table_closed (execution_transitions profile)"
  by (simp add: execution_transitions_def tables_closed)

lemma next_statuses_has: "table_closed t \<Longrightarrow> x \<in> set (next_statuses t s) \<Longrightarrow> dict_has t x"
  by (cases "dict_get t s")
    (auto simp: table_closed_def list_all_iff next_statuses_def dest!: map_of_SomeD)

lemma next_statuses_unknown: "\<not> dict_has t s \<Longrightarrow> next_statuses t s = []"
  by (simp add: dict_has_def next_statuses_def)

interpretation execution: status_machine "{s. dict_has (execution_transitions profile) s}"
  "\<lambda>s. set (next_statuses (execution_transitions profile) s)" "transition_execution_status profile"
  for profile
  using next_statuses_has [OF execution_table_closed]
  by unfold_locales
    (auto simp: transition_execution_status_def validate_execution_status_def)

interpretation claim: status_machine UNIV
  "\<lambda>s. set (next_statuses EXTERNAL_ACTION_CLAIM_TRANSITIONS s)" transition_external_action_claim
  by unfold_locales
    (auto simp: transition_external_action_claim_def next_statuses_def split: option.splits)

interpretation tool_call: status_machine "{s. dict_has TOOL_CALL_TRANSITIONS s}"
  "\<lambda>s. set (next_statuses TOOL_CALL_TRANSITIONS s)" transition_tool_call_status
  using next_statuses_has [OF tables_closed(3)]
  by unfold_locales (auto simp: transition_tool_call_status_def)

interpretation subagent: status_machine "{s. dict_has SUBAGENT_TRANSITIONS s}"
  "\<lambda>s. set (next_statuses SUBAGENT_TRANSITIONS s)" transition_subagent_status
  using next_statuses_has [OF tables_closed(4)]
  by unfold_locales (auto simp: transition_subagent_status_def)

subsection \<open>Termination and cancellation\<close>

definition stoppable :: "transition_table \<Rightarrow> bool" where
  "stoppable t \<longleftrightarrow>
     list_all (\<lambda>(s, ts). ts = [] \<or> ''failed'' \<in> set ts \<and> ''cancelled'' \<in> set ts) t"

lemma execution_stoppable: "stoppable (execution_transitions profile)"
proof -
  have "stoppable FAST_TURN_TRANSITIONS" "stoppable ACTION_RUN_TRANSITIONS" by code_simp+
  then show ?thesis by (simp add: execution_transitions_def)
qed

lemma stoppable_next:
  assumes "stoppable t" "dict_has t s" "next_statuses t s \<noteq> []"
  shows "''failed'' \<in> set (next_statuses t s) \<and> ''cancelled'' \<in> set (next_statuses t s)"
proof -
  obtain ts where ts: "dict_get t s = Some ts" using assms(2) by (auto simp: dict_has_def)
  then have "(s, ts) \<in> set t" by (rule map_of_SomeD)
  with assms(1) have "ts = [] \<or> ''failed'' \<in> set ts \<and> ''cancelled'' \<in> set ts"
    unfolding stoppable_def list_all_iff by blast
  with ts assms(3) show ?thesis unfolding next_statuses_def by simp
qed

lemma initial_status_valid:
  "dict_has (execution_transitions profile) (initial_execution_status profile)"
  "next_statuses (execution_transitions profile) (initial_execution_status profile) \<noteq> []"
  "initial_execution_status profile \<in> {''received'', ''queued''}"
  by (simp_all add: execution_transitions_def initial_execution_status_def dict_has_def
      next_statuses_def FAST_TURN_TRANSITIONS_def ACTION_RUN_TRANSITIONS_def)

text \<open>
  An execution can always be stopped and never revived: in either profile, a valid status
  that is not terminal can be failed or cancelled; a terminal status stays what it is under
  any sequence of requested transitions; and the initial status of the profile is valid and
  not terminal.
\<close>

lemma execution_stoppable_and_final:
  "is_terminal_execution_status profile (initial_execution_status profile) = Inr False
   \<and> (is_terminal_execution_status profile s = Inr False \<longrightarrow>
        transition_execution_status profile s ''failed'' = Inr ''failed''
        \<and> transition_execution_status profile s ''cancelled'' = Inr ''cancelled'')
   \<and> (is_terminal_execution_status profile s = Inr True \<longrightarrow>
        run_targets (transition_execution_status profile) s ts = s)"
proof -
  let ?t = "execution_transitions profile"
  have tm: "is_terminal_execution_status profile s = Inr b \<longleftrightarrow>
      dict_has ?t s \<and> b = (next_statuses ?t s = [])" for s b
    by (auto simp: is_terminal_execution_status_def validate_execution_status_def)
  have "dict_has ?t (initial_execution_status profile)
      \<and> next_statuses ?t (initial_execution_status profile) \<noteq> []"
    by (simp add: initial_status_valid)
  moreover have "dict_has ?t s \<Longrightarrow> next_statuses ?t s \<noteq> [] \<Longrightarrow>
      transition_execution_status profile s ''failed'' = Inr ''failed''
      \<and> transition_execution_status profile s ''cancelled'' = Inr ''cancelled''"
    using stoppable_next [OF execution_stoppable] by (simp add: execution.transition_Inr)
  moreover have "next_statuses ?t s = [] \<Longrightarrow> run_targets (transition_execution_status profile) s ts = s"
    by (rule execution.terminal_absorbing) simp
  ultimately show ?thesis by (simp add: tm)
qed

end
