(* ===== verification/Executions.thy ===== *)
theory Executions
  imports Assistant_State Json Optimistic
begin

section \<open>Assistant executions\<close>

text \<open>
  Models the part of \<open>AssistantRepository\<close> (\<open>assistant/repository.py\<close>) on context snapshots,
  executions, steps, observations and events, with their rows in \<open>persistence/models.py\<close>.
  The structured log written beside an event is not modelled; the choice of its name
  (\<open>_assistant_lifecycle_event\<close>) is.
\<close>

subsection \<open>Rows\<close>

record context_snapshot_record =
  cs_id :: string
  cs_session_id :: string
  cs_meeting_state_version :: int
  cs_state_slice :: payload
  cs_source_frontier :: payload
  cs_evidence_refs :: "string list"
  cs_evidence_messages :: "json list"
  cs_relevant_context_hash :: string
  cs_created_at :: instant

record execution_record =
  ex_id :: string
  ex_session_id :: string
  ex_profile :: string
  ex_root_execution_id :: string
  ex_parent_execution_id :: "string option"
  ex_snapshot_id :: "string option"
  ex_grant_id :: "string option"
  ex_client_request_id :: "string option"
  ex_goal :: string
  ex_status :: string
  ex_state_version :: int
  ex_step_count :: int
  ex_budget :: payload
  ex_result :: "payload option"
  ex_error_code :: "string option"
  ex_error_message :: "string option"
  ex_created_at :: instant
  ex_started_at :: "instant option"
  ex_updated_at :: instant
  ex_completed_at :: "instant option"

record step_record =
  sp_id :: string
  sp_execution_id :: string
  sp_sequence :: int
  sp_kind :: string
  sp_input :: payload
  sp_output :: "payload option"
  sp_decision_summary :: "string option"
  sp_created_at :: instant

record observation_record =
  ob_id :: string
  ob_execution_id :: string
  ob_step_id :: "string option"
  ob_source :: string
  ob_source_ref :: "string option"
  ob_observation :: payload
  ob_evidence_refs :: "string list"
  ob_created_at :: instant

record event_record =
  ev_id :: int
  ev_session_id :: string
  ev_execution_id :: string
  ev_root_execution_id :: string
  ev_state_version :: int
  ev_schema_version :: int
  ev_event_type :: string
  ev_phase :: "string option"
  ev_status :: string
  ev_summary :: string
  ev_payload :: payload
  ev_created_at :: instant

type_synonym execution_table = "execution_record list"
type_synonym event_table = "event_record list"

subsection \<open>Helpers\<close>

definition require_digest :: "string \<Rightarrow> string \<Rightarrow> unit res" where
  "require_digest v field_name =
     (if length v \<noteq> 64 then Inl (ValueError (field_name @ '' must be a 64-character digest'')) else Inr ())"

definition elapsed_ms :: "instant \<Rightarrow> instant \<Rightarrow> int" where
  "elapsed_ms started_at ended_at = max 0 (ended_at - started_at)"

definition assistant_lifecycle_event :: "string \<Rightarrow> string \<Rightarrow> string option" where
  "assistant_lifecycle_event source_event status =
     (if source_event = ''execution.created'' then Some ''assistant_turn_accepted''
      else if ends_with ''context_frozen'' source_event then Some ''assistant_context_frozen''
      else if source_event = ''handoff.committed'' then Some ''assistant_handoff_committed''
      else if status = ''needs_input'' then Some ''assistant_needs_input''
      else if status \<in> {''completed'', ''partial'', ''failed'', ''cancelled''}
      then Some ''assistant_terminal_result''
      else None)"

text \<open>\<open>x or default\<close> on an optional integer, where zero is false.\<close>

definition int_or :: "int option \<Rightarrow> int \<Rightarrow> int" where
  "int_or v d = (case v of None \<Rightarrow> d | Some n \<Rightarrow> if n = 0 then d else n)"

definition show_int :: "int \<Rightarrow> string" where
  "show_int n = (if n < 0 then ''-'' @ show_nat (nat (- n)) else show_nat (nat n))"

subsection \<open>Context snapshots\<close>

definition create_context_snapshot ::
  "string \<Rightarrow> int \<Rightarrow> payload \<Rightarrow> payload \<Rightarrow> string list \<Rightarrow> json list \<Rightarrow> string \<Rightarrow> string option
   \<Rightarrow> instant option \<Rightarrow> string \<Rightarrow> instant \<Rightarrow> context_snapshot_record list
   \<Rightarrow> (context_snapshot_record list \<times> context_snapshot_record) res" where
  "create_context_snapshot session_id meeting_state_version state_slice source_frontier evidence_refs
     evidence_messages relevant_context_hash snapshot_id created_at new_id now rows =
     rbind (require_digest relevant_context_hash ''relevant_context_hash'') (\<lambda>_.
       insert_row cs_id
         \<lparr>cs_id = str_or snapshot_id new_id, cs_session_id = session_id,
          cs_meeting_state_version = meeting_state_version, cs_state_slice = state_slice,
          cs_source_frontier = source_frontier, cs_evidence_refs = fromkeys evidence_refs,
          cs_evidence_messages = evidence_messages,
          cs_relevant_context_hash = relevant_context_hash,
          cs_created_at = or_else created_at now\<rparr> rows)"

definition get_context_snapshot ::
  "string \<Rightarrow> context_snapshot_record list \<Rightarrow> context_snapshot_record option" where
  "get_context_snapshot snapshot_id rows = find_row (\<lambda>r. cs_id r = snapshot_id) rows"

subsection \<open>Events\<close>

definition get_execution :: "string \<Rightarrow> execution_table \<Rightarrow> execution_record option" where
  "get_execution execution_id rows = find_row (\<lambda>r. ex_id r = execution_id) rows"

definition execution_missing :: "string \<Rightarrow> py_error" where
  "execution_missing execution_id = LookupError (''Assistant execution not found: '' @ execution_id)"

definition get_execution_required :: "string \<Rightarrow> execution_table \<Rightarrow> execution_record res" where
  "get_execution_required execution_id rows =
     (case get_execution execution_id rows of
        None \<Rightarrow> Inl (execution_missing execution_id) | Some r \<Rightarrow> Inr r)"

text \<open>The autoincremented primary key.\<close>

definition next_event_id :: "event_table \<Rightarrow> int" where
  "next_event_id events = fold max (map ev_id events) 0 + 1"

definition append_event ::
  "string \<Rightarrow> string \<Rightarrow> string \<Rightarrow> payload \<Rightarrow> int option \<Rightarrow> string option \<Rightarrow> int \<Rightarrow> instant option
   \<Rightarrow> instant \<Rightarrow> execution_table \<Rightarrow> event_table \<Rightarrow> (event_table \<times> event_record) res" where
  "append_event execution_id event_type summary event_payload state_version phase schema_version
     created_at now rows events =
     rbind (get_execution_required execution_id rows) (\<lambda>execution.
       let record = \<lparr>ev_id = next_event_id events, ev_session_id = ex_session_id execution,
         ev_execution_id = ex_id execution, ev_root_execution_id = ex_root_execution_id execution,
         ev_state_version = int_or state_version (ex_state_version execution),
         ev_schema_version = schema_version, ev_event_type = event_type, ev_phase = phase,
         ev_status = ex_status execution, ev_summary = summary, ev_payload = event_payload,
         ev_created_at = or_else created_at now\<rparr>
       in Inr (events @ [record], record))"

subsection \<open>Creation of executions\<close>

record execution_args =
  xa_session_id :: string
  xa_profile :: string
  xa_goal :: string
  xa_client_request_id :: "string option"
  xa_parent_execution_id :: "string option"
  xa_root_execution_id :: "string option"
  xa_snapshot_id :: "string option"
  xa_grant_id :: "string option"
  xa_budget :: "payload option"
  xa_execution_id :: "string option"
  xa_created_at :: "instant option"
  xa_new_id :: string
  xa_now :: instant

definition resolve_root :: "execution_args \<Rightarrow> string \<Rightarrow> execution_table \<Rightarrow> string res" where
  "resolve_root a identifier rows =
     (case xa_parent_execution_id a of
        Some p \<Rightarrow>
          rbind (get_execution_required p rows) (\<lambda>parent.
            if ex_session_id parent \<noteq> xa_session_id a
            then Inl (ValueError ''parent execution belongs to a different Session'')
            else let root_id = str_or (xa_root_execution_id a) (ex_root_execution_id parent) in
              if root_id \<noteq> ex_root_execution_id parent
              then Inl (ValueError ''child execution must inherit the parent root'')
              else Inr root_id)
      | None \<Rightarrow>
          let root_id = str_or (xa_root_execution_id a) identifier in
            if root_id \<noteq> identifier then Inl (ValueError ''a root execution must reference itself'')
            else Inr root_id)"

definition new_execution :: "execution_args \<Rightarrow> string \<Rightarrow> string \<Rightarrow> execution_record" where
  "new_execution a identifier root_id =
     (let timestamp = or_else (xa_created_at a) (xa_now a) in
       \<lparr>ex_id = identifier, ex_session_id = xa_session_id a, ex_profile = xa_profile a,
        ex_root_execution_id = root_id, ex_parent_execution_id = xa_parent_execution_id a,
        ex_snapshot_id = xa_snapshot_id a, ex_grant_id = xa_grant_id a,
        ex_client_request_id = xa_client_request_id a, ex_goal = py_strip (xa_goal a),
        ex_status = initial_execution_status (xa_profile a), ex_state_version = 1,
        ex_step_count = 0, ex_budget = or_else (xa_budget a) [], ex_result = None,
        ex_error_code = None, ex_error_message = None, ex_created_at = timestamp,
        ex_started_at = None, ex_updated_at = timestamp, ex_completed_at = None\<rparr>)"

definition same_request :: "execution_args \<Rightarrow> execution_record \<Rightarrow> bool" where
  "same_request a r \<longleftrightarrow> xa_client_request_id a \<noteq> None \<and> ex_session_id r = xa_session_id a
     \<and> ex_client_request_id r = xa_client_request_id a"

text \<open>
  The table part of \<open>create_execution\<close>: the lookup of the request on \<open>rows0\<close>, the checks
  against the parent, and the insertion into \<open>rows\<close> with its retry after an
  \<open>IntegrityError\<close>.
\<close>

definition admit_execution ::
  "execution_args \<Rightarrow> execution_table \<Rightarrow> execution_table
   \<Rightarrow> (execution_table \<times> execution_record \<times> bool) res" where
  "admit_execution a rows0 rows =
     (if py_strip (xa_goal a) = [] then Inl (ValueError ''execution goal is required'')
      else case find_row (same_request a) rows0 of
          Some existing \<Rightarrow> Inr (rows, existing, False)
        | None \<Rightarrow>
            let identifier = str_or (xa_execution_id a) (xa_new_id a) in
            rbind (resolve_root a identifier rows0) (\<lambda>root_id.
              get_or_insert ex_id (same_request a) (\<lambda>_. True) integrity_error
                (new_execution a identifier root_id) rows0 rows))"

definition create_execution ::
  "execution_args \<Rightarrow> execution_table \<Rightarrow> execution_table \<Rightarrow> event_table
   \<Rightarrow> (execution_table \<times> event_table \<times> execution_record) res" where
  "create_execution a rows0 rows events =
     rbind (admit_execution a rows0 rows) (\<lambda>(rows', r, created).
       if created then
         rbind (append_event (ex_id r) ''execution.created'' ''Execution accepted'' [] (Some 1)
             (Some (ex_status r)) 1 (Some (ex_created_at r)) (xa_now a) rows' events) (\<lambda>(events', _).
           Inr (rows', events', r))
       else Inr (rows', events, r))"

definition get_execution_by_client_request ::
  "string \<Rightarrow> string \<Rightarrow> execution_table \<Rightarrow> execution_record option" where
  "get_execution_by_client_request session_id client_request_id rows =
     find_row (\<lambda>r. ex_session_id r = session_id \<and> ex_client_request_id r = Some client_request_id) rows"

definition limit_rows :: "int option \<Rightarrow> 'r list \<Rightarrow> 'r list" where
  "limit_rows limit rows = (case limit of None \<Rightarrow> rows | Some n \<Rightarrow> if n < 0 then rows else take (nat n) rows)"

definition list_executions ::
  "string \<Rightarrow> string list \<Rightarrow> int option \<Rightarrow> int \<Rightarrow> execution_table \<Rightarrow> execution_record list" where
  "list_executions session_id statuses limit offset rows =
     limit_rows limit (drop (nat (max 0 offset))
       (rev (sort_key (\<lambda>r. (ex_created_at r, ex_id r))
          (filter (\<lambda>r. ex_session_id r = session_id \<and> (statuses = [] \<or> ex_status r \<in> set statuses)) rows))))"

definition list_action_executions ::
  "string list option \<Rightarrow> int option \<Rightarrow> execution_table \<Rightarrow> execution_record list" where
  "list_action_executions statuses limit rows =
     limit_rows limit (sort_key (\<lambda>r. (ex_created_at r, ex_id r))
       (filter (\<lambda>r. ex_profile r = ''action_run''
          \<and> (case statuses of None \<Rightarrow> True | Some s \<Rightarrow> ex_status r \<in> set s)) rows))"

subsection \<open>Transitions, steps and observations\<close>

record transition_args =
  ta_expected_version :: int
  ta_target_status :: string
  ta_event_type :: string
  ta_summary :: string
  ta_phase :: "string option"
  ta_payload :: "payload option"
  ta_result :: "payload option"
  ta_snapshot_id :: "string option"
  ta_grant_id :: "string option"
  ta_error_code :: "string option"
  ta_error_message :: "string option"
  ta_changed_at :: "instant option"
  ta_now :: instant

definition transition_values ::
  "transition_args \<Rightarrow> execution_record \<Rightarrow> string \<Rightarrow> bool \<Rightarrow> execution_record \<Rightarrow> execution_record" where
  "transition_values a seen next_status final r =
     (let timestamp = or_else (ta_changed_at a) (ta_now a) in
      r\<lparr>ex_status := next_status, ex_state_version := ta_expected_version a + 1,
        ex_updated_at := timestamp,
        ex_result := (case ta_result a of Some x \<Rightarrow> Some x | None \<Rightarrow> ex_result seen),
        ex_error_code := ta_error_code a, ex_error_message := ta_error_message a,
        ex_completed_at := (if final then Some timestamp else None),
        ex_snapshot_id := (case ta_snapshot_id a of None \<Rightarrow> ex_snapshot_id r | Some s \<Rightarrow> Some s),
        ex_grant_id := (case ta_grant_id a of None \<Rightarrow> ex_grant_id r | Some g \<Rightarrow> Some g),
        ex_started_at := (if ex_started_at seen = None \<and> next_status \<notin> {''received'', ''queued''}
                          then Some timestamp else ex_started_at r)\<rparr>)"

definition transition_row_cas ::
  "string \<Rightarrow> transition_args \<Rightarrow> execution_record option \<Rightarrow> execution_table
   \<Rightarrow> (execution_table \<times> execution_record) res" where
  "transition_row_cas execution_id a seen rows =
     (case seen of
        None \<Rightarrow> Inl (execution_missing execution_id)
      | Some record \<Rightarrow>
          if ex_state_version record \<noteq> ta_expected_version a
          then Inl (AssistantStateConflict (''Execution '' @ execution_id @ '' no longer has version ''
                 @ show_int (ta_expected_version a)))
          else
            rbind (transition_execution_status (ex_profile record) (ex_status record) (ta_target_status a)) (\<lambda>next_status.
            rbind (is_terminal_execution_status (ex_profile record) next_status) (\<lambda>final.
              cas_update ex_id execution_id
                (\<lambda>r. ex_state_version r = ta_expected_version a \<and> ex_status r = ex_status record)
                (transition_values a record next_status final)
                (AssistantStateConflict (''Execution '' @ execution_id @ '' changed during transition''))
                (execution_missing execution_id) rows)))"

definition transition_execution ::
  "string \<Rightarrow> transition_args \<Rightarrow> execution_record option \<Rightarrow> execution_table \<Rightarrow> event_table
   \<Rightarrow> (execution_table \<times> event_table \<times> execution_record) res" where
  "transition_execution execution_id a seen rows events =
     rbind (transition_row_cas execution_id a seen rows) (\<lambda>(rows', updated).
     rbind (append_event execution_id (ta_event_type a) (ta_summary a) (or_else (ta_payload a) [])
         (Some (ta_expected_version a + 1)) (Some (str_or (ta_phase a) (ex_status updated))) 1
         (Some (or_else (ta_changed_at a) (ta_now a))) (ta_now a) rows' events) (\<lambda>(events', _).
       Inr (rows', events', updated)))"

text \<open>
  \<open>append_step\<close> adds the step and flushes the changed attributes of the execution it holds:
  the step count only when it grew, and the time of the update.
\<close>

definition touch_execution :: "execution_record \<Rightarrow> int \<Rightarrow> instant \<Rightarrow> execution_record \<Rightarrow> execution_record" where
  "touch_execution seen next_sequence timestamp r =
     r\<lparr>ex_step_count := (if next_sequence \<le> ex_step_count seen then ex_step_count r else next_sequence),
       ex_updated_at := timestamp\<rparr>"

definition append_step ::
  "string \<Rightarrow> string \<Rightarrow> payload \<Rightarrow> payload option \<Rightarrow> string option \<Rightarrow> int option \<Rightarrow> instant option
   \<Rightarrow> string \<Rightarrow> instant \<Rightarrow> execution_record option \<Rightarrow> execution_table \<Rightarrow> step_record list
   \<Rightarrow> (execution_table \<times> step_record list \<times> step_record) res" where
  "append_step execution_id kind input_payload output_payload decision_summary sequence created_at
     new_id now seen rows steps =
     (case seen of
        None \<Rightarrow> Inl (execution_missing execution_id)
      | Some execution \<Rightarrow>
          let next_sequence = int_or sequence (ex_step_count execution + 1);
              timestamp = or_else created_at now;
              record = \<lparr>sp_id = new_id, sp_execution_id = execution_id, sp_sequence = next_sequence,
                sp_kind = kind, sp_input = input_payload, sp_output = output_payload,
                sp_decision_summary = decision_summary, sp_created_at = timestamp\<rparr>
          in if next_sequence < 1 then Inl (ValueError ''step sequence must be positive'')
             else if new_id \<in> set (map sp_id steps)
               \<or> (execution_id, next_sequence) \<in> set (map (\<lambda>s. (sp_execution_id s, sp_sequence s)) steps)
             then Inl integrity_error
             else Inr (update_rows (\<lambda>r. ex_id r = execution_id) (touch_execution execution next_sequence timestamp) rows,
                       steps @ [record], record))"

definition list_steps ::
  "string \<Rightarrow> int option \<Rightarrow> int \<Rightarrow> step_record list \<Rightarrow> step_record list res" where
  "list_steps execution_id limit offset steps =
     (let rows = sort_key sp_sequence (filter (\<lambda>s. sp_execution_id s = execution_id) steps) in
      case limit of
        None \<Rightarrow> Inr rows
      | Some n \<Rightarrow>
          if \<not> (1 \<le> n \<and> n \<le> 101) \<or> offset < 0 then Inl (ValueError ''invalid step page'')
          else Inr (take (nat n) (drop (nat offset) rows)))"

definition append_observation ::
  "string \<Rightarrow> string \<Rightarrow> payload \<Rightarrow> string list \<Rightarrow> string option \<Rightarrow> string option \<Rightarrow> string option
   \<Rightarrow> instant option \<Rightarrow> string \<Rightarrow> instant \<Rightarrow> execution_table \<Rightarrow> observation_record list
   \<Rightarrow> (observation_record list \<times> observation_record) res" where
  "append_observation execution_id source observation evidence_refs step_id source_ref observation_id
     created_at new_id now rows observations =
     rbind (get_execution_required execution_id rows) (\<lambda>_.
       insert_row ob_id
         \<lparr>ob_id = str_or observation_id new_id, ob_execution_id = execution_id, ob_step_id = step_id,
          ob_source = source, ob_source_ref = source_ref, ob_observation = observation,
          ob_evidence_refs = fromkeys evidence_refs, ob_created_at = or_else created_at now\<rparr>
         observations)"

definition list_observations :: "string \<Rightarrow> observation_record list \<Rightarrow> observation_record list" where
  "list_observations execution_id observations =
     sort_key (\<lambda>r. (ob_created_at r, ob_id r)) (filter (\<lambda>r. ob_execution_id r = execution_id) observations)"

subsection \<open>The event stream\<close>

definition current_event_cursor :: "string option \<Rightarrow> event_table \<Rightarrow> int" where
  "current_event_cursor session_id events =
     (let rows = filter (\<lambda>e. case session_id of None \<Rightarrow> True | Some s \<Rightarrow> ev_session_id e = s) events in
      if rows = [] then 0 else Max (set (map ev_id rows)))"

definition has_session_events_after :: "string \<Rightarrow> int \<Rightarrow> event_table \<Rightarrow> bool" where
  "has_session_events_after session_id cursor events \<longleftrightarrow>
     list_ex (\<lambda>e. ev_session_id e = session_id \<and> ev_id e > cursor) events"

definition list_session_events :: "string \<Rightarrow> int \<Rightarrow> int \<Rightarrow> event_table \<Rightarrow> event_record list" where
  "list_session_events session_id after limit events =
     (let bounded_limit = max 1 (min limit 100) in
      take (nat bounded_limit) (sort_key ev_id
        (filter (\<lambda>e. ev_session_id e = session_id \<and> ev_id e > after) events)))"

subsection \<open>Admission is idempotent\<close>

definition request_key :: "execution_record \<Rightarrow> (string \<times> string) option" where
  "request_key r = map_option (Pair (ex_session_id r)) (ex_client_request_id r)"

definition args_request_key :: "execution_args \<Rightarrow> (string \<times> string) option" where
  "args_request_key a = map_option (Pair (xa_session_id a)) (xa_client_request_id a)"

lemma same_request_key: "same_request a r \<longleftrightarrow> args_request_key a \<noteq> None \<and> request_key r = args_request_key a"
  by (cases "xa_client_request_id a"; cases "ex_client_request_id r")
    (auto simp: same_request_def request_key_def args_request_key_def)

lemma new_execution_key: "request_key (new_execution a i root_id) = args_request_key a"
  "ex_id (new_execution a i root_id) = i"
  by (simp_all add: new_execution_def request_key_def args_request_key_def Let_def)

lemma admit_execution_existing:
  assumes "admit_execution a rows0 rows = Inr (rows', x, False)"
  shows "rows' = rows \<and> (x \<in> set rows0 \<or> x \<in> set rows) \<and> same_request a x"
proof (cases "find_row (same_request a) rows0")
  case None
  with assms obtain root_id where "get_or_insert ex_id (same_request a) (\<lambda>_. True) integrity_error
      (new_execution a (str_or (xa_execution_id a) (xa_new_id a)) root_id) rows0 rows = Inr (rows', x, False)"
    by (auto simp: admit_execution_def Let_def rbind_eq_Inr split: if_splits)
  then show ?thesis by (auto dest: get_or_insert_existing)
next
  case (Some y)
  with assms show ?thesis
    by (auto simp: admit_execution_def split: if_splits dest: find_row_Some)
qed

lemma admit_execution_created:
  assumes "admit_execution a rows0 rows = Inr (rows', x, True)"
  obtains i root_id where "x = new_execution a i root_id" "rows' = rows @ [x]" "i \<notin> ex_id ` set rows"
    "\<forall>y \<in> set rows. \<not> same_request a y" "resolve_root a i rows0 = Inr root_id" "py_strip (xa_goal a) \<noteq> []"
proof -
  let ?i = "str_or (xa_execution_id a) (xa_new_id a)"
  obtain root_id where r: "resolve_root a ?i rows0 = Inr root_id" "py_strip (xa_goal a) \<noteq> []"
    "get_or_insert ex_id (same_request a) (\<lambda>_. True) integrity_error (new_execution a ?i root_id) rows0 rows
      = Inr (rows', x, True)"
    using assms
    by (auto simp: admit_execution_def Let_def rbind_eq_Inr split: if_splits option.splits)
  from get_or_insert_created [OF r(3)] r(1,2) show ?thesis
    by (intro that [of ?i root_id]) (auto simp: new_execution_key)
qed

interpretation requests: idempotent_insert ex_id request_key args_request_key admit_execution
proof
  show "rows' = rows \<and> (x \<in> set rows0 \<or> x \<in> set rows) \<and> args_request_key a \<noteq> None
      \<and> request_key x = args_request_key a"
    if "admit_execution a rows0 rows = Inr (rows', x, False)" for a rows0 rows rows' x
    using admit_execution_existing [OF that] by (simp add: same_request_key)
  show "rows' = rows @ [x] \<and> request_key x = args_request_key a \<and> ex_id x \<notin> ex_id ` set rows
      \<and> (args_request_key a \<noteq> None \<longrightarrow> args_request_key a \<notin> request_key ` set rows)"
    if "admit_execution a rows0 rows = Inr (rows', x, True)" for a rows0 rows rows' x
    using admit_execution_created [OF that]
    by (metis imageE new_execution_key same_request_key)
qed

lemma create_execution_Inr:
  assumes "create_execution a rows0 rows events = Inr (rows', events', r)"
  obtains created where "admit_execution a rows0 rows = Inr (rows', r, created)"
    "\<not> created \<Longrightarrow> events' = events"
  using assms by (auto simp: create_execution_def rbind_eq_Inr split: if_splits)

text \<open>
  C15. Submitting a request again is safe: when \<open>create_execution\<close> has succeeded for a client
  request id, every later call with the same session and request id that succeeds (whatever
  its other arguments, whatever was written in between, and even when its own lookup ran
  before the first insertion) returns the execution created first, and changes neither the
  executions nor the events.
\<close>

theorem create_execution_idempotent:
  assumes "create_execution a rows0 rows1 events1 = Inr (rows1', events1', x)"
    and "extends ex_id request_key rows0 rows1" and "extends ex_id request_key rows1' rows2"
    and "unique_keys ex_id request_key rows2"
    and "create_execution a' rows0' rows2 events2 = Inr (rows2', events2', y)"
    and "extends ex_id request_key rows0' rows2"
    and "xa_client_request_id a = Some c" and "xa_client_request_id a' = Some c"
    and "xa_session_id a' = xa_session_id a"
  shows "ex_id y = ex_id x \<and> rows2' = rows2 \<and> events2' = events2"
proof -
  obtain b where b: "admit_execution a rows0 rows1 = Inr (rows1', x, b)"
    using create_execution_Inr [OF assms(1)] by metis
  obtain b' where b': "admit_execution a' rows0' rows2 = Inr (rows2', y, b')"
    "\<not> b' \<Longrightarrow> events2' = events2"
    using create_execution_Inr [OF assms(5)] by metis
  have "ex_id y = ex_id x \<and> \<not> b' \<and> rows2' = rows2"
    by (rule requests.create_retry [OF b assms(2,3,4) b'(1) assms(6)])
      (use assms(7,8,9) in \<open>auto simp: args_request_key_def\<close>)
  with b'(2) show ?thesis by blast
qed

definition demo_request :: "string \<Rightarrow> instant \<Rightarrow> execution_args" where
  "demo_request new_id now = \<lparr>xa_session_id = ''s'', xa_profile = ''fast_turn'', xa_goal = '' summarise '',
     xa_client_request_id = Some ''req-1'', xa_parent_execution_id = None, xa_root_execution_id = None,
     xa_snapshot_id = None, xa_grant_id = None, xa_budget = None, xa_execution_id = None,
     xa_created_at = None, xa_new_id = new_id, xa_now = now\<rparr>"

definition demo_execution :: execution_record where
  "demo_execution = new_execution (demo_request ''e1'' 0) ''e1'' ''e1''"

definition demo_created :: event_record where
  "demo_created = \<lparr>ev_id = 1, ev_session_id = ''s'', ev_execution_id = ''e1'',
     ev_root_execution_id = ''e1'', ev_state_version = 1, ev_schema_version = 1,
     ev_event_type = ''execution.created'', ev_phase = Some ''received'', ev_status = ''received'',
     ev_summary = ''Execution accepted'', ev_payload = [], ev_created_at = 0\<rparr>"

lemma demo_admission:
  "create_execution (demo_request ''e1'' 0) [] [] [] = Inr ([demo_execution], [demo_created], demo_execution)"
  "create_execution (demo_request ''e2'' 3) [] [demo_execution] [demo_created]
     = Inr ([demo_execution], [demo_created], demo_execution)"
  by code_simp+

theorem create_execution_idempotent_witness:
  "create_execution (demo_request ''e1'' 0) [] [] [] = Inr ([demo_execution], [demo_created], demo_execution)
   \<and> (\<exists>y. create_execution (demo_request ''e2'' 3) [] [demo_execution] [demo_created]
        = Inr ([demo_execution], [demo_created], y) \<and> ex_id y = ''e1'')"
proof -
  have "ex_id demo_execution = ex_id demo_execution \<and> [demo_execution] = [demo_execution] \<and> [demo_created] = [demo_created]"
    by (rule create_execution_idempotent [OF demo_admission(1) _ _ _ demo_admission(2), of "''req-1''"])
      (auto simp: extends_def unique_keys_def demo_request_def)
  moreover have "ex_id demo_execution = ''e1''" by (simp add: demo_execution_def new_execution_key)
  ultimately show ?thesis using demo_admission by auto
qed

subsection \<open>Concurrent transitions\<close>

text \<open>The columns only a transition writes.\<close>

definition execution_core where
  "execution_core r = (ex_status r, ex_snapshot_id r, ex_grant_id r, ex_result r,
     (ex_error_code r, ex_error_message r, ex_started_at r, ex_completed_at r))"

definition execution_terms where
  "execution_terms r = ((ex_id r, ex_session_id r, ex_profile r, ex_root_execution_id r),
     (ex_parent_execution_id r, ex_client_request_id r, ex_goal r, ex_budget r, ex_created_at r))"

definition execution_path :: "string \<Rightarrow> (string \<times> string) set" where
  "execution_path profile = {(s, t). t \<in> set (next_statuses (execution_transitions profile) s)}\<^sup>*"

definition terminal_in :: "string \<Rightarrow> string \<Rightarrow> bool" where
  "terminal_in profile s \<longleftrightarrow> next_statuses (execution_transitions profile) s = []"

definition execution_row_ok :: "execution_record \<Rightarrow> bool" where
  "execution_row_ok r \<longleftrightarrow> dict_has (execution_transitions (ex_profile r)) (ex_status r)
     \<and> 1 \<le> ex_state_version r
     \<and> (ex_completed_at r \<noteq> None \<longleftrightarrow> terminal_in (ex_profile r) (ex_status r))
     \<and> (ex_status r \<notin> {''received'', ''queued''} \<longrightarrow> ex_started_at r \<noteq> None)"

definition execution_evolves :: "execution_record \<Rightarrow> execution_record \<Rightarrow> bool" where
  "execution_evolves r r' \<longleftrightarrow> execution_terms r' = execution_terms r
     \<and> (ex_status r, ex_status r') \<in> execution_path (ex_profile r)
     \<and> ex_state_version r \<le> ex_state_version r'
     \<and> (ex_state_version r = ex_state_version r' \<longrightarrow> execution_core r' = execution_core r)"

definition execution_fresh :: "execution_record \<Rightarrow> bool" where
  "execution_fresh r \<longleftrightarrow> (\<exists>a i root_id. r = new_execution a i root_id)"

inductive execution_step :: "execution_record \<Rightarrow> execution_table \<Rightarrow> execution_table \<Rightarrow> bool" where
  step_transition: "transition_execution (ex_id v) a (Some v) rows events = Inr (rows', events', r)
     \<Longrightarrow> execution_step v rows rows'"
| step_append: "append_step (ex_id v) kind inp out summary sq ts nid now (Some v) rows steps = Inr (rows', steps', s)
     \<Longrightarrow> execution_step v rows rows'"

lemma execution_terms_eq: "execution_terms r' = execution_terms r \<Longrightarrow>
   ex_id r' = ex_id r \<and> ex_profile r' = ex_profile r"
  by (simp add: execution_terms_def)

lemma transition_values_terms: "execution_terms (transition_values a v n b r) = execution_terms r"
  by (simp add: execution_terms_def transition_values_def Let_def)

lemma transition_values_id [simp]: "ex_id (transition_values a v n b r) = ex_id r"
  by (simp add: transition_values_def Let_def)

lemma touch_execution_sel:
  "execution_terms (touch_execution v n t r) = execution_terms r"
  "execution_core (touch_execution v n t r) = execution_core r"
  "ex_state_version (touch_execution v n t r) = ex_state_version r"
  by (simp_all add: touch_execution_def execution_terms_def execution_core_def)

lemma execution_row_ok_core:
  "execution_core r' = execution_core r \<Longrightarrow> execution_terms r' = execution_terms r \<Longrightarrow>
     ex_state_version r' = ex_state_version r \<Longrightarrow> execution_row_ok r' = execution_row_ok r"
  by (simp add: execution_core_def execution_terms_def execution_row_ok_def)

lemma transition_row_cas_Inr:
  assumes "transition_row_cas (ex_id v) a (Some v) rows = Inr (rows', x)"
  obtains n b where "ex_state_version v = ta_expected_version a"
    "transition_execution_status (ex_profile v) (ex_status v) (ta_target_status a) = Inr n"
    "is_terminal_execution_status (ex_profile v) n = Inr b"
    "cas_update ex_id (ex_id v) (\<lambda>r. ex_state_version r = ta_expected_version a \<and> ex_status r = ex_status v)
       (transition_values a v n b)
       (AssistantStateConflict (''Execution '' @ ex_id v @ '' changed during transition''))
       (execution_missing (ex_id v)) rows = Inr (rows', x)"
  using assms by (auto simp: transition_row_cas_def rbind_eq_Inr split: if_splits)

lemma terminal_status_iff:
  "is_terminal_execution_status p n = Inr b \<Longrightarrow>
     dict_has (execution_transitions p) n \<and> b = terminal_in p n"
  by (auto simp: is_terminal_execution_status_def validate_execution_status_def terminal_in_def
      split: if_splits)

lemma transition_execution_Inr:
  assumes "transition_execution i a seen rows events = Inr (rows', events', x)"
  obtains e where "transition_row_cas i a seen rows = Inr (rows', x)"
    "append_event i (ta_event_type a) (ta_summary a) (or_else (ta_payload a) [])
       (Some (ta_expected_version a + 1)) (Some (str_or (ta_phase a) (ex_status x))) 1
       (Some (or_else (ta_changed_at a) (ta_now a))) (ta_now a) rows' events = Inr (events', e)"
  using assms by (auto simp: transition_execution_def rbind_eq_Inr)

text \<open>A transition that succeeds was computed from the current version of the row.\<close>

lemma transition_values_ok:
  assumes "execution_evolves v r" "execution_row_ok r"
    and "ex_state_version v = ta_expected_version a" "ex_state_version r = ta_expected_version a"
    and "transition_execution_status (ex_profile v) (ex_status v) (ta_target_status a) = Inr n"
    and "is_terminal_execution_status (ex_profile v) n = Inr b"
  shows "execution_evolves r (transition_values a v n b r) \<and> execution_row_ok (transition_values a v n b r)"
proof -
  let ?r' = "transition_values a v n b r"
  have core: "execution_core r = execution_core v" and pr: "ex_profile r = ex_profile v"
    using assms(1,3,4) execution_terms_eq [of r v] by (auto simp: execution_evolves_def)
  have sel: "ex_status ?r' = n" "ex_state_version ?r' = ex_state_version r + 1" "ex_profile ?r' = ex_profile r"
    "ex_completed_at ?r' = (if b then Some (or_else (ta_changed_at a) (ta_now a)) else None)"
    "ex_started_at ?r' = (if ex_started_at v = None \<and> n \<notin> {''received'', ''queued''}
       then Some (or_else (ta_changed_at a) (ta_now a)) else ex_started_at r)"
    using assms(4) by (simp_all add: transition_values_def Let_def)
  have step: "(ex_status r, n) \<in> execution_path (ex_profile r)"
    using assms(5) core
    by (auto simp: execution.transition_Inr execution_path_def pr execution_core_def)
  note term_n = terminal_status_iff [OF assms(6)]
  have st: "ex_started_at v = ex_started_at r" using core by (simp add: execution_core_def)
  have "execution_row_ok ?r'"
    unfolding execution_row_ok_def sel using term_n assms(2) by (simp add: st pr execution_row_ok_def)
  moreover have "execution_evolves r ?r'"
    using step by (simp add: execution_evolves_def transition_values_terms sel)
  ultimately show ?thesis by blast
qed

lemma transition_step_rel:
  assumes "distinct (map ex_id rows)" "list_all execution_row_ok rows"
    and ver: "\<And>r. r \<in> set rows \<Longrightarrow> ex_id r = ex_id v \<Longrightarrow> execution_evolves v r"
    and "transition_row_cas (ex_id v) a (Some v) rows = Inr (rows', x)"
  shows "list_all2 (\<lambda>r r'. execution_evolves r r' \<and> execution_row_ok r') rows rows'"
    "\<exists>r \<in> set rows. ex_id r = ex_id v \<and> execution_terms x = execution_terms r
       \<and> ex_state_version r = ta_expected_version a \<and> ex_state_version v = ta_expected_version a
       \<and> execution_core r = execution_core v \<and> x \<in> set rows'
       \<and> ex_state_version x = ta_expected_version a + 1 \<and> ex_status x = ta_target_status a
       \<and> transition_execution_status (ex_profile r) (ex_status r) (ta_target_status a) = Inr (ex_status x)"
proof -
  obtain n b where t: "ex_state_version v = ta_expected_version a"
    "transition_execution_status (ex_profile v) (ex_status v) (ta_target_status a) = Inr n"
    "is_terminal_execution_status (ex_profile v) n = Inr b"
    and cas: "cas_update ex_id (ex_id v) (\<lambda>r. ex_state_version r = ta_expected_version a \<and> ex_status r = ex_status v)
       (transition_values a v n b)
       (AssistantStateConflict (''Execution '' @ ex_id v @ '' changed during transition''))
       (execution_missing (ex_id v)) rows = Inr (rows', x)"
    by (rule transition_row_cas_Inr [OF assms(4)])
  have ok: "execution_row_ok r" if "r \<in> set rows" for r using assms(2) that by (simp add: list_all_iff)
  have "list_all2 (\<lambda>r r'. execution_row_ok r \<longrightarrow> execution_evolves r r' \<and> execution_row_ok r') rows rows'"
  proof (rule cas_update_rel [OF assms(1) _ cas])
    fix r assume r: "r \<in> set rows" "ex_id r = ex_id v"
      "ex_state_version r = ta_expected_version a \<and> ex_status r = ex_status v"
    show "execution_row_ok r \<longrightarrow> execution_evolves r (transition_values a v n b r)
        \<and> execution_row_ok (transition_values a v n b r)"
      using transition_values_ok [OF ver [OF r(1,2)] ok [OF r(1)] t(1) _ t(2,3)] r(3) by blast
  qed (simp_all add: execution_evolves_def execution_path_def)
  then show "list_all2 (\<lambda>r r'. execution_evolves r r' \<and> execution_row_ok r') rows rows'"
    using assms(2) by (auto simp: list_all2_conv_all_nth list_all_length)
  have key: "ex_id (transition_values a v n b r) = ex_id r" for r by simp
  obtain r where r: "r \<in> set rows" "ex_id r = ex_id v"
    "ex_state_version r = ta_expected_version a \<and> ex_status r = ex_status v" "x = transition_values a v n b r"
    "rows' = update_rows (\<lambda>y. ex_id y = ex_id v) (\<lambda>_. x) rows"
    by (rule cas_update_Inr [OF assms(1) key cas])
  have x: "x \<in> set rows'" unfolding r(5) set_update_rows using r(1,2) by force
  have v: "execution_core r = execution_core v" "ex_profile r = ex_profile v"
    using ver [OF r(1,2)] t(1) r(3) execution_terms_eq [of r v] by (auto simp: execution_evolves_def)
  have n: "n = ta_target_status a" using t(2) by (simp add: execution.transition_Inr)
  have s: "ex_status x = n" "ex_state_version x = ta_expected_version a + 1"
    unfolding r(4) by (simp_all add: transition_values_def Let_def)
  show "\<exists>r \<in> set rows. ex_id r = ex_id v \<and> execution_terms x = execution_terms r
       \<and> ex_state_version r = ta_expected_version a \<and> ex_state_version v = ta_expected_version a
       \<and> execution_core r = execution_core v \<and> x \<in> set rows'
       \<and> ex_state_version x = ta_expected_version a + 1 \<and> ex_status x = ta_target_status a
       \<and> transition_execution_status (ex_profile r) (ex_status r) (ta_target_status a) = Inr (ex_status x)"
    using r(1-3) x v(1) t(1,2) n s v(2) transition_values_terms [of a v n b r, folded r(4)]
    by (intro bexI [OF _ r(1)]) simp
qed

lemma append_step_rel:
  assumes "append_step (ex_id v) kind inp out summary sq ts nid now (Some v) rows steps = Inr (rows', steps', s)"
    and "list_all execution_row_ok rows"
  shows "list_all2 (\<lambda>r r'. execution_evolves r r' \<and> execution_row_ok r') rows rows'"
proof -
  obtain n t where "rows' = update_rows (\<lambda>r. ex_id r = ex_id v) (touch_execution v n t) rows"
    using assms(1) by (auto simp: append_step_def Let_def split: if_splits)
  moreover have "execution_evolves r (touch_execution v n t r)" "execution_row_ok r \<Longrightarrow> execution_row_ok (touch_execution v n t r)"
    "execution_evolves r r" for r
    using execution_row_ok_core [of "touch_execution v n t r" r] touch_execution_sel [of v n t r]
    by (simp_all add: execution_evolves_def execution_path_def execution_core_def)
  ultimately show ?thesis
    using assms(2) by (auto simp: update_rows_def list_all2_map2 list_all_iff list_all2_same)
qed

interpretation executions: shared_table ex_id execution_fresh execution_step execution_row_ok execution_evolves
proof
  show "execution_row_ok r" if "execution_fresh r" for r
  proof -
    from that obtain a i root_id where r: "r = new_execution a i root_id" by (auto simp: execution_fresh_def)
    show ?thesis
      unfolding r using initial_status_valid [of "xa_profile a"]
      by (simp add: execution_row_ok_def new_execution_def Let_def terminal_in_def)
  qed
  show "execution_evolves r r" for r by (simp add: execution_evolves_def execution_path_def)
  show "execution_evolves a c" if "execution_evolves a b" "execution_evolves b c" for a b c
    using that execution_terms_eq [of b a]
    by (auto simp: execution_evolves_def execution_path_def)
  show "ex_id b = ex_id a" if "execution_evolves a b" for a b
    using that execution_terms_eq [of b a] by (simp add: execution_evolves_def)
  show "list_all2 (\<lambda>x y. execution_evolves x y \<and> execution_row_ok y) rows rows'"
    if "distinct (map ex_id rows)" "list_all execution_row_ok rows" "execution_row_ok v"
      "\<And>r. r \<in> set rows \<Longrightarrow> ex_id r = ex_id v \<Longrightarrow> execution_evolves v r" "execution_step v rows rows'"
    for rows v rows'
    using that(5)
  proof cases
    case (step_transition a events events' r)
    then obtain e where "transition_row_cas (ex_id v) a (Some v) rows = Inr (rows', r)"
      by (rule transition_execution_Inr)
    then show ?thesis using transition_step_rel(1) [OF that(1,2) that(4)] by blast
  next
    case step_append
    then show ?thesis using append_step_rel that(2) by blast
  qed
qed

lemma append_event_Inr:
  assumes "append_event i et su pl sv ph sc ca now rows events = Inr (events', e)"
  shows "\<exists>r. get_execution i rows = Some r \<and> events' = events @ [e] \<and> ev_execution_id e = ex_id r
     \<and> ev_status e = ex_status r \<and> ev_state_version e = int_or sv (ex_state_version r)
     \<and> ev_session_id e = ex_session_id r \<and> ev_root_execution_id e = ex_root_execution_id r"
  using assms
  by (auto simp: append_event_def get_execution_required_def rbind_eq_Inr Let_def split: option.splits)

text \<open>
  Optimistic concurrency of executions: under every interleaving of creations, reads,
  transitions and steps, a transition that succeeds on any row ever read was decided on the
  current row: the row it read has the expected version, agrees with the current row on every
  column a transition writes, the move is legal from the current status, the version grows by
  exactly one, and one event with the new version and status is appended.
\<close>

lemma transition_execution_current:
  assumes "interleaving ex_id execution_fresh execution_step rows views" and "v \<in> set views"
    and "transition_execution (ex_id v) a (Some v) rows events = Inr (rows', events', x)"
  shows "\<exists>r \<in> set rows. ex_id r = ex_id v \<and> ex_state_version v = ex_state_version r
     \<and> ex_state_version r = ta_expected_version a \<and> execution_core v = execution_core r
     \<and> transition_execution_status (ex_profile r) (ex_status r) (ta_target_status a) = Inr (ex_status x)
     \<and> ex_state_version x = ex_state_version r + 1 \<and> x \<in> set rows' \<and> ex_id x = ex_id r
     \<and> (\<exists>e. events' = events @ [e] \<and> ev_execution_id e = ex_id r
           \<and> ev_state_version e = ex_state_version r + 1 \<and> ev_status e = ex_status x)"
proof -
  have c: "executions.consistent rows views" by (rule executions.interleaving_consistent [OF assms(1)])
  obtain e where row: "transition_row_cas (ex_id v) a (Some v) rows = Inr (rows', x)"
    and ev: "append_event (ex_id v) (ta_event_type a) (ta_summary a) (or_else (ta_payload a) [])
       (Some (ta_expected_version a + 1)) (Some (str_or (ta_phase a) (ex_status x))) 1
       (Some (or_else (ta_changed_at a) (ta_now a))) (ta_now a) rows' events = Inr (events', e)"
    by (rule transition_execution_Inr [OF assms(3)])
  have dist: "distinct (map ex_id rows)" and ok: "list_all execution_row_ok rows"
    using c by (simp_all add: executions.consistent_def)
  note rel = transition_step_rel [OF dist ok executions.consistent_version [OF c assms(2)] row]
  have keys: "map ex_id rows' = map ex_id rows"
    by (rule list_all2_keys [OF rel(1)]) (auto dest: executions.evolves_key)
  from rel(2) obtain r where r: "r \<in> set rows" "ex_id r = ex_id v" "execution_terms x = execution_terms r"
    "ex_state_version r = ta_expected_version a" "ex_state_version v = ta_expected_version a"
    "execution_core r = execution_core v" "x \<in> set rows'" "ex_state_version x = ta_expected_version a + 1"
    "ex_status x = ta_target_status a"
    "transition_execution_status (ex_profile r) (ex_status r) (ta_target_status a) = Inr (ex_status x)" by blast
  have xr: "ex_id x = ex_id r" using execution_terms_eq [OF r(3)] by simp
  have "1 \<le> ex_state_version r" using ok r(1) by (simp add: list_all_iff execution_row_ok_def)
  moreover have "get_execution (ex_id v) rows' = Some x"
    using find_distinct_key [of ex_id rows' x] dist keys r(2,7) xr by (simp add: get_execution_def)
  ultimately have "events' = events @ [e] \<and> ev_execution_id e = ex_id r
      \<and> ev_state_version e = ex_state_version r + 1 \<and> ev_status e = ex_status x"
    using append_event_Inr [OF ev] r(4) xr by (auto simp: int_or_def)
  with r xr show ?thesis by (intro bexI [OF _ r(1)]) auto
qed

text \<open>
  C16. What every reader of the executions may rely on, under every interleaving: a status
  valid for the profile, a version of at least one, a completion time exactly when the status
  is terminal, a start time once the execution left its initial states; and every write takes
  each execution along legal transitions, never lowers its version and keeps a terminal
  status.
\<close>

theorem execution_invariant_concurrent:
  assumes "interleaving ex_id execution_fresh execution_step rows views"
  shows "(\<forall>r \<in> set rows. is_terminal_execution_status (ex_profile r) (ex_status r) = Inr (ex_completed_at r \<noteq> None)
      \<and> 1 \<le> ex_state_version r \<and> (ex_status r \<notin> {''received'', ''queued''} \<longrightarrow> ex_started_at r \<noteq> None))
    \<and> (\<forall>v rows' r'. v \<in> set views \<and> execution_step v rows rows' \<and> r' \<in> set rows' \<longrightarrow>
        (\<exists>r \<in> set rows. ex_id r = ex_id r' \<and> ex_state_version r \<le> ex_state_version r'
           \<and> (ex_status r, ex_status r') \<in> execution_path (ex_profile r)
           \<and> (ex_completed_at r \<noteq> None \<longrightarrow> ex_status r' = ex_status r)))"
proof -
  have ok: "execution_row_ok r" if "r \<in> set rows" for r
    using executions.interleaving_inv [OF assms that] .
  have stay: "ex_status r' = ex_status r"
    if "(ex_status r, ex_status r') \<in> execution_path (ex_profile r)" "terminal_in (ex_profile r) (ex_status r)" for r r' :: execution_record
    using that unfolding execution_path_def terminal_in_def
    by (metis (mono_tags, lifting) case_prodD converse_rtranclE empty_iff empty_set mem_Collect_eq)
  have "is_terminal_execution_status (ex_profile r) (ex_status r) = Inr (ex_completed_at r \<noteq> None)"
    if "r \<in> set rows" for r
    using ok [OF that]
    by (simp add: execution_row_ok_def is_terminal_execution_status_def validate_execution_status_def terminal_in_def)
  moreover have "\<exists>r \<in> set rows. ex_id r = ex_id r' \<and> ex_state_version r \<le> ex_state_version r'
      \<and> (ex_status r, ex_status r') \<in> execution_path (ex_profile r)
      \<and> (ex_completed_at r \<noteq> None \<longrightarrow> ex_status r' = ex_status r)"
    if s: "v \<in> set views" "execution_step v rows rows'" "r' \<in> set rows'" for v rows' r'
  proof -
    obtain r where r: "r \<in> set rows" "execution_evolves r r'"
      using executions.interleaving_step [OF assms s] by blast
    then show ?thesis
      using ok [OF r(1)] stay [of r r'] execution_terms_eq [of r' r]
      by (intro bexI [OF _ r(1)]) (auto simp: execution_evolves_def execution_row_ok_def)
  qed
  ultimately show ?thesis using ok by (auto simp: execution_row_ok_def)
qed

definition demo_transition :: transition_args where
  "demo_transition = \<lparr>ta_expected_version = 1, ta_target_status = ''contextualizing'',
     ta_event_type = ''execution.status_changed'', ta_summary = ''Reading the meeting'', ta_phase = None,
     ta_payload = None, ta_result = None, ta_snapshot_id = None, ta_grant_id = None,
     ta_error_code = None, ta_error_message = None, ta_changed_at = None, ta_now = 7\<rparr>"

definition demo_contextualizing :: execution_record where
  "demo_contextualizing = transition_values demo_transition demo_execution ''contextualizing'' False demo_execution"

definition demo_events :: event_table where
  "demo_events = [demo_created, demo_created\<lparr>ev_id := 2, ev_state_version := 2,
     ev_event_type := ''execution.status_changed'', ev_phase := Some ''contextualizing'',
     ev_status := ''contextualizing'', ev_summary := ''Reading the meeting'', ev_created_at := 7\<rparr>]"

lemma demo_transition_ok:
  "transition_execution ''e1'' demo_transition (Some demo_execution) [demo_execution] [demo_created]
     = Inr ([demo_contextualizing], demo_events, demo_contextualizing)"
  by code_simp

lemma demo_execution_id: "ex_id demo_execution = ''e1''"
  by (simp add: demo_execution_def new_execution_key)

lemma demo_execution_interleaving:
  "interleaving ex_id execution_fresh execution_step [demo_execution] [demo_execution]"
proof -
  have "interleaving ex_id execution_fresh execution_step ([] @ [demo_execution]) []"
    by (intro interleaving.intros) (auto simp: execution_fresh_def demo_execution_def)
  then show ?thesis
    using interleaving.load [of ex_id execution_fresh execution_step "[demo_execution]" "[]"] by simp
qed

theorem execution_invariant_concurrent_witness:
  "interleaving ex_id execution_fresh execution_step [demo_contextualizing] [demo_execution]
   \<and> ex_started_at demo_contextualizing \<noteq> None"
proof -
  have i: "interleaving ex_id execution_fresh execution_step [demo_contextualizing] [demo_execution]"
  proof (rule interleaving.store [OF demo_execution_interleaving])
    show "execution_step demo_execution [demo_execution] [demo_contextualizing]"
      using execution_step.step_transition [of demo_execution] demo_transition_ok demo_execution_id by simp
  qed simp
  have "ex_status demo_contextualizing = ''contextualizing''"
    by (simp add: demo_contextualizing_def transition_values_def Let_def)
  with execution_invariant_concurrent [OF i] i show ?thesis by simp
qed

subsection \<open>Following the event stream\<close>

text \<open>
  A client follows a session by asking for the page after the last event it has seen. \<open>follow\<close>
  repeats this until a page is empty, with fuel for the number of pages.
\<close>

fun follow :: "nat \<Rightarrow> string \<Rightarrow> int \<Rightarrow> int \<Rightarrow> event_table \<Rightarrow> event_record list option" where
  "follow 0 sid after limit events = None"
| "follow (Suc fuel) sid after limit events =
     (let page = list_session_events sid after limit events in
      if page = [] then Some []
      else map_option (\<lambda>rest. page @ rest) (follow fuel sid (ev_id (last page)) limit events))"

definition pending :: "string \<Rightarrow> int \<Rightarrow> event_table \<Rightarrow> event_record list" where
  "pending sid after events = sort_key ev_id (filter (\<lambda>e. ev_session_id e = sid \<and> ev_id e > after) events)"

lemma sorted_le_last: "sorted (map f xs) \<Longrightarrow> x \<in> set xs \<Longrightarrow> f x \<le> f (last xs)"
  by (induction xs) auto

lemma filter_strictly_after:
  assumes "sorted (map f xs)" "distinct (map f xs)" "0 < n" "xs \<noteq> []"
  shows "filter (\<lambda>e. f e > f (last (take n xs))) xs = drop n xs"
proof -
  let ?a = "take n xs" and ?b = "drop n xs"
  have srt: "sorted (map f (?a @ ?b))" and dst: "distinct (map f (?a @ ?b))"
    using assms(1,2) by (simp_all only: append_take_drop_id)
  have l: "last ?a \<in> set ?a" using assms(3,4) by (intro last_in_set) simp
  have le: "\<not> f e > f (last ?a)" if "e \<in> set ?a" for e
    using srt sorted_le_last [of f ?a e] that unfolding map_append sorted_append by force
  have gt: "f e > f (last ?a)" if "e \<in> set ?b" for e
  proof -
    have "f (last ?a) \<le> f e"
      using srt l that unfolding map_append sorted_append by simp
    moreover have "f (last ?a) \<noteq> f e"
      using dst l that unfolding map_append distinct_append set_map by (metis disjoint_iff imageI)
    ultimately show ?thesis by simp
  qed
  have "filter (\<lambda>e. f e > f (last ?a)) (?a @ ?b) = ?b"
    unfolding filter_append using le gt by (simp add: filter_empty_conv)
  then show ?thesis by (simp only: append_take_drop_id)
qed

lemma pending_after:
  assumes "distinct (map ev_id events)" "0 < n" "pending sid after events \<noteq> []"
  shows "pending sid (ev_id (last (take n (pending sid after events)))) events = drop n (pending sid after events)"
proof -
  let ?p = "pending sid after events"
  define k where "k = ev_id (last (take n ?p))"
  have dst: "distinct (map ev_id ?p)"
    using assms(1) by (auto simp: pending_def distinct_map inj_on_def)
  have "last (take n ?p) \<in> set ?p"
    using assms(2,3) last_in_set [of "take n ?p"] in_set_takeD by fastforce
  then have "after < k" by (auto simp: pending_def k_def)
  then have "filter (\<lambda>e. ev_session_id e = sid \<and> k < ev_id e) events =
      filter (\<lambda>e. k < ev_id e) (filter (\<lambda>e. ev_session_id e = sid \<and> after < ev_id e) events)"
    unfolding filter_filter by (intro filter_cong) auto
  then have "pending sid k events = filter (\<lambda>e. ev_id e > k) ?p"
    by (simp add: pending_def filter_sort)
  also have "\<dots> = drop n ?p"
    unfolding k_def by (rule filter_strictly_after [OF _ dst assms(2,3)]) (simp add: pending_def)
  finally show ?thesis by (simp add: k_def)
qed

lemma follow_pending:
  assumes "distinct (map ev_id events)"
  shows "length (pending sid after events) < fuel \<Longrightarrow>
     follow fuel sid after limit events = Some (pending sid after events)"
proof (induction fuel arbitrary: after)
  case (Suc fuel)
  let ?p = "pending sid after events" and ?n = "nat (max 1 (min limit 100))"
  have n: "0 < ?n" by simp
  have page: "list_session_events sid after limit events = take ?n ?p"
    by (simp add: list_session_events_def pending_def Let_def)
  show ?case
  proof (cases "?p = []")
    case False
    have drop: "pending sid (ev_id (last (take ?n ?p))) events = drop ?n ?p"
      by (rule pending_after [OF assms n False])
    moreover have "length (drop ?n ?p) < fuel"
      using Suc.prems False n by (cases ?p) auto
    ultimately have "follow fuel sid (ev_id (last (take ?n ?p))) limit events = Some (drop ?n ?p)"
      using Suc.IH [of "ev_id (last (take ?n ?p))"] by simp
    moreover have "take ?n ?p \<noteq> []" using False n by simp
    ultimately show ?thesis by (simp only: follow.simps page Let_def if_False option.map append_take_drop_id)
  qed (simp add: page Let_def)
qed simp

text \<open>
  C17. Nothing is lost or repeated in the event stream: for every page limit (also zero, negative
  or huge ones) a client that follows a session from a cursor gets exactly the session's
  events after the cursor, each once, in the order of their ids, after at most one more page
  than there are such events.
\<close>

theorem event_paging_complete:
  assumes "distinct (map ev_id events)"
  shows "follow (Suc (length events)) sid after limit events =
     Some (sort_key ev_id (filter (\<lambda>e. ev_session_id e = sid \<and> ev_id e > after) events))"
  using follow_pending [OF assms, of sid after "Suc (length events)" limit]
  by (simp add: pending_def less_Suc_eq_le)

theorem event_paging_complete_witness:
  "follow 3 ''s'' 0 (-5) demo_events = Some demo_events"
proof -
  have d: "distinct (map ev_id demo_events)" by code_simp
  have "sort_key ev_id (filter (\<lambda>e. ev_session_id e = ''s'' \<and> ev_id e > 0) demo_events) = demo_events"
    by code_simp
  with event_paging_complete [OF d, of "''s''" 0 "-5"] show ?thesis
    by (simp add: demo_events_def numeral_3_eq_3)
qed

text \<open>Events are appended with fresh, growing ids.\<close>

lemma next_event_id_fresh: "e \<in> set events \<Longrightarrow> ev_id e < next_event_id events"
proof -
  have "(d :: int) \<le> fold max xs d \<and> (\<forall>x \<in> set xs. x \<le> fold max xs d)" for d xs
    by (induction xs arbitrary: d) (auto, (meson max.bounded_iff order_trans)+)
  then show "e \<in> set events \<Longrightarrow> ev_id e < next_event_id events"
    by (fastforce simp: next_event_id_def)
qed

end
