(* ===== verification/Tool_Calls.thy ===== *)
theory Tool_Calls
  imports Executions
begin

section \<open>Tool calls, external action claims and approvals\<close>

text \<open>
  Models the rest of \<open>AssistantRepository\<close>: tool calls, subagent runs, external action claims,
  action approvals, handoffs and client operations. As for executions, an operation takes the
  row its \<open>get\<close> returned and the table it writes to; a creation takes the table at the time of
  its lookup and the table it inserts into.
\<close>

subsection \<open>Rows\<close>

record tool_call_record =
  tc_id :: string
  tc_execution_id :: string
  tc_step_id :: "string option"
  tc_tool_name :: string
  tc_tool_version :: string
  tc_capability :: string
  tc_effect :: string
  tc_arguments :: payload
  tc_arguments_hash :: string
  tc_logical_action_key :: "string option"
  tc_idempotency_key :: "string option"
  tc_status :: string
  tc_external_reference :: "payload option"
  tc_result :: "payload option"
  tc_error_code :: "string option"
  tc_error_message :: "string option"
  tc_attempt_count :: int
  tc_created_at :: instant
  tc_updated_at :: instant
  tc_requested_at :: "instant option"
  tc_completed_at :: "instant option"

record subagent_run_record =
  sr_id :: string
  sr_execution_id :: string
  sr_planning_round :: int
  sr_role :: string
  sr_status :: string
  sr_snapshot_id :: "string option"
  sr_task :: payload
  sr_budget :: payload
  sr_result :: "payload option"
  sr_error_code :: "string option"
  sr_error_message :: "string option"
  sr_created_at :: instant
  sr_started_at :: "instant option"
  sr_completed_at :: "instant option"

record claim_record =
  cl_id :: string
  cl_provider :: string
  cl_capability :: string
  cl_logical_action_key :: string
  cl_holder_execution_id :: string
  cl_tool_call_id :: "string option"
  cl_status :: string
  cl_arguments_hash :: string
  cl_external_reference :: "payload option"
  cl_lease_expires_at :: instant
  cl_created_at :: instant
  cl_updated_at :: instant

record approval_record =
  ap_id :: string
  ap_execution_id :: string
  ap_session_id :: string
  ap_actor_id :: string
  ap_capability :: string
  ap_tool_name :: string
  ap_candidate_id :: "string option"
  ap_logical_action_key :: "string option"
  ap_resource_scope :: payload
  ap_arguments :: payload
  ap_evidence_refs :: "string list"
  ap_display_summary :: payload
  ap_status :: string
  ap_grant_id :: "string option"
  ap_expires_at :: instant
  ap_created_at :: instant
  ap_resolved_at :: "instant option"

record handoff_record =
  ho_id :: string
  ho_source_execution_id :: string
  ho_target_execution_id :: string
  ho_snapshot_id :: string
  ho_grant_id :: "string option"
  ho_envelope :: payload
  ho_created_at :: instant

record client_operation_record =
  co_id :: string
  co_execution_id :: string
  co_client_operation_id :: string
  co_kind :: string
  co_request_hash :: string
  co_response :: payload
  co_created_at :: instant

subsection \<open>Tool calls\<close>

record tool_call_args =
  tca_execution_id :: string
  tca_tool_name :: string
  tca_tool_version :: string
  tca_capability :: string
  tca_effect :: string
  tca_arguments :: payload
  tca_arguments_hash :: string
  tca_logical_action_key :: "string option"
  tca_idempotency_key :: "string option"
  tca_step_id :: "string option"
  tca_tool_call_id :: "string option"
  tca_created_at :: "instant option"
  tca_new_id :: string
  tca_now :: instant

definition new_tool_call :: "tool_call_args \<Rightarrow> tool_call_record" where
  "new_tool_call a =
     (let timestamp = or_else (tca_created_at a) (tca_now a) in
      \<lparr>tc_id = str_or (tca_tool_call_id a) (tca_new_id a), tc_execution_id = tca_execution_id a,
       tc_step_id = tca_step_id a, tc_tool_name = tca_tool_name a, tc_tool_version = tca_tool_version a,
       tc_capability = tca_capability a, tc_effect = tca_effect a, tc_arguments = tca_arguments a,
       tc_arguments_hash = tca_arguments_hash a, tc_logical_action_key = tca_logical_action_key a,
       tc_idempotency_key = tca_idempotency_key a, tc_status = ''prepared'',
       tc_external_reference = None, tc_result = None, tc_error_code = None, tc_error_message = None,
       tc_attempt_count = 0, tc_created_at = timestamp, tc_updated_at = timestamp,
       tc_requested_at = None, tc_completed_at = None\<rparr>)"

definition prepare_tool_call ::
  "execution_table \<Rightarrow> tool_call_args \<Rightarrow> tool_call_record list \<Rightarrow> tool_call_record list
   \<Rightarrow> (tool_call_record list \<times> tool_call_record \<times> bool) res" where
  "prepare_tool_call executions a rows0 rows =
     rbind (require_digest (tca_arguments_hash a) ''arguments_hash'') (\<lambda>_.
     rbind (get_execution_required (tca_execution_id a) executions) (\<lambda>_.
       get_or_insert tc_id
         (\<lambda>r. tca_idempotency_key a \<noteq> None \<and> tc_idempotency_key r = tca_idempotency_key a)
         (\<lambda>r. tc_arguments_hash r = tca_arguments_hash a)
         (AssistantIdempotencyConflict ''idempotency key is already bound to different arguments'')
         (new_tool_call a) rows0 rows))"

definition get_tool_call :: "string \<Rightarrow> tool_call_record list \<Rightarrow> tool_call_record option" where
  "get_tool_call tool_call_id rows = find_row (\<lambda>r. tc_id r = tool_call_id) rows"

definition get_tool_call_by_idempotency_key ::
  "string \<Rightarrow> tool_call_record list \<Rightarrow> tool_call_record option" where
  "get_tool_call_by_idempotency_key k rows = find_row (\<lambda>r. tc_idempotency_key r = Some k) rows"

definition list_tool_calls ::
  "string \<Rightarrow> string list option \<Rightarrow> string option \<Rightarrow> int option \<Rightarrow> int \<Rightarrow> tool_call_record list
   \<Rightarrow> tool_call_record list res" where
  "list_tool_calls execution_id statuses effect limit offset rows =
     (let found = sort_key (\<lambda>r. (tc_created_at r, tc_id r)) (filter (\<lambda>r. tc_execution_id r = execution_id
            \<and> (case statuses of None \<Rightarrow> True | Some s \<Rightarrow> tc_status r \<in> set s)
            \<and> (case effect of None \<Rightarrow> True | Some e \<Rightarrow> tc_effect r = e)) rows)
      in case limit of
           None \<Rightarrow> Inr found
         | Some n \<Rightarrow>
             if \<not> (1 \<le> n \<and> n \<le> 101) \<or> offset < 0 then Inl (ValueError ''invalid tool-call page'')
             else Inr (take (nat n) (drop (nat offset) found)))"

definition tool_call_missing :: "string \<Rightarrow> py_error" where
  "tool_call_missing i = LookupError (''Assistant ToolCall not found: '' @ i)"

definition replace_prepared_tool_call_arguments ::
  "string \<Rightarrow> string \<Rightarrow> string \<Rightarrow> payload \<Rightarrow> string \<Rightarrow> instant option \<Rightarrow> instant \<Rightarrow> tool_call_record list
   \<Rightarrow> (tool_call_record list \<times> tool_call_record) res" where
  "replace_prepared_tool_call_arguments tool_call_id execution_id expected_arguments_hash arguments
     arguments_hash changed_at now rows =
     rbind (require_digest expected_arguments_hash ''expected_arguments_hash'') (\<lambda>_.
     rbind (require_digest arguments_hash ''arguments_hash'') (\<lambda>_.
       cas_update tc_id tool_call_id
         (\<lambda>r. tc_execution_id r = execution_id \<and> tc_status r = ''prepared''
              \<and> tc_arguments_hash r = expected_arguments_hash)
         (\<lambda>r. r\<lparr>tc_arguments := arguments, tc_arguments_hash := arguments_hash,
                tc_updated_at := or_else changed_at now\<rparr>)
         (AssistantStateConflict ''prepared ToolCall changed before its arguments were replaced'')
         (tool_call_missing tool_call_id) rows))"

definition payload_eq :: "payload \<Rightarrow> payload option \<Rightarrow> bool" where
  "payload_eq p q = (case q of None \<Rightarrow> False | Some q' \<Rightarrow> json_eq (JObj p) (JObj q'))"

definition same_or_none :: "'a option \<Rightarrow> 'a option \<Rightarrow> bool" where
  "same_or_none v stored \<longleftrightarrow> v = None \<or> v = stored"

definition keep_or :: "'a option \<Rightarrow> 'a option \<Rightarrow> 'a option" where
  "keep_or v stored = (case v of None \<Rightarrow> stored | Some x \<Rightarrow> Some x)"

record tool_update_args =
  tu_expected_status :: "string option"
  tu_status :: string
  tu_result :: "payload option"
  tu_external_reference :: "payload option"
  tu_error_code :: "string option"
  tu_error_message :: "string option"
  tu_increment_attempt :: bool
  tu_changed_at :: "instant option"
  tu_now :: instant

definition tool_call_unchanged :: "tool_update_args \<Rightarrow> string \<Rightarrow> tool_call_record \<Rightarrow> bool" where
  "tool_call_unchanged a next_status record \<longleftrightarrow>
     next_status = tc_status record \<and> \<not> tu_increment_attempt a
     \<and> (case tu_result a of None \<Rightarrow> True | Some p \<Rightarrow> payload_eq p (tc_result record))
     \<and> (case tu_external_reference a of None \<Rightarrow> True | Some p \<Rightarrow> payload_eq p (tc_external_reference record))
     \<and> same_or_none (tu_error_code a) (tc_error_code record)
     \<and> same_or_none (tu_error_message a) (tc_error_message record)"

definition tool_call_values ::
  "tool_update_args \<Rightarrow> string \<Rightarrow> tool_call_record \<Rightarrow> tool_call_record \<Rightarrow> tool_call_record" where
  "tool_call_values a next_status seen r =
     (let timestamp = or_else (tu_changed_at a) (tu_now a) in
      r\<lparr>tc_status := next_status, tc_result := keep_or (tu_result a) (tc_result seen),
        tc_external_reference := keep_or (tu_external_reference a) (tc_external_reference seen),
        tc_error_code := keep_or (tu_error_code a) (tc_error_code seen),
        tc_error_message := keep_or (tu_error_message a) (tc_error_message seen),
        tc_attempt_count := tc_attempt_count seen + (if tu_increment_attempt a then 1 else 0),
        tc_requested_at := (if next_status = ''requesting'' \<and> tc_requested_at seen = None
                            then Some timestamp else tc_requested_at seen),
        tc_completed_at := (if next_status \<in> {''succeeded'', ''failed''} then Some timestamp
                            else tc_completed_at seen),
        tc_updated_at := timestamp\<rparr>)"

definition update_tool_call ::
  "string \<Rightarrow> tool_update_args \<Rightarrow> tool_call_record option \<Rightarrow> tool_call_record list
   \<Rightarrow> (tool_call_record list \<times> tool_call_record) res" where
  "update_tool_call tool_call_id a seen rows =
     (case seen of
        None \<Rightarrow> Inl (tool_call_missing tool_call_id)
      | Some record \<Rightarrow>
          if tu_expected_status a \<noteq> None \<and> tu_expected_status a \<noteq> Some (tc_status record)
          then Inl (AssistantStateConflict (''ToolCall no longer has status '' @ or_else (tu_expected_status a) []))
          else
            rbind (transition_tool_call_status (tc_status record) (tu_status a)) (\<lambda>next_status.
              if tc_status record \<in> {''succeeded'', ''failed''}
              then if tool_call_unchanged a next_status record then Inr (rows, record)
                   else Inl (AssistantStateConflict ''terminal ToolCall cannot be changed'')
              else cas_update tc_id tool_call_id (\<lambda>r. tc_status r = tc_status record)
                (tool_call_values a next_status record)
                (AssistantStateConflict ''ToolCall changed concurrently'')
                (tool_call_missing tool_call_id) rows))"

subsection \<open>Subagent runs\<close>

definition create_subagent_run ::
  "string \<Rightarrow> int \<Rightarrow> string \<Rightarrow> payload \<Rightarrow> payload \<Rightarrow> string option \<Rightarrow> string option \<Rightarrow> instant option
   \<Rightarrow> string \<Rightarrow> instant \<Rightarrow> execution_table \<Rightarrow> subagent_run_record list
   \<Rightarrow> (subagent_run_record list \<times> subagent_run_record) res" where
  "create_subagent_run execution_id planning_round role task budget snapshot_id subagent_run_id
     created_at new_id now executions rows =
     (if planning_round < 1 then Inl (ValueError ''planning_round must be positive'')
      else rbind (get_execution_required execution_id executions) (\<lambda>_.
        if (execution_id, planning_round, role)
             \<in> set (map (\<lambda>r. (sr_execution_id r, sr_planning_round r, sr_role r)) rows)
        then Inl integrity_error
        else insert_row sr_id
          \<lparr>sr_id = str_or subagent_run_id new_id, sr_execution_id = execution_id,
           sr_planning_round = planning_round, sr_role = role, sr_status = ''queued'',
           sr_snapshot_id = snapshot_id, sr_task = task, sr_budget = budget, sr_result = None,
           sr_error_code = None, sr_error_message = None, sr_created_at = or_else created_at now,
           sr_started_at = None, sr_completed_at = None\<rparr> rows))"

definition subagent_missing :: "string \<Rightarrow> py_error" where
  "subagent_missing i = LookupError (''Assistant Subagent run not found: '' @ i)"

definition transition_subagent_run ::
  "string \<Rightarrow> string option \<Rightarrow> string \<Rightarrow> payload option \<Rightarrow> string option \<Rightarrow> string option
   \<Rightarrow> instant option \<Rightarrow> instant \<Rightarrow> subagent_run_record option \<Rightarrow> subagent_run_record list
   \<Rightarrow> (subagent_run_record list \<times> subagent_run_record) res" where
  "transition_subagent_run subagent_run_id expected_status status result error_code error_message
     changed_at now seen rows =
     (case seen of
        None \<Rightarrow> Inl (subagent_missing subagent_run_id)
      | Some record \<Rightarrow>
          if expected_status \<noteq> None \<and> expected_status \<noteq> Some (sr_status record)
          then Inl (AssistantStateConflict (''Subagent no longer has status '' @ or_else expected_status []))
          else
            rbind (transition_subagent_status (sr_status record) status) (\<lambda>next_status.
              if sr_status record \<in> {''completed'', ''failed'', ''cancelled''}
              then if next_status = sr_status record
                     \<and> (case result of None \<Rightarrow> True | Some p \<Rightarrow> payload_eq p (sr_result record))
                     \<and> same_or_none error_code (sr_error_code record)
                     \<and> same_or_none error_message (sr_error_message record)
                   then Inr (rows, record)
                   else Inl (AssistantStateConflict ''terminal Subagent cannot be changed'')
              else let timestamp = or_else changed_at now in
                cas_update sr_id subagent_run_id (\<lambda>r. sr_status r = sr_status record)
                  (\<lambda>r. r\<lparr>sr_status := next_status, sr_result := keep_or result (sr_result record),
                         sr_error_code := error_code, sr_error_message := error_message,
                         sr_started_at := (if next_status = ''running'' \<and> sr_started_at record = None
                                           then Some timestamp else sr_started_at record),
                         sr_completed_at := (if next_status \<in> {''completed'', ''failed'', ''cancelled''}
                                             then Some timestamp else sr_completed_at record)\<rparr>)
                  (AssistantStateConflict ''Subagent changed concurrently'')
                  (subagent_missing subagent_run_id) rows))"

definition list_subagent_runs ::
  "string \<Rightarrow> int option \<Rightarrow> subagent_run_record list \<Rightarrow> subagent_run_record list" where
  "list_subagent_runs execution_id planning_round rows =
     sort_key (\<lambda>r. (sr_planning_round r, sr_role r)) (filter (\<lambda>r. sr_execution_id r = execution_id
        \<and> (case planning_round of None \<Rightarrow> True | Some n \<Rightarrow> sr_planning_round r = n)) rows)"

definition get_subagent_run :: "string \<Rightarrow> subagent_run_record list \<Rightarrow> subagent_run_record option" where
  "get_subagent_run i rows = find_row (\<lambda>r. sr_id r = i) rows"

subsection \<open>External action claims\<close>

record claim_args =
  cla_provider :: string
  cla_capability :: string
  cla_logical_action_key :: string
  cla_holder_execution_id :: string
  cla_arguments_hash :: string
  cla_lease_expires_at :: instant
  cla_tool_call_id :: "string option"
  cla_claim_id :: "string option"
  cla_created_at :: "instant option"
  cla_new_id :: string
  cla_now :: instant

definition claim_matches :: "string \<Rightarrow> string \<Rightarrow> string \<Rightarrow> claim_record \<Rightarrow> bool" where
  "claim_matches provider capability logical_action_key r \<longleftrightarrow>
     cl_provider r = provider \<and> cl_capability r = capability \<and> cl_logical_action_key r = logical_action_key"

definition observe_external_action_claim ::
  "string \<Rightarrow> string \<Rightarrow> string \<Rightarrow> claim_record list \<Rightarrow> claim_record option" where
  "observe_external_action_claim provider capability logical_action_key rows =
     find_row (claim_matches provider capability logical_action_key) rows"

definition new_claim :: "claim_args \<Rightarrow> claim_record" where
  "new_claim a =
     (let timestamp = or_else (cla_created_at a) (cla_now a) in
      \<lparr>cl_id = str_or (cla_claim_id a) (cla_new_id a), cl_provider = cla_provider a,
       cl_capability = cla_capability a, cl_logical_action_key = cla_logical_action_key a,
       cl_holder_execution_id = cla_holder_execution_id a, cl_tool_call_id = cla_tool_call_id a,
       cl_status = ''reserved'', cl_arguments_hash = cla_arguments_hash a,
       cl_external_reference = None, cl_lease_expires_at = cla_lease_expires_at a,
       cl_created_at = timestamp, cl_updated_at = timestamp\<rparr>)"

definition reserve_external_action_claim ::
  "execution_table \<Rightarrow> claim_args \<Rightarrow> claim_record list \<Rightarrow> claim_record list
   \<Rightarrow> (claim_record list \<times> claim_record \<times> bool) res" where
  "reserve_external_action_claim executions a rows0 rows =
     rbind (require_digest (cla_arguments_hash a) ''arguments_hash'') (\<lambda>_.
     rbind (get_execution_required (cla_holder_execution_id a) executions) (\<lambda>_.
       get_or_insert cl_id
         (claim_matches (cla_provider a) (cla_capability a) (cla_logical_action_key a))
         (\<lambda>r. cl_arguments_hash r = cla_arguments_hash a)
         (AssistantIdempotencyConflict ''logical action key is already bound to different arguments'')
         (new_claim a) rows0 rows))"

definition list_external_action_claims ::
  "string list option \<Rightarrow> claim_record list \<Rightarrow> claim_record list" where
  "list_external_action_claims statuses rows =
     sort_key (\<lambda>r. (cl_created_at r, cl_id r))
       (filter (\<lambda>r. case statuses of None \<Rightarrow> True | Some s \<Rightarrow> cl_status r \<in> set s) rows)"

definition claim_missing :: "string \<Rightarrow> py_error" where
  "claim_missing i = LookupError (''External action claim not found: '' @ i)"

definition replace_reserved_claim_arguments ::
  "string \<Rightarrow> string \<Rightarrow> string \<Rightarrow> string \<Rightarrow> string \<Rightarrow> instant option \<Rightarrow> instant \<Rightarrow> claim_record list
   \<Rightarrow> (claim_record list \<times> claim_record) res" where
  "replace_reserved_claim_arguments claim_id holder_execution_id tool_call_id expected_arguments_hash
     arguments_hash changed_at now rows =
     rbind (require_digest expected_arguments_hash ''expected_arguments_hash'') (\<lambda>_.
     rbind (require_digest arguments_hash ''arguments_hash'') (\<lambda>_.
       cas_update cl_id claim_id
         (\<lambda>r. cl_holder_execution_id r = holder_execution_id \<and> cl_tool_call_id r = Some tool_call_id
              \<and> cl_status r = ''reserved'' \<and> cl_arguments_hash r = expected_arguments_hash)
         (\<lambda>r. r\<lparr>cl_arguments_hash := arguments_hash, cl_updated_at := or_else changed_at now\<rparr>)
         (AssistantStateConflict
            ''reserved external action claim changed before its arguments were replaced'')
         (claim_missing claim_id) rows))"

record claim_transition_args =
  ct_holder_execution_id :: string
  ct_expected_status :: string
  ct_target_status :: string
  ct_arguments_hash :: "string option"
  ct_external_reference :: "payload option"
  ct_lease_expires_at :: "instant option"
  ct_changed_at :: "instant option"
  ct_now :: instant

definition claim_values ::
  "claim_transition_args \<Rightarrow> string \<Rightarrow> string \<Rightarrow> claim_record \<Rightarrow> claim_record \<Rightarrow> claim_record" where
  "claim_values a next_status next_hash seen r =
     r\<lparr>cl_status := next_status, cl_arguments_hash := next_hash,
       cl_external_reference := keep_or (ct_external_reference a) (cl_external_reference seen),
       cl_lease_expires_at := or_else (ct_lease_expires_at a) (cl_lease_expires_at seen),
       cl_updated_at := or_else (ct_changed_at a) (ct_now a)\<rparr>"

definition transition_claim ::
  "string \<Rightarrow> claim_transition_args \<Rightarrow> claim_record option \<Rightarrow> claim_record list
   \<Rightarrow> (claim_record list \<times> claim_record) res" where
  "transition_claim claim_id a seen rows =
     (case seen of
        None \<Rightarrow> Inl (claim_missing claim_id)
      | Some record \<Rightarrow>
          if cl_holder_execution_id record \<noteq> ct_holder_execution_id a
          then Inl (AssistantStateConflict ''execution does not hold this claim'')
          else if cl_status record \<noteq> ct_expected_status a
          then Inl (AssistantStateConflict (''claim no longer has status '' @ ct_expected_status a))
          else
            rbind (transition_external_action_claim (ct_expected_status a) (ct_target_status a)) (\<lambda>next_status.
            let next_hash = str_or (ct_arguments_hash a) (cl_arguments_hash record) in
            rbind (require_digest next_hash ''arguments_hash'') (\<lambda>_.
              if ct_expected_status a \<noteq> ''reserved'' \<and> next_hash \<noteq> cl_arguments_hash record
              then Inl (AssistantIdempotencyConflict ''claim arguments cannot change after requesting'')
              else cas_update cl_id claim_id
                (\<lambda>r. cl_holder_execution_id r = ct_holder_execution_id a \<and> cl_status r = ct_expected_status a)
                (claim_values a next_status next_hash record)
                (AssistantStateConflict ''external action claim changed'')
                (claim_missing claim_id) rows)))"

definition reconcile_external_action_claim ::
  "string \<Rightarrow> string \<Rightarrow> bool \<Rightarrow> payload option \<Rightarrow> instant option \<Rightarrow> instant \<Rightarrow> claim_record option
   \<Rightarrow> claim_record list \<Rightarrow> (claim_record list \<times> claim_record) res" where
  "reconcile_external_action_claim claim_id holder succeeded external_reference changed_at now seen rows =
     transition_claim claim_id
       \<lparr>ct_holder_execution_id = holder, ct_expected_status = ''unknown'',
        ct_target_status = (if succeeded then ''succeeded'' else ''failed_safe''),
        ct_arguments_hash = None, ct_external_reference = external_reference,
        ct_lease_expires_at = None, ct_changed_at = changed_at, ct_now = now\<rparr> seen rows"

subsection \<open>Approvals\<close>

definition get_action_approval :: "string \<Rightarrow> approval_record list \<Rightarrow> approval_record option" where
  "get_action_approval approval_id rows = find_row (\<lambda>r. ap_id r = approval_id) rows"

definition get_pending_action_approval :: "string \<Rightarrow> approval_record list \<Rightarrow> approval_record option" where
  "get_pending_action_approval execution_id rows =
     find_row (\<lambda>r. ap_execution_id r = execution_id \<and> ap_status r = ''pending'') rows"

definition setdefault :: "('k, 'v) dict \<Rightarrow> 'k \<Rightarrow> 'v \<Rightarrow> ('k, 'v) dict" where
  "setdefault d k v = (if dict_has d k then d else dict_set d k v)"

definition list_latest_action_approvals ::
  "string list \<Rightarrow> approval_record list \<Rightarrow> (string, approval_record) dict" where
  "list_latest_action_approvals execution_ids rows =
     (if execution_ids = [] then []
      else fold (\<lambda>r latest. setdefault latest (ap_execution_id r) r)
        (rev (sort_key (\<lambda>r. (ap_created_at r, ap_id r))
           (filter (\<lambda>r. ap_execution_id r \<in> set execution_ids) rows))) [])"

text \<open>
  The partial unique index allows one pending approval per execution. \<open>rows0\<close> is the table at
  the time of the lookup.
\<close>

definition create_pending_action_approval ::
  "string \<Rightarrow> string \<Rightarrow> string \<Rightarrow> string \<Rightarrow> string \<Rightarrow> string option \<Rightarrow> string option \<Rightarrow> payload
   \<Rightarrow> payload \<Rightarrow> string list \<Rightarrow> payload \<Rightarrow> instant \<Rightarrow> string option \<Rightarrow> instant option \<Rightarrow> string
   \<Rightarrow> instant \<Rightarrow> approval_record list \<Rightarrow> approval_record list
   \<Rightarrow> (approval_record list \<times> approval_record) res" where
  "create_pending_action_approval execution_id session_id actor_id capability tool_name candidate_id
     logical_action_key resource_scope arguments evidence_refs display_summary expires_at approval_id
     created_at new_id now rows0 rows =
     (case get_pending_action_approval execution_id rows0 of
        Some existing \<Rightarrow> Inr (rows, existing)
      | None \<Rightarrow>
          if get_pending_action_approval execution_id rows \<noteq> None then Inl integrity_error
          else insert_row ap_id
            \<lparr>ap_id = str_or approval_id new_id, ap_execution_id = execution_id,
             ap_session_id = session_id, ap_actor_id = actor_id, ap_capability = capability,
             ap_tool_name = tool_name, ap_candidate_id = candidate_id,
             ap_logical_action_key = logical_action_key, ap_resource_scope = resource_scope,
             ap_arguments = arguments, ap_evidence_refs = fromkeys evidence_refs,
             ap_display_summary = display_summary, ap_status = ''pending'', ap_grant_id = None,
             ap_expires_at = expires_at, ap_created_at = or_else created_at now,
             ap_resolved_at = None\<rparr> rows)"

definition approval_missing :: "string \<Rightarrow> py_error" where
  "approval_missing i = LookupError (''Action approval not found: '' @ i)"

definition resolve_action_approval ::
  "string \<Rightarrow> string \<Rightarrow> string option \<Rightarrow> instant option \<Rightarrow> instant \<Rightarrow> approval_record option
   \<Rightarrow> approval_record list \<Rightarrow> (approval_record list \<times> approval_record) res" where
  "resolve_action_approval approval_id target_status grant_id resolved_at now seen rows =
     (if target_status \<notin> {''approved'', ''rejected'', ''expired''}
      then Inl (ValueError (''invalid approval status: '' @ target_status))
      else case seen of
          None \<Rightarrow> Inl (approval_missing approval_id)
        | Some record \<Rightarrow>
            if ap_status record = target_status then Inr (rows, record)
            else if rowcount (\<lambda>r. ap_id r = approval_id \<and> ap_status r = ''pending'') rows \<noteq> 1
            then (case get_action_approval approval_id rows of
                    None \<Rightarrow> Inl (approval_missing approval_id)
                  | Some latest \<Rightarrow>
                      if ap_status latest = target_status then Inr (rows, latest)
                      else Inl (AssistantStateConflict
                             (''Action approval '' @ approval_id @ '' is '' @ ap_status latest)))
            else cas_update ap_id approval_id (\<lambda>r. ap_status r = ''pending'')
              (\<lambda>r. r\<lparr>ap_status := target_status, ap_resolved_at := Some (or_else resolved_at now),
                     ap_grant_id := keep_or grant_id (ap_grant_id r)\<rparr>)
              (approval_missing approval_id) (approval_missing approval_id) rows)"

subsection \<open>Handoffs and client operations\<close>

record handoff_envelope =
  he_handoff_id :: string
  he_parent_execution_id :: string
  he_target_execution_id :: string
  he_session_id :: string
  he_goal :: string
  he_grant_id :: "string option"
  he_context_snapshot_id :: string
  he_meeting_state_version :: int
  he_evidence_refs :: "string list"
  he_completed_steps :: "payload list"
  he_observations :: "payload list"
  he_unresolved_conflicts :: "payload list"
  he_candidate_plan :: payload
  he_remaining_budget :: payload
  he_idempotency_scope :: string

definition envelope_dump :: "handoff_envelope \<Rightarrow> payload" where
  "envelope_dump e =
     [(''handoff_id'', JStr (he_handoff_id e)), (''parent_execution_id'', JStr (he_parent_execution_id e)),
      (''target_execution_id'', JStr (he_target_execution_id e)), (''session_id'', JStr (he_session_id e)),
      (''goal'', JStr (he_goal e)),
      (''grant_id'', case he_grant_id e of None \<Rightarrow> JNull | Some g \<Rightarrow> JStr g),
      (''context_snapshot_id'', JStr (he_context_snapshot_id e)),
      (''meeting_state_version'', JNum (of_int (he_meeting_state_version e))),
      (''evidence_refs'', JArr (map JStr (he_evidence_refs e))),
      (''completed_steps'', JArr (map JObj (he_completed_steps e))),
      (''observations'', JArr (map JObj (he_observations e))),
      (''unresolved_conflicts'', JArr (map JObj (he_unresolved_conflicts e))),
      (''candidate_plan'', JObj (he_candidate_plan e)),
      (''remaining_budget'', JObj (he_remaining_budget e)),
      (''idempotency_scope'', JStr (he_idempotency_scope e))]"

definition create_handoff ::
  "handoff_envelope \<Rightarrow> instant option \<Rightarrow> instant \<Rightarrow> handoff_record list
   \<Rightarrow> (handoff_record list \<times> handoff_record) res" where
  "create_handoff envelope created_at now rows =
     (case find_row (\<lambda>r. ho_source_execution_id r = he_parent_execution_id envelope) rows of
        Some existing \<Rightarrow>
          if ho_target_execution_id existing \<noteq> he_target_execution_id envelope
          then Inl (AssistantIdempotencyConflict ''source execution is already handed off to another target'')
          else Inr (rows, existing)
      | None \<Rightarrow>
          if he_target_execution_id envelope \<in> set (map ho_target_execution_id rows)
          then Inl integrity_error
          else insert_row ho_id
            \<lparr>ho_id = he_handoff_id envelope, ho_source_execution_id = he_parent_execution_id envelope,
             ho_target_execution_id = he_target_execution_id envelope,
             ho_snapshot_id = he_context_snapshot_id envelope, ho_grant_id = he_grant_id envelope,
             ho_envelope = envelope_dump envelope, ho_created_at = or_else created_at now\<rparr> rows)"

definition get_handoff_by_source :: "string \<Rightarrow> handoff_record list \<Rightarrow> handoff_record option" where
  "get_handoff_by_source i rows = find_row (\<lambda>r. ho_source_execution_id r = i) rows"

record client_operation_args =
  coa_execution_id :: string
  coa_client_operation_id :: string
  coa_kind :: string
  coa_request_hash :: string
  coa_response :: payload
  coa_created_at :: "instant option"
  coa_new_id :: string
  coa_now :: instant

definition operation_matches :: "client_operation_args \<Rightarrow> client_operation_record \<Rightarrow> bool" where
  "operation_matches a r \<longleftrightarrow> co_execution_id r = coa_execution_id a
     \<and> co_client_operation_id r = coa_client_operation_id a"

definition record_client_operation ::
  "client_operation_args \<Rightarrow> client_operation_record list \<Rightarrow> client_operation_record list
   \<Rightarrow> (client_operation_record list \<times> client_operation_record \<times> bool) res" where
  "record_client_operation a rows0 rows =
     rbind (require_digest (coa_request_hash a) ''request_hash'') (\<lambda>_.
       get_or_insert co_id (operation_matches a)
         (\<lambda>r. co_request_hash r = coa_request_hash a \<and> co_kind r = coa_kind a)
         (AssistantIdempotencyConflict ''client operation ID is bound to another request'')
         \<lparr>co_id = coa_new_id a, co_execution_id = coa_execution_id a,
          co_client_operation_id = coa_client_operation_id a, co_kind = coa_kind a,
          co_request_hash = coa_request_hash a, co_response = coa_response a,
          co_created_at = or_else (coa_created_at a) (coa_now a)\<rparr> rows0 rows)"

definition get_client_operation ::
  "string \<Rightarrow> string \<Rightarrow> client_operation_record list \<Rightarrow> client_operation_record option" where
  "get_client_operation execution_id client_operation_id rows =
     find_row (\<lambda>r. co_execution_id r = execution_id \<and> co_client_operation_id r = client_operation_id) rows"

subsection \<open>Creations are idempotent\<close>

definition tool_call_args_key :: "tool_call_args \<Rightarrow> string option" where
  "tool_call_args_key a = tca_idempotency_key a"

definition claim_key :: "claim_record \<Rightarrow> (string \<times> string \<times> string) option" where
  "claim_key r = Some (cl_provider r, cl_capability r, cl_logical_action_key r)"

definition claim_args_key :: "claim_args \<Rightarrow> (string \<times> string \<times> string) option" where
  "claim_args_key a = Some (cla_provider a, cla_capability a, cla_logical_action_key a)"

definition operation_key :: "client_operation_record \<Rightarrow> (string \<times> string) option" where
  "operation_key r = Some (co_execution_id r, co_client_operation_id r)"

definition operation_args_key :: "client_operation_args \<Rightarrow> (string \<times> string) option" where
  "operation_args_key a = Some (coa_execution_id a, coa_client_operation_id a)"

interpretation tool_calls: idempotent_insert tc_id tc_idempotency_key "\<lambda>a. tool_call_args_key (snd a)"
  "\<lambda>a. prepare_tool_call (fst a) (snd a)"
proof
  show "rows' = rows \<and> (x \<in> set rows0 \<or> x \<in> set rows) \<and> tool_call_args_key (snd a) \<noteq> None
      \<and> tc_idempotency_key x = tool_call_args_key (snd a)"
    if "prepare_tool_call (fst a) (snd a) rows0 rows = Inr (rows', x, False)" for a rows0 rows rows' x
    using that by (auto simp: prepare_tool_call_def rbind_eq_Inr tool_call_args_key_def
        dest!: get_or_insert_existing)
  show "rows' = rows @ [x] \<and> tc_idempotency_key x = tool_call_args_key (snd a) \<and> tc_id x \<notin> tc_id ` set rows
      \<and> (tool_call_args_key (snd a) \<noteq> None \<longrightarrow> tool_call_args_key (snd a) \<notin> tc_idempotency_key ` set rows)"
    if "prepare_tool_call (fst a) (snd a) rows0 rows = Inr (rows', x, True)" for a rows0 rows rows' x
    using that by (auto simp: prepare_tool_call_def rbind_eq_Inr tool_call_args_key_def new_tool_call_def Let_def
        dest!: get_or_insert_created)
qed

interpretation claims: idempotent_insert cl_id claim_key "\<lambda>a. claim_args_key (snd a)"
  "\<lambda>a. reserve_external_action_claim (fst a) (snd a)"
proof
  show "rows' = rows \<and> (x \<in> set rows0 \<or> x \<in> set rows) \<and> claim_args_key (snd a) \<noteq> None
      \<and> claim_key x = claim_args_key (snd a)"
    if "reserve_external_action_claim (fst a) (snd a) rows0 rows = Inr (rows', x, False)" for a rows0 rows rows' x
    using that by (auto simp: reserve_external_action_claim_def rbind_eq_Inr claim_args_key_def
        claim_key_def claim_matches_def dest!: get_or_insert_existing)
  show "rows' = rows @ [x] \<and> claim_key x = claim_args_key (snd a) \<and> cl_id x \<notin> cl_id ` set rows
      \<and> (claim_args_key (snd a) \<noteq> None \<longrightarrow> claim_args_key (snd a) \<notin> claim_key ` set rows)"
    if "reserve_external_action_claim (fst a) (snd a) rows0 rows = Inr (rows', x, True)" for a rows0 rows rows' x
    using that by (auto simp: reserve_external_action_claim_def rbind_eq_Inr claim_args_key_def
        claim_key_def claim_matches_def new_claim_def Let_def dest!: get_or_insert_created)
qed

interpretation operations: idempotent_insert co_id operation_key operation_args_key record_client_operation
proof
  show "rows' = rows \<and> (x \<in> set rows0 \<or> x \<in> set rows) \<and> operation_args_key a \<noteq> None
      \<and> operation_key x = operation_args_key a"
    if "record_client_operation a rows0 rows = Inr (rows', x, False)" for a rows0 rows rows' x
    using that by (auto simp: record_client_operation_def rbind_eq_Inr operation_args_key_def
        operation_key_def operation_matches_def dest!: get_or_insert_existing)
  show "rows' = rows @ [x] \<and> operation_key x = operation_args_key a \<and> co_id x \<notin> co_id ` set rows
      \<and> (operation_args_key a \<noteq> None \<longrightarrow> operation_args_key a \<notin> operation_key ` set rows)"
    if "record_client_operation a rows0 rows = Inr (rows', x, True)" for a rows0 rows rows' x
    using that by (auto simp: record_client_operation_def rbind_eq_Inr operation_args_key_def
        operation_key_def operation_matches_def dest!: get_or_insert_created)
qed

text \<open>
  C18. An external action is claimed once: if two executions reserve the same logical action
  of a provider, in any order and in any race between their lookups and insertions, the
  second one gets the claim of the first, no second claim is stored, and both asked for the
  arguments the claim it was answered with is bound to.
\<close>

theorem external_action_claimed_once:
  assumes "reserve_external_action_claim exs a rows0 rows1 = Inr (rows1', x, b)"
    and "extends cl_id claim_key rows0 rows1" and "extends cl_id claim_key rows1' rows2"
    and "unique_keys cl_id claim_key rows2"
    and "reserve_external_action_claim exs' a' rows0' rows2 = Inr (rows2', y, c)"
    and "extends cl_id claim_key rows0' rows2"
    and "cla_provider a' = cla_provider a" "cla_capability a' = cla_capability a"
      "cla_logical_action_key a' = cla_logical_action_key a"
  shows "cl_id y = cl_id x \<and> rows2' = rows2 \<and> \<not> c
    \<and> cl_arguments_hash x = cla_arguments_hash a \<and> cl_arguments_hash y = cla_arguments_hash a'"
proof -
  have "cl_id y = cl_id x \<and> \<not> c \<and> rows2' = rows2"
    by (rule claims.create_retry [where a = "(exs, a)" and a' = "(exs', a')",
        unfolded fst_conv snd_conv, OF assms(1-3,4,5,6)])
      (use assms(7-9) in \<open>auto simp: claim_args_key_def\<close>)
  moreover have "cl_arguments_hash z = cla_arguments_hash q"
    if "reserve_external_action_claim e q r0 r1 = Inr (r2, z, d)" for e q r0 r1 r2 z d
    using that by (cases d) (auto simp: reserve_external_action_claim_def rbind_eq_Inr new_claim_def Let_def
        dest!: get_or_insert_existing get_or_insert_created)
  ultimately show ?thesis using assms(1,5) by blast
qed

definition demo_claim_args :: "string \<Rightarrow> claim_args" where
  "demo_claim_args i = \<lparr>cla_provider = ''linear'', cla_capability = ''task.create'',
     cla_logical_action_key = ''k'', cla_holder_execution_id = ''e1'',
     cla_arguments_hash = replicate 64 (CHR ''a''), cla_lease_expires_at = 50, cla_tool_call_id = None,
     cla_claim_id = None, cla_created_at = None, cla_new_id = i, cla_now = 0\<rparr>"

lemma demo_claims:
  "reserve_external_action_claim [demo_execution] (demo_claim_args ''c1'') [] []
     = Inr ([new_claim (demo_claim_args ''c1'')], new_claim (demo_claim_args ''c1''), True)"
  "reserve_external_action_claim [demo_execution] (demo_claim_args ''c2'') []
     [new_claim (demo_claim_args ''c1'')]
     = Inr ([new_claim (demo_claim_args ''c1'')], new_claim (demo_claim_args ''c1''), False)"
  by code_simp+

theorem external_action_claimed_once_witness:
  "\<exists>y. reserve_external_action_claim [demo_execution] (demo_claim_args ''c2'') []
       [new_claim (demo_claim_args ''c1'')] = Inr ([new_claim (demo_claim_args ''c1'')], y, False)
     \<and> cl_id y = cl_id (new_claim (demo_claim_args ''c1''))"
  using external_action_claimed_once [OF demo_claims(1) _ _ _ demo_claims(2)] demo_claims(2)
  by (auto simp: extends_def unique_keys_def demo_claim_args_def)

text \<open>
  A tool call is prepared once: with the same idempotency key, a repeated or concurrent
  \<open>prepare_tool_call\<close> that succeeds returns the call prepared first and stores nothing; one
  with other arguments than the stored call's is refused.
\<close>

lemma tool_call_prepared_once:
  assumes "prepare_tool_call exs a rows0 rows1 = Inr (rows1', x, b)"
    and "extends tc_id tc_idempotency_key rows0 rows1" and "extends tc_id tc_idempotency_key rows1' rows2"
    and "unique_keys tc_id tc_idempotency_key rows2"
    and "extends tc_id tc_idempotency_key rows0' rows2"
    and "tca_idempotency_key a = Some k" "tca_idempotency_key a' = Some k"
  shows "(case prepare_tool_call exs' a' rows0' rows2 of
        Inr (rows2', y, c) \<Rightarrow> tc_id y = tc_id x \<and> rows2' = rows2 \<and> \<not> c
          \<and> tc_arguments_hash y = tca_arguments_hash a'
      | Inl e \<Rightarrow> True)
    \<and> (find_row (\<lambda>r. tc_idempotency_key r = Some k) rows0' = Some z \<and> tc_arguments_hash z \<noteq> tca_arguments_hash a'
        \<longrightarrow> \<not> succeeds (prepare_tool_call exs' a' rows0' rows2))"
proof (intro conjI impI)
  show "case prepare_tool_call exs' a' rows0' rows2 of
        Inr (rows2', y, c) \<Rightarrow> tc_id y = tc_id x \<and> rows2' = rows2 \<and> \<not> c
          \<and> tc_arguments_hash y = tca_arguments_hash a'
      | Inl e \<Rightarrow> True"
  proof (cases "prepare_tool_call exs' a' rows0' rows2")
    case (Inr t)
    obtain rows2' y c where t: "t = (rows2', y, c)" by (cases t)
    have p: "prepare_tool_call exs' a' rows0' rows2 = Inr (rows2', y, c)" using Inr t by simp
    have "tc_id y = tc_id x \<and> \<not> c \<and> rows2' = rows2"
      by (rule tool_calls.create_retry [where a = "(exs, a)" and a' = "(exs', a')",
          unfolded fst_conv snd_conv, OF assms(1-4) p assms(5)])
        (simp_all add: tool_call_args_key_def assms(6,7))
    moreover have "tc_arguments_hash y = tca_arguments_hash a'"
      using p by (cases c) (auto simp: prepare_tool_call_def rbind_eq_Inr new_tool_call_def Let_def
          dest!: get_or_insert_existing get_or_insert_created)
    ultimately show ?thesis using p by simp
  qed simp
next
  assume "find_row (\<lambda>r. tc_idempotency_key r = Some k) rows0' = Some z \<and> tc_arguments_hash z \<noteq> tca_arguments_hash a'"
  then show "\<not> succeeds (prepare_tool_call exs' a' rows0' rows2)"
    using assms(7)
    by (auto simp: prepare_tool_call_def get_or_insert_def succeeds_iff rbind_eq_Inr)
qed

definition demo_call_args :: "string \<Rightarrow> char \<Rightarrow> tool_call_args" where
  "demo_call_args i h = \<lparr>tca_execution_id = ''e1'', tca_tool_name = ''create_task'', tca_tool_version = ''1'',
     tca_capability = ''task.create'', tca_effect = ''external_write'', tca_arguments = [],
     tca_arguments_hash = replicate 64 h, tca_logical_action_key = None,
     tca_idempotency_key = Some ''key'', tca_step_id = None, tca_tool_call_id = None,
     tca_created_at = None, tca_new_id = i, tca_now = 0\<rparr>"

lemma demo_call_prepared:
  "prepare_tool_call [demo_execution] (demo_call_args ''t1'' CHR ''a'') [] []
     = Inr ([new_tool_call (demo_call_args ''t1'' CHR ''a'')], new_tool_call (demo_call_args ''t1'' CHR ''a''), True)"
  by code_simp

subsection \<open>Concurrent writers of a tool call\<close>

definition table_path :: "transition_table \<Rightarrow> (string \<times> string) set" where
  "table_path t = {(a, b). b \<in> set (next_statuses t a)}\<^sup>*"

lemma table_path_refl [simp]: "(s, s) \<in> table_path t"
  by (simp add: table_path_def)

lemma table_path_trans: "(a, b) \<in> table_path t \<Longrightarrow> (b, c) \<in> table_path t \<Longrightarrow> (a, c) \<in> table_path t"
  by (simp add: table_path_def)

lemma table_path_step: "b = a \<or> b \<in> set (next_statuses t a) \<Longrightarrow> (a, b) \<in> table_path t"
  by (auto simp: table_path_def)

lemma table_path_stays: "next_statuses t a = [] \<Longrightarrow> (a, b) \<in> table_path t \<Longrightarrow> b = a"
  by (auto simp: table_path_def elim: converse_rtranclE)

text \<open>No transition leads back to a status that is no successor in the table.\<close>

definition no_entry :: "transition_table \<Rightarrow> string \<Rightarrow> bool" where
  "no_entry t s \<longleftrightarrow> list_all (\<lambda>e. s \<notin> set (snd e)) t"

lemma table_path_no_entry:
  assumes "no_entry t s" "(a, b) \<in> table_path t" "a \<noteq> s"
  shows "b \<noteq> s"
proof -
  have edge: "y \<noteq> s" if "y \<in> set (next_statuses t x)" for x y
  proof (cases "dict_get t x")
    case (Some ys)
    then have "(x, ys) \<in> set t" by (rule map_of_SomeD)
    with assms(1) Some that show ?thesis by (auto simp: no_entry_def list_all_iff next_statuses_def)
  qed (use that in \<open>simp add: next_statuses_def\<close>)
  show ?thesis
    using assms(2,3) unfolding table_path_def by (induction rule: rtrancl_induct) (auto dest: edge)
qed

definition tool_terminal :: "string \<Rightarrow> bool" where
  "tool_terminal s \<longleftrightarrow> s \<in> {''succeeded'', ''failed''}"

lemma tool_table:
  "no_entry TOOL_CALL_TRANSITIONS ''prepared''"
  "next_statuses TOOL_CALL_TRANSITIONS ''prepared'' = [''requesting'', ''failed'']"
  "tool_terminal s \<Longrightarrow> next_statuses TOOL_CALL_TRANSITIONS s = []"
proof -
  have "next_statuses TOOL_CALL_TRANSITIONS ''succeeded'' = []" "next_statuses TOOL_CALL_TRANSITIONS ''failed'' = []"
    by code_simp+
  then show "tool_terminal s \<Longrightarrow> next_statuses TOOL_CALL_TRANSITIONS s = []"
    by (auto simp: tool_terminal_def)
qed (code_simp+)

definition tool_call_terms where
  "tool_call_terms r = ((tc_id r, tc_execution_id r, tc_step_id r, tc_tool_name r, tc_tool_version r),
     (tc_capability r, tc_effect r, tc_logical_action_key r, tc_idempotency_key r, tc_created_at r))"

definition tool_call_ok :: "tool_call_record \<Rightarrow> bool" where
  "tool_call_ok r \<longleftrightarrow> (tc_completed_at r \<noteq> None \<longleftrightarrow> tool_terminal (tc_status r))
     \<and> (tc_status r = ''prepared'' \<longrightarrow> tc_requested_at r = None)
     \<and> (tc_status r \<noteq> ''prepared'' \<and> \<not> tool_terminal (tc_status r) \<longrightarrow> tc_requested_at r \<noteq> None)"

definition tool_call_evolves :: "tool_call_record \<Rightarrow> tool_call_record \<Rightarrow> bool" where
  "tool_call_evolves r r' \<longleftrightarrow> tool_call_terms r' = tool_call_terms r
     \<and> (tc_status r, tc_status r') \<in> table_path TOOL_CALL_TRANSITIONS
     \<and> (tool_terminal (tc_status r) \<longrightarrow> r' = r)
     \<and> (tc_status r \<noteq> ''prepared'' \<longrightarrow>
          tc_arguments r' = tc_arguments r \<and> tc_arguments_hash r' = tc_arguments_hash r)
     \<and> (tc_requested_at r \<noteq> None \<longrightarrow> tc_requested_at r' = tc_requested_at r)"

definition tool_call_fresh :: "tool_call_record \<Rightarrow> bool" where
  "tool_call_fresh r \<longleftrightarrow> (\<exists>a. r = new_tool_call a)"

inductive tool_call_step :: "tool_call_record \<Rightarrow> tool_call_record list \<Rightarrow> tool_call_record list \<Rightarrow> bool" where
  step_update: "update_tool_call (tc_id v) a (Some v) rows = Inr (rows', r) \<Longrightarrow> tool_call_step v rows rows'"
| step_replace: "replace_prepared_tool_call_arguments (tc_id v) ex h0 args h ts now rows = Inr (rows', r)
     \<Longrightarrow> tool_call_step v rows rows'"

lemma tool_call_values_sel:
  "tool_call_terms (tool_call_values a n v r) = tool_call_terms r" "tc_id (tool_call_values a n v r) = tc_id r"
  "tc_status (tool_call_values a n v r) = n" "tc_arguments (tool_call_values a n v r) = tc_arguments r"
  "tc_arguments_hash (tool_call_values a n v r) = tc_arguments_hash r"
  "tc_requested_at (tool_call_values a n v r) = (if n = ''requesting'' \<and> tc_requested_at v = None
     then Some (or_else (tu_changed_at a) (tu_now a)) else tc_requested_at v)"
  "tc_completed_at (tool_call_values a n v r) = (if tool_terminal n
     then Some (or_else (tu_changed_at a) (tu_now a)) else tc_completed_at v)"
  by (simp_all add: tool_call_values_def tool_call_terms_def Let_def tool_terminal_def)

lemma tool_call_values_ok:
  assumes "tool_call_ok v" "tool_call_ok r" "tool_call_evolves v r" "tc_status r = tc_status v"
    and "\<not> tool_terminal (tc_status v)" "transition_tool_call_status (tc_status v) s = Inr n"
  shows "tool_call_evolves r (tool_call_values a n v r) \<and> tool_call_ok (tool_call_values a n v r)"
proof -
  have n: "n = tc_status v \<or> n \<in> set (next_statuses TOOL_CALL_TRANSITIONS (tc_status v))"
    using assms(6) by (auto simp: tool_call.transition_Inr)
  have nb: "n \<noteq> ''prepared''" if "tc_status v \<noteq> ''prepared''"
    using table_path_no_entry [OF tool_table(1) table_path_step [OF n] that] .
  have fwd: "n = ''requesting''" if "tc_status v = ''prepared''" "n \<noteq> ''prepared''" "\<not> tool_terminal n"
    using n that by (auto simp: tool_table(2) tool_terminal_def)
  have "tool_call_ok (tool_call_values a n v r)"
    unfolding tool_call_ok_def tool_call_values_sel
    using assms(1,5) nb fwd by (cases "tc_status v = ''prepared''") (auto simp: tool_call_ok_def)
  moreover have "tc_requested_at (tool_call_values a n v r) = tc_requested_at r" if "tc_requested_at r \<noteq> None"
    using assms(1-5) that unfolding tool_call_values_sel
    by (cases "tc_status v = ''prepared''") (auto simp: tool_call_ok_def tool_call_evolves_def)
  ultimately show ?thesis
    using assms(4,5) table_path_step [OF n] by (simp add: tool_call_evolves_def tool_call_values_sel)
qed

lemma tool_call_update_rel:
  assumes "distinct (map tc_id rows)" "list_all tool_call_ok rows" "tool_call_ok v"
    and ver: "\<And>r. r \<in> set rows \<Longrightarrow> tc_id r = tc_id v \<Longrightarrow> tool_call_evolves v r"
    and "update_tool_call (tc_id v) a (Some v) rows = Inr (rows', x)"
  shows "list_all2 (\<lambda>r r'. tool_call_ok r \<longrightarrow> tool_call_evolves r r' \<and> tool_call_ok r') rows rows'"
proof (cases "tool_terminal (tc_status v)")
  case True
  then have "rows' = rows"
    using assms(5) by (auto simp: update_tool_call_def tool_terminal_def rbind_eq_Inr split: if_splits)
  then show ?thesis by (auto simp: list_all2_same tool_call_evolves_def)
next
  case False
  then obtain n where n: "transition_tool_call_status (tc_status v) (tu_status a) = Inr n"
    and cas: "cas_update tc_id (tc_id v) (\<lambda>r. tc_status r = tc_status v) (tool_call_values a n v)
      (AssistantStateConflict ''ToolCall changed concurrently'') (tool_call_missing (tc_id v)) rows = Inr (rows', x)"
    using assms(5) by (auto simp: update_tool_call_def tool_terminal_def rbind_eq_Inr split: if_splits)
  show ?thesis
    using tool_call_values_ok [OF assms(3) _ ver _ False n]
    by (intro cas_update_rel [OF assms(1) _ cas]) (auto simp: tool_call_values_sel tool_call_evolves_def)
qed

lemma tool_call_replace_rel:
  assumes "distinct (map tc_id rows)"
    and "replace_prepared_tool_call_arguments i ex h0 args h ts now rows = Inr (rows', x)"
  shows "list_all2 (\<lambda>r r'. tool_call_ok r \<longrightarrow> tool_call_evolves r r' \<and> tool_call_ok r') rows rows'"
proof -
  let ?f = "\<lambda>r :: tool_call_record. r\<lparr>tc_arguments := args, tc_arguments_hash := h, tc_updated_at := or_else ts now\<rparr>"
  have cas: "cas_update tc_id i (\<lambda>r. tc_execution_id r = ex \<and> tc_status r = ''prepared'' \<and> tc_arguments_hash r = h0)
      ?f (AssistantStateConflict ''prepared ToolCall changed before its arguments were replaced'')
      (tool_call_missing i) rows = Inr (rows', x)"
    using assms(2) by (auto simp: replace_prepared_tool_call_arguments_def rbind_eq_Inr)
  have nt: "\<not> tool_terminal ''prepared''" by (simp add: tool_terminal_def)
  show ?thesis
    using nt by (intro cas_update_rel [OF assms(1) _ cas])
      (auto simp: tool_call_evolves_def tool_call_terms_def tool_call_ok_def)
qed

interpretation tool_call_rows: shared_table tc_id tool_call_fresh tool_call_step tool_call_ok tool_call_evolves
proof
  show "tool_call_ok r" if "tool_call_fresh r" for r
    using that by (auto simp: tool_call_fresh_def tool_call_ok_def new_tool_call_def Let_def tool_terminal_def)
  show "tool_call_evolves r r" for r by (simp add: tool_call_evolves_def)
  show "tool_call_evolves a c" if "tool_call_evolves a b" "tool_call_evolves b c" for a b c
    using that table_path_no_entry [OF tool_table(1), of "tc_status a" "tc_status b"]
    by (auto simp: tool_call_evolves_def intro: table_path_trans)
  show "tc_id b = tc_id a" if "tool_call_evolves a b" for a b
    using that by (simp add: tool_call_evolves_def tool_call_terms_def)
  show "list_all2 (\<lambda>x y. tool_call_evolves x y \<and> tool_call_ok y) rows rows'"
    if "distinct (map tc_id rows)" "list_all tool_call_ok rows" "tool_call_ok v"
      "\<And>r. r \<in> set rows \<Longrightarrow> tc_id r = tc_id v \<Longrightarrow> tool_call_evolves v r" "tool_call_step v rows rows'"
    for rows v rows'
  proof -
    have "list_all2 (\<lambda>r r'. tool_call_ok r \<longrightarrow> tool_call_evolves r r' \<and> tool_call_ok r') rows rows'"
      using that(5)
    proof cases
      case step_update
      then show ?thesis using tool_call_update_rel [OF that(1,2,3) that(4)] by blast
    next
      case step_replace
      then show ?thesis using tool_call_replace_rel [OF that(1)] by blast
    qed
    with that(2) show ?thesis by (auto simp: list_all2_conv_all_nth list_all_length)
  qed
qed

text \<open>
  C19. Tool calls under concurrency: whatever transactions prepare, read, re-argue and update
  tool calls, and however stale the rows they look at, every write moves a call along legal
  transitions; once a call was requested its arguments, their hash and its request time are
  fixed; a succeeded or failed call never changes in any column; and a call has a completion
  time exactly when it has ended.
\<close>

theorem tool_call_concurrent:
  assumes "interleaving tc_id tool_call_fresh tool_call_step rows views"
  shows "(\<forall>r \<in> set rows. tc_completed_at r \<noteq> None \<longleftrightarrow> tc_status r \<in> {''succeeded'', ''failed''})
    \<and> (\<forall>v rows' r'. v \<in> set views \<and> tool_call_step v rows rows' \<and> r' \<in> set rows' \<longrightarrow>
        (\<exists>r \<in> set rows. tc_id r = tc_id r'
           \<and> (tc_status r, tc_status r') \<in> table_path TOOL_CALL_TRANSITIONS
           \<and> (tc_status r \<in> {''succeeded'', ''failed''} \<longrightarrow> r' = r)
           \<and> (tc_status r \<noteq> ''prepared'' \<longrightarrow>
                tc_arguments r' = tc_arguments r \<and> tc_arguments_hash r' = tc_arguments_hash r)
           \<and> (tc_requested_at r \<noteq> None \<longrightarrow> tc_requested_at r' = tc_requested_at r)))"
proof (intro conjI ballI allI impI)
  show "tc_completed_at r \<noteq> None \<longleftrightarrow> tc_status r \<in> {''succeeded'', ''failed''}" if "r \<in> set rows" for r
    using tool_call_rows.interleaving_inv [OF assms that] by (simp add: tool_call_ok_def tool_terminal_def)
  fix v rows' r'
  assume s: "v \<in> set views \<and> tool_call_step v rows rows' \<and> r' \<in> set rows'"
  then obtain r where r: "r \<in> set rows" "tool_call_evolves r r'"
    using tool_call_rows.interleaving_step [OF assms] by blast
  then show "\<exists>r \<in> set rows. tc_id r = tc_id r'
      \<and> (tc_status r, tc_status r') \<in> table_path TOOL_CALL_TRANSITIONS
      \<and> (tc_status r \<in> {''succeeded'', ''failed''} \<longrightarrow> r' = r)
      \<and> (tc_status r \<noteq> ''prepared'' \<longrightarrow>
           tc_arguments r' = tc_arguments r \<and> tc_arguments_hash r' = tc_arguments_hash r)
      \<and> (tc_requested_at r \<noteq> None \<longrightarrow> tc_requested_at r' = tc_requested_at r)"
    using tool_call_rows.evolves_key [OF r(2)]
    by (intro bexI [OF _ r(1)]) (auto simp: tool_call_evolves_def tool_terminal_def)
qed

text \<open>
  A call that is prepared, requested and succeeds, with readers that still hold the prepared
  and the requested row.
\<close>

definition demo_update :: "string \<Rightarrow> instant \<Rightarrow> tool_update_args" where
  "demo_update s now = \<lparr>tu_expected_status = None, tu_status = s, tu_result = None,
     tu_external_reference = None, tu_error_code = None, tu_error_message = None,
     tu_increment_attempt = False, tu_changed_at = None, tu_now = now\<rparr>"

definition demo_prepared :: tool_call_record where
  "demo_prepared = new_tool_call (demo_call_args ''t1'' CHR ''a'')"

definition demo_requesting :: tool_call_record where
  "demo_requesting = tool_call_values (demo_update ''requesting'' 5) ''requesting'' demo_prepared demo_prepared"

definition demo_succeeded :: tool_call_record where
  "demo_succeeded = tool_call_values (demo_update ''succeeded'' 8) ''succeeded'' demo_requesting demo_requesting"

lemma demo_call_updates:
  "update_tool_call ''t1'' (demo_update ''requesting'' 5) (Some demo_prepared) [demo_prepared]
     = Inr ([demo_requesting], demo_requesting)"
  "update_tool_call ''t1'' (demo_update ''succeeded'' 8) (Some demo_requesting) [demo_requesting]
     = Inr ([demo_succeeded], demo_succeeded)"
  "update_tool_call ''t1'' (demo_update ''succeeded'' 9) (Some demo_succeeded) [demo_succeeded]
     = Inr ([demo_succeeded], demo_succeeded)"
  "isl (update_tool_call ''t1'' (demo_update ''failed'' 9) (Some demo_requesting) [demo_succeeded])"
  by code_simp+

lemma tool_call_step_at:
  "tc_id v = i \<Longrightarrow> update_tool_call i a (Some v) rows = Inr (rows', r) \<Longrightarrow> tool_call_step v rows rows'"
  by (auto intro: tool_call_step.step_update)

lemma demo_call_steps:
  "tool_call_step demo_prepared [demo_prepared] [demo_requesting]"
  "tool_call_step demo_requesting [demo_requesting] [demo_succeeded]"
  "tool_call_step demo_succeeded [demo_succeeded] [demo_succeeded]"
proof -
  have ids: "tc_id demo_prepared = ''t1''" "tc_id demo_requesting = ''t1''" "tc_id demo_succeeded = ''t1''"
    by code_simp+
  show "tool_call_step demo_prepared [demo_prepared] [demo_requesting]"
    by (rule tool_call_step_at [OF ids(1) demo_call_updates(1)])
  show "tool_call_step demo_requesting [demo_requesting] [demo_succeeded]"
    by (rule tool_call_step_at [OF ids(2) demo_call_updates(2)])
  show "tool_call_step demo_succeeded [demo_succeeded] [demo_succeeded]"
    by (rule tool_call_step_at [OF ids(3) demo_call_updates(3)])
qed

lemma demo_call_interleavings:
  "interleaving tc_id tool_call_fresh tool_call_step [demo_requesting] [demo_requesting, demo_prepared]"
  "interleaving tc_id tool_call_fresh tool_call_step [demo_succeeded]
     [demo_succeeded, demo_requesting, demo_prepared]"
proof -
  let ?run = "interleaving tc_id tool_call_fresh tool_call_step"
  have "?run ([] @ [demo_prepared]) []"
    by (intro interleaving.intros) (auto simp: tool_call_fresh_def demo_prepared_def)
  then have "?run [demo_prepared] [demo_prepared]"
    using interleaving.load [of tc_id tool_call_fresh tool_call_step "[demo_prepared]" "[]"] by simp
  then have "?run [demo_requesting] [demo_prepared]"
    by (rule interleaving.store [where v = demo_prepared and rows = "[demo_prepared]"])
      (simp_all add: demo_call_steps)
  then show 1: "?run [demo_requesting] [demo_requesting, demo_prepared]"
    by (rule interleaving.load) simp
  have "?run [demo_succeeded] [demo_requesting, demo_prepared]"
    using 1 by (rule interleaving.store [where v = demo_requesting and rows = "[demo_requesting]"])
      (simp_all add: demo_call_steps)
  then show "?run [demo_succeeded] [demo_succeeded, demo_requesting, demo_prepared]"
    by (rule interleaving.load) simp
qed

theorem tool_call_concurrent_witness:
  "interleaving tc_id tool_call_fresh tool_call_step [demo_requesting] [demo_requesting, demo_prepared]
   \<and> tool_call_step demo_requesting [demo_requesting] [demo_succeeded]
   \<and> (tc_status demo_requesting, tc_status demo_succeeded) \<in> table_path TOOL_CALL_TRANSITIONS
   \<and> tc_status demo_requesting = ''requesting''
   \<and> tc_arguments_hash demo_succeeded = tc_arguments_hash demo_requesting
   \<and> tc_requested_at demo_requesting = Some 5 \<and> tc_requested_at demo_succeeded = Some 5
   \<and> tool_call_step demo_succeeded [demo_succeeded] [demo_succeeded]
   \<and> tc_completed_at demo_succeeded \<noteq> None
   \<and> isl (update_tool_call ''t1'' (demo_update ''failed'' 9) (Some demo_requesting) [demo_succeeded])"
proof -
  have st: "tc_status demo_requesting = ''requesting''" "tc_requested_at demo_requesting = Some 5"
    "tc_status demo_succeeded = ''succeeded''" by code_simp+
  have "demo_requesting \<in> set [demo_requesting, demo_prepared]
      \<and> tool_call_step demo_requesting [demo_requesting] [demo_succeeded]
      \<and> demo_succeeded \<in> set [demo_succeeded]"
    using demo_call_steps(2) by simp
  from tool_call_concurrent [OF demo_call_interleavings(1), THEN conjunct2, rule_format, OF this]
  have "(tc_status demo_requesting, tc_status demo_succeeded) \<in> table_path TOOL_CALL_TRANSITIONS"
    "tc_arguments_hash demo_succeeded = tc_arguments_hash demo_requesting"
    "tc_requested_at demo_succeeded = tc_requested_at demo_requesting"
    using st by auto
  moreover have "tc_completed_at demo_succeeded \<noteq> None"
    using tool_call_concurrent [OF demo_call_interleavings(2)] st(3) by auto
  ultimately show ?thesis
    using st demo_call_interleavings(1) demo_call_steps demo_call_updates(4) by simp
qed

text \<open>
  The status alone does not identify the version a writer has read: \<open>pending\<close> can be left and
  entered again, and a writer with the older row then overwrites the attempt counter.
\<close>

lemma tool_call_stale_attempt_count:
  "let call = (new_tool_call (demo_call_args ''t1'' CHR ''a''))\<lparr>tc_status := ''pending'', tc_requested_at := Some 1\<rparr>;
       upd = (\<lambda>s inc. \<lparr>tu_expected_status = None, tu_status = s, tu_result = None, tu_external_reference = None,
          tu_error_code = None, tu_error_message = None, tu_increment_attempt = inc, tu_changed_at = None, tu_now = 9\<rparr>)
   in (case update_tool_call ''t1'' (upd ''reconciling'' True) (Some call) [call] of
         Inl _ \<Rightarrow> False
       | Inr (rows1, r1) \<Rightarrow>
         (case update_tool_call ''t1'' (upd ''pending'' True) (Some r1) rows1 of
            Inl _ \<Rightarrow> False
          | Inr (rows2, r2) \<Rightarrow>
            (case update_tool_call ''t1'' (upd ''unknown'' False) (Some call) rows2 of
               Inl _ \<Rightarrow> False
             | Inr (rows3, r3) \<Rightarrow> tc_attempt_count r2 = 2 \<and> tc_attempt_count r3 = 0)))"
  by code_simp

subsection \<open>Concurrent writers of a claim\<close>

definition claim_terms where
  "claim_terms r = (cl_id r, cl_provider r, cl_capability r, cl_logical_action_key r,
     cl_holder_execution_id r, cl_tool_call_id r, cl_created_at r)"

definition claim_ok :: "claim_record \<Rightarrow> bool" where
  "claim_ok r \<longleftrightarrow> dict_has EXTERNAL_ACTION_CLAIM_TRANSITIONS (cl_status r)"

definition claim_evolves :: "claim_record \<Rightarrow> claim_record \<Rightarrow> bool" where
  "claim_evolves r r' \<longleftrightarrow> claim_terms r' = claim_terms r
     \<and> (cl_status r, cl_status r') \<in> table_path EXTERNAL_ACTION_CLAIM_TRANSITIONS
     \<and> (cl_status r \<noteq> ''reserved'' \<longrightarrow> cl_arguments_hash r' = cl_arguments_hash r)"

definition claim_fresh :: "claim_record \<Rightarrow> bool" where
  "claim_fresh r \<longleftrightarrow> (\<exists>a. r = new_claim a)"

inductive claim_step :: "claim_record \<Rightarrow> claim_record list \<Rightarrow> claim_record list \<Rightarrow> bool" where
  step_transition: "transition_claim (cl_id v) a (Some v) rows = Inr (rows', r) \<Longrightarrow> claim_step v rows rows'"
| step_replace: "replace_reserved_claim_arguments (cl_id v) ex tid h0 h ts now rows = Inr (rows', r)
     \<Longrightarrow> claim_step v rows rows'"

lemma claim_table:
  "no_entry EXTERNAL_ACTION_CLAIM_TRANSITIONS ''reserved''"
  "next_statuses EXTERNAL_ACTION_CLAIM_TRANSITIONS ''succeeded'' = []"
  "next_statuses EXTERNAL_ACTION_CLAIM_TRANSITIONS ''failed_safe'' = []"
  by code_simp+

lemma claim_values_sel:
  "claim_terms (claim_values a n h v r) = claim_terms r" "cl_id (claim_values a n h v r) = cl_id r"
  "cl_status (claim_values a n h v r) = n" "cl_arguments_hash (claim_values a n h v r) = h"
  by (simp_all add: claim_values_def claim_terms_def)

lemma claim_transition_rel:
  assumes "distinct (map cl_id rows)" "list_all claim_ok rows"
    and ver: "\<And>r. r \<in> set rows \<Longrightarrow> cl_id r = cl_id v \<Longrightarrow> claim_evolves v r"
    and "transition_claim (cl_id v) a (Some v) rows = Inr (rows', x)"
  shows "list_all2 (\<lambda>r r'. claim_ok r \<longrightarrow> claim_evolves r r' \<and> claim_ok r') rows rows'"
proof -
  let ?e = "ct_expected_status a" and ?h = "str_or (ct_arguments_hash a) (cl_arguments_hash v)"
  obtain n where n: "transition_external_action_claim ?e (ct_target_status a) = Inr n" "cl_status v = ?e"
    "?e \<noteq> ''reserved'' \<Longrightarrow> ?h = cl_arguments_hash v"
    and cas: "cas_update cl_id (cl_id v) (\<lambda>r. cl_holder_execution_id r = ct_holder_execution_id a \<and> cl_status r = ?e)
      (claim_values a n ?h v) (AssistantStateConflict ''external action claim changed'')
      (claim_missing (cl_id v)) rows = Inr (rows', x)"
    using assms(4) by (auto simp: transition_claim_def rbind_eq_Inr Let_def split: if_splits)
  have step: "n = ?e \<or> n \<in> set (next_statuses EXTERNAL_ACTION_CLAIM_TRANSITIONS ?e)"
    using n(1) by (auto simp: claim.transition_Inr)
  have one: "claim_evolves r (claim_values a n ?h v r) \<and> claim_ok (claim_values a n ?h v r)"
    if "r \<in> set rows" "cl_id r = cl_id v" "cl_status r = ?e" "claim_ok r" for r
    using that ver [OF that(1,2)] n(2,3) table_path_step [OF step]
      next_statuses_has [OF tables_closed(5), of n ?e] step
    by (auto simp: claim_evolves_def claim_values_sel claim_ok_def)
  show ?thesis
    using one by (intro cas_update_rel [OF assms(1) _ cas]) (auto simp: claim_values_sel claim_evolves_def)
qed

lemma claim_replace_rel:
  assumes "distinct (map cl_id rows)"
    and "replace_reserved_claim_arguments i ex tid h0 h ts now rows = Inr (rows', x)"
  shows "list_all2 (\<lambda>r r'. claim_ok r \<longrightarrow> claim_evolves r r' \<and> claim_ok r') rows rows'"
proof -
  have cas: "cas_update cl_id i (\<lambda>r. cl_holder_execution_id r = ex \<and> cl_tool_call_id r = Some tid
        \<and> cl_status r = ''reserved'' \<and> cl_arguments_hash r = h0)
      (\<lambda>r. r\<lparr>cl_arguments_hash := h, cl_updated_at := or_else ts now\<rparr>)
      (AssistantStateConflict ''reserved external action claim changed before its arguments were replaced'')
      (claim_missing i) rows = Inr (rows', x)"
    using assms(2) by (auto simp: replace_reserved_claim_arguments_def rbind_eq_Inr)
  show ?thesis
    by (intro cas_update_rel [OF assms(1) _ cas]) (auto simp: claim_evolves_def claim_terms_def claim_ok_def)
qed

interpretation claim_rows: shared_table cl_id claim_fresh claim_step claim_ok claim_evolves
proof
  have "dict_has EXTERNAL_ACTION_CLAIM_TRANSITIONS ''reserved''" by code_simp
  then show "claim_ok r" if "claim_fresh r" for r
    using that by (auto simp: claim_fresh_def claim_ok_def new_claim_def Let_def)
  show "claim_evolves r r" for r by (simp add: claim_evolves_def)
  show "claim_evolves a c" if "claim_evolves a b" "claim_evolves b c" for a b c
    using that table_path_no_entry [OF claim_table(1), of "cl_status a" "cl_status b"]
    by (auto simp: claim_evolves_def intro: table_path_trans)
  show "cl_id b = cl_id a" if "claim_evolves a b" for a b
    using that by (simp add: claim_evolves_def claim_terms_def)
  show "list_all2 (\<lambda>x y. claim_evolves x y \<and> claim_ok y) rows rows'"
    if "distinct (map cl_id rows)" "list_all claim_ok rows" "claim_ok v"
      "\<And>r. r \<in> set rows \<Longrightarrow> cl_id r = cl_id v \<Longrightarrow> claim_evolves v r" "claim_step v rows rows'"
    for rows v rows'
  proof -
    have "list_all2 (\<lambda>r r'. claim_ok r \<longrightarrow> claim_evolves r r' \<and> claim_ok r') rows rows'"
      using that(5)
    proof cases
      case step_transition
      then show ?thesis using claim_transition_rel [OF that(1,2) that(4)] by blast
    next
      case step_replace
      then show ?thesis using claim_replace_rel [OF that(1)] by blast
    qed
    with that(2) show ?thesis by (auto simp: list_all2_conv_all_nth list_all_length)
  qed
qed

text \<open>
  C20. External action claims under concurrency: every write keeps the holder and the claimed
  action, moves the claim along legal transitions, leaves a succeeded or safely failed claim
  in that status, and once the claim left \<open>reserved\<close> (the request may be under way) its
  arguments can no longer change.
\<close>

theorem claim_concurrent:
  assumes "interleaving cl_id claim_fresh claim_step rows views" and "v \<in> set views"
    and "claim_step v rows rows'" and "r' \<in> set rows'"
  shows "\<exists>r \<in> set rows. cl_id r = cl_id r' \<and> cl_holder_execution_id r' = cl_holder_execution_id r
     \<and> cl_logical_action_key r' = cl_logical_action_key r
     \<and> (cl_status r, cl_status r') \<in> table_path EXTERNAL_ACTION_CLAIM_TRANSITIONS
     \<and> (cl_status r \<in> {''succeeded'', ''failed_safe''} \<longrightarrow> cl_status r' = cl_status r)
     \<and> (cl_status r \<noteq> ''reserved'' \<longrightarrow> cl_arguments_hash r' = cl_arguments_hash r)"
proof -
  obtain r where r: "r \<in> set rows" "claim_evolves r r'"
    using claim_rows.interleaving_step [OF assms] by blast
  then show ?thesis
    using table_path_stays [OF claim_table(2), of "cl_status r'"] table_path_stays [OF claim_table(3), of "cl_status r'"]
    by (intro bexI [OF _ r(1)]) (auto simp: claim_evolves_def claim_terms_def)
qed

definition demo_claim_move :: claim_transition_args where
  "demo_claim_move = \<lparr>ct_holder_execution_id = ''e1'', ct_expected_status = ''reserved'',
     ct_target_status = ''requesting'', ct_arguments_hash = None, ct_external_reference = None,
     ct_lease_expires_at = None, ct_changed_at = None, ct_now = 3\<rparr>"

theorem claim_concurrent_witness:
  "\<exists>r \<in> set [new_claim (demo_claim_args ''c1'')]. cl_holder_execution_id r = ''e1''
     \<and> (cl_status r, ''requesting'') \<in> table_path EXTERNAL_ACTION_CLAIM_TRANSITIONS"
proof -
  let ?c = "new_claim (demo_claim_args ''c1'')"
  let ?d = "?c\<lparr>cl_status := ''requesting'', cl_updated_at := 3\<rparr>"
  have "interleaving cl_id claim_fresh claim_step ([] @ [?c]) []"
    by (intro interleaving.intros) (auto simp: claim_fresh_def)
  then have i: "interleaving cl_id claim_fresh claim_step [?c] [?c]"
    using interleaving.load [of cl_id claim_fresh claim_step "[?c]" "[]"] by simp
  have "transition_claim ''c1'' demo_claim_move (Some ?c) [?c] = Inr ([?d], ?d)" by code_simp
  moreover have "cl_id ?c = ''c1''" by code_simp
  ultimately have "claim_step ?c [?c] [?d]" using claim_step.step_transition [of ?c] by simp
  from claim_concurrent [OF i _ this, of ?d] show ?thesis
    by (auto simp: new_claim_def demo_claim_args_def Let_def)
qed

subsection \<open>Approvals are decided once\<close>

definition approval_question where
  "approval_question r = ((ap_id r, ap_execution_id r, ap_session_id r, ap_actor_id r, ap_capability r),
     (ap_tool_name r, ap_candidate_id r, ap_logical_action_key r, ap_resource_scope r, ap_arguments r),
     (ap_evidence_refs r, ap_display_summary r, ap_expires_at r, ap_created_at r))"

definition approval_ok :: "approval_record \<Rightarrow> bool" where
  "approval_ok r \<longleftrightarrow> (ap_status r = ''pending'' \<longleftrightarrow> ap_resolved_at r = None)"

definition approval_evolves :: "approval_record \<Rightarrow> approval_record \<Rightarrow> bool" where
  "approval_evolves r r' \<longleftrightarrow> r' = r
     \<or> ap_status r = ''pending'' \<and> ap_status r' \<noteq> ''pending'' \<and> approval_question r' = approval_question r"

definition approval_fresh :: "approval_record \<Rightarrow> bool" where
  "approval_fresh r \<longleftrightarrow> ap_status r = ''pending'' \<and> ap_resolved_at r = None"

inductive approval_step :: "approval_record \<Rightarrow> approval_record list \<Rightarrow> approval_record list \<Rightarrow> bool" where
  step_resolve: "resolve_action_approval (ap_id v) target grant ts now (Some v) rows = Inr (rows', r)
     \<Longrightarrow> approval_step v rows rows'"

lemma approval_resolve_rel:
  assumes "distinct (map ap_id rows)"
    and "resolve_action_approval i target grant ts now (Some v) rows = Inr (rows', x)"
  shows "list_all2 (\<lambda>r r'. approval_ok r \<longrightarrow> approval_evolves r r' \<and> approval_ok r') rows rows'"
proof (cases "rows' = rows")
  case True
  then show ?thesis by (simp add: list_all2_same approval_evolves_def)
next
  case False
  then have cas: "cas_update ap_id i (\<lambda>r. ap_status r = ''pending'')
      (\<lambda>r. r\<lparr>ap_status := target, ap_resolved_at := Some (or_else ts now), ap_grant_id := keep_or grant (ap_grant_id r)\<rparr>)
      (approval_missing i) (approval_missing i) rows = Inr (rows', x)"
    and t: "target \<in> {''approved'', ''rejected'', ''expired''}"
    using assms(2) by (auto simp: resolve_action_approval_def split: if_splits option.splits)
  from t have "target \<noteq> ''pending''" by auto
  then show ?thesis
    by (intro cas_update_rel [OF assms(1) _ cas])
      (auto simp: approval_evolves_def approval_question_def approval_ok_def)
qed

interpretation approval_rows: shared_table ap_id approval_fresh approval_step approval_ok approval_evolves
proof
  show "approval_ok r" if "approval_fresh r" for r
    using that by (simp add: approval_fresh_def approval_ok_def)
  show "approval_evolves r r" for r by (simp add: approval_evolves_def)
  show "approval_evolves a c" if "approval_evolves a b" "approval_evolves b c" for a b c
    using that by (auto simp: approval_evolves_def)
  show "ap_id b = ap_id a" if "approval_evolves a b" for a b
    using that by (auto simp: approval_evolves_def approval_question_def)
  show "list_all2 (\<lambda>x y. approval_evolves x y \<and> approval_ok y) rows rows'"
    if "distinct (map ap_id rows)" "list_all approval_ok rows" "approval_step v rows rows'" for rows v rows'
  proof -
    have "list_all2 (\<lambda>r r'. approval_ok r \<longrightarrow> approval_evolves r r' \<and> approval_ok r') rows rows'"
      using that(3) by cases (rule approval_resolve_rel [OF that(1)])
    with that(2) show ?thesis by (auto simp: list_all2_conv_all_nth list_all_length)
  qed
qed

text \<open>
  The user's decision is taken once and for the question asked: under every interleaving
  (a double click, two browser tabs, an expiry sweep racing an approval) a write either leaves
  an approval as it is or resolves a pending one, keeping everything the user was shown; a
  resolved approval never changes, and a success of \<open>resolve_action_approval\<close> means the row
  it returns has the requested status.
\<close>

lemma approval_decided_once:
  assumes "interleaving ap_id approval_fresh approval_step rows views" and "v \<in> set views"
    and "resolve_action_approval (ap_id v) target grant ts now (Some v) rows = Inr (rows', x)"
    and "r' \<in> set rows'"
  shows "(\<exists>r \<in> set rows. r' = r \<or> ap_status r = ''pending'' \<and> ap_resolved_at r' \<noteq> None
       \<and> approval_question r' = approval_question r) \<and> ap_status x = target"
proof -
  have c: "approval_rows.consistent rows views" by (rule approval_rows.interleaving_consistent [OF assms(1)])
  then have d: "distinct (map ap_id rows)" by (simp add: approval_rows.consistent_def)
  obtain r where r: "r \<in> set rows" "approval_evolves r r'" "approval_ok r'"
    using approval_rows.interleaving_step [OF assms(1,2) approval_step.step_resolve [OF assms(3)] assms(4)]
    by blast
  have "ap_status x = target \<or> cas_update ap_id (ap_id v) (\<lambda>r. ap_status r = ''pending'')
        (\<lambda>r. r\<lparr>ap_status := target, ap_resolved_at := Some (or_else ts now), ap_grant_id := keep_or grant (ap_grant_id r)\<rparr>)
        (approval_missing (ap_id v)) (approval_missing (ap_id v)) rows = Inr (rows', x)"
    using assms(3) by (auto simp: resolve_action_approval_def split: if_splits option.splits)
  then have "ap_status x = target"
  proof
    assume cas: "cas_update ap_id (ap_id v) (\<lambda>r. ap_status r = ''pending'')
        (\<lambda>r. r\<lparr>ap_status := target, ap_resolved_at := Some (or_else ts now), ap_grant_id := keep_or grant (ap_grant_id r)\<rparr>)
        (approval_missing (ap_id v)) (approval_missing (ap_id v)) rows = Inr (rows', x)"
    show ?thesis by (rule cas_update_Inr [OF d _ cas]) simp_all
  qed
  with r show ?thesis
    by (intro conjI bexI [OF _ r(1)]) (auto simp: approval_evolves_def approval_ok_def)
qed

definition demo_approval :: approval_record where
  "demo_approval = \<lparr>ap_id = ''a1'', ap_execution_id = ''e1'', ap_session_id = ''s'', ap_actor_id = ''u'',
     ap_capability = ''task.create'', ap_tool_name = ''create_task'', ap_candidate_id = None,
     ap_logical_action_key = None, ap_resource_scope = [], ap_arguments = [], ap_evidence_refs = [],
     ap_display_summary = [], ap_status = ''pending'', ap_grant_id = None, ap_expires_at = 90,
     ap_created_at = 0, ap_resolved_at = None\<rparr>"

definition demo_approved :: approval_record where
  "demo_approved = demo_approval\<lparr>ap_status := ''approved'', ap_resolved_at := Some 4, ap_grant_id := Some ''g''\<rparr>"

end
