(* ===== verification/Text_Processing.thy ===== *)
theory Text_Processing
  imports Export
begin

section \<open>Script processing\<close>

text \<open>
  Models \<open>text_processing/models.py\<close>, \<open>chunking.py\<close>, \<open>parser.py\<close> and \<open>markdown.py\<close>: cutting the
  Final segments into requests for the text provider, and accepting the provider's answer only
  if it accounts for every source segment. \<open>json.loads\<close> with pydantic's structural decoding is
  the argument \<open>decode\<close> (\<open>None\<close> when it raises); the validators written in the source are
  applied to what it returns.
\<close>

subsection \<open>Data\<close>

record source_segment_snapshot =
  ss_segment_id :: string
  ss_revision :: int
  ss_language :: string
  ss_raw_text :: string
  ss_display_text :: string
  ss_audio_start_ms :: int
  ss_audio_end_ms :: int

record script_section =
  sc_source_segment_ids :: "string list"
  sc_start_ms :: int
  sc_end_ms :: int
  sc_clean_text :: string
  sc_notes :: "string list"

record script_content =
  pc_title :: string
  pc_sections :: "script_section list"
  pc_warnings :: "string list"

definition validate_snapshot :: "source_segment_snapshot \<Rightarrow> source_segment_snapshot res" where
  "validate_snapshot s =
     (if ss_segment_id s = [] \<or> ss_revision s < 1 \<or> ss_language s = []
         \<or> ss_audio_start_ms s < 0 \<or> ss_audio_end_ms s < 0
      then Inl (ValueError ''validation error for SourceSegmentSnapshot'')
      else if ss_audio_end_ms s < ss_audio_start_ms s
      then Inl (ValueError ''source segment end must not precede start'')
      else Inr s)"

definition validate_section :: "script_section \<Rightarrow> script_section res" where
  "validate_section s =
     (if sc_source_segment_ids s = [] \<or> [] \<in> set (sc_source_segment_ids s)
         \<or> sc_start_ms s < 0 \<or> sc_end_ms s < 0 \<or> [] \<in> set (sc_notes s)
      then Inl (ValueError ''validation error for ScriptSection'')
      else if py_strip (sc_clean_text s) = [] then Inl (ValueError ''clean_text must not be blank'')
      else if sc_end_ms s < sc_start_ms s
      then Inl (ValueError ''script section end must not precede start'')
      else Inr (s\<lparr>sc_clean_text := py_strip (sc_clean_text s)\<rparr>))"

fun validate_sections :: "script_section list \<Rightarrow> script_section list res" where
  "validate_sections [] = Inr []"
| "validate_sections (s # ss) =
     rbind (validate_section s) (\<lambda>s'. rbind (validate_sections ss) (\<lambda>ss'. Inr (s' # ss')))"

definition validate_content :: "script_content \<Rightarrow> script_content res" where
  "validate_content c =
     rbind (validate_sections (pc_sections c)) (\<lambda>sections.
       if py_strip (pc_title c) = [] then Inl (ValueError ''title must not be blank'')
       else if sections = [] \<or> [] \<in> set (pc_warnings c)
       then Inl (ValueError ''validation error for ProcessedScriptContent'')
       else Inr (c\<lparr>pc_title := py_strip (pc_title c), pc_sections := sections\<rparr>))"

subsection \<open>Chunking\<close>

text \<open>The loop of \<open>chunk_source_segments\<close>, with \<open>current\<close> and \<open>current_chars\<close>.\<close>

fun chunk_loop ::
  "nat \<Rightarrow> nat \<Rightarrow> source_segment_snapshot list \<Rightarrow> nat \<Rightarrow> source_segment_snapshot list
   \<Rightarrow> source_segment_snapshot list list" where
  "chunk_loop max_segments max_chars current current_chars [] =
     (if current \<noteq> [] then [current] else [])"
| "chunk_loop max_segments max_chars current current_chars (s # ss) =
     (let segment_chars = length (ss_display_text s);
          exceeds_count = (length current \<ge> max_segments);
          exceeds_chars = (current \<noteq> [] \<and> current_chars + segment_chars > max_chars)
      in if exceeds_count \<or> exceeds_chars
         then current # chunk_loop max_segments max_chars [s] segment_chars ss
         else chunk_loop max_segments max_chars (current @ [s]) (current_chars + segment_chars) ss)"

definition chunk_source_segments ::
  "source_segment_snapshot list \<Rightarrow> int \<Rightarrow> int \<Rightarrow> source_segment_snapshot list list res" where
  "chunk_source_segments segments max_segments max_chars =
     (if max_segments \<le> 0 then Inl (ValueError ''max_segments must be positive'')
      else if max_chars \<le> 0 then Inl (ValueError ''max_chars must be positive'')
      else Inr (chunk_loop (nat max_segments) (nat max_chars) [] 0 segments))"

definition chunk_chars :: "source_segment_snapshot list \<Rightarrow> nat" where
  "chunk_chars c = sum_list (map (\<lambda>s. length (ss_display_text s)) c)"

definition chunk_fits :: "nat \<Rightarrow> nat \<Rightarrow> source_segment_snapshot list \<Rightarrow> bool" where
  "chunk_fits n m c \<longleftrightarrow> c \<noteq> [] \<and> length c \<le> n \<and> (chunk_chars c \<le> m \<or> length c = 1)"

text \<open>Two neighbouring chunks could not have been closed later.\<close>

fun chunks_greedy :: "nat \<Rightarrow> nat \<Rightarrow> source_segment_snapshot list list \<Rightarrow> bool" where
  "chunks_greedy n m (c # d # cs) \<longleftrightarrow>
     (length c = n \<or> chunk_chars c + length (ss_display_text (hd d)) > m) \<and> chunks_greedy n m (d # cs)"
| "chunks_greedy n m cs \<longleftrightarrow> True"

lemma concat_chunk_loop: "concat (chunk_loop n m cur k ss) = cur @ ss"
  by (induction ss arbitrary: cur k) (auto simp: Let_def)

lemma hd_chunk_loop:
  "cur \<noteq> [] \<Longrightarrow> chunk_loop n m cur k ss \<noteq> [] \<and> hd (hd (chunk_loop n m cur k ss)) = hd cur"
  by (induction ss arbitrary: cur k) (auto simp: Let_def)

lemma chunk_loop_fits:
  "0 < n \<Longrightarrow> cur = [] \<or> chunk_fits n m cur \<Longrightarrow> k = chunk_chars cur \<Longrightarrow> c \<in> set (chunk_loop n m cur k ss)
     \<Longrightarrow> chunk_fits n m c"
proof (induction n m cur k ss rule: chunk_loop.induct)
  case (2 n m cur k s ss)
  let ?big = "length cur \<ge> n \<or> cur \<noteq> [] \<and> k + length (ss_display_text s) > m"
  show ?case
  proof (cases ?big)
    case True
    have "cur \<noteq> []" using True 2(3) by auto
    moreover have "chunk_fits n m [s]" using 2(3) by (simp add: chunk_fits_def)
    ultimately show ?thesis
      using 2(1) [OF refl refl refl True] 2(3-6) True by (auto simp: Let_def chunk_chars_def)
  next
    case False
    have "chunk_fits n m (cur @ [s])"
      using False 2(3-5) by (cases cur) (auto simp: chunk_fits_def chunk_chars_def)
    then show ?thesis
      using 2(2) [OF refl refl refl False] 2(3-6) False by (auto simp: Let_def chunk_chars_def)
  qed
qed (auto split: if_splits)

lemma chunk_loop_greedy:
  "0 < n \<Longrightarrow> length cur \<le> n \<Longrightarrow> k = chunk_chars cur \<Longrightarrow> chunks_greedy n m (chunk_loop n m cur k ss)"
proof (induction n m cur k ss rule: chunk_loop.induct)
  case (2 n m cur k s ss)
  let ?big = "length cur \<ge> n \<or> cur \<noteq> [] \<and> k + length (ss_display_text s) > m"
  show ?case
  proof (cases ?big)
    case True
    let ?rest = "chunk_loop n m [s] (length (ss_display_text s)) ss"
    obtain d ds where d: "?rest = d # ds" "hd d = s"
      using hd_chunk_loop [of "[s]" n m "length (ss_display_text s)" ss] by (cases ?rest) auto
    have "chunks_greedy n m ?rest"
      using 2(1) [OF refl refl refl True] 2(3) by (simp add: chunk_chars_def)
    moreover have "length cur = n \<or> chunk_chars cur + length (ss_display_text s) > m"
      using True 2(4,5) by auto
    ultimately show ?thesis using True d by (simp add: Let_def)
  next
    case False
    then show ?thesis
      using 2(2) [OF refl refl refl False] 2(3-5) by (auto simp: Let_def chunk_chars_def)
  qed
qed auto

text \<open>
  C21. Chunking for the text provider: the chunks concatenate to exactly the given segments in
  order; no chunk is empty, has more than \<open>max_segments\<close> segments or, unless it is a single
  oversized segment, more than \<open>max_chars\<close> characters; and no chunk ends early: it is full or
  the next segment would not have fitted.
\<close>

theorem chunking_correct:
  assumes "chunk_source_segments segments max_segments max_chars = Inr chunks"
  shows "concat chunks = segments
    \<and> (\<forall>c \<in> set chunks. c \<noteq> [] \<and> int (length c) \<le> max_segments
         \<and> (int (chunk_chars c) \<le> max_chars \<or> length c = 1))
    \<and> chunks_greedy (nat max_segments) (nat max_chars) chunks"
proof -
  have pos: "0 < max_segments" "0 < max_chars"
    and chunks: "chunks = chunk_loop (nat max_segments) (nat max_chars) [] 0 segments"
    using assms by (auto simp: chunk_source_segments_def split: if_splits)
  have "chunk_fits (nat max_segments) (nat max_chars) c" if "c \<in> set chunks" for c
    using chunk_loop_fits [of "nat max_segments" "[]" "nat max_chars" 0 c segments] that pos
    by (simp add: chunks chunk_chars_def)
  moreover have "chunks_greedy (nat max_segments) (nat max_chars) chunks"
    unfolding chunks using pos by (intro chunk_loop_greedy) (simp_all add: chunk_chars_def)
  ultimately show ?thesis
    using pos by (fastforce simp: chunks concat_chunk_loop chunk_fits_def le_nat_iff)
qed

definition demo_snapshot :: "string \<Rightarrow> int \<Rightarrow> int \<Rightarrow> source_segment_snapshot" where
  "demo_snapshot i s e = \<lparr>ss_segment_id = i, ss_revision = 1, ss_language = ''en'', ss_raw_text = i,
     ss_display_text = i, ss_audio_start_ms = s, ss_audio_end_ms = e\<rparr>"

theorem chunking_correct_witness:
  "chunk_source_segments [demo_snapshot ''aa'' 0 1, demo_snapshot ''b'' 1 2, demo_snapshot ''cccccc'' 2 3] 2 4
     = Inr [[demo_snapshot ''aa'' 0 1, demo_snapshot ''b'' 1 2], [demo_snapshot ''cccccc'' 2 3]]
   \<and> concat [[demo_snapshot ''aa'' 0 1, demo_snapshot ''b'' 1 2], [demo_snapshot ''cccccc'' 2 3]]
     = [demo_snapshot ''aa'' 0 1, demo_snapshot ''b'' 1 2, demo_snapshot ''cccccc'' 2 3]"
proof -
  have "chunk_source_segments [demo_snapshot ''aa'' 0 1, demo_snapshot ''b'' 1 2, demo_snapshot ''cccccc'' 2 3] 2 4
     = Inr [[demo_snapshot ''aa'' 0 1, demo_snapshot ''b'' 1 2], [demo_snapshot ''cccccc'' 2 3]]" by code_simp
  with chunking_correct [OF this] show ?thesis by blast
qed

subsection \<open>Accepting the provider's answer\<close>

definition count_in :: "'a \<Rightarrow> 'a list \<Rightarrow> nat" where
  "count_in x xs = length (filter (\<lambda>y. y = x) xs)"

text \<open>The timing check of one section; \<open>sources_by_id\<close> is the dictionary of the snapshots.\<close>

definition section_timing_ok ::
  "(string, source_segment_snapshot) dict \<Rightarrow> script_section \<Rightarrow> bool" where
  "section_timing_ok sources_by_id section \<longleftrightarrow>
     (let referenced = map (\<lambda>i. the (dict_get sources_by_id i)) (sc_source_segment_ids section) in
      sc_start_ms section = Min (set (map ss_audio_start_ms referenced))
      \<and> sc_end_ms section = Max (set (map ss_audio_end_ms referenced)))"

definition parse_script_content ::
  "(string \<Rightarrow> script_content option) \<Rightarrow> string \<Rightarrow> source_segment_snapshot list \<Rightarrow> script_content res" where
  "parse_script_content decode content source_segments =
     (if py_strip content = [] then Inl (ValueError ''DeepSeek returned empty content'')
      else if source_segments = [] then Inl (ValueError ''source segment snapshot is empty'')
      else case (case decode content of None \<Rightarrow> Inl (ValueError []) | Some raw \<Rightarrow> validate_content raw) of
          Inl _ \<Rightarrow> Inl (ValueError ''DeepSeek output is not valid script JSON'')
        | Inr parsed \<Rightarrow>
            let sources_by_id = foldl (\<lambda>d s. dict_set d (ss_segment_id s) s) [] source_segments;
                referenced_ids = concat (map sc_source_segment_ids (pc_sections parsed))
            in if length sources_by_id \<noteq> length source_segments
               then Inl (ValueError ''source snapshot contains duplicate segment IDs'')
               else if list_ex (\<lambda>i. dict_get sources_by_id i = None) referenced_ids
               then Inl (ValueError ''script references a foreign source segment'')
               else if list_ex (\<lambda>i. count_in i referenced_ids \<noteq> 1) referenced_ids
               then Inl (ValueError ''source segments must not be referenced more than once'')
               else if set referenced_ids \<noteq> set (map fst sources_by_id)
               then Inl (ValueError ''every source segment must be referenced exactly once'')
               else if list_ex (\<lambda>s. \<not> section_timing_ok sources_by_id s) (pc_sections parsed)
               then Inl (ValueError ''script section timing does not match its source references'')
               else Inr parsed)"

lemma dict_set_length:
  "length (dict_set d k v) = (if dict_get d k = None then Suc (length d) else length d)"
  by (induction d k v rule: dict_set.induct) auto

lemma foldl_dict_set_keys:
  "set (map fst (foldl (\<lambda>d s. dict_set d (f s) s) d xs)) = set (map fst d) \<union> f ` set xs"
proof (induction xs arbitrary: d)
  case (Cons x xs)
  then show ?case using dict_keys_set [of d "f x" x] by simp
qed simp

lemma foldl_dict_set_length:
  "length (foldl (\<lambda>d s. dict_set d (f s) s) d xs) \<le> length d + length xs
   \<and> (length (foldl (\<lambda>d s. dict_set d (f s) s) d xs) = length d + length xs \<longrightarrow>
        distinct (map f xs) \<and> (\<forall>x \<in> set xs. dict_get d (f x) = None))"
proof (induction xs arbitrary: d)
  case (Cons x xs)
  let ?d = "dict_set d (f x) x"
  have l: "length ?d \<le> Suc (length d)" "length ?d = Suc (length d) \<longleftrightarrow> dict_get d (f x) = None"
    by (simp_all add: dict_set_length)
  show ?case
  proof (intro conjI impI)
    show "length (foldl (\<lambda>d s. dict_set d (f s) s) d (x # xs)) \<le> length d + length (x # xs)"
      using Cons.IH [of ?d] l(1) by simp
    assume eq: "length (foldl (\<lambda>d s. dict_set d (f s) s) d (x # xs)) = length d + length (x # xs)"
    then have "length ?d = Suc (length d)" using Cons.IH [of ?d] l(1) by simp
    with eq have "distinct (map f xs)" "\<forall>y \<in> set xs. dict_get ?d (f y) = None" "dict_get d (f x) = None"
      using Cons.IH [of ?d] l(2) by simp_all
    then show "distinct (map f (x # xs))" "\<forall>y \<in> set (x # xs). dict_get d (f y) = None"
      by (auto split: if_splits)
  qed
qed simp

lemma foldl_dict_set_get:
  "distinct (map f xs) \<Longrightarrow> x \<in> set xs \<Longrightarrow>
     dict_get (foldl (\<lambda>d s. dict_set d (f s) s) d xs) (f x) = Some x"
proof (induction xs arbitrary: d)
  case (Cons y ys)
  have other: "dict_get (foldl (\<lambda>d s. dict_set d (f s) s) d zs) k = dict_get d k" if "k \<notin> f ` set zs" for zs d k
    using that by (induction zs arbitrary: d) auto
  show ?case using Cons other [of "f y" ys] by (auto simp: image_iff)
qed simp

lemma distinct_count_in: "(\<forall>x \<in> set xs. count_in x xs = 1) \<longleftrightarrow> distinct xs"
proof -
  have c: "count_in x xs = count (mset xs) x" for x
    by (induction xs) (auto simp: count_in_def)
  show ?thesis
    unfolding distinct_count_atmost_1 c by (auto simp: not_in_iff [symmetric])
qed

lemma validate_sections_all:
  "validate_sections ss = Inr ss' \<Longrightarrow> x \<in> set ss' \<Longrightarrow>
     sc_source_segment_ids x \<noteq> [] \<and> 0 \<le> sc_start_ms x \<and> sc_start_ms x \<le> sc_end_ms x \<and> sc_clean_text x \<noteq> []"
  by (induction ss arbitrary: ss')
    (auto simp: rbind_eq_Inr validate_section_def not_less split: if_splits)

lemma section_sources:
  assumes "distinct (map ss_segment_id sources)" "set ids \<subseteq> ss_segment_id ` set sources"
  shows "set (map f (map (\<lambda>i. the (dict_get (foldl (\<lambda>d s. dict_set d (ss_segment_id s) s) [] sources) i)) ids))
     = f ` {s \<in> set sources. ss_segment_id s \<in> set ids}"
proof -
  let ?d = "foldl (\<lambda>d s. dict_set d (ss_segment_id s) s) [] sources"
  have get: "the (dict_get ?d (ss_segment_id s)) = s" if "s \<in> set sources" for s
    using foldl_dict_set_get [OF assms(1) that, of "[]"] by simp
  have "(\<lambda>i. the (dict_get ?d i)) ` set ids = {s \<in> set sources. ss_segment_id s \<in> set ids}"
  proof (intro equalityI subsetI)
    fix x assume "x \<in> (\<lambda>i. the (dict_get ?d i)) ` set ids"
    then obtain i where i: "i \<in> set ids" "x = the (dict_get ?d i)" by blast
    then obtain s where "s \<in> set sources" "i = ss_segment_id s" using assms(2) by blast
    with i get show "x \<in> {s \<in> set sources. ss_segment_id s \<in> set ids}" by simp
  next
    fix x assume "x \<in> {s \<in> set sources. ss_segment_id s \<in> set ids}"
    then show "x \<in> (\<lambda>i. the (dict_get ?d i)) ` set ids" using get by force
  qed
  then show ?thesis by (simp only: set_map image_image [symmetric])
qed

text \<open>
  C22. A provider's script is accepted only if it accounts for the meeting: whatever the
  provider answers (and whatever the JSON decoder makes of it), when \<open>parse_script_content\<close>
  returns, every source segment is referenced exactly once over all sections and nothing else
  is referenced, each section has text and spans exactly the audio of its own sources.
\<close>

theorem script_covers_sources:
  assumes "parse_script_content decode content sources = Inr script"
  shows "mset (concat (map sc_source_segment_ids (pc_sections script))) = mset (map ss_segment_id sources)
    \<and> distinct (map ss_segment_id sources)
    \<and> (\<forall>x \<in> set (pc_sections script). sc_source_segment_ids x \<noteq> [] \<and> sc_clean_text x \<noteq> []
         \<and> sc_start_ms x = Min (ss_audio_start_ms ` {s \<in> set sources. ss_segment_id s \<in> set (sc_source_segment_ids x)})
         \<and> sc_end_ms x = Max (ss_audio_end_ms ` {s \<in> set sources. ss_segment_id s \<in> set (sc_source_segment_ids x)}))"
proof -
  let ?d = "foldl (\<lambda>d s. dict_set d (ss_segment_id s) s) [] sources"
  let ?r = "concat (map sc_source_segment_ids (pc_sections script))"
  obtain raw where v: "validate_content raw = Inr script"
    and len: "length ?d = length sources" and cnt: "\<forall>i \<in> set ?r. count_in i ?r = 1"
    and keys: "set ?r = set (map fst ?d)"
    and timing: "\<forall>s \<in> set (pc_sections script). section_timing_ok ?d s"
    using assms
    by (auto simp: parse_script_content_def Let_def list_ex_iff split: if_splits sum.splits option.splits)
  have dist: "distinct (map ss_segment_id sources)"
    using foldl_dict_set_length [of ss_segment_id "[]" sources] len by simp
  have ids: "set ?r = ss_segment_id ` set sources"
    using keys foldl_dict_set_keys [of ss_segment_id "[]" sources] by simp
  have "distinct ?r" using cnt by (simp only: distinct_count_in)
  then have "mset ?r = mset (map ss_segment_id sources)"
    using dist ids by (intro set_eq_iff_mset_eq_distinct [THEN iffD1]) simp_all
  moreover have "sc_source_segment_ids x \<noteq> [] \<and> sc_clean_text x \<noteq> []
      \<and> sc_start_ms x = Min (ss_audio_start_ms ` {s \<in> set sources. ss_segment_id s \<in> set (sc_source_segment_ids x)})
      \<and> sc_end_ms x = Max (ss_audio_end_ms ` {s \<in> set sources. ss_segment_id s \<in> set (sc_source_segment_ids x)})"
    if x: "x \<in> set (pc_sections script)" for x
  proof -
    obtain ss where "validate_sections ss = Inr (pc_sections script)"
      using v by (auto simp: validate_content_def rbind_eq_Inr split: if_splits)
    from validate_sections_all [OF this x] have a: "sc_source_segment_ids x \<noteq> []" "sc_clean_text x \<noteq> []" by auto
    have sub: "set (sc_source_segment_ids x) \<subseteq> ss_segment_id ` set sources" using x ids by auto
    have "section_timing_ok ?d x" using timing x by blast
    then show ?thesis
      unfolding section_timing_ok_def Let_def section_sources [OF dist sub] using a by simp
  qed
  ultimately show ?thesis using dist by blast
qed

definition demo_script :: script_content where
  "demo_script = \<lparr>pc_title = ''Talk'', pc_sections =
     [\<lparr>sc_source_segment_ids = [''b'', ''a''], sc_start_ms = 0, sc_end_ms = 9, sc_clean_text = ''Hello.'',
       sc_notes = []\<rparr>], pc_warnings = []\<rparr>"

theorem script_covers_sources_witness:
  "parse_script_content (\<lambda>_. Some demo_script) ''{}'' [demo_snapshot ''a'' 0 4, demo_snapshot ''b'' 4 9] = Inr demo_script
   \<and> mset (concat (map sc_source_segment_ids (pc_sections demo_script))) = mset [''a'', ''b'']"
proof -
  have p: "parse_script_content (\<lambda>_. Some demo_script) ''{}'' [demo_snapshot ''a'' 0 4, demo_snapshot ''b'' 4 9]
      = Inr demo_script" by code_simp
  with script_covers_sources [OF p] show ?thesis by (simp add: demo_snapshot_def)
qed

subsection \<open>Rendering\<close>

fun script_section_lines :: "script_section list \<Rightarrow> string list res" where
  "script_section_lines [] = Inr []"
| "script_section_lines (s # ss) =
     rbind (format_timestamp (sc_start_ms s) ''.'') (\<lambda>start.
     rbind (format_timestamp (sc_end_ms s) ''.'') (\<lambda>end_t.
     rbind (script_section_lines ss) (\<lambda>lines.
       Inr ([''['' @ start @ '' - '' @ end_t @ '']'', sc_clean_text s, [],
             ''Source segments: '' @ py_join '', ''
               (map (\<lambda>i. [CHR 0x60] @ one_line i @ [CHR 0x60]) (sc_source_segment_ids s))]
            @ (if sc_notes s \<noteq> [] then [''Notes: '' @ py_join ''; '' (sc_notes s)] else [])
            @ [[]] @ lines))))"

definition render_processed_script_markdown ::
  "(instant \<Rightarrow> string) \<Rightarrow> script_content \<Rightarrow> string \<Rightarrow> string \<Rightarrow> nat \<Rightarrow> instant \<Rightarrow> string res" where
  "render_processed_script_markdown isoformat content provider model version created_at =
     rbind (script_section_lines (pc_sections content)) (\<lambda>body.
       Inr (py_join [LF] (
         [''# '' @ one_line (pc_title content), [], ''Provider: '' @ one_line provider,
          ''Model: '' @ one_line model, ''Version: '' @ show_nat version,
          ''Generated: '' @ isoformat created_at, []]
         @ body
         @ (if pc_warnings content \<noteq> []
            then [''## Warnings'', []] @ map (\<lambda>w. ''- '' @ w) (pc_warnings content) @ [[]] else []))))"

lemma script_section_lines_ok:
  "\<forall>s \<in> set ss. 0 \<le> sc_start_ms s \<and> sc_start_ms s \<le> sc_end_ms s \<Longrightarrow> succeeds (script_section_lines ss)"
proof (induction ss)
  case (Cons s ss)
  then have "\<exists>t. format_timestamp (sc_start_ms s) ''.'' = Inr t" "\<exists>t. format_timestamp (sc_end_ms s) ''.'' = Inr t"
    by (auto intro!: format_timestamp_nonneg)
  with Cons show ?case by (auto simp: succeeds_iff)
qed simp

text \<open>An accepted script can always be rendered.\<close>

lemma accepted_script_renders:
  assumes "parse_script_content decode content sources = Inr script"
  shows "succeeds (render_processed_script_markdown isof script provider model version created_at)"
proof -
  obtain ss where "validate_sections ss = Inr (pc_sections script)"
    using assms by (auto simp: parse_script_content_def validate_content_def rbind_eq_Inr Let_def
        split: if_splits sum.splits option.splits)
  then have "succeeds (script_section_lines (pc_sections script))"
    by (intro script_section_lines_ok) (auto dest: validate_sections_all)
  then show ?thesis by (auto simp: render_processed_script_markdown_def succeeds_iff)
qed

end
