(* ===== verification/Caption_Runtime.thy ===== *)
theory Caption_Runtime
  imports Session_Repository Segment_Store
begin

section \<open>The worker's caption runtime\<close>

text \<open>
  Models \<open>captions/runtime.py\<close> (\<open>WorkerCaptionRuntime\<close>), the component that drives the
  reconciler, the session and segment repositories and the publisher for one audio track,
  and \<open>errors.py\<close>. A handler may raise after it has already written, so its result is the
  new state together with the exception, if any; the database part of a failed unit of work
  is rolled back. The publisher is an argument that decides for each message whether
  sending it raises. Log lines are not modelled.
\<close>

subsection \<open>Errors\<close>

text \<open>
  The exception classes \<open>error_category\<close> distinguishes: a \<open>CategorizedError\<close> with its category,
  the two kinds of recognition errors, a database error, and any other.
\<close>

datatype worker_error = Categorized string | ASR_Authentication | ASR_Other | SQLAlchemy_Error | Other_Error

definition PUBLIC_ERROR_MESSAGES :: "(string, string) dict" where
  "PUBLIC_ERROR_MESSAGES = [
     (''configuration_error'', ''The application configuration is incomplete.''),
     (''media_decode_error'', ''The audio file could not be decoded.''),
     (''livekit_error'', ''The realtime media connection failed.''),
     (''asr_auth_error'', ''Speech recognition authentication failed.''),
     (''asr_stream_error'', ''Speech recognition stopped before completion.''),
     (''persistence_error'', ''Session data could not be saved.''),
     (''deepseek_error'', ''Processed script generation failed.''),
     (''export_error'', ''Transcript export failed.'')]"

fun error_category :: "worker_error \<Rightarrow> string \<Rightarrow> string" where
  "error_category (Categorized c) dflt = c"
| "error_category ASR_Authentication dflt = ''asr_auth_error''"
| "error_category ASR_Other dflt = ''asr_stream_error''"
| "error_category SQLAlchemy_Error dflt = ''persistence_error''"
| "error_category Other_Error dflt = dflt"

definition public_error_for :: "worker_error \<Rightarrow> string \<Rightarrow> (string \<times> string) res" where
  "public_error_for error dflt =
     (let category = error_category error dflt in
      case dict_get PUBLIC_ERROR_MESSAGES category of
        None \<Rightarrow> Inl (KeyError category)
      | Some message \<Rightarrow> Inr (category, message))"

subsection \<open>State\<close>

record runtime_config =
  rc_session_id :: string
  rc_track_id :: string
  rc_language :: string
  rc_source_type :: string
  rc_provider_name :: string
  rc_model_name :: string
  rc_has_translation :: bool

record transcription_totals =
  tm_final_result_count :: int
  tm_first_partial_latency_ms :: "rat option"
  tm_average_final_latency_ms :: "rat option"
  tm_provider_error_count :: int
  tm_sent_audio_chunk_count :: int
  tm_sent_audio_bytes :: int

datatype message =
    Caption_Message caption_event
  | Status_Message string
  | Progress_Message int
  | Metrics_Message transcription_totals
  | Error_Message string string

record caption_world =
  cw_reconciler :: transcript_reconciler
  cw_terminal :: bool
  cw_closed :: bool
  cw_source_cleanup_recorded :: bool
  cw_first_partial_logged :: bool
  cw_sessions :: session_table
  cw_segments :: segment_table
  cw_translations :: translation_table
  cw_published :: "message list"

type_synonym run = "caption_world \<times> py_error option"

definition runtime_init ::
  "runtime_config \<Rightarrow> session_table \<Rightarrow> segment_table \<Rightarrow> translation_table \<Rightarrow> caption_world res" where
  "runtime_init cfg sessions segs trs =
     (if rc_session_id cfg = [] then Inl (ValueError ''session_id is required'')
      else if rc_track_id cfg = [] then Inl (ValueError ''track_id is required'')
      else if rc_language cfg = [] then Inl (ValueError ''language is required'')
      else if rc_source_type cfg = [] then Inl (ValueError ''source_type is required'')
      else if rc_provider_name cfg = [] then Inl (ValueError ''provider_name is required'')
      else if rc_model_name cfg = [] then Inl (ValueError ''model_name is required'')
      else rbind (reconciler_init (rc_session_id cfg)) (\<lambda>r.
        Inr \<lparr>cw_reconciler = r, cw_terminal = False, cw_closed = False,
             cw_source_cleanup_recorded = False, cw_first_partial_logged = False,
             cw_sessions = sessions, cw_segments = segs, cw_translations = trs,
             cw_published = []\<rparr>))"

subsection \<open>Effects\<close>

definition and_then :: "run \<Rightarrow> (caption_world \<Rightarrow> run) \<Rightarrow> run" where
  "and_then r f = (case r of (w, None) \<Rightarrow> f w | (w, Some e) \<Rightarrow> (w, Some e))"

definition publish :: "(message \<Rightarrow> py_error option) \<Rightarrow> message \<Rightarrow> caption_world \<Rightarrow> run" where
  "publish sends m w =
     (case sends m of
        Some e \<Rightarrow> (w, Some e)
      | None \<Rightarrow> (w\<lparr>cw_published := cw_published w @ [m]\<rparr>, None))"

text \<open>A unit of work: commit on success, roll back and raise otherwise.\<close>

definition persist_sessions :: "(session_table \<Rightarrow> (session_table \<times> session_record) res) \<Rightarrow> caption_world \<Rightarrow> run" where
  "persist_sessions f w =
     (case f (cw_sessions w) of
        Inl e \<Rightarrow> (w, Some e)
      | Inr (db, _) \<Rightarrow> (w\<lparr>cw_sessions := db\<rparr>, None))"

definition persist_final :: "runtime_config \<Rightarrow> instant \<Rightarrow> string \<Rightarrow> caption_event \<Rightarrow> caption_world \<Rightarrow> run" where
  "persist_final cfg now new_id caption w =
     (case upsert_final (cw_segments w) caption (rc_track_id cfg) (rc_language cfg) new_id now of
        Inl e \<Rightarrow> (w, Some e)
      | Inr (segs, _) \<Rightarrow>
          (w\<lparr>cw_segments := segs,
             cw_translations := (if rc_has_translation cfg
               then realign_session segs (cw_translations w) (rc_session_id cfg) now
               else cw_translations w)\<rparr>, None))"

definition persist_replay_started :: "runtime_config \<Rightarrow> instant \<Rightarrow> caption_world \<Rightarrow> run" where
  "persist_replay_started cfg now =
     persist_sessions (\<lambda>db.
       rbind (session_start_replay db (rc_session_id cfg) None now) (\<lambda>(db1, r).
         if rc_source_type cfg \<noteq> ''hls'' then session_mark_source_running db1 (rc_session_id cfg)
         else Inr (db1, r)))"

definition persist_transcribing :: "runtime_config \<Rightarrow> instant \<Rightarrow> caption_world \<Rightarrow> run" where
  "persist_transcribing cfg now =
     persist_sessions (\<lambda>db. session_mark_transcribing db (rc_session_id cfg) (rc_provider_name cfg)
       (rc_model_name cfg) None now)"

definition persist_finalizing :: "runtime_config \<Rightarrow> instant \<Rightarrow> caption_world \<Rightarrow> run" where
  "persist_finalizing cfg now =
     persist_sessions (\<lambda>db. session_begin_finalizing db (rc_session_id cfg) None now)"

definition persist_completion :: "runtime_config \<Rightarrow> instant \<Rightarrow> transcription_totals \<Rightarrow> caption_world \<Rightarrow> run" where
  "persist_completion cfg now t =
     persist_sessions (\<lambda>db. session_complete db (rc_session_id cfg) (tm_final_result_count t)
       (tm_first_partial_latency_ms t) (tm_average_final_latency_ms t) (tm_provider_error_count t)
       (tm_sent_audio_chunk_count t) (tm_sent_audio_bytes t) None None now)"

definition persist_failure :: "runtime_config \<Rightarrow> instant \<Rightarrow> string \<Rightarrow> string \<Rightarrow> caption_world \<Rightarrow> run" where
  "persist_failure cfg now error_code message =
     persist_sessions (\<lambda>db. session_fail db (rc_session_id cfg) error_code message None now)"

definition persist_cancellation :: "runtime_config \<Rightarrow> instant \<Rightarrow> caption_world \<Rightarrow> run" where
  "persist_cancellation cfg now =
     persist_sessions (\<lambda>db. session_cancel db (rc_session_id cfg) None ''worker_cancelled'' now)"

text \<open>\<open>_refresh_external_terminal_state\<close>: continue with the flag only if the session is still live.\<close>

definition unless_ended :: "runtime_config \<Rightarrow> (caption_world \<Rightarrow> run) \<Rightarrow> caption_world \<Rightarrow> run" where
  "unless_ended cfg f w =
     (case session_get_required (cw_sessions w) (rc_session_id cfg) of
        Inl e \<Rightarrow> (w, Some e)
      | Inr r \<Rightarrow>
          if ses_status r \<notin> set (map status_value TERMINAL_SESSION_STATES) then f w
          else (w\<lparr>cw_terminal := True\<rparr>, None))"

subsection \<open>Handlers\<close>

definition start_replay :: "runtime_config \<Rightarrow> (message \<Rightarrow> py_error option) \<Rightarrow> instant \<Rightarrow> caption_world \<Rightarrow> run" where
  "start_replay cfg sends now w =
     (if cw_terminal w then (w, None)
      else and_then (persist_replay_started cfg now w) (publish sends (Status_Message ''running'')))"

definition fail :: "runtime_config \<Rightarrow> (message \<Rightarrow> py_error option) \<Rightarrow> instant \<Rightarrow> worker_error \<Rightarrow> caption_world \<Rightarrow> run" where
  "fail cfg sends now error w =
     (if cw_terminal w then (w, None)
      else case public_error_for error ''asr_stream_error'' of
          Inl e \<Rightarrow> (w, Some e)
        | Inr (error_code, message) \<Rightarrow>
            and_then (persist_failure cfg now error_code message w) (\<lambda>w.
            and_then (publish sends (Error_Message error_code message) w) (\<lambda>w.
            and_then (publish sends (Status_Message ''failed'') w) (\<lambda>w.
              (w\<lparr>cw_terminal := True\<rparr>, None)))))"

definition handle_asr_event ::
  "runtime_config \<Rightarrow> (message \<Rightarrow> py_error option) \<Rightarrow> instant \<Rightarrow> string \<Rightarrow> asr_event \<Rightarrow> caption_world \<Rightarrow> run" where
  "handle_asr_event cfg sends now new_id event w =
     (if cw_terminal w then (w, None)
      else if ae_event_type event = asr_event_type.STREAM_STARTED
      then and_then (persist_transcribing cfg now w) (publish sends (Status_Message ''running''))
      else if ae_event_type event = asr_event_type.STREAM_ERROR then fail cfg sends now ASR_Other w
      else case consume_caption (cw_reconciler w) event of
          Inl e \<Rightarrow> (w, Some e)
        | Inr (rec, None) \<Rightarrow> (w\<lparr>cw_reconciler := rec\<rparr>, None)
        | Inr (rec, Some caption) \<Rightarrow>
            let w1 = w\<lparr>cw_reconciler := rec,
                       cw_first_partial_logged := (cw_first_partial_logged w \<or> \<not> caption_is_final caption)\<rparr>
            in and_then (if caption_is_final caption then persist_final cfg now new_id caption w1 else (w1, None))
                 (publish sends (Caption_Message caption)))"

definition publish_progress :: "(message \<Rightarrow> py_error option) \<Rightarrow> int \<Rightarrow> caption_world \<Rightarrow> run" where
  "publish_progress sends audio_time_ms w =
     (if cw_terminal w then (w, None) else publish sends (Progress_Message audio_time_ms) w)"

definition complete ::
  "runtime_config \<Rightarrow> (message \<Rightarrow> py_error option) \<Rightarrow> instant \<Rightarrow> transcription_totals \<Rightarrow> caption_world \<Rightarrow> run" where
  "complete cfg sends now metrics w =
     (if cw_terminal w then (w, None)
      else unless_ended cfg (\<lambda>w.
        and_then (persist_completion cfg now metrics w) (\<lambda>w.
        and_then (publish sends (Metrics_Message metrics) (w\<lparr>cw_terminal := True\<rparr>))
          (publish sends (Status_Message ''completed'')))) w)"

definition begin_finalizing :: "runtime_config \<Rightarrow> (message \<Rightarrow> py_error option) \<Rightarrow> instant \<Rightarrow> caption_world \<Rightarrow> run" where
  "begin_finalizing cfg sends now w =
     (if cw_terminal w then (w, None)
      else unless_ended cfg (\<lambda>w.
        and_then (persist_finalizing cfg now w) (publish sends (Status_Message ''finalizing''))) w)"

definition cancel :: "runtime_config \<Rightarrow> (message \<Rightarrow> py_error option) \<Rightarrow> instant \<Rightarrow> caption_world \<Rightarrow> run" where
  "cancel cfg sends now w =
     (if cw_terminal w then (w, None)
      else and_then (persist_cancellation cfg now w) (\<lambda>w.
           and_then (publish sends (Status_Message ''cancelled'') w) (\<lambda>w.
             (w\<lparr>cw_terminal := True\<rparr>, None))))"

definition complete_source_cleanup :: "runtime_config \<Rightarrow> instant \<Rightarrow> caption_world \<Rightarrow> run" where
  "complete_source_cleanup cfg now w =
     (if rc_source_type cfg = ''hls'' \<or> cw_source_cleanup_recorded w then (w, None)
      else and_then (persist_sessions (\<lambda>db. session_mark_source_stopped db (rc_session_id cfg)
               (Some ''Worker audio resources released.'') None now) w)
             (\<lambda>w. (w\<lparr>cw_source_cleanup_recorded := True\<rparr>, None)))"

definition fail_source_cleanup :: "runtime_config \<Rightarrow> instant \<Rightarrow> string \<Rightarrow> caption_world \<Rightarrow> run" where
  "fail_source_cleanup cfg now error_type w =
     (if rc_source_type cfg = ''hls'' \<or> cw_source_cleanup_recorded w then (w, None)
      else and_then (persist_sessions (\<lambda>db. session_mark_source_cleanup_failed db (rc_session_id cfg)
               (''Worker audio resource cleanup failed ('' @ error_type @ '').'') now) w)
             (\<lambda>w. (w\<lparr>cw_source_cleanup_recorded := True\<rparr>, None)))"

definition aclose :: "caption_world \<Rightarrow> run" where
  "aclose w = (if cw_closed w then (w, None) else (w\<lparr>cw_closed := True\<rparr>, None))"

datatype runtime_call =
    Start_Replay | Handle_Event asr_event | Publish_Progress int | Complete transcription_totals
  | Begin_Finalizing | Fail worker_error | Cancel | Complete_Source_Cleanup
  | Fail_Source_Cleanup string | Aclose

fun run_call ::
  "runtime_config \<Rightarrow> (message \<Rightarrow> py_error option) \<Rightarrow> instant \<Rightarrow> string \<Rightarrow> runtime_call \<Rightarrow> caption_world \<Rightarrow> run" where
  "run_call cfg sends now new_id Start_Replay w = start_replay cfg sends now w"
| "run_call cfg sends now new_id (Handle_Event e) w = handle_asr_event cfg sends now new_id e w"
| "run_call cfg sends now new_id (Publish_Progress t) w = publish_progress sends t w"
| "run_call cfg sends now new_id (Complete m) w = complete cfg sends now m w"
| "run_call cfg sends now new_id Begin_Finalizing w = begin_finalizing cfg sends now w"
| "run_call cfg sends now new_id (Fail e) w = fail cfg sends now e w"
| "run_call cfg sends now new_id Cancel w = cancel cfg sends now w"
| "run_call cfg sends now new_id Complete_Source_Cleanup w = complete_source_cleanup cfg now w"
| "run_call cfg sends now new_id (Fail_Source_Cleanup t) w = fail_source_cleanup cfg now t w"
| "run_call cfg sends now new_id Aclose w = aclose w"

subsection \<open>Handlers that emit no caption\<close>

text \<open>
  What every effect except the caption path does: it leaves the reconciler and the segments
  alone, publishes no caption and moves the session table by operations of its repository.
\<close>

definition is_caption :: "message \<Rightarrow> bool" where
  "is_caption m \<longleftrightarrow> (\<exists>c. m = Caption_Message c)"

definition tame :: "caption_world \<Rightarrow> caption_world \<Rightarrow> bool" where
  "tame w w' \<longleftrightarrow> cw_reconciler w' = cw_reconciler w \<and> cw_segments w' = cw_segments w
     \<and> filter is_caption (cw_published w') = filter is_caption (cw_published w)
     \<and> (session_reachable (cw_sessions w) \<longrightarrow> session_reachable (cw_sessions w'))"

lemma tame_refl [simp]: "tame w w"
  by (simp add: tame_def)

lemma tame_trans: "tame a b \<Longrightarrow> tame b c \<Longrightarrow> tame a c"
  by (simp add: tame_def)

lemma tame_publish: "\<not> is_caption m \<Longrightarrow> tame w (fst (publish sends m w))"
  by (auto simp: publish_def tame_def split: option.splits)

lemma tame_and_then:
  "tame w (fst r) \<Longrightarrow> (\<And>w'. tame w' (fst (f w'))) \<Longrightarrow> tame w (fst (and_then r f))"
  by (auto simp: and_then_def split: prod.splits option.splits intro: tame_trans)

lemma tame_persist:
  "(\<And>db db' r. f db = Inr (db', r) \<Longrightarrow> session_reachable db \<Longrightarrow> session_reachable db') \<Longrightarrow>
     tame w (fst (persist_sessions f w))"
  by (auto simp: persist_sessions_def tame_def split: sum.splits)

lemma tame_unless_ended: "(\<And>w'. tame w' (fst (f w'))) \<Longrightarrow> tame w (fst (unless_ended cfg f w))"
  by (auto simp: unless_ended_def tame_def split: sum.splits)

lemma tame_flags [simp]:
  "tame w (w\<lparr>cw_terminal := b\<rparr>)" "tame w (w\<lparr>cw_source_cleanup_recorded := b\<rparr>)" "tame w (w\<lparr>cw_closed := b\<rparr>)"
  by (simp_all add: tame_def)

lemma not_caption [simp]:
  "\<not> is_caption (Status_Message s)" "\<not> is_caption (Progress_Message n)"
  "\<not> is_caption (Metrics_Message t)" "\<not> is_caption (Error_Message a b)"
  by (simp_all add: is_caption_def)

lemma reachable_step: "session_step db db' \<Longrightarrow> session_reachable db \<Longrightarrow> session_reachable db'"
  by (blast intro: session_reachable.reach_step)

lemma tame_persist_step:
  "(\<And>db db' r. f db = Inr (db', r) \<Longrightarrow> session_step db db') \<Longrightarrow> tame w (fst (persist_sessions f w))"
  by (rule tame_persist) (blast intro: reachable_step)

lemma tame_persist_replay: "tame w (fst (persist_replay_started cfg now w))"
  unfolding persist_replay_started_def
proof (rule tame_persist)
  fix db db' r
  assume f: "rbind (session_start_replay db (rc_session_id cfg) None now) (\<lambda>(db1, r).
      if rc_source_type cfg \<noteq> ''hls'' then session_mark_source_running db1 (rc_session_id cfg)
      else Inr (db1, r)) = Inr (db', r)" and reach: "session_reachable db"
  then obtain db1 r1 where s: "session_start_replay db (rc_session_id cfg) None now = Inr (db1, r1)"
    "(if rc_source_type cfg \<noteq> ''hls'' then session_mark_source_running db1 (rc_session_id cfg)
      else Inr (db1, r1)) = Inr (db', r)"
    by (auto simp: rbind_eq_Inr)
  have "session_reachable db1"
    using step_named [OF session_named_step.step_start_replay [OF s(1)]] reach by (rule reachable_step)
  with s(2) show "session_reachable db'"
    by (auto split: if_splits dest: session_named_step.step_source_running [THEN step_named] intro: reachable_step)
qed

lemma tame_persists:
  "tame w (fst (persist_transcribing cfg now w))" "tame w (fst (persist_finalizing cfg now w))"
  "tame w (fst (persist_completion cfg now t w))" "tame w (fst (persist_failure cfg now ec em w))"
  "tame w (fst (persist_cancellation cfg now w))"
  unfolding persist_transcribing_def persist_finalizing_def persist_completion_def
    persist_failure_def persist_cancellation_def
  by (rule tame_persist_step, rule step_named, erule session_named_step.step_mark_transcribing,
      rule tame_persist_step, rule step_named, erule session_named_step.step_begin_finalizing,
      rule tame_persist_step, rule step_named, erule session_named_step.step_complete,
      rule tame_persist_step, rule step_named, erule session_named_step.step_fail,
      rule tame_persist_step, rule step_named, erule session_named_step.step_cancel)

lemmas tame_intros = tame_and_then tame_publish tame_unless_ended tame_persist_replay tame_persists

lemma tame_fail: "tame w (fst (fail cfg sends now e w))"
  unfolding fail_def
  by (auto split: sum.splits intro!: tame_intros)

lemma tame_handlers:
  "tame w (fst (start_replay cfg sends now w))" "tame w (fst (publish_progress sends t w))"
  "tame w (fst (complete cfg sends now m w))" "tame w (fst (begin_finalizing cfg sends now w))"
  "tame w (fst (cancel cfg sends now w))" "tame w (fst (aclose w))"
  "tame w (fst (complete_source_cleanup cfg now w))" "tame w (fst (fail_source_cleanup cfg now et w))"
proof -
  have stop: "tame w (fst (persist_sessions (\<lambda>db. session_mark_source_stopped db i d ca now) w))"
    "tame w (fst (persist_sessions (\<lambda>db. session_mark_source_cleanup_failed db i d' now) w))" for w i d ca d'
    by (rule tame_persist_step, rule step_named, erule session_named_step.step_source_stopped,
        rule tame_persist_step, rule step_named, erule session_named_step.step_cleanup_failed)
  show "tame w (fst (start_replay cfg sends now w))" by (auto simp: start_replay_def intro!: tame_intros)
  show "tame w (fst (publish_progress sends t w))" by (auto simp: publish_progress_def intro!: tame_intros)
  show "tame w (fst (begin_finalizing cfg sends now w))" by (auto simp: begin_finalizing_def intro!: tame_intros)
  show "tame w (fst (cancel cfg sends now w))" by (auto simp: cancel_def intro!: tame_intros)
  show "tame w (fst (aclose w))" by (simp add: aclose_def)
  show "tame w (fst (complete_source_cleanup cfg now w))" "tame w (fst (fail_source_cleanup cfg now et w))"
    by (auto simp: complete_source_cleanup_def fail_source_cleanup_def intro!: tame_and_then stop)
  have "tame v (fst (and_then (publish sends (Metrics_Message m) (v\<lparr>cw_terminal := True\<rparr>))
      (publish sends (Status_Message ''completed''))))" for v
    by (rule tame_trans [of _ "v\<lparr>cw_terminal := True\<rparr>"]) (auto intro!: tame_intros)
  note last = this
  show "tame w (fst (complete cfg sends now m w))"
    by (cases "cw_terminal w")
       (simp_all add: complete_def tame_unless_ended tame_and_then tame_persists(3) last)
qed


subsection \<open>The runtime invariant\<close>

fun final_of :: "message \<Rightarrow> caption_event option" where
  "final_of (Caption_Message c) = (if caption_is_final c then Some c else None)"
| "final_of m = None"

definition published_finals :: "caption_world \<Rightarrow> caption_event list" where
  "published_finals w = List.map_filter final_of (cw_published w)"

text \<open>A published Final is durable: its row holds its revision and its text.\<close>

definition durable :: "runtime_config \<Rightarrow> segment_table \<Rightarrow> caption_event \<Rightarrow> bool" where
  "durable cfg segs c \<longleftrightarrow> ce_session_id c = rc_session_id cfg \<and>
     (\<exists>r. segment_lookup segs (rc_session_id cfg, ce_segment_id c) = Some r
        \<and> sg_revision r = ce_revision c \<and> sg_display_text r = ce_text c)"

definition runtime_inv :: "runtime_config \<Rightarrow> caption_world \<Rightarrow> bool" where
  "runtime_inv cfg w \<longleftrightarrow>
     session_reachable (cw_sessions w) \<and> segment_table_inv (cw_segments w)
     \<and> reconciler_inv (cw_reconciler w) \<and> tr_session_id (cw_reconciler w) = rc_session_id cfg
     \<and> (\<forall>k. segment_lookup (cw_segments w) (rc_session_id cfg, k) \<noteq> None
           \<longrightarrow> finalized_in (cw_reconciler w) k)
     \<and> (\<forall>c \<in> set (published_finals w). durable cfg (cw_segments w) c)
     \<and> distinct (map ce_segment_id (published_finals w))"

lemma map_filter_filter_some:
  "(\<And>x. f x \<noteq> None \<Longrightarrow> P x) \<Longrightarrow> List.map_filter f (filter P xs) = List.map_filter f xs"
  by (induction xs) (auto simp: List.map_filter_simps split: option.splits)

lemma final_of_caption: "final_of m \<noteq> None \<Longrightarrow> is_caption m"
  by (cases m) (auto simp: is_caption_def)

lemma tame_finals: "tame w w' \<Longrightarrow> published_finals w' = published_finals w"
  using map_filter_filter_some [of final_of is_caption, OF final_of_caption]
  by (metis tame_def published_finals_def)

lemma runtime_inv_tame: "tame w w' \<Longrightarrow> runtime_inv cfg w \<Longrightarrow> runtime_inv cfg w'"
  by (frule tame_finals) (simp add: tame_def runtime_inv_def)

lemma published_finals_append [simp]:
  "published_finals (w\<lparr>cw_published := cw_published w @ [m]\<rparr>)
     = published_finals w @ (case final_of m of None \<Rightarrow> [] | Some c \<Rightarrow> [c])"
  by (simp add: published_finals_def List.map_filter_def split: option.splits)

lemma published_finals_other [simp]:
  "published_finals (w\<lparr>cw_reconciler := a\<rparr>) = published_finals w"
  "published_finals (w\<lparr>cw_first_partial_logged := b\<rparr>) = published_finals w"
  "published_finals (w\<lparr>cw_segments := c\<rparr>) = published_finals w"
  "published_finals (w\<lparr>cw_translations := d\<rparr>) = published_finals w"
  by (simp_all add: published_finals_def)

lemma emitted_session:
  assumes "consume_caption s ev = Inr (s', Some c)"
  shows "ce_session_id c = tr_session_id s"
  using assms
proof (cases rule: consume_caption_cases)
  case (emitted A B k tx)
  from emitted(2) show ?thesis
    by (rule emit_caption_Inr) (auto simp: filed_def split: if_splits)
qed simp

text \<open>The segment was not finalized before, so its row is new and exactly the caption's.\<close>

lemma persist_final_durable:
  assumes fresh: "segment_lookup segs (rc_session_id cfg, ce_segment_id c) = None"
    and sid: "ce_session_id c = rc_session_id cfg"
    and up: "upsert_final segs c t l i now = Inr (segs', r)"
  shows "segment_lookup segs' = (segment_lookup segs)((rc_session_id cfg, ce_segment_id c) \<mapsto> r)
    \<and> durable cfg segs' c"
proof -
  have "put_segment (t, l, i, now) segs c = Inr (segs', r)" using up by (simp add: put_segment_def)
  from segments.put_fresh [OF this] show ?thesis using fresh sid by (simp add: durable_def fun_eq_iff)
qed

lemma durable_keeps:
  "durable cfg segs d \<Longrightarrow> ce_segment_id d \<noteq> k \<Longrightarrow>
     segment_lookup segs' = (segment_lookup segs)((rc_session_id cfg, k) \<mapsto> r) \<Longrightarrow> durable cfg segs' d"
  by (simp add: durable_def fun_eq_iff)

lemma finals_finalized:
  "runtime_inv cfg w \<Longrightarrow> c \<in> set (published_finals w) \<Longrightarrow> finalized_in (cw_reconciler w) (ce_segment_id c)"
  by (auto simp: runtime_inv_def durable_def)

lemma final_caption_step:
  assumes inv: "runtime_inv cfg w" and con: "consume_caption (cw_reconciler w) ev = Inr (rec, Some c)"
    and fin: "caption_is_final c"
    and up: "upsert_final (cw_segments w) c t l i now = Inr (segs, r)"
    and w': "w' = w\<lparr>cw_reconciler := rec, cw_first_partial_logged := b, cw_segments := segs, cw_translations := trs\<rparr>"
  shows "runtime_inv cfg w' \<and> runtime_inv cfg (w'\<lparr>cw_published := cw_published w' @ [Caption_Message c]\<rparr>)"
proof -
  note I = inv [unfolded runtime_inv_def]
  have e: "\<not> finalized_in (cw_reconciler w) (ce_segment_id c)"
    "finalized_in rec = (finalized_in (cw_reconciler w))(ce_segment_id c := True)"
    using transcript.emitted_state [OF _ con] I fin by auto
  have sid: "ce_session_id c = rc_session_id cfg" using emitted_session [OF con] I by simp
  have "segment_lookup (cw_segments w) (rc_session_id cfg, ce_segment_id c) = None" using I e(1) by blast
  note d = persist_final_durable [OF this sid up]
  have new: "ce_segment_id x \<noteq> ce_segment_id c" if "x \<in> set (published_finals w)" for x
    using finals_finalized [OF inv that] e(1) by metis
  then have old: "durable cfg segs x" if "x \<in> set (published_finals w)" for x
    using that I d durable_keeps by blast
  have rec: "reconciler_inv rec \<and> tr_session_id rec = rc_session_id cfg"
    using transcript.inv_consume [OF _ con] consume_caption_shown [OF _ con] I by simp
  have fin_rows: "finalized_in rec k" if "segment_lookup segs (rc_session_id cfg, k) \<noteq> None" for k
    using that d I e(2) by (auto simp: fun_eq_iff split: if_splits)
  have base: "runtime_inv cfg w'"
    using I rec fin_rows old upsert_final_inv [OF _ up] by (simp add: runtime_inv_def w')
  moreover have "ce_segment_id c \<notin> ce_segment_id ` set (published_finals w)" using new by force
  moreover have "published_finals w' = published_finals w" by (simp add: w')
  ultimately show ?thesis
    using d fin by (simp add: runtime_inv_def published_finals_append) (simp add: w')
qed

lemma draft_caption_step:
  assumes inv: "runtime_inv cfg w" and con: "consume_caption (cw_reconciler w) ev = Inr (rec, out)"
    and w': "w' = w\<lparr>cw_reconciler := rec, cw_first_partial_logged := b\<rparr>"
  shows "runtime_inv cfg w'"
proof -
  note I = inv [unfolded runtime_inv_def]
  have "finalized_in (cw_reconciler w) k \<Longrightarrow> finalized_in rec k" for k
    using transcript.emitted_state [of "cw_reconciler w" ev rec] transcript.silent_state [of "cw_reconciler w" ev rec]
      con I by (cases out) auto
  moreover have "reconciler_inv rec \<and> tr_session_id rec = rc_session_id cfg"
    using transcript.inv_consume [OF _ con] consume_caption_shown [OF _ con] I by simp
  ultimately show ?thesis using I by (simp add: runtime_inv_def w')
qed

lemma publish_draft_inv:
  "runtime_inv cfg w \<Longrightarrow> final_of m = None \<Longrightarrow> runtime_inv cfg (fst (publish sends m w))"
  by (auto simp: publish_def runtime_inv_def split: option.splits)

lemma handle_asr_event_inv:
  assumes inv: "runtime_inv cfg w"
  shows "runtime_inv cfg (fst (handle_asr_event cfg sends now i ev w))"
proof -
  have start: "tame w (fst (and_then (persist_transcribing cfg now w) (publish sends (Status_Message ''running''))))"
    by (auto intro!: tame_intros)
  have result: "runtime_inv cfg (fst (and_then
        (if caption_is_final c then persist_final cfg now i c w1 else (w1, None))
        (publish sends (Caption_Message c))))"
    if con: "consume_caption (cw_reconciler w) ev = Inr (rec, Some c)"
      and w1: "w1 = w\<lparr>cw_reconciler := rec, cw_first_partial_logged := b\<rparr>" for rec c w1 b
  proof (cases "caption_is_final c")
    case False
    then show ?thesis
      using draft_caption_step [OF inv con w1] by (simp add: and_then_def publish_draft_inv)
  next
    case True
    show ?thesis
    proof (cases "upsert_final (cw_segments w) c (rc_track_id cfg) (rc_language cfg) i now")
      case (Inl e)
      with True draft_caption_step [OF inv con w1] show ?thesis
        by (simp add: and_then_def persist_final_def w1)
    next
      case (Inr p)
      obtain segs r where p: "p = (segs, r)" by (cases p)
      define trs where "trs = (if rc_has_translation cfg
          then realign_session segs (cw_translations w) (rc_session_id cfg) now else cw_translations w)"
      have "persist_final cfg now i c w1 = (w1\<lparr>cw_segments := segs, cw_translations := trs\<rparr>, None)"
        using Inr p by (simp add: persist_final_def w1 trs_def)
      with final_caption_step [OF inv con True Inr [unfolded p] refl, where b = b and trs = trs] True Inr p
      show ?thesis
        by (simp add: and_then_def w1 publish_def split: option.splits)
    qed
  qed
  show ?thesis
  proof (cases "consume_caption (cw_reconciler w) ev")
    case (Inl e)
    then show ?thesis
      using inv runtime_inv_tame [OF start inv] runtime_inv_tame [OF tame_fail inv]
      by (simp add: handle_asr_event_def)
  next
    case (Inr p)
    obtain rec out where p: "p = (rec, out)" by (cases p)
    show ?thesis
    proof (cases out)
      case None
      with Inr p show ?thesis
        using inv runtime_inv_tame [OF start inv] runtime_inv_tame [OF tame_fail inv]
          draft_caption_step [OF inv, of ev rec None _ "cw_first_partial_logged w"]
        by (simp add: handle_asr_event_def)
    next
      case (Some c)
      with Inr p show ?thesis
        using inv runtime_inv_tame [OF start inv] runtime_inv_tame [OF tame_fail inv]
          result [OF _ refl]
        by (simp add: handle_asr_event_def Let_def)
    qed
  qed
qed

lemma run_call_inv: "runtime_inv cfg w \<Longrightarrow> runtime_inv cfg (fst (run_call cfg sends now i call w))"
  by (cases call) (auto intro: runtime_inv_tame [OF tame_handlers(1)] runtime_inv_tame [OF tame_handlers(2)]
      runtime_inv_tame [OF tame_handlers(3)] runtime_inv_tame [OF tame_handlers(4)]
      runtime_inv_tame [OF tame_handlers(5)] runtime_inv_tame [OF tame_handlers(6)]
      runtime_inv_tame [OF tame_handlers(7)] runtime_inv_tame [OF tame_handlers(8)]
      runtime_inv_tame [OF tame_fail] handle_asr_event_inv)

subsection \<open>Runs of a worker\<close>

text \<open>
  One worker serves one session. Around its calls other processes work on the same
  database: they change session rows only by repository operations, and segment rows of
  other sessions only.
\<close>

definition others_wrote :: "runtime_config \<Rightarrow> segment_table \<Rightarrow> segment_table \<Rightarrow> bool" where
  "others_wrote cfg segs segs' \<longleftrightarrow> segment_table_inv segs' \<and>
     (\<forall>k. segment_lookup segs' (rc_session_id cfg, k) = segment_lookup segs (rc_session_id cfg, k))"

inductive runtime_reach :: "runtime_config \<Rightarrow> caption_world \<Rightarrow> bool" for cfg where
  start: "runtime_init cfg ses segs trs = Inr w \<Longrightarrow> session_reachable ses \<Longrightarrow> segment_table_inv segs \<Longrightarrow>
      list_all (\<lambda>r. sg_session_id r \<noteq> rc_session_id cfg) segs \<Longrightarrow> runtime_reach cfg w"
| call: "runtime_reach cfg w \<Longrightarrow> runtime_reach cfg (fst (run_call cfg sends now i c w))"
| session_moved: "runtime_reach cfg w \<Longrightarrow> session_step (cw_sessions w) ses \<Longrightarrow>
      runtime_reach cfg (w\<lparr>cw_sessions := ses\<rparr>)"
| segments_moved: "runtime_reach cfg w \<Longrightarrow> others_wrote cfg (cw_segments w) segs \<Longrightarrow>
      runtime_reach cfg (w\<lparr>cw_segments := segs\<rparr>)"
| translations_moved: "runtime_reach cfg w \<Longrightarrow> runtime_reach cfg (w\<lparr>cw_translations := trs\<rparr>)"

lemma runtime_init_inv:
  assumes "runtime_init cfg ses segs trs = Inr w" "session_reachable ses" "segment_table_inv segs"
    "list_all (\<lambda>r. sg_session_id r \<noteq> rc_session_id cfg) segs"
  shows "runtime_inv cfg w"
proof -
  from assms(1) obtain r where r: "reconciler_init (rc_session_id cfg) = Inr r"
    "cw_reconciler w = r" "cw_sessions w = ses" "cw_segments w = segs" "cw_published w = []"
    by (auto simp: runtime_init_def rbind_eq_Inr split: if_splits)
  have "segment_lookup segs (rc_session_id cfg, k) = None" for k
    using assms(4) by (auto simp: find_row_None segment_key_def list_all_iff)
  with r init_projections [OF r(1)] assms(2,3) show ?thesis
    by (simp add: runtime_inv_def published_finals_def List.map_filter_simps)
qed

lemma runtime_reach_inv: "runtime_reach cfg w \<Longrightarrow> runtime_inv cfg w"
proof (induction rule: runtime_reach.induct)
  case (session_moved w ses)
  then show ?case
    by (auto simp: runtime_inv_def published_finals_def intro: reachable_step)
next
  case (segments_moved w segs)
  then show ?case
    by (simp add: runtime_inv_def others_wrote_def durable_def)
qed (auto intro: runtime_init_inv run_call_inv, simp add: runtime_inv_def)


subsection \<open>The terminal flag\<close>

definition session_ended :: "session_table \<Rightarrow> string \<Rightarrow> bool" where
  "session_ended db sid \<longleftrightarrow> (\<exists>r \<in> set db. ses_id r = sid
     \<and> ses_status r \<in> set (map status_value TERMINAL_SESSION_STATES))"

definition flag_inv :: "runtime_config \<Rightarrow> caption_world \<Rightarrow> bool" where
  "flag_inv cfg w \<longleftrightarrow> session_reachable (cw_sessions w)
     \<and> (cw_terminal w \<longrightarrow> session_ended (cw_sessions w) (rc_session_id cfg))"

definition ended_inv :: "runtime_config \<Rightarrow> caption_world \<Rightarrow> bool" where
  "ended_inv cfg w \<longleftrightarrow> session_reachable (cw_sessions w)
     \<and> session_ended (cw_sessions w) (rc_session_id cfg)"

lemma ended_status: "s \<in> set (map status_value TERMINAL_SESSION_STATES) \<longleftrightarrow> (\<exists>t. s = status_value t \<and> is_terminal t)"
  by (auto simp: TERMINAL_SESSION_STATES_def)

lemma session_ended_evolves:
  assumes "list_all2 session_evolves db db'" "session_ended db sid"
  shows "session_ended db' sid"
proof -
  from assms(2) obtain r where r: "r \<in> set db" "ses_id r = sid"
    "ses_status r \<in> set (map status_value TERMINAL_SESSION_STATES)"
    by (auto simp: session_ended_def)
  then obtain t where t: "ses_status r = status_value t" "is_terminal t" by (auto simp only: ended_status)
  from assms(1) r(1) obtain r' where r': "r' \<in> set db'" "session_evolves r r'"
    by (metis list_all2_conv_all_nth in_set_conv_nth)
  with session_evolves_status [OF r'(2) t(1)] t(2) have "ses_status r' = status_value t" by blast
  then have "ses_status r' \<in> set (map status_value TERMINAL_SESSION_STATES)"
    unfolding ended_status using t(2) by blast
  with r' r(2) session_evolves_id [OF r'(2)] show ?thesis unfolding session_ended_def by auto
qed

lemma session_ended_step:
  "session_reachable db \<Longrightarrow> session_step db db' \<Longrightarrow> session_ended db sid \<Longrightarrow> session_ended db' sid"
  using session_ended_evolves session_step_evolves session_reachable_ids by blast

lemma modify_row_stored:
  "modify_row key k e f rows = Inr (rows', r') \<Longrightarrow> r' \<in> set rows' \<and> (\<exists>r. key r = k \<and> f r = Inr r')"
  by (auto simp: modify_row_def rbind_eq_Inr set_update_rows split: option.splits dest!: find_row_Some)

lemma transition_row_target:
  "transition_row t ca now r = Inr r' \<Longrightarrow> ses_status r' = status_value t \<and> ses_id r' = ses_id r"
  unfolding transition_row_Inr by (elim exE conjE) (cases "ses_status r = status_value t", simp_all add: set_status_def split: if_splits)

lemma ended_by_modify:
  assumes "session_modify db sid (\<lambda>rec. rbind (transition_row t ca now rec) (\<lambda>rec. Inr (g rec))) = Inr (db', r)"
    and "is_terminal t" and "\<And>r. ses_status (g r) = ses_status r \<and> ses_id (g r) = ses_id r"
  shows "session_ended db' sid"
proof -
  obtain r0 r1 where r: "r \<in> set db'" "ses_id r0 = sid" "transition_row t ca now r0 = Inr r1" "r = g r1"
    using modify_row_stored [OF assms(1)] by (auto simp: rbind_eq_Inr)
  have "ses_status r = status_value t" "ses_id r = sid"
    using transition_row_target [OF r(3)] r assms(3) by simp_all
  then have "ses_status r \<in> set (map status_value TERMINAL_SESSION_STATES)"
    unfolding ended_status using assms(2) by blast
  with r(1) \<open>ses_id r = sid\<close> show ?thesis unfolding session_ended_def by blast
qed

lemma ended_by_ops:
  "session_complete db sid a b c d e f ca sr now = Inr (db', r) \<Longrightarrow> session_ended db' sid"
  "session_fail db sid ec em ca now = Inr (db', r) \<Longrightarrow> session_ended db' sid"
  "session_cancel db sid ca rs now = Inr (db', r) \<Longrightarrow> session_ended db' sid"
  unfolding session_complete_def session_fail_def session_cancel_def
  by (auto split: if_splits elim!: ended_by_modify
      simp: completion_columns_def failure_columns_def cancellation_columns_def)

lemma and_then_hoare:
  assumes "snd r \<noteq> None \<Longrightarrow> I (fst r)" "snd r = None \<Longrightarrow> Q (fst r)" "\<And>w. Q w \<Longrightarrow> I (fst (f w))"
  shows "I (fst (and_then r f))"
  using assms by (cases r) (auto simp: and_then_def split: option.splits)

lemma and_then_inv: "I (fst r) \<Longrightarrow> (\<And>w. I w \<Longrightarrow> I (fst (f w))) \<Longrightarrow> I (fst (and_then r f))"
  by (rule and_then_hoare [where Q = I])

lemma flag_publish:
  "flag_inv cfg w \<Longrightarrow> flag_inv cfg (fst (publish sends m w))"
  "ended_inv cfg w \<Longrightarrow> ended_inv cfg (fst (publish sends m w))"
  by (auto simp: publish_def flag_inv_def ended_inv_def split: option.splits)

lemma flag_persist_step:
  assumes "\<And>db db' r. f db = Inr (db', r) \<Longrightarrow> session_step db db'" and "flag_inv cfg w"
  shows "flag_inv cfg (fst (persist_sessions f w))"
  using assms session_ended_step
  by (auto simp: persist_sessions_def flag_inv_def split: sum.splits intro: reachable_step)

lemma persist_ends:
  assumes "\<And>db db' r. f db = Inr (db', r) \<Longrightarrow> session_step db db' \<and> session_ended db' (rc_session_id cfg)"
    and "flag_inv cfg w" "snd (persist_sessions f w) = None"
  shows "ended_inv cfg (fst (persist_sessions f w))"
  using assms
  by (auto simp: persist_sessions_def flag_inv_def ended_inv_def split: sum.splits intro: reachable_step)

lemma flag_set_terminal: "ended_inv cfg w \<Longrightarrow> flag_inv cfg (w\<lparr>cw_terminal := b\<rparr>)"
  by (simp add: ended_inv_def flag_inv_def)

lemma ended_flag: "ended_inv cfg w \<Longrightarrow> flag_inv cfg w"
  by (simp add: ended_inv_def flag_inv_def)

lemma ended_set_terminal: "ended_inv cfg w \<Longrightarrow> ended_inv cfg (w\<lparr>cw_terminal := b\<rparr>)"
  by (simp add: ended_inv_def)

lemma flag_persists:
  assumes "flag_inv cfg w"
  shows "flag_inv cfg (fst (persist_transcribing cfg now w))" "flag_inv cfg (fst (persist_finalizing cfg now w))"
    "flag_inv cfg (fst (persist_completion cfg now t w))" "flag_inv cfg (fst (persist_failure cfg now ec em w))"
    "flag_inv cfg (fst (persist_cancellation cfg now w))"
    "flag_inv cfg (fst (persist_sessions (\<lambda>db. session_mark_source_stopped db i d ca now) w))"
    "flag_inv cfg (fst (persist_sessions (\<lambda>db. session_mark_source_cleanup_failed db i d' now) w))"
  unfolding persist_transcribing_def persist_finalizing_def persist_completion_def
    persist_failure_def persist_cancellation_def
  by (rule flag_persist_step [OF _ assms], rule step_named, erule session_named_step.intros)+

lemma flag_persist_replay:
  assumes "flag_inv cfg w"
  shows "flag_inv cfg (fst (persist_replay_started cfg now w))"
proof -
  have "session_reachable db' \<and> (session_ended db sid \<longrightarrow> session_ended db' sid)"
    if s: "rbind (session_start_replay db (rc_session_id cfg) None now) (\<lambda>(db1, r).
      if rc_source_type cfg \<noteq> ''hls'' then session_mark_source_running db1 (rc_session_id cfg)
      else Inr (db1, r)) = Inr (db', r)" "session_reachable db" for db db' r sid
  proof -
    from s(1) obtain db1 r1 where s1: "session_start_replay db (rc_session_id cfg) None now = Inr (db1, r1)"
      "(if rc_source_type cfg \<noteq> ''hls'' then session_mark_source_running db1 (rc_session_id cfg)
        else Inr (db1, r1)) = Inr (db', r)"
      by (auto simp: rbind_eq_Inr)
    note st = step_named [OF session_named_step.step_start_replay [OF s1(1)]]
    have "session_step db1 db' \<or> db' = db1"
      using s1(2) by (auto split: if_splits intro: session_named_step.step_source_running [THEN step_named])
    with st s(2) session_ended_step [OF s(2) st] reachable_step [OF st s(2)] show ?thesis
      using session_ended_step reachable_step by blast
  qed
  with assms show ?thesis
    by (auto simp: persist_replay_started_def persist_sessions_def flag_inv_def split: sum.splits)
qed

lemma persist_ends_ops:
  assumes "flag_inv cfg w"
  shows "snd (persist_completion cfg now t w) = None \<Longrightarrow> ended_inv cfg (fst (persist_completion cfg now t w))"
    "snd (persist_failure cfg now ec em w) = None \<Longrightarrow> ended_inv cfg (fst (persist_failure cfg now ec em w))"
    "snd (persist_cancellation cfg now w) = None \<Longrightarrow> ended_inv cfg (fst (persist_cancellation cfg now w))"
  unfolding persist_completion_def persist_failure_def persist_cancellation_def
  by (rule persist_ends [OF _ assms]; blast intro: step_named session_named_step.intros ended_by_ops)+

lemma flag_unless_ended:
  assumes "flag_inv cfg w" "\<And>w. flag_inv cfg w \<Longrightarrow> flag_inv cfg (fst (f w))"
  shows "flag_inv cfg (fst (unless_ended cfg f w))"
  using assms
  by (auto simp: unless_ended_def flag_inv_def session_get_required_def session_get_def session_ended_def
      split: option.splits dest!: find_row_Some)

text \<open>Announcing an ended session keeps it ended, whether or not sending raises.\<close>

lemma ended_publish_then:
  "ended_inv cfg w \<Longrightarrow> (\<And>w. ended_inv cfg w \<Longrightarrow> flag_inv cfg (fst (f w))) \<Longrightarrow>
     flag_inv cfg (fst (and_then (publish sends m w) f))"
  by (rule and_then_hoare [where Q = "ended_inv cfg"]) (auto intro: flag_publish ended_flag)

lemma flag_end_then:
  assumes "flag_inv cfg w" "\<And>w. ended_inv cfg w \<Longrightarrow> flag_inv cfg (fst (f w))"
  shows "flag_inv cfg (fst (and_then (persist_completion cfg now t w) f))"
    "flag_inv cfg (fst (and_then (persist_failure cfg now ec em w) f))"
    "flag_inv cfg (fst (and_then (persist_cancellation cfg now w) f))"
  by (rule and_then_hoare [where Q = "ended_inv cfg"],
      simp_all add: assms flag_persists persist_ends_ops)+

lemma flag_fail: "flag_inv cfg w \<Longrightarrow> flag_inv cfg (fst (fail cfg sends now e w))"
  by (simp add: fail_def flag_set_terminal ended_publish_then flag_end_then(2) split: sum.splits)

lemma flag_seen: "flag_inv cfg (w\<lparr>cw_reconciler := r\<rparr>) = flag_inv cfg w"
  "flag_inv cfg (w\<lparr>cw_first_partial_logged := b\<rparr>) = flag_inv cfg w"
  "flag_inv cfg (w\<lparr>cw_segments := segs\<rparr>) = flag_inv cfg w"
  "flag_inv cfg (w\<lparr>cw_translations := trs\<rparr>) = flag_inv cfg w"
  "flag_inv cfg (w\<lparr>cw_closed := b\<rparr>) = flag_inv cfg w"
  "flag_inv cfg (w\<lparr>cw_source_cleanup_recorded := b\<rparr>) = flag_inv cfg w"
  by (simp_all add: flag_inv_def)

lemma flag_persist_final: "flag_inv cfg w \<Longrightarrow> flag_inv cfg (fst (persist_final cfg now i c w))"
  by (simp add: persist_final_def flag_inv_def split: sum.splits prod.splits)

lemma flag_handle_asr_event:
  assumes "flag_inv cfg w"
  shows "flag_inv cfg (fst (handle_asr_event cfg sends now i ev w))"
proof -
  have cap: "flag_inv cfg (fst (and_then
      (if caption_is_final c then persist_final cfg now i c w1 else (w1, None))
      (publish sends (Caption_Message c))))" if "flag_inv cfg w1" for w1 c
    using that by (auto intro!: and_then_inv [where I = "flag_inv cfg"] flag_publish(1) flag_persist_final)
  have start: "flag_inv cfg (fst (and_then (persist_transcribing cfg now w) (publish sends m)))" for m
    by (rule and_then_inv [where I = "flag_inv cfg"]) (auto intro: assms flag_persists flag_publish(1))
  have seen: "flag_inv cfg (w\<lparr>cw_reconciler := r, cw_first_partial_logged := b\<rparr>)"
    "flag_inv cfg (w\<lparr>cw_reconciler := r\<rparr>)" for r b
    using assms by (simp_all add: flag_seen)
  show ?thesis
    using assms start flag_fail [OF assms] cap [OF seen(1)] seen(2)
    by (simp add: handle_asr_event_def Let_def split: sum.splits prod.splits option.splits)
qed

lemma run_call_flag:
  assumes "flag_inv cfg w"
  shows "flag_inv cfg (fst (run_call cfg sends now i call w))"
proof (cases call)
  case Start_Replay
  show ?thesis
    using assms and_then_inv [where I = "flag_inv cfg", OF flag_persist_replay [OF assms] flag_publish(1)]
    by (simp add: Start_Replay start_replay_def)
next
  case (Publish_Progress t)
  with assms show ?thesis by (simp add: publish_progress_def flag_publish(1))
next
  case (Complete t)
  have "flag_inv cfg (fst (and_then (publish sends m (v\<lparr>cw_terminal := b\<rparr>)) (publish sends m')))"
    if "ended_inv cfg v" for m m' v b
    by (rule ended_publish_then) (auto intro: that ended_set_terminal ended_flag flag_publish)
  with assms Complete show ?thesis
    by (simp add: complete_def flag_unless_ended flag_end_then(1))
next
  case Begin_Finalizing
  have "flag_inv cfg (fst (and_then (persist_finalizing cfg now v) (publish sends m)))"
    if "flag_inv cfg v" for v m
    by (rule and_then_inv [where I = "flag_inv cfg"]) (auto intro: that flag_persists flag_publish(1))
  with assms Begin_Finalizing show ?thesis by (simp add: begin_finalizing_def flag_unless_ended)
next
  case Cancel
  with assms show ?thesis
    by (simp add: cancel_def flag_end_then(3) ended_publish_then flag_set_terminal)
next
  case Complete_Source_Cleanup
  with assms show ?thesis
    by (simp add: complete_source_cleanup_def and_then_inv [where I = "flag_inv cfg"] flag_persists flag_seen)
next
  case (Fail_Source_Cleanup t)
  with assms show ?thesis
    by (simp add: fail_source_cleanup_def and_then_inv [where I = "flag_inv cfg"] flag_persists flag_seen)
qed (use assms in \<open>simp_all add: flag_handle_asr_event flag_fail aclose_def flag_seen\<close>)

lemma runtime_reach_flag: "runtime_reach cfg w \<Longrightarrow> flag_inv cfg w"
proof (induction rule: runtime_reach.induct)
  case (start ses segs trs w)
  then show ?case by (auto simp: runtime_init_def flag_inv_def rbind_eq_Inr split: if_splits)
next
  case (session_moved w ses)
  then show ?case using session_ended_step by (auto simp: flag_inv_def intro: reachable_step)
qed (simp_all add: run_call_flag flag_seen)


subsection \<open>What a run guarantees\<close>

text \<open>
  C23. Durability before publication: in every state a worker can reach (calls in any order,
  any publisher failures, repository operations of other processes in between), every Final
  caption that was published belongs to the worker's session and is stored under its segment
  with the published revision and text; no segment has two published Finals; and the session
  and segment tables still satisfy their invariants.
\<close>

theorem published_finals_durable:
  assumes "runtime_reach cfg w"
  shows "(\<forall>c. Caption_Message c \<in> set (cw_published w) \<and> caption_is_final c \<longrightarrow>
      ce_session_id c = rc_session_id cfg \<and>
      (\<exists>r. segment_lookup (cw_segments w) (rc_session_id cfg, ce_segment_id c) = Some r
         \<and> sg_revision r = ce_revision c \<and> sg_display_text r = ce_text c \<and> sg_status r = ''final''))
    \<and> distinct (map ce_segment_id (published_finals w))
    \<and> session_reachable (cw_sessions w) \<and> segment_table_inv (cw_segments w)"
proof -
  note I = runtime_reach_inv [OF assms, unfolded runtime_inv_def]
  have final: "sg_status r = ''final''" if "segment_lookup (cw_segments w) k = Some r" for k r
    using I that by (auto simp: segment_table_inv_def list_all_iff dest: find_row_Some)
  have "c \<in> set (published_finals w)" if "Caption_Message c \<in> set (cw_published w)" "caption_is_final c" for c
    using that by (force simp: published_finals_def List.map_filter_def)
  with I final show ?thesis by (fastforce simp: durable_def)
qed

definition demo_config :: runtime_config where
  "demo_config = \<lparr>rc_session_id = ''s1'', rc_track_id = ''t1'', rc_language = ''en'', rc_source_type = ''hls'',
     rc_provider_name = ''p'', rc_model_name = ''m'', rc_has_translation = False\<rparr>"

definition demo_world :: caption_world where
  "demo_world = projr (runtime_init demo_config [demo_session] [] [])"

definition demo_final_event :: asr_event where
  "demo_final_event = demo_event FINAL_RESULT ''e1'' ''a'' ''hello'' 1"

definition demo_sent :: caption_world where
  "demo_sent = fst (run_call demo_config (\<lambda>_. None) 5 ''r1'' (Handle_Event demo_final_event) demo_world)"

definition demo_ended :: caption_world where
  "demo_ended = fst (run_call demo_config (\<lambda>_. None) 6 ''r2'' Cancel demo_world)"

lemma demo_world_reach: "runtime_reach demo_config demo_world"
proof (rule runtime_reach.start)
  show "runtime_init demo_config [demo_session] [] [] = Inr demo_world"
    by (simp add: demo_world_def runtime_init_def demo_config_def reconciler_init_def)
qed (simp_all add: demo_session_reachable segment_table_inv_def)

lemma demo_sent_published:
  "map ce_text (published_finals demo_sent) = [''hello'']" "list_all (\<lambda>m. final_of m \<noteq> None) (cw_published demo_sent)"
  by code_simp+

lemma demo_ended_flag: "cw_terminal demo_ended"
  by code_simp

theorem published_finals_durable_witness:
  "runtime_reach demo_config demo_sent \<and> map ce_text (published_finals demo_sent) = [''hello'']
   \<and> segment_table_inv (cw_segments demo_sent)"
proof -
  have reach: "runtime_reach demo_config demo_sent"
    unfolding demo_sent_def by (rule runtime_reach.call [OF demo_world_reach])
  from published_finals_durable [OF this] reach demo_sent_published show ?thesis by simp
qed

text \<open>
  C24. The end of a run is final and agrees with the database: once the worker's terminal flag
  is set, the session's row has a terminal status, and any further call publishes nothing,
  stores no segment and changes no session; only the two source-cleanup calls may still write
  to the session row, and they leave it in a terminal status.
\<close>

theorem runtime_terminal_final:
  assumes "runtime_reach cfg w" "cw_terminal w" "run_call cfg sends now i c w = (w', e)"
  shows "session_ended (cw_sessions w) (rc_session_id cfg)
    \<and> session_ended (cw_sessions w') (rc_session_id cfg)
    \<and> cw_terminal w' \<and> cw_published w' = cw_published w \<and> cw_segments w' = cw_segments w
    \<and> cw_translations w' = cw_translations w \<and> cw_reconciler w' = cw_reconciler w
    \<and> (c = Complete_Source_Cleanup \<or> (\<exists>t. c = Fail_Source_Cleanup t)
       \<or> cw_sessions w' = cw_sessions w \<and> e = None)"
proof -
  have "flag_inv cfg w'"
    using runtime_reach_flag [OF runtime_reach.call [OF assms(1)], of sends now i c] assms(3) by simp
  moreover have "cw_terminal w' \<and> cw_published w' = cw_published w \<and> cw_segments w' = cw_segments w
    \<and> cw_translations w' = cw_translations w \<and> cw_reconciler w' = cw_reconciler w
    \<and> (c = Complete_Source_Cleanup \<or> (\<exists>t. c = Fail_Source_Cleanup t) \<or> cw_sessions w' = cw_sessions w \<and> e = None)"
    using assms(2,3)
    by (cases c) (auto simp: start_replay_def handle_asr_event_def publish_progress_def complete_def
        begin_finalizing_def fail_def cancel_def aclose_def complete_source_cleanup_def
        fail_source_cleanup_def and_then_def persist_sessions_def split: if_splits sum.splits)
  ultimately show ?thesis
    using runtime_reach_flag [OF assms(1)] assms(2) by (simp add: flag_inv_def)
qed

theorem runtime_terminal_final_witness:
  "runtime_reach demo_config demo_ended \<and> cw_terminal demo_ended
   \<and> session_ended (cw_sessions demo_ended) ''s1''"
proof -
  have reach: "runtime_reach demo_config demo_ended"
    unfolding demo_ended_def by (rule runtime_reach.call [OF demo_world_reach])
  have "run_call demo_config (\<lambda>_. None) 7 ''r3'' Start_Replay demo_ended = (demo_ended, None)"
    by (simp add: start_replay_def demo_ended_flag)
  from runtime_terminal_final [OF reach demo_ended_flag this] reach demo_ended_flag
  show ?thesis by (simp add: demo_config_def)
qed

end
