(* ===== verification/Canonical_Json.thy ===== *)
theory Canonical_Json
  imports Prelude "HOL-Library.Multiset"
begin

section \<open>Canonical JSON\<close>

text \<open>
  Models \<open>packages/canonical.py\<close>: \<open>canonical_json\<close>, the byte string that every content hash of
  the backend is taken of. It is \<open>json.dumps\<close> with sorted keys, no spaces and
  \<open>ensure_ascii=False\<close>, encoded as UTF-8. The values are those \<open>model_dump(mode="json")\<close>
  produces; integers and floats are kept apart, as \<open>json.dumps\<close> writes them differently.

  The representation of a float (\<open>float.__repr__\<close>) and SHA-256 are arguments. What is used of
  the first is \<open>float_repr\<close>: it is injective and never looks like an integer.
\<close>

subsection \<open>Values\<close>

datatype jvalue =
    VNull
  | VBool bool
  | VInt int
  | VFloat rat
  | VStr string
  | VArr "jvalue list"
  | VObj "(string \<times> jvalue) list"

fun jwf :: "jvalue \<Rightarrow> bool" where
  "jwf (VArr xs) \<longleftrightarrow> list_all jwf xs"
| "jwf (VObj es) \<longleftrightarrow> distinct (map fst es) \<and> list_all (\<lambda>e. jwf (snd e)) es"
| "jwf _ \<longleftrightarrow> True"

text \<open>The same value up to the order of the keys of its dictionaries.\<close>

fun sort_keys :: "jvalue \<Rightarrow> jvalue" where
  "sort_keys (VArr xs) = VArr (map sort_keys xs)"
| "sort_keys (VObj es) = VObj (sort_key fst (map (\<lambda>e. (fst e, sort_keys (snd e))) es))"
| "sort_keys v = v"

subsection \<open>\<open>json.dumps\<close>\<close>

definition hex_digit :: "nat \<Rightarrow> char" where
  "hex_digit n = (if n < 10 then char_of (48 + n) else char_of (87 + n))"

definition escape_char :: "char \<Rightarrow> string" where
  "escape_char c = (let n = (of_char c :: nat) in
     if n = 34 then [CHR 0x5C, CHR 0x22]
     else if n = 92 then [CHR 0x5C, CHR 0x5C]
     else if n = 10 then [CHR 0x5C, CHR ''n'']
     else if n = 13 then [CHR 0x5C, CHR ''r'']
     else if n = 9 then [CHR 0x5C, CHR ''t'']
     else if n = 12 then [CHR 0x5C, CHR ''f'']
     else if n = 8 then [CHR 0x5C, CHR ''b'']
     else if n < 32 then [CHR 0x5C, CHR ''u'', CHR ''0'', CHR ''0'', hex_digit (n div 16), hex_digit (n mod 16)]
     else [c])"

definition dumps_str :: "string \<Rightarrow> string" where
  "dumps_str s = [CHR 0x22] @ concat (map escape_char s) @ [CHR 0x22]"

definition dumps_int :: "int \<Rightarrow> string" where
  "dumps_int i = (if i < 0 then CHR ''-'' # show_nat (nat (- i)) else show_nat (nat i))"

fun dumps_value :: "(rat \<Rightarrow> string) \<Rightarrow> jvalue \<Rightarrow> string" where
  "dumps_value repr VNull = ''null''"
| "dumps_value repr (VBool b) = (if b then ''true'' else ''false'')"
| "dumps_value repr (VInt i) = dumps_int i"
| "dumps_value repr (VFloat x) = repr x"
| "dumps_value repr (VStr s) = dumps_str s"
| "dumps_value repr (VArr xs) = ''['' @ py_join '','' (map (dumps_value repr) xs) @ '']''"
| "dumps_value repr (VObj es) =
     ''{'' @ py_join '','' (map (\<lambda>e. dumps_str (fst e) @ '':'' @ dumps_value repr (snd e)) es) @ ''}''"

definition dumps :: "(rat \<Rightarrow> string) \<Rightarrow> jvalue \<Rightarrow> string" where
  "dumps repr v = dumps_value repr (sort_keys v)"

text \<open>\<open>str.encode("utf-8")\<close> on code points below 256.\<close>

definition utf8_char :: "char \<Rightarrow> nat list" where
  "utf8_char c = (let n = (of_char c :: nat) in
     if n < 128 then [n] else [192 + n div 64, 128 + n mod 64])"

definition utf8 :: "string \<Rightarrow> nat list" where
  "utf8 s = concat (map utf8_char s)"

definition canonical_json :: "(rat \<Rightarrow> string) \<Rightarrow> jvalue \<Rightarrow> nat list" where
  "canonical_json repr v = utf8 (dumps repr v)"

definition canonical_sha256 :: "(rat \<Rightarrow> string) \<Rightarrow> (nat list \<Rightarrow> string) \<Rightarrow> jvalue \<Rightarrow> string" where
  "canonical_sha256 repr sha v = sha (canonical_json repr v)"

text \<open>The pattern \<open>^[0-9a-f]{64}$\<close> of a digest.\<close>

definition is_hex_digit :: "char \<Rightarrow> bool" where
  "is_hex_digit c \<longleftrightarrow> is_digit c \<or> c \<in> set ''abcdef''"

definition digest_ok :: "string \<Rightarrow> bool" where
  "digest_ok s \<longleftrightarrow> length s = 64 \<and> list_all is_hex_digit s"

subsection \<open>Unique readability\<close>

text \<open>The characters a number is written with, and what may follow a value.\<close>

definition number_char :: "char \<Rightarrow> bool" where
  "number_char c \<longleftrightarrow> is_digit c \<or> c \<in> set ''-+.e''"

definition float_repr :: "(rat \<Rightarrow> string) \<Rightarrow> bool" where
  "float_repr repr \<longleftrightarrow> inj repr \<and> (\<forall>x. repr x \<noteq> [] \<and> (\<forall>c \<in> set (repr x). number_char c)
     \<and> (is_digit (hd (repr x)) \<or> hd (repr x) = CHR ''-'') \<and> (\<exists>c \<in> set (repr x). c \<in> set ''.e''))"

definition value_end :: "string \<Rightarrow> bool" where
  "value_end s \<longleftrightarrow> s = [] \<or> hd s \<in> set '',]}:''"

text \<open>Reading one character of a string literal back.\<close>

definition unhex :: "char \<Rightarrow> nat" where
  "unhex c = (let n = (of_char c :: nat) in if n < 58 then n - 48 else n - 87)"

definition unescape_char :: "string \<Rightarrow> (char \<times> string) option" where
  "unescape_char s = (case s of
     [] \<Rightarrow> None
   | c # cs \<Rightarrow>
       if c \<noteq> CHR 0x5C then Some (c, cs)
       else (case cs of [] \<Rightarrow> None | d # ds \<Rightarrow>
         if d = CHR ''n'' then Some (CHR 0x0A, ds) else if d = CHR ''r'' then Some (CHR 0x0D, ds)
         else if d = CHR ''t'' then Some (CHR 0x09, ds) else if d = CHR ''f'' then Some (CHR 0x0C, ds)
         else if d = CHR ''b'' then Some (CHR 0x08, ds)
         else if d = CHR ''u'' then Some (char_of (16 * unhex (ds ! 2) + unhex (ds ! 3)), drop 4 ds)
         else Some (d, ds)))"


lemma char_of_eqI: "of_char c = (n :: nat) \<Longrightarrow> char_of n = d \<Longrightarrow> c = d"
  by auto

lemma char_codes:
  "of_char c = (34 :: nat) \<Longrightarrow> c = CHR 0x22"
  "of_char c = (92 :: nat) \<Longrightarrow> c = CHR 0x5C"
  "of_char c = (10 :: nat) \<Longrightarrow> c = CHR 0x0A"
  "of_char c = (13 :: nat) \<Longrightarrow> c = CHR 0x0D"
  "of_char c = (9 :: nat) \<Longrightarrow> c = CHR 0x09"
  "of_char c = (12 :: nat) \<Longrightarrow> c = CHR 0x0C"
  "of_char c = (8 :: nat) \<Longrightarrow> c = CHR 0x08"
  by (erule char_of_eqI, code_simp)+

lemma unescape_escape: "unescape_char (escape_char c @ s) = Some (c, s)"
proof -
  define n :: nat where "n = of_char c"
  have c: "c = char_of n" by (simp add: n_def)
  have hex: "unhex (hex_digit k) = k" if "k < 16" for k
    using that by (auto simp: unhex_def hex_digit_def Let_def)
  show ?thesis
  proof (cases "n < 32 \<and> n \<notin> {8, 9, 10, 12, 13}")
    case True
    then have "escape_char c = [CHR 0x5C, CHR ''u'', CHR ''0'', CHR ''0'', hex_digit (n div 16), hex_digit (n mod 16)]"
      by (simp add: escape_char_def Let_def n_def [symmetric])
    moreover have "16 * unhex (hex_digit (n div 16)) + unhex (hex_digit (n mod 16)) = n"
      using True by (simp add: hex div_less_iff_less_mult)
    ultimately show ?thesis by (simp add: unescape_char_def numeral_2_eq_2 numeral_3_eq_3 c)
  next
    case False
    show ?thesis
    proof (cases "n \<in> {34, 92, 10, 13, 9, 12, 8}")
      case True
      have "unescape_char (escape_char c @ s) = Some (c, s)" if "of_char c = k" "k \<in> {34, 92, 10, 13, 9, 12, 8}" for k :: nat
        using that by (auto dest!: char_codes simp: unescape_char_def escape_char_def)
      with True show ?thesis by (simp add: n_def)
    next
      case plain: False
      then have "c \<noteq> CHR 0x5C" by (auto simp: n_def)
      moreover have "escape_char c = [c]"
        using False plain by (auto simp: escape_char_def Let_def n_def)
      ultimately show ?thesis by (simp add: unescape_char_def)
    qed
  qed
qed

lemma escape_char_head: "escape_char c = d # ds \<Longrightarrow> d \<noteq> CHR 0x22"
  by (auto simp: escape_char_def Let_def split: if_splits)

lemma escape_char_nonempty [simp]: "escape_char c \<noteq> []"
  by (auto simp: escape_char_def Let_def)

lemma literal_inj:
  "concat (map escape_char s) @ CHR 0x22 # r = concat (map escape_char s') @ CHR 0x22 # r' \<Longrightarrow>
     s = s' \<and> r = r'"
proof (induction s arbitrary: s')
  case Nil
  show ?case
  proof (cases s')
    case (Cons d t)
    obtain e es where "escape_char d = e # es" by (cases "escape_char d") auto
    with Nil Cons escape_char_head [of d e es] show ?thesis by simp
  qed (use Nil in simp)
next
  case (Cons c s)
  show ?case
  proof (cases s')
    case Nil
    obtain e es where "escape_char c = e # es" by (cases "escape_char c") auto
    with Nil Cons.prems escape_char_head [of c e es] show ?thesis by simp
  next
    case (Cons d t)
    with Cons.prems have "escape_char c @ (concat (map escape_char s) @ CHR 0x22 # r)
        = escape_char d @ (concat (map escape_char t) @ CHR 0x22 # r')" by simp
    from arg_cong [OF this, of unescape_char]
    have "c = d" "concat (map escape_char s) @ CHR 0x22 # r = concat (map escape_char t) @ CHR 0x22 # r'"
      by (simp_all only: unescape_escape option.inject prod.inject)
    with Cons.IH Cons show ?thesis by blast
  qed
qed

lemma dumps_str_inj: "dumps_str s @ r = dumps_str s' @ r' \<Longrightarrow> s = s' \<and> r = r'"
  using literal_inj [of s r s' r'] by (simp add: dumps_str_def)

subsection \<open>Numbers\<close>

lemma digit_not_sign: "is_digit c \<Longrightarrow> c \<notin> set ''-+.e'' \<and> number_char c"
  by (auto simp: is_digit_def number_char_def Let_def)

lemma dumps_int_inj: "dumps_int i = dumps_int j \<Longrightarrow> i = j"
proof -
  have read: "show_nat a = show_nat b \<Longrightarrow> a = b" for a b using read_show_nat by metis
  have sign: "show_nat a \<noteq> CHR ''-'' # show_nat b" for a b
    using digits_show_nat [of a] digit_not_sign by fastforce
  show "dumps_int i = dumps_int j \<Longrightarrow> i = j"
    using sign sign [THEN not_sym] by (auto simp: dumps_int_def dest!: read split: if_splits)
qed

lemma number_chars:
  "\<forall>c \<in> set (dumps_int i). is_digit c \<or> c = CHR ''-''" "dumps_int i \<noteq> []"
  "\<forall>c \<in> set (dumps_int i). number_char c"
proof -
  show d: "\<forall>c \<in> set (dumps_int i). is_digit c \<or> c = CHR ''-''"
    using digits_show_nat by (auto simp: dumps_int_def)
  show "dumps_int i \<noteq> []" by (auto simp: dumps_int_def show_nat.simps)
  show "\<forall>c \<in> set (dumps_int i). number_char c" using d by (auto simp: number_char_def)
qed

lemma number_token:
  assumes "a @ s = b @ t" "value_end s" "value_end t"
    and "\<forall>c \<in> set a. number_char c" "\<forall>c \<in> set b. number_char c"
  shows "a = b \<and> s = t"
proof -
  have stop: "takeWhile number_char u = []" if "value_end u" for u
    using that by (cases u) (auto simp: value_end_def number_char_def is_digit_def)
  have "takeWhile number_char (a @ s) = a" "takeWhile number_char (b @ t) = b"
    using assms(4,5) stop [OF assms(2)] stop [OF assms(3)] by (simp_all add: takeWhile_append2)
  with assms(1) show ?thesis by auto
qed

subsection \<open>Values\<close>

text \<open>The first character tells the constructors apart.\<close>

definition first_class :: "jvalue \<Rightarrow> nat" where
  "first_class v = (case v of VNull \<Rightarrow> 0 | VBool b \<Rightarrow> if b then 1 else 2 | VInt _ \<Rightarrow> 3 | VFloat _ \<Rightarrow> 3
     | VStr _ \<Rightarrow> 4 | VArr _ \<Rightarrow> 5 | VObj _ \<Rightarrow> 6)"

definition char_class :: "char \<Rightarrow> nat" where
  "char_class c = (if c = CHR ''n'' then 0 else if c = CHR ''t'' then 1 else if c = CHR ''f'' then 2
     else if is_digit c \<or> c = CHR ''-'' then 3 else if c = CHR 0x22 then 4 else if c = CHR ''['' then 5
     else if c = CHR ''{'' then 6 else 7)"

lemma char_class_number: "is_digit c \<or> c = CHR ''-'' \<Longrightarrow> char_class c = 3"
  by (auto simp: char_class_def is_digit_def)

lemma first_class_le: "first_class v \<le> 6"
  by (cases v) (auto simp: first_class_def)

lemma char_class_bracket: "char_class (CHR '']'') = 7"
  by (simp add: char_class_def is_digit_def)

lemma dumps_first:
  assumes "float_repr repr"
  shows "dumps_value repr v \<noteq> [] \<and> char_class (hd (dumps_value repr v)) = first_class v"
proof (cases v)
  case (VInt i)
  have "hd (dumps_int i) \<in> set (dumps_int i)" using number_chars(2) by (rule hd_in_set)
  with number_chars [of i] VInt show ?thesis by (auto simp: first_class_def char_class_number)
next
  case (VFloat x)
  with assms show ?thesis by (auto simp: float_repr_def first_class_def char_class_number)
qed (auto simp: first_class_def char_class_def dumps_str_def is_digit_def)

lemma dumps_first_eq:
  assumes "float_repr repr" "dumps_value repr v @ s = dumps_value repr w @ t"
  shows "first_class v = first_class w"
  using dumps_first [OF assms(1)] assms(2) by (metis hd_append2)


lemma py_join_Cons:
  "py_join sep (x # xs) = x @ (if xs = [] then [] else sep @ py_join sep xs)"
  by (cases xs) auto

text \<open>A list of items between commas, up to its closing bracket.\<close>

lemma join_inj:
  assumes item: "\<And>x y s t. x \<in> set xs \<Longrightarrow> value_end s \<Longrightarrow> value_end t \<Longrightarrow> f x @ s = f y @ t \<Longrightarrow> x = y \<and> s = t"
    and first: "\<And>x. f x \<noteq> [] \<and> hd (f x) \<noteq> close"
    and close: "close \<in> set '']}''"
    and eq: "py_join '','' (map f xs) @ close # s = py_join '','' (map f ys) @ close # t"
  shows "xs = ys \<and> s = t"
  using item eq
proof (induction xs arbitrary: ys)
  case Nil
  show ?case
  proof (cases ys)
    case (Cons y ys')
    have "hd (f y) = close" using Nil.prems(2) Cons first [of y] by (cases "f y") (auto simp: py_join_Cons)
    with first show ?thesis by blast
  qed (use Nil in simp)
next
  case (Cons x xs)
  show ?case
  proof (cases ys)
    case Nil
    have "hd (f x) = close" using Cons.prems(2) Nil first [of x] by (cases "f x") (auto simp: py_join_Cons)
    with first show ?thesis by blast
  next
    case ys: (Cons y ys')
    let ?tail = "\<lambda>zs s. (if zs = [] then [] else '','' @ py_join '','' (map f zs)) @ close # s"
    have "f x @ ?tail xs s = f y @ ?tail ys' t"
      using Cons.prems(2) by (simp add: ys py_join_Cons)
    moreover have "value_end (?tail zs u)" for zs u
      using close by (auto simp: value_end_def)
    ultimately have xy: "x = y" and tails: "?tail xs s = ?tail ys' t"
      using Cons.prems(1) [of x] by (meson list.set_intros(1))+
    show ?thesis
    proof (cases "xs = [] \<longleftrightarrow> ys' = []")
      case True
      with tails have "py_join '','' (map f xs) @ close # s = py_join '','' (map f ys') @ close # t"
        by (auto split: if_splits)
      moreover have "x' = y' \<and> u = v" if "x' \<in> set xs" "value_end u" "value_end v" "f x' @ u = f y' @ v" for x' y' u v
        using Cons.prems(1) that by (meson list.set_intros(2))
      ultimately have "xs = ys' \<and> s = t" by (rule Cons.IH [rotated])
      with xy ys show ?thesis by simp
    next
      case False
      with tails close show ?thesis by (auto split: if_splits)
    qed
  qed
qed

lemma dumps_value_inj:
  assumes r: "float_repr repr"
  shows "value_end s \<Longrightarrow> value_end t \<Longrightarrow> dumps_value repr v @ s = dumps_value repr w @ t \<Longrightarrow> v = w \<and> s = t"
proof (induction v arbitrary: w s t)
  case VNull
  then show ?case using dumps_first_eq [OF r VNull(3)] by (cases w) (auto simp: first_class_def split: if_splits)
next
  case (VBool b)
  then show ?case
    using dumps_first_eq [OF r VBool(3)] by (cases w) (auto simp: first_class_def split: if_splits)
next
  case (VInt i)
  have num: "\<forall>c \<in> set (repr x). number_char c" "\<exists>c \<in> set (repr x). c \<in> set ''.e''" for x
    using r by (auto simp: float_repr_def)
  show ?case
  proof (cases w)
    case w: (VInt j)
    then show ?thesis
      using number_token [OF VInt(3) [unfolded dumps_value.simps w] VInt(1,2)] number_chars(3) dumps_int_inj by simp
  next
    case (VFloat x)
    then have "dumps_int i = repr x"
      using number_token [OF VInt(3) [unfolded dumps_value.simps VFloat] VInt(1,2)] number_chars(3) num(1) by simp
    with num(2) [of x] number_chars(1) [of i] have False
      by (auto simp: is_digit_def)
    then show ?thesis ..
  qed (use dumps_first_eq [OF r VInt(3)] in \<open>simp_all add: first_class_def split: if_splits\<close>)
next
  case (VFloat x)
  have num: "\<forall>c \<in> set (repr x). number_char c" "\<exists>c \<in> set (repr x). c \<in> set ''.e''" "inj repr" for x
    using r by (auto simp: float_repr_def)
  show ?case
  proof (cases w)
    case (VInt j)
    then have "repr x = dumps_int j"
      using number_token [OF VFloat(3) [unfolded dumps_value.simps VInt] VFloat(1,2)] number_chars(3) num(1) by simp
    with num(2) [of x] number_chars(1) [of j] have False
      by (auto simp: is_digit_def)
    then show ?thesis ..
  next
    case w: (VFloat y)
    then show ?thesis
      using number_token [OF VFloat(3) [unfolded dumps_value.simps w] VFloat(1,2)] num(1) num(3)
      by (simp add: inj_eq)
  qed (use dumps_first_eq [OF r VFloat(3)] in \<open>simp_all add: first_class_def split: if_splits\<close>)
next
  case (VStr str)
  show ?case
  proof (cases w)
    case w: (VStr str')
    then show ?thesis using dumps_str_inj [of str s str' t] VStr(3) by simp
  qed (use dumps_first_eq [OF r VStr(3)] in \<open>simp_all add: first_class_def split: if_splits\<close>)
next
  case (VArr xs)
  have first: "dumps_value repr x \<noteq> [] \<and> hd (dumps_value repr x) \<noteq> CHR '']''" for x
    using dumps_first [OF r, of x] first_class_le [of x] by (auto simp: char_class_bracket)
  show ?case
  proof (cases w)
    case w: (VArr ys)
    have "xs = ys \<and> s = t"
    proof (rule join_inj [where f = "dumps_value repr" and close = "CHR '']''"])
      show "py_join '','' (map (dumps_value repr) xs) @ CHR '']'' # s = py_join '','' (map (dumps_value repr) ys) @ CHR '']'' # t"
        using VArr(4) w by simp
    qed (use VArr.IH first in simp_all)
    with w show ?thesis by simp
  qed (use dumps_first_eq [OF r VArr(4)] in \<open>simp_all add: first_class_def split: if_splits\<close>)
next
  case (VObj es)
  let ?f = "\<lambda>e. dumps_str (fst e) @ '':'' @ dumps_value repr (snd e)"
  have first: "?f e \<noteq> [] \<and> hd (?f e) \<noteq> CHR ''}''" for e
    by (simp add: dumps_str_def)
  have item: "x = y \<and> s = t"
    if x: "x \<in> set es" and ends: "value_end s" "value_end t" and eq: "?f x @ s = ?f y @ t" for x y s t
  proof -
    have "fst x = fst y \<and> '':'' @ dumps_value repr (snd x) @ s = '':'' @ dumps_value repr (snd y) @ t"
      using dumps_str_inj [of "fst x" "'':'' @ dumps_value repr (snd x) @ s" "fst y"] eq by simp
    with VObj.IH [of x "snd x" s t "snd y"] x ends show ?thesis by (cases x, cases y) auto
  qed
  show ?case
  proof (cases w)
    case w: (VObj fs)
    have "es = fs \<and> s = t"
    proof (rule join_inj [where f = ?f and close = "CHR ''}''"])
      show "py_join '','' (map ?f es) @ CHR ''}'' # s = py_join '','' (map ?f fs) @ CHR ''}'' # t"
        using VObj(4) w by simp
      show "x = y \<and> u = v" if "x \<in> set es" "value_end u" "value_end v" "?f x @ u = ?f y @ v" for x y u v
        using item that .
    qed (use first in simp_all)
    with w show ?thesis by simp
  qed (use dumps_first_eq [OF r VObj(4)] in \<open>simp_all add: first_class_def split: if_splits\<close>)
qed


subsection \<open>Bytes\<close>

lemma utf8_char_split:
  "utf8_char c @ s = utf8_char d @ t \<Longrightarrow> c = d \<and> s = t"
proof -
  assume eq: "utf8_char c @ s = utf8_char d @ t"
  define m n :: nat where "m = of_char c" and "n = of_char d"
  have lt: "m < 256" "n < 256" by (simp_all add: m_def n_def)
  have "m = n \<and> s = t"
  proof (cases "m < 128 \<or> n < 128")
    case True
    with eq lt show ?thesis by (auto simp: utf8_char_def Let_def m_def [symmetric] n_def [symmetric] split: if_splits)
  next
    case False
    with eq have "m div 64 = n div 64" "m mod 64 = n mod 64" "s = t"
      by (simp_all add: utf8_char_def Let_def m_def [symmetric] n_def [symmetric])
    then show ?thesis by (metis div_mult_mod_eq)
  qed
  then show "c = d \<and> s = t" by (simp add: m_def n_def)
qed

lemma utf8_inj: "utf8 s = utf8 t \<Longrightarrow> s = t"
proof (induction s arbitrary: t)
  case Nil
  then show ?case by (cases t) (auto simp: utf8_def utf8_char_def Let_def split: if_splits)
next
  case (Cons c s)
  show ?case
  proof (cases t)
    case Nil
    with Cons.prems show ?thesis by (auto simp: utf8_def utf8_char_def Let_def split: if_splits)
  next
    case (Cons d u)
    with Cons.prems have "utf8_char c @ utf8 s = utf8_char d @ utf8 u" by (simp add: utf8_def)
    from utf8_char_split [OF this] Cons.IH Cons show ?thesis by blast
  qed
qed

subsection \<open>The same value up to the order of keys\<close>

lemma jvalue_size_entry [termination_simp]:
  "e \<in> set d \<Longrightarrow> size (snd e) < Suc (size_list (size_prod (\<lambda>x. 0) size) d)"
  by (induction d) auto

fun same_json :: "jvalue \<Rightarrow> jvalue \<Rightarrow> bool" where
  "same_json (VArr xs) w \<longleftrightarrow> (case w of VArr ys \<Rightarrow> list_all2 same_json xs ys | _ \<Rightarrow> False)"
| "same_json (VObj es) w \<longleftrightarrow>
     (case w of VObj fs \<Rightarrow> length es = length fs \<and>
          list_all (\<lambda>e. case map_of fs (fst e) of None \<Rightarrow> False | Some u \<Rightarrow> same_json (snd e) u) es
      | _ \<Rightarrow> False)"
| "same_json v w \<longleftrightarrow> v = w"

lemma sort_key_fst_eq:
  assumes "distinct (map fst A)" "distinct (map fst B)"
  shows "sort_key fst A = sort_key fst B \<longleftrightarrow> set A = set B"
proof
  assume "sort_key fst A = sort_key fst B"
  then show "set A = set B" by (metis set_sort)
next
  assume eq: "set A = set B"
  have dist: "distinct A" "distinct B" using assms by (simp_all add: distinct_map)
  show "sort_key fst A = sort_key fst B"
  proof (rule properties_for_sort_key)
    show "mset (sort_key fst B) = mset A" using eq dist by (simp add: set_eq_iff_mset_eq_distinct)
    fix k assume k: "k \<in> set (sort_key fst B)"
    have "distinct (map fst (sort_key fst B))" using assms(2) by (metis distinct_map distinct_sort set_sort)
    moreover have "k \<in> set A" using k eq by simp
    ultimately have "filter (\<lambda>x. fst x = fst k) (sort_key fst B) = filter (\<lambda>x. fst x = fst k) A"
      using k assms(1) by (simp add: distinct_filter_key [OF _ _ refl])
    then show "filter (\<lambda>x. fst k = fst x) (sort_key fst B) = filter (\<lambda>x. fst k = fst x) A"
      by (simp add: eq_commute)
  qed simp
qed

lemma entries_equal:
  assumes "distinct (map fst es)" "distinct (map fst fs)"
  shows "set (map (\<lambda>e. (fst e, g (snd e))) es) = set (map (\<lambda>e. (fst e, g (snd e))) fs) \<longleftrightarrow>
    length es = length fs \<and> list_all (\<lambda>e. case map_of fs (fst e) of None \<Rightarrow> False | Some u \<Rightarrow> g (snd e) = g u) es"
    (is "set (map ?h es) = set (map ?h fs) \<longleftrightarrow> ?R")
proof -
  have keys: "map fst (map ?h xs) = map fst xs" for xs :: "('a \<times> 'b) list" by simp
  have card: "card (set (map ?h xs)) = length xs" if "distinct (map fst xs)" for xs :: "('a \<times> 'b) list"
  proof -
    have "distinct (map ?h xs)" using that keys [of xs] by (metis distinct_map)
    then show ?thesis by (metis distinct_card length_map)
  qed
  have covered: "list_all (\<lambda>e. case map_of fs (fst e) of None \<Rightarrow> False | Some u \<Rightarrow> g (snd e) = g u) es
      \<longleftrightarrow> set (map ?h es) \<subseteq> set (map ?h fs)"
  proof -
    have "(case map_of fs k of None \<Rightarrow> False | Some u \<Rightarrow> v = g u) \<longleftrightarrow> (k, v) \<in> set (map ?h fs)" for k v
    proof -
      have "(k, v) \<in> set (map ?h fs) \<longleftrightarrow> (\<exists>u. (k, u) \<in> set fs \<and> v = g u)" by force
      also have "\<dots> \<longleftrightarrow> (\<exists>u. map_of fs k = Some u \<and> v = g u)" by (simp add: map_of_eq_Some_iff [OF assms(2)])
      finally show ?thesis by (simp split: option.splits)
    qed
    then show ?thesis unfolding list_all_iff by auto
  qed
  show ?thesis
  proof
    assume "set (map ?h es) = set (map ?h fs)"
    with covered card [OF assms(1)] card [OF assms(2)] show ?R by simp
  next
    assume R: ?R
    with covered have "set (map ?h es) \<subseteq> set (map ?h fs)" by blast
    moreover have "card (set (map ?h es)) = card (set (map ?h fs))" using R card assms by simp
    ultimately show "set (map ?h es) = set (map ?h fs)" by (simp add: card_subset_eq)
  qed
qed

lemma sort_keys_scalar [simp]:
  "VNull = sort_keys w \<longleftrightarrow> w = VNull" "VBool b = sort_keys w \<longleftrightarrow> w = VBool b" "VInt i = sort_keys w \<longleftrightarrow> w = VInt i"
  "VFloat x = sort_keys w \<longleftrightarrow> w = VFloat x" "VStr t = sort_keys w \<longleftrightarrow> w = VStr t"
  by (cases w, auto)+

lemma same_json_sort_keys:
  "jwf v \<Longrightarrow> jwf w \<Longrightarrow> same_json v w \<longleftrightarrow> sort_keys v = sort_keys w"
proof (induction v arbitrary: w)
  case (VArr xs)
  show ?case
  proof (cases w)
    case (VArr ys)
    have "list_all2 same_json xs ys \<longleftrightarrow> list_all2 (\<lambda>x y. sort_keys x = sort_keys y) xs ys"
      using VArr.IH VArr.prems VArr
      by (auto simp: list_all_iff list_all2_conv_all_nth)
    also have "\<dots> \<longleftrightarrow> list_all2 (=) (map sort_keys xs) (map sort_keys ys)"
      by (simp add: list.rel_map)
    finally show ?thesis by (simp add: VArr list.rel_eq)
  qed simp_all
next
  case (VObj es)
  show ?case
  proof (cases w)
    case w: (VObj fs)
    have d: "distinct (map fst es)" "distinct (map fst fs)" using VObj.prems w by simp_all
    have IH: "same_json (snd e) u \<longleftrightarrow> sort_keys (snd e) = sort_keys u"
      if "e \<in> set es" "map_of fs (fst e) = Some u" for e u
    proof (rule VObj.IH [of e])
      show "e \<in> set es" "snd e \<in> Basic_BNFs.snds e" using that by (cases e, simp_all add: snds.simps)
      show "jwf (snd e)" using VObj.prems(1) that(1) by (auto simp: list_all_iff)
      show "jwf u" using VObj.prems(2) w map_of_SomeD [OF that(2)] by (auto simp: list_all_iff)
    qed
    have "sort_keys (VObj es) = sort_keys w \<longleftrightarrow>
        set (map (\<lambda>e. (fst e, sort_keys (snd e))) es) = set (map (\<lambda>e. (fst e, sort_keys (snd e))) fs)"
      using sort_key_fst_eq [of "map (\<lambda>e. (fst e, sort_keys (snd e))) es" "map (\<lambda>e. (fst e, sort_keys (snd e))) fs"] d
      by (simp add: w comp_def)
    also have "\<dots> \<longleftrightarrow> same_json (VObj es) w"
      unfolding entries_equal [OF d] using IH by (auto simp: w list_all_iff split: option.splits)
    finally show ?thesis by simp
  qed simp_all
qed (auto split: jvalue.splits)


lemma canonical_json_eq:
  assumes "float_repr repr"
  shows "canonical_json repr v = canonical_json repr w \<longleftrightarrow> sort_keys v = sort_keys w"
proof
  assume "canonical_json repr v = canonical_json repr w"
  then have "dumps repr v @ [] = dumps repr w @ []"
    by (auto simp: canonical_json_def dest: utf8_inj)
  then show "sort_keys v = sort_keys w"
    using dumps_value_inj [OF assms, of "[]" "[]" "sort_keys v" "sort_keys w"]
    by (simp add: dumps_def value_end_def)
qed (simp add: canonical_json_def dumps_def)

text \<open>
  C26. Canonical JSON identifies content: for well-formed values (no dictionary has a key
  twice) two values get the same canonical bytes if and only if they are the same value up
  to the order of dictionary keys, at every depth. So content hashes depend on the content
  alone, and two different contents can only share a hash by a collision of SHA-256.
\<close>

theorem canonical_json_identifies:
  assumes "float_repr repr" "jwf v" "jwf w"
  shows "canonical_json repr v = canonical_json repr w \<longleftrightarrow> same_json v w"
  using same_json_sort_keys [OF assms(2,3)] by (simp add: canonical_json_eq [OF assms(1)])

text \<open>A representation of floats with the three properties: numerator, \<open>e\<close>, denominator.\<close>

definition demo_repr :: "rat \<Rightarrow> string" where
  "demo_repr x = (case quotient_of x of (a, b) \<Rightarrow> dumps_int a @ ''e'' @ dumps_int b)"

lemma split_at_mark:
  "a @ m # b = c @ m # d \<Longrightarrow> m \<notin> set a \<Longrightarrow> m \<notin> set c \<Longrightarrow> a = c \<and> b = d"
  by (induction a arbitrary: c) (auto simp: Cons_eq_append_conv append_eq_Cons_conv)

lemma demo_repr_ok: "float_repr demo_repr"
proof -
  have e: "CHR ''e'' \<notin> set (dumps_int i)" for i using number_chars(1) [of i] by (auto simp: is_digit_def)
  have "inj demo_repr"
  proof (rule injI)
    fix x y assume eq: "demo_repr x = demo_repr y"
    obtain a b c d where q: "quotient_of x = (a, b)" "quotient_of y = (c, d)" by (meson surj_pair)
    with eq have "dumps_int a @ CHR ''e'' # dumps_int b = dumps_int c @ CHR ''e'' # dumps_int d"
      by (simp add: demo_repr_def)
    from split_at_mark [OF this e e] have "a = c" "b = d" by (auto dest: dumps_int_inj)
    with q have "quotient_of x = quotient_of y" by simp
    then show "x = y" by (metis quotient_of_inject)
  qed
  moreover have "demo_repr x \<noteq> [] \<and> (\<forall>c \<in> set (demo_repr x). number_char c)
     \<and> (is_digit (hd (demo_repr x)) \<or> hd (demo_repr x) = CHR ''-'') \<and> (\<exists>c \<in> set (demo_repr x). c \<in> set ''.e'')" for x
  proof -
    obtain a b where q: "quotient_of x = (a, b)" by (meson surj_pair)
    have "hd (dumps_int a) \<in> set (dumps_int a)" using number_chars(2) by (rule hd_in_set)
    with number_chars [of a] number_chars [of b] q show ?thesis
      by (auto simp: demo_repr_def number_char_def)
  qed
  ultimately show ?thesis by (simp add: float_repr_def)
qed

definition demo_left :: jvalue where
  "demo_left = VObj [(''b'', VArr [VInt 1, VBool True]), (''a'', VStr ''x'')]"

definition demo_right :: jvalue where
  "demo_right = VObj [(''a'', VStr ''x''), (''b'', VArr [VInt 1, VBool True])]"

theorem canonical_json_identifies_witness:
  "canonical_json demo_repr demo_left = canonical_json demo_repr demo_right
   \<and> canonical_json demo_repr demo_left \<noteq> canonical_json demo_repr (VArr [demo_right])"
proof -
  have "jwf demo_left" "jwf demo_right" "same_json demo_left demo_right" "\<not> same_json demo_left (VArr [demo_right])"
    by (simp_all add: demo_left_def demo_right_def)
  with canonical_json_identifies [OF demo_repr_ok, of demo_left demo_right]
    canonical_json_identifies [OF demo_repr_ok, of demo_left "VArr [demo_right]"] show ?thesis by simp
qed

end
