(* ===== verification/Package_Model.thy ===== *)
theory Package_Model
  imports Canonical_Json Timeline
begin

section \<open>Result packages: model and content hashes\<close>

text \<open>
  Models \<open>packages/models.py\<close> and the hashes of \<open>packages/canonical.py\<close>. The eight document
  classes are one record with a tagged body; \<open>document_kind\<close> is the tag. What the code takes
  from outside (float representation, SHA-256, \<open>uuid5\<close>, \<open>isoformat\<close> of an instant and
  \<open>urlsplit\<close>) is the record \<open>package_env\<close> the functions take as an argument.
\<close>

record url_parts =
  up_scheme :: string
  up_query :: string
  up_username :: "string option"
  up_password :: "string option"

record package_env =
  pe_repr :: "rat \<Rightarrow> string"
  pe_sha256 :: "nat list \<Rightarrow> string"
  pe_uuid5 :: "string \<Rightarrow> string"
  pe_isoformat :: "instant \<Rightarrow> string"
  pe_urlsplit :: "string \<Rightarrow> url_parts res"

definition PACKAGE_SCHEMA :: string where "PACKAGE_SCHEMA = ''matinier.transcript-package''"
definition PACKAGE_SCHEMA_VERSION :: string where "PACKAGE_SCHEMA_VERSION = ''1.0''"

subsection \<open>Records\<close>

record transcript_item =
  ti_item_id :: string
  ti_source_segment_ids :: "string list"
  ti_start_ms :: int
  ti_end_ms :: int
  ti_text :: string
  ti_raw_text :: "string option"
  ti_confidence :: "rat option"
  ti_speaker :: "string option"
  ti_locked :: bool

record timeline_index_entry =
  te_item_id :: string
  te_start_ms :: int
  te_end_ms :: int
  te_source_document_id :: string

record evidence_entry =
  ee_item_id :: string
  ee_source_segment_ids :: "string list"
  ee_start_ms :: int
  ee_end_ms :: int
  ee_raw_text :: string
  ee_effective_text :: string
  ee_source_document_id :: string

record session_snapshot =
  sn_session_id :: string
  sn_room_name :: string
  sn_status :: string
  sn_source_type :: string
  sn_source_language :: string
  sn_target_languages :: "string list"
  sn_created_at :: instant
  sn_started_at :: "instant option"
  sn_ended_at :: "instant option"
  sn_source_ended_at :: "instant option"
  sn_translation_ended_at :: "instant option"
  sn_stop_reason :: "string option"
  sn_failure_code :: "string option"

record provider_snapshot =
  pv_asr_provider :: "string option"
  pv_asr_model :: "string option"
  pv_translation_provider :: "string option"
  pv_translation_model :: "string option"
  pv_translation_status :: string

record metrics_snapshot =
  mt_final_result_count :: "int option"
  mt_first_partial_latency_ms :: "rat option"
  mt_average_final_latency_ms :: "rat option"
  mt_provider_error_count :: "int option"
  mt_sent_audio_chunk_count :: "int option"
  mt_sent_audio_bytes :: "int option"

datatype document_body =
    Source_Raw "transcript_item list"
  | Source_Approved "transcript_item list"
  | Live_Translation "transcript_item list"
  | Timeline_Index int "timeline_index_entry list"
  | Evidence_Index "evidence_entry list"
  | Session_Metadata session_snapshot
  | Provider_Metadata provider_snapshot
  | Metrics_Metadata metrics_snapshot

record package_document =
  pd_document_id :: string
  pd_language :: "string option"
  pd_content_hash :: string
  pd_body :: document_body

record document_reference =
  dr_document_id :: string
  dr_document_kind :: string
  dr_language :: "string option"
  dr_content_hash :: string

record package_manifest =
  mf_schema_name :: string
  mf_schema_version :: string
  mf_package_id :: string
  mf_package_version :: int
  mf_session_id :: string
  mf_status :: string
  mf_source_language :: string
  mf_target_languages :: "string list"
  mf_effective_source_document_id :: string
  mf_source_revision_id :: "string option"
  mf_created_at :: instant
  mf_content_hash :: string
  mf_documents :: "document_reference list"
  mf_session_snapshot :: session_snapshot
  mf_provider_snapshot :: provider_snapshot
  mf_metrics_snapshot :: metrics_snapshot

record transcript_package =
  pk_package_id :: string
  pk_session_id :: string
  pk_package_version :: int
  pk_schema_name :: string
  pk_schema_version :: string
  pk_status :: string
  pk_source_revision_id :: "string option"
  pk_manifest :: package_manifest
  pk_documents :: "package_document list"
  pk_content_hash :: string
  pk_created_at :: instant
  pk_frozen_at :: "instant option"
  pk_superseded_at :: "instant option"

fun document_kind_of :: "document_body \<Rightarrow> string" where
  "document_kind_of (Source_Raw _) = ''source_raw''"
| "document_kind_of (Source_Approved _) = ''source_approved''"
| "document_kind_of (Live_Translation _) = ''live_translation''"
| "document_kind_of (Timeline_Index _ _) = ''timeline_index''"
| "document_kind_of (Evidence_Index _) = ''evidence_index''"
| "document_kind_of (Session_Metadata _) = ''session_metadata''"
| "document_kind_of (Provider_Metadata _) = ''provider_metadata''"
| "document_kind_of (Metrics_Metadata _) = ''metrics_metadata''"

abbreviation pd_kind :: "package_document \<Rightarrow> string" where
  "pd_kind d \<equiv> document_kind_of (pd_body d)"

definition document_identity :: "package_document \<Rightarrow> string \<times> string" where
  "document_identity d = (pd_kind d, str_or (pd_language d) [])"

subsection \<open>\<open>model_dump(mode="json")\<close>\<close>

definition v_opt :: "('a \<Rightarrow> jvalue) \<Rightarrow> 'a option \<Rightarrow> jvalue" where
  "v_opt f x = (case x of None \<Rightarrow> VNull | Some v \<Rightarrow> f v)"

abbreviation v_strs :: "string list \<Rightarrow> jvalue" where
  "v_strs xs \<equiv> VArr (map VStr xs)"

definition dump_transcript_item :: "transcript_item \<Rightarrow> jvalue" where
  "dump_transcript_item i = VObj [
     (''item_id'', VStr (ti_item_id i)), (''source_segment_ids'', v_strs (ti_source_segment_ids i)),
     (''start_ms'', VInt (ti_start_ms i)), (''end_ms'', VInt (ti_end_ms i)), (''text'', VStr (ti_text i)),
     (''raw_text'', v_opt VStr (ti_raw_text i)), (''confidence'', v_opt VFloat (ti_confidence i)),
     (''speaker'', v_opt VStr (ti_speaker i)), (''locked'', VBool (ti_locked i))]"

definition dump_timeline_entry :: "timeline_index_entry \<Rightarrow> jvalue" where
  "dump_timeline_entry e = VObj [
     (''item_id'', VStr (te_item_id e)), (''start_ms'', VInt (te_start_ms e)),
     (''end_ms'', VInt (te_end_ms e)), (''source_document_id'', VStr (te_source_document_id e))]"

definition dump_evidence_entry :: "evidence_entry \<Rightarrow> jvalue" where
  "dump_evidence_entry e = VObj [
     (''item_id'', VStr (ee_item_id e)), (''source_segment_ids'', v_strs (ee_source_segment_ids e)),
     (''start_ms'', VInt (ee_start_ms e)), (''end_ms'', VInt (ee_end_ms e)),
     (''raw_text'', VStr (ee_raw_text e)), (''effective_text'', VStr (ee_effective_text e)),
     (''source_document_id'', VStr (ee_source_document_id e))]"

definition dump_session_snapshot :: "package_env \<Rightarrow> session_snapshot \<Rightarrow> jvalue" where
  "dump_session_snapshot env s = (let iso_v = (\<lambda>t. VStr (pe_isoformat env t)) in VObj [
     (''session_id'', VStr (sn_session_id s)), (''room_name'', VStr (sn_room_name s)),
     (''status'', VStr (sn_status s)), (''source_type'', VStr (sn_source_type s)),
     (''source_language'', VStr (sn_source_language s)), (''target_languages'', v_strs (sn_target_languages s)),
     (''created_at'', iso_v (sn_created_at s)), (''started_at'', v_opt iso_v (sn_started_at s)),
     (''ended_at'', v_opt iso_v (sn_ended_at s)), (''source_ended_at'', v_opt iso_v (sn_source_ended_at s)),
     (''translation_ended_at'', v_opt iso_v (sn_translation_ended_at s)),
     (''stop_reason'', v_opt VStr (sn_stop_reason s)), (''failure_code'', v_opt VStr (sn_failure_code s))])"

definition dump_provider_snapshot :: "provider_snapshot \<Rightarrow> jvalue" where
  "dump_provider_snapshot p = VObj [
     (''asr_provider'', v_opt VStr (pv_asr_provider p)), (''asr_model'', v_opt VStr (pv_asr_model p)),
     (''translation_provider'', v_opt VStr (pv_translation_provider p)),
     (''translation_model'', v_opt VStr (pv_translation_model p)),
     (''translation_status'', VStr (pv_translation_status p))]"

definition dump_metrics_snapshot :: "metrics_snapshot \<Rightarrow> jvalue" where
  "dump_metrics_snapshot m = VObj [
     (''final_result_count'', v_opt VInt (mt_final_result_count m)),
     (''first_partial_latency_ms'', v_opt VFloat (mt_first_partial_latency_ms m)),
     (''average_final_latency_ms'', v_opt VFloat (mt_average_final_latency_ms m)),
     (''provider_error_count'', v_opt VInt (mt_provider_error_count m)),
     (''sent_audio_chunk_count'', v_opt VInt (mt_sent_audio_chunk_count m)),
     (''sent_audio_bytes'', v_opt VInt (mt_sent_audio_bytes m))]"

fun dump_body :: "package_env \<Rightarrow> document_body \<Rightarrow> jvalue" where
  "dump_body env (Source_Raw items) = VObj [(''items'', VArr (map dump_transcript_item items))]"
| "dump_body env (Source_Approved items) = VObj [(''items'', VArr (map dump_transcript_item items))]"
| "dump_body env (Live_Translation items) = VObj [(''items'', VArr (map dump_transcript_item items))]"
| "dump_body env (Timeline_Index duration items) =
     VObj [(''duration_ms'', VInt duration), (''items'', VArr (map dump_timeline_entry items))]"
| "dump_body env (Evidence_Index items) = VObj [(''items'', VArr (map dump_evidence_entry items))]"
| "dump_body env (Session_Metadata s) = dump_session_snapshot env s"
| "dump_body env (Provider_Metadata p) = dump_provider_snapshot p"
| "dump_body env (Metrics_Metadata m) = dump_metrics_snapshot m"

subsection \<open>Content hashes\<close>

definition document_content_json :: "package_env \<Rightarrow> package_document \<Rightarrow> jvalue" where
  "document_content_json env d = VObj [
     (''document_kind'', VStr (pd_kind d)), (''language'', v_opt VStr (pd_language d)),
     (''content'', dump_body env (pd_body d))]"

definition document_content_hash :: "package_env \<Rightarrow> package_document \<Rightarrow> string" where
  "document_content_hash env d = canonical_sha256 (pe_repr env) (pe_sha256 env) (document_content_json env d)"

definition index_entry :: "package_document \<Rightarrow> jvalue" where
  "index_entry d = VObj [(''document_kind'', VStr (pd_kind d)), (''language'', v_opt VStr (pd_language d)),
     (''content_hash'', VStr (pd_content_hash d))]"

definition package_content_json ::
  "string \<Rightarrow> string \<Rightarrow> int \<Rightarrow> string \<Rightarrow> string option \<Rightarrow> package_document list \<Rightarrow> jvalue" where
  "package_content_json schema_name schema_version package_version session_id source_revision_id documents =
     VObj [(''schema_name'', VStr schema_name), (''schema_version'', VStr schema_version),
       (''package_version'', VInt package_version), (''session_id'', VStr session_id),
       (''source_revision_id'', v_opt VStr source_revision_id),
       (''documents'', VArr (map index_entry (sort_key document_identity documents)))]"

definition package_content_hash ::
  "package_env \<Rightarrow> string \<Rightarrow> string \<Rightarrow> int \<Rightarrow> string \<Rightarrow> string option \<Rightarrow> package_document list \<Rightarrow> string" where
  "package_content_hash env schema_name schema_version package_version session_id source_revision_id documents =
     canonical_sha256 (pe_repr env) (pe_sha256 env)
       (package_content_json schema_name schema_version package_version session_id source_revision_id documents)"

end
