(* ===== verification/Package_Validator.thy ===== *)
theory Package_Validator
  imports Package_Model
begin

section \<open>Validation of packages\<close>

text \<open>
  Models \<open>packages/validator.py\<close>: \<open>PackageValidator.validate\<close> with its errors in their order,
  and the field constraints of the Pydantic models of \<open>packages/models.py\<close>, whose violation
  raises when the object is built. \<open>_contains_sensitive_value\<close> walks the dumped package and
  may raise where \<open>urlsplit\<close> does.
\<close>

subsection \<open>Field constraints\<close>

definition language_ok :: "string \<Rightarrow> bool" where
  "language_ok l \<longleftrightarrow> 2 \<le> length l \<and> length l \<le> 32"

definition transcript_item_ok :: "transcript_item \<Rightarrow> bool" where
  "transcript_item_ok i \<longleftrightarrow> ti_item_id i \<noteq> [] \<and> ti_source_segment_ids i \<noteq> []
     \<and> 0 \<le> ti_start_ms i \<and> 0 \<le> ti_end_ms i"

definition timeline_entry_ok :: "timeline_index_entry \<Rightarrow> bool" where
  "timeline_entry_ok e \<longleftrightarrow> te_item_id e \<noteq> [] \<and> 0 \<le> te_start_ms e \<and> 0 \<le> te_end_ms e
     \<and> te_source_document_id e \<noteq> []"

definition evidence_entry_ok :: "evidence_entry \<Rightarrow> bool" where
  "evidence_entry_ok e \<longleftrightarrow> ee_item_id e \<noteq> [] \<and> ee_source_segment_ids e \<noteq> []
     \<and> 0 \<le> ee_start_ms e \<and> 0 \<le> ee_end_ms e \<and> ee_source_document_id e \<noteq> []"

definition session_snapshot_ok :: "session_snapshot \<Rightarrow> bool" where
  "session_snapshot_ok s \<longleftrightarrow> sn_session_id s \<noteq> [] \<and> sn_room_name s \<noteq> [] \<and> sn_status s \<noteq> []
     \<and> sn_source_type s \<noteq> [] \<and> language_ok (sn_source_language s) \<and> list_all language_ok (sn_target_languages s)"

fun body_ok :: "string option \<Rightarrow> document_body \<Rightarrow> bool" where
  "body_ok l (Source_Raw items) \<longleftrightarrow> l \<noteq> None \<and> list_all transcript_item_ok items"
| "body_ok l (Source_Approved items) \<longleftrightarrow> l \<noteq> None \<and> list_all transcript_item_ok items"
| "body_ok l (Live_Translation items) \<longleftrightarrow> l \<noteq> None \<and> list_all transcript_item_ok items"
| "body_ok l (Timeline_Index duration items) \<longleftrightarrow> l = None \<and> 0 \<le> duration \<and> list_all timeline_entry_ok items"
| "body_ok l (Evidence_Index items) \<longleftrightarrow> l = None \<and> list_all evidence_entry_ok items"
| "body_ok l (Session_Metadata s) \<longleftrightarrow> l = None \<and> session_snapshot_ok s"
| "body_ok l (Provider_Metadata _) \<longleftrightarrow> l = None"
| "body_ok l (Metrics_Metadata _) \<longleftrightarrow> l = None"

definition document_ok :: "package_document \<Rightarrow> bool" where
  "document_ok d \<longleftrightarrow> pd_document_id d \<noteq> [] \<and> (case pd_language d of None \<Rightarrow> True | Some l \<Rightarrow> language_ok l)
     \<and> digest_ok (pd_content_hash d) \<and> body_ok (pd_language d) (pd_body d)"

definition reference_ok :: "document_reference \<Rightarrow> bool" where
  "reference_ok r \<longleftrightarrow> dr_document_id r \<noteq> [] \<and> dr_document_kind r \<noteq> []
     \<and> (case dr_language r of None \<Rightarrow> True | Some l \<Rightarrow> language_ok l) \<and> digest_ok (dr_content_hash r)"

definition manifest_ok :: "package_manifest \<Rightarrow> bool" where
  "manifest_ok m \<longleftrightarrow> mf_schema_name m = PACKAGE_SCHEMA \<and> mf_schema_version m = PACKAGE_SCHEMA_VERSION
     \<and> mf_package_id m \<noteq> [] \<and> 1 \<le> mf_package_version m \<and> mf_session_id m \<noteq> [] \<and> mf_status m = ''frozen''
     \<and> language_ok (mf_source_language m) \<and> list_all language_ok (mf_target_languages m)
     \<and> mf_effective_source_document_id m \<noteq> [] \<and> digest_ok (mf_content_hash m)
     \<and> list_all reference_ok (mf_documents m) \<and> session_snapshot_ok (mf_session_snapshot m)"

definition package_ok :: "transcript_package \<Rightarrow> bool" where
  "package_ok p \<longleftrightarrow> pk_package_id p \<noteq> [] \<and> pk_session_id p \<noteq> [] \<and> 1 \<le> pk_package_version p
     \<and> pk_schema_name p = PACKAGE_SCHEMA \<and> pk_schema_version p = PACKAGE_SCHEMA_VERSION
     \<and> pk_status p \<in> {''building'', ''frozen'', ''superseded'', ''invalid''}
     \<and> manifest_ok (pk_manifest p) \<and> list_all document_ok (pk_documents p) \<and> digest_ok (pk_content_hash p)"

subsection \<open>Sensitive values\<close>

definition FORBIDDEN_KEYS :: "string list" where
  "FORBIDDEN_KEYS = [''api_key'', ''authorization'', ''fetch_url'', ''password'', ''provider_payload'',
     ''raw_payload'', ''secret'', ''token'']"

definition lower_char :: "char \<Rightarrow> char" where
  "lower_char c = (let n = (of_char c :: nat) in
     if (65 \<le> n \<and> n \<le> 90) \<or> (192 \<le> n \<and> n \<le> 222 \<and> n \<noteq> 215) then char_of (n + 32) else c)"

definition key_forbidden :: "string \<Rightarrow> bool" where
  "key_forbidden k = (let normalized = map lower_char k in
     normalized \<in> set FORBIDDEN_KEYS \<or> ends_with ''_secret'' normalized)"

definition url_sensitive :: "package_env \<Rightarrow> string \<Rightarrow> bool res" where
  "url_sensitive env s = rbind (pe_urlsplit env s) (\<lambda>u.
     Inr (up_scheme u \<in> {''http'', ''https'', ''ws'', ''wss''}
       \<and> (up_query u \<noteq> [] \<or> str_or (up_username u) [] \<noteq> [] \<or> str_or (up_password u) [] \<noteq> [])))"

fun any_res :: "('a \<Rightarrow> bool res) \<Rightarrow> 'a list \<Rightarrow> bool res" where
  "any_res f [] = Inr False"
| "any_res f (x # xs) = rbind (f x) (\<lambda>b. if b then Inr True else any_res f xs)"

lemma any_res_cong [fundef_cong]:
  "xs = ys \<Longrightarrow> (\<And>x. x \<in> set ys \<Longrightarrow> f x = g x) \<Longrightarrow> any_res f xs = any_res g ys"
  by (induction ys arbitrary: xs) (auto simp: rbind_def split: sum.splits)

fun contains_sensitive_value :: "package_env \<Rightarrow> jvalue \<Rightarrow> bool res" where
  "contains_sensitive_value env (VObj es) =
     any_res (\<lambda>e. if key_forbidden (fst e) then Inr True else contains_sensitive_value env (snd e)) es"
| "contains_sensitive_value env (VArr xs) = any_res (contains_sensitive_value env) xs"
| "contains_sensitive_value env (VStr s) = url_sensitive env s"
| "contains_sensitive_value env v = Inr False"

subsection \<open>The dumped package\<close>

definition dump_document :: "package_env \<Rightarrow> package_document \<Rightarrow> jvalue" where
  "dump_document env d = VObj [(''document_id'', VStr (pd_document_id d)),
     (''language'', v_opt VStr (pd_language d)), (''content_hash'', VStr (pd_content_hash d)),
     (''document_kind'', VStr (pd_kind d)), (''content'', dump_body env (pd_body d))]"

definition dump_reference :: "document_reference \<Rightarrow> jvalue" where
  "dump_reference r = VObj [(''document_id'', VStr (dr_document_id r)),
     (''document_kind'', VStr (dr_document_kind r)), (''language'', v_opt VStr (dr_language r)),
     (''content_hash'', VStr (dr_content_hash r))]"

definition dump_manifest :: "package_env \<Rightarrow> package_manifest \<Rightarrow> jvalue" where
  "dump_manifest env m = VObj [(''schema_name'', VStr (mf_schema_name m)),
     (''schema_version'', VStr (mf_schema_version m)), (''package_id'', VStr (mf_package_id m)),
     (''package_version'', VInt (mf_package_version m)), (''session_id'', VStr (mf_session_id m)),
     (''status'', VStr (mf_status m)), (''source_language'', VStr (mf_source_language m)),
     (''target_languages'', v_strs (mf_target_languages m)),
     (''effective_source_document_id'', VStr (mf_effective_source_document_id m)),
     (''source_revision_id'', v_opt VStr (mf_source_revision_id m)),
     (''created_at'', VStr (pe_isoformat env (mf_created_at m))), (''content_hash'', VStr (mf_content_hash m)),
     (''documents'', VArr (map dump_reference (mf_documents m))),
     (''session_snapshot'', dump_session_snapshot env (mf_session_snapshot m)),
     (''provider_snapshot'', dump_provider_snapshot (mf_provider_snapshot m)),
     (''metrics_snapshot'', dump_metrics_snapshot (mf_metrics_snapshot m))]"

definition dump_package :: "package_env \<Rightarrow> transcript_package \<Rightarrow> jvalue" where
  "dump_package env p = VObj [(''package_id'', VStr (pk_package_id p)), (''session_id'', VStr (pk_session_id p)),
     (''package_version'', VInt (pk_package_version p)), (''schema_name'', VStr (pk_schema_name p)),
     (''schema_version'', VStr (pk_schema_version p)), (''status'', VStr (pk_status p)),
     (''source_revision_id'', v_opt VStr (pk_source_revision_id p)),
     (''manifest'', dump_manifest env (pk_manifest p)),
     (''documents'', VArr (map (dump_document env) (pk_documents p))),
     (''content_hash'', VStr (pk_content_hash p)), (''created_at'', VStr (pe_isoformat env (pk_created_at p))),
     (''frozen_at'', v_opt (\<lambda>t. VStr (pe_isoformat env t)) (pk_frozen_at p)),
     (''superseded_at'', v_opt (\<lambda>t. VStr (pe_isoformat env t)) (pk_superseded_at p))]"


subsection \<open>\<open>PackageValidator.validate\<close>\<close>

fun transcript_items :: "document_body \<Rightarrow> transcript_item list" where
  "transcript_items (Source_Raw items) = items"
| "transcript_items (Source_Approved items) = items"
| "transcript_items (Live_Translation items) = items"
| "transcript_items _ = []"

fun is_source_raw :: "document_body \<Rightarrow> bool" where
  "is_source_raw (Source_Raw _) \<longleftrightarrow> True"
| "is_source_raw _ \<longleftrightarrow> False"

fun is_source_approved :: "document_body \<Rightarrow> bool" where
  "is_source_approved (Source_Approved _) \<longleftrightarrow> True"
| "is_source_approved _ \<longleftrightarrow> False"

fun is_live_translation :: "document_body \<Rightarrow> bool" where
  "is_live_translation (Live_Translation _) \<longleftrightarrow> True"
| "is_live_translation _ \<longleftrightarrow> False"

fun timeline_content :: "document_body \<Rightarrow> (int \<times> timeline_index_entry list) option" where
  "timeline_content (Timeline_Index duration items) = Some (duration, items)"
| "timeline_content _ = None"

fun evidence_content :: "document_body \<Rightarrow> evidence_entry list option" where
  "evidence_content (Evidence_Index items) = Some items"
| "evidence_content _ = None"

definition err_if :: "bool \<Rightarrow> string \<Rightarrow> string list" where
  "err_if b message = (if b then [message] else [])"

abbreviation docs_of :: "(document_body \<Rightarrow> bool) \<Rightarrow> package_document list \<Rightarrow> package_document list" where
  "docs_of p ds \<equiv> filter (\<lambda>d. p (pd_body d)) ds"

definition reference_of :: "package_document \<Rightarrow> string \<times> string \<times> string option \<times> string" where
  "reference_of d = (pd_document_id d, pd_kind d, pd_language d, pd_content_hash d)"

definition manifest_reference :: "document_reference \<Rightarrow> string \<times> string \<times> string option \<times> string" where
  "manifest_reference r = (dr_document_id r, dr_document_kind r, dr_language r, dr_content_hash r)"

text \<open>The checks in the order of the method, in four parts.\<close>

definition identity_errors :: "package_env \<Rightarrow> transcript_package \<Rightarrow> package_document list \<Rightarrow> string list" where
  "identity_errors env p documents =
     err_if (\<not> distinct (map document_identity documents)) ''package contains duplicate document identities''
     @ err_if (pk_schema_name p \<noteq> PACKAGE_SCHEMA) ''package schema name is unsupported''
     @ err_if (pk_schema_version p \<noteq> PACKAGE_SCHEMA_VERSION) ''package schema version is unsupported''
     @ err_if (pk_status p \<notin> {''frozen'', ''superseded''}) ''package is not frozen''
     @ concat (map (\<lambda>d. err_if (document_content_hash env d \<noteq> pd_content_hash d)
                 (''document hash mismatch: '' @ pd_kind d)) documents)
     @ err_if (package_content_hash env (pk_schema_name p) (pk_schema_version p) (pk_package_version p)
                 (pk_session_id p) (pk_source_revision_id p) documents \<noteq> pk_content_hash p)
              ''package content hash mismatch''"

definition manifest_errors :: "transcript_package \<Rightarrow> package_document list \<Rightarrow> string list" where
  "manifest_errors p documents = (let manifest = pk_manifest p in
     err_if (mf_content_hash manifest \<noteq> pk_content_hash p) ''manifest content hash mismatch''
     @ err_if (mf_package_id manifest \<noteq> pk_package_id p) ''manifest package ID mismatch''
     @ err_if (mf_package_version manifest \<noteq> pk_package_version p) ''manifest package version mismatch''
     @ err_if (mf_session_id manifest \<noteq> pk_session_id p) ''manifest session ID mismatch''
     @ err_if (mf_source_revision_id manifest \<noteq> pk_source_revision_id p) ''manifest source revision ID mismatch''
     @ err_if (map reference_of documents \<noteq> map manifest_reference (mf_documents manifest))
         ''manifest document index mismatch'')"

definition count_errors :: "package_document list \<Rightarrow> string list" where
  "count_errors documents =
     concat (map (\<lambda>kind. err_if (length (filter (\<lambda>d. pd_kind d = kind) documents) \<noteq> 1)
         (''package requires exactly one '' @ kind @ '' document''))
       [''source_raw'', ''timeline_index'', ''evidence_index'', ''session_metadata'',
        ''provider_metadata'', ''metrics_metadata''])
     @ err_if (length (docs_of is_source_approved documents) > 1)
         ''package allows at most one source_approved document''"

definition effective_documents :: "transcript_package \<Rightarrow> package_document list \<Rightarrow> package_document list" where
  "effective_documents p documents =
     filter (\<lambda>d. pd_document_id d = mf_effective_source_document_id (pk_manifest p))
       (docs_of is_source_raw documents @ docs_of is_source_approved documents)"

definition effective_errors :: "transcript_package \<Rightarrow> package_document list \<Rightarrow> string list" where
  "effective_errors p documents =
     (let approved = docs_of is_source_approved documents;
          effective = effective_documents p documents
      in err_if (length effective \<noteq> 1) ''effective source document ID mismatch''
       @ (if pk_source_revision_id p = None then
            err_if (approved \<noteq> []) ''baseline package must not contain source_approved''
            @ err_if (effective \<noteq> [] \<and> \<not> is_source_raw (pd_body (hd effective)))
                ''baseline package effective source must be source_raw''
          else
            err_if (length approved \<noteq> 1) ''revision package requires source_approved''
            @ err_if (effective \<noteq> [] \<and> \<not> is_source_approved (pd_body (hd effective)))
                ''revision package effective source must be source_approved''))"

definition timeline_errors ::
  "package_document \<Rightarrow> int \<Rightarrow> timeline_index_entry list \<Rightarrow> evidence_entry list \<Rightarrow> string list" where
  "timeline_errors source duration_ms timeline_items evidence_items =
     (let source_items = transcript_items (pd_body source); sid = pd_document_id source in
      err_if (\<not> distinct (map ti_item_id source_items)) ''source document contains duplicate item IDs''
      @ concat (map (\<lambda>i. err_if (ti_end_ms i < ti_start_ms i)
          (''source item has invalid timing: '' @ ti_item_id i)) source_items)
      @ err_if (map (\<lambda>i. (ti_item_id i, ti_start_ms i, ti_end_ms i, sid)) source_items
          \<noteq> map (\<lambda>e. (te_item_id e, te_start_ms e, te_end_ms e, te_source_document_id e)) timeline_items)
          ''timeline index does not match source document''
      @ err_if (map (\<lambda>i. (ti_item_id i, ti_source_segment_ids i, ti_start_ms i, ti_end_ms i,
              str_or (ti_raw_text i) (ti_text i), ti_text i, sid)) source_items
          \<noteq> map (\<lambda>e. (ee_item_id e, ee_source_segment_ids e, ee_start_ms e, ee_end_ms e, ee_raw_text e,
              ee_effective_text e, ee_source_document_id e)) evidence_items)
          ''evidence index does not match source document''
      @ err_if (duration_ms \<noteq> (if source_items = [] then 0 else Max (set (map ti_end_ms source_items))))
          ''timeline duration does not match source document'')"

definition source_errors :: "transcript_package \<Rightarrow> package_document list \<Rightarrow> string list" where
  "source_errors p documents =
     (let effective = effective_documents p documents;
          timelines = List.map_filter (\<lambda>d. timeline_content (pd_body d)) documents;
          evidences = List.map_filter (\<lambda>d. evidence_content (pd_body d)) documents;
          raws = docs_of is_source_raw documents;
          approved = docs_of is_source_approved documents;
          ids = (\<lambda>d. set (concat (map ti_source_segment_ids (transcript_items (pd_body d)))))
      in (if effective \<noteq> [] \<and> timelines \<noteq> [] \<and> evidences \<noteq> []
          then timeline_errors (hd effective) (fst (hd timelines)) (snd (hd timelines)) (hd evidences) else [])
       @ (if raws \<noteq> [] \<and> approved \<noteq> [] then
            err_if (ids (hd approved) \<noteq> ids (hd raws)) ''source_approved does not preserve raw source segment IDs''
          else [])
       @ err_if (sort (map (\<lambda>d. str_or (pd_language d) []) (docs_of is_live_translation documents))
                   \<noteq> sort (mf_target_languages (pk_manifest p)))
           ''manifest target languages do not match documents'')"

definition validate_package :: "package_env \<Rightarrow> transcript_package \<Rightarrow> string list res" where
  "validate_package env p =
     (let documents = sort_key document_identity (pk_documents p) in
      rbind (contains_sensitive_value env (dump_package env p)) (\<lambda>sensitive.
        Inr (identity_errors env p documents @ manifest_errors p documents @ count_errors documents
          @ effective_errors p documents @ source_errors p documents
          @ err_if sensitive ''package contains a sensitive key or URL'')))"

definition validate_or_raise :: "package_env \<Rightarrow> transcript_package \<Rightarrow> unit res" where
  "validate_or_raise env p = rbind (validate_package env p) (\<lambda>errors.
     if errors \<noteq> [] then Inl (PackageValidationError (py_join ''; '' errors)) else Inr ())"


subsection \<open>What a valid package pins down\<close>

lemma err_if_Nil [simp]: "err_if b m = [] \<longleftrightarrow> \<not> b" "[] = err_if b m \<longleftrightarrow> \<not> b"
  by (simp_all add: err_if_def)

lemma validate_package_Nil:
  "validate_package env p = Inr [] \<longleftrightarrow>
     (let ds = sort_key document_identity (pk_documents p) in
      contains_sensitive_value env (dump_package env p) = Inr False
      \<and> identity_errors env p ds = [] \<and> manifest_errors p ds = [] \<and> count_errors ds = []
      \<and> effective_errors p ds = [] \<and> source_errors p ds = [])"
  by (auto simp: validate_package_def Let_def rbind_eq_Inr)

text \<open>The bytes that are hashed for a package: its index and each of its documents.\<close>

definition hashed_inputs :: "package_env \<Rightarrow> transcript_package \<Rightarrow> nat list set" where
  "hashed_inputs env p =
     insert (canonical_json (pe_repr env) (package_content_json (pk_schema_name p) (pk_schema_version p)
         (pk_package_version p) (pk_session_id p) (pk_source_revision_id p) (pk_documents p)))
       ((\<lambda>d. canonical_json (pe_repr env) (document_content_json env d)) ` set (pk_documents p))"

lemma v_opt_str_inj [simp]: "sort_keys (v_opt VStr a) = sort_keys (v_opt VStr b) \<longleftrightarrow> a = b"
  by (auto simp: v_opt_def split: option.splits)

lemma index_entry_inj:
  "sort_keys (index_entry a) = sort_keys (index_entry b) \<longleftrightarrow>
     pd_kind a = pd_kind b \<and> pd_language a = pd_language b \<and> pd_content_hash a = pd_content_hash b"
  by (auto simp: index_entry_def)

lemma document_json_inj:
  "sort_keys (document_content_json env a) = sort_keys (document_content_json env b) \<longleftrightarrow>
     pd_kind a = pd_kind b \<and> pd_language a = pd_language b
     \<and> sort_keys (dump_body env (pd_body a)) = sort_keys (dump_body env (pd_body b))"
  by (auto simp: document_content_json_def)

lemma package_json_inj:
  assumes "sort_keys (package_content_json sn sv pv sid rid ds) = sort_keys (package_content_json sn' sv' pv' sid' rid' ds')"
  shows "sn = sn' \<and> sv = sv' \<and> pv = pv' \<and> sid = sid' \<and> rid = rid' \<and>
    list_all2 (\<lambda>a b. pd_kind a = pd_kind b \<and> pd_language a = pd_language b \<and> pd_content_hash a = pd_content_hash b)
      (sort_key document_identity ds) (sort_key document_identity ds')"
proof -
  let ?s = "sort_key document_identity ds" and ?s' = "sort_key document_identity ds'"
  from assms have "sn = sn' \<and> sv = sv' \<and> pv = pv' \<and> sid = sid' \<and> rid = rid'
      \<and> map sort_keys (map index_entry ?s) = map sort_keys (map index_entry ?s')"
    by (auto simp: package_content_json_def)
  moreover from this have "list_all2 (=) (map (\<lambda>d. sort_keys (index_entry d)) ?s) (map (\<lambda>d. sort_keys (index_entry d)) ?s')"
    by (simp add: list.rel_eq comp_def)
  then have "list_all2 (\<lambda>a b. pd_kind a = pd_kind b \<and> pd_language a = pd_language b \<and> pd_content_hash a = pd_content_hash b) ?s ?s'"
    unfolding list.rel_map index_entry_inj .
  ultimately show ?thesis by blast
qed

lemma jwf_v_opt [simp]: "(\<And>x. jwf (f x)) \<Longrightarrow> jwf (v_opt f o')"
  by (simp add: v_opt_def split: option.splits)

lemma jwf_dump_body: "jwf (dump_body env b)"
  by (cases b) (simp_all add: list_all_iff dump_transcript_item_def dump_timeline_entry_def
      dump_evidence_entry_def dump_session_snapshot_def dump_provider_snapshot_def dump_metrics_snapshot_def Let_def)

lemma valid_hashes:
  assumes "validate_package env p = Inr []"
  shows "d \<in> set (pk_documents p) \<Longrightarrow>
      pe_sha256 env (canonical_json (pe_repr env) (document_content_json env d)) = pd_content_hash d"
    and "pe_sha256 env (canonical_json (pe_repr env) (package_content_json (pk_schema_name p) (pk_schema_version p)
         (pk_package_version p) (pk_session_id p) (pk_source_revision_id p) (pk_documents p))) = pk_content_hash p"
  using assms
  by (auto simp: validate_package_Nil Let_def identity_errors_def document_content_hash_def canonical_sha256_def
      package_content_hash_def package_content_json_def sorted_sort_id)

lemma hashed_collision_free:
  assumes inj: "inj_on (pe_sha256 env) (hashed_inputs env p \<union> hashed_inputs env q)"
    and "x \<in> hashed_inputs env p" "y \<in> hashed_inputs env q" "pe_sha256 env x = pe_sha256 env y"
  shows "x = y"
  using inj_onD [OF inj assms(4)] assms(2,3) by blast

end
