(* ===== verification/Package_Repository.thy ===== *)
theory Package_Repository
  imports Package_Validator Optimistic
begin

section \<open>Storage and delivery of packages\<close>

text \<open>
  Models \<open>packages/repository.py\<close>: the tables \<open>result_packages\<close> and \<open>package_documents\<close>, the
  operations of \<open>PackageRepository\<close> and the page it delivers to plugins. The JSON columns hold
  the values they are parsed back to: a manifest column is \<open>None\<close> while it is the empty
  dictionary, a content column is the body of the document.
\<close>

record result_package_record =
  rp_id :: string
  rp_session_id :: string
  rp_version :: int
  rp_schema_name :: string
  rp_schema_version :: string
  rp_source_revision_id :: "string option"
  rp_status :: string
  rp_content_hash :: "string option"
  rp_manifest :: "package_manifest option"
  rp_created_at :: instant
  rp_frozen_at :: "instant option"
  rp_superseded_at :: "instant option"

record package_document_record =
  dc_id :: string
  dc_package_id :: string
  dc_language :: "string option"
  dc_body :: document_body
  dc_content_hash :: string
  dc_created_at :: instant

record package_store =
  st_packages :: "result_package_record list"
  st_documents :: "package_document_record list"

subsection \<open>Operations\<close>

definition next_version :: "package_store \<Rightarrow> string \<Rightarrow> int" where
  "next_version st session_id =
     (let versions = map rp_version (filter (\<lambda>r. rp_session_id r = session_id) (st_packages st))
      in (if versions = [] then 0 else Max (set versions)) + 1)"

definition create_building ::
  "string \<Rightarrow> string \<Rightarrow> int \<Rightarrow> string option \<Rightarrow> instant \<Rightarrow> package_store
   \<Rightarrow> (package_store \<times> result_package_record) res" where
  "create_building package_id session_id version source_revision_id created_at st =
     (let record = \<lparr>rp_id = package_id, rp_session_id = session_id, rp_version = version,
        rp_schema_name = PACKAGE_SCHEMA, rp_schema_version = PACKAGE_SCHEMA_VERSION,
        rp_source_revision_id = source_revision_id, rp_status = ''building'', rp_content_hash = None,
        rp_manifest = None, rp_created_at = created_at, rp_frozen_at = None, rp_superseded_at = None\<rparr>
      in if package_id \<in> set (map rp_id (st_packages st))
            \<or> (session_id, version) \<in> set (map (\<lambda>r. (rp_session_id r, rp_version r)) (st_packages st))
         then Inl (RuntimeError ''IntegrityError'')
         else Inr (st\<lparr>st_packages := st_packages st @ [record]\<rparr>, record))"

definition add_document ::
  "string \<Rightarrow> package_document \<Rightarrow> instant \<Rightarrow> package_store \<Rightarrow> package_store res" where
  "add_document package_id d created_at st =
     (if pd_document_id d \<in> set (map dc_id (st_documents st))
         \<or> (\<exists>r \<in> set (st_documents st). dc_package_id r = package_id
              \<and> document_kind_of (dc_body r) = pd_kind d \<and> dc_language r = pd_language d)
      then Inl (RuntimeError ''IntegrityError'')
      else Inr (st\<lparr>st_documents := st_documents st @
        [\<lparr>dc_id = pd_document_id d, dc_package_id = package_id, dc_language = pd_language d,
          dc_body = pd_body d, dc_content_hash = pd_content_hash d, dc_created_at = created_at\<rparr>]\<rparr>))"

definition supersede :: "instant \<Rightarrow> result_package_record \<Rightarrow> result_package_record" where
  "supersede t r = r\<lparr>rp_status := ''superseded'', rp_superseded_at := Some t\<rparr>"

definition freeze_row :: "package_manifest \<Rightarrow> string \<Rightarrow> instant \<Rightarrow> result_package_record \<Rightarrow> result_package_record" where
  "freeze_row manifest content_hash t r =
     r\<lparr>rp_status := ''frozen'', rp_content_hash := Some content_hash, rp_manifest := Some manifest,
       rp_frozen_at := Some t\<rparr>"

definition freeze ::
  "result_package_record \<Rightarrow> package_manifest \<Rightarrow> string \<Rightarrow> instant \<Rightarrow> package_store \<Rightarrow> package_store res" where
  "freeze record manifest content_hash frozen_at st =
     (if rp_status record \<noteq> ''building'' then Inl (ValueError ''only a building package can be frozen'')
      else Inr (st\<lparr>st_packages := map (\<lambda>r.
          if rp_id r = rp_id record then freeze_row manifest content_hash frozen_at r
          else if rp_session_id r = rp_session_id record \<and> rp_status r = ''frozen'' then supersede frozen_at r
          else r) (st_packages st)\<rparr>))"

definition package_get :: "string \<Rightarrow> package_store \<Rightarrow> result_package_record option" where
  "package_get package_id st = find_row (\<lambda>r. rp_id r = package_id) (st_packages st)"

definition package_list_for_session :: "string \<Rightarrow> package_store \<Rightarrow> result_package_record list" where
  "package_list_for_session session_id st =
     rev (sort_key (\<lambda>r. (rp_version r, rp_id r)) (filter (\<lambda>r. rp_session_id r = session_id) (st_packages st)))"

definition list_documents :: "string \<Rightarrow> package_store \<Rightarrow> package_document_record list" where
  "list_documents package_id st = filter (\<lambda>r. dc_package_id r = package_id) (st_documents st)"

definition document_from_record :: "package_document_record \<Rightarrow> package_document" where
  "document_from_record r = \<lparr>pd_document_id = dc_id r, pd_language = dc_language r,
     pd_content_hash = dc_content_hash r, pd_body = dc_body r\<rparr>"

definition load_package :: "string \<Rightarrow> package_store \<Rightarrow> transcript_package res" where
  "load_package package_id st =
     (case package_get package_id st of
        None \<Rightarrow> Inl (LookupError (''Package not found: '' @ package_id))
      | Some r \<Rightarrow>
          (case (rp_content_hash r, rp_manifest r) of
             (Some content_hash, Some manifest) \<Rightarrow>
               let p = \<lparr>pk_package_id = rp_id r, pk_session_id = rp_session_id r,
                     pk_package_version = rp_version r, pk_schema_name = rp_schema_name r,
                     pk_schema_version = rp_schema_version r, pk_status = rp_status r,
                     pk_source_revision_id = rp_source_revision_id r, pk_manifest = manifest,
                     pk_documents = sort_key document_identity (map document_from_record (list_documents package_id st)),
                     pk_content_hash = content_hash, pk_created_at = rp_created_at r,
                     pk_frozen_at = rp_frozen_at r, pk_superseded_at = rp_superseded_at r\<rparr>
               in if package_ok p then Inr p else Inl (ValueError ''validation error for TranscriptPackage'')
           | _ \<Rightarrow> Inl (ValueError ''Package is not frozen'')))"

subsection \<open>Delivery pages\<close>

definition dict_merge :: "(string, jvalue) dict \<Rightarrow> (string, jvalue) dict \<Rightarrow> (string, jvalue) dict" where
  "dict_merge a b = foldl (\<lambda>d e. dict_set d (fst e) (snd e)) a b"

fun obj_entries :: "jvalue \<Rightarrow> (string, jvalue) dict" where
  "obj_entries (VObj es) = es"
| "obj_entries _ = []"

text \<open>The objects one document contributes: one per item, or the whole content.\<close>

definition flatten_document :: "package_env \<Rightarrow> package_document \<Rightarrow> jvalue list" where
  "flatten_document env d =
     (let content = obj_entries (dump_body env (pd_body d));
          common = [(''document_id'', VStr (pd_document_id d)), (''document_kind'', VStr (pd_kind d)),
            (''language'', v_opt VStr (pd_language d)), (''document_content_hash'', VStr (pd_content_hash d))]
      in case dict_get content ''items'' of
           Some (VArr items) \<Rightarrow>
             (let context = filter (\<lambda>e. fst e \<noteq> ''items'') content;
                  head = (if context = [] then common else dict_merge common [(''document_context'', VObj context)])
              in map (\<lambda>item. VObj (dict_merge head (obj_entries item))) items)
         | _ \<Rightarrow> [VObj (dict_merge common [(''content'', VObj content)])])"

definition wanted_document :: "string list \<Rightarrow> string option \<Rightarrow> package_document \<Rightarrow> bool" where
  "wanted_document document_kinds language d \<longleftrightarrow> pd_kind d \<in> set document_kinds
     \<and> \<not> (language \<noteq> None \<and> is_live_translation (pd_body d) \<and> pd_language d \<noteq> language)"

definition flattened_items :: "package_env \<Rightarrow> string list \<Rightarrow> string option \<Rightarrow> transcript_package \<Rightarrow> jvalue list" where
  "flattened_items env document_kinds language p =
     concat (map (flatten_document env)
       (filter (wanted_document document_kinds language) (sort_key document_identity (pk_documents p))))"

definition page_bytes :: "package_env \<Rightarrow> jvalue list \<Rightarrow> nat" where
  "page_bytes env page = length (utf8 (dumps_value (pe_repr env) (VArr page)))"

fun fill_page :: "package_env \<Rightarrow> nat \<Rightarrow> jvalue list \<Rightarrow> jvalue list \<Rightarrow> jvalue list res" where
  "fill_page env max_page_bytes page [] = Inr page"
| "fill_page env max_page_bytes page (item # items) =
     (if page_bytes env (page @ [item]) > max_page_bytes
      then if page = [] then Inl (ValueError ''Package item exceeds delivery byte limit'') else Inr page
      else fill_page env max_page_bytes (page @ [item]) items)"

definition page_of :: "package_env \<Rightarrow> int \<Rightarrow> int \<Rightarrow> int \<Rightarrow> nat \<Rightarrow> jvalue list \<Rightarrow> (jvalue list \<times> int option) res" where
  "page_of env after_item limit max_page_items max_page_bytes flattened =
     (if after_item \<ge> int (length flattened) then Inr ([], None)
      else let hard_limit = min limit max_page_items in
        rbind (fill_page env max_page_bytes [] (take (nat hard_limit) (drop (nat after_item) flattened))) (\<lambda>page.
          let next_after_item = after_item + int (length page)
          in Inr (page, if next_after_item \<ge> int (length flattened) then None else Some next_after_item)))"

definition delivery_page ::
  "package_env \<Rightarrow> string \<Rightarrow> string list \<Rightarrow> string option \<Rightarrow> int \<Rightarrow> int \<Rightarrow> int \<Rightarrow> nat \<Rightarrow> package_store
   \<Rightarrow> (transcript_package \<times> jvalue list \<times> int option) res" where
  "delivery_page env package_id document_kinds language after_item limit max_page_items max_page_bytes st =
     (if after_item < 0 \<or> limit < 1 \<or> max_page_items < 1 then Inl (ValueError ''invalid delivery page bounds'')
      else rbind (load_package package_id st) (\<lambda>p.
        if pk_status p \<notin> {''frozen'', ''superseded''} then Inl (ValueError ''Package is not frozen'')
        else rbind (page_of env after_item limit max_page_items max_page_bytes
               (flattened_items env document_kinds language p)) (\<lambda>(page, nxt). Inr (p, page, nxt))))"


subsection \<open>One frozen package per session\<close>

definition package_table_inv :: "result_package_record list \<Rightarrow> bool" where
  "package_table_inv rows \<longleftrightarrow> distinct (map rp_id rows)
     \<and> distinct (map (\<lambda>r. (rp_session_id r, rp_version r)) rows)
     \<and> (\<forall>s. length (filter (\<lambda>r. rp_session_id r = s \<and> rp_status r = ''frozen'') rows) \<le> 1)
     \<and> (\<forall>r \<in> set rows. rp_status r \<in> {''building'', ''frozen'', ''superseded''}
          \<and> (rp_status r \<noteq> ''building'' \<longrightarrow> rp_content_hash r \<noteq> None \<and> rp_manifest r \<noteq> None \<and> rp_frozen_at r \<noteq> None))"

lemma create_building_inv:
  assumes "package_table_inv (st_packages st)" "create_building i s v sr t st = Inr (st', r)"
  shows "package_table_inv (st_packages st')"
  using assms by (auto simp: create_building_def Let_def package_table_inv_def split: if_splits)

lemma freeze_inv:
  assumes inv: "package_table_inv (st_packages st)" and row: "record \<in> set (st_packages st)"
    and fr: "freeze record m h t st = Inr st'"
  shows "package_table_inv (st_packages st')
    \<and> filter (\<lambda>r. rp_session_id r = rp_session_id record \<and> rp_status r = ''frozen'') (st_packages st')
        = [freeze_row m h t record]"
proof -
  let ?rows = "st_packages st"
  let ?g = "\<lambda>r. if rp_id r = rp_id record then freeze_row m h t r
      else if rp_session_id r = rp_session_id record \<and> rp_status r = ''frozen'' then supersede t r else r"
  have st': "st_packages st' = map ?g ?rows" and building: "rp_status record = ''building''"
    using fr by (auto simp: freeze_def split: if_splits)
  have ids: "distinct (map rp_id ?rows)" and one: "\<And>s. length (filter (\<lambda>r. rp_session_id r = s \<and> rp_status r = ''frozen'') ?rows) \<le> 1"
    using inv by (simp_all add: package_table_inv_def)
  have keys: "rp_id (?g r) = rp_id r" "rp_session_id (?g r) = rp_session_id r" "rp_version (?g r) = rp_version r" for r
    by (auto simp: freeze_row_def supersede_def)
  have st_g: "rp_status (?g r) = ''frozen'' \<longleftrightarrow> rp_id r = rp_id record
      \<or> rp_session_id r \<noteq> rp_session_id record \<and> rp_status r = ''frozen''" for r
    by (auto simp: freeze_row_def supersede_def)
  note current = switch_current [where key = rp_id and grp = rp_session_id and cur = "\<lambda>r. rp_status r = ''frozen''" and g = ?g,
      OF ids row keys(2) st_g one]
  have "package_table_inv (map ?g ?rows)"
    unfolding package_table_inv_def
    using inv current(2) keys by (auto simp: package_table_inv_def freeze_row_def supersede_def comp_def)
  with current(1) st' show ?thesis by simp
qed


subsection \<open>Following the pages\<close>

text \<open>A consumer asks for the page after its cursor until there is no next cursor.\<close>

fun deliver_all ::
  "package_env \<Rightarrow> int \<Rightarrow> int \<Rightarrow> nat \<Rightarrow> jvalue list \<Rightarrow> nat \<Rightarrow> int \<Rightarrow> jvalue list list res" where
  "deliver_all env limit max_items max_bytes flattened 0 after = Inl (RuntimeError ''too many pages'')"
| "deliver_all env limit max_items max_bytes flattened (Suc n) after =
     rbind (page_of env after limit max_items max_bytes flattened) (\<lambda>(page, nxt).
       case nxt of None \<Rightarrow> Inr [page]
       | Some a \<Rightarrow> rbind (deliver_all env limit max_items max_bytes flattened n a) (\<lambda>ps. Inr (page # ps)))"

lemma fill_page_prefix:
  assumes "page = [] \<or> page_bytes env page \<le> m" and "\<And>x. x \<in> set items \<Longrightarrow> page_bytes env [x] \<le> m"
  shows "\<exists>k \<le> length items. fill_page env m page items = Inr (page @ take k items)
     \<and> (page @ take k items = [] \<or> page_bytes env (page @ take k items) \<le> m)
     \<and> (page = [] \<and> items \<noteq> [] \<longrightarrow> 0 < k)"
  using assms
proof (induction items arbitrary: page)
  case (Cons x items)
  show ?case
  proof (cases "page_bytes env (page @ [x]) > m")
    case True
    then have "page \<noteq> []" using Cons.prems(2) [of x] by auto
    with True Cons.prems(1) show ?thesis by (intro exI [of _ 0]) simp
  next
    case False
    then have "\<exists>k \<le> length items. fill_page env m (page @ [x]) items = Inr ((page @ [x]) @ take k items)
       \<and> ((page @ [x]) @ take k items = [] \<or> page_bytes env ((page @ [x]) @ take k items) \<le> m)"
      using Cons.IH [of "page @ [x]"] Cons.prems(2) by fastforce
    then obtain k where "k \<le> length items" "fill_page env m (page @ [x]) items = Inr ((page @ [x]) @ take k items)"
      "page_bytes env ((page @ [x]) @ take k items) \<le> m" by auto
    with False show ?thesis by (intro exI [of _ "Suc k"]) simp
  qed
qed simp

lemma page_of_progress:
  assumes "1 \<le> limit" "1 \<le> max_items" "0 \<le> after" "after < int (length fl)"
    and "\<And>x. x \<in> set fl \<Longrightarrow> page_bytes env [x] \<le> m"
  obtains k where "0 < k" "int k \<le> min limit max_items" "nat after + k \<le> length fl"
    "page_of env after limit max_items m fl
       = Inr (take k (drop (nat after) fl), if nat after + k = length fl then None else Some (after + int k))"
    "page_bytes env (take k (drop (nat after) fl)) \<le> m"
proof -
  let ?w = "take (nat (min limit max_items)) (drop (nat after) fl)"
  have "x \<in> set ?w \<Longrightarrow> page_bytes env [x] \<le> m" for x using assms(5) by (meson in_set_dropD in_set_takeD)
  with fill_page_prefix [of "[]" env m ?w] obtain k where k: "k \<le> length ?w"
    "fill_page env m [] ?w = Inr (take k ?w)" "take k ?w = [] \<or> page_bytes env (take k ?w) \<le> m" "?w \<noteq> [] \<longrightarrow> 0 < k"
    by auto
  have "?w \<noteq> []" using assms(1-4) by auto
  have tk: "take k ?w = take k (drop (nat after) fl)" using k(1) by (simp add: take_take min.absorb1)
  have len: "k \<le> nat (min limit max_items)" "nat after + k \<le> length fl" using k(1) assms(3,4) by auto
  show thesis
  proof (rule that [of k])
    show "0 < k" using k(4) \<open>?w \<noteq> []\<close> by blast
    then show "page_bytes env (take k (drop (nat after) fl)) \<le> m"
      using k(3) \<open>?w \<noteq> []\<close> tk by (auto simp: take_eq_Nil)
    show "int k \<le> min limit max_items" using len(1) assms(1,2) by linarith
    show "page_of env after limit max_items m fl
       = Inr (take k (drop (nat after) fl), if nat after + k = length fl then None else Some (after + int k))"
    proof -
      have "length (take k (drop (nat after) fl)) = k" using len(2) assms(3,4) by simp
      moreover have "fill_page env m [] ?w = Inr (take k (drop (nat after) fl))" using k(2) unfolding tk .
      moreover have "int (length fl) \<le> after + int k \<longleftrightarrow> nat after + k = length fl" using len(2) assms(3) by linarith
      ultimately show ?thesis using assms(4) by (simp add: page_of_def Let_def)
    qed
  qed (rule len(2))
qed

lemma deliver_from:
  assumes "1 \<le> limit" "1 \<le> max_items" "\<And>x. x \<in> set fl \<Longrightarrow> page_bytes env [x] \<le> m"
    and "0 \<le> after" "after < int (length fl)" "length fl - nat after \<le> n"
  shows "\<exists>pages. deliver_all env limit max_items m fl n after = Inr pages \<and> concat pages = drop (nat after) fl
    \<and> list_all (\<lambda>p. p \<noteq> [] \<and> int (length p) \<le> min limit max_items \<and> page_bytes env p \<le> m) pages"
  using assms(4-)
proof (induction n arbitrary: after)
  case (Suc n)
  obtain k where k: "0 < k" "int k \<le> min limit max_items" "nat after + k \<le> length fl"
    "page_of env after limit max_items m fl
       = Inr (take k (drop (nat after) fl), if nat after + k = length fl then None else Some (after + int k))"
    "page_bytes env (take k (drop (nat after) fl)) \<le> m"
    by (rule page_of_progress [OF assms(1,2) Suc.prems(1,2) assms(3)])
  let ?page = "take k (drop (nat after) fl)"
  have page: "?page \<noteq> [] \<and> int (length ?page) \<le> min limit max_items \<and> page_bytes env ?page \<le> m"
    using k Suc.prems(1,2) by auto
  show ?case
  proof (cases "nat after + k = length fl")
    case True
    then show ?thesis using k(4) page by simp
  next
    case False
    then have next_ok: "0 \<le> after + int k" "after + int k < int (length fl)" "length fl - nat (after + int k) \<le> n"
      using k(1,3) Suc.prems by auto
    obtain pages where "deliver_all env limit max_items m fl n (after + int k) = Inr pages"
      "concat pages = drop (nat (after + int k)) fl"
      "list_all (\<lambda>p. p \<noteq> [] \<and> int (length p) \<le> min limit max_items \<and> page_bytes env p \<le> m) pages"
      using Suc.IH [OF next_ok] by blast
    moreover have "nat (after + int k) = k + nat after" using Suc.prems(1) by simp
    ultimately show ?thesis
      using k(4) False page append_take_drop_id [of k "drop (nat after) fl"] by (simp add: drop_drop)
  qed
qed simp

text \<open>The same consumer over the operation of the repository: each request loads the package.\<close>

fun deliver_package ::
  "package_env \<Rightarrow> string \<Rightarrow> string list \<Rightarrow> string option \<Rightarrow> int \<Rightarrow> int \<Rightarrow> nat \<Rightarrow> package_store
   \<Rightarrow> nat \<Rightarrow> int \<Rightarrow> jvalue list list res" where
  "deliver_package env package_id kinds language limit max_items max_bytes st 0 after =
     Inl (RuntimeError ''too many pages'')"
| "deliver_package env package_id kinds language limit max_items max_bytes st (Suc n) after =
     rbind (delivery_page env package_id kinds language after limit max_items max_bytes st) (\<lambda>(p, page, nxt).
       case nxt of None \<Rightarrow> Inr [page]
       | Some a \<Rightarrow> rbind (deliver_package env package_id kinds language limit max_items max_bytes st n a)
           (\<lambda>ps. Inr (page # ps)))"

lemma page_of_cursor: "page_of env after limit mi mb fl = Inr (page, Some a) \<Longrightarrow> 0 \<le> after \<Longrightarrow> 0 \<le> a"
  by (auto simp: page_of_def Let_def rbind_def split: if_splits sum.splits)

lemma deliver_package_pages:
  assumes "load_package package_id st = Inr p" "pk_status p \<in> {''frozen'', ''superseded''}"
    and "1 \<le> limit" "1 \<le> max_items"
  shows "0 \<le> after \<Longrightarrow> deliver_package env package_id kinds language limit max_items max_bytes st n after
    = deliver_all env limit max_items max_bytes (flattened_items env kinds language p) n after"
proof (induction n arbitrary: after)
  case (Suc n)
  have one: "delivery_page env package_id kinds language after limit max_items max_bytes st
      = rbind (page_of env after limit max_items max_bytes (flattened_items env kinds language p)) (\<lambda>(page, nxt). Inr (p, page, nxt))"
    using assms Suc.prems by (auto simp: delivery_page_def)
  show ?case
  proof (cases "page_of env after limit max_items max_bytes (flattened_items env kinds language p)")
    case (Inr r)
    obtain page nxt where r: "r = (page, nxt)" by (cases r)
    have "nxt = Some a \<Longrightarrow> 0 \<le> a" for a using page_of_cursor [of env after] Inr r Suc.prems by auto
    with one Inr r Suc.IH show ?thesis by (auto split: option.splits)
  qed (simp add: one)
qed simp

text \<open>
  C29. Delivery of a package terminates and is complete: for a frozen or superseded package and
  any positive limits, if every item alone fits into a page, then following the cursors from
  the start ends without an error after at most as many requests as there are items (one if
  there are none), the pages together are exactly the items in their order, and no page
  exceeds the item limit or the byte limit.
\<close>

theorem package_delivery_complete:
  assumes "load_package package_id st = Inr p" "pk_status p \<in> {''frozen'', ''superseded''}"
    and "1 \<le> limit" "1 \<le> max_items"
    and "\<forall>x \<in> set (flattened_items env kinds language p). page_bytes env [x] \<le> max_bytes"
  shows "\<exists>pages. deliver_package env package_id kinds language limit max_items max_bytes st
        (max 1 (length (flattened_items env kinds language p))) 0 = Inr pages
    \<and> concat pages = flattened_items env kinds language p
    \<and> list_all (\<lambda>page. page = [] \<or> int (length page) \<le> min limit max_items \<and> page_bytes env page \<le> max_bytes) pages"
proof (cases "flattened_items env kinds language p = []")
  case True
  then show ?thesis by (simp add: deliver_package_pages [OF assms(1-4)] page_of_def del: deliver_package.simps)
next
  case False
  let ?fl = "flattened_items env kinds language p"
  have "\<exists>pages. deliver_all env limit max_items max_bytes ?fl (max 1 (length ?fl)) 0 = Inr pages
      \<and> concat pages = drop (nat 0) ?fl
      \<and> list_all (\<lambda>p. p \<noteq> [] \<and> int (length p) \<le> min limit max_items \<and> page_bytes env p \<le> max_bytes) pages"
    by (rule deliver_from) (use assms False in auto)
  then show ?thesis by (force simp: list_all_iff deliver_package_pages [OF assms(1-4)])
qed

text \<open>A frozen package with one document of two items, read one item at a time.\<close>

definition page_env :: package_env where
  "page_env = \<lparr>pe_repr = (\<lambda>_. ''0.5''), pe_sha256 = (\<lambda>_. []), pe_uuid5 = (\<lambda>s. s), pe_isoformat = (\<lambda>_. ''2026''),
     pe_urlsplit = (\<lambda>_. Inr \<lparr>up_scheme = [], up_query = [], up_username = None, up_password = None\<rparr>)\<rparr>"

definition page_manifest :: package_manifest where
  "page_manifest = \<lparr>mf_schema_name = PACKAGE_SCHEMA, mf_schema_version = PACKAGE_SCHEMA_VERSION,
     mf_package_id = ''p'', mf_package_version = 1, mf_session_id = ''s'', mf_status = ''frozen'',
     mf_source_language = ''en'', mf_target_languages = [], mf_effective_source_document_id = ''d'',
     mf_source_revision_id = None, mf_created_at = 1, mf_content_hash = replicate 64 (CHR ''0''),
     mf_documents = [],
     mf_session_snapshot = \<lparr>sn_session_id = ''s'', sn_room_name = ''r'', sn_status = ''ended'',
       sn_source_type = ''room'', sn_source_language = ''en'', sn_target_languages = [], sn_created_at = 1,
       sn_started_at = None, sn_ended_at = None, sn_source_ended_at = None, sn_translation_ended_at = None,
       sn_stop_reason = None, sn_failure_code = None\<rparr>,
     mf_provider_snapshot = \<lparr>pv_asr_provider = None, pv_asr_model = None, pv_translation_provider = None,
       pv_translation_model = None, pv_translation_status = ''off''\<rparr>,
     mf_metrics_snapshot = \<lparr>mt_final_result_count = None, mt_first_partial_latency_ms = None,
       mt_average_final_latency_ms = None, mt_provider_error_count = None, mt_sent_audio_chunk_count = None,
       mt_sent_audio_bytes = None\<rparr>\<rparr>"

definition page_store :: package_store where
  "page_store = \<lparr>st_packages = [\<lparr>rp_id = ''p'', rp_session_id = ''s'', rp_version = 1,
       rp_schema_name = PACKAGE_SCHEMA, rp_schema_version = PACKAGE_SCHEMA_VERSION,
       rp_source_revision_id = None, rp_status = ''frozen'', rp_content_hash = Some (replicate 64 (CHR ''0'')),
       rp_manifest = Some page_manifest, rp_created_at = 1, rp_frozen_at = Some 1, rp_superseded_at = None\<rparr>],
     st_documents = [\<lparr>dc_id = ''d'', dc_package_id = ''p'', dc_language = None,
       dc_body = Timeline_Index 9 [
         \<lparr>te_item_id = ''a'', te_start_ms = 0, te_end_ms = 4, te_source_document_id = ''x''\<rparr>,
         \<lparr>te_item_id = ''b'', te_start_ms = 4, te_end_ms = 9, te_source_document_id = ''x''\<rparr>],
       dc_content_hash = replicate 64 (CHR ''0''), dc_created_at = 1\<rparr>]\<rparr>"

definition page_package :: transcript_package where
  "page_package = (case load_package ''p'' page_store of Inr p \<Rightarrow> p | Inl _ \<Rightarrow> undefined)"

lemma page_package_loads:
  "load_package ''p'' page_store = Inr page_package" "pk_status page_package = ''frozen''"
  "length (flattened_items page_env [''timeline_index''] None page_package) = 2"
  "\<forall>x \<in> set (flattened_items page_env [''timeline_index''] None page_package). page_bytes page_env [x] \<le> 1000"
  by code_simp+

theorem package_delivery_complete_witness:
  "\<exists>pages. deliver_package page_env ''p'' [''timeline_index''] None 1 10 1000 page_store 2 0 = Inr pages
    \<and> concat pages = flattened_items page_env [''timeline_index''] None page_package"
proof -
  have "pk_status page_package \<in> {''frozen'', ''superseded''}" by (simp add: page_package_loads(2))
  then show ?thesis
    using package_delivery_complete [OF page_package_loads(1) _ _ _ page_package_loads(4), of 1 10]
      page_package_loads(3)
    by (auto simp: numeral_2_eq_2 simp del: deliver_package.simps)
qed

end
