(* ===== verification/Meeting_Model.thy ===== *)
theory Meeting_Model
  imports Canonical_Json
begin

section \<open>The data of the meeting state\<close>

text \<open>
  Models \<open>meeting_state/models.py\<close> and \<open>meeting_state/contracts.py\<close>: evidence messages, grounded
  values, action candidates, the items of a meeting state, and the proposals an extraction
  returns. A Pydantic model is a record; \<open>..._ok\<close> is the conjunction of its field constraints and
  validators, and building one that violates them raises (\<open>checked\<close>). A \<open>ValidationError\<close> is a
  \<open>ValueError\<close>. Literal types are datatypes. Instants carry no time zone: they are what
  \<open>_utc_instant\<close> makes of them.
\<close>

definition checked :: "('a \<Rightarrow> bool) \<Rightarrow> string \<Rightarrow> 'a \<Rightarrow> 'a res" where
  "checked ok model x = (if ok x then Inr x else Inl (ValueError (''validation error for '' @ model)))"

lemma checked_Inr [res_simps]: "checked ok model x = Inr y \<longleftrightarrow> ok x \<and> y = x"
  by (auto simp: checked_def)

lemma checked_ok [simp]: "ok x \<Longrightarrow> checked ok model x = Inr x"
  by (simp add: checked_def)

definition len_in :: "nat \<Rightarrow> nat \<Rightarrow> string \<Rightarrow> bool" where
  "len_in lo hi s \<longleftrightarrow> lo \<le> length s \<and> length s \<le> hi"

definition opt_all :: "('a \<Rightarrow> bool) \<Rightarrow> 'a option \<Rightarrow> bool" where
  "opt_all p v = (case v of None \<Rightarrow> True | Some x \<Rightarrow> p x)"

lemma opt_all_simps [simp]: "opt_all p None" "opt_all p (Some x) = p x"
  by (simp_all add: opt_all_def)

definition unit_interval :: "rat \<Rightarrow> bool" where
  "unit_interval x \<longleftrightarrow> 0 \<le> x \<and> x \<le> 1"

definition audio_bounds_ok :: "int option \<Rightarrow> int option \<Rightarrow> bool" where
  "audio_bounds_ok audio_start audio_end \<longleftrightarrow> opt_all (\<lambda>s. 0 \<le> s) audio_start \<and> opt_all (\<lambda>e. 0 \<le> e) audio_end
     \<and> opt_all (\<lambda>s. opt_all (\<lambda>e. s \<le> e) audio_end) audio_start"

subsection \<open>Evidence messages\<close>

record caption_evidence_message =
  cv_message_id :: string
  cv_session_id :: string
  cv_speaker_label :: "string option"
  cv_track_id :: string
  cv_segment_id :: string
  cv_segment_revision :: int
  cv_language :: string
  cv_raw_text :: string
  cv_display_text :: string
  cv_audio_start_ms :: "int option"
  cv_audio_end_ms :: "int option"
  cv_confidence :: "rat option"
  cv_received_at_ms :: int
  cv_finalized_at :: instant
  cv_content_hash :: string

record user_input_evidence_message =
  uv_message_id :: string
  uv_session_id :: string
  uv_actor_id :: string
  uv_raw_text :: string
  uv_display_text :: string
  uv_created_at :: instant
  uv_content_hash :: string

datatype evidence_message =
    Caption_Evidence caption_evidence_message
  | User_Input_Evidence user_input_evidence_message

fun message_id :: "evidence_message \<Rightarrow> string" where
  "message_id (Caption_Evidence m) = cv_message_id m"
| "message_id (User_Input_Evidence m) = uv_message_id m"

fun message_session :: "evidence_message \<Rightarrow> string" where
  "message_session (Caption_Evidence m) = cv_session_id m"
| "message_session (User_Input_Evidence m) = uv_session_id m"

definition caption_evidence_ok :: "caption_evidence_message \<Rightarrow> bool" where
  "caption_evidence_ok m \<longleftrightarrow> len_in 1 255 (cv_message_id m) \<and> len_in 1 36 (cv_session_id m)
     \<and> opt_all (\<lambda>l. length l \<le> 255) (cv_speaker_label m) \<and> len_in 1 255 (cv_track_id m) \<and> len_in 1 255 (cv_segment_id m)
     \<and> 1 \<le> cv_segment_revision m \<and> len_in 1 32 (cv_language m) \<and> cv_raw_text m \<noteq> [] \<and> cv_display_text m \<noteq> []
     \<and> audio_bounds_ok (cv_audio_start_ms m) (cv_audio_end_ms m) \<and> opt_all unit_interval (cv_confidence m)
     \<and> 0 \<le> cv_received_at_ms m \<and> digest_ok (cv_content_hash m)"

definition user_input_ok :: "user_input_evidence_message \<Rightarrow> bool" where
  "user_input_ok m \<longleftrightarrow> len_in 1 255 (uv_message_id m) \<and> len_in 1 36 (uv_session_id m) \<and> len_in 1 255 (uv_actor_id m)
     \<and> uv_raw_text m \<noteq> [] \<and> uv_display_text m \<noteq> [] \<and> digest_ok (uv_content_hash m)"

fun message_ok :: "evidence_message \<Rightarrow> bool" where
  "message_ok (Caption_Evidence m) \<longleftrightarrow> caption_evidence_ok m"
| "message_ok (User_Input_Evidence m) \<longleftrightarrow> user_input_ok m"

subsection \<open>Grounded values and candidates\<close>

datatype grounded_origin = Meeting_Explicit | Meeting_Inferred | User_Supplied | External_Resolved | Server_Default
datatype resolution = Known | Missing | Ambiguous | Conflicting
datatype task_priority = Low | Normal | High | Urgent

record 'a grounded_value =
  gv_value :: "'a option"
  gv_origin :: grounded_origin
  gv_resolution :: resolution
  gv_evidence_message_ids :: "string list"
  gv_confidence :: "rat option"
  gv_explanation :: "string option"

definition grounded_ok :: "('a \<Rightarrow> bool) \<Rightarrow> 'a grounded_value \<Rightarrow> bool" where
  "grounded_ok ok g \<longleftrightarrow> opt_all ok (gv_value g) \<and> opt_all unit_interval (gv_confidence g)
     \<and> opt_all (\<lambda>e. length e \<le> 1000) (gv_explanation g)
     \<and> \<not> (gv_resolution g = Known \<and> gv_value g = None)
     \<and> \<not> (gv_origin g \<noteq> Server_Default \<and> gv_evidence_message_ids g = [])
     \<and> distinct (gv_evidence_message_ids g)"

record assignee_value =
  av_spoken_text :: string
  av_linear_user_id :: "string option"
  av_is_placeholder :: bool

definition assignee_ok :: "assignee_value \<Rightarrow> bool" where
  "assignee_ok a \<longleftrightarrow> len_in 1 255 (av_spoken_text a) \<and> opt_all (\<lambda>u. length u \<le> 255) (av_linear_user_id a)
     \<and> \<not> (av_is_placeholder a \<and> av_linear_user_id a \<noteq> None)"

record candidate_content =
  cc_title :: "string grounded_value"
  cc_deliverable :: "string grounded_value"
  cc_assignee :: "assignee_value grounded_value"
  cc_due_at :: "instant grounded_value"
  cc_priority :: "task_priority grounded_value"
  cc_evidence_messages :: "evidence_message list"
  cc_blocking_conflict_message_ids :: "string list"

definition referenced_messages :: "candidate_content \<Rightarrow> string set" where
  "referenced_messages c = set (cc_blocking_conflict_message_ids c) \<union> set (gv_evidence_message_ids (cc_title c))
     \<union> set (gv_evidence_message_ids (cc_deliverable c)) \<union> set (gv_evidence_message_ids (cc_assignee c))
     \<union> set (gv_evidence_message_ids (cc_due_at c)) \<union> set (gv_evidence_message_ids (cc_priority c))"

definition content_ok :: "candidate_content \<Rightarrow> bool" where
  "content_ok c \<longleftrightarrow> grounded_ok (\<lambda>_. True) (cc_title c) \<and> grounded_ok (\<lambda>_. True) (cc_deliverable c)
     \<and> grounded_ok assignee_ok (cc_assignee c) \<and> grounded_ok (\<lambda>_. True) (cc_due_at c) \<and> grounded_ok (\<lambda>_. True) (cc_priority c)
     \<and> list_all message_ok (cc_evidence_messages c) \<and> distinct (map message_id (cc_evidence_messages c))
     \<and> referenced_messages c \<subseteq> set (map message_id (cc_evidence_messages c))"

datatype readiness = Detected | Recordable | Executable | Fully_Specified

record action_candidate =
  ac_candidate_id :: string
  ac_lineage_root_id :: string
  ac_session_id :: string
  ac_current_revision :: int
  ac_readiness :: readiness
  ac_content_status :: string
  ac_execution_status :: string
  ac_content :: candidate_content
  ac_source_segment_ids :: "string list"
  ac_evidence_revisions_current :: bool
  ac_derived_from_candidate_id :: "string option"
  ac_derived_from_revision :: "int option"
  ac_superseded_by_candidate_id :: "string option"

definition CONTENT_STATUSES :: "string list" where
  "CONTENT_STATUSES = [''active'', ''dismissed'', ''superseded'', ''cancelled'']"

definition EXECUTION_STATUSES :: "string list" where
  "EXECUTION_STATUSES = [''not_requested'', ''handed_off'', ''executing'', ''executed'', ''failed'']"

definition candidate_ok :: "action_candidate \<Rightarrow> bool" where
  "candidate_ok c \<longleftrightarrow> len_in 1 36 (ac_candidate_id c) \<and> len_in 1 36 (ac_lineage_root_id c) \<and> len_in 1 36 (ac_session_id c)
     \<and> 1 \<le> ac_current_revision c \<and> ac_content_status c \<in> set CONTENT_STATUSES
     \<and> ac_execution_status c \<in> set EXECUTION_STATUSES \<and> content_ok (ac_content c) \<and> ac_source_segment_ids c \<noteq> []
     \<and> opt_all (\<lambda>i. length i \<le> 36) (ac_derived_from_candidate_id c) \<and> opt_all (\<lambda>r. 1 \<le> r) (ac_derived_from_revision c)
     \<and> opt_all (\<lambda>i. length i \<le> 36) (ac_superseded_by_candidate_id c)"

subsection \<open>Readiness\<close>

datatype required_field = Assignee | Due_At | Priority

record action_execution_request =
  aq_explicitly_requested :: bool
  aq_required_fields :: "required_field list"
  aq_allow_unresolved_assignee_placeholder :: bool

record action_grant_context =
  gc_active :: bool
  gc_session_id :: string
  gc_capabilities :: "string list"
  gc_candidate_ids :: "string list"
  gc_remaining_side_effects :: int

definition allows_task_create :: "action_grant_context \<Rightarrow> action_candidate \<Rightarrow> bool" where
  "allows_task_create g c \<longleftrightarrow> gc_active g \<and> gc_session_id g = ac_session_id c \<and> ''task.create'' \<in> set (gc_capabilities g)
     \<and> ac_candidate_id c \<in> set (gc_candidate_ids g) \<and> gc_remaining_side_effects g > 0"

definition is_known :: "'a grounded_value \<Rightarrow> bool" where
  "is_known g \<longleftrightarrow> gv_resolution g = Known \<and> gv_value g \<noteq> None"

fun required_known :: "candidate_content \<Rightarrow> required_field \<Rightarrow> bool" where
  "required_known c Assignee = is_known (cc_assignee c)"
| "required_known c Due_At = is_known (cc_due_at c)"
| "required_known c Priority = is_known (cc_priority c)"

definition placeholder_accepted :: "action_execution_request \<Rightarrow> candidate_content \<Rightarrow> required_field \<Rightarrow> bool" where
  "placeholder_accepted q c f \<longleftrightarrow> f = Assignee \<and> aq_allow_unresolved_assignee_placeholder q
     \<and> (case gv_value (cc_assignee c) of Some a \<Rightarrow> av_is_placeholder a | None \<Rightarrow> False)"

definition evaluate_action_readiness ::
  "action_candidate \<Rightarrow> action_execution_request \<Rightarrow> action_grant_context \<Rightarrow> readiness" where
  "evaluate_action_readiness candidate request grant =
     (if ac_content_status candidate \<noteq> ''active'' then ac_readiness candidate
      else let content = ac_content candidate in
        if \<not> (is_known (cc_title content) \<and> is_known (cc_deliverable content)
              \<and> gv_evidence_message_ids (cc_title content) \<noteq> [] \<and> gv_evidence_message_ids (cc_deliverable content) \<noteq> [])
        then Detected
        else if \<not> aq_explicitly_requested request \<or> \<not> ac_evidence_revisions_current candidate
              \<or> cc_blocking_conflict_message_ids content \<noteq> [] \<or> \<not> allows_task_create grant candidate
        then Recordable
        else if list_ex (\<lambda>f. \<not> required_known content f \<and> \<not> placeholder_accepted request content f) (aq_required_fields request)
        then Recordable
        else if is_known (cc_assignee content) \<and> is_known (cc_due_at content) \<and> is_known (cc_priority content)
        then Fully_Specified
        else Executable)"

text \<open>A candidate is ready for execution only when it was asked for, is current, undisputed and granted.\<close>

lemma executable_guarded:
  assumes "evaluate_action_readiness c q g \<in> {Executable, Fully_Specified}" "ac_content_status c = ''active''"
  shows "aq_explicitly_requested q \<and> ac_evidence_revisions_current c \<and> allows_task_create g c
    \<and> cc_blocking_conflict_message_ids (ac_content c) = [] \<and> is_known (cc_title (ac_content c)) \<and> is_known (cc_deliverable (ac_content c))
    \<and> (\<forall>f \<in> set (aq_required_fields q). required_known (ac_content c) f \<or> placeholder_accepted q (ac_content c) f)"
  using assms by (auto simp: evaluate_action_readiness_def Let_def list_ex_iff split: if_splits)

subsection \<open>The meeting state\<close>

record meeting_item =
  mi_item_id :: string
  mi_text :: string
  mi_source_segment_ids :: "string list"
  mi_source_segment_revisions :: "(string, int) dict"

record entity = meeting_item +
  en_entity_type :: string

definition item_ok :: "'z meeting_item_scheme \<Rightarrow> bool" where
  "item_ok i \<longleftrightarrow> len_in 1 255 (mi_item_id i) \<and> mi_text i \<noteq> [] \<and> mi_source_segment_ids i \<noteq> []
     \<and> \<not> (mi_source_segment_revisions i \<noteq> [] \<and> fst ` set (mi_source_segment_revisions i) \<noteq> set (mi_source_segment_ids i))
     \<and> list_all (\<lambda>e. 1 \<le> snd e) (mi_source_segment_revisions i)"

definition entity_ok :: "entity \<Rightarrow> bool" where
  "entity_ok e \<longleftrightarrow> item_ok e \<and> len_in 1 64 (en_entity_type e)"

record meeting_state =
  ms_session_id :: string
  ms_version :: int
  ms_topics :: "meeting_item list"
  ms_entities :: "entity list"
  ms_decisions :: "meeting_item list"
  ms_action_candidates :: "action_candidate list"
  ms_highlights :: "meeting_item list"
  ms_conflicts :: "meeting_item list"
  ms_user_concerns :: "meeting_item list"

definition state_ok :: "meeting_state \<Rightarrow> bool" where
  "state_ok s \<longleftrightarrow> len_in 1 36 (ms_session_id s) \<and> 0 \<le> ms_version s \<and> list_all item_ok (ms_topics s)
     \<and> list_all entity_ok (ms_entities s) \<and> list_all item_ok (ms_decisions s) \<and> list_all candidate_ok (ms_action_candidates s)
     \<and> list_all item_ok (ms_highlights s) \<and> list_all item_ok (ms_conflicts s) \<and> list_all item_ok (ms_user_concerns s)"

definition initial_state :: "string \<Rightarrow> meeting_state" where
  "initial_state session_id = \<lparr>ms_session_id = session_id, ms_version = 0, ms_topics = [], ms_entities = [], ms_decisions = [],
     ms_action_candidates = [], ms_highlights = [], ms_conflicts = [], ms_user_concerns = []\<rparr>"

subsection \<open>Contracts of the extraction\<close>

record projection_segment =
  ps_session_id :: string
  ps_segment_id :: string
  ps_revision :: int
  ps_track_id :: string
  ps_language :: string
  ps_raw_text :: string
  ps_display_text :: string
  ps_audio_start_ms :: "int option"
  ps_audio_end_ms :: "int option"
  ps_confidence :: "rat option"
  ps_received_at_ms :: int
  ps_finalized_at :: instant
  ps_updated_at :: instant

definition projection_segment_ok :: "projection_segment \<Rightarrow> bool" where
  "projection_segment_ok s \<longleftrightarrow> len_in 1 36 (ps_session_id s) \<and> len_in 1 255 (ps_segment_id s) \<and> 1 \<le> ps_revision s
     \<and> len_in 1 255 (ps_track_id s) \<and> len_in 1 32 (ps_language s) \<and> ps_raw_text s \<noteq> [] \<and> ps_display_text s \<noteq> []
     \<and> audio_bounds_ok (ps_audio_start_ms s) (ps_audio_end_ms s) \<and> opt_all unit_interval (ps_confidence s)
     \<and> 0 \<le> ps_received_at_ms s"

record state_item_proposal =
  sp_text :: string
  sp_source_segment_ids :: "string list"

record entity_proposal = state_item_proposal +
  ep_entity_type :: string

text \<open>The validator of \<open>text\<close> replaces it by its words; a blank text is refused.\<close>

definition normalize_text :: "string \<Rightarrow> string" where
  "normalize_text t = py_join '' '' (py_split t)"

definition proposal_ok :: "'z state_item_proposal_scheme \<Rightarrow> bool" where
  "proposal_ok p \<longleftrightarrow> sp_text p \<noteq> [] \<and> normalize_text (sp_text p) = sp_text p
     \<and> sp_source_segment_ids p \<noteq> [] \<and> distinct (sp_source_segment_ids p)"

definition new_state_item_proposal :: "string \<Rightarrow> string list \<Rightarrow> state_item_proposal res" where
  "new_state_item_proposal txt ids =
     checked proposal_ok ''StateItemProposal'' \<lparr>sp_text = normalize_text txt, sp_source_segment_ids = ids\<rparr>"

definition entity_proposal_ok :: "entity_proposal \<Rightarrow> bool" where
  "entity_proposal_ok p \<longleftrightarrow> proposal_ok p \<and> len_in 1 64 (ep_entity_type p)"

record 'a grounded_proposal =
  gp_value :: "'a option"
  gp_resolution :: resolution
  gp_source_segment_ids :: "string list"
  gp_confidence :: "rat option"
  gp_explanation :: "string option"

definition grounded_proposal_ok :: "'a grounded_proposal \<Rightarrow> bool" where
  "grounded_proposal_ok p \<longleftrightarrow> gp_source_segment_ids p \<noteq> [] \<and> distinct (gp_source_segment_ids p)
     \<and> opt_all unit_interval (gp_confidence p) \<and> opt_all (\<lambda>e. length e \<le> 1000) (gp_explanation p)
     \<and> \<not> (gp_resolution p = Known \<and> gp_value p = None)"

record content_proposal =
  cp_title :: "string grounded_proposal"
  cp_deliverable :: "string grounded_proposal"
  cp_assignee :: "string grounded_proposal"
  cp_due_at :: "instant grounded_proposal"
  cp_priority :: "task_priority grounded_proposal"
  cp_blocking_conflict_segment_ids :: "string list"

definition content_proposal_ok :: "content_proposal \<Rightarrow> bool" where
  "content_proposal_ok p \<longleftrightarrow> grounded_proposal_ok (cp_title p) \<and> grounded_proposal_ok (cp_deliverable p)
     \<and> grounded_proposal_ok (cp_assignee p) \<and> grounded_proposal_ok (cp_due_at p) \<and> grounded_proposal_ok (cp_priority p)
     \<and> distinct (cp_blocking_conflict_segment_ids p)"

definition content_source_segment_ids :: "content_proposal \<Rightarrow> string list" where
  "content_source_segment_ids p = fromkeys (gp_source_segment_ids (cp_title p) @ gp_source_segment_ids (cp_deliverable p)
     @ gp_source_segment_ids (cp_assignee p) @ gp_source_segment_ids (cp_due_at p) @ gp_source_segment_ids (cp_priority p)
     @ cp_blocking_conflict_segment_ids p)"

datatype candidate_operation =
    Create content_proposal "string option"
  | Revise string int content_proposal "string option"
  | Merge string string "(string, int) dict" "string list" "string option"
  | Split string int "content_proposal list" "string list" "string option"
  | Cancel string int "string list" string

fun operation_ok :: "candidate_operation \<Rightarrow> bool" where
  "operation_ok (Create content summary) \<longleftrightarrow> content_proposal_ok content \<and> opt_all (\<lambda>s. length s \<le> 1000) summary"
| "operation_ok (Revise candidate_id expected content summary) \<longleftrightarrow>
     len_in 1 36 candidate_id \<and> 1 \<le> expected \<and> content_proposal_ok content \<and> opt_all (\<lambda>s. length s \<le> 1000) summary"
| "operation_ok (Merge first_id second_id expected ids summary) \<longleftrightarrow>
     first_id \<noteq> second_id \<and> dict_wf expected \<and> fst ` set expected = {first_id, second_id} \<and> list_all (\<lambda>e. 1 \<le> snd e) expected
     \<and> ids \<noteq> [] \<and> distinct ids \<and> opt_all (\<lambda>s. length s \<le> 1000) summary"
| "operation_ok (Split candidate_id expected parts ids summary) \<longleftrightarrow>
     len_in 1 36 candidate_id \<and> 1 \<le> expected \<and> 2 \<le> length parts \<and> list_all content_proposal_ok parts \<and> ids \<noteq> []
     \<and> opt_all (\<lambda>s. length s \<le> 1000) summary"
| "operation_ok (Cancel candidate_id expected ids reason) \<longleftrightarrow>
     len_in 1 36 candidate_id \<and> 1 \<le> expected \<and> ids \<noteq> [] \<and> len_in 1 1000 reason"

record meeting_state_delta =
  dl_session_id :: string
  dl_source_segment_ids :: "string list"
  dl_topics :: "state_item_proposal list"
  dl_entities :: "entity_proposal list"
  dl_decisions :: "state_item_proposal list"
  dl_highlights :: "state_item_proposal list"
  dl_conflicts :: "state_item_proposal list"
  dl_action_operations :: "candidate_operation list"
  dl_warnings :: "string list"

definition delta_ok :: "meeting_state_delta \<Rightarrow> bool" where
  "delta_ok d \<longleftrightarrow> len_in 1 36 (dl_session_id d) \<and> dl_source_segment_ids d \<noteq> [] \<and> distinct (dl_source_segment_ids d)
     \<and> list_all proposal_ok (dl_topics d) \<and> list_all entity_proposal_ok (dl_entities d) \<and> list_all proposal_ok (dl_decisions d)
     \<and> list_all proposal_ok (dl_highlights d) \<and> list_all proposal_ok (dl_conflicts d)
     \<and> list_all operation_ok (dl_action_operations d)"

fun operation_segments :: "candidate_operation \<Rightarrow> string list" where
  "operation_segments (Create content _) = content_source_segment_ids content"
| "operation_segments (Revise _ _ content _) = content_source_segment_ids content"
| "operation_segments (Merge _ _ _ ids _) = ids"
| "operation_segments (Split _ _ parts ids _) = ids @ concat (map content_source_segment_ids parts)"
| "operation_segments (Cancel _ _ ids _) = ids"

definition cited_segment_ids :: "meeting_state_delta \<Rightarrow> string set" where
  "cited_segment_ids d = set (concat (map sp_source_segment_ids (dl_topics d)) @ concat (map sp_source_segment_ids (dl_entities d))
     @ concat (map sp_source_segment_ids (dl_decisions d)) @ concat (map sp_source_segment_ids (dl_highlights d))
     @ concat (map sp_source_segment_ids (dl_conflicts d)) @ concat (map operation_segments (dl_action_operations d)))"

end
