(* ===== verification/Package_Binding.thy ===== *)
theory Package_Binding
  imports Package_Repository Executions Meeting_Model
begin

section \<open>Binding executions to a frozen package\<close>

text \<open>
  Models \<open>assistant/package_binding.py\<close>.
  Pydantic's reading of the messages column is an argument (\<open>validate_messages\<close>), as are the
  identifier and the instant drawn for the row of an execution.
\<close>

fun caption_segment :: "evidence_message \<Rightarrow> string option" where
  "caption_segment (Caption_Evidence c) = Some (cv_segment_id c)"
| "caption_segment (User_Input_Evidence _) = None"

record package_binding_record =
  pb_id :: string
  pb_execution_id :: string
  pb_snapshot_id :: string
  pb_package_id :: string
  pb_package_version :: int
  pb_package_content_hash :: string
  pb_segment_item_mapping :: "(string, string list) dict"
  pb_created_at :: instant

record binding_env =
  be_validate_messages :: "json list \<Rightarrow> evidence_message list res"
  be_new_id :: "string \<Rightarrow> string"
  be_now :: "string \<Rightarrow> instant"

subsection \<open>Operations\<close>

text \<open>\<open>_to_domain\<close> builds a Pydantic model, which checks its field constraints.\<close>

definition id36_ok :: "string \<Rightarrow> bool" where
  "id36_ok s \<longleftrightarrow> 1 \<le> length s \<and> length s \<le> 36"

definition binding_ok :: "package_binding_record \<Rightarrow> bool" where
  "binding_ok r \<longleftrightarrow> id36_ok (pb_id r) \<and> id36_ok (pb_execution_id r) \<and> id36_ok (pb_snapshot_id r)
     \<and> id36_ok (pb_package_id r) \<and> 1 \<le> pb_package_version r \<and> digest_ok (pb_package_content_hash r)"

definition binding_to_domain :: "package_binding_record \<Rightarrow> package_binding_record res" where
  "binding_to_domain r = (if binding_ok r then Inr r else Inl (ValueError ''validation error for AssistantPackageBinding''))"

definition effective_source_items :: "transcript_package \<Rightarrow> transcript_item list res" where
  "effective_source_items p =
     (case List.find (\<lambda>d. pd_document_id d = mf_effective_source_document_id (pk_manifest p)) (pk_documents p) of
        Some d \<Rightarrow> (if is_source_raw (pd_body d) \<or> is_source_approved (pd_body d)
                   then Inr (transcript_items (pd_body d))
                   else Inl (PackageBindingError ''Package effective source document is unavailable''))
      | None \<Rightarrow> Inl (PackageBindingError ''Package effective source document is unavailable''))"

definition add_item_id :: "string \<Rightarrow> (string, string list) dict \<Rightarrow> string \<Rightarrow> (string, string list) dict" where
  "add_item_id item_id d segment_id =
     (let values = or_else (dict_get d segment_id) []
      in dict_set d segment_id (if item_id \<in> set values then values else values @ [item_id]))"

definition item_ids_by_segment :: "transcript_item list \<Rightarrow> (string, string list) dict" where
  "item_ids_by_segment items =
     foldl (\<lambda>d item. foldl (add_item_id (ti_item_id item)) d (ti_source_segment_ids item)) [] items"

definition snapshot_segments :: "evidence_message list \<Rightarrow> string list" where
  "snapshot_segments messages = fromkeys (List.map_filter caption_segment messages)"

definition snapshot_mapping ::
  "binding_env \<Rightarrow> (string, string list) dict \<Rightarrow> context_snapshot_record \<Rightarrow> (string, string list) dict res" where
  "snapshot_mapping be by_segment snapshot =
     rbind (be_validate_messages be (cs_evidence_messages snapshot)) (\<lambda>messages.
       let segment_ids = snapshot_segments messages;
           missing = filter (\<lambda>s. dict_get by_segment s = None) segment_ids
       in if missing \<noteq> []
          then Inl (PackageBindingError (''Frozen Package does not cover Snapshot segments: '' @ py_join '', '' missing))
          else Inr (map (\<lambda>s. (s, or_else (dict_get by_segment s) [])) segment_ids))"

definition unbound_rows ::
  "string \<Rightarrow> execution_record list \<Rightarrow> context_snapshot_record list \<Rightarrow> package_binding_record list
   \<Rightarrow> (execution_record \<times> context_snapshot_record) list" where
  "unbound_rows session_id executions snapshots bindings =
     concat (map (\<lambda>e. map (\<lambda>s. (e, s)) (filter (\<lambda>s. ex_snapshot_id e = Some (cs_id s)
         \<and> ex_session_id e = session_id \<and> cs_session_id s = session_id
         \<and> \<not> (\<exists>b \<in> set bindings. pb_execution_id b = ex_id e)) snapshots))
       (sort_key (\<lambda>e. (ex_created_at e, ex_id e)) executions))"

definition new_binding ::
  "binding_env \<Rightarrow> transcript_package \<Rightarrow> execution_record \<Rightarrow> context_snapshot_record
   \<Rightarrow> (string, string list) dict \<Rightarrow> package_binding_record" where
  "new_binding be p e s mapping =
     \<lparr>pb_id = be_new_id be (ex_id e), pb_execution_id = ex_id e, pb_snapshot_id = cs_id s,
      pb_package_id = pk_package_id p, pb_package_version = pk_package_version p,
      pb_package_content_hash = pk_content_hash p, pb_segment_item_mapping = mapping,
      pb_created_at = be_now be (ex_id e)\<rparr>"

fun bind_rows ::
  "binding_env \<Rightarrow> transcript_package \<Rightarrow> (string, string list) dict
   \<Rightarrow> (execution_record \<times> context_snapshot_record) list \<Rightarrow> package_binding_record list res" where
  "bind_rows be p by_segment [] = Inr []"
| "bind_rows be p by_segment ((e, s) # rows) =
     rbind (snapshot_mapping be by_segment s) (\<lambda>mapping.
     rbind (binding_to_domain (new_binding be p e s mapping)) (\<lambda>b.
     rbind (bind_rows be p by_segment rows) (\<lambda>created. Inr (b # created))))"

definition bind_unbound_executions ::
  "binding_env \<Rightarrow> execution_record list \<Rightarrow> context_snapshot_record list \<Rightarrow> transcript_package
   \<Rightarrow> package_binding_record list \<Rightarrow> (package_binding_record list \<times> package_binding_record list) res" where
  "bind_unbound_executions be executions snapshots p bindings =
     (if pk_status p \<noteq> ''frozen'' \<or> pk_frozen_at p = None
      then Inl (PackageBindingError ''Assistant bindings require a frozen Package'')
      else rbind (effective_source_items p) (\<lambda>items.
        rbind (bind_rows be p (item_ids_by_segment items)
                 (unbound_rows (pk_session_id p) executions snapshots bindings)) (\<lambda>created.
          if distinct (map pb_id (bindings @ created)) \<and> distinct (map pb_execution_id (bindings @ created))
          then Inr (bindings @ created, created)
          else Inl (RuntimeError ''IntegrityError''))))"

definition get_for_execution :: "string \<Rightarrow> package_binding_record list \<Rightarrow> package_binding_record option res" where
  "get_for_execution execution_id bindings =
     (case find_row (\<lambda>b. pb_execution_id b = execution_id) bindings of
        None \<Rightarrow> Inr None | Some b \<Rightarrow> rbind (binding_to_domain b) (\<lambda>d. Inr (Some d)))"

text \<open>\<open>PackageBuilder._load_and_bind\<close> turns a binding error into a build error.\<close>

definition as_build_error :: "'a res \<Rightarrow> 'a res" where
  "as_build_error r = (case r of Inl (PackageBindingError m) \<Rightarrow> Inl (PackageBuildError m) | _ \<Rightarrow> r)"

subsection \<open>The index of a package\<close>

text \<open>Reference: the items of the effective source that contain a segment, in their order.\<close>

definition items_with :: "string \<Rightarrow> transcript_item list \<Rightarrow> string list" where
  "items_with seg items = fromkeys (map ti_item_id (filter (\<lambda>i. seg \<in> set (ti_source_segment_ids i)) items))"

lemma fromkeys_snoc: "fromkeys (xs @ [x]) = (if x \<in> set xs then fromkeys xs else fromkeys xs @ [x])"
  by (simp add: fromkeys_def)

lemma fromkeys_Nil [simp]: "fromkeys [] = []"
  by (simp add: fromkeys_def)

lemma same_key_length: "distinct (map f xs) \<Longrightarrow> \<forall>x \<in> set xs. f x = c \<Longrightarrow> length xs \<le> 1"
  by (cases xs; cases "List.tl xs") auto

lemma add_item_ids:
  "dict_get (foldl (add_item_id i) d segs) seg =
     (if seg \<in> set segs
      then Some (let v = or_else (dict_get d seg) [] in if i \<in> set v then v else v @ [i])
      else dict_get d seg)"
  by (induction segs arbitrary: d) (auto simp: add_item_id_def Let_def)

lemma item_ids_by_segment_get:
  "dict_get (item_ids_by_segment items) seg
     = (if \<exists>i \<in> set items. seg \<in> set (ti_source_segment_ids i) then Some (items_with seg items) else None)"
proof (induction items rule: rev_induct)
  case (snoc i items)
  let ?D = "item_ids_by_segment items"
  have step: "item_ids_by_segment (items @ [i]) = foldl (add_item_id (ti_item_id i)) ?D (ti_source_segment_ids i)"
    by (simp add: item_ids_by_segment_def)
  have vals: "or_else (dict_get ?D seg) [] = items_with seg items"
    using snoc by (auto simp: items_with_def)
  show ?case
    unfolding step add_item_ids vals using snoc by (simp add: items_with_def fromkeys_snoc Let_def)
qed (simp add: item_ids_by_segment_def)

lemma items_with_nonempty: "items_with seg items \<noteq> [] \<longleftrightarrow> (\<exists>i \<in> set items. seg \<in> set (ti_source_segment_ids i))"
  by (auto simp: items_with_def fromkeys_def filter_empty_conv)

subsection \<open>What binding does\<close>

definition covered_by :: "transcript_item list \<Rightarrow> evidence_message list \<Rightarrow> bool" where
  "covered_by items messages \<longleftrightarrow>
     (\<forall>seg \<in> set (snapshot_segments messages). \<exists>i \<in> set items. seg \<in> set (ti_source_segment_ids i))"

lemma snapshot_mapping_covered:
  assumes "be_validate_messages be (cs_evidence_messages s) = Inr messages" "covered_by items messages"
  shows "snapshot_mapping be (item_ids_by_segment items) s
    = Inr (map (\<lambda>seg. (seg, items_with seg items)) (snapshot_segments messages))"
proof -
  have "filter (\<lambda>s. dict_get (item_ids_by_segment items) s = None) (snapshot_segments messages) = []"
    using assms(2) by (simp add: filter_empty_conv item_ids_by_segment_get covered_by_def)
  with assms show ?thesis
    by (simp add: snapshot_mapping_def Let_def item_ids_by_segment_get covered_by_def)
qed

lemma snapshot_mapping_uncovered:
  assumes "be_validate_messages be (cs_evidence_messages s) = Inr messages" "\<not> covered_by items messages"
  shows "\<exists>m. snapshot_mapping be (item_ids_by_segment items) s = Inl (PackageBindingError m)"
proof -
  have "filter (\<lambda>s. dict_get (item_ids_by_segment items) s = None) (snapshot_segments messages) \<noteq> []"
    using assms(2) by (auto simp: filter_empty_conv item_ids_by_segment_get covered_by_def)
  then show ?thesis using assms(1) by (simp add: snapshot_mapping_def Let_def)
qed

lemma unbound_row_iff:
  "(e, s) \<in> set (unbound_rows sid executions snapshots bindings) \<longleftrightarrow>
     e \<in> set executions \<and> s \<in> set snapshots \<and> ex_snapshot_id e = Some (cs_id s) \<and> ex_session_id e = sid
     \<and> cs_session_id s = sid \<and> ex_id e \<notin> set (map pb_execution_id bindings)"
  by (auto simp: unbound_rows_def intro!: bexI [of _ e] imageI) (metis imageI)

lemma unbound_rows_distinct:
  assumes "distinct (map ex_id executions)" "distinct (map cs_id snapshots)"
  shows "distinct (map (\<lambda>(e, s). ex_id e) (unbound_rows sid executions snapshots bindings))"
proof -
  let ?P = "\<lambda>e s. ex_snapshot_id e = Some (cs_id s) \<and> ex_session_id e = sid \<and> cs_session_id s = sid
         \<and> \<not> (\<exists>b \<in> set bindings. pb_execution_id b = ex_id e)"
  have one: "length (filter (?P e) snapshots) \<le> 1" for e
    by (rule same_key_length [of cs_id _ "the (ex_snapshot_id e)"])
      (use assms(2) in \<open>auto intro: distinct_map_filter\<close>)
  have row: "map (\<lambda>(e, s). ex_id e) (map (\<lambda>s. (e, s)) (filter (?P e) snapshots)) =
      (if filter (?P e) snapshots = [] then [] else [ex_id e])" for e
    using one [of e] by (cases "filter (?P e) snapshots") auto
  have "distinct (map (\<lambda>(e, s). ex_id e) (concat (map (\<lambda>e. map (\<lambda>s. (e, s)) (filter (?P e) snapshots)) es)))"
    if "distinct (map ex_id es)" for es
    using that
  proof (induction es)
    case (Cons e es)
    have "ex_id e \<notin> set (map (\<lambda>(e, s). ex_id e) (concat (map (\<lambda>e. map (\<lambda>s. (e, s)) (filter (?P e) snapshots)) es)))"
      using Cons.prems by force
    with Cons row [of e] show ?case by simp
  qed simp
  from this [OF distinct_map_sort [OF assms(1)]] show ?thesis unfolding unbound_rows_def .
qed
text \<open>The row written for an unbound execution whose snapshot is covered.\<close>

definition binding_of ::
  "binding_env \<Rightarrow> transcript_package \<Rightarrow> transcript_item list \<Rightarrow> execution_record \<times> context_snapshot_record
   \<Rightarrow> package_binding_record \<Rightarrow> bool" where
  "binding_of be p items row b \<longleftrightarrow> (\<exists>messages.
     be_validate_messages be (cs_evidence_messages (snd row)) = Inr messages \<and> covered_by items messages
     \<and> b = new_binding be p (fst row) (snd row) (map (\<lambda>seg. (seg, items_with seg items)) (snapshot_segments messages)))"

lemma bind_rows_Inr:
  "bind_rows be p (item_ids_by_segment items) rows = Inr created \<Longrightarrow>
     list_all2 (binding_of be p items) rows created \<and> list_all binding_ok created"
proof (induction rows arbitrary: created)
  case (Cons row rows)
  obtain e s where row: "row = (e, s)" by (cases row)
  with Cons.prems obtain mapping rest where m: "snapshot_mapping be (item_ids_by_segment items) s = Inr mapping"
    "bind_rows be p (item_ids_by_segment items) rows = Inr rest" "binding_ok (new_binding be p e s mapping)"
    "created = new_binding be p e s mapping # rest"
    by (auto simp: rbind_eq_Inr binding_to_domain_def split: if_splits)
  from m(1) obtain messages where msgs: "be_validate_messages be (cs_evidence_messages s) = Inr messages"
    by (auto simp: snapshot_mapping_def rbind_eq_Inr)
  have cov: "covered_by items messages" using snapshot_mapping_uncovered [OF msgs] m(1) by force
  have "binding_of be p items row (new_binding be p e s mapping)"
    unfolding binding_of_def
    by (intro exI [of _ messages]) (use msgs cov m(1) snapshot_mapping_covered [OF msgs cov] row in simp)
  with Cons.IH [OF m(2)] m show ?case by simp
qed simp

lemma bind_rows_ok:
  assumes "\<And>e s. (e, s) \<in> set rows \<Longrightarrow> \<exists>messages. be_validate_messages be (cs_evidence_messages s) = Inr messages
      \<and> covered_by items messages"
    and "\<And>e s mapping. (e, s) \<in> set rows \<Longrightarrow> binding_ok (new_binding be p e s mapping)"
  shows "\<exists>created. bind_rows be p (item_ids_by_segment items) rows = Inr created"
  using assms
proof (induction rows)
  case (Cons row rows)
  obtain e s where row: "row = (e, s)" by (cases row)
  with Cons.prems(1) obtain messages where msgs: "be_validate_messages be (cs_evidence_messages s) = Inr messages"
    "covered_by items messages" by auto
  moreover obtain created where "bind_rows be p (item_ids_by_segment items) rows = Inr created"
    using Cons by auto
  moreover have "binding_ok (new_binding be p e s m)" for m using Cons.prems(2) row by simp
  ultimately show ?case
    by (simp add: row snapshot_mapping_covered [OF msgs] binding_to_domain_def)
qed simp

lemma bound_execution_ids:
  assumes "list_all2 (binding_of be p items) rows created"
  shows "map pb_execution_id created = map (\<lambda>(e, s). ex_id e) rows" "map pb_id created = map (\<lambda>(e, s). be_new_id be (ex_id e)) rows"
  using assms by (induction rule: list_all2_induct) (auto simp: binding_of_def new_binding_def)

lemma bind_unbound_Inr:
  assumes "bind_unbound_executions be executions snapshots p bindings = Inr (bindings', created)"
  shows "\<exists>items. effective_source_items p = Inr items \<and> bindings' = bindings @ created
    \<and> list_all2 (binding_of be p items) (unbound_rows (pk_session_id p) executions snapshots bindings) created
    \<and> list_all binding_ok created \<and> distinct (map pb_execution_id bindings')"
  using assms
  by (auto simp: bind_unbound_executions_def rbind_eq_Inr dest!: bind_rows_Inr split: if_splits)

lemma unbound_rows_bound:
  assumes "distinct (map ex_id executions)" "distinct (map cs_id snapshots)"
    and "map pb_execution_id created = map (\<lambda>(e, s). ex_id e) (unbound_rows sid executions snapshots bindings)"
  shows "unbound_rows sid executions snapshots (bindings @ created) = []"
proof -
  have "(e, s) \<notin> set (unbound_rows sid executions snapshots (bindings @ created))" for e s
  proof
    assume "(e, s) \<in> set (unbound_rows sid executions snapshots (bindings @ created))"
    then have "(e, s) \<in> set (unbound_rows sid executions snapshots bindings)" "ex_id e \<notin> set (map pb_execution_id created)"
      by (auto simp: unbound_row_iff)
    with assms(3) show False by force
  qed
  then show ?thesis by (metis list.set_intros(1) neq_Nil_conv surj_pair)
qed

lemma bind_unbound_ok:
  assumes keys: "distinct (map ex_id executions)" "distinct (map cs_id snapshots)"
    and old: "distinct (map pb_id bindings)" "distinct (map pb_execution_id bindings)"
    and fresh: "inj (be_new_id be)" "\<And>b e. b \<in> set bindings \<Longrightarrow> pb_id b \<noteq> be_new_id be e"
    and frozen: "pk_status p = ''frozen''" "pk_frozen_at p \<noteq> None" "effective_source_items p = Inr items"
    and rows: "\<And>e s. (e, s) \<in> set (unbound_rows (pk_session_id p) executions snapshots bindings) \<Longrightarrow>
      (\<exists>messages. be_validate_messages be (cs_evidence_messages s) = Inr messages \<and> covered_by items messages)
      \<and> (\<forall>mapping. binding_ok (new_binding be p e s mapping))"
  shows "\<exists>created. bind_unbound_executions be executions snapshots p bindings = Inr (bindings @ created, created)"
proof -
  let ?rows = "unbound_rows (pk_session_id p) executions snapshots bindings"
  obtain created where cr: "bind_rows be p (item_ids_by_segment items) ?rows = Inr created"
    using bind_rows_ok [of ?rows be items p] rows by blast
  note ids = bound_execution_ids [OF conjunct1 [OF bind_rows_Inr [OF cr]]]
  have dist: "distinct (map (\<lambda>(e, s). ex_id e) ?rows)" by (rule unbound_rows_distinct [OF keys])
  then have "distinct (map (be_new_id be) (map (\<lambda>(e, s). ex_id e) ?rows))"
    using fresh(1) by (simp add: distinct_map inj_on_def inj_def del: map_map)
  then have "distinct (map pb_id created)" unfolding ids(2) by (simp add: comp_def case_prod_unfold)
  moreover have "distinct (map pb_execution_id created)" unfolding ids(1) by (rule dist)
  moreover have "set (map pb_id bindings) \<inter> set (map pb_id created) = {}"
    unfolding ids(2) using fresh(2) by auto
  moreover have "set (map pb_execution_id bindings) \<inter> set (map pb_execution_id created) = {}"
    unfolding ids(1) by (auto simp: unbound_row_iff) (metis imageI)
  ultimately show ?thesis using old frozen cr by (simp add: bind_unbound_executions_def)
qed

text \<open>
  C30. Binding attaches every unbound execution to the package, once: when
  \<open>bind_unbound_executions\<close> succeeds, the earlier bindings are kept as they are, every
  execution of the session that has a context snapshot is bound exactly once, and each new
  binding belongs to an execution of the session that was not bound before, names the
  snapshot this execution was run on, pins the package's id, version and content hash and
  maps each caption segment of that snapshot to exactly the items of the effective source
  that contain it (at least one).
  Binding any package of the session again creates nothing.
\<close>

theorem package_binding_complete:
  assumes "distinct (map ex_id executions)" "distinct (map cs_id snapshots)"
    and "effective_source_items p = Inr items"
    and "bind_unbound_executions be executions snapshots p bindings = Inr (bindings', created)"
  shows "bindings' = bindings @ created \<and> distinct (map pb_execution_id bindings')
    \<and> (\<forall>e \<in> set executions. \<forall>s \<in> set snapshots. ex_session_id e = pk_session_id p
        \<and> cs_session_id s = pk_session_id p \<and> ex_snapshot_id e = Some (cs_id s)
        \<longrightarrow> ex_id e \<in> set (map pb_execution_id bindings'))
    \<and> (\<forall>b \<in> set created. pb_package_id b = pk_package_id p \<and> pb_package_version b = pk_package_version p
        \<and> pb_package_content_hash b = pk_content_hash p
        \<and> (\<exists>e \<in> set executions. \<exists>s \<in> set snapshots. \<exists>messages. ex_id e = pb_execution_id b \<and> ex_id e \<notin> set (map pb_execution_id bindings)
            \<and> ex_snapshot_id e = Some (cs_id s) \<and> ex_session_id e = pk_session_id p
            \<and> cs_session_id s = pk_session_id p
            \<and> pb_snapshot_id b = cs_id s
            \<and> be_validate_messages be (cs_evidence_messages s) = Inr messages
            \<and> pb_segment_item_mapping b = map (\<lambda>seg. (seg, items_with seg items)) (snapshot_segments messages)
            \<and> (\<forall>seg \<in> set (snapshot_segments messages). items_with seg items \<noteq> [])))
    \<and> (\<forall>q r. pk_session_id q = pk_session_id p \<longrightarrow>
        bind_unbound_executions be executions snapshots q bindings' = Inr r \<longrightarrow> r = (bindings', []))"
proof -
  obtain b: "bindings' = bindings @ created" "distinct (map pb_execution_id bindings')"
    and rows: "list_all2 (binding_of be p items) (unbound_rows (pk_session_id p) executions snapshots bindings) created"
    using bind_unbound_Inr [OF assms(4)] assms(3) by auto
  note ids = bound_execution_ids(1) [OF rows]
  note done_rows = unbound_rows_bound [OF assms(1,2) ids]
  have all_bound: "ex_id e \<in> set (map pb_execution_id bindings')"
    if "e \<in> set executions" "s \<in> set snapshots" "ex_session_id e = pk_session_id p"
      "cs_session_id s = pk_session_id p" "ex_snapshot_id e = Some (cs_id s)" for e s
  proof (rule ccontr)
    assume "ex_id e \<notin> set (map pb_execution_id bindings')"
    then have "(e, s) \<in> set (unbound_rows (pk_session_id p) executions snapshots (bindings @ created))"
      using that by (simp add: unbound_row_iff b(1))
    then show False by (simp add: done_rows)
  qed
  have row_ok: "\<exists>e \<in> set executions. \<exists>s \<in> set snapshots. \<exists>messages. ex_id e = pb_execution_id b \<and> ex_id e \<notin> set (map pb_execution_id bindings)
        \<and> ex_snapshot_id e = Some (cs_id s) \<and> ex_session_id e = pk_session_id p
        \<and> cs_session_id s = pk_session_id p
        \<and> pb_snapshot_id b = cs_id s
        \<and> be_validate_messages be (cs_evidence_messages s) = Inr messages
        \<and> pb_segment_item_mapping b = map (\<lambda>seg. (seg, items_with seg items)) (snapshot_segments messages)
        \<and> (\<forall>seg \<in> set (snapshot_segments messages). items_with seg items \<noteq> [])"
    and pins: "pb_package_id b = pk_package_id p \<and> pb_package_version b = pk_package_version p
        \<and> pb_package_content_hash b = pk_content_hash p" if "b \<in> set created" for b
  proof -
    from rows that obtain row where row: "row \<in> set (unbound_rows (pk_session_id p) executions snapshots bindings)"
      "binding_of be p items row b" by (metis list_all2_conv_all_nth in_set_conv_nth)
    from row(2) show "pb_package_id b = pk_package_id p \<and> pb_package_version b = pk_package_version p
        \<and> pb_package_content_hash b = pk_content_hash p" by (auto simp: binding_of_def new_binding_def)
    obtain e s where es: "row = (e, s)" by (cases row)
    then have "s \<in> set snapshots" using row(1) by (simp add: unbound_row_iff)
    moreover from row(2) obtain messages where "be_validate_messages be (cs_evidence_messages s) = Inr messages"
      "covered_by items messages" "pb_snapshot_id b = cs_id s"
      "pb_segment_item_mapping b = map (\<lambda>seg. (seg, items_with seg items)) (snapshot_segments messages)"
      by (auto simp: binding_of_def new_binding_def es)
    moreover from this(2) have "\<forall>seg \<in> set (snapshot_segments messages). items_with seg items \<noteq> []"
      by (auto simp: covered_by_def items_with_nonempty)
    moreover from row(1) es have "e \<in> set executions" "ex_id e \<notin> set (map pb_execution_id bindings)"
      "ex_snapshot_id e = Some (cs_id s)" "ex_session_id e = pk_session_id p" "cs_session_id s = pk_session_id p"
      unfolding unbound_row_iff [symmetric] by (simp_all add: unbound_row_iff)
    moreover from row(2) have "ex_id e = pb_execution_id b" by (auto simp: binding_of_def new_binding_def es)
    ultimately show "\<exists>e \<in> set executions. \<exists>s \<in> set snapshots. \<exists>messages. ex_id e = pb_execution_id b \<and> ex_id e \<notin> set (map pb_execution_id bindings)
        \<and> ex_snapshot_id e = Some (cs_id s) \<and> ex_session_id e = pk_session_id p
        \<and> cs_session_id s = pk_session_id p
        \<and> pb_snapshot_id b = cs_id s
        \<and> be_validate_messages be (cs_evidence_messages s) = Inr messages
        \<and> pb_segment_item_mapping b = map (\<lambda>seg. (seg, items_with seg items)) (snapshot_segments messages)
        \<and> (\<forall>seg \<in> set (snapshot_segments messages). items_with seg items \<noteq> [])"
      by (intro bexI [of _ e] bexI [of _ s] exI [of _ messages]) simp_all
  qed
  have again: "r = (bindings', [])" if "pk_session_id q = pk_session_id p"
    "bind_unbound_executions be executions snapshots q bindings' = Inr r" for q r
    using that done_rows by (auto simp: bind_unbound_executions_def rbind_eq_Inr b(1) split: if_splits)
  show ?thesis using b all_bound row_ok pins again by blast
qed

text \<open>One execution whose snapshot cites the segment \<open>x\<close>, and a package with one item for it.\<close>

definition bind_env :: "string \<Rightarrow> binding_env" where
  "bind_env seg = \<lparr>be_validate_messages = (\<lambda>_. Inr [Caption_Evidence
       \<lparr>cv_message_id = ''m'', cv_session_id = ''s'', cv_speaker_label = None, cv_track_id = ''t'',
        cv_segment_id = seg, cv_segment_revision = 1, cv_language = ''en'', cv_raw_text = ''hi'',
        cv_display_text = ''hi'', cv_audio_start_ms = None, cv_audio_end_ms = None, cv_confidence = None,
        cv_received_at_ms = 0, cv_finalized_at = 1, cv_content_hash = replicate 64 (CHR ''0'')\<rparr>]),
     be_new_id = (\<lambda>e. ''b'' @ e), be_now = (\<lambda>_. 5)\<rparr>"

definition bind_execution :: execution_record where
  "bind_execution = \<lparr>ex_id = ''e'', ex_session_id = ''s'', ex_profile = ''main'', ex_root_execution_id = ''e'',
     ex_parent_execution_id = None, ex_snapshot_id = Some ''c'', ex_grant_id = None, ex_client_request_id = None,
     ex_goal = ''g'', ex_status = ''completed'', ex_state_version = 1, ex_step_count = 0, ex_budget = [],
     ex_result = None, ex_error_code = None, ex_error_message = None, ex_created_at = 1, ex_started_at = None,
     ex_updated_at = 1, ex_completed_at = None\<rparr>"

definition bind_snapshot :: context_snapshot_record where
  "bind_snapshot = \<lparr>cs_id = ''c'', cs_session_id = ''s'', cs_meeting_state_version = 1, cs_state_slice = [],
     cs_source_frontier = [], cs_evidence_refs = [], cs_evidence_messages = [], cs_relevant_context_hash = [],
     cs_created_at = 1\<rparr>"

definition bind_package :: transcript_package where
  "bind_package = \<lparr>pk_package_id = ''p'', pk_session_id = ''s'', pk_package_version = 1,
     pk_schema_name = PACKAGE_SCHEMA, pk_schema_version = PACKAGE_SCHEMA_VERSION, pk_status = ''frozen'',
     pk_source_revision_id = None, pk_manifest = page_manifest,
     pk_documents = [\<lparr>pd_document_id = ''d'', pd_language = Some ''en'', pd_content_hash = replicate 64 (CHR ''0''),
       pd_body = Source_Raw [\<lparr>ti_item_id = ''i'', ti_source_segment_ids = [''x''], ti_start_ms = 0, ti_end_ms = 9,
         ti_text = ''hi'', ti_raw_text = None, ti_confidence = None, ti_speaker = None, ti_locked = True\<rparr>]\<rparr>],
     pk_content_hash = replicate 64 (CHR ''0''), pk_created_at = 1, pk_frozen_at = Some 1, pk_superseded_at = None\<rparr>"

definition bind_items :: "transcript_item list" where
  "bind_items = (case effective_source_items bind_package of Inr items \<Rightarrow> items | Inl _ \<Rightarrow> [])"

lemma bind_example:
  "effective_source_items bind_package = Inr bind_items"
  "bind_unbound_executions (bind_env ''x'') [bind_execution] [bind_snapshot] bind_package []
     = Inr ([new_binding (bind_env ''x'') bind_package bind_execution bind_snapshot [(''x'', [''i''])]],
            [new_binding (bind_env ''x'') bind_package bind_execution bind_snapshot [(''x'', [''i''])]])"
  by code_simp+

theorem package_binding_complete_witness:
  "\<exists>e \<in> set [bind_execution]. \<exists>s \<in> set [bind_snapshot]. \<exists>messages.
     ex_id e = ''e'' \<and> ex_snapshot_id e = Some (cs_id s)
     \<and> be_validate_messages (bind_env ''x'') (cs_evidence_messages s) = Inr messages
     \<and> [(''x'', [''i''])] = map (\<lambda>seg. (seg, items_with seg bind_items)) (snapshot_segments messages)"
proof -
  have keys: "distinct (map ex_id [bind_execution])" "distinct (map cs_id [bind_snapshot])" by simp_all
  have "ex_id bind_execution = ''e''" by (simp add: bind_execution_def)
  then show ?thesis
    using package_binding_complete [OF keys bind_example] by (auto simp: new_binding_def)
qed

end
