(* ===== verification/Package_Builder.thy ===== *)
theory Package_Builder
  imports Package_Binding Session_Repository
begin

section \<open>Building packages\<close>

text \<open>
  Models \<open>packages/builder.py\<close>: \<open>PackageBuilder.build_baseline\<close>, which turns the stored Finals of
  a session into documents, hashes them, validates the package and freezes it. The parts
  \<open>build_baseline\<close> shares with \<open>build_from_revision\<close> (the two indexes, the metadata documents and
  the manifest) are definitions of their own. \<open>uuid4()\<close> and \<open>utc_now()\<close> are arguments. A
  Pydantic model that violates a field constraint raises while the package is put together,
  which is checked once for the whole package.
\<close>

subsection \<open>Documents\<close>

definition stable_id :: "package_env \<Rightarrow> string list \<Rightarrow> string" where
  "stable_id env parts = pe_uuid5 env (''matinier:'' @ py_join '':'' parts)"

definition with_hash :: "package_env \<Rightarrow> package_document \<Rightarrow> package_document" where
  "with_hash env d = d\<lparr>pd_content_hash := document_content_hash env d\<rparr>"

definition new_document :: "package_env \<Rightarrow> string \<Rightarrow> string option \<Rightarrow> document_body \<Rightarrow> package_document" where
  "new_document env document_id language body =
     with_hash env \<lparr>pd_document_id = document_id, pd_language = language,
       pd_content_hash = replicate 64 (CHR ''0''), pd_body = body\<rparr>"

definition source_item :: "package_env \<Rightarrow> string \<Rightarrow> timeline_segment \<Rightarrow> transcript_item" where
  "source_item env session_id t =
     \<lparr>ti_item_id = stable_id env [session_id, ''source'', tl_segment_id t],
      ti_source_segment_ids = [tl_segment_id t], ti_start_ms = tl_audio_start_ms t,
      ti_end_ms = tl_audio_end_ms t, ti_text = tl_display_text t, ti_raw_text = Some (tl_raw_text t),
      ti_confidence = tl_confidence t, ti_speaker = None, ti_locked = True\<rparr>"

definition translation_item ::
  "package_env \<Rightarrow> string \<Rightarrow> string \<Rightarrow> translation_record list \<Rightarrow> timeline_segment \<Rightarrow> transcript_item" where
  "translation_item env session_id language records t =
     (let aligned = (case find_row (\<lambda>r. ts_segment_id r = tl_segment_id t) (rev records) of
          None \<Rightarrow> [] | Some r \<Rightarrow> ts_source_segment_ids r)
      in \<lparr>ti_item_id = stable_id env [session_id, ''live_translation'', language, tl_segment_id t],
          ti_source_segment_ids = (if aligned = [] then [tl_segment_id t] else aligned),
          ti_start_ms = tl_audio_start_ms t, ti_end_ms = tl_audio_end_ms t,
          ti_text = tl_display_text t, ti_raw_text = None, ti_confidence = None, ti_speaker = None,
          ti_locked = True\<rparr>)"

definition target_languages_of :: "translation_record list \<Rightarrow> string list" where
  "target_languages_of records = sort (remdups (map ts_target_language records))"

definition translation_document ::
  "package_env \<Rightarrow> string \<Rightarrow> string \<Rightarrow> translation_record list \<Rightarrow> string \<Rightarrow> package_document res" where
  "translation_document env package_id session_id translation_records language =
     (let records = filter (\<lambda>r. ts_target_language r = language) translation_records in
      rbind (normalize_translation_timeline records) (\<lambda>tln.
        Inr (new_document env (stable_id env [package_id, ''live_translation'', language]) (Some language)
          (Live_Translation (map (translation_item env session_id language records) (tln_segments tln))))))"

fun translation_documents ::
  "package_env \<Rightarrow> string \<Rightarrow> string \<Rightarrow> translation_record list \<Rightarrow> string list \<Rightarrow> package_document list res" where
  "translation_documents env package_id session_id records [] = Inr []"
| "translation_documents env package_id session_id records (l # ls) =
     rbind (translation_document env package_id session_id records l) (\<lambda>d.
     rbind (translation_documents env package_id session_id records ls) (\<lambda>ds. Inr (d # ds)))"

definition index_documents :: "package_env \<Rightarrow> string \<Rightarrow> string \<Rightarrow> int \<Rightarrow> transcript_item list \<Rightarrow> package_document list" where
  "index_documents env package_id source_document_id duration_ms items =
     [new_document env (stable_id env [package_id, ''timeline_index'']) None
        (Timeline_Index duration_ms (map (\<lambda>i. \<lparr>te_item_id = ti_item_id i, te_start_ms = ti_start_ms i,
           te_end_ms = ti_end_ms i, te_source_document_id = source_document_id\<rparr>) items)),
      new_document env (stable_id env [package_id, ''evidence_index'']) None
        (Evidence_Index (map (\<lambda>i. \<lparr>ee_item_id = ti_item_id i, ee_source_segment_ids = ti_source_segment_ids i,
           ee_start_ms = ti_start_ms i, ee_end_ms = ti_end_ms i,
           ee_raw_text = str_or (ti_raw_text i) (ti_text i), ee_effective_text = ti_text i,
           ee_source_document_id = source_document_id\<rparr>) items))]"

definition metadata_documents ::
  "package_env \<Rightarrow> string \<Rightarrow> session_snapshot \<Rightarrow> provider_snapshot \<Rightarrow> metrics_snapshot \<Rightarrow> package_document list" where
  "metadata_documents env package_id ss ps ms =
     [new_document env (stable_id env [package_id, ''session_metadata'']) None (Session_Metadata ss),
      new_document env (stable_id env [package_id, ''provider_metadata'']) None (Provider_Metadata ps),
      new_document env (stable_id env [package_id, ''metrics_metadata'']) None (Metrics_Metadata ms)]"

subsection \<open>Snapshots of the session\<close>

definition session_snapshot_of :: "session_record \<Rightarrow> string list \<Rightarrow> session_snapshot" where
  "session_snapshot_of s target_languages =
     \<lparr>sn_session_id = ses_id s, sn_room_name = ses_room_name s, sn_status = ses_status s,
      sn_source_type = ses_source_type s, sn_source_language = ses_language s,
      sn_target_languages = target_languages, sn_created_at = ses_created_at s,
      sn_started_at = ses_started_at s, sn_ended_at = ses_ended_at s,
      sn_source_ended_at = ses_source_ended_at s, sn_translation_ended_at = ses_translation_ended_at s,
      sn_stop_reason = ses_stop_reason s,
      sn_failure_code = (case ses_failure_code s of Some c \<Rightarrow> if c = [] then ses_error_code s else Some c
                         | None \<Rightarrow> ses_error_code s)\<rparr>"

definition provider_snapshot_of :: "session_record \<Rightarrow> provider_snapshot" where
  "provider_snapshot_of s =
     \<lparr>pv_asr_provider = ses_asr_provider s, pv_asr_model = ses_asr_model s,
      pv_translation_provider = ses_translation_provider s, pv_translation_model = ses_translation_model s,
      pv_translation_status = ses_translation_status s\<rparr>"

definition metrics_snapshot_of :: "session_record \<Rightarrow> metrics_snapshot" where
  "metrics_snapshot_of s =
     \<lparr>mt_final_result_count = ses_final_result_count s,
      mt_first_partial_latency_ms = ses_first_partial_latency_ms s,
      mt_average_final_latency_ms = ses_average_final_latency_ms s,
      mt_provider_error_count = ses_provider_error_count s,
      mt_sent_audio_chunk_count = ses_sent_audio_chunk_count s, mt_sent_audio_bytes = ses_sent_audio_bytes s\<rparr>"

subsection \<open>The package\<close>

record package_header =
  ph_package_id :: string
  ph_version :: int
  ph_created_at :: instant
  ph_session_id :: string
  ph_source_revision_id :: "string option"
  ph_source_language :: string
  ph_target_languages :: "string list"
  ph_effective_source_document_id :: string

definition package_of ::
  "package_env \<Rightarrow> package_header \<Rightarrow> session_snapshot \<Rightarrow> provider_snapshot \<Rightarrow> metrics_snapshot
   \<Rightarrow> package_document list \<Rightarrow> transcript_package" where
  "package_of env h ss ps ms docs =
     (let documents = sort_key document_identity docs;
          content_hash = package_content_hash env PACKAGE_SCHEMA PACKAGE_SCHEMA_VERSION (ph_version h)
            (ph_session_id h) (ph_source_revision_id h) documents;
          references = map (\<lambda>d. \<lparr>dr_document_id = pd_document_id d, dr_document_kind = pd_kind d,
            dr_language = pd_language d, dr_content_hash = pd_content_hash d\<rparr>) documents;
          manifest = \<lparr>mf_schema_name = PACKAGE_SCHEMA, mf_schema_version = PACKAGE_SCHEMA_VERSION,
            mf_package_id = ph_package_id h, mf_package_version = ph_version h,
            mf_session_id = ph_session_id h, mf_status = ''frozen'',
            mf_source_language = ph_source_language h, mf_target_languages = ph_target_languages h,
            mf_effective_source_document_id = ph_effective_source_document_id h,
            mf_source_revision_id = ph_source_revision_id h, mf_created_at = ph_created_at h,
            mf_content_hash = content_hash, mf_documents = references, mf_session_snapshot = ss,
            mf_provider_snapshot = ps, mf_metrics_snapshot = ms\<rparr>
      in \<lparr>pk_package_id = ph_package_id h, pk_session_id = ph_session_id h,
          pk_package_version = ph_version h, pk_schema_name = PACKAGE_SCHEMA,
          pk_schema_version = PACKAGE_SCHEMA_VERSION, pk_status = ''frozen'',
          pk_source_revision_id = ph_source_revision_id h, pk_manifest = manifest,
          pk_documents = documents, pk_content_hash = content_hash, pk_created_at = ph_created_at h,
          pk_frozen_at = Some (ph_created_at h), pk_superseded_at = None\<rparr>)"

definition assemble_baseline ::
  "package_env \<Rightarrow> session_record \<Rightarrow> segment_record list \<Rightarrow> translation_record list \<Rightarrow> string \<Rightarrow> int \<Rightarrow> instant
   \<Rightarrow> transcript_package res" where
  "assemble_baseline env session source_records translation_records package_id version created_at =
     rbind (normalize_timeline source_records) (\<lambda>source_timeline.
     rbind (translation_documents env package_id (ses_id session) translation_records
              (target_languages_of translation_records)) (\<lambda>translations.
       let source_document_id = stable_id env [package_id, ''source_raw'', ses_language session];
           source_items = map (source_item env (ses_id session)) (tln_segments source_timeline);
           target_languages = target_languages_of translation_records;
           ss = session_snapshot_of session target_languages;
           ps = provider_snapshot_of session;
           ms = metrics_snapshot_of session;
           documents = new_document env source_document_id (Some (ses_language session)) (Source_Raw source_items)
             # translations
             @ index_documents env package_id source_document_id (tln_duration_ms source_timeline) source_items
             @ metadata_documents env package_id ss ps ms;
           header = \<lparr>ph_package_id = package_id, ph_version = version, ph_created_at = created_at,
             ph_session_id = ses_id session, ph_source_revision_id = None,
             ph_source_language = ses_language session, ph_target_languages = target_languages,
             ph_effective_source_document_id = source_document_id\<rparr>;
           p = package_of env header ss ps ms documents
       in if package_ok p then Inr p else Inl (ValueError ''validation error for TranscriptPackage'')))"

fun add_documents :: "string \<Rightarrow> instant \<Rightarrow> package_document list \<Rightarrow> package_store \<Rightarrow> package_store res" where
  "add_documents package_id created_at [] st = Inr st"
| "add_documents package_id created_at (d # ds) st =
     rbind (add_document package_id d created_at st) (add_documents package_id created_at ds)"

text \<open>The last part of both builders: validate, store the documents and freeze.\<close>

definition store_package ::
  "package_env \<Rightarrow> result_package_record \<Rightarrow> transcript_package \<Rightarrow> package_store \<Rightarrow> package_store res" where
  "store_package env record p st =
     rbind (validate_or_raise env p) (\<lambda>_.
     rbind (add_documents (pk_package_id p) (pk_created_at p) (pk_documents p) st) (\<lambda>st.
     freeze record (pk_manifest p) (pk_content_hash p) (pk_created_at p) st))"

record assistant_tables =
  at_executions :: "execution_record list"
  at_snapshots :: "context_snapshot_record list"

definition load_and_bind ::
  "binding_env \<Rightarrow> assistant_tables \<Rightarrow> string \<Rightarrow> package_store \<Rightarrow> package_binding_record list
   \<Rightarrow> (package_binding_record list \<times> transcript_package) res" where
  "load_and_bind be tables package_id st bindings =
     rbind (load_package package_id st) (\<lambda>p.
     rbind (as_build_error (bind_unbound_executions be (at_executions tables) (at_snapshots tables) p bindings))
       (\<lambda>(bindings, _). Inr (bindings, p)))"

definition build_baseline ::
  "package_env \<Rightarrow> binding_env \<Rightarrow> assistant_tables \<Rightarrow> session_table \<Rightarrow> segment_table \<Rightarrow> translation_table
   \<Rightarrow> string \<Rightarrow> string \<Rightarrow> instant \<Rightarrow> package_store \<Rightarrow> package_binding_record list
   \<Rightarrow> (package_store \<times> package_binding_record list \<times> transcript_package) res" where
  "build_baseline env be tables sessions segments translations session_id package_id created_at st bindings =
     (case session_get sessions session_id of
        None \<Rightarrow> Inl (LookupError (''Session not found: '' @ session_id))
      | Some session \<Rightarrow>
          let source_records = list_final segments session_id;
              translation_records = list_final_translations translations session_id;
              version = next_version st session_id
          in if source_records = [] then Inl (PackageBuildError ''Session has no Final captions'')
             else rbind (create_building package_id session_id version None created_at st) (\<lambda>(st, record).
               rbind (assemble_baseline env session source_records translation_records package_id version created_at)
                 (\<lambda>p. rbind (store_package env record p st) (\<lambda>st.
                   rbind (load_and_bind be tables package_id st bindings) (\<lambda>(bindings, p). Inr (st, bindings, p))))))"


subsection \<open>A baseline package is structurally valid\<close>

lemma new_document_sel [simp]:
  "pd_document_id (new_document env i l b) = i" "pd_language (new_document env i l b) = l"
  "pd_body (new_document env i l b) = b"
  "document_content_hash env (new_document env i l b) = pd_content_hash (new_document env i l b)"
  by (simp_all add: new_document_def with_hash_def document_content_hash_def document_content_json_def)

lemma live_translation_body:
  assumes "is_live_translation b"
  shows "document_kind_of b = ''live_translation''" "\<not> is_source_raw b" "\<not> is_source_approved b"
    "timeline_content b = None" "evidence_content b = None"
  using assms by (cases b; simp)+

lemma translation_documents_props:
  assumes "translation_documents env pid sid rs ls = Inr ds"
  shows "map pd_language ds = map Some ls"
    "\<forall>d \<in> set ds. is_live_translation (pd_body d) \<and> document_content_hash env d = pd_content_hash d"
proof -
  have "map pd_language ds = map Some ls \<and>
      (\<forall>d \<in> set ds. is_live_translation (pd_body d) \<and> document_content_hash env d = pd_content_hash d)"
    using assms
  proof (induction ls arbitrary: ds)
    case (Cons l ls)
    then show ?case by (auto simp: rbind_eq_Inr translation_document_def Let_def)
  qed simp
  then show "map pd_language ds = map Some ls"
    "\<forall>d \<in> set ds. is_live_translation (pd_body d) \<and> document_content_hash env d = pd_content_hash d" by auto
qed

lemma filter_live:
  assumes "\<forall>d \<in> set ds. is_live_translation (pd_body d)"
  shows "filter (\<lambda>d. is_live_translation (pd_body d)) ds = ds"
    "filter (\<lambda>d. is_source_raw (pd_body d)) ds = []" "filter (\<lambda>d. is_source_approved (pd_body d)) ds = []"
    "filter (\<lambda>d. \<exists>a b. timeline_content (pd_body d) = Some (a, b)) ds = []"
    "filter (\<lambda>d. \<exists>y. evidence_content (pd_body d) = Some y) ds = []"
    "k \<noteq> ''live_translation'' \<Longrightarrow> filter (\<lambda>d. pd_kind d = k) ds = []"
  using assms by (auto simp: filter_empty_conv filter_id_conv live_translation_body)

lemma sort_map_sort_key: "sort (map f (sort_key g xs)) = sort (map f xs)"
  by (rule properties_for_sort) simp_all

text \<open>The documents of a baseline package, by their kinds.\<close>

definition baseline_documents ::
  "package_env \<Rightarrow> string \<Rightarrow> string \<Rightarrow> transcript_item list \<Rightarrow> int \<Rightarrow> package_document list \<Rightarrow> string
   \<Rightarrow> session_snapshot \<Rightarrow> provider_snapshot \<Rightarrow> metrics_snapshot \<Rightarrow> package_document list" where
  "baseline_documents env pid language items duration translations sid ss ps ms =
     new_document env sid (Some language) (Source_Raw items) # translations
       @ index_documents env pid sid duration items @ metadata_documents env pid ss ps ms"

lemmas document_groups = baseline_documents_def index_documents_def metadata_documents_def

lemma baseline_parts:
  fixes env pid language items duration trs sid ss ps ms
  assumes live: "\<forall>d \<in> set trs. is_live_translation (pd_body d)"
  defines "docs \<equiv> sort_key document_identity (baseline_documents env pid language items duration trs sid ss ps ms)"
  shows "docs_of is_source_raw docs = [new_document env sid (Some language) (Source_Raw items)]"
    "docs_of is_source_approved docs = []"
    "sort (map (\<lambda>d. str_or (pd_language d) []) (docs_of is_live_translation docs)) =
       sort (map (\<lambda>d. str_or (pd_language d) []) trs)"
    "List.map_filter (\<lambda>d. timeline_content (pd_body d)) docs =
       [(duration, map (\<lambda>i. \<lparr>te_item_id = ti_item_id i, te_start_ms = ti_start_ms i,
           te_end_ms = ti_end_ms i, te_source_document_id = sid\<rparr>) items)]"
    "List.map_filter (\<lambda>d. evidence_content (pd_body d)) docs =
       [map (\<lambda>i. \<lparr>ee_item_id = ti_item_id i, ee_source_segment_ids = ti_source_segment_ids i,
           ee_start_ms = ti_start_ms i, ee_end_ms = ti_end_ms i,
           ee_raw_text = str_or (ti_raw_text i) (ti_text i), ee_effective_text = ti_text i,
           ee_source_document_id = sid\<rparr>) items]"
    "count_errors docs = []"
proof -
  note parts = filter_live [OF live] document_groups
  show "docs_of is_source_raw docs = [new_document env sid (Some language) (Source_Raw items)]"
    "docs_of is_source_approved docs = []"
    unfolding docs_def filter_sort by (simp_all add: parts)
  show "sort (map (\<lambda>d. str_or (pd_language d) []) (docs_of is_live_translation docs)) =
       sort (map (\<lambda>d. str_or (pd_language d) []) trs)"
    unfolding docs_def filter_sort sort_map_sort_key by (simp add: parts)
  show "List.map_filter (\<lambda>d. timeline_content (pd_body d)) docs =
       [(duration, map (\<lambda>i. \<lparr>te_item_id = ti_item_id i, te_start_ms = ti_start_ms i,
           te_end_ms = ti_end_ms i, te_source_document_id = sid\<rparr>) items)]"
    unfolding docs_def List.map_filter_def filter_sort by (simp add: parts)
  show "List.map_filter (\<lambda>d. evidence_content (pd_body d)) docs =
       [map (\<lambda>i. \<lparr>ee_item_id = ti_item_id i, ee_source_segment_ids = ti_source_segment_ids i,
           ee_start_ms = ti_start_ms i, ee_end_ms = ti_end_ms i,
           ee_raw_text = str_or (ti_raw_text i) (ti_text i), ee_effective_text = ti_text i,
           ee_source_document_id = sid\<rparr>) items]"
    unfolding docs_def List.map_filter_def filter_sort by (simp add: parts)
  have one: "length (filter (\<lambda>d. pd_kind d = k) docs) = 1"
    if "k \<noteq> ''live_translation''" "length (filter (\<lambda>j. j = k) [''source_raw'', ''timeline_index'', ''evidence_index'',
        ''session_metadata'', ''provider_metadata'', ''metrics_metadata'']) = 1" for k
  proof -
    have kinds: "map pd_kind (baseline_documents env pid language items duration trs sid ss ps ms)
        = ''source_raw'' # map pd_kind trs @ [''timeline_index'', ''evidence_index'',
          ''session_metadata'', ''provider_metadata'', ''metrics_metadata'']"
      by (simp add: document_groups)
    have "length (filter (\<lambda>d. pd_kind d = k) docs)
        = length (filter (\<lambda>j. j = k) (map pd_kind (baseline_documents env pid language items duration trs sid ss ps ms)))"
      unfolding docs_def filter_sort by (simp add: filter_map comp_def)
    also have "\<dots> = length (filter (\<lambda>j. j = k) [''source_raw'', ''timeline_index'', ''evidence_index'',
        ''session_metadata'', ''provider_metadata'', ''metrics_metadata''])"
      unfolding kinds using that(1) filter_live(6) [OF live, of k] by (simp add: filter_map comp_def)
    finally show ?thesis using that(2) by simp
  qed
  show "count_errors docs = []"
    by (simp add: count_errors_def \<open>docs_of is_source_approved docs = []\<close> one)
qed

lemma baseline_identities:
  assumes "map pd_language trs = map Some ls" "distinct ls" "\<forall>d \<in> set trs. is_live_translation (pd_body d)"
  shows "distinct (map document_identity (baseline_documents env pid language items duration trs sid ss ps ms))"
proof -
  have langs: "map document_identity trs = map (\<lambda>l. (''live_translation'', str_or (Some l) [])) ls"
  proof -
    have "map document_identity trs = map (\<lambda>x. (''live_translation'', str_or x [])) (map pd_language trs)"
      using assms(3) by (auto simp: document_identity_def live_translation_body)
    then show ?thesis by (simp add: assms(1) comp_def)
  qed
  have "str_or (Some l) [] = l" for l :: string by (simp add: str_or_def)
  then have "distinct (map document_identity trs)"
    using assms(2) unfolding langs by (simp add: distinct_map inj_on_def)
  moreover have "document_identity d \<notin> {(k, l) | k l. k \<noteq> ''live_translation''}" if "d \<in> set trs" for d
    using that assms(3) by (auto simp: document_identity_def live_translation_body)
  ultimately show ?thesis
    by (auto simp: document_groups document_identity_def)
qed

lemma baseline_hashes:
  assumes "\<forall>d \<in> set trs. document_content_hash env d = pd_content_hash d"
    and "d \<in> set (baseline_documents env pid language items duration trs sid ss ps ms)"
  shows "document_content_hash env d = pd_content_hash d"
  using assms by (auto simp: document_groups)

lemma source_item_sel [simp]:
  "ti_item_id (source_item env sid t) = stable_id env [sid, ''source'', tl_segment_id t]"
  "ti_start_ms (source_item env sid t) = tl_audio_start_ms t" "ti_end_ms (source_item env sid t) = tl_audio_end_ms t"
  by (simp_all add: source_item_def)

lemma fold_max_Max: "xs \<noteq> [] \<Longrightarrow> \<forall>x \<in> set xs. 0 \<le> x \<Longrightarrow> fold max xs 0 = Max (set xs)" for xs :: "int list"
proof -
  assume ne: "xs \<noteq> []" and pos: "\<forall>x \<in> set xs. 0 \<le> x"
  have "Max (insert 0 (set xs)) = fold max xs 0" using Max.set_eq_fold [of 0 xs] by simp
  moreover have "Max (insert 0 (set xs)) = max 0 (Max (set xs))" using ne by simp
  moreover have "0 \<le> Max (set xs)" using ne pos by (meson List.finite_set Max_in set_empty)
  ultimately show "fold max xs 0 = Max (set xs)" by simp
qed

lemma timeline_segment_ids:
  assumes "normalize_timeline rs = Inr tln"
  shows "map tl_segment_id (tln_segments tln) = map sg_segment_id (sort_key timeline_sort_key rs)"
proof -
  have "map (\<lambda>(_, s, _). s) (map (\<lambda>t. (tl_id t, tl_segment_id t, tl_display_text t))
        (fst (normalize_loop 0 0 (sort_key timeline_sort_key rs))))
      = map (\<lambda>(_, s, _). s) (map (\<lambda>r. (sg_id r, sg_segment_id r, sg_display_text r)) (sort_key timeline_sort_key rs))"
    by (simp only: normalize_loop_segments)
  with assms show ?thesis by (simp add: normalize_timeline_Inr comp_def)
qed

lemma baseline_timeline:
  assumes tln: "normalize_timeline rs = Inr tln" and "distinct (map sg_segment_id rs)"
    and inj: "inj_on (\<lambda>seg. stable_id env [sid, ''source'', seg]) (set (map sg_segment_id rs))"
  shows "timeline_errors (new_document env i l (Source_Raw (map (source_item env sid) (tln_segments tln))))
    (tln_duration_ms tln)
    (map (\<lambda>i'. \<lparr>te_item_id = ti_item_id i', te_start_ms = ti_start_ms i', te_end_ms = ti_end_ms i',
       te_source_document_id = i\<rparr>) (map (source_item env sid) (tln_segments tln)))
    (map (\<lambda>i'. \<lparr>ee_item_id = ti_item_id i', ee_source_segment_ids = ti_source_segment_ids i',
           ee_start_ms = ti_start_ms i', ee_end_ms = ti_end_ms i',
           ee_raw_text = str_or (ti_raw_text i') (ti_text i'), ee_effective_text = ti_text i',
           ee_source_document_id = i\<rparr>) (map (source_item env sid) (tln_segments tln))) = []"
proof -
  let ?L = "fst (normalize_loop 0 0 (sort_key timeline_sort_key rs))"
  have segs: "tln_segments tln = ?L" and dur: "tln_duration_ms tln = fold max (map tl_audio_end_ms ?L) 0"
    using tln normalize_loop_duration [of 0 0 "sort_key timeline_sort_key rs"] by (simp_all add: normalize_timeline_Inr)
  note wf = timeline_wellformed(2) [OF tln]
  have ids: "map tl_segment_id ?L = map sg_segment_id (sort_key timeline_sort_key rs)"
    using timeline_segment_ids [OF tln] segs by simp
  have "distinct (map sg_segment_id (sort_key timeline_sort_key rs))"
    by (rule distinct_map_sort [OF assms(2)])
  moreover have "set (map tl_segment_id ?L) = set (map sg_segment_id rs)" by (simp add: ids)
  ultimately have "distinct (map (\<lambda>seg. stable_id env [sid, ''source'', seg]) (map tl_segment_id ?L))"
    using inj by (metis distinct_map ids)
  then have dist: "distinct (map ti_item_id (map (source_item env sid) (tln_segments tln)))"
    by (simp add: segs comp_def)
  have "tln_duration_ms tln = (if tln_segments tln = [] then 0 else Max (set (map tl_audio_end_ms (tln_segments tln))))"
  proof (cases "tln_segments tln = []")
    case True
    then show ?thesis using dur segs by simp
  next
    case False
    have "\<forall>x \<in> set (map tl_audio_end_ms ?L). 0 \<le> x" using wf segs by (auto simp: list_all_iff)
    with False show ?thesis using fold_max_Max [of "map tl_audio_end_ms ?L"] dur segs by simp
  qed
  with dist wf show ?thesis
    by (auto simp: timeline_errors_def Let_def list_all_iff comp_def err_if_def)
qed

lemma package_of_sel [simp]:
  "pk_documents (package_of env h ss ps ms docs) = sort_key document_identity docs"
  "pk_source_revision_id (package_of env h ss ps ms docs) = ph_source_revision_id h"
  "pk_package_id (package_of env h ss ps ms docs) = ph_package_id h"
  "pk_session_id (package_of env h ss ps ms docs) = ph_session_id h"
  "pk_package_version (package_of env h ss ps ms docs) = ph_version h"
  "pk_created_at (package_of env h ss ps ms docs) = ph_created_at h"
  "pk_status (package_of env h ss ps ms docs) = ''frozen''"
  "pk_frozen_at (package_of env h ss ps ms docs) = Some (ph_created_at h)"
  "pk_superseded_at (package_of env h ss ps ms docs) = None"
  "pk_schema_name (package_of env h ss ps ms docs) = PACKAGE_SCHEMA"
  "pk_schema_version (package_of env h ss ps ms docs) = PACKAGE_SCHEMA_VERSION"
  "mf_effective_source_document_id (pk_manifest (package_of env h ss ps ms docs)) = ph_effective_source_document_id h"
  "mf_target_languages (pk_manifest (package_of env h ss ps ms docs)) = ph_target_languages h"
  by (simp_all add: package_of_def Let_def)

text \<open>Whatever is put into it, a package is consistent with its own manifest and hashes.\<close>

lemma package_of_consistent:
  assumes "distinct (map document_identity docs)" "\<forall>d \<in> set docs. document_content_hash env d = pd_content_hash d"
  shows "identity_errors env (package_of env h ss ps ms docs) (sort_key document_identity docs) = []"
    "manifest_errors (package_of env h ss ps ms docs) (sort_key document_identity docs) = []"
proof -
  have "distinct (map document_identity (sort_key document_identity docs))"
    using assms(1) by (metis distinct_map distinct_sort set_sort)
  then show "identity_errors env (package_of env h ss ps ms docs) (sort_key document_identity docs) = []"
    using assms(2) by (auto simp: identity_errors_def package_of_def Let_def err_if_def)
  show "manifest_errors (package_of env h ss ps ms docs) (sort_key document_identity docs) = []"
    by (simp add: manifest_errors_def package_of_def Let_def reference_of_def manifest_reference_def comp_def)
qed

abbreviation baseline_package where
  "baseline_package env session trs pid v now tln ds \<equiv>
     package_of env \<lparr>ph_package_id = pid, ph_version = v, ph_created_at = now, ph_session_id = ses_id session,
        ph_source_revision_id = None, ph_source_language = ses_language session,
        ph_target_languages = target_languages_of trs,
        ph_effective_source_document_id = stable_id env [pid, ''source_raw'', ses_language session]\<rparr>
      (session_snapshot_of session (target_languages_of trs)) (provider_snapshot_of session) (metrics_snapshot_of session)
      (baseline_documents env pid (ses_language session) (map (source_item env (ses_id session)) (tln_segments tln))
        (tln_duration_ms tln) ds (stable_id env [pid, ''source_raw'', ses_language session])
        (session_snapshot_of session (target_languages_of trs)) (provider_snapshot_of session) (metrics_snapshot_of session))"

lemma assemble_baseline_Inr:
  assumes "assemble_baseline env session srcs trs pid v now = Inr p"
  obtains tln ds where "normalize_timeline srcs = Inr tln"
    "translation_documents env pid (ses_id session) trs (target_languages_of trs) = Inr ds" "package_ok p"
    "p = baseline_package env session trs pid v now tln ds"
  using assms by (auto simp: assemble_baseline_def rbind_eq_Inr Let_def baseline_documents_def split: if_splits)

lemma baseline_package_valid:
  assumes tln: "normalize_timeline srcs = Inr tln"
    and ds: "translation_documents env pid (ses_id session) trs (target_languages_of trs) = Inr ds"
    and p: "p = baseline_package env session trs pid v now tln ds"
    and dist: "distinct (map sg_segment_id srcs)"
    and inj: "inj_on (\<lambda>seg. stable_id env [ses_id session, ''source'', seg]) (set (map sg_segment_id srcs))"
    and plain: "contains_sensitive_value env (dump_package env p) = Inr False"
  shows "validate_package env p = Inr []" "distinct (map document_identity (pk_documents p))"
    "sort_key document_identity (pk_documents p) = pk_documents p"
proof -
  let ?ss = "session_snapshot_of session (target_languages_of trs)" and ?ps = "provider_snapshot_of session"
    and ?ms = "metrics_snapshot_of session"
  let ?docs = "baseline_documents env pid (ses_language session) (map (source_item env (ses_id session)) (tln_segments tln))
        (tln_duration_ms tln) ds (stable_id env [pid, ''source_raw'', ses_language session]) ?ss ?ps ?ms"
  note live = translation_documents_props [OF ds]
  have langs: "distinct (target_languages_of trs)" by (simp add: target_languages_of_def)
  have ids: "distinct (map document_identity ?docs)"
    by (rule baseline_identities [OF live(1) langs]) (use live(2) in blast)
  note cons = package_of_consistent [OF ids]
  have is_live: "\<forall>d \<in> set ds. is_live_translation (pd_body d)" using live(2) by blast
  note parts = baseline_parts [OF is_live]
  have trl: "map (\<lambda>d. str_or (pd_language d) []) ds = target_languages_of trs"
  proof -
    have "map (\<lambda>d. str_or (pd_language d) []) ds = map (\<lambda>l. str_or l []) (map pd_language ds)" by simp
    then show ?thesis unfolding live(1) by (simp add: str_or_def comp_def)
  qed
  have eff: "effective_documents p (sort_key document_identity ?docs)
      = [new_document env (stable_id env [pid, ''source_raw'', ses_language session]) (Some (ses_language session))
          (Source_Raw (map (source_item env (ses_id session)) (tln_segments tln)))]"
    by (simp add: effective_documents_def parts p)
  have "effective_errors p (sort_key document_identity ?docs) = []"
    unfolding effective_errors_def eff Let_def parts by (simp add: p)
  moreover have "source_errors p (sort_key document_identity ?docs) = []"
    unfolding source_errors_def eff Let_def parts
    using baseline_timeline [OF tln dist inj] trl by (simp add: p)
  moreover have "identity_errors env p (sort_key document_identity ?docs) = []"
    "manifest_errors p (sort_key document_identity ?docs) = []"
    unfolding p by (rule cons, use baseline_hashes live(2) in blast)+
  ultimately show "validate_package env p = Inr []"
    using plain parts(6) by (simp add: validate_package_Nil Let_def p)
  show "distinct (map document_identity (pk_documents p))" "sort_key document_identity (pk_documents p) = pk_documents p"
    using ids by (simp_all add: p) (metis distinct_map distinct_sort set_sort)
qed


subsection \<open>Storing and loading\<close>

definition store_inv :: "package_store \<Rightarrow> bool" where
  "store_inv st \<longleftrightarrow> package_table_inv (st_packages st)
     \<and> (\<forall>d \<in> set (st_documents st). dc_package_id d \<in> set (map rp_id (st_packages st)))"

definition row_of_document :: "string \<Rightarrow> instant \<Rightarrow> package_document \<Rightarrow> package_document_record" where
  "row_of_document pid t d = \<lparr>dc_id = pd_document_id d, dc_package_id = pid, dc_language = pd_language d,
     dc_body = pd_body d, dc_content_hash = pd_content_hash d, dc_created_at = t\<rparr>"

lemma row_of_document_sel [simp]:
  "document_from_record (row_of_document pid t d) = d" "dc_package_id (row_of_document pid t d) = pid"
  "dc_id (row_of_document pid t d) = pd_document_id d" "dc_language (row_of_document pid t d) = pd_language d"
  "dc_body (row_of_document pid t d) = pd_body d"
  by (simp_all add: row_of_document_def document_from_record_def)

lemma add_documents_ok:
  assumes "distinct (map pd_document_id ds)" "distinct (map (\<lambda>d. (pd_kind d, pd_language d)) ds)"
    and "set (map pd_document_id ds) \<inter> set (map dc_id (st_documents st)) = {}"
    and "\<And>r d. r \<in> set (st_documents st) \<Longrightarrow> d \<in> set ds \<Longrightarrow> dc_package_id r = pid \<Longrightarrow>
      (document_kind_of (dc_body r), dc_language r) \<noteq> (pd_kind d, pd_language d)"
  shows "add_documents pid t ds st = Inr (st\<lparr>st_documents := st_documents st @ map (row_of_document pid t) ds\<rparr>)"
  using assms
proof (induction ds arbitrary: st)
  case (Cons d ds)
  have "add_document pid d t st = Inr (st\<lparr>st_documents := st_documents st @ [row_of_document pid t d]\<rparr>)"
    using Cons.prems(3,4) by (auto simp: add_document_def row_of_document_def)
  moreover have "add_documents pid t ds (st\<lparr>st_documents := st_documents st @ [row_of_document pid t d]\<rparr>)
      = Inr (st\<lparr>st_documents := st_documents st @ [row_of_document pid t d]\<rparr>
          \<lparr>st_documents := st_documents (st\<lparr>st_documents := st_documents st @ [row_of_document pid t d]\<rparr>)
             @ map (row_of_document pid t) ds\<rparr>)"
  proof (rule Cons.IH)
    fix r e
    assume r: "r \<in> set (st_documents (st\<lparr>st_documents := st_documents st @ [row_of_document pid t d]\<rparr>))"
      and e: "e \<in> set ds" "dc_package_id r = pid"
    have "(pd_kind d, pd_language d) \<noteq> (pd_kind e, pd_language e)"
      using Cons.prems(2) e(1) by (auto simp: image_iff)
    moreover have "r \<in> set (st_documents st) \<or> document_kind_of (dc_body r) = pd_kind d \<and> dc_language r = pd_language d"
      using r by auto
    ultimately show "(document_kind_of (dc_body r), dc_language r) \<noteq> (pd_kind e, pd_language e)"
      using e Cons.prems(4) [of r e] by auto
  qed (use Cons.prems(1-3) in auto)
  ultimately show ?case by simp
qed simp

lemma identities_distinct:
  "distinct (map document_identity ds) \<Longrightarrow> distinct (map (\<lambda>d. (pd_kind d, pd_language d)) ds)"
  by (auto simp: distinct_map document_identity_def inj_on_def)

text \<open>
  The frozen row of a stored package and what \<open>load\<close> makes of it.
\<close>

lemma store_package_ok:
  assumes inv: "store_inv st" and cb: "create_building pid sid v sr now st = Inr (st1, record)"
    and valid: "validate_package env p = Inr []" and ok: "package_ok p"
    and p: "pk_package_id p = pid" "pk_session_id p = sid" "pk_package_version p = v" "pk_created_at p = now"
      "pk_source_revision_id p = sr" "pk_status p = ''frozen''" "pk_frozen_at p = Some now"
      "pk_superseded_at p = None" "sort_key document_identity (pk_documents p) = pk_documents p"
    and docs: "distinct (map document_identity (pk_documents p))" "distinct (map pd_document_id (pk_documents p))"
      "set (map pd_document_id (pk_documents p)) \<inter> set (map dc_id (st_documents st)) = {}"
  shows "\<exists>st'. store_package env record p st1 = Inr st' \<and> store_inv st' \<and> load_package pid st' = Inr p
    \<and> map rp_id (filter (\<lambda>r. rp_session_id r = sid \<and> rp_status r = ''frozen'') (st_packages st')) = [pid]"
proof -
  have rec: "record \<in> set (st_packages st1)" "rp_id record = pid" "rp_session_id record = sid"
      "rp_version record = v" "rp_status record = ''building''" "rp_schema_name record = PACKAGE_SCHEMA"
      "rp_schema_version record = PACKAGE_SCHEMA_VERSION" "rp_source_revision_id record = sr"
      "rp_created_at record = now" "rp_superseded_at record = None"
    and st1: "st_packages st1 = st_packages st @ [record]" "st_documents st1 = st_documents st"
      "pid \<notin> set (map rp_id (st_packages st))"
    using cb by (auto simp: create_building_def Let_def split: if_splits)
  have inv1: "package_table_inv (st_packages st1)"
    using create_building_inv [OF _ cb] inv by (simp add: store_inv_def)
  have fresh: "dc_package_id r \<noteq> pid" if "r \<in> set (st_documents st)" for r
    using inv that st1(3) by (auto simp: store_inv_def)
  define st2 where "st2 = st1\<lparr>st_documents := st_documents st1 @ map (row_of_document pid now) (pk_documents p)\<rparr>"
  have add: "add_documents pid now (pk_documents p) st1 = Inr st2"
    unfolding st2_def by (rule add_documents_ok)
      (use docs identities_distinct fresh st1(2) in auto)
  obtain st3 where fr: "freeze record (pk_manifest p) (pk_content_hash p) now st2 = Inr st3"
    using rec(5) by (simp add: freeze_def)
  have inv2: "package_table_inv (st_packages st2)" "record \<in> set (st_packages st2)"
    using inv1 rec(1) by (simp_all add: st2_def)
  note frozen = freeze_inv [OF inv2 fr]
  have st3: "st_documents st3 = st_documents st2" "map rp_id (st_packages st3) = map rp_id (st_packages st2)"
    using fr by (auto simp: freeze_def freeze_row_def supersede_def split: if_splits)
  let ?row = "freeze_row (pk_manifest p) (pk_content_hash p) now record"
  have rp: "rp_id ?row = pid" "rp_session_id ?row = sid" using rec by (simp_all add: freeze_row_def)
  have row_in: "?row \<in> set (st_packages st3)"
    using frozen [THEN conjunct2, THEN arg_cong [where f = set]] by auto
  have get: "package_get pid st3 = Some ?row"
    using find_distinct_key [OF _ row_in, of rp_id] frozen rp by (simp add: package_get_def package_table_inv_def)
  have list: "map document_from_record (list_documents pid st3) = pk_documents p"
    using fresh by (simp add: list_documents_def st3(1) st2_def st1(2) filter_empty_conv comp_def filter_id_conv)
  have load: "load_package pid st3 = Inr p"
    using ok get list rec p by (simp add: load_package_def freeze_row_def package_ok_def)
  have "store_inv st3"
    using frozen inv rec(2) by (auto simp: store_inv_def st3 st2_def st1)
  moreover have "validate_or_raise env p = Inr ()" using valid by (simp add: validate_or_raise_def)
  ultimately show ?thesis
    using add fr load p frozen rec rp by (simp add: store_package_def)
qed


subsection \<open>Building succeeds\<close>

text \<open>
  What the binding of a new package needs: the keys of the tables, fresh identifiers of at
  most 36 characters, and snapshots that can be read and cite only the given segments.
\<close>

definition binding_ready ::
  "binding_env \<Rightarrow> assistant_tables \<Rightarrow> string \<Rightarrow> string \<Rightarrow> string set \<Rightarrow> package_binding_record list \<Rightarrow> bool" where
  "binding_ready be tables sid pid segs bindings \<longleftrightarrow>
     distinct (map ex_id (at_executions tables)) \<and> distinct (map cs_id (at_snapshots tables))
     \<and> distinct (map pb_id bindings) \<and> distinct (map pb_execution_id bindings)
     \<and> inj (be_new_id be) \<and> (\<forall>b \<in> set bindings. \<forall>e. pb_id b \<noteq> be_new_id be e) \<and> id36_ok pid
     \<and> (\<forall>(e, s) \<in> set (unbound_rows sid (at_executions tables) (at_snapshots tables) bindings).
          id36_ok (ex_id e) \<and> id36_ok (cs_id s) \<and> id36_ok (be_new_id be (ex_id e))
          \<and> (case be_validate_messages be (cs_evidence_messages s) of Inl _ \<Rightarrow> False
             | Inr messages \<Rightarrow> set (snapshot_segments messages) \<subseteq> segs))"

lemma binding_ready_binds:
  assumes ready: "binding_ready be tables sid pid segs bindings"
    and p: "package_ok p" "pk_status p = ''frozen''" "pk_frozen_at p \<noteq> None" "pk_package_id p = pid" "pk_session_id p = sid"
    and items: "effective_source_items p = Inr items" "segs \<subseteq> \<Union> (set ` ti_source_segment_ids ` set items)"
  shows "\<exists>created. bind_unbound_executions be (at_executions tables) (at_snapshots tables) p bindings
      = Inr (bindings @ created, created)"
proof (rule bind_unbound_ok [OF _ _ _ _ _ _ p(2,3) items(1)])
  fix e s assume "(e, s) \<in> set (unbound_rows (pk_session_id p) (at_executions tables) (at_snapshots tables) bindings)"
  then have row: "id36_ok (ex_id e)" "id36_ok (cs_id s)" "id36_ok (be_new_id be (ex_id e))"
    "case be_validate_messages be (cs_evidence_messages s) of Inl _ \<Rightarrow> False
       | Inr messages \<Rightarrow> set (snapshot_segments messages) \<subseteq> segs"
    using ready p(5) by (auto simp: binding_ready_def)
  from row(4) obtain messages where "be_validate_messages be (cs_evidence_messages s) = Inr messages"
    "set (snapshot_segments messages) \<subseteq> segs" by (auto split: sum.splits)
  moreover from this(2) have "covered_by items messages" using items(2) by (fastforce simp: covered_by_def)
  moreover have "binding_ok (new_binding be p e s mapping)" for mapping
    using row p ready by (simp add: binding_ok_def new_binding_def package_ok_def binding_ready_def)
  ultimately show "(\<exists>messages. be_validate_messages be (cs_evidence_messages s) = Inr messages \<and> covered_by items messages)
      \<and> (\<forall>mapping. binding_ok (new_binding be p e s mapping))" by blast
qed (use ready in \<open>auto simp: binding_ready_def\<close>)

lemma effective_source_found:
  assumes "distinct (map pd_document_id (pk_documents p))" "d \<in> set (pk_documents p)"
    and "pd_document_id d = mf_effective_source_document_id (pk_manifest p)"
    and "is_source_raw (pd_body d) \<or> is_source_approved (pd_body d)"
  shows "effective_source_items p = Inr (transcript_items (pd_body d))"
  using find_distinct_key [OF assms(1,2)] assms(3,4) by (simp add: effective_source_items_def)

lemma next_version_fresh:
  "(sid, next_version st sid) \<notin> set (map (\<lambda>r. (rp_session_id r, rp_version r)) (st_packages st))"
proof
  let ?v = "next_version st sid" and ?vs = "map rp_version (filter (\<lambda>r. rp_session_id r = sid) (st_packages st))"
  assume "(sid, ?v) \<in> set (map (\<lambda>r. (rp_session_id r, rp_version r)) (st_packages st))"
  then have mem: "?v \<in> set ?vs" by force
  then have "?v \<le> Max (set ?vs)" by simp
  moreover have "?vs \<noteq> []" using mem by (metis empty_iff empty_set)
  ultimately show False by (simp add: next_version_def Let_def)
qed

text \<open>What is used of SHA-256 and \<open>uuid5\<close>: 64 hexadecimal digits, and a non-empty text.\<close>

definition digests_ok :: "package_env \<Rightarrow> bool" where
  "digests_ok env \<longleftrightarrow> (\<forall>bs. digest_ok (pe_sha256 env bs)) \<and> (\<forall>s. s \<noteq> [] \<longrightarrow> pe_uuid5 env s \<noteq> [])"

lemma new_document_ok:
  assumes "digests_ok env" "case l of None \<Rightarrow> True | Some l \<Rightarrow> language_ok l" "body_ok l b"
  shows "document_ok (new_document env (stable_id env parts) l b)"
  using assms by (simp add: document_ok_def new_document_def with_hash_def document_content_hash_def
      canonical_sha256_def stable_id_def digests_ok_def)

lemma index_documents_ok:
  assumes env: "digests_ok env" and items: "list_all transcript_item_ok items" "0 \<le> duration"
    and docs: "d \<in> set (index_documents env pid (stable_id env parts) duration items)"
  shows "document_ok d"
proof -
  have "stable_id env parts \<noteq> []" using env by (simp add: digests_ok_def stable_id_def)
  then show ?thesis
    using docs items by (auto simp: index_documents_def list_all_iff transcript_item_ok_def timeline_entry_ok_def
        evidence_entry_ok_def intro!: new_document_ok [OF env])
qed

text \<open>
  What the columns of the stored session have to satisfy for Pydantic to accept the snapshot
  made of them, and the ids the documents of a baseline package get.
\<close>

definition session_storable :: "session_record \<Rightarrow> bool" where
  "session_storable s \<longleftrightarrow> ses_id s \<noteq> [] \<and> ses_room_name s \<noteq> [] \<and> ses_status s \<noteq> []
     \<and> ses_source_type s \<noteq> [] \<and> language_ok (ses_language s)"

definition baseline_document_ids ::
  "package_env \<Rightarrow> string \<Rightarrow> string \<Rightarrow> string list \<Rightarrow> string list" where
  "baseline_document_ids env pid language targets =
     map (stable_id env) ([pid, ''source_raw'', language]
       # map (\<lambda>l. [pid, ''live_translation'', l]) targets
       @ [[pid, ''timeline_index''], [pid, ''evidence_index''], [pid, ''session_metadata''],
          [pid, ''provider_metadata''], [pid, ''metrics_metadata'']])"

text \<open>The translation documents of stored Finals can always be made, and are well formed.\<close>

lemma timeline_items_ok:
  assumes "normalize_timeline rs = Inr tln" "digests_ok env"
  shows "list_all transcript_item_ok (map (source_item env sid) (tln_segments tln))"
    "list_all transcript_item_ok (map (translation_item env sid l records) (tln_segments tln))"
  using timeline_wellformed(2) [OF assms(1)] assms(2)
  by (auto simp: list_all_iff transcript_item_ok_def source_item_def translation_item_def Let_def
      digests_ok_def stable_id_def split: option.splits)

lemma normalize_finals: "list_all (\<lambda>r. sg_status r = ''final'') rs \<Longrightarrow> \<exists>tln. normalize_timeline rs = Inr tln"
  by (auto simp: normalize_timeline_def list_all_iff list_ex_iff split: prod.splits)

lemma translation_document_built:
  assumes env: "digests_ok env" and final: "\<forall>r \<in> set trs. ts_status r = ''final''" and l: "language_ok l"
  shows "\<exists>d. translation_document env pid sid trs l = Inr d \<and> document_ok d
    \<and> pd_document_id d = stable_id env [pid, ''live_translation'', l]"
proof -
  let ?rs = "filter (\<lambda>r. ts_target_language r = l) trs"
  have "list_all (\<lambda>r. sg_status r = ''final'') (map translation_as_segment ?rs)"
    using final by (auto simp: list_all_iff translation_as_segment_def)
  then obtain tln where tln: "normalize_timeline (map translation_as_segment ?rs) = Inr tln"
    using normalize_finals by blast
  have "document_ok (new_document env (stable_id env [pid, ''live_translation'', l]) (Some l)
      (Live_Translation (map (translation_item env sid l ?rs) (tln_segments tln))))"
    by (rule new_document_ok [OF env]) (use l timeline_items_ok(2) [OF tln env] in simp_all)
  then show ?thesis
    by (simp add: translation_document_def normalize_translation_timeline_def tln Let_def)
qed

lemma translation_documents_built:
  assumes "digests_ok env" "\<forall>r \<in> set trs. ts_status r = ''final''" "list_all language_ok ls"
  shows "\<exists>ds. translation_documents env pid sid trs ls = Inr ds \<and> list_all document_ok ds
    \<and> map pd_document_id ds = map (\<lambda>l. stable_id env [pid, ''live_translation'', l]) ls"
  using assms(3)
proof (induction ls)
  case (Cons l ls)
  obtain d where d: "translation_document env pid sid trs l = Inr d" "document_ok d"
    "pd_document_id d = stable_id env [pid, ''live_translation'', l]"
    using translation_document_built [OF assms(1,2), of l pid sid] Cons.prems by auto
  from Cons obtain ds where "translation_documents env pid sid trs ls = Inr ds" "list_all document_ok ds"
    "map pd_document_id ds = map (\<lambda>l. stable_id env [pid, ''live_translation'', l]) ls" by auto
  with d show ?case by simp
qed simp

text \<open>The package put together from stored Finals satisfies all field constraints.\<close>

lemma baseline_package_ok:
  assumes env: "digests_ok env" and tln: "normalize_timeline srcs = Inr tln"
    and ds: "list_all document_ok ds" and ses: "session_storable session" and pid: "pid \<noteq> []" "1 \<le> v"
    and targets: "list_all language_ok (target_languages_of trs)"
  shows "package_ok (baseline_package env session trs pid v now tln ds)" (is "package_ok ?p")
proof -
  let ?lang = "ses_language session" and ?items = "map (source_item env (ses_id session)) (tln_segments tln)"
  have lang: "language_ok ?lang" using ses by (simp add: session_storable_def)
  have snap: "session_snapshot_ok (session_snapshot_of session (target_languages_of trs))"
    using ses targets by (simp add: session_snapshot_ok_def session_snapshot_of_def session_storable_def)
  note items_ok = timeline_items_ok(1) [OF tln env, of "ses_id session"]
  have dur: "0 \<le> tln_duration_ms tln"
    using tln normalize_loop_duration [of 0 0 "sort_key timeline_sort_key srcs"] fold_max_props(1) [of 0]
    by (simp add: normalize_timeline_Inr)
  have docs: "document_ok d" if "d \<in> set (pk_documents ?p)" for d
    using that ds index_documents_ok [OF env items_ok dur] items_ok lang snap
    by (auto simp: baseline_documents_def metadata_documents_def list_all_iff set_insort_key
        intro!: new_document_ok [OF env])
  have refs: "list_all reference_ok (mf_documents (pk_manifest ?p))"
  proof -
    have "mf_documents (pk_manifest ?p) = map (\<lambda>d. \<lparr>dr_document_id = pd_document_id d,
        dr_document_kind = pd_kind d, dr_language = pd_language d, dr_content_hash = pd_content_hash d\<rparr>)
        (pk_documents ?p)" by (simp add: package_of_def Let_def)
    moreover have "pd_kind d \<noteq> []" for d :: package_document by (cases "pd_body d") simp_all
    ultimately show ?thesis using docs by (simp add: list_all_iff reference_ok_def document_ok_def)
  qed
  have fields: "pk_content_hash ?p = mf_content_hash (pk_manifest ?p)" "digest_ok (pk_content_hash ?p)"
    using env by (simp_all add: package_of_def Let_def package_content_hash_def canonical_sha256_def digests_ok_def)
  have "manifest_ok (pk_manifest ?p)"
    using refs fields lang targets snap pid ses env
    by (simp add: manifest_ok_def session_storable_def)
      (simp add: package_of_def Let_def digests_ok_def stable_id_def)
  moreover have "list_all document_ok (pk_documents ?p)" using docs by (simp add: list_all_iff)
  ultimately show ?thesis
    using fields pid ses by (simp add: package_ok_def session_storable_def)
qed

lemma baseline_ids:
  assumes "map pd_document_id ds = map (\<lambda>l. stable_id env [pid, ''live_translation'', l]) (target_languages_of trs)"
    and "distinct (baseline_document_ids env pid (ses_language session) (target_languages_of trs))"
  shows "distinct (map pd_document_id (pk_documents (baseline_package env session trs pid v now tln ds)))"
    "set (map pd_document_id (pk_documents (baseline_package env session trs pid v now tln ds)))
       = set (baseline_document_ids env pid (ses_language session) (target_languages_of trs))"
proof -
  let ?docs = "baseline_documents env pid (ses_language session) (map (source_item env (ses_id session)) (tln_segments tln))
        (tln_duration_ms tln) ds (stable_id env [pid, ''source_raw'', ses_language session])
        (session_snapshot_of session (target_languages_of trs)) (provider_snapshot_of session) (metrics_snapshot_of session)"
  have ids: "map pd_document_id ?docs = baseline_document_ids env pid (ses_language session) (target_languages_of trs)"
    using assms(1) by (simp add: document_groups baseline_document_ids_def comp_def)
  with assms(2) have "distinct (map pd_document_id ?docs)" by simp
  from distinct_map_sort [OF this]
  show "distinct (map pd_document_id (pk_documents (baseline_package env session trs pid v now tln ds)))" by simp
  have "set (map pd_document_id (pk_documents (baseline_package env session trs pid v now tln ds)))
      = set (map pd_document_id ?docs)" by simp
  then show "set (map pd_document_id (pk_documents (baseline_package env session trs pid v now tln ds)))
       = set (baseline_document_ids env pid (ses_language session) (target_languages_of trs))"
    by (simp only: ids)
qed

text \<open>Assembling the package from the stored rows of a session succeeds.\<close>

lemma assemble_baseline_succeeds:
  assumes env: "digests_ok env" and ses: "session_storable session" and pid: "pid \<noteq> []" "1 \<le> v"
    and langs: "\<forall>r \<in> set (list_final_translations translations sid). language_ok (ts_target_language r)"
  defines "trs \<equiv> list_final_translations translations sid"
  obtains tln ds where "normalize_timeline (list_final segments sid) = Inr tln"
    "translation_documents env pid (ses_id session) trs (target_languages_of trs) = Inr ds"
    "map pd_document_id ds = map (\<lambda>l. stable_id env [pid, ''live_translation'', l]) (target_languages_of trs)"
    "package_ok (baseline_package env session trs pid v now tln ds)"
    "assemble_baseline env session (list_final segments sid) trs pid v now
       = Inr (baseline_package env session trs pid v now tln ds)"
proof -
  have targets: "list_all language_ok (target_languages_of trs)"
    using langs by (auto simp: target_languages_of_def list_all_iff trs_def)
  have "list_all (\<lambda>r. sg_status r = ''final'') (list_final segments sid)"
    by (simp add: list_final_def list_all_iff)
  then obtain tln where tln: "normalize_timeline (list_final segments sid) = Inr tln"
    using normalize_finals by blast
  have "\<forall>r \<in> set trs. ts_status r = ''final''" by (simp add: trs_def list_final_translations_def)
  from translation_documents_built [OF env this targets, of pid "ses_id session"]
  obtain ds where ds: "translation_documents env pid (ses_id session) trs (target_languages_of trs) = Inr ds"
    "list_all document_ok ds"
    "map pd_document_id ds = map (\<lambda>l. stable_id env [pid, ''live_translation'', l]) (target_languages_of trs)"
    by blast
  note ok = baseline_package_ok [OF env tln ds(2) ses pid targets, of now]
  show thesis
  proof (rule that [OF tln ds(1,3) ok])
    show "assemble_baseline env session (list_final segments sid) trs pid v now
       = Inr (baseline_package env session trs pid v now tln ds)"
      using ok tln ds(1) by (simp add: assemble_baseline_def Let_def baseline_documents_def)
  qed
qed

lemma next_version_positive:
  assumes "\<forall>r \<in> set (st_packages st). 1 \<le> rp_version r"
  shows "1 \<le> next_version st sid"
proof -
  let ?vs = "map rp_version (filter (\<lambda>r. rp_session_id r = sid) (st_packages st))"
  have "1 \<le> Max (set ?vs)" if "?vs \<noteq> []"
  proof -
    have "Max (set ?vs) \<in> set ?vs" using that by (metis List.finite_set Max_in set_empty)
    then show ?thesis using assms by auto
  qed
  then show ?thesis by (cases "?vs = []") (simp_all add: next_version_def Let_def)
qed

text \<open>
  C28. A baseline package can always be built from stored Finals. What is assumed is about the
  stored rows and about what comes from outside: SHA-256 gives 64 hexadecimal digits and
  \<open>uuid5\<close> a non-empty text; the segment and package tables are consistent and versions start
  at one; the session has Finals, its columns are not empty, and it and its translations have
  languages of 2 to 32 characters; the package id is new; the ids \<open>uuid5\<close> gives to the
  segments and to the documents are distinct and the latter are new; no package put together
  from these rows holds a sensitive value; the unbound context snapshots cite only segments
  of the session. Then \<open>build_baseline\<close> succeeds: the package is assembled within all
  field constraints, passes every structural check of the validator, loading it back returns
  exactly this package, it becomes the one frozen package of the session, the invariants of
  the package tables are kept, and the executions of the session are bound.
\<close>

theorem baseline_package_builds:
  assumes "digests_ok env" "store_inv st" "\<forall>r \<in> set (st_packages st). 1 \<le> rp_version r"
    and "segment_table_inv segments" "session_get sessions sid = Some session" "session_storable session"
    and "list_final segments sid \<noteq> []"
    and "\<forall>r \<in> set (list_final_translations translations sid). language_ok (ts_target_language r)"
    and "pid \<noteq> []" "pid \<notin> set (map rp_id (st_packages st))"
    and "inj_on (\<lambda>seg. stable_id env [sid, ''source'', seg]) {sg_segment_id r | r. r \<in> set segments \<and> sg_session_id r = sid}"
    and "distinct (baseline_document_ids env pid (ses_language session)
           (target_languages_of (list_final_translations translations sid)))"
    and "set (baseline_document_ids env pid (ses_language session)
           (target_languages_of (list_final_translations translations sid))) \<inter> set (map dc_id (st_documents st)) = {}"
    and "\<And>p. assemble_baseline env session (list_final segments sid) (list_final_translations translations sid)
           pid (next_version st sid) now = Inr p \<Longrightarrow> contains_sensitive_value env (dump_package env p) = Inr False"
    and "binding_ready be tables sid pid {sg_segment_id r | r. r \<in> set segments \<and> sg_session_id r = sid} bindings"
  shows "\<exists>p st' created. build_baseline env be tables sessions segments translations sid pid now st bindings
        = Inr (st', bindings @ created, p)
    \<and> assemble_baseline env session (list_final segments sid) (list_final_translations translations sid)
        pid (next_version st sid) now = Inr p
    \<and> validate_package env p = Inr [] \<and> load_package pid st' = Inr p \<and> store_inv st'
    \<and> map rp_id (filter (\<lambda>r. rp_session_id r = sid \<and> rp_status r = ''frozen'') (st_packages st')) = [pid]
    \<and> unbound_rows sid (at_executions tables) (at_snapshots tables) (bindings @ created) = []"
proof -
  let ?v = "next_version st sid" and ?trs = "list_final_translations translations sid"
  have sid: "ses_id session = sid" using assms(5) by (auto simp: session_get_def dest: find_row_Some)
  obtain tln ds where asm: "normalize_timeline (list_final segments sid) = Inr tln"
    "translation_documents env pid (ses_id session) ?trs (target_languages_of ?trs) = Inr ds"
    "map pd_document_id ds = map (\<lambda>l. stable_id env [pid, ''live_translation'', l]) (target_languages_of ?trs)"
    "package_ok (baseline_package env session ?trs pid ?v now tln ds)"
    "assemble_baseline env session (list_final segments sid) ?trs pid ?v now
       = Inr (baseline_package env session ?trs pid ?v now tln ds)"
    by (rule assemble_baseline_succeeds [OF assms(1,6,9) next_version_positive [OF assms(3)] assms(8)])
  define p where p: "p = baseline_package env session ?trs pid ?v now tln ds"
  note ok = asm(4) [folded p] and made = asm(5) [folded p]
  note doc_ids = baseline_ids [OF asm(3) assms(12), of ?v now tln, folded p]
  obtain st1 rw where cb: "create_building pid sid ?v None now st = Inr (st1, rw)"
    using assms(10) next_version_fresh [of sid st] by (simp add: create_building_def Let_def)
  note ids = list_final_segment_ids [OF assms(4), of sid]
  have inj: "inj_on (\<lambda>seg. stable_id env [ses_id session, ''source'', seg]) (set (map sg_segment_id (list_final segments sid)))"
    using assms(11) unfolding ids(2) sid .
  note valid = baseline_package_valid [OF asm(1,2) p ids(1) inj assms(14) [OF made]]
  have "\<exists>st'. store_package env rw p st1 = Inr st' \<and> store_inv st' \<and> load_package pid st' = Inr p
      \<and> map rp_id (filter (\<lambda>r. rp_session_id r = sid \<and> rp_status r = ''frozen'') (st_packages st')) = [pid]"
    by (rule store_package_ok [OF assms(2) cb valid(1)])
      (use ok valid(2,3) doc_ids assms(13) sid in \<open>auto simp: p\<close>)
  then obtain st' where st': "store_package env rw p st1 = Inr st' \<and> store_inv st' \<and> load_package pid st' = Inr p
      \<and> map rp_id (filter (\<lambda>r. rp_session_id r = sid \<and> rp_status r = ''frozen'') (st_packages st')) = [pid]"
    by (rule exE)
  let ?items = "map (source_item env (ses_id session)) (tln_segments tln)"
  have "effective_source_items p = Inr (transcript_items (pd_body
      (new_document env (stable_id env [pid, ''source_raw'', ses_language session]) (Some (ses_language session)) (Source_Raw ?items))))"
    by (rule effective_source_found [OF doc_ids(1)]) (simp_all add: p baseline_documents_def set_insort_key)
  then have eff: "effective_source_items p = Inr ?items" by simp
  have "set (map tl_segment_id (tln_segments tln)) = {sg_segment_id r | r. r \<in> set segments \<and> sg_session_id r = sid}"
    unfolding timeline_segment_ids [OF asm(1)] using ids(2) by simp
  then have cov: "{sg_segment_id r | r. r \<in> set segments \<and> sg_session_id r = sid}
      \<subseteq> \<Union> (set ` ti_source_segment_ids ` set ?items)" by (auto simp: source_item_def)
  have pk: "pk_status p = ''frozen''" "pk_frozen_at p \<noteq> None" "pk_package_id p = pid" "pk_session_id p = sid"
    by (simp_all add: p sid)
  obtain created where bound: "bind_unbound_executions be (at_executions tables) (at_snapshots tables) p bindings
      = Inr (bindings @ created, created)"
    using binding_ready_binds [OF assms(15) ok pk eff cov] by (rule exE)
  have "load_and_bind be tables pid st' bindings = Inr (bindings @ created, p)"
    using st' bound by (simp add: load_and_bind_def as_build_error_def)
  then have "build_baseline env be tables sessions segments translations sid pid now st bindings = Inr (st', bindings @ created, p)"
    using assms(5,7) made cb st' [THEN conjunct1] by (simp add: build_baseline_def Let_def)
  moreover have "unbound_rows sid (at_executions tables) (at_snapshots tables) (bindings @ created) = []"
    by (rule unbound_rows_bound)
      (use assms(15) bind_unbound_Inr [OF bound] pk(4) bound_execution_ids(1) in \<open>auto simp: binding_ready_def\<close>)
  ultimately show ?thesis using valid(1) st' made by (intro exI [of _ p] exI [of _ st'] exI [of _ created]) simp
qed

subsection \<open>A small package\<close>

definition demo_env :: "(nat list \<Rightarrow> string) \<Rightarrow> package_env" where
  "demo_env sha = \<lparr>pe_repr = demo_repr, pe_sha256 = sha, pe_uuid5 = (\<lambda>s. s), pe_isoformat = (\<lambda>_. ''2026''),
     pe_urlsplit = (\<lambda>_. Inr \<lparr>up_scheme = [], up_query = [], up_username = None, up_password = None\<rparr>)\<rparr>"

definition demo_rows :: segment_table where
  "demo_rows = [demo_segment ''a'' (Some 0) (Some 900)]"

definition demo_timeline :: timeline where
  "demo_timeline = \<lparr>tln_segments = [timeline_segment_of (demo_segment ''a'' (Some 0) (Some 900)) 0 900], tln_duration_ms = 900\<rparr>"

definition demo_package :: "(nat list \<Rightarrow> string) \<Rightarrow> transcript_package" where
  "demo_package sha = baseline_package (demo_env sha) demo_session [] ''p1'' 1 7 demo_timeline []"

lemma demo_timeline_ok: "normalize_timeline (list_final demo_rows ''s1'') = Inr demo_timeline"
  by code_simp

lemma demo_languages: "target_languages_of [] = []" "ses_id demo_session = ''s1''" "ses_language demo_session = ''en''"
  by (simp_all add: target_languages_of_def demo_session_def session_create_def Let_def str_or_def)

lemma demo_urlsplit: "pe_urlsplit (demo_env sha) s = Inr \<lparr>up_scheme = [], up_query = [], up_username = None, up_password = None\<rparr>"
  by (simp add: demo_env_def)

lemma plain_string [simp]: "url_sensitive (demo_env sha) s = Inr False"
  by (simp add: url_sensitive_def demo_urlsplit)

lemma plain_opt [simp]:
  "contains_sensitive_value (demo_env sha) (v_opt VStr x) = Inr False"
  "contains_sensitive_value (demo_env sha) (v_opt VInt i) = Inr False"
  "contains_sensitive_value (demo_env sha) (v_opt VFloat q) = Inr False"
  "contains_sensitive_value (demo_env sha) (v_opt (\<lambda>t. VStr (g t)) y) = Inr False"
  by (simp_all add: v_opt_def split: option.splits)

lemma any_res_False: "(\<And>x. x \<in> set xs \<Longrightarrow> f x = Inr False) \<Longrightarrow> any_res f xs = Inr False"
  by (induction xs) auto

lemma plain_obj:
  "list_all (\<lambda>e. \<not> key_forbidden (fst e)) es \<Longrightarrow> list_all (\<lambda>e. contains_sensitive_value env (snd e) = Inr False) es
     \<Longrightarrow> contains_sensitive_value env (VObj es) = Inr False"
  by (simp add: list_all_iff any_res_False)

lemma plain_arr:
  "list_all (\<lambda>v. contains_sensitive_value env v = Inr False) xs \<Longrightarrow> contains_sensitive_value env (VArr xs) = Inr False"
  by (auto simp: list_all_iff intro: any_res_False)

lemma safe_keys [simp]:
  "\<not> key_forbidden ''asr_model''"
  "\<not> key_forbidden ''asr_provider''"
  "\<not> key_forbidden ''average_final_latency_ms''"
  "\<not> key_forbidden ''confidence''"
  "\<not> key_forbidden ''content''"
  "\<not> key_forbidden ''content_hash''"
  "\<not> key_forbidden ''created_at''"
  "\<not> key_forbidden ''document_id''"
  "\<not> key_forbidden ''document_kind''"
  "\<not> key_forbidden ''documents''"
  "\<not> key_forbidden ''duration_ms''"
  "\<not> key_forbidden ''effective_source_document_id''"
  "\<not> key_forbidden ''effective_text''"
  "\<not> key_forbidden ''end_ms''"
  "\<not> key_forbidden ''ended_at''"
  "\<not> key_forbidden ''failure_code''"
  "\<not> key_forbidden ''final_result_count''"
  "\<not> key_forbidden ''first_partial_latency_ms''"
  "\<not> key_forbidden ''frozen_at''"
  "\<not> key_forbidden ''item_id''"
  "\<not> key_forbidden ''items''"
  "\<not> key_forbidden ''language''"
  "\<not> key_forbidden ''locked''"
  "\<not> key_forbidden ''manifest''"
  "\<not> key_forbidden ''metrics_snapshot''"
  "\<not> key_forbidden ''package_id''"
  "\<not> key_forbidden ''package_version''"
  "\<not> key_forbidden ''provider_error_count''"
  "\<not> key_forbidden ''provider_snapshot''"
  "\<not> key_forbidden ''raw_text''"
  "\<not> key_forbidden ''room_name''"
  "\<not> key_forbidden ''schema_name''"
  "\<not> key_forbidden ''schema_version''"
  "\<not> key_forbidden ''sent_audio_bytes''"
  "\<not> key_forbidden ''sent_audio_chunk_count''"
  "\<not> key_forbidden ''session_id''"
  "\<not> key_forbidden ''session_snapshot''"
  "\<not> key_forbidden ''source_document_id''"
  "\<not> key_forbidden ''source_ended_at''"
  "\<not> key_forbidden ''source_language''"
  "\<not> key_forbidden ''source_revision_id''"
  "\<not> key_forbidden ''source_segment_ids''"
  "\<not> key_forbidden ''source_type''"
  "\<not> key_forbidden ''speaker''"
  "\<not> key_forbidden ''start_ms''"
  "\<not> key_forbidden ''started_at''"
  "\<not> key_forbidden ''status''"
  "\<not> key_forbidden ''stop_reason''"
  "\<not> key_forbidden ''superseded_at''"
  "\<not> key_forbidden ''target_languages''"
  "\<not> key_forbidden ''text''"
  "\<not> key_forbidden ''translation_ended_at''"
  "\<not> key_forbidden ''translation_model''"
  "\<not> key_forbidden ''translation_provider''"
  "\<not> key_forbidden ''translation_status''"
  by code_simp+

lemma demo_plain: "contains_sensitive_value (demo_env sha) (dump_package (demo_env sha) p) = Inr False"
proof -
  have body: "contains_sensitive_value (demo_env sha) (dump_body (demo_env sha) b) = Inr False" for b
    by (cases b) (auto intro!: plain_obj plain_arr simp: list_all_iff dump_transcript_item_def dump_timeline_entry_def
        dump_evidence_entry_def dump_session_snapshot_def dump_provider_snapshot_def dump_metrics_snapshot_def Let_def
        simp del: contains_sensitive_value.simps(1,2))
  have snap: "contains_sensitive_value (demo_env sha) (dump_session_snapshot (demo_env sha) s) = Inr False"
    "contains_sensitive_value (demo_env sha) (dump_provider_snapshot pv) = Inr False"
    "contains_sensitive_value (demo_env sha) (dump_metrics_snapshot m) = Inr False" for s pv m
    using body [of "Session_Metadata s"] body [of "Provider_Metadata pv"] body [of "Metrics_Metadata m"] by (simp_all del: contains_sensitive_value.simps)
  have "contains_sensitive_value (demo_env sha) (dump_document (demo_env sha) d) = Inr False"
    "contains_sensitive_value (demo_env sha) (dump_reference r) = Inr False" for d r
    by (auto intro!: plain_obj simp: dump_document_def dump_reference_def body
        simp del: contains_sensitive_value.simps(1,2))
  then have "contains_sensitive_value (demo_env sha) (dump_manifest (demo_env sha) m) = Inr False" for m
    by (auto intro!: plain_obj plain_arr simp: dump_manifest_def snap list_all_iff
        simp del: contains_sensitive_value.simps(1,2))
  then show ?thesis
    using \<open>\<And>d. contains_sensitive_value (demo_env sha) (dump_document (demo_env sha) d) = Inr False\<close>
    by (auto intro!: plain_obj plain_arr simp: dump_package_def list_all_iff
        simp del: contains_sensitive_value.simps(1,2))
qed


definition zero_sha :: "nat list \<Rightarrow> string" where
  "zero_sha bs = replicate 64 (CHR ''0'')"

lemma digest_zero [simp]: "digest_ok (replicate 64 (CHR ''0''))"
  by (simp add: digest_ok_def list_all_iff is_hex_digit_def is_digit_def)

lemma zero_hash [simp]: "document_content_hash (demo_env zero_sha) d = replicate 64 (CHR ''0'')"
  "package_content_hash (demo_env zero_sha) a b c e f g = replicate 64 (CHR ''0'')"
  by (simp_all add: document_content_hash_def package_content_hash_def canonical_sha256_def demo_env_def zero_sha_def)

lemma new_document_zero [simp]: "pd_content_hash (new_document (demo_env zero_sha) i l b) = replicate 64 (CHR ''0'')"
  by (simp add: new_document_def with_hash_def)

lemma demo_stable_id: "stable_id (demo_env sha) parts = ''matinier:'' @ py_join '':'' parts"
  by (simp add: stable_id_def demo_env_def)

lemma demo_documents:
  "set (pk_documents (demo_package sha)) = set (baseline_documents (demo_env sha) ''p1'' ''en''
     (map (source_item (demo_env sha) ''s1'') (tln_segments demo_timeline)) 900 [] ''matinier:p1:source_raw:en''
     (session_snapshot_of demo_session []) (provider_snapshot_of demo_session) (metrics_snapshot_of demo_session))"
  by (simp add: demo_package_def demo_languages demo_stable_id demo_timeline_def)

lemma demo_snapshot_ok: "session_snapshot_ok (session_snapshot_of demo_session [])"
  by (simp add: session_snapshot_ok_def session_snapshot_of_def demo_session_def session_create_def Let_def
      str_or_def language_ok_def)

lemma demo_documents_ok: "d \<in> set (pk_documents (demo_package zero_sha)) \<Longrightarrow> document_ok d"
  unfolding demo_documents
  by (auto simp: document_groups document_ok_def language_ok_def transcript_item_ok_def timeline_entry_ok_def
      evidence_entry_ok_def demo_snapshot_ok demo_timeline_def source_item_def timeline_segment_of_def
      demo_segment_def demo_stable_id)

lemma demo_package_ok: "package_ok (demo_package zero_sha)"
proof -
  have refs: "list_all reference_ok (mf_documents (pk_manifest (demo_package zero_sha)))"
  proof -
    have "mf_documents (pk_manifest (demo_package zero_sha)) = map (\<lambda>d. \<lparr>dr_document_id = pd_document_id d,
        dr_document_kind = pd_kind d, dr_language = pd_language d, dr_content_hash = pd_content_hash d\<rparr>)
        (pk_documents (demo_package zero_sha))"
      by (simp add: demo_package_def package_of_def Let_def)
    moreover have "pd_kind d \<noteq> []" for d by (cases "pd_body d") simp_all
    ultimately show ?thesis using demo_documents_ok by (auto simp: list_all_iff reference_ok_def document_ok_def)
  qed
  have "list_all document_ok (pk_documents (demo_package zero_sha))" using demo_documents_ok by (simp add: list_all_iff)
  moreover have "digest_ok (pk_content_hash (demo_package zero_sha))"
    "mf_content_hash (pk_manifest (demo_package zero_sha)) = pk_content_hash (demo_package zero_sha)"
    "mf_session_snapshot (pk_manifest (demo_package zero_sha)) = session_snapshot_of demo_session []"
    "mf_package_id (pk_manifest (demo_package zero_sha)) = ''p1''" "mf_package_version (pk_manifest (demo_package zero_sha)) = 1"
    "mf_session_id (pk_manifest (demo_package zero_sha)) = ''s1''" "mf_status (pk_manifest (demo_package zero_sha)) = ''frozen''"
    "mf_source_language (pk_manifest (demo_package zero_sha)) = ''en''"
    "mf_schema_name (pk_manifest (demo_package zero_sha)) = PACKAGE_SCHEMA"
    "mf_schema_version (pk_manifest (demo_package zero_sha)) = PACKAGE_SCHEMA_VERSION"
    by (simp_all add: demo_package_def package_of_def Let_def demo_languages)
  ultimately show ?thesis
    using refs demo_snapshot_ok
    by (simp add: package_ok_def manifest_ok_def language_ok_def demo_package_def demo_languages demo_stable_id)
qed

text \<open>One execution of the session whose snapshot cites the stored Final.\<close>

definition demo_bound_execution :: execution_record where
  "demo_bound_execution = bind_execution\<lparr>ex_session_id := ''s1''\<rparr>"

definition demo_bound_snapshot :: context_snapshot_record where
  "demo_bound_snapshot = bind_snapshot\<lparr>cs_session_id := ''s1''\<rparr>"

lemma demo_binding_ready:
  "binding_ready (bind_env ''a'') \<lparr>at_executions = [demo_bound_execution], at_snapshots = [demo_bound_snapshot]\<rparr>
      ''s1'' ''p1'' {sg_segment_id r | r. r \<in> set demo_rows \<and> sg_session_id r = ''s1''} []"
  by (auto simp: binding_ready_def bind_env_def inj_def id36_ok_def unbound_rows_def demo_bound_execution_def
      demo_bound_snapshot_def bind_execution_def bind_snapshot_def snapshot_segments_def fromkeys_def demo_rows_def
      demo_segment_def List.map_filter_def)

definition demo_store :: package_store where
  "demo_store = \<lparr>st_packages = [], st_documents = []\<rparr>"

theorem baseline_package_builds_witness:
  "\<exists>st' created. build_baseline (demo_env zero_sha) (bind_env ''a'') \<lparr>at_executions = [demo_bound_execution], at_snapshots = [demo_bound_snapshot]\<rparr>
        [demo_session] demo_rows [] ''s1'' ''p1'' 7 demo_store []
      = Inr (st', created, demo_package zero_sha)
    \<and> load_package ''p1'' st' = Inr (demo_package zero_sha)"
proof -
  have env: "digests_ok (demo_env zero_sha)" by (simp add: digests_ok_def demo_env_def zero_sha_def)
  have seg: "segment_table_inv demo_rows" by (simp add: demo_rows_def segment_table_inv_def demo_segment_def)
  have trs: "list_final_translations [] ''s1'' = []" by (simp add: list_final_translations_def)
  have asm: "assemble_baseline (demo_env zero_sha) demo_session (list_final demo_rows ''s1'')
      (list_final_translations [] ''s1'') ''p1'' (next_version demo_store ''s1'') 7 = Inr (demo_package zero_sha)"
    using demo_package_ok
    by (simp add: assemble_baseline_def demo_timeline_ok trs demo_languages next_version_def demo_store_def
        demo_package_def baseline_documents_def Let_def)
  have get: "session_get [demo_session] ''s1'' = Some demo_session" by (simp add: session_get_def demo_session_columns)
  have ses: "session_storable demo_session"
    by (simp add: session_storable_def demo_session_def session_create_def Let_def str_or_def language_ok_def)
  have rows: "list_final demo_rows ''s1'' \<noteq> []" by (simp add: demo_rows_def list_final_def demo_segment_def)
  have inj: "inj_on (\<lambda>seg. stable_id (demo_env zero_sha) [''s1'', ''source'', seg])
      {sg_segment_id r | r. r \<in> set demo_rows \<and> sg_session_id r = ''s1''}"
    by (simp add: inj_on_def demo_stable_id)
  have ids: "distinct (baseline_document_ids (demo_env zero_sha) ''p1'' (ses_language demo_session)
      (target_languages_of (list_final_translations [] ''s1'')))"
    by (simp add: baseline_document_ids_def trs demo_languages demo_stable_id)
  have empty: "store_inv demo_store" "\<forall>r \<in> set (st_packages demo_store). 1 \<le> rp_version r"
    "''p1'' \<notin> set (map rp_id (st_packages demo_store))"
    "set xs \<inter> set (map dc_id (st_documents demo_store)) = {}" for xs
    by (simp_all add: demo_store_def store_inv_def package_table_inv_def)
  have langs: "\<forall>r \<in> set (list_final_translations [] ''s1''). language_ok (ts_target_language r)" by (simp add: trs)
  have pid: "''p1'' \<noteq> []" by simp
  note built = baseline_package_builds [OF env empty(1,2) seg get ses rows langs pid empty(3) inj ids empty(4)
      demo_plain demo_binding_ready, of 7]
  then obtain p st' created where b: "build_baseline (demo_env zero_sha) (bind_env ''a'')
      \<lparr>at_executions = [demo_bound_execution], at_snapshots = [demo_bound_snapshot]\<rparr>
        [demo_session] demo_rows [] ''s1'' ''p1'' 7 demo_store [] = Inr (st', created, p)"
    "load_package ''p1'' st' = Inr p" "p = demo_package zero_sha"
    unfolding asm by auto
  then show ?thesis by blast
qed

text \<open>
  C27. Packages are tamper-evident: if two packages pass validation and carry the same content
  hash, then, unless SHA-256 collides on one of the byte strings hashed for them, they agree
  on schema, version, session and source revision, and their documents (in canonical order)
  have pairwise the same kind, language and content.
\<close>

theorem package_hash_pins_content:
  assumes repr: "float_repr (pe_repr env)"
    and free: "inj_on (pe_sha256 env) (hashed_inputs env p \<union> hashed_inputs env q)"
    and valid: "validate_package env p = Inr []" "validate_package env q = Inr []"
    and same: "pk_content_hash p = pk_content_hash q"
  shows "pk_schema_version p = pk_schema_version q \<and> pk_package_version p = pk_package_version q
    \<and> pk_session_id p = pk_session_id q \<and> pk_source_revision_id p = pk_source_revision_id q
    \<and> list_all2 (\<lambda>a b. pd_kind a = pd_kind b \<and> pd_language a = pd_language b
          \<and> same_json (dump_body env (pd_body a)) (dump_body env (pd_body b)))
        (sort_key document_identity (pk_documents p)) (sort_key document_identity (pk_documents q))"
proof -
  let ?P = "package_content_json (pk_schema_name p) (pk_schema_version p) (pk_package_version p)
      (pk_session_id p) (pk_source_revision_id p) (pk_documents p)"
  let ?Q = "package_content_json (pk_schema_name q) (pk_schema_version q) (pk_package_version q)
      (pk_session_id q) (pk_source_revision_id q) (pk_documents q)"
  have "canonical_json (pe_repr env) ?P = canonical_json (pe_repr env) ?Q"
    by (rule hashed_collision_free [OF free])
      (simp_all add: hashed_inputs_def valid_hashes(2) [OF valid(1)] valid_hashes(2) [OF valid(2)] same)
  note idx = package_json_inj [OF this [unfolded canonical_json_eq [OF repr]]]
  have doc: "sort_keys (dump_body env (pd_body a)) = sort_keys (dump_body env (pd_body b))"
    if "a \<in> set (pk_documents p)" "b \<in> set (pk_documents q)" "pd_content_hash a = pd_content_hash b" for a b
  proof -
    have "canonical_json (pe_repr env) (document_content_json env a) = canonical_json (pe_repr env) (document_content_json env b)"
      by (rule hashed_collision_free [OF free])
        (use that in \<open>simp_all add: hashed_inputs_def valid_hashes(1) [OF valid(1)] valid_hashes(1) [OF valid(2)]\<close>)
    then show ?thesis by (simp add: canonical_json_eq [OF repr] document_json_inj)
  qed
  have "list_all2 (\<lambda>a b. pd_kind a = pd_kind b \<and> pd_language a = pd_language b
        \<and> same_json (dump_body env (pd_body a)) (dump_body env (pd_body b)))
      (sort_key document_identity (pk_documents p)) (sort_key document_identity (pk_documents q))"
    using idx [THEN conjunct2, THEN conjunct2, THEN conjunct2, THEN conjunct2, THEN conjunct2]
    by (rule list.rel_mono_strong)
      (use doc in \<open>simp add: same_json_sort_keys [OF jwf_dump_body jwf_dump_body]\<close>)
  with idx show ?thesis by simp
qed

text \<open>An injective stand-in for the hash, and two packages that differ in their creation time.\<close>

definition long_sha :: "nat list \<Rightarrow> string" where
  "long_sha bs = concat (map (\<lambda>b. replicate b (CHR ''a'') @ ''b'') bs)"

lemma long_sha_inj: "inj long_sha"
proof (rule injI)
  fix xs ys show "long_sha xs = long_sha ys \<Longrightarrow> xs = ys"
  proof (induction xs arbitrary: ys)
    case Nil
    then show ?case by (cases ys) (auto simp: long_sha_def)
  next
    case (Cons x xs)
    then obtain y zs where ys: "ys = y # zs" by (cases ys) (auto simp: long_sha_def)
    have "replicate x (CHR ''a'') @ CHR ''b'' # long_sha xs = replicate y (CHR ''a'') @ CHR ''b'' # long_sha zs"
      using Cons.prems by (simp add: ys long_sha_def)
    from split_at_mark [OF this] have "replicate x (CHR ''a'') = replicate y (CHR ''a'')" "long_sha xs = long_sha zs" by auto
    with Cons.IH ys show ?case by (metis length_replicate)
  qed
qed

definition demo_later :: transcript_package where
  "demo_later = baseline_package (demo_env long_sha) demo_session [] ''p1'' 1 99 demo_timeline []"

theorem package_hash_pins_content_witness:
  "demo_later \<noteq> demo_package long_sha
   \<and> list_all2 (\<lambda>a b. pd_kind a = pd_kind b \<and> pd_language a = pd_language b
          \<and> same_json (dump_body (demo_env long_sha) (pd_body a)) (dump_body (demo_env long_sha) (pd_body b)))
        (sort_key document_identity (pk_documents (demo_package long_sha))) (sort_key document_identity (pk_documents demo_later))"
proof -
  let ?env = "demo_env long_sha"
  have repr: "float_repr (pe_repr ?env)" by (simp add: demo_env_def demo_repr_ok)
  have free: "inj_on (pe_sha256 ?env) A" for A
    using long_sha_inj by (auto simp: demo_env_def inj_on_def inj_def)
  have tln: "normalize_timeline (list_final demo_rows ''s1'') = Inr demo_timeline" by (rule demo_timeline_ok)
  have ds: "translation_documents ?env ''p1'' (ses_id demo_session) [] (target_languages_of []) = Inr []"
    by (simp add: demo_languages)
  have dist: "distinct (map sg_segment_id (list_final demo_rows ''s1''))"
    by (simp add: list_final_def demo_rows_def demo_segment_def)
  have inj: "inj_on (\<lambda>seg. stable_id ?env [ses_id demo_session, ''source'', seg]) A" for A
    by (simp add: inj_on_def demo_stable_id demo_languages)
  have plain: "contains_sensitive_value ?env (dump_package ?env p) = Inr False" for p by (rule demo_plain)
  have "validate_package ?env (demo_package long_sha) = Inr []" "validate_package ?env demo_later = Inr []"
    by (rule baseline_package_valid(1) [OF tln ds _ dist inj plain], simp add: demo_package_def demo_later_def)+
  moreover have "pk_content_hash (demo_package long_sha) = pk_content_hash demo_later"
    by (simp add: demo_package_def demo_later_def package_of_def Let_def)
  ultimately show ?thesis
    using package_hash_pins_content [OF repr free, of "demo_package long_sha" demo_later]
    by (simp add: demo_package_def demo_later_def package_of_def Let_def)
qed

end
