(* ===== verification/Revisions.thy ===== *)
theory Revisions
  imports Package_Repository
begin

section \<open>Transcript revisions\<close>

text \<open>
  Models \<open>revisions/models.py\<close>, \<open>revisions/repository.py\<close> and \<open>revisions/service.py\<close>: the editable
  versions of a package's transcript, their validation and their approval. The row and the
  Pydantic model have the same fields, so both are \<open>transcript_revision\<close>. \<open>str(uuid.UUID(value))\<close>,
  which normalizes an identifier or raises, is the argument \<open>uuid\<close>.
\<close>

record revision_item =
  ri_item_id :: string
  ri_source_segment_ids :: "string list"
  ri_start_ms :: int
  ri_end_ms :: int
  ri_text :: string

record transcript_revision =
  rv_revision_id :: string
  rv_session_id :: string
  rv_version :: int
  rv_parent_revision_id :: "string option"
  rv_base_package_id :: string
  rv_language :: string
  rv_items :: "revision_item list"
  rv_content_hash :: string
  rv_change_summary :: "string option"
  rv_status :: string
  rv_created_at :: instant
  rv_approved_at :: "instant option"

type_synonym revision_table = "transcript_revision list"

subsection \<open>Validation\<close>

definition revision_item_ok :: "revision_item \<Rightarrow> bool" where
  "revision_item_ok i \<longleftrightarrow> ri_item_id i \<noteq> [] \<and> ri_source_segment_ids i \<noteq> []
     \<and> 0 \<le> ri_start_ms i \<and> 0 \<le> ri_end_ms i \<and> ri_text i \<noteq> [] \<and> py_strip (ri_text i) \<noteq> []
     \<and> list_all (\<lambda>s. py_strip s \<noteq> []) (ri_source_segment_ids i) \<and> distinct (ri_source_segment_ids i)
     \<and> ri_start_ms i \<le> ri_end_ms i"

fun validate_revision_items :: "(string \<Rightarrow> string res) \<Rightarrow> revision_item list \<Rightarrow> revision_item list res" where
  "validate_revision_items uuid [] = Inr []"
| "validate_revision_items uuid (i # items) =
     (case uuid (ri_item_id i) of
        Inl _ \<Rightarrow> Inl (ValueError ''revision item ID must be a UUID'')
      | Inr u \<Rightarrow>
          (if revision_item_ok i
           then rbind (validate_revision_items uuid items) (\<lambda>rest. Inr (i\<lparr>ri_item_id := u\<rparr> # rest))
           else Inl (ValueError ''validation error for RevisionItem'')))"

abbreviation revision_item_time :: "revision_item \<Rightarrow> int \<times> int" where
  "revision_item_time i \<equiv> (ri_start_ms i, ri_end_ms i)"

definition revision_content :: "(string \<Rightarrow> string res) \<Rightarrow> revision_item list \<Rightarrow> revision_item list res" where
  "revision_content uuid raw =
     (if raw = [] then Inl (ValueError ''List should have at least 1 item'')
      else rbind (validate_revision_items uuid raw) (\<lambda>items.
        if \<not> distinct (map ri_item_id items) then Inl (ValueError ''revision item IDs must be unique'')
        else if items \<noteq> sort_key revision_item_time items
             then Inl (ValueError ''revision items must be sorted by time'')
        else Inr items))"

definition revision_ok :: "transcript_revision \<Rightarrow> bool" where
  "revision_ok r \<longleftrightarrow> rv_revision_id r \<noteq> [] \<and> rv_session_id r \<noteq> [] \<and> 1 \<le> rv_version r \<and> rv_base_package_id r \<noteq> []
     \<and> language_ok (rv_language r) \<and> digest_ok (rv_content_hash r)
     \<and> rv_status r \<in> {''saved'', ''approved'', ''superseded''}"

definition revision_to_domain :: "(string \<Rightarrow> string res) \<Rightarrow> transcript_revision \<Rightarrow> transcript_revision res" where
  "revision_to_domain uuid r = rbind (revision_content uuid (rv_items r)) (\<lambda>items.
     if revision_ok r then Inr (r\<lparr>rv_items := items\<rparr>) else Inl (ValueError ''validation error for TranscriptRevision''))"

subsection \<open>\<open>RevisionRepository\<close>\<close>

definition revision_next_version :: "revision_table \<Rightarrow> string \<Rightarrow> string \<Rightarrow> int" where
  "revision_next_version rows session_id language =
     (let versions = map rv_version (filter (\<lambda>r. rv_session_id r = session_id \<and> rv_language r = language) rows)
      in (if versions = [] then 0 else Max (set versions)) + 1)"

record revision_args =
  ra_session_id :: string
  ra_parent_revision_id :: "string option"
  ra_base_package_id :: string
  ra_language :: string
  ra_items :: "revision_item list"
  ra_content_hash :: string
  ra_change_summary :: "string option"

definition new_revision :: "revision_table \<Rightarrow> string \<Rightarrow> instant \<Rightarrow> revision_args \<Rightarrow> transcript_revision" where
  "new_revision rows new_id now a =
     \<lparr>rv_revision_id = new_id, rv_session_id = ra_session_id a,
      rv_version = revision_next_version rows (ra_session_id a) (ra_language a),
      rv_parent_revision_id = ra_parent_revision_id a, rv_base_package_id = ra_base_package_id a,
      rv_language = ra_language a, rv_items = ra_items a, rv_content_hash = ra_content_hash a,
      rv_change_summary = ra_change_summary a, rv_status = ''saved'', rv_created_at = now, rv_approved_at = None\<rparr>"

abbreviation revision_key :: "transcript_revision \<Rightarrow> string \<times> string \<times> int" where
  "revision_key r \<equiv> (rv_session_id r, rv_language r, rv_version r)"

definition revision_create ::
  "(string \<Rightarrow> string res) \<Rightarrow> string \<Rightarrow> instant \<Rightarrow> revision_args \<Rightarrow> revision_table
   \<Rightarrow> (revision_table \<times> transcript_revision) res" where
  "revision_create uuid new_id now a rows =
     (let r = new_revision rows new_id now a
      in if new_id \<in> set (map rv_revision_id rows) \<or> revision_key r \<in> set (map revision_key rows)
         then Inl (RuntimeError ''IntegrityError'')
         else rbind (revision_to_domain uuid r) (\<lambda>d. Inr (rows @ [r], d)))"

definition revision_get_record :: "string \<Rightarrow> revision_table \<Rightarrow> transcript_revision option" where
  "revision_get_record revision_id rows = find_row (\<lambda>r. rv_revision_id r = revision_id) rows"

definition revision_get ::
  "(string \<Rightarrow> string res) \<Rightarrow> string \<Rightarrow> revision_table \<Rightarrow> transcript_revision option res" where
  "revision_get uuid revision_id rows =
     (case revision_get_record revision_id rows of
        None \<Rightarrow> Inr None | Some r \<Rightarrow> rbind (revision_to_domain uuid r) (\<lambda>d. Inr (Some d)))"

fun all_to_domain :: "(string \<Rightarrow> string res) \<Rightarrow> revision_table \<Rightarrow> transcript_revision list res" where
  "all_to_domain uuid [] = Inr []"
| "all_to_domain uuid (r # rs) =
     rbind (revision_to_domain uuid r) (\<lambda>d. rbind (all_to_domain uuid rs) (\<lambda>ds. Inr (d # ds)))"

definition revision_list_for_session ::
  "(string \<Rightarrow> string res) \<Rightarrow> string \<Rightarrow> revision_table \<Rightarrow> transcript_revision list res" where
  "revision_list_for_session uuid session_id rows =
     all_to_domain uuid (rev (sort_key (\<lambda>r. (rv_version r, rv_revision_id r))
       (filter (\<lambda>r. rv_session_id r = session_id) rows)))"

definition approve_rows :: "transcript_revision \<Rightarrow> instant \<Rightarrow> revision_table \<Rightarrow> revision_table" where
  "approve_rows target timestamp rows = map (\<lambda>r.
     if rv_revision_id r = rv_revision_id target then r\<lparr>rv_status := ''approved'', rv_approved_at := Some timestamp\<rparr>
     else if rv_session_id r = rv_session_id target \<and> rv_language r = rv_language target \<and> rv_status r = ''approved''
          then r\<lparr>rv_status := ''superseded''\<rparr>
     else r) rows"

definition revision_approve ::
  "(string \<Rightarrow> string res) \<Rightarrow> string \<Rightarrow> instant \<Rightarrow> revision_table \<Rightarrow> (revision_table \<times> transcript_revision) res" where
  "revision_approve uuid revision_id timestamp rows =
     (case revision_get_record revision_id rows of
        None \<Rightarrow> Inl (LookupError (''Revision not found: '' @ revision_id))
      | Some target \<Rightarrow>
          if rv_status target = ''superseded'' then Inl (ValueError ''a superseded revision cannot be approved'')
          else if rv_status target = ''approved'' then rbind (revision_to_domain uuid target) (\<lambda>d. Inr (rows, d))
          else rbind (revision_to_domain uuid (target\<lparr>rv_status := ''approved'', rv_approved_at := Some timestamp\<rparr>))
                 (\<lambda>d. Inr (approve_rows target timestamp rows, d)))"

subsection \<open>\<open>RevisionService\<close>\<close>

definition dump_revision_item :: "revision_item \<Rightarrow> jvalue" where
  "dump_revision_item i = VObj [
     (''item_id'', VStr (ri_item_id i)), (''source_segment_ids'', v_strs (ri_source_segment_ids i)),
     (''start_ms'', VInt (ri_start_ms i)), (''end_ms'', VInt (ri_end_ms i)), (''text'', VStr (ri_text i))]"

definition revision_content_hash :: "package_env \<Rightarrow> string \<Rightarrow> revision_item list \<Rightarrow> string" where
  "revision_content_hash env language items = canonical_sha256 (pe_repr env) (pe_sha256 env)
     (VObj [(''language'', VStr language), (''content'', VObj [(''items'', VArr (map dump_revision_item items))])])"

definition revision_effective_source :: "transcript_package \<Rightarrow> package_document res" where
  "revision_effective_source p =
     (case List.find (\<lambda>d. pd_document_id d = mf_effective_source_document_id (pk_manifest p)
          \<and> (is_source_raw (pd_body d) \<or> is_source_approved (pd_body d))) (pk_documents p) of
        Some d \<Rightarrow> Inr d | None \<Rightarrow> Inl (RevisionError ''Package effective source document is missing''))"

definition raw_source :: "transcript_package \<Rightarrow> package_document res" where
  "raw_source p = (case List.find (\<lambda>d. is_source_raw (pd_body d)) (pk_documents p) of
     Some d \<Rightarrow> Inr d | None \<Rightarrow> Inl (RevisionError ''Package raw source document is missing''))"

definition item_segments :: "transcript_item list \<Rightarrow> string set" where
  "item_segments items = set (concat (map ti_source_segment_ids items))"

definition revision_segments :: "revision_item list \<Rightarrow> string set" where
  "revision_segments items = set (concat (map ri_source_segment_ids items))"

definition validate_against_package :: "revision_item list \<Rightarrow> transcript_package \<Rightarrow> unit res" where
  "validate_against_package items p = rbind (raw_source p) (\<lambda>raw.
     let expected = item_segments (transcript_items (pd_body raw)); actual = revision_segments items
     in if \<not> actual \<subseteq> expected then Inl (RevisionError ''Revision contains foreign source segment IDs'')
        else if \<not> expected \<subseteq> actual then Inl (RevisionError ''Revision dropped source segment IDs'')
        else Inr ())"

definition revision_item_of :: "transcript_item \<Rightarrow> revision_item" where
  "revision_item_of i = \<lparr>ri_item_id = ti_item_id i, ri_source_segment_ids = ti_source_segment_ids i,
     ri_start_ms = ti_start_ms i, ri_end_ms = ti_end_ms i, ri_text = ti_text i\<rparr>"

definition create_from_package ::
  "package_env \<Rightarrow> (string \<Rightarrow> string res) \<Rightarrow> package_store \<Rightarrow> string \<Rightarrow> string option \<Rightarrow> string \<Rightarrow> instant
   \<Rightarrow> revision_table \<Rightarrow> (revision_table \<times> transcript_revision) res" where
  "create_from_package env uuid st package_id change_summary new_id now rows =
     rbind (load_package package_id st) (\<lambda>p.
       if pk_status p \<notin> {''frozen'', ''superseded''} then Inl (RevisionError ''Revision requires a frozen Package'')
       else rbind (revision_effective_source p) (\<lambda>source.
         if transcript_items (pd_body source) = [] then Inl (RevisionError ''Package effective source has no items'')
         else rbind (revision_content uuid (map revision_item_of (transcript_items (pd_body source)))) (\<lambda>items.
           rbind (validate_against_package items p) (\<lambda>_.
             let language = or_else (pd_language source) [] in
             revision_create uuid new_id now
               \<lparr>ra_session_id = pk_session_id p, ra_parent_revision_id = None, ra_base_package_id = pk_package_id p,
                ra_language = language, ra_items = items, ra_content_hash = revision_content_hash env language items,
                ra_change_summary = Some (str_or change_summary ''Created from Package effective source'')\<rparr> rows))))"

definition create_version ::
  "package_env \<Rightarrow> (string \<Rightarrow> string res) \<Rightarrow> package_store \<Rightarrow> string \<Rightarrow> revision_item list \<Rightarrow> string option
   \<Rightarrow> string \<Rightarrow> instant \<Rightarrow> revision_table \<Rightarrow> (revision_table \<times> transcript_revision) res" where
  "create_version env uuid st parent_revision_id items change_summary new_id now rows =
     rbind (revision_get uuid parent_revision_id rows) (\<lambda>found.
       case found of None \<Rightarrow> Inl (LookupError (''Revision not found: '' @ parent_revision_id))
       | Some parent \<Rightarrow>
           rbind (load_package (rv_base_package_id parent) st) (\<lambda>p.
           rbind (validate_against_package items p) (\<lambda>_.
             revision_create uuid new_id now
               \<lparr>ra_session_id = rv_session_id parent, ra_parent_revision_id = Some (rv_revision_id parent),
                ra_base_package_id = rv_base_package_id parent, ra_language = rv_language parent, ra_items = items,
                ra_content_hash = revision_content_hash env (rv_language parent) items,
                ra_change_summary = change_summary\<rparr> rows)))"

definition approve_revision ::
  "(string \<Rightarrow> string res) \<Rightarrow> string \<Rightarrow> instant \<Rightarrow> revision_table \<Rightarrow> (revision_table \<times> transcript_revision) res" where
  "approve_revision uuid revision_id now rows = revision_approve uuid revision_id now rows"

subsection \<open>Histories of revisions\<close>

text \<open>What any caller may do with the service, with any state of the packages.\<close>

inductive revision_step :: "package_env \<Rightarrow> (string \<Rightarrow> string res) \<Rightarrow> revision_table \<Rightarrow> revision_table \<Rightarrow> bool"
  for env uuid where
  from_package: "create_from_package env uuid st package_id change_summary new_id now rows = Inr (rows', d)
     \<Longrightarrow> revision_step env uuid rows rows'"
| version: "revision_content uuid raw = Inr items \<Longrightarrow>
     create_version env uuid st parent items change_summary new_id now rows = Inr (rows', d)
     \<Longrightarrow> revision_step env uuid rows rows'"
| approve: "approve_revision uuid revision_id now rows = Inr (rows', d) \<Longrightarrow> revision_step env uuid rows rows'"

definition uuid_law :: "(string \<Rightarrow> string res) \<Rightarrow> bool" where
  "uuid_law uuid \<longleftrightarrow> (\<forall>x u. uuid x = Inr u \<longrightarrow> u \<noteq> [] \<and> uuid u = Inr u)"

text \<open>The lineage of a revision: its parent is an older version of the same transcript.\<close>

definition parent_ok :: "revision_table \<Rightarrow> transcript_revision \<Rightarrow> bool" where
  "parent_ok rows r \<longleftrightarrow> (\<forall>q. rv_parent_revision_id r = Some q \<longrightarrow> (\<exists>p \<in> set rows. rv_revision_id p = q
     \<and> rv_session_id p = rv_session_id r \<and> rv_language p = rv_language r
     \<and> rv_base_package_id p = rv_base_package_id r \<and> rv_version p < rv_version r))"

definition revision_row_ok :: "package_env \<Rightarrow> (string \<Rightarrow> string res) \<Rightarrow> transcript_revision \<Rightarrow> bool" where
  "revision_row_ok env uuid r \<longleftrightarrow> revision_ok r \<and> revision_content uuid (rv_items r) = Inr (rv_items r)
     \<and> rv_content_hash r = revision_content_hash env (rv_language r) (rv_items r)"

abbreviation transcript_of :: "transcript_revision \<Rightarrow> string \<times> string" where
  "transcript_of r \<equiv> (rv_session_id r, rv_language r)"

definition revision_table_inv :: "package_env \<Rightarrow> (string \<Rightarrow> string res) \<Rightarrow> revision_table \<Rightarrow> bool" where
  "revision_table_inv env uuid rows \<longleftrightarrow> distinct (map rv_revision_id rows) \<and> distinct (map revision_key rows)
     \<and> (\<forall>t. length (filter (\<lambda>r. transcript_of r = t \<and> rv_status r = ''approved'') rows) \<le> 1)
     \<and> (\<forall>r \<in> set rows. revision_row_ok env uuid r \<and> parent_ok rows r)"

text \<open>How a stored revision may change: only its status, and only forward.\<close>

definition revision_rank :: "string \<Rightarrow> nat" where
  "revision_rank s = (if s = ''saved'' then 0 else if s = ''approved'' then 1 else 2)"

definition revision_body :: "transcript_revision \<Rightarrow> transcript_revision" where
  "revision_body r = r\<lparr>rv_status := [], rv_approved_at := None\<rparr>"

definition revision_later :: "transcript_revision \<Rightarrow> transcript_revision \<Rightarrow> bool" where
  "revision_later r r' \<longleftrightarrow> revision_body r' = revision_body r
     \<and> revision_rank (rv_status r) \<le> revision_rank (rv_status r')
     \<and> (revision_rank (rv_status r) = revision_rank (rv_status r') \<longrightarrow> r' = r)"

lemma validate_revision_items_idem:
  assumes "uuid_law uuid"
  shows "validate_revision_items uuid raw = Inr items \<Longrightarrow> validate_revision_items uuid items = Inr items
    \<and> list_all revision_item_ok items \<and> length items = length raw"
proof (induction raw arbitrary: items)
  case (Cons i raw)
  then obtain u rest where "uuid (ri_item_id i) = Inr u" "revision_item_ok i" "validate_revision_items uuid raw = Inr rest"
    "items = i\<lparr>ri_item_id := u\<rparr> # rest"
    by (auto simp: rbind_eq_Inr split: sum.splits if_splits)
  then show ?case using Cons.IH assms by (auto simp: uuid_law_def revision_item_ok_def)
qed simp

lemma revision_content_idem:
  assumes "uuid_law uuid" "revision_content uuid raw = Inr items"
  shows "revision_content uuid items = Inr items"
  using assms(2) validate_revision_items_idem [OF assms(1), of raw]
  by (auto simp: revision_content_def rbind_eq_Inr split: if_splits)

lemma revision_to_domain_Inr:
  assumes "revision_content uuid (rv_items r) = Inr (rv_items r)"
  shows "revision_to_domain uuid r = Inr d \<longleftrightarrow> revision_ok r \<and> d = r"
  using assms by (auto simp: revision_to_domain_def)

lemma revision_later_refl [simp]: "revision_later r r"
  by (simp add: revision_later_def)

lemma revision_later_trans: "revision_later a b \<Longrightarrow> revision_later b c \<Longrightarrow> revision_later a c"
  unfolding revision_later_def by (metis order.trans order.antisym)

lemma revision_body_fields:
  assumes "revision_body r' = revision_body r"
  shows "rv_revision_id r' = rv_revision_id r" "rv_session_id r' = rv_session_id r" "rv_version r' = rv_version r"
    "rv_parent_revision_id r' = rv_parent_revision_id r" "rv_base_package_id r' = rv_base_package_id r"
    "rv_language r' = rv_language r" "rv_items r' = rv_items r" "rv_content_hash r' = rv_content_hash r"
proof -
  note eq = assms [unfolded revision_body_def]
  show "rv_revision_id r' = rv_revision_id r" "rv_session_id r' = rv_session_id r" "rv_version r' = rv_version r"
    "rv_parent_revision_id r' = rv_parent_revision_id r" "rv_base_package_id r' = rv_base_package_id r"
    "rv_language r' = rv_language r" "rv_items r' = rv_items r" "rv_content_hash r' = rv_content_hash r"
    using arg_cong [OF eq, of rv_revision_id] arg_cong [OF eq, of rv_session_id] arg_cong [OF eq, of rv_version]
      arg_cong [OF eq, of rv_parent_revision_id] arg_cong [OF eq, of rv_base_package_id] arg_cong [OF eq, of rv_language]
      arg_cong [OF eq, of rv_items] arg_cong [OF eq, of rv_content_hash] by simp_all
qed

lemma parent_ok_map:
  assumes body: "\<And>r. revision_body (g r) = revision_body r" and "parent_ok rows r"
  shows "parent_ok (map g rows) (g r)"
proof -
  note fields = revision_body_fields [OF body]
  show ?thesis using assms(2) unfolding parent_ok_def fields by (auto simp: fields Bex_def)
qed

subsubsection \<open>Creation\<close>

lemma revision_next_version_fresh:
  assumes "r \<in> set rows" "rv_session_id r = s" "rv_language r = l"
  shows "rv_version r < revision_next_version rows s l"
proof -
  let ?vs = "map rv_version (filter (\<lambda>r. rv_session_id r = s \<and> rv_language r = l) rows)"
  have mem: "rv_version r \<in> set ?vs" using assms by auto
  then have "rv_version r \<le> Max (set ?vs)" by simp
  moreover have "?vs \<noteq> []" using mem by (metis empty_iff empty_set)
  ultimately show ?thesis by (simp add: revision_next_version_def Let_def)
qed

lemma revision_create_inv:
  assumes inv: "revision_table_inv env uuid rows"
    and cr: "revision_create uuid new_id now a rows = Inr (rows', d)"
    and items: "revision_content uuid (ra_items a) = Inr (ra_items a)"
    and hash: "ra_content_hash a = revision_content_hash env (ra_language a) (ra_items a)"
    and parent: "\<And>q. ra_parent_revision_id a = Some q \<Longrightarrow> \<exists>p \<in> set rows. rv_revision_id p = q
      \<and> rv_session_id p = ra_session_id a \<and> rv_language p = ra_language a \<and> rv_base_package_id p = ra_base_package_id a"
  shows "revision_table_inv env uuid rows' \<and> (\<exists>r. rows' = rows @ [r] \<and> d = r)"
proof -
  let ?r = "new_revision rows new_id now a"
  have it: "revision_content uuid (rv_items ?r) = Inr (rv_items ?r)" using items by (simp add: new_revision_def)
  have new: "new_id \<notin> set (map rv_revision_id rows)" "revision_key ?r \<notin> set (map revision_key rows)" "revision_ok ?r"
    "rows' = rows @ [?r]" "d = ?r"
    using cr revision_to_domain_Inr [OF it] by (auto simp: revision_create_def Let_def rbind_eq_Inr split: if_splits)
  have "revision_row_ok env uuid ?r" using new(3) it hash by (simp add: revision_row_ok_def new_revision_def)
  moreover have "parent_ok rows' ?r"
    using parent revision_next_version_fresh [of _ rows "ra_session_id a" "ra_language a"]
    by (fastforce simp: parent_ok_def new_revision_def new(4))
  moreover have "parent_ok rows' x" if "x \<in> set rows" for x
    using inv that by (fastforce simp: revision_table_inv_def parent_ok_def new(4))
  moreover have "rv_status ?r \<noteq> ''approved''" "rv_revision_id ?r = new_id" by (simp_all add: new_revision_def)
  ultimately have "revision_table_inv env uuid rows'"
    using inv new by (auto simp: revision_table_inv_def)
  with new show ?thesis by blast
qed

lemma from_package_inv:
  assumes "uuid_law uuid" "revision_table_inv env uuid rows"
    and "create_from_package env uuid st pid cs new_id now rows = Inr (rows', d)"
  shows "revision_table_inv env uuid rows' \<and> (\<exists>r. rows' = rows @ [r])"
proof -
  obtain p :: transcript_package and source :: package_document and items
    where "revision_content uuid (map revision_item_of (transcript_items (pd_body source))) = Inr items"
    "revision_create uuid new_id now
       \<lparr>ra_session_id = pk_session_id p, ra_parent_revision_id = None, ra_base_package_id = pk_package_id p,
        ra_language = or_else (pd_language source) [], ra_items = items,
        ra_content_hash = revision_content_hash env (or_else (pd_language source) []) items,
        ra_change_summary = Some (str_or cs ''Created from Package effective source'')\<rparr> rows = Inr (rows', d)"
    using assms(3) by (auto simp: create_from_package_def rbind_eq_Inr Let_def split: if_splits)
  from revision_create_inv [OF assms(2) this(2)] revision_content_idem [OF assms(1) this(1)] show ?thesis by auto
qed

lemma version_inv:
  assumes "uuid_law uuid" "revision_table_inv env uuid rows" "revision_content uuid raw = Inr items"
    and "create_version env uuid st parent items cs new_id now rows = Inr (rows', d)"
  shows "revision_table_inv env uuid rows' \<and> (\<exists>r. rows' = rows @ [r])"
proof -
  from assms(4) obtain q :: transcript_revision where q: "revision_get uuid parent rows = Inr (Some q)"
    "revision_create uuid new_id now
       \<lparr>ra_session_id = rv_session_id q, ra_parent_revision_id = Some (rv_revision_id q),
        ra_base_package_id = rv_base_package_id q, ra_language = rv_language q, ra_items = items,
        ra_content_hash = revision_content_hash env (rv_language q) items, ra_change_summary = cs\<rparr> rows = Inr (rows', d)"
    by (auto simp: create_version_def rbind_eq_Inr split: option.splits)
  from q(1) obtain r where r: "r \<in> set rows" "revision_to_domain uuid r = Inr q"
    by (auto simp: revision_get_def revision_get_record_def rbind_eq_Inr dest: find_row_Some split: option.splits)
  then have "q = r" using assms(2) revision_to_domain_Inr [of uuid r q] by (simp add: revision_table_inv_def revision_row_ok_def)
  with revision_create_inv [OF assms(2) q(2)] revision_content_idem [OF assms(1,3)] r(1) show ?thesis by auto
qed

subsubsection \<open>Approval\<close>

lemma list_all2_memberD: "list_all2 P xs ys \<Longrightarrow> x \<in> set xs \<Longrightarrow> \<exists>y \<in> set ys. P x y"
  by (induction rule: list_all2_induct) auto

lemma only_member: "length xs \<le> 1 \<Longrightarrow> x \<in> set xs \<Longrightarrow> xs = [x]"
  by (cases xs) auto

lemma approve_inv:
  assumes inv: "revision_table_inv env uuid rows" and ap: "revision_approve uuid rid now rows = Inr (rows', d)"
  shows "revision_table_inv env uuid rows' \<and> list_all2 revision_later rows rows'
    \<and> filter (\<lambda>r. transcript_of r = transcript_of d \<and> rv_status r = ''approved'') rows' = [d] \<and> rv_revision_id d = rid"
proof -
  obtain target where target: "target \<in> set rows" "rv_revision_id target = rid" "revision_get_record rid rows = Some target"
    using ap by (auto simp: revision_approve_def revision_get_record_def split: option.splits dest: find_row_Some)
  have keys: "distinct (map rv_revision_id rows)"
    and one: "\<And>t. length (filter (\<lambda>r. transcript_of r = t \<and> rv_status r = ''approved'') rows) \<le> 1"
    and ok: "revision_row_ok env uuid target"
    using inv target by (auto simp: revision_table_inv_def)
  have dom: "revision_to_domain uuid (target\<lparr>rv_status := s, rv_approved_at := t\<rparr>) = Inr x \<Longrightarrow>
      x = target\<lparr>rv_status := s, rv_approved_at := t\<rparr>" for s t x
    using ok revision_to_domain_Inr [of uuid "target\<lparr>rv_status := s, rv_approved_at := t\<rparr>" x] by (simp add: revision_row_ok_def)
  show ?thesis
  proof (cases "rv_status target = ''approved''")
    case True
    then have same: "rows' = rows" "d = target"
      using ap target(3) ok revision_to_domain_Inr [of uuid target d]
      by (auto simp: revision_approve_def rbind_eq_Inr revision_row_ok_def)
    have "target \<in> set (filter (\<lambda>r. transcript_of r = transcript_of target \<and> rv_status r = ''approved'') rows)"
      using target(1) True by simp
    from only_member [OF one this]
    have "filter (\<lambda>r. transcript_of r = transcript_of target \<and> rv_status r = ''approved'') rows = [target]" .
    with same inv target(2) show ?thesis by (simp add: list_all2_refl)
  next
    case False
    let ?g = "\<lambda>r. if rv_revision_id r = rv_revision_id target then r\<lparr>rv_status := ''approved'', rv_approved_at := Some now\<rparr>
       else if rv_session_id r = rv_session_id target \<and> rv_language r = rv_language target \<and> rv_status r = ''approved''
            then r\<lparr>rv_status := ''superseded''\<rparr> else r"
    from False ap target(3) dom have saved: "rv_status target \<noteq> ''superseded''" and rows': "rows' = map ?g rows"
      and d: "d = ?g target"
      by (auto simp: revision_approve_def rbind_eq_Inr approve_rows_def split: if_splits)
    have self: "r = target" if "r \<in> set rows" "rv_revision_id r = rv_revision_id target" for r
      using keys that target(1) by (auto simp: distinct_map inj_on_def)
    have body: "revision_body (?g r) = revision_body r" for r by (simp add: revision_body_def)
    note fields = revision_body_fields [OF body]
    have grp: "transcript_of (?g r) = transcript_of r" for r using fields(2,6) [of r] by simp
    have cur: "rv_status (?g r) = ''approved'' \<longleftrightarrow> rv_revision_id r = rv_revision_id target
        \<or> transcript_of r \<noteq> transcript_of target \<and> rv_status r = ''approved''" for r by auto
    note current = switch_current [where key = rv_revision_id and grp = transcript_of
        and cur = "\<lambda>r. rv_status r = ''approved''" and g = ?g, OF keys target(1) grp cur one]
    have tstat: "rv_status target = ''saved''"
      using ok saved False by (auto simp: revision_row_ok_def revision_ok_def)
    have later: "revision_later r (?g r)" if "r \<in> set rows" for r
    proof (cases "rv_revision_id r = rv_revision_id target")
      case True
      then have "rv_status r = ''saved''" using self [OF that] tstat by simp
      with True body [of r] show ?thesis by (simp add: revision_later_def revision_rank_def)
    next
      case False
      with body [of r] show ?thesis by (simp add: revision_later_def revision_rank_def)
    qed
    have "revision_row_ok env uuid (?g r)" if "r \<in> set rows" for r
      using inv that by (auto simp: revision_table_inv_def revision_row_ok_def revision_ok_def)
    moreover have "parent_ok (map ?g rows) (?g r)" if "r \<in> set rows" for r
      using parent_ok_map [OF body] inv that by (simp add: revision_table_inv_def)
    moreover have "map rv_revision_id (map ?g rows) = map rv_revision_id rows" "map revision_key (map ?g rows) = map revision_key rows"
      by (simp_all add: comp_def fields)
    ultimately have "revision_table_inv env uuid (map ?g rows)"
      using inv current(2) by (auto simp only: revision_table_inv_def set_map)
    moreover have "list_all2 revision_later rows (map ?g rows)"
      using later by (simp add: list_all2_map2 list.rel_refl_strong)
    moreover have "transcript_of d = transcript_of target" "rv_revision_id d = rid" using d grp target(2) by simp_all
    ultimately show ?thesis using current(1) rows' d by simp
  qed
qed

lemma revision_step_inv:
  assumes "uuid_law uuid" "revision_step env uuid rows rows'" "revision_table_inv env uuid rows"
  shows "revision_table_inv env uuid rows'"
    "\<forall>r \<in> set rows. \<exists>r' \<in> set rows'. revision_later r r'"
proof -
  have "revision_table_inv env uuid rows' \<and> (\<forall>r \<in> set rows. \<exists>r' \<in> set rows'. revision_later r r')"
    using assms(2)
  proof cases
    case (from_package st pid cs new_id now d)
    with from_package_inv [OF assms(1,3)] show ?thesis by force
  next
    case (version raw items st parent cs new_id now d)
    with version_inv [OF assms(1,3)] show ?thesis by force
  next
    case (approve rid now d)
    then have "revision_table_inv env uuid rows' \<and> list_all2 revision_later rows rows'"
      using approve_inv [OF assms(3)] by (simp add: approve_revision_def)
    then show ?thesis by (auto dest: list_all2_memberD)
  qed
  then show "revision_table_inv env uuid rows'" "\<forall>r \<in> set rows. \<exists>r' \<in> set rows'. revision_later r r'" by auto
qed

text \<open>
  C31. The history of a transcript's revisions: whatever callers do with the service, starting
  from a table that satisfies the invariant (as the empty one does), identifiers and version
  numbers stay unique, every stored content passes validation and matches its hash, a parent
  is an older version of the same transcript, at most one revision per session and language
  is approved, and a revision once stored is never lost or edited: only its status moves,
  from saved to approved to superseded.
\<close>

theorem revision_history:
  assumes "uuid_law uuid" "revision_table_inv env uuid rows" "(revision_step env uuid)\<^sup>*\<^sup>* rows rows'"
  shows "revision_table_inv env uuid rows' \<and> (\<forall>r \<in> set rows. \<exists>r' \<in> set rows'. revision_later r r')"
  using assms(3)
proof (induction rule: rtranclp_induct)
  case base
  then show ?case using assms(2) revision_later_refl by blast
next
  case (step rows1 rows2)
  note inv1 = step.IH [THEN conjunct1]
  note step2 = revision_step_inv [OF assms(1) step.hyps(2) inv1]
  have "\<exists>r'' \<in> set rows2. revision_later r r''" if "r \<in> set rows" for r
    using step.IH step2(2) that by (meson revision_later_trans)
  with step2(1) show ?case by blast
qed

text \<open>Two revisions, of which the second is approved.\<close>

definition demo_revision :: "string \<Rightarrow> int \<Rightarrow> string \<Rightarrow> transcript_revision" where
  "demo_revision i v status = \<lparr>rv_revision_id = i, rv_session_id = ''s'', rv_version = v, rv_parent_revision_id = None,
     rv_base_package_id = ''p'', rv_language = ''en'',
     rv_items = [\<lparr>ri_item_id = ''i'', ri_source_segment_ids = [''x''], ri_start_ms = 0, ri_end_ms = 9, ri_text = ''hi''\<rparr>],
     rv_content_hash = replicate 64 (CHR ''0''), rv_change_summary = None, rv_status = status, rv_created_at = 0,
     rv_approved_at = None\<rparr>"

definition revision_env :: package_env where
  "revision_env = page_env\<lparr>pe_sha256 := (\<lambda>_. replicate 64 (CHR ''0''))\<rparr>"

definition demo_uuid :: "string \<Rightarrow> string res" where
  "demo_uuid x = (if x = [] then Inl (ValueError ''badly formed hexadecimal UUID string'') else Inr x)"

lemma demo_revisions_inv:
  "revision_table_inv revision_env demo_uuid [demo_revision ''a'' 1 ''approved'', demo_revision ''b'' 2 ''saved'']"
proof -
  have "revision_content demo_uuid (rv_items (demo_revision i v st)) = Inr (rv_items (demo_revision i v st))" for i v st
    unfolding demo_revision_def by code_simp
  moreover have "digest_ok (replicate 64 (CHR ''0''))" by code_simp
  then have "revision_ok (demo_revision i v st) \<longleftrightarrow> i \<noteq> [] \<and> 1 \<le> v \<and> st \<in> {''saved'', ''approved'', ''superseded''}" for i v st
    by (auto simp: revision_ok_def demo_revision_def language_ok_def)
  ultimately show ?thesis
    by (simp add: revision_table_inv_def revision_row_ok_def parent_ok_def)
      (simp add: demo_revision_def revision_content_hash_def canonical_sha256_def revision_env_def)
qed

lemma demo_approval_step:
  "revision_step revision_env demo_uuid [demo_revision ''a'' 1 ''approved'', demo_revision ''b'' 2 ''saved'']
     [demo_revision ''a'' 1 ''superseded'', (demo_revision ''b'' 2 ''approved'')\<lparr>rv_approved_at := Some 5\<rparr>]"
proof (rule revision_step.approve)
  show "approve_revision demo_uuid ''b'' 5 [demo_revision ''a'' 1 ''approved'', demo_revision ''b'' 2 ''saved'']
    = Inr ([demo_revision ''a'' 1 ''superseded'', (demo_revision ''b'' 2 ''approved'')\<lparr>rv_approved_at := Some 5\<rparr>],
        (demo_revision ''b'' 2 ''approved'')\<lparr>rv_approved_at := Some 5\<rparr>)" by code_simp
qed

theorem revision_history_witness:
  "revision_table_inv revision_env demo_uuid
     [demo_revision ''a'' 1 ''superseded'', (demo_revision ''b'' 2 ''approved'')\<lparr>rv_approved_at := Some 5\<rparr>]"
proof -
  have "uuid_law demo_uuid" by (auto simp: uuid_law_def demo_uuid_def)
  from revision_history [OF this demo_revisions_inv r_into_rtranclp [of "revision_step revision_env demo_uuid", OF demo_approval_step]]
  show ?thesis by (rule conjunct1)
qed

end
