(* ===== verification/Revision_Builder.thy ===== *)
theory Revision_Builder
  imports Package_Builder Revisions
begin

section \<open>Packages from approved revisions\<close>

text \<open>
  Models \<open>PackageBuilder.build_from_revision\<close> (\<open>packages/builder.py\<close>): a new version of a package
  whose effective source is an approved revision. The raw transcript and the translations are
  copied from the base package, never read again from the tables of stage one.
\<close>

definition raw_items_by_segment :: "transcript_item list \<Rightarrow> (string, transcript_item) dict" where
  "raw_items_by_segment items =
     foldl (\<lambda>d item. foldl (\<lambda>d seg. dict_set d seg item) d (ti_source_segment_ids item)) [] items"

definition approved_item :: "(string, transcript_item) dict \<Rightarrow> revision_item \<Rightarrow> transcript_item" where
  "approved_item by_segment i =
     \<lparr>ti_item_id = ri_item_id i, ti_source_segment_ids = ri_source_segment_ids i, ti_start_ms = ri_start_ms i,
      ti_end_ms = ri_end_ms i, ti_text = ri_text i,
      ti_raw_text = Some (py_join '' '' (map (\<lambda>raw. str_or (ti_raw_text raw) (ti_text raw))
        (List.map_filter (dict_get by_segment) (ri_source_segment_ids i)))),
      ti_confidence = None, ti_speaker = None, ti_locked = True\<rparr>"

definition copied_translations :: "package_env \<Rightarrow> string \<Rightarrow> package_document list \<Rightarrow> package_document list" where
  "copied_translations env package_id documents =
     map (\<lambda>d. new_document env (stable_id env [package_id, ''live_translation'', or_else (pd_language d) []])
            (pd_language d) (pd_body d))
       (filter (\<lambda>d. is_live_translation (pd_body d)) documents)"

definition max_end_ms :: "transcript_item list \<Rightarrow> int" where
  "max_end_ms items = (if items = [] then 0 else Max (set (map ti_end_ms items)))"

definition revision_documents ::
  "package_env \<Rightarrow> string \<Rightarrow> string \<Rightarrow> transcript_item list \<Rightarrow> transcript_item list \<Rightarrow> package_document list
   \<Rightarrow> session_snapshot \<Rightarrow> provider_snapshot \<Rightarrow> metrics_snapshot \<Rightarrow> package_document list" where
  "revision_documents env package_id language raw_items approved_items translations ss ps ms =
     (let approved_document_id = stable_id env [package_id, ''source_approved'', language] in
      [new_document env (stable_id env [package_id, ''source_raw'', language]) (Some language) (Source_Raw raw_items),
       new_document env approved_document_id (Some language) (Source_Approved approved_items)]
      @ translations
      @ index_documents env package_id approved_document_id (max_end_ms approved_items) approved_items
      @ metadata_documents env package_id ss ps ms)"

definition revision_package ::
  "package_env \<Rightarrow> transcript_revision \<Rightarrow> transcript_package \<Rightarrow> transcript_item list \<Rightarrow> string \<Rightarrow> int \<Rightarrow> instant
   \<Rightarrow> transcript_package" where
  "revision_package env revision base raw_items package_id version created_at =
     (let language = rv_language revision; manifest = pk_manifest base;
          approved_items = map (approved_item (raw_items_by_segment raw_items)) (rv_items revision);
          ss = mf_session_snapshot manifest; ps = mf_provider_snapshot manifest; ms = mf_metrics_snapshot manifest
      in package_of env
           \<lparr>ph_package_id = package_id, ph_version = version, ph_created_at = created_at,
            ph_session_id = rv_session_id revision, ph_source_revision_id = Some (rv_revision_id revision),
            ph_source_language = language, ph_target_languages = mf_target_languages manifest,
            ph_effective_source_document_id = stable_id env [package_id, ''source_approved'', language]\<rparr>
           ss ps ms
           (revision_documents env package_id language raw_items approved_items
              (copied_translations env package_id (pk_documents base)) ss ps ms))"

definition build_from_revision ::
  "package_env \<Rightarrow> binding_env \<Rightarrow> assistant_tables \<Rightarrow> transcript_revision \<Rightarrow> string \<Rightarrow> instant \<Rightarrow> package_store
   \<Rightarrow> package_binding_record list \<Rightarrow> (package_store \<times> package_binding_record list \<times> transcript_package) res" where
  "build_from_revision env be tables revision package_id created_at st bindings =
     (if rv_status revision \<noteq> ''approved'' then Inl (PackageBuildError ''Revision must be approved'')
      else rbind (load_package (rv_base_package_id revision) st) (\<lambda>base.
        if pk_status base \<notin> {''frozen'', ''superseded''} then Inl (PackageBuildError ''Base Package is not frozen'')
        else if pk_session_id base \<noteq> rv_session_id revision
             then Inl (PackageBuildError ''Revision and Package Session do not match'')
        else if mf_source_language (pk_manifest base) \<noteq> rv_language revision
             then Inl (PackageBuildError ''Revision language does not match Package'')
        else (case List.find (\<lambda>d. is_source_raw (pd_body d)) (pk_documents base) of
          None \<Rightarrow> Inl (PackageBuildError ''Base Package has no raw source document'')
        | Some raw_base \<Rightarrow>
            let version = next_version st (rv_session_id revision);
                p = revision_package env revision base (transcript_items (pd_body raw_base)) package_id version created_at
            in rbind (create_building package_id (rv_session_id revision) version (Some (rv_revision_id revision)) created_at st)
                 (\<lambda>(st, record).
                   if \<not> package_ok p then Inl (ValueError ''validation error for TranscriptPackage'')
                   else rbind (store_package env record p st) (\<lambda>st.
                     rbind (load_and_bind be tables package_id st bindings) (\<lambda>(bindings, p). Inr (st, bindings, p)))))))"

subsection \<open>The documents of a revision package\<close>

lemma single_kind:
  assumes "map pd_kind ds = ks" "length (filter (\<lambda>j. j = k) ks) = 1"
  shows "length (filter (\<lambda>d. pd_kind d = k) (sort_key f ds)) = 1"
proof -
  have "length (filter (\<lambda>d. pd_kind d = k) (sort_key f ds)) = length (filter (\<lambda>j. j = k) (map pd_kind ds))"
    unfolding filter_sort by (simp add: filter_map comp_def)
  then show ?thesis using assms by simp
qed

lemma revision_parts:
  fixes env pid language raw items trs ss ps ms
  assumes live: "\<forall>d \<in> set trs. is_live_translation (pd_body d)"
  defines "apid \<equiv> stable_id env [pid, ''source_approved'', language]"
    and "docs \<equiv> sort_key document_identity (revision_documents env pid language raw items trs ss ps ms)"
  shows "docs_of is_source_raw docs
      = [new_document env (stable_id env [pid, ''source_raw'', language]) (Some language) (Source_Raw raw)]"
    "docs_of is_source_approved docs = [new_document env apid (Some language) (Source_Approved items)]"
    "sort (map (\<lambda>d. str_or (pd_language d) []) (docs_of is_live_translation docs)) =
       sort (map (\<lambda>d. str_or (pd_language d) []) trs)"
    "List.map_filter (\<lambda>d. timeline_content (pd_body d)) docs =
       [(max_end_ms items, map (\<lambda>i. \<lparr>te_item_id = ti_item_id i, te_start_ms = ti_start_ms i,
           te_end_ms = ti_end_ms i, te_source_document_id = apid\<rparr>) items)]"
    "List.map_filter (\<lambda>d. evidence_content (pd_body d)) docs =
       [map (\<lambda>i. \<lparr>ee_item_id = ti_item_id i, ee_source_segment_ids = ti_source_segment_ids i,
           ee_start_ms = ti_start_ms i, ee_end_ms = ti_end_ms i,
           ee_raw_text = str_or (ti_raw_text i) (ti_text i), ee_effective_text = ti_text i,
           ee_source_document_id = apid\<rparr>) items]"
    "count_errors docs = []"
proof -
  note parts = filter_live [OF live] document_groups revision_documents_def Let_def apid_def
  show "docs_of is_source_raw docs
      = [new_document env (stable_id env [pid, ''source_raw'', language]) (Some language) (Source_Raw raw)]"
    and ap: "docs_of is_source_approved docs = [new_document env apid (Some language) (Source_Approved items)]"
    unfolding docs_def filter_sort by (simp_all add: parts)
  show "sort (map (\<lambda>d. str_or (pd_language d) []) (docs_of is_live_translation docs)) =
       sort (map (\<lambda>d. str_or (pd_language d) []) trs)"
    unfolding docs_def filter_sort sort_map_sort_key by (simp add: parts)
  show "List.map_filter (\<lambda>d. timeline_content (pd_body d)) docs =
       [(max_end_ms items, map (\<lambda>i. \<lparr>te_item_id = ti_item_id i, te_start_ms = ti_start_ms i,
           te_end_ms = ti_end_ms i, te_source_document_id = apid\<rparr>) items)]"
    unfolding docs_def List.map_filter_def filter_sort by (simp add: parts)
  show "List.map_filter (\<lambda>d. evidence_content (pd_body d)) docs =
       [map (\<lambda>i. \<lparr>ee_item_id = ti_item_id i, ee_source_segment_ids = ti_source_segment_ids i,
           ee_start_ms = ti_start_ms i, ee_end_ms = ti_end_ms i,
           ee_raw_text = str_or (ti_raw_text i) (ti_text i), ee_effective_text = ti_text i,
           ee_source_document_id = apid\<rparr>) items]"
    unfolding docs_def List.map_filter_def filter_sort by (simp add: parts)
  have kinds: "map pd_kind (revision_documents env pid language raw items trs ss ps ms)
      = ''source_raw'' # ''source_approved'' # map pd_kind trs @ [''timeline_index'', ''evidence_index'',
          ''session_metadata'', ''provider_metadata'', ''metrics_metadata'']"
    by (simp add: document_groups revision_documents_def Let_def)
  have none: "filter (\<lambda>j. j = k) (map pd_kind trs) = []" if "k \<noteq> ''live_translation''" for k
    using filter_live(6) [OF live that] by (simp add: filter_map comp_def)
  have one: "length (filter (\<lambda>d. pd_kind d = k) docs) = 1"
    if "k \<in> {''source_raw'', ''timeline_index'', ''evidence_index'', ''session_metadata'', ''provider_metadata'',
      ''metrics_metadata''}" for k
    unfolding docs_def using that
    by (intro single_kind [OF kinds]) (elim insertE emptyE; simp add: none)
  show "count_errors docs = []"
    by (simp add: count_errors_def ap one)
qed

lemma revision_identities:
  assumes "distinct (map document_identity trs)" "\<forall>d \<in> set trs. is_live_translation (pd_body d)"
  shows "distinct (map document_identity (revision_documents env pid language raw items trs ss ps ms))"
proof -
  have "document_identity d \<notin> {(k, l) | k l. k \<noteq> ''live_translation''}" if "d \<in> set trs" for d
    using that assms(2) by (auto simp: document_identity_def live_translation_body)
  with assms(1) show ?thesis
    by (auto simp: document_groups revision_documents_def Let_def document_identity_def)
qed

lemma revision_hashes:
  assumes "\<forall>d \<in> set trs. document_content_hash env d = pd_content_hash d"
    and "d \<in> set (revision_documents env pid language raw items trs ss ps ms)"
  shows "document_content_hash env d = pd_content_hash d"
  using assms by (auto simp: document_groups revision_documents_def Let_def)

text \<open>The two indexes the builder derives from a source always match it.\<close>

lemma own_index_ok:
  assumes "distinct (map ti_item_id items)" "\<forall>i \<in> set items. ti_start_ms i \<le> ti_end_ms i"
    and "transcript_items (pd_body source) = items" "pd_document_id source = sid"
  shows "timeline_errors source (max_end_ms items)
    (map (\<lambda>i. \<lparr>te_item_id = ti_item_id i, te_start_ms = ti_start_ms i, te_end_ms = ti_end_ms i,
       te_source_document_id = sid\<rparr>) items)
    (map (\<lambda>i. \<lparr>ee_item_id = ti_item_id i, ee_source_segment_ids = ti_source_segment_ids i,
       ee_start_ms = ti_start_ms i, ee_end_ms = ti_end_ms i, ee_raw_text = str_or (ti_raw_text i) (ti_text i),
       ee_effective_text = ti_text i, ee_source_document_id = sid\<rparr>) items) = []"
  using assms by (auto simp: timeline_errors_def Let_def comp_def err_if_def max_end_ms_def)

lemma approved_item_sel [simp]:
  "ti_item_id (approved_item d i) = ri_item_id i" "ti_source_segment_ids (approved_item d i) = ri_source_segment_ids i"
  "ti_start_ms (approved_item d i) = ri_start_ms i" "ti_end_ms (approved_item d i) = ri_end_ms i"
  "ti_text (approved_item d i) = ri_text i"
  by (simp_all add: approved_item_def)

lemma load_package_Inr:
  assumes "load_package pid st = Inr p"
  shows "package_ok p" "pk_package_id p = pid"
    "\<exists>r \<in> set (st_packages st). rp_session_id r = pk_session_id p \<and> rp_version r = pk_package_version p"
  using assms by (auto simp: load_package_def package_get_def Let_def split: option.splits if_splits dest!: find_row_Some)

lemma next_version_pos:
  assumes "load_package pid st = Inr p"
  shows "1 \<le> next_version st (pk_session_id p)"
proof -
  let ?vs = "map rp_version (filter (\<lambda>r. rp_session_id r = pk_session_id p) (st_packages st))"
  have mem: "pk_package_version p \<in> set ?vs" using load_package_Inr(3) [OF assms] by force
  then have "pk_package_version p \<le> Max (set ?vs)" by simp
  moreover have "1 \<le> pk_package_version p" using load_package_Inr(1) [OF assms] by (simp add: package_ok_def)
  moreover have "?vs \<noteq> []" using mem by (metis empty_iff empty_set)
  ultimately show ?thesis by (simp add: next_version_def Let_def)
qed

subsection \<open>The base package\<close>

lemma valid_base:
  assumes "validate_package env base = Inr []"
  shows "distinct (map document_identity (pk_documents base))"
    "\<exists>raw. docs_of is_source_raw (pk_documents base) = [raw]"
    "sort (map (\<lambda>d. str_or (pd_language d) []) (docs_of is_live_translation (pk_documents base)))
       = sort (mf_target_languages (pk_manifest base))"
proof -
  let ?ds = "sort_key document_identity (pk_documents base)"
  have errs: "identity_errors env base ?ds = []" "count_errors ?ds = []" "source_errors base ?ds = []"
    using assms by (simp_all add: validate_package_Nil Let_def)
  have dist: "distinct (map document_identity ?ds)" using errs(1) by (auto simp: identity_errors_def)
  show "distinct (map document_identity (pk_documents base))"
    using dist by (simp add: distinct_map)
  have raw: "pd_kind d = ''source_raw'' \<longleftrightarrow> is_source_raw (pd_body d)" for d :: package_document
    by (cases "pd_body d") simp_all
  have "length (filter (\<lambda>d. pd_kind d = ''source_raw'') ?ds) = 1" using errs(2) by (auto simp: count_errors_def)
  then have "length (docs_of is_source_raw (pk_documents base)) = 1" by (simp add: raw filter_sort)
  then show "\<exists>raw. docs_of is_source_raw (pk_documents base) = [raw]" by (auto simp: length_Suc_conv)
  show "sort (map (\<lambda>d. str_or (pd_language d) []) (docs_of is_live_translation (pk_documents base)))
       = sort (mf_target_languages (pk_manifest base))"
    using errs(3) by (simp add: source_errors_def Let_def filter_sort sort_map_sort_key)
qed

lemma copied_translations_props:
  "\<forall>d \<in> set (copied_translations env pid docs). is_live_translation (pd_body d)
     \<and> document_content_hash env d = pd_content_hash d"
  "map document_identity (copied_translations env pid docs) = map document_identity (docs_of is_live_translation docs)"
  "map (\<lambda>d. str_or (pd_language d) []) (copied_translations env pid docs)
     = map (\<lambda>d. str_or (pd_language d) []) (docs_of is_live_translation docs)"
  by (auto simp: copied_translations_def document_identity_def comp_def)

lemma approved_items_ok:
  "list_all revision_item_ok items \<Longrightarrow> list_all transcript_item_ok (map (approved_item d) items)"
  by (auto simp: list_all_iff transcript_item_ok_def revision_item_ok_def)

lemma max_end_nonneg: "list_all transcript_item_ok items \<Longrightarrow> 0 \<le> max_end_ms items"
proof (cases "items = []")
  case False
  assume ok: "list_all transcript_item_ok items"
  have "Max (set (map ti_end_ms items)) \<in> set (map ti_end_ms items)"
    using False by (intro Max_in) auto
  then obtain i where "i \<in> set items" "Max (set (map ti_end_ms items)) = ti_end_ms i" by auto
  with ok False show ?thesis by (simp add: max_end_ms_def list_all_iff transcript_item_ok_def)
qed (simp add: max_end_ms_def)

lemma revision_package_ok:
  assumes env: "digests_ok env" and base: "package_ok base" and pid: "pid \<noteq> []" "1 \<le> v"
    and rev_ok: "revision_ok revision" "list_all revision_item_ok (rv_items revision)"
    and raw: "raw \<in> set (pk_documents base)" "is_source_raw (pd_body raw)"
  shows "package_ok (revision_package env revision base (transcript_items (pd_body raw)) pid v now)" (is "package_ok ?p")
proof -
  let ?lang = "rv_language revision" and ?raw = "transcript_items (pd_body raw)"
  let ?items = "map (approved_item (raw_items_by_segment ?raw)) (rv_items revision)"
  let ?trs = "copied_translations env pid (pk_documents base)" and ?m = "pk_manifest base"
  have lang: "language_ok ?lang" using rev_ok(1) by (simp add: revision_ok_def)
  have base_docs: "\<forall>d \<in> set (pk_documents base). document_ok d" and snap: "session_snapshot_ok (mf_session_snapshot ?m)"
    and targets: "list_all language_ok (mf_target_languages ?m)"
    using base by (auto simp: package_ok_def manifest_ok_def list_all_iff)
  have raw_ok: "list_all transcript_item_ok ?raw"
    using base_docs raw by (cases "pd_body raw") (auto simp: document_ok_def)
  note items_ok = approved_items_ok [OF rev_ok(2), of "raw_items_by_segment ?raw"]
  have trs_ok: "document_ok d" if "d \<in> set ?trs" for d
  proof -
    from that obtain x where x: "x \<in> set (pk_documents base)"
      "d = new_document env (stable_id env [pid, ''live_translation'', or_else (pd_language x) []]) (pd_language x) (pd_body x)"
      by (auto simp: copied_translations_def)
    show ?thesis unfolding x(2) using base_docs x(1) by (intro new_document_ok [OF env]) (simp_all add: document_ok_def)
  qed
  have docs: "document_ok d" if "d \<in> set (revision_documents env pid ?lang ?raw ?items ?trs
      (mf_session_snapshot ?m) (mf_provider_snapshot ?m) (mf_metrics_snapshot ?m))" for d
    using that trs_ok index_documents_ok [OF env items_ok max_end_nonneg [OF items_ok]] raw_ok items_ok lang snap
    by (auto simp: revision_documents_def Let_def metadata_documents_def intro!: new_document_ok [OF env])
  have refs: "list_all reference_ok (mf_documents (pk_manifest ?p))"
  proof -
    have "pd_kind d \<noteq> []" for d :: package_document by (cases "pd_body d") simp_all
    then show ?thesis using docs
      by (auto simp: revision_package_def package_of_def Let_def list_all_iff reference_ok_def document_ok_def)
  qed
  have fields: "pk_content_hash ?p = mf_content_hash (pk_manifest ?p)" "digest_ok (pk_content_hash ?p)"
    using env by (simp_all add: revision_package_def package_of_def Let_def package_content_hash_def
        canonical_sha256_def digests_ok_def)
  have man: "manifest_ok (pk_manifest ?p)"
    using refs fields lang targets snap pid rev_ok(1) env
    by (simp add: manifest_ok_def revision_ok_def)
      (simp add: revision_package_def package_of_def Let_def digests_ok_def stable_id_def)
  have "list_all document_ok (pk_documents ?p)"
    using docs by (auto simp: revision_package_def Let_def list_all_iff)
  with man fields pid rev_ok(1) show ?thesis
    by (simp add: package_ok_def revision_ok_def) (simp add: revision_package_def Let_def)
qed

subsection \<open>A revision package is valid and can be built\<close>

lemma revision_content_props:
  assumes "revision_content uuid items = Inr items" "uuid_law uuid"
  shows "list_all revision_item_ok items" "distinct (map ri_item_id items)"
  using assms(1) validate_revision_items_idem [OF assms(2), of items]
  by (auto simp: revision_content_def rbind_eq_Inr split: if_splits)

lemma validated_segments:
  assumes "validate_against_package items base = Inr ()" "docs_of is_source_raw (pk_documents base) = [raw]"
  shows "revision_segments items = item_segments (transcript_items (pd_body raw))"
    "List.find (\<lambda>d. is_source_raw (pd_body d)) (pk_documents base) = Some raw"
proof -
  have "raw \<in> set (docs_of is_source_raw (pk_documents base))" by (simp add: assms(2))
  then obtain d where d: "List.find (\<lambda>d. is_source_raw (pd_body d)) (pk_documents base) = Some d"
    by (cases "List.find (\<lambda>d. is_source_raw (pd_body d)) (pk_documents base)") (auto simp: find_row_None)
  then have "d \<in> set (docs_of is_source_raw (pk_documents base))" using find_row_Some [OF d] by simp
  then have "d = raw" by (simp add: assms(2))
  with d show "List.find (\<lambda>d. is_source_raw (pd_body d)) (pk_documents base) = Some raw" by simp
  with assms(1) show "revision_segments items = item_segments (transcript_items (pd_body raw))"
    by (auto simp: validate_against_package_def raw_source_def Let_def split: if_splits)
qed

lemma revision_package_valid:
  assumes base: "validate_package env base = Inr []" and raw: "docs_of is_source_raw (pk_documents base) = [raw]"
    and content: "list_all revision_item_ok (rv_items revision)" "distinct (map ri_item_id (rv_items revision))"
    and segs: "revision_segments (rv_items revision) = item_segments (transcript_items (pd_body raw))"
    and p: "p = revision_package env revision base (transcript_items (pd_body raw)) pid v now"
    and ids: "distinct (map pd_document_id (pk_documents p))"
    and plain: "contains_sensitive_value env (dump_package env p) = Inr False"
  shows "validate_package env p = Inr []" "distinct (map document_identity (pk_documents p))"
    "sort_key document_identity (pk_documents p) = pk_documents p"
proof -
  let ?lang = "rv_language revision" and ?raw = "transcript_items (pd_body raw)" and ?m = "pk_manifest base"
  let ?items = "map (approved_item (raw_items_by_segment ?raw)) (rv_items revision)"
  let ?trs = "copied_translations env pid (pk_documents base)"
  let ?docs = "revision_documents env pid ?lang ?raw ?items ?trs
      (mf_session_snapshot ?m) (mf_provider_snapshot ?m) (mf_metrics_snapshot ?m)"
  let ?ap = "new_document env (stable_id env [pid, ''source_approved'', ?lang]) (Some ?lang) (Source_Approved ?items)"
  let ?rd = "new_document env (stable_id env [pid, ''source_raw'', ?lang]) (Some ?lang) (Source_Raw ?raw)"
  note trs = copied_translations_props [of env pid "pk_documents base"]
  have live: "\<forall>d \<in> set ?trs. is_live_translation (pd_body d)" using trs(1) by blast
  have dist_trs: "distinct (map document_identity ?trs)"
    unfolding trs(2) using valid_base(1) [OF base] by (rule distinct_map_filter)
  have idents: "distinct (map document_identity ?docs)" by (rule revision_identities [OF dist_trs live])
  note parts = revision_parts [OF live, of env pid ?lang ?raw ?items "mf_session_snapshot ?m"
      "mf_provider_snapshot ?m" "mf_metrics_snapshot ?m"]
  have pdocs: "pk_documents p = sort_key document_identity ?docs"
    and peff: "mf_effective_source_document_id (pk_manifest p) = stable_id env [pid, ''source_approved'', ?lang]"
    and pmisc: "pk_source_revision_id p = Some (rv_revision_id revision)"
      "mf_target_languages (pk_manifest p) = mf_target_languages ?m"
    by (simp_all add: p revision_package_def Let_def)
  have "pd_document_id ?ap \<noteq> pd_document_id ?rd"
  proof -
    have "distinct (map pd_document_id ?docs)" using ids by (simp add: pdocs distinct_map)
    then show ?thesis by (auto simp: revision_documents_def Let_def)
  qed
  then have eff: "effective_documents p (sort_key document_identity ?docs) = [?ap]"
    by (simp add: effective_documents_def parts peff)
  have "effective_errors p (sort_key document_identity ?docs) = []"
    unfolding effective_errors_def eff Let_def parts by (simp add: pmisc)
  moreover have "source_errors p (sort_key document_identity ?docs) = []"
  proof -
    have own: "timeline_errors ?ap (max_end_ms ?items)
        (map (\<lambda>i. \<lparr>te_item_id = ti_item_id i, te_start_ms = ti_start_ms i, te_end_ms = ti_end_ms i,
           te_source_document_id = stable_id env [pid, ''source_approved'', ?lang]\<rparr>) ?items)
        (map (\<lambda>i. \<lparr>ee_item_id = ti_item_id i, ee_source_segment_ids = ti_source_segment_ids i,
           ee_start_ms = ti_start_ms i, ee_end_ms = ti_end_ms i, ee_raw_text = str_or (ti_raw_text i) (ti_text i),
           ee_effective_text = ti_text i, ee_source_document_id = stable_id env [pid, ''source_approved'', ?lang]\<rparr>) ?items) = []"
      by (rule own_index_ok) (use content in \<open>auto simp: comp_def list_all_iff revision_item_ok_def\<close>)
    have same: "set (concat (map ti_source_segment_ids (transcript_items (pd_body ?ap))))
        = set (concat (map ti_source_segment_ids (transcript_items (pd_body ?rd))))"
      using segs by (simp add: revision_segments_def item_segments_def comp_def)
    have langs: "sort (map (\<lambda>d. str_or (pd_language d) []) ?trs) = sort (mf_target_languages ?m)"
      unfolding trs(3) by (rule valid_base(3) [OF base])
    show ?thesis
      unfolding source_errors_def eff Let_def parts using own same langs pmisc(2) by simp
  qed
  moreover have "identity_errors env p (sort_key document_identity ?docs) = []"
    "manifest_errors p (sort_key document_identity ?docs) = []"
    unfolding p revision_package_def Let_def
    by (rule package_of_consistent [OF idents], use revision_hashes trs(1) in blast)+
  ultimately show "validate_package env p = Inr []"
    using plain parts(6) by (simp add: validate_package_Nil Let_def pdocs)
  show "distinct (map document_identity (pk_documents p))" "sort_key document_identity (pk_documents p) = pk_documents p"
    unfolding pdocs using distinct_map_sort [OF idents] by simp_all
qed

text \<open>
  C32. An approved revision always becomes a package: if the revision's content is valid and was
  checked against its base package (as the service does before it stores a revision), the base
  is valid and of the same session and language, nothing in the package is sensitive, the ids
  are new and the unbound snapshots cite only segments of the raw transcript, then
  \<open>build_from_revision\<close> succeeds. The new package is valid, is loaded back unchanged, is the one
  frozen package of the session, keeps the raw transcript of the base word for word, and its
  effective source has exactly the texts and times of the revision.
\<close>

theorem approved_revision_builds:
  assumes "store_inv st" "digests_ok env" "uuid_law uuid" "pid \<noteq> []" "pid \<notin> set (map rp_id (st_packages st))"
    and "rv_status revision = ''approved''" "revision_ok revision"
    and "revision_content uuid (rv_items revision) = Inr (rv_items revision)"
    and "load_package (rv_base_package_id revision) st = Inr base" "validate_package env base = Inr []"
    and "pk_session_id base = rv_session_id revision" "mf_source_language (pk_manifest base) = rv_language revision"
    and "validate_against_package (rv_items revision) base = Inr ()" "raw_source base = Inr raw"
    and "p = revision_package env revision base (transcript_items (pd_body raw)) pid
           (next_version st (rv_session_id revision)) now"
    and "contains_sensitive_value env (dump_package env p) = Inr False"
    and "distinct (map pd_document_id (pk_documents p))"
    and "set (map pd_document_id (pk_documents p)) \<inter> set (map dc_id (st_documents st)) = {}"
    and "binding_ready be tables (rv_session_id revision) pid (item_segments (transcript_items (pd_body raw))) bindings"
  shows "\<exists>st' created items. build_from_revision env be tables revision pid now st bindings = Inr (st', bindings @ created, p)
    \<and> validate_package env p = Inr [] \<and> load_package pid st' = Inr p \<and> store_inv st'
    \<and> map rp_id (filter (\<lambda>r. rp_session_id r = rv_session_id revision \<and> rp_status r = ''frozen'') (st_packages st')) = [pid]
    \<and> map (\<lambda>d. transcript_items (pd_body d)) (docs_of is_source_raw (pk_documents p)) = [transcript_items (pd_body raw)]
    \<and> effective_source_items p = Inr items
    \<and> map (\<lambda>i. (ti_item_id i, ti_source_segment_ids i, ti_start_ms i, ti_end_ms i, ti_text i)) items
        = map (\<lambda>i. (ri_item_id i, ri_source_segment_ids i, ri_start_ms i, ri_end_ms i, ri_text i)) (rv_items revision)"
proof -
  let ?sid = "rv_session_id revision" and ?v = "next_version st (rv_session_id revision)" and ?lang = "rv_language revision"
  let ?raw = "transcript_items (pd_body raw)"
  let ?items = "map (approved_item (raw_items_by_segment ?raw)) (rv_items revision)"
  note content = revision_content_props [OF assms(8) assms(3)]
  obtain raw' where raw': "docs_of is_source_raw (pk_documents base) = [raw']" using valid_base(2) [OF assms(10)] by blast
  note segs = validated_segments [OF assms(13) raw']
  have rr: "raw' = raw" using segs(2) assms(14) by (simp add: raw_source_def)
  note found = segs(2) [unfolded rr]
  note valid = revision_package_valid [OF assms(10) raw' [unfolded rr] content segs(1) [unfolded rr] assms(15) assms(17) assms(16)]
  have rawin: "raw \<in> set (pk_documents base)" "is_source_raw (pd_body raw)" using find_row_Some [OF found] by auto
  have ver: "1 \<le> ?v" using next_version_pos [OF assms(9)] assms(11) by simp
  have base_ok: "package_ok base" by (rule load_package_Inr(1) [OF assms(9)])
  have ok: "package_ok p"
    unfolding assms(15) by (rule revision_package_ok [OF assms(2) base_ok assms(4) ver assms(7) content(1) rawin])
  have status: "pk_status base \<in> {''frozen'', ''superseded''}"
    using assms(10) by (auto simp: validate_package_Nil Let_def identity_errors_def)
  obtain st1 rw where cb: "create_building pid ?sid ?v (Some (rv_revision_id revision)) now st = Inr (st1, rw)"
    using assms(5) next_version_fresh [of ?sid st] by (simp add: create_building_def Let_def)
  have pk: "pk_status p = ''frozen''" "pk_frozen_at p = Some now" "pk_package_id p = pid" "pk_session_id p = ?sid"
    "pk_package_version p = ?v" "pk_created_at p = now" "pk_source_revision_id p = Some (rv_revision_id revision)"
    "pk_superseded_at p = None"
    by (simp_all add: assms(15) revision_package_def Let_def)
  have "\<exists>st'. store_package env rw p st1 = Inr st' \<and> store_inv st' \<and> load_package pid st' = Inr p
      \<and> map rp_id (filter (\<lambda>r. rp_session_id r = ?sid \<and> rp_status r = ''frozen'') (st_packages st')) = [pid]"
    by (rule store_package_ok [OF assms(1) cb valid(1) ok pk(3,4,5,6,7,1,2,8) valid(3,2) assms(17,18)])
  then obtain st' where st': "store_package env rw p st1 = Inr st' \<and> store_inv st' \<and> load_package pid st' = Inr p
      \<and> map rp_id (filter (\<lambda>r. rp_session_id r = ?sid \<and> rp_status r = ''frozen'') (st_packages st')) = [pid]"
    by (rule exE)
  have "effective_source_items p = Inr (transcript_items (pd_body
      (new_document env (stable_id env [pid, ''source_approved'', ?lang]) (Some ?lang) (Source_Approved ?items))))"
    by (rule effective_source_found [OF assms(17)])
      (simp_all add: assms(15) revision_package_def revision_documents_def Let_def set_insort_key)
  then have eff: "effective_source_items p = Inr ?items" by simp
  have cov: "item_segments ?raw \<subseteq> \<Union> (set ` ti_source_segment_ids ` set ?items)"
    using segs(1) by (auto simp: rr revision_segments_def)
  have nn: "pk_frozen_at p \<noteq> None" by (simp add: pk)
  obtain created where bound: "bind_unbound_executions be (at_executions tables) (at_snapshots tables) p bindings
      = Inr (bindings @ created, created)"
    using binding_ready_binds [OF assms(19) ok pk(1) nn pk(3,4) eff cov] by (rule exE)
  have "load_and_bind be tables pid st' bindings = Inr (bindings @ created, p)"
    using st' bound by (simp add: load_and_bind_def as_build_error_def)
  then have "build_from_revision env be tables revision pid now st bindings = Inr (st', bindings @ created, p)"
    using assms(6,9,11,12) status found ok cb st' [THEN conjunct1]
    by (simp add: build_from_revision_def Let_def assms(15))
  moreover have "map (\<lambda>d. transcript_items (pd_body d)) (docs_of is_source_raw (pk_documents p)) = [?raw]"
    using revision_parts(1) [of "copied_translations env pid (pk_documents base)" env pid ?lang ?raw ?items]
      copied_translations_props(1) [of env pid "pk_documents base"]
    by (simp add: assms(15) revision_package_def Let_def)
  ultimately show ?thesis
    using valid(1) st' eff by (intro exI [of _ st'] exI [of _ created] exI [of _ ?items]) (simp add: comp_def)
qed

text \<open>The small package of the session, stored, and an approved correction of its only item.\<close>

definition demo_frozen_store :: package_store where
  "demo_frozen_store = (let p = demo_package zero_sha in
     \<lparr>st_packages = [\<lparr>rp_id = ''p1'', rp_session_id = ''s1'', rp_version = 1, rp_schema_name = PACKAGE_SCHEMA,
        rp_schema_version = PACKAGE_SCHEMA_VERSION, rp_source_revision_id = None, rp_status = ''frozen'',
        rp_content_hash = Some (pk_content_hash p), rp_manifest = Some (pk_manifest p), rp_created_at = 7,
        rp_frozen_at = Some 7, rp_superseded_at = None\<rparr>],
      st_documents = map (row_of_document ''p1'' 7) (pk_documents p)\<rparr>)"

definition demo_correction :: transcript_revision where
  "demo_correction = \<lparr>rv_revision_id = ''r1'', rv_session_id = ''s1'', rv_version = 1, rv_parent_revision_id = None,
     rv_base_package_id = ''p1'', rv_language = ''en'',
     rv_items = [\<lparr>ri_item_id = ''i'', ri_source_segment_ids = [''a''], ri_start_ms = 0, ri_end_ms = 900, ri_text = ''Hi!''\<rparr>],
     rv_content_hash = replicate 64 (CHR ''0''), rv_change_summary = None, rv_status = ''approved'', rv_created_at = 8,
     rv_approved_at = Some 9\<rparr>"

definition demo_raw :: package_document where
  "demo_raw = new_document (demo_env zero_sha) ''matinier:p1:source_raw:en'' (Some ''en'')
     (Source_Raw (map (source_item (demo_env zero_sha) ''s1'') (tln_segments demo_timeline)))"

lemma demo_package_valid: "validate_package (demo_env zero_sha) (demo_package zero_sha) = Inr []"
proof (rule baseline_package_valid(1) [OF demo_timeline_ok])
  show "translation_documents (demo_env zero_sha) ''p1'' (ses_id demo_session) [] (target_languages_of []) = Inr []"
    by (simp add: demo_languages)
  show "demo_package zero_sha = baseline_package (demo_env zero_sha) demo_session [] ''p1'' 1 7 demo_timeline []"
    by (simp add: demo_package_def)
  show "distinct (map sg_segment_id (list_final demo_rows ''s1''))"
    by (simp add: list_final_def demo_rows_def demo_segment_def)
  show "inj_on (\<lambda>seg. stable_id (demo_env zero_sha) [ses_id demo_session, ''source'', seg])
      (set (map sg_segment_id (list_final demo_rows ''s1'')))"
    by (simp add: inj_on_def demo_stable_id demo_languages)
qed (rule demo_plain)

lemma demo_package_sel:
  "pk_package_id (demo_package sha) = ''p1''" "pk_session_id (demo_package sha) = ''s1''" "pk_package_version (demo_package sha) = 1"
  "pk_status (demo_package sha) = ''frozen''" "pk_source_revision_id (demo_package sha) = None"
  "pk_created_at (demo_package sha) = 7" "pk_frozen_at (demo_package sha) = Some 7" "pk_superseded_at (demo_package sha) = None"
  "pk_schema_name (demo_package sha) = PACKAGE_SCHEMA" "pk_schema_version (demo_package sha) = PACKAGE_SCHEMA_VERSION"
  "sort_key document_identity (pk_documents (demo_package sha)) = pk_documents (demo_package sha)"
  "mf_source_language (pk_manifest (demo_package sha)) = ''en''"
  by (simp_all add: demo_package_def demo_languages package_of_def Let_def)

lemma demo_frozen_loads: "load_package ''p1'' demo_frozen_store = Inr (demo_package zero_sha)"
proof -
  let ?p = "demo_package zero_sha"
  have eta: "\<lparr>pk_package_id = ''p1'', pk_session_id = ''s1'', pk_package_version = 1, pk_schema_name = PACKAGE_SCHEMA,
      pk_schema_version = PACKAGE_SCHEMA_VERSION, pk_status = ''frozen'', pk_source_revision_id = None,
      pk_manifest = pk_manifest ?p, pk_documents = pk_documents ?p, pk_content_hash = pk_content_hash ?p,
      pk_created_at = 7, pk_frozen_at = Some 7, pk_superseded_at = None\<rparr> = ?p"
    by (rule transcript_package.equality) (simp_all add: demo_package_sel)
  show ?thesis
    using demo_package_ok
    by (simp add: load_package_def package_get_def demo_frozen_store_def Let_def list_documents_def filter_True comp_def
        demo_package_sel eta)
qed

lemma demo_raw_source: "raw_source (demo_package zero_sha) = Inr demo_raw"
proof -
  have live: "\<forall>d \<in> set []. is_live_translation (pd_body d)" by simp
  have docs: "docs_of is_source_raw (pk_documents (demo_package zero_sha)) = [demo_raw]"
    using baseline_parts(1) [OF live] by (simp add: demo_package_def demo_raw_def demo_languages demo_stable_id)
  obtain d where d: "List.find (\<lambda>d. is_source_raw (pd_body d)) (pk_documents (demo_package zero_sha)) = Some d"
    using docs by (cases "List.find (\<lambda>d. is_source_raw (pd_body d)) (pk_documents (demo_package zero_sha))")
      (auto simp: find_row_None filter_empty_conv [symmetric])
  then have "d \<in> set (docs_of is_source_raw (pk_documents (demo_package zero_sha)))" using find_row_Some by fastforce
  then show ?thesis using d docs by (simp add: raw_source_def)
qed

abbreviation demo_revised :: transcript_package where
  "demo_revised \<equiv> revision_package (demo_env zero_sha) demo_correction (demo_package zero_sha)
     (transcript_items (pd_body demo_raw)) ''p2'' (next_version demo_frozen_store (rv_session_id demo_correction)) 10"

lemma demo_no_translations: "copied_translations env pid (pk_documents (demo_package zero_sha)) = []"
proof -
  have "filter (\<lambda>d. is_live_translation (pd_body d)) (pk_documents (demo_package zero_sha)) = []"
    unfolding filter_empty_conv demo_documents by (simp add: document_groups)
  then show ?thesis by (simp add: copied_translations_def)
qed

lemma demo_revised_ids:
  "distinct (map pd_document_id (pk_documents demo_revised))"
  "set (map pd_document_id (pk_documents demo_revised)) \<inter> set (map dc_id (st_documents demo_frozen_store)) = {}"
proof -
  show "distinct (map pd_document_id (pk_documents demo_revised))"
    unfolding revision_package_def Let_def package_of_sel demo_no_translations
    by (rule distinct_map_sort) (simp add: revision_documents_def Let_def document_groups demo_stable_id demo_correction_def)
  have "set (map dc_id (st_documents demo_frozen_store)) = pd_document_id ` set (pk_documents (demo_package zero_sha))"
    by (simp add: demo_frozen_store_def Let_def image_image)
  moreover have "set (map pd_document_id (pk_documents demo_revised))
      = pd_document_id ` set (revision_documents (demo_env zero_sha) ''p2'' ''en'' (transcript_items (pd_body demo_raw))
          (map (approved_item (raw_items_by_segment (transcript_items (pd_body demo_raw)))) (rv_items demo_correction)) []
          (mf_session_snapshot (pk_manifest (demo_package zero_sha))) (mf_provider_snapshot (pk_manifest (demo_package zero_sha)))
          (mf_metrics_snapshot (pk_manifest (demo_package zero_sha))))"
    by (simp add: revision_package_def Let_def demo_no_translations demo_correction_def)
  ultimately show "set (map pd_document_id (pk_documents demo_revised)) \<inter> set (map dc_id (st_documents demo_frozen_store)) = {}"
    unfolding demo_documents by (simp add: revision_documents_def Let_def document_groups demo_stable_id)
qed

lemma demo_raw_items: "item_segments (transcript_items (pd_body demo_raw)) = {''a''}"
  by (simp add: item_segments_def demo_raw_def demo_timeline_def source_item_def timeline_segment_of_def demo_segment_def)

lemma demo_correction_ready:
  "revision_ok demo_correction" "revision_content demo_uuid (rv_items demo_correction) = Inr (rv_items demo_correction)"
  "validate_against_package (rv_items demo_correction) (demo_package zero_sha) = Inr ()"
  "binding_ready (bind_env ''a'') \<lparr>at_executions = [demo_bound_execution], at_snapshots = [demo_bound_snapshot]\<rparr>
     (rv_session_id demo_correction) ''p2'' (item_segments (transcript_items (pd_body demo_raw))) []"
proof -
  show "revision_ok demo_correction" by (simp add: revision_ok_def demo_correction_def language_ok_def)
  show "revision_content demo_uuid (rv_items demo_correction) = Inr (rv_items demo_correction)"
    unfolding demo_correction_def by code_simp
  have "revision_segments (rv_items demo_correction) = {''a''}" by (simp add: revision_segments_def demo_correction_def)
  then show "validate_against_package (rv_items demo_correction) (demo_package zero_sha) = Inr ()"
    by (simp add: validate_against_package_def demo_raw_source demo_raw_items Let_def)
  have "{sg_segment_id r | r. r \<in> set demo_rows \<and> sg_session_id r = ''s1''} = {''a''}"
    by (auto simp: demo_rows_def demo_segment_def)
  with demo_binding_ready show "binding_ready (bind_env ''a'')
      \<lparr>at_executions = [demo_bound_execution], at_snapshots = [demo_bound_snapshot]\<rparr>
      (rv_session_id demo_correction) ''p2'' (item_segments (transcript_items (pd_body demo_raw))) []"
    by (simp add: demo_raw_items demo_correction_def binding_ready_def id36_ok_def)
qed

theorem approved_revision_builds_witness:
  "\<exists>st' created. build_from_revision (demo_env zero_sha) (bind_env ''a'')
        \<lparr>at_executions = [demo_bound_execution], at_snapshots = [demo_bound_snapshot]\<rparr> demo_correction ''p2'' 10
        demo_frozen_store [] = Inr (st', created, demo_revised)
    \<and> load_package ''p2'' st' = Inr demo_revised"
proof -
  have st: "store_inv demo_frozen_store" "''p2'' \<notin> set (map rp_id (st_packages demo_frozen_store))" "''p2'' \<noteq> []"
    by (auto simp: store_inv_def package_table_inv_def demo_frozen_store_def Let_def)
  have env: "digests_ok (demo_env zero_sha)" by (simp add: digests_ok_def demo_env_def zero_sha_def)
  have law: "uuid_law demo_uuid" by (auto simp: uuid_law_def demo_uuid_def)
  have base: "rv_status demo_correction = ''approved''" "load_package (rv_base_package_id demo_correction) demo_frozen_store = Inr (demo_package zero_sha)"
    "pk_session_id (demo_package zero_sha) = rv_session_id demo_correction"
    "mf_source_language (pk_manifest (demo_package zero_sha)) = rv_language demo_correction"
    by (simp_all add: demo_correction_def demo_frozen_loads demo_package_sel)
  show ?thesis
    by (rule ex_forward [OF approved_revision_builds [OF st(1) env law st(3,2) base(1) demo_correction_ready(1,2) base(2)
        demo_package_valid base(3,4) demo_correction_ready(3) demo_raw_source refl demo_plain demo_revised_ids
        demo_correction_ready(4)]], erule ex_forward) auto
qed

text \<open>
  Not every baseline package can be revised. Of two Finals that start together and have no
  end, the timeline ends the first after the default duration and the second at the start of
  the next Final, so the items are not sorted by start and end, and the content that
  \<open>create_from_package\<close> copies from the package is rejected.
\<close>

lemma equal_starts_not_revisable:
  "case normalize_timeline [demo_segment ''a'' (Some 900) None, demo_segment ''b'' (Some 900) None,
      demo_segment ''c'' (Some 1500) None] of Inl _ \<Rightarrow> False
   | Inr tln \<Rightarrow> revision_content demo_uuid (map (\<lambda>t. revision_item_of (source_item (demo_env zero_sha) ''s1'' t))
       (tln_segments tln)) = Inl (ValueError ''revision items must be sorted by time'')"
  by code_simp

end
