(* ===== verification/Url_Policy.thy ===== *)
theory Url_Policy
  imports Package_Validator
begin

section \<open>Remote media URLs\<close>

text \<open>
  Models \<open>hls/url_policy.py\<close>: which remote URLs the server may fetch. \<open>validate\<close> is a loop over
  redirects with effects (a host is resolved, a URL is probed), so the model returns the list of
  effects with the result. Arguments (\<open>url_env\<close>) are the URL and address functions of the
  standard library and the two callbacks; a callback may answer differently every time, so it
  is given the number of the redirect. Its exceptions are either those the loop catches
  (\<open>Caught\<close>) or others (\<open>Raised\<close>).
\<close>

datatype 'a outcome = Done 'a | Caught | Raised py_error

record parsed_url =
  pu_scheme :: string
  pu_hostname :: "string option option"  \<comment> \<open>\<open>None\<close>: the property raises \<open>ValueError\<close>\<close>
  pu_username :: "string option"
  pu_password :: "string option"
  pu_port :: "int option option"  \<comment> \<open>\<open>None\<close>: the property raises \<open>ValueError\<close>\<close>
  pu_path :: string
  pu_query :: string

record url_env =
  ue_urlsplit :: "string \<Rightarrow> parsed_url option"
  ue_ip_address :: "string \<Rightarrow> (string \<times> bool) option"  \<comment> \<open>\<open>compressed\<close> and \<open>is_global\<close>\<close>
  ue_idna :: "string \<Rightarrow> string option"
  ue_urlunsplit :: "string \<Rightarrow> string \<Rightarrow> string \<Rightarrow> string \<Rightarrow> string \<Rightarrow> string"
  ue_urljoin :: "string \<Rightarrow> string \<Rightarrow> string res"
  ue_resolver :: "int \<Rightarrow> string \<Rightarrow> int \<Rightarrow> string list outcome"
  ue_redirect_probe :: "int \<Rightarrow> string \<Rightarrow> string option outcome"

record normalized_url =
  nu_fetch_url :: string
  nu_display_url :: string
  nu_host :: string
  nu_port :: int

record validated_hls_url =
  vu_fetch_url :: string
  vu_display_url :: string
  vu_resolved_host :: string
  vu_resolved_ips :: "string list"
  vu_redirect_count :: int

record url_decision =
  ud_normalized_url :: "string option"
  ud_display_url :: "string option"
  ud_resolved_host :: "string option"
  ud_resolved_ips :: "string list"
  ud_allowed :: bool
  ud_rejection_reason :: "string option"
  ud_redirect_count :: int

definition REJECTION_MESSAGES :: "(string, string) dict" where
  "REJECTION_MESSAGES =
     [(''invalid_url'', ''Remote media URL is invalid''),
      (''unsupported_scheme'', ''Remote media URL must use HTTP or HTTPS''),
      (''missing_host'', ''Remote media URL must include a host''),
      (''credentials_not_allowed'', ''Remote media URL must not include credentials''),
      (''invalid_port'', ''Remote media URL port is invalid''),
      (''localhost_not_allowed'', ''Remote media URL must not use localhost''),
      (''host_resolution_failed'', ''Remote media URL host could not be resolved''),
      (''non_public_address'', ''Remote media URL must resolve only to public addresses''),
      (''redirect_probe_failed'', ''Remote media URL could not be checked safely''),
      (''redirect_limit_exceeded'', ''Remote media URL exceeded the redirect limit'')]"

definition require_allowed :: "url_decision \<Rightarrow> validated_hls_url res" where
  "require_allowed d =
     (if \<not> ud_allowed d
      then (let reason = str_or (ud_rejection_reason d) ''invalid_url'' in
            case dict_get REJECTION_MESSAGES reason of
              None \<Rightarrow> Inl (KeyError reason) | Some m \<Rightarrow> Inl (HLSURLValidationError m))
      else (case (ud_normalized_url d, ud_display_url d, ud_resolved_host d) of
              (Some u, Some v, Some h) \<Rightarrow>
                Inr \<lparr>vu_fetch_url = u, vu_display_url = v, vu_resolved_host = h,
                     vu_resolved_ips = ud_resolved_ips d, vu_redirect_count = ud_redirect_count d\<rparr>
            | _ \<Rightarrow> Inl (RuntimeError ''AssertionError'')))"

subsection \<open>Normalization\<close>

definition is_public_address :: "url_env \<Rightarrow> string \<Rightarrow> bool" where
  "is_public_address env value = (case ue_ip_address env value of None \<Rightarrow> False | Some (_, is_global) \<Rightarrow> is_global)"

definition display_netloc :: "string \<Rightarrow> int option \<Rightarrow> string" where
  "display_netloc host port =
     (let display_host = (if CHR '':'' \<in> set host then ''['' @ host @ '']'' else host) in
      case port of None \<Rightarrow> display_host | Some p \<Rightarrow> display_host @ '':'' @ dumps_int p)"

definition rstrip_dots :: "string \<Rightarrow> string" where
  "rstrip_dots s = rev (dropWhile (\<lambda>c. c = CHR ''.'') (rev s))"

definition normalize_host :: "url_env \<Rightarrow> string \<Rightarrow> string + string" where
  "normalize_host env raw_host =
     (case ue_ip_address env raw_host of
        Some (compressed, _) \<Rightarrow> Inr compressed
      | None \<Rightarrow>
          (case ue_idna env (rstrip_dots raw_host) of
             None \<Rightarrow> Inl ''invalid_url''
           | Some ascii \<Rightarrow>
               let host = map lower_char ascii in
               if host = [] then Inl ''missing_host''
               else if host = ''localhost'' \<or> ends_with ''.localhost'' host then Inl ''localhost_not_allowed''
               else Inr host))"

definition http_scheme :: "string \<Rightarrow> bool" where
  "http_scheme scheme \<longleftrightarrow> scheme \<in> {''http'', ''https''}"

definition effective_port :: "string \<Rightarrow> int option \<Rightarrow> int" where
  "effective_port scheme explicit_port =
     (let port_default = (if scheme = ''https'' then 443 else 80) in
      case explicit_port of None \<Rightarrow> port_default | Some p \<Rightarrow> if p = 0 then port_default else p)"

definition normalize_url :: "url_env \<Rightarrow> string \<Rightarrow> string + normalized_url" where
  "normalize_url env value =
     (let candidate = py_strip value in
      if candidate = [] \<or> list_ex (\<lambda>c. (of_char c :: nat) < 32 \<or> (of_char c :: nat) = 127) candidate then Inl ''invalid_url''
      else if CHR 0x5C \<in> set candidate then Inl ''invalid_url''
      else case ue_urlsplit env candidate of None \<Rightarrow> Inl ''invalid_url'' | Some parsed \<Rightarrow>
        let scheme = map lower_char (pu_scheme parsed) in
        if \<not> http_scheme scheme then Inl ''unsupported_scheme''
        else case pu_hostname parsed of None \<Rightarrow> Inl ''invalid_url'' | Some None \<Rightarrow> Inl ''missing_host''
        | Some (Some raw_host) \<Rightarrow>
            if pu_username parsed \<noteq> None \<or> pu_password parsed \<noteq> None then Inl ''credentials_not_allowed''
            else case pu_port parsed of None \<Rightarrow> Inl ''invalid_port'' | Some explicit_port \<Rightarrow>
              rbind (normalize_host env raw_host) (\<lambda>host.
                let netloc = display_netloc host explicit_port;
                    path = (if pu_path parsed = [] then ''/'' else pu_path parsed)
                in Inr \<lparr>nu_fetch_url = ue_urlunsplit env scheme netloc path (pu_query parsed) [],
                        nu_display_url = take 255 (ue_urlunsplit env scheme netloc path [] []),
                        nu_host = host, nu_port = effective_port scheme explicit_port\<rparr>))"

subsection \<open>The loop over redirects\<close>

datatype url_effect = Resolved string int "string list" | Probed string

definition deny :: "string \<Rightarrow> normalized_url option \<Rightarrow> string list \<Rightarrow> int \<Rightarrow> url_decision" where
  "deny reason final_url addresses redirect_count =
     \<lparr>ud_normalized_url = map_option nu_fetch_url final_url, ud_display_url = map_option nu_display_url final_url,
      ud_resolved_host = map_option nu_host final_url, ud_resolved_ips = sort (remdups addresses),
      ud_allowed = False, ud_rejection_reason = Some reason, ud_redirect_count = redirect_count\<rparr>"

definition allow :: "normalized_url \<Rightarrow> string list \<Rightarrow> int \<Rightarrow> url_decision" where
  "allow nu addresses redirect_count =
     \<lparr>ud_normalized_url = Some (nu_fetch_url nu), ud_display_url = Some (nu_display_url nu),
      ud_resolved_host = Some (nu_host nu), ud_resolved_ips = addresses, ud_allowed = True,
      ud_rejection_reason = None, ud_redirect_count = redirect_count\<rparr>"

definition addresses_of :: "url_env \<Rightarrow> int \<Rightarrow> normalized_url \<Rightarrow> url_effect list \<times> string list outcome" where
  "addresses_of env redirect_count nu =
     (case ue_ip_address env (nu_host nu) of
        Some (compressed, _) \<Rightarrow> ([], Done [compressed])
      | None \<Rightarrow>
          (case ue_resolver env redirect_count (nu_host nu) (nu_port nu) of
             Done answer \<Rightarrow> ([Resolved (nu_host nu) (nu_port nu) (sort (remdups answer))], Done (sort (remdups answer)))
           | Caught \<Rightarrow> ([], Caught)
           | Raised e \<Rightarrow> ([], Raised e)))"

function validate_loop ::
  "url_env \<Rightarrow> int \<Rightarrow> string \<Rightarrow> int \<Rightarrow> string list \<Rightarrow> normalized_url option \<Rightarrow> url_effect list \<times> url_decision res" where
  "validate_loop env max_redirects current_url redirect_count resolved_addresses final_url =
     (case normalize_url env current_url of
        Inl reason \<Rightarrow> ([], Inr (deny reason final_url resolved_addresses redirect_count))
      | Inr nu \<Rightarrow>
          (case addresses_of env redirect_count nu of
             (es, Raised e) \<Rightarrow> (es, Inl e)
           | (es, Caught) \<Rightarrow> (es, Inr (deny ''host_resolution_failed'' (Some nu) resolved_addresses redirect_count))
           | (es, Done addresses) \<Rightarrow>
               if addresses = [] \<or> list_ex (\<lambda>a. \<not> is_public_address env a) addresses
               then (es, Inr (deny ''non_public_address'' (Some nu) addresses redirect_count))
               else
                 (case ue_redirect_probe env redirect_count (nu_fetch_url nu) of
                    Raised e \<Rightarrow> (es @ [Probed (nu_fetch_url nu)], Inl e)
                  | Caught \<Rightarrow> (es @ [Probed (nu_fetch_url nu)],
                      Inr (deny ''redirect_probe_failed'' (Some nu) addresses redirect_count))
                  | Done None \<Rightarrow> (es @ [Probed (nu_fetch_url nu)], Inr (allow nu addresses redirect_count))
                  | Done (Some location) \<Rightarrow>
                      if redirect_count \<ge> max_redirects
                      then (es @ [Probed (nu_fetch_url nu)],
                        Inr (deny ''redirect_limit_exceeded'' (Some nu) addresses redirect_count))
                      else
                        (case ue_urljoin env (nu_fetch_url nu) location of
                           Inl e \<Rightarrow> (es @ [Probed (nu_fetch_url nu)], Inl e)
                         | Inr next_url \<Rightarrow>
                             (case validate_loop env max_redirects next_url (redirect_count + 1) addresses (Some nu) of
                                (rest, d) \<Rightarrow> (es @ [Probed (nu_fetch_url nu)] @ rest, d))))))"
  by pat_completeness auto
termination
  by (relation "measure (\<lambda>(env, mx, url, n, as, final). nat (mx - n))") auto

declare validate_loop.simps [simp del]

definition validate_url :: "url_env \<Rightarrow> int \<Rightarrow> string \<Rightarrow> url_effect list \<times> url_decision res" where
  "validate_url env max_redirects value =
     (if max_redirects < 0 then ([], Inl (ValueError ''max_redirects must not be negative''))
      else validate_loop env max_redirects value 0 [] None)"

definition validate_hls_url :: "url_env \<Rightarrow> int \<Rightarrow> string \<Rightarrow> url_effect list \<times> validated_hls_url res" where
  "validate_hls_url env max_redirects value =
     (case validate_url env max_redirects value of (es, d) \<Rightarrow> (es, rbind d require_allowed))"

subsection \<open>What is contacted\<close>

fun probed :: "url_effect \<Rightarrow> string option" where
  "probed (Probed u) = Some u"
| "probed (Resolved _ _ _) = None"

abbreviation probes :: "url_effect list \<Rightarrow> string list" where
  "probes es \<equiv> List.map_filter probed es"

text \<open>
  A hop is a normalized URL with the addresses it was judged by: those of a literal host, or
  the answer of a resolution that is recorded among the effects; never empty, all public.
\<close>

definition hop_ok :: "url_env \<Rightarrow> url_effect list \<Rightarrow> normalized_url \<times> string list \<Rightarrow> bool" where
  "hop_ok env es hop \<longleftrightarrow> (\<exists>url. normalize_url env url = Inr (fst hop)) \<and> snd hop \<noteq> []
     \<and> (\<forall>a \<in> set (snd hop). is_public_address env a)
     \<and> (case ue_ip_address env (nu_host (fst hop)) of
          Some (compressed, _) \<Rightarrow> snd hop = [compressed]
        | None \<Rightarrow> Resolved (nu_host (fst hop)) (nu_port (fst hop)) (snd hop) \<in> set es)"

definition raised_by :: "url_env \<Rightarrow> py_error \<Rightarrow> bool" where
  "raised_by env e \<longleftrightarrow> (\<exists>n h p. ue_resolver env n h p = Raised e) \<or> (\<exists>n u. ue_redirect_probe env n u = Raised e)
     \<or> (\<exists>u l. ue_urljoin env u l = Inl e)"

definition judged :: "url_env \<Rightarrow> int \<Rightarrow> int \<Rightarrow> url_effect list \<Rightarrow> url_decision res \<Rightarrow> (normalized_url \<times> string list) list \<Rightarrow> bool" where
  "judged env mx n es r hops \<longleftrightarrow>
     probes es = map (\<lambda>h. nu_fetch_url (fst h)) hops \<and> (\<forall>h \<in> set hops. hop_ok env es h)
     \<and> int (length hops) \<le> max 0 (mx - n) + 1
     \<and> (case r of Inl e \<Rightarrow> raised_by env e
        | Inr d \<Rightarrow> if ud_allowed d
            then hops \<noteq> [] \<and> d = allow (fst (last hops)) (snd (last hops)) (n + int (length hops) - 1)
            else (\<exists>reason \<in> set (map fst REJECTION_MESSAGES). ud_rejection_reason d = Some reason))"

lemma deny_sel [simp]: "\<not> ud_allowed (deny r f as n)" "ud_rejection_reason (deny r f as n) = Some r"
  by (simp_all add: deny_def)

lemma allow_allowed [simp]: "ud_allowed (allow nu as n)"
  by (simp add: allow_def)

lemma normalize_reason:
  "normalize_url env url = Inl reason \<Longrightarrow> reason \<in> set (map fst REJECTION_MESSAGES)"
  by (auto simp: normalize_url_def normalize_host_def rbind_eq_Inl Let_def REJECTION_MESSAGES_def
      split: if_splits option.splits prod.splits)

lemma map_filter_append: "List.map_filter f (xs @ ys) = List.map_filter f xs @ List.map_filter f ys"
  by (simp add: List.map_filter_def)

lemma probes_simps [simp]: "probes [] = []" "probes (Probed u # es) = u # probes es" "probes (Resolved h p as # es) = probes es"
  by (simp_all add: List.map_filter_def)

lemma addresses_effects:
  assumes "addresses_of env n nu = (es, out)"
  shows "probes es = []" "out = Raised e \<Longrightarrow> raised_by env e"
    "out = Done as \<Longrightarrow> case ue_ip_address env (nu_host nu) of Some (c, _) \<Rightarrow> as = [c]
       | None \<Rightarrow> Resolved (nu_host nu) (nu_port nu) as \<in> set es"
  using assms by (auto simp: addresses_of_def raised_by_def split: option.splits outcome.splits prod.splits)

lemma judged_deny:
  assumes "probes es = []" "reason \<in> set (map fst REJECTION_MESSAGES)"
  shows "judged env mx n es (Inr (deny reason f as n')) []"
  using assms by (simp add: judged_def)

lemma hop_ok_mono: "hop_ok env es h \<Longrightarrow> set es \<subseteq> set es' \<Longrightarrow> hop_ok env es' h"
  by (auto simp: hop_ok_def split: option.splits)

lemma judged_loop:
  "\<exists>hops. judged env mx n (fst (validate_loop env mx url n as final)) (snd (validate_loop env mx url n as final)) hops"
proof (induction env mx url n as final rule: validate_loop.induct)
  case (1 env mx url n as final)
  show ?case
  proof (cases "normalize_url env url")
    case (Inl reason)
    then show ?thesis using judged_deny [OF _ normalize_reason [OF Inl], of "[]"]
      by (intro exI [of _ "[]"]) (simp add: validate_loop.simps [of env mx url])
  next
    case nu: (Inr nu)
    obtain es out where addr: "addresses_of env n nu = (es, out)" by (cases "addresses_of env n nu")
    note eff = addresses_effects [OF addr]
    show ?thesis
    proof (cases out)
      case (Raised e)
      then show ?thesis using nu addr eff(1,2) by (intro exI [of _ "[]"]) (simp add: validate_loop.simps [of env mx url] judged_def)
    next
      case Caught
      then show ?thesis using nu addr eff(1)
        by (intro exI [of _ "[]"]) (simp add: validate_loop.simps [of env mx url] judged_deny REJECTION_MESSAGES_def)
    next
      case (Done addrs)
      show ?thesis
      proof (cases "addrs = [] \<or> list_ex (\<lambda>a. \<not> is_public_address env a) addrs")
        case True
        then show ?thesis using nu addr Done eff(1)
          by (intro exI [of _ "[]"]) (simp add: validate_loop.simps [of env mx url] judged_deny REJECTION_MESSAGES_def)
      next
        case public: False
        let ?u = "nu_fetch_url nu" and ?es = "es @ [Probed (nu_fetch_url nu)]"
        have hop: "hop_ok env ?es (nu, addrs)"
          using nu public eff(3) [OF Done] by (auto simp: hop_ok_def list_ex_iff split: option.splits)
        have pr: "probes ?es = [?u]" using eff(1) by (simp add: map_filter_append)
        note step = validate_loop.simps [of env mx url n as final] nu addr Done public
        show ?thesis
        proof (cases "ue_redirect_probe env n ?u")
          case (Raised e)
          then have "raised_by env e" by (auto simp: raised_by_def)
          with Raised hop pr show ?thesis by (intro exI [of _ "[(nu, addrs)]"]) (simp add: step judged_def)
        next
          case Caught
          with hop pr show ?thesis by (intro exI [of _ "[(nu, addrs)]"]) (simp add: step judged_def REJECTION_MESSAGES_def)
        next
          case probe: (Done location)
          show ?thesis
          proof (cases location)
            case None
            with probe hop pr show ?thesis by (intro exI [of _ "[(nu, addrs)]"]) (simp add: step judged_def)
          next
            case (Some loc)
            show ?thesis
            proof (cases "n \<ge> mx")
              case True
              with probe Some hop pr show ?thesis
                by (intro exI [of _ "[(nu, addrs)]"]) (simp add: step judged_def REJECTION_MESSAGES_def)
            next
              case False
              show ?thesis
              proof (cases "ue_urljoin env ?u loc")
                case (Inl e)
                then have "raised_by env e" by (auto simp: raised_by_def)
                with probe Some False Inl hop pr show ?thesis by (intro exI [of _ "[(nu, addrs)]"]) (simp add: step judged_def)
              next
                case (Inr next_url)
                obtain rest r where loop: "validate_loop env mx next_url (n + 1) addrs (Some nu) = (rest, r)"
                  by (cases "validate_loop env mx next_url (n + 1) addrs (Some nu)")
                have "\<exists>hops. judged env mx (n + 1) (fst (rest, r)) (snd (rest, r)) hops"
                  using "1" nu addr Done public probe Some False Inr unfolding loop [symmetric] by (auto simp: list_ex_iff)
                then obtain hops where hops: "judged env mx (n + 1) rest r hops" by auto
                have "judged env mx n (?es @ rest) r ((nu, addrs) # hops)"
                  using hops hop pr False unfolding judged_def
                  by (auto simp: map_filter_append eff(1) intro: hop_ok_mono split: sum.splits if_splits)
                then show ?thesis
                  using probe Some False Inr by (intro exI [of _ "(nu, addrs) # hops"]) (simp add: step loop)
              qed
            qed
          qed
        qed
      qed
    qed
  qed
qed

text \<open>
  The authority of a URL for a host: the host itself (in brackets when it is an IPv6
  address) and the port when the URL names one; and the port a connection goes to.
\<close>

abbreviation authority_of :: "string \<Rightarrow> int option \<Rightarrow> string" where
  "authority_of host port \<equiv>
     (if CHR '':'' \<in> set host then ''['' @ host @ '']'' else host)
       @ (case port of None \<Rightarrow> [] | Some p \<Rightarrow> '':'' @ dumps_int p)"

abbreviation connects_to :: "string \<Rightarrow> int option \<Rightarrow> int" where
  "connects_to scheme port \<equiv>
     (case port of Some p \<Rightarrow> if p \<noteq> 0 then p else if scheme = ''https'' then 443 else 80
      | None \<Rightarrow> if scheme = ''https'' then 443 else 80)"

lemma display_netloc_authority: "display_netloc host port = authority_of host port"
  by (simp add: display_netloc_def Let_def split: option.splits)

lemma effective_port_connects: "effective_port scheme port = connects_to scheme port"
  by (simp add: effective_port_def Let_def split: option.splits)

lemma normalize_url_Inr:
  assumes "normalize_url env url = Inr nu"
  obtains parsed :: parsed_url and raw port path where "http_scheme (map lower_char (pu_scheme parsed))"
    "normalize_host env raw = Inr (nu_host nu)"
    "nu_fetch_url nu = ue_urlunsplit env (map lower_char (pu_scheme parsed)) (authority_of (nu_host nu) port)
       path (pu_query parsed) []"
    "nu_port nu = connects_to (map lower_char (pu_scheme parsed)) port"
proof -
  from assms obtain parsed :: parsed_url and raw host explicit_port path where p: "http_scheme (map lower_char (pu_scheme parsed))"
    "normalize_host env raw = Inr host"
    "nu = \<lparr>nu_fetch_url = ue_urlunsplit env (map lower_char (pu_scheme parsed)) (display_netloc host explicit_port) path (pu_query parsed) [],
       nu_display_url = take 255 (ue_urlunsplit env (map lower_char (pu_scheme parsed)) (display_netloc host explicit_port) path [] []),
       nu_host = host, nu_port = effective_port (map lower_char (pu_scheme parsed)) explicit_port\<rparr>"
    unfolding normalize_url_def Let_def by (auto simp: rbind_eq_Inr split: if_splits option.splits)
  show thesis
    by (rule that [of parsed raw explicit_port path])
      (use p in \<open>simp_all add: display_netloc_authority effective_port_connects\<close>)
qed

lemma normalized_url_safe:
  assumes "normalize_url env url = Inr nu"
  shows "\<exists>scheme port path query. scheme \<in> {''http'', ''https''}
       \<and> nu_fetch_url nu = ue_urlunsplit env scheme (authority_of (nu_host nu) port) path query []
       \<and> nu_port nu = connects_to scheme port"
    "(\<exists>raw g. ue_ip_address env raw = Some (nu_host nu, g))
       \<or> nu_host nu \<noteq> [] \<and> nu_host nu \<noteq> ''localhost'' \<and> \<not> ends_with ''.localhost'' (nu_host nu)"
proof -
  obtain parsed :: parsed_url and raw port path where p: "http_scheme (map lower_char (pu_scheme parsed))"
    "normalize_host env raw = Inr (nu_host nu)"
    "nu_fetch_url nu = ue_urlunsplit env (map lower_char (pu_scheme parsed)) (authority_of (nu_host nu) port)
       path (pu_query parsed) []"
    "nu_port nu = connects_to (map lower_char (pu_scheme parsed)) port"
    by (rule normalize_url_Inr [OF assms])
  show "\<exists>scheme port path query. scheme \<in> {''http'', ''https''}
       \<and> nu_fetch_url nu = ue_urlunsplit env scheme (authority_of (nu_host nu) port) path query []
       \<and> nu_port nu = connects_to scheme port"
    by (intro exI conjI, rule p(1) [unfolded http_scheme_def], rule p(3), rule p(4))
  show "(\<exists>raw g. ue_ip_address env raw = Some (nu_host nu, g))
       \<or> nu_host nu \<noteq> [] \<and> nu_host nu \<noteq> ''localhost'' \<and> \<not> ends_with ''.localhost'' (nu_host nu)"
    using p(2) by (auto simp: normalize_host_def Let_def split: option.splits if_splits)
qed

lemma require_allowed_cases:
  assumes "case r of Inl e \<Rightarrow> raised_by env e
    | Inr d \<Rightarrow> if ud_allowed d then \<exists>nu as n. d = allow nu as n
        else (\<exists>reason \<in> set (map fst REJECTION_MESSAGES). ud_rejection_reason d = Some reason)"
    and "rbind r require_allowed = Inl e"
  shows "raised_by env e \<or> (\<exists>m. e = HLSURLValidationError m)"
  using assms
  by (auto simp: rbind_eq_Inl require_allowed_def allow_def REJECTION_MESSAGES_def str_or_def split: sum.splits if_splits)

text \<open>
  C33. The server contacts nothing it has not judged: for every URL and whatever resolver, remote
  servers and redirects answer, \<open>validate\<close> ends after at most \<open>max_redirects + 1\<close> probes; every
  URL it probes is an HTTP or HTTPS URL whose authority is the judged host (with the port of
  the URL), and this host, never \<open>localhost\<close> or a name below it, was a literal address or was
  resolved for the port the URL is fetched on, to a non-empty list of addresses that are all
  public. If it allows a URL,
  this is the last one probed, with exactly these addresses. A refusal carries a documented
  reason, so \<open>validate_hls_url\<close> raises only \<open>HLSURLValidationError\<close>, apart from exceptions of
  the callbacks and of \<open>urljoin\<close>.
\<close>

theorem hls_url_policy_safe:
  assumes "0 \<le> mx" "validate_url env mx value = (es, r)"
  shows "\<exists>hops. probes es = map (\<lambda>h. nu_fetch_url (fst h)) hops \<and> int (length hops) \<le> mx + 1
    \<and> (\<forall>(nu, as) \<in> set hops. as \<noteq> [] \<and> (\<forall>a \<in> set as. is_public_address env a)
        \<and> (\<exists>scheme port path query. scheme \<in> {''http'', ''https''}
             \<and> nu_fetch_url nu = ue_urlunsplit env scheme (authority_of (nu_host nu) port) path query []
             \<and> nu_port nu = connects_to scheme port)
        \<and> ((\<exists>raw g. ue_ip_address env raw = Some (nu_host nu, g))
           \<or> nu_host nu \<noteq> [] \<and> nu_host nu \<noteq> ''localhost'' \<and> \<not> ends_with ''.localhost'' (nu_host nu))
        \<and> (case ue_ip_address env (nu_host nu) of Some (compressed, _) \<Rightarrow> as = [compressed]
           | None \<Rightarrow> Resolved (nu_host nu) (nu_port nu) as \<in> set es))
    \<and> (\<forall>d. r = Inr d \<and> ud_allowed d \<longrightarrow> hops \<noteq> []
        \<and> d = allow (fst (last hops)) (snd (last hops)) (int (length hops) - 1))
    \<and> (\<forall>e. snd (validate_hls_url env mx value) = Inl e \<longrightarrow> raised_by env e \<or> (\<exists>m. e = HLSURLValidationError m))"
proof -
  have loop: "validate_loop env mx value 0 [] None = (es, r)" using assms by (simp add: validate_url_def)
  obtain hops where hops: "judged env mx 0 es r hops" using judged_loop [of env mx 0 "value" "[]" None] loop by auto
  have "\<forall>h \<in> set hops. hop_ok env es h" using hops by (simp add: judged_def)
  then have ok: "\<forall>(nu, as) \<in> set hops. as \<noteq> [] \<and> (\<forall>a \<in> set as. is_public_address env a)
        \<and> (\<exists>scheme port path query. scheme \<in> {''http'', ''https''}
             \<and> nu_fetch_url nu = ue_urlunsplit env scheme (authority_of (nu_host nu) port) path query []
             \<and> nu_port nu = connects_to scheme port)
        \<and> ((\<exists>raw g. ue_ip_address env raw = Some (nu_host nu, g))
           \<or> nu_host nu \<noteq> [] \<and> nu_host nu \<noteq> ''localhost'' \<and> \<not> ends_with ''.localhost'' (nu_host nu))
        \<and> (case ue_ip_address env (nu_host nu) of Some (compressed, _) \<Rightarrow> as = [compressed]
           | None \<Rightarrow> Resolved (nu_host nu) (nu_port nu) as \<in> set es)"
  proof (intro ballI)
    fix h assume "h \<in> set hops"
    with \<open>\<forall>h \<in> set hops. hop_ok env es h\<close> have "hop_ok env es h" by blast
    then obtain url where url: "normalize_url env url = Inr (fst h)" and rest: "snd h \<noteq> []"
      "\<forall>a \<in> set (snd h). is_public_address env a" "case ue_ip_address env (nu_host (fst h)) of
          Some (compressed, _) \<Rightarrow> snd h = [compressed]
        | None \<Rightarrow> Resolved (nu_host (fst h)) (nu_port (fst h)) (snd h) \<in> set es"
      by (auto simp: hop_ok_def)
    show "case h of (nu, as) \<Rightarrow> as \<noteq> [] \<and> (\<forall>a \<in> set as. is_public_address env a)
        \<and> (\<exists>scheme port path query. scheme \<in> {''http'', ''https''}
             \<and> nu_fetch_url nu = ue_urlunsplit env scheme (authority_of (nu_host nu) port) path query []
             \<and> nu_port nu = connects_to scheme port)
        \<and> ((\<exists>raw g. ue_ip_address env raw = Some (nu_host nu, g))
           \<or> nu_host nu \<noteq> [] \<and> nu_host nu \<noteq> ''localhost'' \<and> \<not> ends_with ''.localhost'' (nu_host nu))
        \<and> (case ue_ip_address env (nu_host nu) of Some (compressed, _) \<Rightarrow> as = [compressed]
           | None \<Rightarrow> Resolved (nu_host nu) (nu_port nu) as \<in> set es)"
      unfolding case_prod_beta [of _ h] using normalized_url_safe [OF url] rest by (intro conjI)
  qed
  have "case r of Inl e \<Rightarrow> raised_by env e
    | Inr d \<Rightarrow> if ud_allowed d then \<exists>nu as n. d = allow nu as n
        else (\<exists>reason \<in> set (map fst REJECTION_MESSAGES). ud_rejection_reason d = Some reason)"
    using hops by (auto simp: judged_def split: sum.splits if_splits)
  note raises = require_allowed_cases [OF this]
  have "snd (validate_hls_url env mx value) = rbind r require_allowed" by (simp add: validate_hls_url_def assms(2))
  moreover have "\<forall>d. r = Inr d \<and> ud_allowed d \<longrightarrow> hops \<noteq> [] \<and> d = allow (fst (last hops)) (snd (last hops)) (int (length hops) - 1)"
    using hops by (auto simp: judged_def)
  moreover have "probes es = map (\<lambda>h. nu_fetch_url (fst h)) hops" "int (length hops) \<le> mx + 1"
    using hops assms(1) by (simp_all add: judged_def)
  ultimately show ?thesis using ok raises by (intro exI [of _ hops] conjI) auto
qed

text \<open>A public host that redirects once to a literal address of the local network.\<close>

definition demo_url_env :: url_env where
  "demo_url_env = \<lparr>
     ue_urlsplit = (\<lambda>u. Some \<lparr>pu_scheme = ''http'', pu_hostname = Some (Some u), pu_username = None, pu_password = None,
        pu_port = Some None, pu_path = [], pu_query = []\<rparr>),
     ue_ip_address = (\<lambda>h. if h = ''10.0.0.1'' then Some (h, False) else if h = ''93.1.1.1'' then Some (h, True) else None),
     ue_idna = Some, ue_urlunsplit = (\<lambda>s n p q f. s @ ''://'' @ n @ p), ue_urljoin = (\<lambda>u l. Inr l),
     ue_resolver = (\<lambda>n h p. Done [''93.1.1.1'']),
     ue_redirect_probe = (\<lambda>n u. Done (Some ''10.0.0.1''))\<rparr>"

lemma demo_url_run:
  "validate_url demo_url_env 3 ''example.org''
     = ([Resolved ''example.org'' 80 [''93.1.1.1''], Probed ''http://example.org/''],
        Inr (deny ''non_public_address'' (Some \<lparr>nu_fetch_url = ''http://10.0.0.1/'', nu_display_url = ''http://10.0.0.1/'',
          nu_host = ''10.0.0.1'', nu_port = 80\<rparr>) [''10.0.0.1''] 1))"
  by code_simp

theorem hls_url_policy_safe_witness:
  "\<exists>(nu :: normalized_url) as port path query scheme.
     nu_fetch_url nu = ''http://example.org/'' \<and> Resolved (nu_host nu) (nu_port nu) as \<in>
       set [Resolved ''example.org'' 80 [''93.1.1.1''], Probed ''http://example.org/'']
     \<and> nu_fetch_url nu = ue_urlunsplit demo_url_env scheme (authority_of (nu_host nu) port) path query []
     \<and> nu_host nu = ''example.org'' \<and> as = [''93.1.1.1'']"
proof -
  have "(0 :: int) \<le> 3" by simp
  note safe = hls_url_policy_safe [OF this demo_url_run]
  let ?es = "[Resolved ''example.org'' 80 [''93.1.1.1''], Probed ''http://example.org/'']"
  obtain hops :: "(normalized_url \<times> string list) list" where h0: "probes ?es = map (\<lambda>h. nu_fetch_url (fst h)) hops"
    and h2: "\<forall>(nu, as) \<in> set hops. as \<noteq> [] \<and> (\<forall>a \<in> set as. is_public_address demo_url_env a)
        \<and> (\<exists>scheme port path query. scheme \<in> {''http'', ''https''}
             \<and> nu_fetch_url nu = ue_urlunsplit demo_url_env scheme (authority_of (nu_host nu) port) path query []
             \<and> nu_port nu = connects_to scheme port)
        \<and> ((\<exists>raw g. ue_ip_address demo_url_env raw = Some (nu_host nu, g))
           \<or> nu_host nu \<noteq> [] \<and> nu_host nu \<noteq> ''localhost'' \<and> \<not> ends_with ''.localhost'' (nu_host nu))
        \<and> (case ue_ip_address demo_url_env (nu_host nu) of Some (compressed, _) \<Rightarrow> as = [compressed]
           | None \<Rightarrow> Resolved (nu_host nu) (nu_port nu) as \<in> set
               [Resolved ''example.org'' 80 [''93.1.1.1''], Probed ''http://example.org/''])"
    using safe by (elim exE conjE) (rule that, assumption+)
  from h0 have h1: "map (\<lambda>h. nu_fetch_url (fst h)) hops = [''http://example.org/'']" by simp
  from h1 obtain nu as where hop: "hops = [(nu, as)]" "nu_fetch_url nu = ''http://example.org/''"
    by (cases hops) auto
  from h2 have "case (nu, as) of (nu, as) \<Rightarrow> (\<exists>scheme port path query. scheme \<in> {''http'', ''https''} \<and> nu_fetch_url nu = ue_urlunsplit demo_url_env scheme (authority_of (nu_host nu) port) path query [])
      \<and> (case ue_ip_address demo_url_env (nu_host nu) of Some (compressed, _) \<Rightarrow> as = [compressed]
           | None \<Rightarrow> Resolved (nu_host nu) (nu_port nu) as \<in> set ?es)"
    unfolding hop(1) by (simp only: list.set ball_simps split_conv) blast
  then obtain scheme port path query where sch: "scheme \<in> {''http'', ''https''}" and u:
    "nu_fetch_url nu = ue_urlunsplit demo_url_env scheme (authority_of (nu_host nu) port) path query []"
    and r: "case ue_ip_address demo_url_env (nu_host nu) of Some (compressed, _) \<Rightarrow> as = [compressed]
           | None \<Rightarrow> Resolved (nu_host nu) (nu_port nu) as \<in> set ?es"
    unfolding split_conv by (elim exE conjE) (rule that, assumption+)
  have none: "ue_ip_address demo_url_env (nu_host nu) = None"
    using u hop(2) sch by (auto simp: demo_url_env_def split: if_splits option.splits)
  have "nu_host nu = ''example.org''" "as = [''93.1.1.1'']" "Resolved (nu_host nu) (nu_port nu) as \<in> set ?es"
    using r unfolding none by simp_all
  with hop(2) u show ?thesis by (intro exI conjI)
qed

end
