(* ===== verification/Action_Scheduler.thy ===== *)
theory Action_Scheduler
  imports Json "HOL-Library.Multiset"
begin

section \<open>The scheduler of action runs\<close>

text \<open>
  Models \<open>assistant/action_scheduler.py\<close>: a FIFO queue served by a fixed number of workers. The
  scheduler runs on one event loop, so the code between two points where a task may be suspended
  is atomic; each such stretch is one event of \<open>sched_step\<close>, and any interleaving of the events is
  allowed. Acquiring the lock counts as such a point. An event that is not possible in a state
  gives \<open>None\<close>. What the runner answers is part of the event (\<open>Run_Returns\<close>, \<open>Run_Raises\<close>). Futures are
  numbers. The queue's end marker \<open>None\<close>, which no code ever puts, is left out, and so is the
  counter behind \<open>Queue.join\<close>, on which \<open>stop\<close> waits at most its grace time.
\<close>

record action_run_result =
  ar_execution_id :: string
  ar_status :: string
  ar_snapshot_id :: "string option"
  ar_response_text :: "string option"
  ar_claims :: "json list"
  ar_question :: "string option"
  ar_choices :: "string list"
  ar_error_code :: "string option"

definition TERMINAL_ACTION_STATUSES :: "string list" where
  "TERMINAL_ACTION_STATUSES = [''completed'', ''partial'', ''failed'', ''cancelled'']"

definition settled :: "action_run_result \<Rightarrow> bool" where
  "settled r \<longleftrightarrow> ar_status r \<in> set TERMINAL_ACTION_STATUSES \<or> ar_status r = ''needs_input''"

text \<open>
  A worker waits for work, has taken an execution and waits for the lock, runs it, has its
  result and waits for the lock, unwinds an exception to the lock, or has ended.
\<close>

datatype worker = Idle | Holding string | Running string | Releasing string | Unwinding string | Dead

record scheduler =
  sc_concurrency :: nat
  sc_queue :: "string list"
  sc_queued :: "string set"
  sc_queued_at :: "(string, instant) dict"
  sc_active :: "string set"
  sc_workers :: "worker list"
  sc_delayed :: "string list"
  sc_waiters :: "(string, nat list) dict"
  sc_results :: "(string, action_run_result) dict"
  sc_started :: bool
  sc_stopping :: bool
  sc_pending :: "string list"  \<comment> \<open>calls of \<open>enqueue\<close> that wait for the lock\<close>
  sc_done :: "(nat \<times> action_run_result option) list"  \<comment> \<open>futures: a result, or cancelled\<close>

definition scheduler_init :: "int \<Rightarrow> rat \<Rightarrow> scheduler res" where
  "scheduler_init concurrency resume_delay_seconds =
     (if concurrency < 1 then Inl (ValueError ''Action Run concurrency must be positive'')
      else if resume_delay_seconds \<le> 0 then Inl (ValueError ''resume delay must be positive'')
      else Inr \<lparr>sc_concurrency = nat concurrency, sc_queue = [], sc_queued = {}, sc_queued_at = [], sc_active = {},
        sc_workers = [], sc_delayed = [], sc_waiters = [], sc_results = [], sc_started = False, sc_stopping = False,
        sc_pending = [], sc_done = []\<rparr>)"

subsection \<open>Operations\<close>

definition start :: "scheduler \<Rightarrow> scheduler" where
  "start s = (if sc_started s then s
     else s\<lparr>sc_started := True, sc_stopping := False, sc_workers := replicate (sc_concurrency s) Idle\<rparr>)"

definition stop_begin :: "scheduler \<Rightarrow> scheduler" where
  "stop_begin s = (if \<not> sc_started s then s else s\<lparr>sc_stopping := True, sc_delayed := []\<rparr>)"

fun working_on :: "worker \<Rightarrow> string option" where
  "working_on (Running x) = Some x"
| "working_on (Releasing x) = Some x"
| "working_on (Unwinding x) = Some x"
| "working_on _ = None"

fun holding :: "worker \<Rightarrow> string option" where
  "holding (Holding x) = Some x"
| "holding _ = None"

abbreviation running_ids :: "scheduler \<Rightarrow> string list" where
  "running_ids s \<equiv> List.map_filter working_on (sc_workers s)"

abbreviation held_ids :: "scheduler \<Rightarrow> string list" where
  "held_ids s \<equiv> List.map_filter holding (sc_workers s)"

text \<open>The rest of \<open>stop\<close>: cancelled workers leave \<open>_active\<close> in their \<open>finally\<close> block.\<close>

definition stop_end :: "scheduler \<Rightarrow> scheduler" where
  "stop_end s = s\<lparr>sc_active := sc_active s - set (running_ids s), sc_queue := [], sc_queued := {}, sc_queued_at := [],
     sc_done := sc_done s @ map (\<lambda>f. (f, None)) (concat (dict_values (sc_waiters s))),
     sc_waiters := [], sc_workers := [], sc_started := False\<rparr>"

definition accepting :: "scheduler \<Rightarrow> bool" where
  "accepting s \<longleftrightarrow> sc_started s \<and> \<not> sc_stopping s"

definition enqueue :: "string \<Rightarrow> scheduler \<Rightarrow> scheduler res" where
  "enqueue execution_id s =
     (if \<not> accepting s then Inl (RuntimeError ''Action Run scheduler is not accepting work'')
      else Inr (s\<lparr>sc_pending := sc_pending s @ [execution_id]\<rparr>))"

definition enqueue_locked :: "string \<Rightarrow> instant \<Rightarrow> scheduler \<Rightarrow> scheduler" where
  "enqueue_locked execution_id now s =
     (let s = s\<lparr>sc_pending := remove1 execution_id (sc_pending s)\<rparr> in
      if execution_id \<in> sc_queued s \<or> execution_id \<in> sc_active s then s
      else if (case dict_get (sc_results s) execution_id of None \<Rightarrow> False | Some r \<Rightarrow> settled r) then s
      else s\<lparr>sc_queued := insert execution_id (sc_queued s), sc_queued_at := dict_set (sc_queued_at s) execution_id now,
             sc_queue := sc_queue s @ [execution_id]\<rparr>)"

definition resume :: "string \<Rightarrow> scheduler \<Rightarrow> scheduler \<times> py_error option" where
  "resume execution_id s =
     (let s = s\<lparr>sc_results := dict_pop (sc_results s) execution_id\<rparr> in
      case enqueue execution_id s of Inl e \<Rightarrow> (s, Some e) | Inr s' \<Rightarrow> (s', None))"

text \<open>\<open>wait\<close>: the stored result at once, or a new future.\<close>

definition wait :: "string \<Rightarrow> nat \<Rightarrow> scheduler \<Rightarrow> scheduler \<times> action_run_result option" where
  "wait execution_id future s =
     (case dict_get (sc_results s) execution_id of
        Some r \<Rightarrow> if settled r then (s, Some r)
          else (s\<lparr>sc_waiters := dict_set (sc_waiters s) execution_id (or_else (dict_get (sc_waiters s) execution_id) [] @ [future])\<rparr>, None)
      | None \<Rightarrow> (s\<lparr>sc_waiters := dict_set (sc_waiters s) execution_id (or_else (dict_get (sc_waiters s) execution_id) [] @ [future])\<rparr>, None))"

definition resolve_waiters :: "string \<Rightarrow> action_run_result \<Rightarrow> scheduler \<Rightarrow> scheduler" where
  "resolve_waiters execution_id result s =
     (let futures = filter (\<lambda>f. f \<notin> set (map fst (sc_done s))) (or_else (dict_get (sc_waiters s) execution_id) [])
      in s\<lparr>sc_waiters := dict_pop (sc_waiters s) execution_id,
           sc_done := sc_done s @ map (\<lambda>f. (f, Some result)) futures\<rparr>)"

definition schedule_resume :: "string \<Rightarrow> scheduler \<Rightarrow> scheduler" where
  "schedule_resume execution_id s = (if sc_stopping s then s else s\<lparr>sc_delayed := sc_delayed s @ [execution_id]\<rparr>)"

definition resume_later :: "string \<Rightarrow> scheduler \<Rightarrow> scheduler" where
  "resume_later execution_id s =
     (let s = s\<lparr>sc_delayed := remove1 execution_id (sc_delayed s)\<rparr> in
      if sc_stopping s then s else case enqueue execution_id s of Inl _ \<Rightarrow> s | Inr s' \<Rightarrow> s')"

subsection \<open>The worker loop\<close>

definition set_worker :: "nat \<Rightarrow> worker \<Rightarrow> scheduler \<Rightarrow> scheduler" where
  "set_worker i w s = s\<lparr>sc_workers := (sc_workers s)[i := w]\<rparr>"

definition worker_take :: "nat \<Rightarrow> scheduler \<Rightarrow> scheduler option" where
  "worker_take i s = (case sc_queue s of
     x # q \<Rightarrow> if i < length (sc_workers s) \<and> sc_workers s ! i = Idle
              then Some (set_worker i (Holding x) (s\<lparr>sc_queue := q\<rparr>)) else None
   | [] \<Rightarrow> None)"

definition worker_activate :: "nat \<Rightarrow> scheduler \<Rightarrow> scheduler option" where
  "worker_activate i s = (if i < length (sc_workers s) then (case sc_workers s ! i of
     Holding x \<Rightarrow> Some (set_worker i (Running x)
       (s\<lparr>sc_queued := sc_queued s - {x}, sc_queued_at := dict_pop (sc_queued_at s) x, sc_active := insert x (sc_active s)\<rparr>))
   | _ \<Rightarrow> None) else None)"

definition worker_returns :: "nat \<Rightarrow> action_run_result \<Rightarrow> scheduler \<Rightarrow> scheduler option" where
  "worker_returns i result s = (if i < length (sc_workers s) then (case sc_workers s ! i of
     Running x \<Rightarrow>
       (let s = set_worker i (Releasing x) (s\<lparr>sc_results := dict_set (sc_results s) x result\<rparr>) in
        Some (if settled result then resolve_waiters x result s
              else if ar_status result \<in> {''waiting_external'', ''reconciling''} then schedule_resume x s
              else s))
   | _ \<Rightarrow> None) else None)"

definition worker_raises :: "nat \<Rightarrow> scheduler \<Rightarrow> scheduler option" where
  "worker_raises i s = (if i < length (sc_workers s) then (case sc_workers s ! i of
     Running x \<Rightarrow> Some (set_worker i (Unwinding x) s) | _ \<Rightarrow> None) else None)"

definition worker_release :: "nat \<Rightarrow> scheduler \<Rightarrow> scheduler option" where
  "worker_release i s = (if i < length (sc_workers s) then (case sc_workers s ! i of
     Releasing x \<Rightarrow> Some (set_worker i Idle (s\<lparr>sc_active := sc_active s - {x}\<rparr>))
   | Unwinding x \<Rightarrow> Some (set_worker i Dead (s\<lparr>sc_active := sc_active s - {x}\<rparr>))
   | _ \<Rightarrow> None) else None)"

subsection \<open>Interleavings\<close>

datatype sched_event =
    Start | Stop_Begin | Stop_End | Enqueue string | Enqueue_Locked string instant | Resume string
  | Wait string nat | Take nat | Activate nat | Run_Returns nat action_run_result | Run_Raises nat
  | Release nat | Delay_Over string

fun sched_step :: "sched_event \<Rightarrow> scheduler \<Rightarrow> scheduler option" where
  "sched_step Start s = Some (start s)"
| "sched_step Stop_Begin s = Some (stop_begin s)"
| "sched_step Stop_End s = (if sc_started s \<and> sc_stopping s then Some (stop_end s) else None)"
| "sched_step (Enqueue x) s = (case enqueue x s of Inl _ \<Rightarrow> Some s | Inr s' \<Rightarrow> Some s')"
| "sched_step (Enqueue_Locked x now) s = (if x \<in> set (sc_pending s) then Some (enqueue_locked x now s) else None)"
| "sched_step (Resume x) s = Some (fst (resume x s))"
| "sched_step (Wait x f) s = Some (fst (wait x f s))"
| "sched_step (Take i) s = worker_take i s"
| "sched_step (Activate i) s = worker_activate i s"
| "sched_step (Run_Returns i r) s = worker_returns i r s"
| "sched_step (Run_Raises i) s = worker_raises i s"
| "sched_step (Release i) s = worker_release i s"
| "sched_step (Delay_Over x) s = (if x \<in> set (sc_delayed s) then Some (resume_later x s) else None)"

fun sched_run :: "sched_event list \<Rightarrow> scheduler \<Rightarrow> scheduler option" where
  "sched_run [] s = Some s"
| "sched_run (e # es) s = (case sched_step e s of None \<Rightarrow> None | Some s' \<Rightarrow> sched_run es s')"

subsection \<open>The invariant\<close>

definition sched_inv :: "scheduler \<Rightarrow> bool" where
  "sched_inv s \<longleftrightarrow> distinct (sc_queue s @ held_ids s) \<and> sc_queued s = set (sc_queue s) \<union> set (held_ids s)
     \<and> distinct (running_ids s) \<and> sc_active s = set (running_ids s) \<and> sc_queued s \<inter> sc_active s = {}
     \<and> length (sc_workers s) \<le> sc_concurrency s
     \<and> (\<forall>x fs r. dict_get (sc_waiters s) x = Some fs \<and> dict_get (sc_results s) x = Some r \<longrightarrow> \<not> settled r)"

text \<open>Changing one worker exchanges what it contributes.\<close>

lemma map_filter_update:
  assumes "i < length xs"
  shows "mset (List.map_filter f (xs[i := w])) + (case f (xs ! i) of None \<Rightarrow> {#} | Some x \<Rightarrow> {#x#})
    = mset (List.map_filter f xs) + (case f w of None \<Rightarrow> {#} | Some x \<Rightarrow> {#x#})"
proof -
  have split: "xs = take i xs @ xs ! i # drop (Suc i) xs" using assms by (simp add: id_take_nth_drop)
  have upd: "xs[i := w] = take i xs @ w # drop (Suc i) xs" using assms by (simp add: upd_conv_take_nth_drop)
  have mf: "List.map_filter f (ys @ z # zs) = List.map_filter f ys @ (case f z of None \<Rightarrow> [] | Some x \<Rightarrow> [x]) @ List.map_filter f zs"
    for ys z zs by (simp add: List.map_filter_def split: option.splits)
  have "List.map_filter f xs = List.map_filter f (take i xs) @ (case f (xs ! i) of None \<Rightarrow> [] | Some x \<Rightarrow> [x]) @ List.map_filter f (drop (Suc i) xs)"
    by (subst split) (rule mf)
  moreover have "List.map_filter f (xs[i := w]) = List.map_filter f (take i xs) @ (case f w of None \<Rightarrow> [] | Some x \<Rightarrow> [x]) @ List.map_filter f (drop (Suc i) xs)"
    unfolding upd by (rule mf)
  ultimately show ?thesis by (simp split: option.splits)
qed

lemma map_filter_same:
  "i < length xs \<Longrightarrow> f w = f (xs ! i) \<Longrightarrow> List.map_filter f (xs[i := w]) = List.map_filter f xs"
  by (induction xs arbitrary: i) (auto simp: List.map_filter_def nth_Cons split: nat.splits)

lemma held_worker: "i < length (sc_workers s) \<Longrightarrow> holding (sc_workers s ! i) = Some x \<Longrightarrow> x \<in> set (held_ids s)"
  by (force simp: List.map_filter_def)

lemma working_worker: "i < length (sc_workers s) \<Longrightarrow> working_on (sc_workers s ! i) = Some x \<Longrightarrow> x \<in> set (running_ids s)"
  by (force simp: List.map_filter_def)

lemma mset_distinct_eq: "mset xs = mset ys \<Longrightarrow> distinct xs = distinct ys \<and> set xs = set ys"
  by (metis mset_eq_imp_distinct_iff mset_eq_setD)

lemma set_worker_sel [simp]:
  "sc_workers (set_worker i w s) = (sc_workers s)[i := w]" "sc_queue (set_worker i w s) = sc_queue s"
  "sc_queued (set_worker i w s) = sc_queued s" "sc_active (set_worker i w s) = sc_active s"
  "sc_waiters (set_worker i w s) = sc_waiters s" "sc_results (set_worker i w s) = sc_results s"
  "sc_concurrency (set_worker i w s) = sc_concurrency s" "sc_stopping (set_worker i w s) = sc_stopping s"
  by (simp_all add: set_worker_def)

lemma take_inv:
  assumes inv: "sched_inv s" and st: "worker_take i s = Some s'"
  shows "sched_inv s'"
proof -
  obtain x q where q: "sc_queue s = x # q" and i: "i < length (sc_workers s)" "sc_workers s ! i = Idle"
    and s': "s' = set_worker i (Holding x) (s\<lparr>sc_queue := q\<rparr>)"
    using st by (auto simp: worker_take_def split: list.splits if_splits)
  have held: "mset (List.map_filter holding ((sc_workers s)[i := Holding x])) = mset (held_ids s) + {#x#}"
    using map_filter_update [OF i(1), of holding "Holding x"] i(2) by simp
  have run: "List.map_filter working_on ((sc_workers s)[i := Holding x]) = running_ids s"
    by (rule map_filter_same) (simp_all add: i)
  have "mset (q @ List.map_filter holding ((sc_workers s)[i := Holding x])) = mset (sc_queue s @ held_ids s)"
    using held q by simp
  from mset_distinct_eq [OF this] inv show ?thesis
    by (auto simp: sched_inv_def s' run)
qed

lemma activate_inv:
  assumes inv: "sched_inv s" and st: "worker_activate i s = Some s'"
  shows "sched_inv s'"
proof -
  obtain x where i: "i < length (sc_workers s)" "sc_workers s ! i = Holding x"
    and s': "s' = set_worker i (Running x) (s\<lparr>sc_queued := sc_queued s - {x}, sc_queued_at := dict_pop (sc_queued_at s) x,
       sc_active := insert x (sc_active s)\<rparr>)"
    using st by (auto simp: worker_activate_def split: worker.splits if_splits)
  have held: "mset (held_ids s) = mset (List.map_filter holding ((sc_workers s)[i := Running x])) + {#x#}"
    using map_filter_update [OF i(1), of holding "Running x"] i(2) by simp
  have run: "mset (List.map_filter working_on ((sc_workers s)[i := Running x])) = mset (x # running_ids s)"
    using map_filter_update [OF i(1), of working_on "Running x"] i(2) by simp
  have x: "x \<in> sc_queued s" "x \<notin> sc_active s" using held_worker [OF i(1)] i(2) inv by (auto simp: sched_inv_def)
  have "mset (sc_queue s @ held_ids s) = mset ((sc_queue s @ List.map_filter holding ((sc_workers s)[i := Running x])) @ [x])"
    using held by simp
  from mset_distinct_eq [OF this] mset_distinct_eq [OF run] x inv show ?thesis
    by (auto simp: sched_inv_def s')
qed

lemma release_inv:
  assumes inv: "sched_inv s" and st: "worker_release i s = Some s'"
  shows "sched_inv s'"
proof -
  define w where "w = (case sc_workers s ! i of Releasing _ \<Rightarrow> Idle | _ \<Rightarrow> Dead)"
  have w: "working_on w = None" "holding w = None" by (simp_all add: w_def split: worker.splits)
  obtain x where i: "i < length (sc_workers s)" "working_on (sc_workers s ! i) = Some x" "holding (sc_workers s ! i) = None"
    and s': "s' = set_worker i w (s\<lparr>sc_active := sc_active s - {x}\<rparr>)"
    using st by (auto simp: worker_release_def w_def split: worker.splits if_splits)
  have held: "List.map_filter holding ((sc_workers s)[i := w]) = held_ids s"
    by (rule map_filter_same) (simp_all add: i w)
  have run: "mset (running_ids s) = mset (x # List.map_filter working_on ((sc_workers s)[i := w]))"
    using map_filter_update [OF i(1), of working_on w] i(2) w by simp
  from mset_distinct_eq [OF run] inv show ?thesis
    by (auto simp: sched_inv_def s' held)
qed

lemma same_work_inv:
  assumes inv: "sched_inv s" and i: "i < length (sc_workers s)"
    and w: "working_on w = working_on (sc_workers s ! i)" "holding w = holding (sc_workers s ! i)"
  shows "sched_inv (set_worker i w s)"
  using inv map_filter_same [where f = working_on, OF i w(1)] map_filter_same [where f = holding, OF i w(2)]
  by (auto simp: sched_inv_def)

lemma settle_inv:
  assumes "sched_inv s" "\<not> settled r"
  shows "sched_inv (s\<lparr>sc_results := dict_set (sc_results s) x r\<rparr>)"
  using assms by (auto simp: sched_inv_def)

lemma resolve_inv:
  assumes "sched_inv s"
  shows "sched_inv (resolve_waiters x r (s\<lparr>sc_results := dict_set (sc_results s) x r\<rparr>))"
  using assms by (auto simp: sched_inv_def resolve_waiters_def Let_def)

lemma returns_inv:
  assumes inv: "sched_inv s" and st: "worker_returns i r s = Some s'"
  shows "sched_inv s'"
proof -
  obtain x where i: "i < length (sc_workers s)" "sc_workers s ! i = Running x"
    and s': "s' = (let s = set_worker i (Releasing x) (s\<lparr>sc_results := dict_set (sc_results s) x r\<rparr>) in
        if settled r then resolve_waiters x r s
        else if ar_status r \<in> {''waiting_external'', ''reconciling''} then schedule_resume x s else s)"
    using st by (auto simp: worker_returns_def Let_def split: worker.splits if_splits)
  let ?t = "set_worker i (Releasing x) s"
  have t: "sched_inv ?t" by (rule same_work_inv [OF inv i(1)]) (simp_all add: i)
  have comm: "set_worker i (Releasing x) (s\<lparr>sc_results := d\<rparr>) = ?t\<lparr>sc_results := d\<rparr>" for d by (simp add: set_worker_def)
  show ?thesis
  proof (cases "settled r")
    case True
    then show ?thesis using resolve_inv [OF t, of x r] by (simp add: s' comm)
  next
    case False
    from settle_inv [OF t this, of x] False show ?thesis
      by (auto simp: s' comm Let_def schedule_resume_def sched_inv_def)
  qed
qed

lemma enqueue_locked_inv:
  assumes "sched_inv s" shows "sched_inv (enqueue_locked x now s)"
  using assms by (auto simp: sched_inv_def enqueue_locked_def Let_def split: option.splits)

lemma sched_inv_cong:
  assumes "sched_inv s" "sc_queue s' = sc_queue s" "sc_queued s' = sc_queued s" "sc_active s' = sc_active s"
    "sc_workers s' = sc_workers s" "sc_concurrency s' = sc_concurrency s"
    and "\<And>x fs r. dict_get (sc_waiters s') x = Some fs \<Longrightarrow> dict_get (sc_results s') x = Some r \<Longrightarrow> \<not> settled r"
  shows "sched_inv s'"
  using assms unfolding sched_inv_def by auto

lemma waiting_unsettled:
  "sched_inv s \<Longrightarrow> dict_get (sc_waiters s) x = Some fs \<Longrightarrow> dict_get (sc_results s) x = Some r \<Longrightarrow> \<not> settled r"
  by (simp add: sched_inv_def)

lemma stop_begin_inv: "sched_inv s \<Longrightarrow> sched_inv (stop_begin s)"
  by (rule sched_inv_cong [of s]) (auto simp: stop_begin_def dest: waiting_unsettled split: if_splits)

lemma enqueue_inv: "sched_inv s \<Longrightarrow> enqueue x s = Inr s' \<Longrightarrow> sched_inv s'"
  by (rule sched_inv_cong [of s]) (auto simp: enqueue_def dest: waiting_unsettled split: if_splits)

lemma resume_later_inv: "sched_inv s \<Longrightarrow> sched_inv (resume_later x s)"
  by (rule sched_inv_cong [of s])
    (auto simp: resume_later_def enqueue_def Let_def dest: waiting_unsettled split: if_splits sum.splits)

lemma resume_inv: "sched_inv s \<Longrightarrow> sched_inv (fst (resume x s))"
proof (rule sched_inv_cong [of s])
  fix y fs r assume inv: "sched_inv s" and "dict_get (sc_waiters (fst (resume x s))) y = Some fs"
    "dict_get (sc_results (fst (resume x s))) y = Some r"
  then have "dict_get (sc_waiters s) y = Some fs" "dict_get (sc_results s) y = Some r"
    by (auto simp: resume_def enqueue_def Let_def split: if_splits)
  then show "\<not> settled r" by (rule waiting_unsettled [OF inv])
qed (auto simp: resume_def enqueue_def Let_def)

lemma wait_inv: "sched_inv s \<Longrightarrow> sched_inv (fst (wait x f s))"
proof (rule sched_inv_cong [of s])
  fix y fs r assume inv: "sched_inv s" and y: "dict_get (sc_waiters (fst (wait x f s))) y = Some fs"
    "dict_get (sc_results (fst (wait x f s))) y = Some r"
  show "\<not> settled r"
  proof (cases "dict_get (sc_waiters s) y")
    case None
    with y show ?thesis by (auto simp: wait_def split: option.splits if_splits)
  next
    case (Some gs)
    moreover have "dict_get (sc_results s) y = Some r" using y(2) by (auto simp: wait_def split: option.splits if_splits)
    ultimately show ?thesis by (rule waiting_unsettled [OF inv])
  qed
qed (auto simp: wait_def split: option.splits)

lemma stop_end_inv: "sched_inv s \<Longrightarrow> sched_inv (stop_end s)"
  by (simp add: sched_inv_def stop_end_def List.map_filter_def)

lemmas bookkeeping_inv = stop_begin_inv enqueue_inv resume_later_inv resume_inv wait_inv stop_end_inv

lemma start_inv:
  assumes "sched_inv s" "\<not> sc_started s \<Longrightarrow> sc_workers s = []"
  shows "sched_inv (start s)"
proof (cases "sc_started s")
  case False
  have "List.map_filter f (replicate n Idle) = []" if "f Idle = None" for f :: "worker \<Rightarrow> string option" and n
    using that by (induction n) (simp_all add: List.map_filter_def)
  with assms False show ?thesis by (auto simp: sched_inv_def start_def List.map_filter_def)
qed (use assms in \<open>simp add: start_def\<close>)

text \<open>A scheduler that is not started has no workers.\<close>

definition sched_ok :: "scheduler \<Rightarrow> bool" where
  "sched_ok s \<longleftrightarrow> sched_inv s \<and> (\<not> sc_started s \<longrightarrow> sc_workers s = [])"

lemma stopped_step:
  assumes "sched_step e s = Some s'" "\<not> sc_started s \<longrightarrow> sc_workers s = []"
  shows "\<not> sc_started s' \<longrightarrow> sc_workers s' = []"
  using assms
  by (cases e) (auto simp: start_def stop_begin_def stop_end_def enqueue_def enqueue_locked_def resume_def wait_def worker_take_def
      worker_activate_def worker_returns_def worker_raises_def worker_release_def resume_later_def resolve_waiters_def
      schedule_resume_def set_worker_def Let_def split: if_splits option.splits sum.splits list.splits worker.splits)

lemma sched_step_ok:
  assumes "sched_step e s = Some s'" "sched_ok s"
  shows "sched_ok s'"
proof -
  have inv: "sched_inv s" and ok: "\<not> sc_started s \<longrightarrow> sc_workers s = []" using assms(2) by (auto simp: sched_ok_def)
  note book = bookkeeping_inv [where s = s, OF inv]
  have "sched_inv s'"
  proof (cases e)
    case (Run_Raises i)
    then obtain x where "i < length (sc_workers s)" "sc_workers s ! i = Running x" "s' = set_worker i (Unwinding x) s"
      using assms(1) by (auto simp: worker_raises_def split: worker.splits if_splits)
    then show ?thesis by (auto intro: same_work_inv [OF inv])
  qed (use assms(1) inv ok book start_inv [OF inv] enqueue_locked_inv [OF inv] take_inv [OF inv] activate_inv [OF inv]
      release_inv [OF inv] returns_inv [OF inv] in \<open>auto split: if_splits sum.splits\<close>)
  with stopped_step [OF assms(1) ok] show ?thesis by (simp add: sched_ok_def)
qed

lemma sched_run_ok: "sched_run es s = Some s' \<Longrightarrow> sched_ok s \<Longrightarrow> sched_ok s'"
  by (induction es arbitrary: s) (auto split: option.splits dest: sched_step_ok)

lemma scheduler_init_ok: "scheduler_init c d = Inr s \<Longrightarrow> sched_ok s"
  by (auto simp: scheduler_init_def sched_ok_def sched_inv_def List.map_filter_def split: if_splits)

subsection \<open>Exclusive execution\<close>

definition assigned :: "worker \<Rightarrow> string option" where
  "assigned w = (case holding w of Some x \<Rightarrow> Some x | None \<Rightarrow> working_on w)"

lemma distinct_map_filter_nth:
  assumes "distinct (List.map_filter f xs)" "i < length xs" "j < length xs" "f (xs ! i) = Some x" "f (xs ! j) = Some x"
  shows "i = j"
  using assms
proof (induction xs arbitrary: i j)
  case (Cons y ys)
  have mem: "x \<in> set (List.map_filter f ys)" if "k < length ys" "f (ys ! k) = Some x" for k
    using that by (force simp: List.map_filter_def)
  have rest: "distinct (List.map_filter f ys)" "f y = Some z \<Longrightarrow> z \<notin> set (List.map_filter f ys)" for z
    using Cons.prems(1) by (auto simp: List.map_filter_def split: option.splits if_splits)
  show ?case
    using Cons.prems(2-) mem rest Cons.IH [OF rest(1)] by (cases i; cases j) auto
qed simp

lemma set_map_filter_eq: "set (List.map_filter f xs) = {x. \<exists>w \<in> set xs. f w = Some x}"
  by (force simp: List.map_filter_def)

lemma card_working: "card (set (List.map_filter f xs)) \<le> length xs"
  by (induction xs) (auto simp: List.map_filter_def card_insert_if split: option.splits)

text \<open>
  C34. Exclusive execution: for every interleaving of callers, workers, timers and the runner's
  answers, no execution is in the hands of two workers, no execution that a worker has is
  queued, nothing is queued twice, the set \<open>_active\<close> is exactly what the workers are running, at
  most \<open>concurrency\<close> executions run at a time, and nobody is left waiting for an execution whose
  result is already known to be final or to need input.
\<close>

theorem scheduler_exclusive:
  assumes "scheduler_init c d = Inr s0" "sched_run es s0 = Some s"
  shows "(\<forall>i j x. i < length (sc_workers s) \<and> j < length (sc_workers s) \<and> assigned (sc_workers s ! i) = Some x
        \<and> assigned (sc_workers s ! j) = Some x \<longrightarrow> i = j)
    \<and> (\<forall>i x. i < length (sc_workers s) \<and> assigned (sc_workers s ! i) = Some x \<longrightarrow> x \<notin> set (sc_queue s))
    \<and> distinct (sc_queue s)
    \<and> sc_active s = {x. \<exists>w \<in> set (sc_workers s). working_on w = Some x} \<and> card (sc_active s) \<le> sc_concurrency s
    \<and> (\<forall>x fs r. dict_get (sc_waiters s) x = Some fs \<and> dict_get (sc_results s) x = Some r \<longrightarrow> \<not> settled r)"
proof -
  have inv: "sched_inv s"
    using sched_run_ok [OF assms(2) scheduler_init_ok [OF assms(1)]] by (simp add: sched_ok_def)
  have dist: "distinct (held_ids s)" "distinct (running_ids s)" and disj: "set (held_ids s) \<inter> set (running_ids s) = {}"
    and queue: "distinct (sc_queue s)" "set (sc_queue s) \<inter> set (held_ids s) = {}" "set (sc_queue s) \<inter> set (running_ids s) = {}"
    using inv by (auto simp: sched_inv_def)
  have in_hand: "x \<in> set (held_ids s) \<union> set (running_ids s)" if "i < length (sc_workers s)" "assigned (sc_workers s ! i) = Some x" for i x
    using that held_worker [OF that(1)] working_worker [OF that(1)] by (auto simp: assigned_def split: option.splits)
  have unique: "i = j" if ij: "i < length (sc_workers s)" "j < length (sc_workers s)" and
      x: "assigned (sc_workers s ! i) = Some x" "assigned (sc_workers s ! j) = Some x" for i j x
  proof -
    have alt: "holding (sc_workers s ! k) = Some x \<or> working_on (sc_workers s ! k) = Some x"
      if "assigned (sc_workers s ! k) = Some x" for k
      using that by (simp add: assigned_def split: option.splits)
    show ?thesis
      using alt [OF x(1)] alt [OF x(2)]
    proof (elim disjE)
      assume "holding (sc_workers s ! i) = Some x" "holding (sc_workers s ! j) = Some x"
      then show ?thesis by (rule distinct_map_filter_nth [OF dist(1) ij])
    next
      assume "working_on (sc_workers s ! i) = Some x" "working_on (sc_workers s ! j) = Some x"
      then show ?thesis by (rule distinct_map_filter_nth [OF dist(2) ij])
    next
      assume "holding (sc_workers s ! i) = Some x" "working_on (sc_workers s ! j) = Some x"
      then show ?thesis using held_worker [OF ij(1)] working_worker [OF ij(2)] disj by blast
    next
      assume "working_on (sc_workers s ! i) = Some x" "holding (sc_workers s ! j) = Some x"
      then show ?thesis using held_worker [OF ij(2)] working_worker [OF ij(1)] disj by blast
    qed
  qed
  have active: "sc_active s = {x. \<exists>w \<in> set (sc_workers s). working_on w = Some x}"
    using inv by (simp add: sched_inv_def set_map_filter_eq)
  have "card (sc_active s) \<le> sc_concurrency s"
    using inv card_working [of working_on "sc_workers s"] by (simp add: sched_inv_def)
  moreover have "\<forall>x fs r. dict_get (sc_waiters s) x = Some fs \<and> dict_get (sc_results s) x = Some r \<longrightarrow> \<not> settled r"
    using inv by (simp add: sched_inv_def)
  moreover have "\<forall>i x. i < length (sc_workers s) \<and> assigned (sc_workers s ! i) = Some x \<longrightarrow> x \<notin> set (sc_queue s)"
    using in_hand queue(2,3) by blast
  ultimately show ?thesis using unique queue(1) active by blast
qed

text \<open>One worker; the execution is resumed while it still runs, or its run raises.\<close>

definition demo_scheduler :: scheduler where
  "demo_scheduler = projr (scheduler_init 1 1)"

definition demo_needs_input :: action_run_result where
  "demo_needs_input = \<lparr>ar_execution_id = ''e'', ar_status = ''needs_input'', ar_snapshot_id = None, ar_response_text = None,
     ar_claims = [], ar_question = Some ''which?'', ar_choices = [], ar_error_code = None\<rparr>"

definition demo_events :: "sched_event list" where
  "demo_events = [Start, Enqueue ''e'', Enqueue_Locked ''e'' 0, Wait ''e'' 0, Take 0, Activate 0]"

definition demo_running :: scheduler where
  "demo_running = the (sched_run demo_events demo_scheduler)"

lemma demo_running_steps:
  "scheduler_init 1 1 = Inr demo_scheduler" "sched_run demo_events demo_scheduler = Some demo_running"
  "sc_workers demo_running = [Running ''e'']"
  by code_simp+

theorem scheduler_exclusive_witness:
  "sc_active demo_running = {x. \<exists>w \<in> set (sc_workers demo_running). working_on w = Some x}
   \<and> card (sc_active demo_running) \<le> sc_concurrency demo_running"
  using scheduler_exclusive [OF demo_running_steps(1,2)] by blast

text \<open>
  A resumption that arrives while the run is still active is dropped: \<open>enqueue\<close> returns because
  the execution is active, and when the run then reports that it needs input, nothing is queued,
  delayed or pending although the input is there.
\<close>

lemma resume_while_active_dropped:
  "case sched_run [Resume ''e'', Enqueue_Locked ''e'' 1, Run_Returns 0 demo_needs_input, Release 0] demo_running of
     None \<Rightarrow> False
   | Some s \<Rightarrow> sc_queue s = [] \<and> sc_delayed s = [] \<and> sc_pending s = [] \<and> sc_workers s = [Idle] \<and> accepting s"
  by code_simp

text \<open>
  A run that raises ends its worker: the loop has no \<open>except\<close>, so the exception leaves it after
  the \<open>finally\<close> block. The scheduler goes on accepting work that nobody takes.
\<close>

lemma raising_run_ends_worker:
  "case sched_run [Run_Raises 0, Release 0, Enqueue ''f'', Enqueue_Locked ''f'' 1] demo_running of
     None \<Rightarrow> False
   | Some s \<Rightarrow> sc_queue s = [''f''] \<and> sc_workers s = [Dead] \<and> accepting s \<and> worker_take 0 s = None"
  by code_simp

end
