(* ===== verification/Meeting_Merge.thy ===== *)
theory Meeting_Merge
  imports Meeting_Model
begin

section \<open>Merging an extraction into the meeting state\<close>

text \<open>
  Models \<open>meeting_state/merge.py\<close>: stable identifiers of items, the merge of a validated delta
  into a meeting state, and the hash of a state. SHA-256, \<open>float.__repr__\<close> and \<open>isoformat\<close> are
  arguments, collected in \<open>hash_env\<close>. The abstract view of a collection of items is a finite map
  from identifiers to items; a merge overwrites it.
\<close>

record hash_env =
  he_repr :: "rat \<Rightarrow> string"
  he_sha256 :: "nat list \<Rightarrow> string"
  he_iso :: "instant \<Rightarrow> string"

text \<open>A Python generator that may raise at an element.\<close>

fun map_res :: "('a \<Rightarrow> 'b res) \<Rightarrow> 'a list \<Rightarrow> 'b list res" where
  "map_res f [] = Inr []"
| "map_res f (x # xs) = rbind (f x) (\<lambda>y. rbind (map_res f xs) (\<lambda>ys. Inr (y # ys)))"

lemma map_res_Inr: "map_res f xs = Inr ys \<longleftrightarrow> list_all2 (\<lambda>x y. f x = Inr y) xs ys"
  by (induction xs arbitrary: ys) (auto simp: res_simps list_all2_Cons1)

lemma map_res_total: "(\<And>x. x \<in> set xs \<Longrightarrow> f x = Inr (g x)) \<Longrightarrow> map_res f xs = Inr (map g xs)"
  by (induction xs) auto

lemma list_all2_preimage: "list_all2 P xs ys \<Longrightarrow> y \<in> set ys \<Longrightarrow> \<exists>x \<in> set xs. P x y"
  by (induction rule: list_all2_induct) auto

subsection \<open>Stable identifiers\<close>

definition folded :: "string \<Rightarrow> string" where
  "folded t = py_join '' '' (py_split (casefold t))"

fun normalize_content :: "jvalue \<Rightarrow> jvalue" where
  "normalize_content (VStr t) = VStr (folded t)"
| "normalize_content (VObj es) = VObj (sort_key fst (map (\<lambda>e. (fst e, normalize_content (snd e))) es))"
| "normalize_content (VArr xs) = VArr (map normalize_content xs)"
| "normalize_content v = v"

definition stable_item_id :: "hash_env \<Rightarrow> string \<Rightarrow> jvalue \<Rightarrow> string list \<Rightarrow> string" where
  "stable_item_id he kind content evidence_ids =
     ''msi_'' @ he_sha256 he (utf8 (dumps (he_repr he) (VObj
       [(''kind'', VStr kind), (''content'', normalize_content content),
        (''evidence_ids'', VArr (map VStr (sort (remdups evidence_ids))))])))"

subsection \<open>Items\<close>

definition segment_revisions :: "(string, int) dict \<Rightarrow> string list \<Rightarrow> (string, int) dict res" where
  "segment_revisions revisions ids = map_res (\<lambda>i. case dict_get revisions i of
       None \<Rightarrow> Inl (KeyError i) | Some r \<Rightarrow> Inr (i, r)) (fromkeys ids)"

definition state_item ::
  "hash_env \<Rightarrow> string \<Rightarrow> state_item_proposal \<Rightarrow> (string, int) dict \<Rightarrow> meeting_item res" where
  "state_item he kind proposal revisions =
     rbind (segment_revisions revisions (sp_source_segment_ids proposal)) (\<lambda>rs.
       checked item_ok kind
         \<lparr>mi_item_id = stable_item_id he kind (VStr (sp_text proposal)) (sp_source_segment_ids proposal),
          mi_text = sp_text proposal, mi_source_segment_ids = sp_source_segment_ids proposal,
          mi_source_segment_revisions = rs\<rparr>)"

definition entity_of :: "hash_env \<Rightarrow> entity_proposal \<Rightarrow> (string, int) dict \<Rightarrow> entity res" where
  "entity_of he proposal revisions =
     rbind (segment_revisions revisions (sp_source_segment_ids proposal)) (\<lambda>rs.
       checked entity_ok ''Entity''
         \<lparr>mi_item_id = stable_item_id he ''entity''
            (VObj [(''text'', VStr (sp_text proposal)), (''entity_type'', VStr (ep_entity_type proposal))])
            (sp_source_segment_ids proposal),
          mi_text = sp_text proposal, mi_source_segment_ids = sp_source_segment_ids proposal,
          mi_source_segment_revisions = rs, en_entity_type = ep_entity_type proposal\<rparr>)"

definition put_items ::
  "(string, 'z meeting_item_scheme) dict \<Rightarrow> 'z meeting_item_scheme list \<Rightarrow> (string, 'z meeting_item_scheme) dict" where
  "put_items d items = foldl (\<lambda>d i. dict_set d (mi_item_id i) i) d items"

definition merge_items ::
  "string set \<Rightarrow> 'z meeting_item_scheme list \<Rightarrow> 'z meeting_item_scheme list \<Rightarrow> 'z meeting_item_scheme list" where
  "merge_items reprojected current projected =
     (let retained = put_items [] (filter (\<lambda>i. set (mi_source_segment_ids i) \<inter> reprojected = {}) current)
      in map snd (sort_key fst (put_items retained projected)))"

definition merge_meeting_state ::
  "hash_env \<Rightarrow> meeting_state \<Rightarrow> meeting_state_delta \<Rightarrow> action_candidate list \<Rightarrow> (string, int) dict \<Rightarrow> int
   \<Rightarrow> meeting_state res" where
  "merge_meeting_state he current delta action_candidates revisions next_version =
     (if ms_session_id current \<noteq> dl_session_id delta then Inl (ValueError ''Meeting State delta belongs to another Session'')
      else if next_version \<le> ms_version current then Inl (ValueError ''Meeting State version must advance'')
      else if fst ` set revisions \<noteq> set (dl_source_segment_ids delta)
      then Inl (ValueError ''projection revisions must match delta Segment IDs'')
      else if list_ex (\<lambda>e. snd e < 1) revisions then Inl (ValueError ''projection revisions must be positive'')
      else let replaced = set (dl_source_segment_ids delta) in
        rbind (map_res (\<lambda>p. state_item he ''topic'' p revisions) (dl_topics delta)) (\<lambda>topics.
        rbind (map_res (\<lambda>p. entity_of he p revisions) (dl_entities delta)) (\<lambda>entities.
        rbind (map_res (\<lambda>p. state_item he ''decision'' p revisions) (dl_decisions delta)) (\<lambda>decisions.
        rbind (map_res (\<lambda>p. state_item he ''highlight'' p revisions) (dl_highlights delta)) (\<lambda>highlights.
        rbind (map_res (\<lambda>p. state_item he ''conflict'' p revisions) (dl_conflicts delta)) (\<lambda>conflicts.
        checked state_ok ''MeetingState''
          \<lparr>ms_session_id = ms_session_id current, ms_version = next_version,
           ms_topics = merge_items replaced (ms_topics current) topics,
           ms_entities = merge_items replaced (ms_entities current) entities,
           ms_decisions = merge_items replaced (ms_decisions current) decisions,
           ms_action_candidates = sort_key ac_candidate_id action_candidates,
           ms_highlights = merge_items replaced (ms_highlights current) highlights,
           ms_conflicts = merge_items replaced (ms_conflicts current) conflicts,
           ms_user_concerns = ms_user_concerns current\<rparr>))))))"

subsection \<open>The hash of a state\<close>

text \<open>\<open>model_dump(mode="json", exclude={"version"})\<close>, field by field.\<close>

definition dump_opt :: "('a \<Rightarrow> jvalue) \<Rightarrow> 'a option \<Rightarrow> jvalue" where
  "dump_opt f v = (case v of None \<Rightarrow> VNull | Some x \<Rightarrow> f x)"

abbreviation dump_strs :: "string list \<Rightarrow> jvalue" where
  "dump_strs xs \<equiv> VArr (map VStr xs)"

definition dump_item_fields :: "'z meeting_item_scheme \<Rightarrow> (string \<times> jvalue) list" where
  "dump_item_fields i = [(''item_id'', VStr (mi_item_id i)), (''text'', VStr (mi_text i)),
     (''source_segment_ids'', dump_strs (mi_source_segment_ids i)),
     (''source_segment_revisions'', VObj (map (\<lambda>e. (fst e, VInt (snd e))) (mi_source_segment_revisions i)))]"

definition dump_item :: "meeting_item \<Rightarrow> jvalue" where
  "dump_item i = VObj (dump_item_fields i)"

definition dump_entity :: "entity \<Rightarrow> jvalue" where
  "dump_entity e = VObj (dump_item_fields e @ [(''entity_type'', VStr (en_entity_type e))])"

fun origin_value :: "grounded_origin \<Rightarrow> string" where
  "origin_value Meeting_Explicit = ''meeting_explicit''"
| "origin_value Meeting_Inferred = ''meeting_inferred''"
| "origin_value User_Supplied = ''user_supplied''"
| "origin_value External_Resolved = ''external_resolved''"
| "origin_value Server_Default = ''server_default''"

fun resolution_value :: "resolution \<Rightarrow> string" where
  "resolution_value Known = ''known''"
| "resolution_value Missing = ''missing''"
| "resolution_value Ambiguous = ''ambiguous''"
| "resolution_value Conflicting = ''conflicting''"

fun priority_value :: "task_priority \<Rightarrow> string" where
  "priority_value Low = ''low''"
| "priority_value Normal = ''normal''"
| "priority_value High = ''high''"
| "priority_value Urgent = ''urgent''"

fun readiness_value :: "readiness \<Rightarrow> string" where
  "readiness_value Detected = ''detected''"
| "readiness_value Recordable = ''recordable''"
| "readiness_value Executable = ''executable''"
| "readiness_value Fully_Specified = ''fully_specified''"

definition dump_grounded :: "('a \<Rightarrow> jvalue) \<Rightarrow> 'a grounded_value \<Rightarrow> jvalue" where
  "dump_grounded f g = VObj [(''value'', dump_opt f (gv_value g)), (''origin'', VStr (origin_value (gv_origin g))),
     (''resolution'', VStr (resolution_value (gv_resolution g))), (''evidence_message_ids'', dump_strs (gv_evidence_message_ids g)),
     (''confidence'', dump_opt VFloat (gv_confidence g)), (''explanation'', dump_opt VStr (gv_explanation g))]"

definition dump_assignee :: "assignee_value \<Rightarrow> jvalue" where
  "dump_assignee a = VObj [(''spoken_text'', VStr (av_spoken_text a)), (''linear_user_id'', dump_opt VStr (av_linear_user_id a)),
     (''is_placeholder'', VBool (av_is_placeholder a))]"

fun dump_message :: "hash_env \<Rightarrow> evidence_message \<Rightarrow> jvalue" where
  "dump_message he (Caption_Evidence m) = VObj [(''message_kind'', VStr ''caption''), (''message_id'', VStr (cv_message_id m)),
     (''session_id'', VStr (cv_session_id m)), (''actor_id'', VNull), (''speaker_label'', dump_opt VStr (cv_speaker_label m)),
     (''track_id'', VStr (cv_track_id m)), (''segment_id'', VStr (cv_segment_id m)),
     (''segment_revision'', VInt (cv_segment_revision m)), (''language'', VStr (cv_language m)),
     (''raw_text'', VStr (cv_raw_text m)), (''display_text'', VStr (cv_display_text m)),
     (''audio_start_ms'', dump_opt VInt (cv_audio_start_ms m)), (''audio_end_ms'', dump_opt VInt (cv_audio_end_ms m)),
     (''confidence'', dump_opt VFloat (cv_confidence m)), (''received_at_ms'', VInt (cv_received_at_ms m)),
     (''finalized_at'', VStr (he_iso he (cv_finalized_at m))), (''content_hash'', VStr (cv_content_hash m))]"
| "dump_message he (User_Input_Evidence m) = VObj [(''message_kind'', VStr ''user_input''),
     (''message_id'', VStr (uv_message_id m)), (''session_id'', VStr (uv_session_id m)), (''actor_id'', VStr (uv_actor_id m)),
     (''raw_text'', VStr (uv_raw_text m)), (''display_text'', VStr (uv_display_text m)),
     (''created_at'', VStr (he_iso he (uv_created_at m))), (''content_hash'', VStr (uv_content_hash m))]"

definition dump_content :: "hash_env \<Rightarrow> candidate_content \<Rightarrow> jvalue" where
  "dump_content he c = VObj [(''title'', dump_grounded VStr (cc_title c)), (''deliverable'', dump_grounded VStr (cc_deliverable c)),
     (''assignee'', dump_grounded dump_assignee (cc_assignee c)),
     (''due_at'', dump_grounded (\<lambda>t. VStr (he_iso he t)) (cc_due_at c)),
     (''priority'', dump_grounded (\<lambda>p. VStr (priority_value p)) (cc_priority c)),
     (''evidence_messages'', VArr (map (dump_message he) (cc_evidence_messages c))),
     (''blocking_conflict_message_ids'', dump_strs (cc_blocking_conflict_message_ids c))]"

definition dump_candidate :: "hash_env \<Rightarrow> action_candidate \<Rightarrow> jvalue" where
  "dump_candidate he c = VObj [(''candidate_id'', VStr (ac_candidate_id c)), (''lineage_root_id'', VStr (ac_lineage_root_id c)),
     (''session_id'', VStr (ac_session_id c)), (''current_revision'', VInt (ac_current_revision c)),
     (''readiness'', VStr (readiness_value (ac_readiness c))), (''content_status'', VStr (ac_content_status c)),
     (''execution_status'', VStr (ac_execution_status c)), (''content'', dump_content he (ac_content c)),
     (''source_segment_ids'', dump_strs (ac_source_segment_ids c)),
     (''evidence_revisions_current'', VBool (ac_evidence_revisions_current c)),
     (''derived_from_candidate_id'', dump_opt VStr (ac_derived_from_candidate_id c)),
     (''derived_from_revision'', dump_opt VInt (ac_derived_from_revision c)),
     (''superseded_by_candidate_id'', dump_opt VStr (ac_superseded_by_candidate_id c))]"

definition dump_semantic_state :: "hash_env \<Rightarrow> meeting_state \<Rightarrow> jvalue" where
  "dump_semantic_state he s = VObj [(''session_id'', VStr (ms_session_id s)), (''topics'', VArr (map dump_item (ms_topics s))),
     (''entities'', VArr (map dump_entity (ms_entities s))), (''decisions'', VArr (map dump_item (ms_decisions s))),
     (''action_candidates'', VArr (map (dump_candidate he) (ms_action_candidates s))),
     (''highlights'', VArr (map dump_item (ms_highlights s))), (''conflicts'', VArr (map dump_item (ms_conflicts s))),
     (''user_concerns'', VArr (map dump_item (ms_user_concerns s)))]"

definition canonical_state_hash :: "hash_env \<Rightarrow> meeting_state \<Rightarrow> string" where
  "canonical_state_hash he s = he_sha256 he (utf8 (dumps (he_repr he) (dump_semantic_state he s)))"

subsection \<open>Collections as maps\<close>

definition item_view :: "'z meeting_item_scheme list \<Rightarrow> string \<Rightarrow> 'z meeting_item_scheme option" where
  "item_view items = map_of (map (\<lambda>i. (mi_item_id i, i)) items)"

definition sorted_items :: "'z meeting_item_scheme list \<Rightarrow> bool" where
  "sorted_items items \<longleftrightarrow> sorted (map mi_item_id items) \<and> distinct (map mi_item_id items)"

text \<open>The specification: drop what cites a reprojected segment, then overwrite.\<close>

definition overwrite ::
  "string set \<Rightarrow> (string \<Rightarrow> 'z meeting_item_scheme option) \<Rightarrow> 'z meeting_item_scheme list
   \<Rightarrow> string \<Rightarrow> 'z meeting_item_scheme option" where
  "overwrite R m projected = (\<lambda>k. case item_view (rev projected) k of
      Some i \<Rightarrow> Some i
    | None \<Rightarrow> (case m k of Some i \<Rightarrow> if set (mi_source_segment_ids i) \<inter> R = {} then Some i else None | None \<Rightarrow> None))"

definition keyed :: "(string, 'z meeting_item_scheme) dict \<Rightarrow> bool" where
  "keyed d \<longleftrightarrow> dict_wf d \<and> (\<forall>e \<in> set d. fst e = mi_item_id (snd e))"

lemma set_dict_set: "e \<in> set (dict_set d k v) \<Longrightarrow> e = (k, v) \<or> e \<in> set d"
  by (induction d k v rule: dict_set.induct) (auto split: if_splits)

lemma put_items_simps [simp]: "put_items d [] = d" "put_items d (i # is) = put_items (dict_set d (mi_item_id i) i) is"
  by (simp_all add: put_items_def)

lemma put_items_keyed: "keyed d \<Longrightarrow> keyed (put_items d items)"
proof (induction items arbitrary: d)
  case (Cons i items)
  from Cons.prems have "keyed (dict_set d (mi_item_id i) i)"
    by (auto simp: keyed_def dest: set_dict_set)
  then show ?case by (simp add: Cons.IH)
qed simp

lemma put_items_get: "dict_get (put_items d items) = dict_get d ++ item_view (rev items)"
  by (induction items arbitrary: d) (auto simp: item_view_def)

lemma keyed_sorted:
  assumes "keyed d"
  shows "sorted_items (map snd (sort_key fst d))" "item_view (map snd (sort_key fst d)) = dict_get d"
proof -
  have ids: "mi_item_id (snd e) = fst e" if "e \<in> set d" for e
    using assms that by (simp add: keyed_def)
  then have keys: "map mi_item_id (map snd (sort_key fst d)) = map fst (sort_key fst d)"
    by (simp add: comp_def)
  have dist: "distinct (map fst (sort_key fst d))"
    using assms by (intro distinct_map_sort) (simp add: keyed_def dict_wf_def)
  show "sorted_items (map snd (sort_key fst d))"
    using dist unfolding sorted_items_def keys by simp
  have "map (\<lambda>i. (mi_item_id i, i)) (map snd (sort_key fst d)) = sort_key fst d"
    using ids by (auto intro!: map_idI)
  moreover have "map_of (sort_key fst d) = map_of d"
    using assms by (intro map_of_inject_set [THEN iffD2] dist) (auto simp: keyed_def dict_wf_def)
  ultimately show "item_view (map snd (sort_key fst d)) = dict_get d"
    by (simp only: item_view_def)
qed

lemma item_view_Some: "item_view items k = Some i \<Longrightarrow> i \<in> set items \<and> mi_item_id i = k"
  by (auto simp: item_view_def dest!: map_of_SomeD)

lemma item_view_distinct: "distinct (map mi_item_id items) \<Longrightarrow> i \<in> set items \<Longrightarrow> item_view items (mi_item_id i) = Some i"
  unfolding item_view_def by (rule map_of_is_SomeI) (auto simp: comp_def)

lemma item_view_rev: "distinct (map mi_item_id items) \<Longrightarrow> item_view (rev items) = item_view items"
  using distinct_rev [of "map mi_item_id items"] unfolding item_view_def
  by (intro map_of_inject_set [THEN iffD2]) (simp_all add: rev_map comp_def del: distinct_rev)

lemma item_view_filter:
  "distinct (map mi_item_id items) \<Longrightarrow>
     item_view (filter p items) k = (case item_view items k of Some i \<Rightarrow> if p i then Some i else None | None \<Rightarrow> None)"
  by (induction items) (auto simp: item_view_def map_of_eq_None_iff image_iff split: option.splits dest!: map_of_SomeD)

lemma sorted_items_eqI:
  assumes "sorted_items xs" "sorted_items ys" "item_view xs = item_view ys"
  shows "xs = ys"
proof -
  have dom: "set (map mi_item_id zs) = dom (item_view zs)" for zs :: "'a meeting_item_scheme list"
    by (simp add: item_view_def dom_map_of_conv_image_fst image_image)
  have rebuild: "zs = map (\<lambda>k. the (item_view zs k)) (map mi_item_id zs)" if "sorted_items zs" for zs :: "'a meeting_item_scheme list"
    using that by (auto simp: sorted_items_def item_view_distinct intro!: map_idI [symmetric])
  have "map mi_item_id xs = map mi_item_id ys"
    using assms dom [of xs] dom [of ys] by (intro sorted_distinct_set_unique) (simp_all add: sorted_items_def)
  with rebuild [OF assms(1)] rebuild [OF assms(2)] assms(3) show ?thesis by metis
qed

text \<open>The merge of one collection implements the specification, and repeating it changes nothing.\<close>

lemma merge_items_refines:
  fixes current :: "'z meeting_item_scheme list"
  assumes "distinct (map mi_item_id current)"
  shows "sorted_items (merge_items R current projected)"
    and "item_view (merge_items R current projected) = overwrite R (item_view current) projected"
proof -
  let ?kept = "filter (\<lambda>i. set (mi_source_segment_ids i) \<inter> R = {}) current"
  let ?d = "put_items (put_items [] ?kept) projected"
  have keyed: "keyed ?d" by (intro put_items_keyed) (simp add: keyed_def)
  show "sorted_items (merge_items R current projected)"
    using keyed_sorted(1) [OF keyed] by (simp add: merge_items_def)
  have "distinct (map mi_item_id ?kept)" using assms by (induction current) auto
  then have "dict_get ?d = item_view ?kept ++ item_view (rev projected)"
    by (simp add: put_items_get item_view_rev)
  moreover have "item_view (merge_items R current projected) = dict_get ?d"
    using keyed_sorted(2) [OF keyed] by (simp add: merge_items_def)
  ultimately show "item_view (merge_items R current projected) = overwrite R (item_view current) projected"
    by (auto simp: overwrite_def fun_eq_iff map_add_def item_view_filter [OF assms] split: option.splits)
qed

lemma merge_items_members:
  assumes "distinct (map mi_item_id current)" "i \<in> set (merge_items R current projected)"
  shows "i \<in> set projected \<or> i \<in> set current \<and> set (mi_source_segment_ids i) \<inter> R = {}"
proof -
  have "item_view (merge_items R current projected) (mi_item_id i) = Some i"
    using merge_items_refines(1) [OF assms(1)] assms(2) by (intro item_view_distinct) (auto simp: sorted_items_def)
  then show ?thesis
    unfolding merge_items_refines(2) [OF assms(1)]
    by (auto simp: overwrite_def split: option.splits if_splits dest!: item_view_Some)
qed

lemma merge_items_again:
  assumes "distinct (map mi_item_id current)" "\<forall>i \<in> set projected. set (mi_source_segment_ids i) \<inter> R \<noteq> {}"
  shows "merge_items R (merge_items R current projected) projected = merge_items R current projected"
proof -
  note first = merge_items_refines [OF assms(1), of R projected]
  have dist: "distinct (map mi_item_id (merge_items R current projected))" using first(1) by (simp add: sorted_items_def)
  note second = merge_items_refines [OF dist, of R projected]
  have "overwrite R (overwrite R (item_view current) projected) projected = overwrite R (item_view current) projected"
    using assms(2) by (auto simp: overwrite_def fun_eq_iff split: option.splits)
  with first second show ?thesis by (intro sorted_items_eqI) simp_all
qed

subsection \<open>Projecting proposals\<close>

definition digests :: "hash_env \<Rightarrow> bool" where
  "digests he \<longleftrightarrow> (\<forall>bs. digest_ok (he_sha256 he bs))"

definition materialized ::
  "(string, int) dict \<Rightarrow> string \<Rightarrow> 'y state_item_proposal_scheme \<Rightarrow> 'z meeting_item_scheme \<Rightarrow> bool" where
  "materialized revisions identity p i \<longleftrightarrow> mi_item_id i = identity \<and> mi_text i = sp_text p
     \<and> mi_source_segment_ids i = sp_source_segment_ids p
     \<and> (\<forall>s \<in> set (sp_source_segment_ids p). dict_get (mi_source_segment_revisions i) s = dict_get revisions s)"

definition item_identity :: "hash_env \<Rightarrow> string \<Rightarrow> state_item_proposal \<Rightarrow> string" where
  "item_identity he kind p = stable_item_id he kind (VStr (sp_text p)) (sp_source_segment_ids p)"

definition entity_identity :: "hash_env \<Rightarrow> entity_proposal \<Rightarrow> string" where
  "entity_identity he p = stable_item_id he ''entity''
     (VObj [(''text'', VStr (sp_text p)), (''entity_type'', VStr (ep_entity_type p))]) (sp_source_segment_ids p)"

text \<open>A collection after the projection of \<open>ps\<close>: the specification, on what the proposals say.\<close>

definition reprojected ::
  "('y state_item_proposal_scheme \<Rightarrow> string) \<Rightarrow> (string, int) dict \<Rightarrow> 'y state_item_proposal_scheme list
   \<Rightarrow> 'z meeting_item_scheme list \<Rightarrow> 'z meeting_item_scheme list \<Rightarrow> bool" where
  "reprojected identity revisions ps current new \<longleftrightarrow>
     (\<exists>items. list_all2 (\<lambda>p i. materialized revisions (identity p) p i) ps items
        \<and> sorted_items new \<and> item_view new = overwrite (fst ` set revisions) (item_view current) items)"

text \<open>What the merge relies on of the constructors of items: cited segments with revisions are enough.\<close>

locale item_projection =
  fixes build :: "'y state_item_proposal_scheme \<Rightarrow> (string, int) dict \<Rightarrow> 'z meeting_item_scheme res"
    and identity :: "'y state_item_proposal_scheme \<Rightarrow> string"
    and ok :: "'y state_item_proposal_scheme \<Rightarrow> bool"
    and valid :: "'z meeting_item_scheme \<Rightarrow> bool"
  assumes build_total: "ok p \<Longrightarrow> list_all (\<lambda>e. 1 \<le> snd e) revisions \<Longrightarrow>
      set (sp_source_segment_ids p) \<subseteq> fst ` set revisions \<Longrightarrow>
      \<exists>i. build p revisions = Inr i \<and> valid i \<and> materialized revisions (identity p) p i"
    and cites: "ok p \<Longrightarrow> sp_source_segment_ids p \<noteq> []"
begin

lemma project_all:
  assumes "list_all ok ps" "list_all (\<lambda>e. 1 \<le> snd e) revisions"
    "\<And>p. p \<in> set ps \<Longrightarrow> set (sp_source_segment_ids p) \<subseteq> fst ` set revisions"
  shows "\<exists>items. map_res (\<lambda>p. build p revisions) ps = Inr items \<and> list_all valid items
     \<and> list_all2 (\<lambda>p i. materialized revisions (identity p) p i) ps items"
  using assms
proof (induction ps)
  case (Cons p ps)
  then obtain items where "map_res (\<lambda>p. build p revisions) ps = Inr items" "list_all valid items"
    "list_all2 (\<lambda>p i. materialized revisions (identity p) p i) ps items" by auto
  moreover obtain i where "build p revisions = Inr i" "valid i" "materialized revisions (identity p) p i"
    using build_total [of p revisions] Cons.prems by auto
  ultimately show ?case by auto
qed simp

lemma projected_cite:
  assumes "list_all2 (\<lambda>p i. materialized revisions (identity p) p i) ps items" "list_all ok ps"
    "\<And>p. p \<in> set ps \<Longrightarrow> set (sp_source_segment_ids p) \<subseteq> R" "i \<in> set items"
  shows "set (mi_source_segment_ids i) \<inter> R \<noteq> {}"
    and "\<forall>s \<in> set (mi_source_segment_ids i). dict_get (mi_source_segment_revisions i) s = dict_get revisions s"
proof -
  obtain p where p: "p \<in> set ps" "materialized revisions (identity p) p i"
    using list_all2_preimage [OF assms(1,4)] by blast
  moreover have "sp_source_segment_ids p \<noteq> []" using cites assms(2) p(1) by (simp add: list_all_iff)
  ultimately show "set (mi_source_segment_ids i) \<inter> R \<noteq> {}"
    and "\<forall>s \<in> set (mi_source_segment_ids i). dict_get (mi_source_segment_revisions i) s = dict_get revisions s"
    using assms(3) by (cases "sp_source_segment_ids p"; fastforce simp: materialized_def)+
qed

end

definition up_to_date :: "(string, int) dict \<Rightarrow> 'z meeting_item_scheme list \<Rightarrow> bool" where
  "up_to_date revisions items \<longleftrightarrow> (\<forall>i \<in> set items. set (mi_source_segment_ids i) \<inter> fst ` set revisions \<noteq> {} \<longrightarrow>
     (\<forall>s \<in> set (mi_source_segment_ids i). dict_get (mi_source_segment_revisions i) s = dict_get revisions s))"

text \<open>One collection of the merged state, with everything the merge promises of it.\<close>

definition collection_merged ::
  "('z meeting_item_scheme \<Rightarrow> bool) \<Rightarrow> ('y state_item_proposal_scheme \<Rightarrow> string) \<Rightarrow> (string, int) dict
   \<Rightarrow> 'y state_item_proposal_scheme list \<Rightarrow> 'z meeting_item_scheme list \<Rightarrow> 'z meeting_item_scheme list \<Rightarrow> bool" where
  "collection_merged valid identity revisions ps current items \<longleftrightarrow>
     (let R = fst ` set revisions; new = merge_items R current items
      in list_all valid new \<and> sorted_items new \<and> reprojected identity revisions ps current new
         \<and> up_to_date revisions new \<and> merge_items R new items = new)"

context item_projection
begin

lemma merge_collection:
  assumes "sorted_items current" "list_all valid current" "list_all ok ps" "list_all (\<lambda>e. 1 \<le> snd e) revisions"
    "\<Union> (set ` sp_source_segment_ids ` set ps) \<subseteq> fst ` set revisions"
  shows "\<exists>items. map_res (\<lambda>p. build p revisions) ps = Inr items \<and> collection_merged valid identity revisions ps current items"
proof -
  have cited: "set (sp_source_segment_ids p) \<subseteq> fst ` set revisions" if "p \<in> set ps" for p
    using assms(5) that by auto
  have dist: "distinct (map mi_item_id current)" using assms(1) by (simp add: sorted_items_def)
  obtain items where items: "map_res (\<lambda>p. build p revisions) ps = Inr items" "list_all valid items"
    "list_all2 (\<lambda>p i. materialized revisions (identity p) p i) ps items"
    using project_all [OF assms(3,4) cited] by blast
  note cite = projected_cite [OF items(3) assms(3) cited]
  note members = merge_items_members [OF dist, of _ "fst ` set revisions" items]
  have "list_all valid (merge_items (fst ` set revisions) current items)"
    using members assms(2) items(2) by (auto simp: list_all_iff)
  moreover have "reprojected identity revisions ps current (merge_items (fst ` set revisions) current items)"
    unfolding reprojected_def using items(3) merge_items_refines [OF dist] by blast
  moreover have "up_to_date revisions (merge_items (fst ` set revisions) current items)"
    unfolding up_to_date_def using members cite(2) by blast
  moreover have "merge_items (fst ` set revisions) (merge_items (fst ` set revisions) current items) items
      = merge_items (fst ` set revisions) current items"
    by (rule merge_items_again [OF dist]) (use cite(1) in blast)
  ultimately show ?thesis
    using items(1) merge_items_refines(1) [OF dist] by (auto simp: collection_merged_def Let_def)
qed

end

lemma segment_revisions_total:
  assumes "set ids \<subseteq> fst ` set revisions"
  shows "segment_revisions revisions ids = Inr (map (\<lambda>i. (i, the (dict_get revisions i))) (fromkeys ids))"
proof -
  have "\<exists>r. dict_get revisions i = Some r" if "i \<in> set ids" for i
    using assms that by (metis map_of_eq_None_iff not_None_eq subsetD)
  then show ?thesis unfolding segment_revisions_def by (intro map_res_total) fastforce
qed

lemma revisions_slice:
  assumes "set ids \<subseteq> fst ` set revisions" "list_all (\<lambda>e. 1 \<le> snd e) revisions"
  defines "rs \<equiv> map (\<lambda>i. (i, the (dict_get revisions i))) (fromkeys ids)"
  shows "fst ` set rs = set ids" "list_all (\<lambda>e. 1 \<le> snd e) rs" "\<forall>s \<in> set ids. dict_get rs s = dict_get revisions s"
proof -
  have known: "\<exists>r. dict_get revisions i = Some r \<and> 1 \<le> r" if "i \<in> set ids" for i
  proof -
    have "dict_get revisions i \<noteq> None" using assms(1) that by (auto simp: map_of_eq_None_iff)
    then obtain r where "dict_get revisions i = Some r" by blast
    with assms(2) show ?thesis by (auto simp: list_all_iff dest!: map_of_SomeD)
  qed
  show "fst ` set rs = set ids" by (simp add: rs_def image_image)
  show "list_all (\<lambda>e. 1 \<le> snd e) rs" using known by (fastforce simp: rs_def list_all_iff)
  show "\<forall>s \<in> set ids. dict_get rs s = dict_get revisions s"
    using known by (fastforce simp: rs_def map_of_map_restrict)
qed

lemma stable_id_length: "digests he \<Longrightarrow> length (stable_item_id he kind c ids) = 68"
  by (simp add: digests_def digest_ok_def stable_item_id_def)

interpretation items: item_projection "\<lambda>p. state_item he kind p" "item_identity he kind"
  "\<lambda>p. digests he \<and> proposal_ok p" item_ok for he kind
proof unfold_locales
  fix p :: state_item_proposal and revisions :: "(string, int) dict"
  assume p: "digests he \<and> proposal_ok p" and pos: "list_all (\<lambda>e. 1 \<le> snd e) revisions"
    and cited: "set (sp_source_segment_ids p) \<subseteq> fst ` set revisions"
  note slice = revisions_slice [OF cited pos]
  show "\<exists>i. state_item he kind p revisions = Inr i \<and> item_ok i \<and> materialized revisions (item_identity he kind p) p i"
    using p slice stable_id_length [of he]
    by (auto simp: state_item_def segment_revisions_total [OF cited] checked_def item_ok_def len_in_def proposal_ok_def
        materialized_def item_identity_def simp del: map_of_map_restrict)
qed (simp add: proposal_ok_def)

interpretation entities: item_projection "\<lambda>p. entity_of he p" "entity_identity he"
  "\<lambda>p. digests he \<and> entity_proposal_ok p" entity_ok for he
proof unfold_locales
  fix p :: entity_proposal and revisions :: "(string, int) dict"
  assume p: "digests he \<and> entity_proposal_ok p" and pos: "list_all (\<lambda>e. 1 \<le> snd e) revisions"
    and cited: "set (sp_source_segment_ids p) \<subseteq> fst ` set revisions"
  note slice = revisions_slice [OF cited pos]
  show "\<exists>i. entity_of he p revisions = Inr i \<and> entity_ok i \<and> materialized revisions (entity_identity he p) p i"
    using p slice stable_id_length [of he]
    by (auto simp: entity_of_def segment_revisions_total [OF cited] checked_def item_ok_def entity_ok_def len_in_def
        proposal_ok_def entity_proposal_ok_def materialized_def entity_identity_def simp del: map_of_map_restrict)
qed (simp add: proposal_ok_def entity_proposal_ok_def)

subsection \<open>The merged state\<close>

definition sorted_state :: "meeting_state \<Rightarrow> bool" where
  "sorted_state s \<longleftrightarrow> sorted_items (ms_topics s) \<and> sorted_items (ms_entities s) \<and> sorted_items (ms_decisions s)
     \<and> sorted_items (ms_highlights s) \<and> sorted_items (ms_conflicts s)"

text \<open>The calls that \<open>_commit_projection\<close> makes: a validated delta of the batch, its revisions, valid candidates.\<close>

definition merge_ready ::
  "hash_env \<Rightarrow> meeting_state \<Rightarrow> meeting_state_delta \<Rightarrow> action_candidate list \<Rightarrow> (string, int) dict \<Rightarrow> int \<Rightarrow> bool" where
  "merge_ready he current delta candidates revisions v \<longleftrightarrow> digests he \<and> state_ok current \<and> sorted_state current \<and> delta_ok delta
     \<and> cited_segment_ids delta \<subseteq> set (dl_source_segment_ids delta) \<and> ms_session_id current = dl_session_id delta
     \<and> ms_version current < v \<and> fst ` set revisions = set (dl_source_segment_ids delta)
     \<and> list_all (\<lambda>e. 1 \<le> snd e) revisions \<and> list_all candidate_ok candidates"

lemma merge_collections:
  assumes "merge_ready he current delta candidates revisions v"
  shows "\<exists>ts. map_res (\<lambda>p. state_item he ''topic'' p revisions) (dl_topics delta) = Inr ts
      \<and> collection_merged item_ok (item_identity he ''topic'') revisions (dl_topics delta) (ms_topics current) ts" (is ?t)
    and "\<exists>es. map_res (\<lambda>p. entity_of he p revisions) (dl_entities delta) = Inr es
      \<and> collection_merged entity_ok (entity_identity he) revisions (dl_entities delta) (ms_entities current) es" (is ?e)
    and "\<exists>ds. map_res (\<lambda>p. state_item he ''decision'' p revisions) (dl_decisions delta) = Inr ds
      \<and> collection_merged item_ok (item_identity he ''decision'') revisions (dl_decisions delta) (ms_decisions current) ds" (is ?d)
    and "\<exists>hs. map_res (\<lambda>p. state_item he ''highlight'' p revisions) (dl_highlights delta) = Inr hs
      \<and> collection_merged item_ok (item_identity he ''highlight'') revisions (dl_highlights delta) (ms_highlights current) hs" (is ?h)
    and "\<exists>cs. map_res (\<lambda>p. state_item he ''conflict'' p revisions) (dl_conflicts delta) = Inr cs
      \<and> collection_merged item_ok (item_identity he ''conflict'') revisions (dl_conflicts delta) (ms_conflicts current) cs" (is ?c)
proof -
  have pos: "list_all (\<lambda>e. 1 \<le> snd e) revisions" and sorted: "sorted_state current" and ok: "state_ok current"
    using assms by (simp_all add: merge_ready_def)
  have cited: "\<Union> (set ` sp_source_segment_ids ` set (dl_topics delta)) \<subseteq> fst ` set revisions"
      "\<Union> (set ` sp_source_segment_ids ` set (dl_entities delta)) \<subseteq> fst ` set revisions"
      "\<Union> (set ` sp_source_segment_ids ` set (dl_decisions delta)) \<subseteq> fst ` set revisions"
      "\<Union> (set ` sp_source_segment_ids ` set (dl_highlights delta)) \<subseteq> fst ` set revisions"
      "\<Union> (set ` sp_source_segment_ids ` set (dl_conflicts delta)) \<subseteq> fst ` set revisions"
    using assms by (simp_all add: merge_ready_def cited_segment_ids_def)
  have valid: "list_all (\<lambda>p. digests he \<and> proposal_ok p) (dl_topics delta)"
      "list_all (\<lambda>p. digests he \<and> entity_proposal_ok p) (dl_entities delta)"
      "list_all (\<lambda>p. digests he \<and> proposal_ok p) (dl_decisions delta)"
      "list_all (\<lambda>p. digests he \<and> proposal_ok p) (dl_highlights delta)"
      "list_all (\<lambda>p. digests he \<and> proposal_ok p) (dl_conflicts delta)"
    using assms by (simp_all add: merge_ready_def delta_ok_def list_all_iff)
  note parts = sorted [unfolded sorted_state_def] ok [unfolded state_ok_def]
  show ?t using items.merge_collection [OF _ _ valid(1) pos cited(1)] parts by blast
  show ?e using entities.merge_collection [OF _ _ valid(2) pos cited(2)] parts by blast
  show ?d using items.merge_collection [OF _ _ valid(3) pos cited(3)] parts by blast
  show ?h using items.merge_collection [OF _ _ valid(4) pos cited(4)] parts by blast
  show ?c using items.merge_collection [OF _ _ valid(5) pos cited(5)] parts by blast
qed

text \<open>
  C35. Merging a validated extraction always succeeds and implements the specification
  \<open>overwrite\<close>: in every collection the items that cite a reprojected segment are replaced by
  what the proposals say, the last proposal winning for an identifier, everything else stays,
  and the result is valid, sorted and free of duplicates. No item keeps an outdated revision of
  a reprojected segment, user concerns are never touched, and merging the same extraction again
  changes nothing but the version, so the hash of the state is the same.
\<close>

theorem merge_meeting_state_refines:
  assumes ready: "merge_ready he current delta candidates revisions v"
  shows "\<exists>s. merge_meeting_state he current delta candidates revisions v = Inr s
    \<and> state_ok s \<and> sorted_state s \<and> ms_session_id s = ms_session_id current \<and> ms_version s = v
    \<and> ms_user_concerns s = ms_user_concerns current \<and> ms_action_candidates s = sort_key ac_candidate_id candidates
    \<and> reprojected (item_identity he ''topic'') revisions (dl_topics delta) (ms_topics current) (ms_topics s)
    \<and> reprojected (entity_identity he) revisions (dl_entities delta) (ms_entities current) (ms_entities s)
    \<and> reprojected (item_identity he ''decision'') revisions (dl_decisions delta) (ms_decisions current) (ms_decisions s)
    \<and> reprojected (item_identity he ''highlight'') revisions (dl_highlights delta) (ms_highlights current) (ms_highlights s)
    \<and> reprojected (item_identity he ''conflict'') revisions (dl_conflicts delta) (ms_conflicts current) (ms_conflicts s)
    \<and> up_to_date revisions (ms_topics s) \<and> up_to_date revisions (ms_entities s) \<and> up_to_date revisions (ms_decisions s)
    \<and> up_to_date revisions (ms_highlights s) \<and> up_to_date revisions (ms_conflicts s)
    \<and> (\<forall>w > v. merge_meeting_state he s delta candidates revisions w = Inr (s\<lparr>ms_version := w\<rparr>)
          \<and> canonical_state_hash he (s\<lparr>ms_version := w\<rparr>) = canonical_state_hash he s)"
proof -
  let ?R = "fst ` set revisions"
  obtain ts es ds hs cs where
    built: "map_res (\<lambda>p. state_item he ''topic'' p revisions) (dl_topics delta) = Inr ts"
      "map_res (\<lambda>p. entity_of he p revisions) (dl_entities delta) = Inr es"
      "map_res (\<lambda>p. state_item he ''decision'' p revisions) (dl_decisions delta) = Inr ds"
      "map_res (\<lambda>p. state_item he ''highlight'' p revisions) (dl_highlights delta) = Inr hs"
      "map_res (\<lambda>p. state_item he ''conflict'' p revisions) (dl_conflicts delta) = Inr cs"
    and merged: "collection_merged item_ok (item_identity he ''topic'') revisions (dl_topics delta) (ms_topics current) ts"
      "collection_merged entity_ok (entity_identity he) revisions (dl_entities delta) (ms_entities current) es"
      "collection_merged item_ok (item_identity he ''decision'') revisions (dl_decisions delta) (ms_decisions current) ds"
      "collection_merged item_ok (item_identity he ''highlight'') revisions (dl_highlights delta) (ms_highlights current) hs"
      "collection_merged item_ok (item_identity he ''conflict'') revisions (dl_conflicts delta) (ms_conflicts current) cs"
    using merge_collections [OF ready] by blast
  note merged = merged [unfolded collection_merged_def Let_def]
  define s where "s = \<lparr>ms_session_id = ms_session_id current, ms_version = v, ms_topics = merge_items ?R (ms_topics current) ts,
     ms_entities = merge_items ?R (ms_entities current) es, ms_decisions = merge_items ?R (ms_decisions current) ds,
     ms_action_candidates = sort_key ac_candidate_id candidates, ms_highlights = merge_items ?R (ms_highlights current) hs,
     ms_conflicts = merge_items ?R (ms_conflicts current) cs, ms_user_concerns = ms_user_concerns current\<rparr>"
  have ok: "state_ok (s\<lparr>ms_version := w\<rparr>)" if "v \<le> w" for w
    using ready that merged by (auto simp: s_def merge_ready_def state_ok_def list_all_iff)
  have build: "merge_meeting_state he x delta candidates revisions w = Inr (s\<lparr>ms_version := w\<rparr>)"
    if "x = current \<and> w = v \<or> x = s \<and> v < w" for x w
    using that ready ok [of w] merged
    by (auto simp: merge_meeting_state_def built merge_ready_def list_all_iff list_ex_iff s_def Let_def)
  have "merge_meeting_state he current delta candidates revisions v = Inr s" "state_ok s"
    using build [of current v] ok [of v] by (simp_all add: s_def)
  moreover have "sorted_state s" using merged by (simp add: sorted_state_def s_def)
  moreover have "canonical_state_hash he (s\<lparr>ms_version := w\<rparr>) = canonical_state_hash he s" for w
    by (simp add: canonical_state_hash_def dump_semantic_state_def)
  ultimately show ?thesis using build [of s] merged by (intro exI [of _ s]) (simp add: s_def)
qed

definition demo_hashes :: hash_env where
  "demo_hashes = \<lparr>he_repr = (\<lambda>_. ''0.5''), he_sha256 = (\<lambda>_. replicate 64 (CHR ''0'')), he_iso = (\<lambda>_. ''now'')\<rparr>"

definition demo_delta :: meeting_state_delta where
  "demo_delta = \<lparr>dl_session_id = ''m'', dl_source_segment_ids = [''a'', ''b''],
     dl_topics = [\<lparr>sp_text = ''budget'', sp_source_segment_ids = [''a'']\<rparr>],
     dl_entities = [\<lparr>sp_text = ''ACME'', sp_source_segment_ids = [''b''], ep_entity_type = ''company''\<rparr>],
     dl_decisions = [], dl_highlights = [], dl_conflicts = [], dl_action_operations = [], dl_warnings = []\<rparr>"

lemma demo_hashes_digests: "digests demo_hashes"
  by (simp add: digests_def demo_hashes_def digest_ok_def list_all_iff is_hex_digit_def is_digit_def)

lemma demo_merge_ready: "merge_ready demo_hashes (initial_state ''m'') demo_delta [] [(''a'', 2), (''b'', 1)] 1"
proof -
  have "delta_ok demo_delta" by code_simp
  moreover have "cited_segment_ids demo_delta \<subseteq> set (dl_source_segment_ids demo_delta)" by code_simp
  ultimately show ?thesis
    by (simp add: merge_ready_def demo_hashes_digests initial_state_def state_ok_def sorted_state_def sorted_items_def len_in_def)
      (auto simp: demo_delta_def)
qed

theorem merge_meeting_state_refines_witness:
  "\<exists>s. merge_meeting_state demo_hashes (initial_state ''m'') demo_delta [] [(''a'', 2), (''b'', 1)] 1 = Inr s
     \<and> ms_version s = 1 \<and> up_to_date [(''a'', 2), (''b'', 1)] (ms_topics s)
     \<and> merge_meeting_state demo_hashes s demo_delta [] [(''a'', 2), (''b'', 1)] 2 = Inr (s\<lparr>ms_version := 2\<rparr>)"
  using merge_meeting_state_refines [OF demo_merge_ready] by (elim ex_forward) simp

end
