(* ===== verification/Meeting_Repository.thy ===== *)
theory Meeting_Repository
  imports Meeting_Merge Optimistic
begin

section \<open>The repository of meeting states\<close>

text \<open>
  Models \<open>meeting_state/repository.py\<close>: projection offsets, the head of a session's meeting state,
  marks, action candidates with their revisions, and identity bindings. The JSON columns of a
  head, a mark or a revision hold the dump of a Pydantic object; the object itself stands for
  its dump. Identifiers and instants the code draws are arguments.
\<close>

subsection \<open>Projection offsets\<close>

record offset_record =
  of_id :: string
  of_session_id :: string
  of_segment_id :: string
  of_processed_revision :: int
  of_processed_at :: instant

abbreviation offset_key :: "offset_record \<Rightarrow> string \<times> string" where
  "offset_key r \<equiv> (of_session_id r, of_segment_id r)"

definition advance_offset ::
  "string \<Rightarrow> string \<Rightarrow> int \<Rightarrow> instant option \<Rightarrow> string \<Rightarrow> instant \<Rightarrow> offset_record list \<Rightarrow> (offset_record list \<times> offset_record) res" where
  "advance_offset session_id segment_id processed_revision processed_at new_id now rows =
     (if processed_revision < 1 then Inl (ValueError ''processed_revision must be positive'')
      else let timestamp = or_else processed_at now in
        case find_row (\<lambda>r. offset_key r = (session_id, segment_id)) rows of
          None \<Rightarrow> (let r = \<lparr>of_id = new_id, of_session_id = session_id, of_segment_id = segment_id,
                       of_processed_revision = processed_revision, of_processed_at = timestamp\<rparr>
                   in if new_id \<in> set (map of_id rows) then Inl integrity_error else Inr (rows @ [r], r))
        | Some r \<Rightarrow>
            if processed_revision \<le> of_processed_revision r then Inr (rows, r)
            else let r' = r\<lparr>of_processed_revision := processed_revision, of_processed_at := timestamp\<rparr>
                 in Inr (update_rows (\<lambda>x. offset_key x = (session_id, segment_id)) (\<lambda>_. r') rows, r'))"

definition processed :: "offset_record list \<Rightarrow> string \<Rightarrow> string \<Rightarrow> int" where
  "processed rows session_id segment_id =
     (case find_row (\<lambda>r. offset_key r = (session_id, segment_id)) rows of None \<Rightarrow> 0 | Some r \<Rightarrow> of_processed_revision r)"

subsection \<open>Heads\<close>

record head_record =
  hr_session_id :: string
  hr_version :: int
  hr_status :: string
  hr_state :: meeting_state
  hr_state_hash :: string
  hr_source_frontier :: jvalue
  hr_latest_final_updated_at :: "instant option"
  hr_projected_through :: "instant option"
  hr_lag_ms :: int
  hr_pending_segment_count :: int
  hr_last_success_at :: "instant option"
  hr_last_error_at :: "instant option"
  hr_last_error_code :: "string option"
  hr_updated_at :: instant

abbreviation get_head :: "string \<Rightarrow> head_record list \<Rightarrow> head_record option" where
  "get_head session_id heads \<equiv> find_row (\<lambda>r. hr_session_id r = session_id) heads"

definition record_projection_error ::
  "string \<Rightarrow> string \<Rightarrow> meeting_state \<Rightarrow> string \<Rightarrow> instant option \<Rightarrow> int \<Rightarrow> int \<Rightarrow> instant option \<Rightarrow> instant \<Rightarrow> head_record list
   \<Rightarrow> (head_record list \<times> head_record) res" where
  "record_projection_error session_id error_code initial initial_hash latest_final lag_ms pending failed_at now heads =
     (if error_code = [] \<or> length error_code > 128
      then Inl (ValueError ''projection error code must contain at most 128 characters'')
      else if length initial_hash \<noteq> 64 then Inl (ValueError ''initial_state_hash must be a 64-character digest'')
      else if lag_ms < 0 \<or> pending < 0 then Inl (ValueError ''freshness counters must be non-negative'')
      else let timestamp = or_else failed_at now in
        case get_head session_id heads of
          None \<Rightarrow> (let r = \<lparr>hr_session_id = session_id, hr_version = 0, hr_status = ''stale'', hr_state = initial,
              hr_state_hash = initial_hash, hr_source_frontier = VObj [], hr_latest_final_updated_at = latest_final,
              hr_projected_through = None, hr_lag_ms = lag_ms, hr_pending_segment_count = pending, hr_last_success_at = None,
              hr_last_error_at = Some timestamp, hr_last_error_code = Some error_code, hr_updated_at = timestamp\<rparr>
            in Inr (heads @ [r], r))
        | Some r \<Rightarrow> (let r' = r\<lparr>hr_status := ''stale'', hr_latest_final_updated_at := latest_final, hr_lag_ms := lag_ms,
              hr_pending_segment_count := pending, hr_last_error_at := Some timestamp, hr_last_error_code := Some error_code,
              hr_updated_at := timestamp\<rparr>
            in Inr (update_rows (\<lambda>x. hr_session_id x = session_id) (\<lambda>_. r') heads, r')))"

record head_values =
  hv_status :: string
  hv_state :: meeting_state
  hv_state_hash :: string
  hv_source_frontier :: jvalue
  hv_latest_final_updated_at :: "instant option"
  hv_projected_through :: "instant option"
  hv_lag_ms :: int
  hv_pending_segment_count :: int
  hv_last_success_at :: "instant option"
  hv_last_error_at :: "instant option"
  hv_last_error_code :: "string option"

definition head_of :: "string \<Rightarrow> int \<Rightarrow> head_values \<Rightarrow> instant \<Rightarrow> head_record" where
  "head_of session_id version v timestamp = \<lparr>hr_session_id = session_id, hr_version = version, hr_status = hv_status v,
     hr_state = hv_state v, hr_state_hash = hv_state_hash v, hr_source_frontier = hv_source_frontier v,
     hr_latest_final_updated_at = hv_latest_final_updated_at v, hr_projected_through = hv_projected_through v,
     hr_lag_ms = hv_lag_ms v, hr_pending_segment_count = hv_pending_segment_count v, hr_last_success_at = hv_last_success_at v,
     hr_last_error_at = hv_last_error_at v, hr_last_error_code = hv_last_error_code v, hr_updated_at = timestamp\<rparr>"

text \<open>
  \<open>existing\<close> is the head as this transaction read it; the update compares with the version of
  the row in the table.
\<close>

definition replace_head ::
  "string \<Rightarrow> int \<Rightarrow> head_values \<Rightarrow> instant option \<Rightarrow> instant \<Rightarrow> head_record option \<Rightarrow> head_record list
   \<Rightarrow> (head_record list \<times> head_record) res" where
  "replace_head session_id expected_version v updated_at now existing heads =
     (if expected_version < 0 then Inl (ValueError ''expected_version must be non-negative'')
      else if hv_lag_ms v < 0 \<or> hv_pending_segment_count v < 0 then Inl (ValueError ''freshness counters must be non-negative'')
      else if length (hv_state_hash v) \<noteq> 64 then Inl (ValueError ''state_hash must be a 64-character digest'')
      else let timestamp = or_else updated_at now in
        case existing of
          None \<Rightarrow>
            if expected_version \<noteq> 0
            then Inl (MeetingStateConflictError (''Meeting State head '' @ session_id @ '' expected version '' @ dumps_int expected_version
                   @ '', but no head exists''))
            else insert_row hr_session_id (head_of session_id 1 v timestamp) heads
        | Some _ \<Rightarrow>
            cas_update hr_session_id session_id (\<lambda>r. hr_version r = expected_version)
              (\<lambda>r. head_of (hr_session_id r) (expected_version + 1) v timestamp)
              (MeetingStateConflictError (''Meeting State head '' @ session_id @ '' no longer has version '' @ dumps_int expected_version))
              (LookupError (''Meeting State head not found: '' @ session_id)) heads)"

subsection \<open>Marks\<close>

record mark_record =
  mk_id :: string
  mk_session_id :: string
  mk_origin :: string
  mk_kind :: string
  mk_status :: string
  mk_title :: string
  mk_note :: "string option"
  mk_confidence :: "rat option"
  mk_source_segment_ids :: "string list"
  mk_source_segment_revisions :: "(string, int) dict"
  mk_evidence_messages :: "evidence_message list"
  mk_audio_start_ms :: "int option"
  mk_audio_end_ms :: "int option"
  mk_source_state_version :: int
  mk_created_at :: instant
  mk_updated_at :: instant

fun caption_of :: "evidence_message \<Rightarrow> caption_evidence_message option" where
  "caption_of (Caption_Evidence m) = Some m"
| "caption_of (User_Input_Evidence _) = None"

definition caption_messages :: "evidence_message list \<Rightarrow> (string, caption_evidence_message) dict" where
  "caption_messages messages = foldl (\<lambda>d m. dict_set d (cv_segment_id m) m) [] (List.map_filter caption_of messages)"

record mark_args =
  ma_session_id :: string
  ma_origin :: string
  ma_kind :: string
  ma_title :: string
  ma_source_segment_ids :: "string list"
  ma_source_segment_revisions :: "(string, int) dict"
  ma_evidence_messages :: "evidence_message list"
  ma_source_state_version :: int
  ma_note :: "string option"
  ma_confidence :: "rat option"
  ma_audio_start_ms :: "int option"
  ma_audio_end_ms :: "int option"
  ma_status :: "string option"
  ma_mark_id :: "string option"
  ma_created_at :: "instant option"

definition create_mark :: "mark_args \<Rightarrow> string \<Rightarrow> instant \<Rightarrow> mark_record list \<Rightarrow> (mark_record list \<times> mark_record) res" where
  "create_mark a new_id now rows =
     (let unique_ids = fromkeys (ma_source_segment_ids a); revisions = ma_source_segment_revisions a;
          captions = caption_messages (ma_evidence_messages a) in
      if py_strip (ma_title a) = [] then Inl (ValueError ''mark title is required'')
      else if ma_source_segment_ids a = [] then Inl (ValueError ''mark evidence is required'')
      else if fst ` set revisions \<noteq> set unique_ids then Inl (ValueError ''mark evidence revisions must match source Segment IDs'')
      else if list_ex (\<lambda>e. snd e < 1) revisions then Inl (ValueError ''mark evidence revisions must be positive'')
      else if ma_evidence_messages a = [] then Inl (ValueError ''mark evidence messages are required'')
      else if list_ex (\<lambda>m. message_session m \<noteq> ma_session_id a) (ma_evidence_messages a)
      then Inl (ValueError ''mark evidence messages belong to another Session'')
      else if fst ` set captions \<noteq> set unique_ids
           \<or> list_ex (\<lambda>s. map_option cv_segment_revision (dict_get captions s) \<noteq> dict_get revisions s) unique_ids
      then Inl (ValueError ''mark caption evidence does not match source revisions'')
      else if ma_origin a = ''manual'' \<and> \<not> list_ex (\<lambda>m. caption_of m = None) (ma_evidence_messages a)
      then Inl (ValueError ''manual marks require user-input evidence'')
      else if ma_source_state_version a < 0 then Inl (ValueError ''source_state_version must be non-negative'')
      else if \<not> opt_all unit_interval (ma_confidence a) then Inl (ValueError ''confidence must be between zero and one'')
      else if \<not> opt_all (\<lambda>s. opt_all (\<lambda>e. s \<le> e) (ma_audio_end_ms a)) (ma_audio_start_ms a)
      then Inl (ValueError ''audio end must not precede audio start'')
      else let timestamp = or_else (ma_created_at a) now in
        insert_row mk_id
          \<lparr>mk_id = str_or (ma_mark_id a) new_id, mk_session_id = ma_session_id a, mk_origin = ma_origin a, mk_kind = ma_kind a,
           mk_status = str_or (ma_status a) (if ma_origin a = ''manual'' then ''accepted'' else ''candidate''),
           mk_title = py_strip (ma_title a), mk_note = ma_note a, mk_confidence = ma_confidence a,
           mk_source_segment_ids = unique_ids, mk_source_segment_revisions = revisions,
           mk_evidence_messages = ma_evidence_messages a, mk_audio_start_ms = ma_audio_start_ms a,
           mk_audio_end_ms = ma_audio_end_ms a, mk_source_state_version = ma_source_state_version a,
           mk_created_at = timestamp, mk_updated_at = timestamp\<rparr> rows)"

definition update_mark_status ::
  "string \<Rightarrow> string \<Rightarrow> instant option \<Rightarrow> instant \<Rightarrow> mark_record list \<Rightarrow> (mark_record list \<times> mark_record) res" where
  "update_mark_status mark_id status updated_at now =
     modify_row mk_id mark_id (LookupError (''Meeting mark not found: '' @ mark_id))
       (\<lambda>r. Inr (r\<lparr>mk_status := status, mk_updated_at := or_else updated_at now\<rparr>))"

definition paged :: "int option \<Rightarrow> int \<Rightarrow> 'a list \<Rightarrow> 'a list" where
  "paged limit offset rows = (let rest = drop (nat (max 0 offset)) rows
     in case limit of None \<Rightarrow> rest | Some l \<Rightarrow> take (nat (max 1 (min l 101))) rest)"

definition list_marks :: "string \<Rightarrow> int option \<Rightarrow> int \<Rightarrow> mark_record list \<Rightarrow> mark_record list" where
  "list_marks session_id limit offset rows =
     paged limit offset (sort_key (\<lambda>r. (mk_created_at r, mk_id r)) (filter (\<lambda>r. mk_session_id r = session_id) rows))"

subsection \<open>Candidates\<close>

record candidate_record =
  ca_id :: string
  ca_session_id :: string
  ca_lineage_root_id :: string
  ca_current_revision :: int
  ca_content_status :: string
  ca_execution_status :: string
  ca_superseded_by_candidate_id :: "string option"
  ca_derived_from_candidate_id :: "string option"
  ca_derived_from_revision :: "int option"
  ca_created_at :: instant
  ca_updated_at :: instant

record candidate_revision_record =
  cr_id :: string
  cr_candidate_id :: string
  cr_revision :: int
  cr_readiness :: readiness
  cr_content :: candidate_content
  cr_change_kind :: string
  cr_parent_revision :: "int option"
  cr_change_summary :: "string option"
  cr_created_at :: instant

record candidate_db =
  cd_candidates :: "candidate_record list"
  cd_revisions :: "candidate_revision_record list"

definition insert_revision :: "candidate_revision_record \<Rightarrow> candidate_revision_record list \<Rightarrow> candidate_revision_record list res" where
  "insert_revision r rows =
     (if cr_id r \<in> set (map cr_id rows) \<or> (cr_candidate_id r, cr_revision r) \<in> set (map (\<lambda>x. (cr_candidate_id x, cr_revision x)) rows)
      then Inl integrity_error else Inr (rows @ [r]))"

definition create_candidate ::
  "string \<Rightarrow> candidate_content \<Rightarrow> readiness \<Rightarrow> string option \<Rightarrow> string option \<Rightarrow> string \<Rightarrow> string \<Rightarrow> string option \<Rightarrow> int option
   \<Rightarrow> string option \<Rightarrow> instant option \<Rightarrow> string \<Rightarrow> string \<Rightarrow> instant \<Rightarrow> candidate_db \<Rightarrow> (candidate_db \<times> candidate_record) res" where
  "create_candidate session_id content readiness candidate_id lineage_root_id content_status execution_status
     derived_from_candidate_id derived_from_revision change_summary created_at new_id revision_id now db =
     (let identifier = str_or candidate_id new_id; timestamp = or_else created_at now;
          row = \<lparr>ca_id = identifier, ca_session_id = session_id, ca_lineage_root_id = str_or lineage_root_id identifier,
            ca_current_revision = 1, ca_content_status = content_status, ca_execution_status = execution_status,
            ca_superseded_by_candidate_id = None, ca_derived_from_candidate_id = derived_from_candidate_id,
            ca_derived_from_revision = derived_from_revision, ca_created_at = timestamp, ca_updated_at = timestamp\<rparr>
      in rbind (insert_row ca_id row (cd_candidates db)) (\<lambda>(rows, r).
         rbind (insert_revision \<lparr>cr_id = revision_id, cr_candidate_id = identifier, cr_revision = 1, cr_readiness = readiness,
             cr_content = content, cr_change_kind = ''create'', cr_parent_revision = None, cr_change_summary = change_summary,
             cr_created_at = timestamp\<rparr> (cd_revisions db)) (\<lambda>revisions.
         Inr (\<lparr>cd_candidates = rows, cd_revisions = revisions\<rparr>, r))))"

definition append_candidate_revision ::
  "string \<Rightarrow> int \<Rightarrow> candidate_content \<Rightarrow> readiness \<Rightarrow> string \<Rightarrow> string option \<Rightarrow> instant option \<Rightarrow> string \<Rightarrow> instant
   \<Rightarrow> candidate_db \<Rightarrow> candidate_db res" where
  "append_candidate_revision candidate_id expected_revision content readiness change_kind change_summary created_at revision_id now db =
     (if expected_revision < 1 then Inl (ValueError ''expected_revision must be positive'')
      else let timestamp = or_else created_at now in
        if rowcount (\<lambda>r. ca_id r = candidate_id \<and> ca_current_revision r = expected_revision) (cd_candidates db) \<noteq> 1
        then Inl (MeetingStateConflictError (''Action Candidate '' @ candidate_id @ '' no longer has revision '' @ dumps_int expected_revision))
        else rbind (insert_revision \<lparr>cr_id = revision_id, cr_candidate_id = candidate_id, cr_revision = expected_revision + 1,
                cr_readiness = readiness, cr_content = content, cr_change_kind = change_kind,
                cr_parent_revision = Some expected_revision, cr_change_summary = change_summary,
                cr_created_at = timestamp\<rparr> (cd_revisions db)) (\<lambda>revisions.
             Inr \<lparr>cd_candidates = update_rows (\<lambda>r. ca_id r = candidate_id \<and> ca_current_revision r = expected_revision)
                    (\<lambda>r. r\<lparr>ca_current_revision := expected_revision + 1, ca_updated_at := timestamp\<rparr>) (cd_candidates db),
                  cd_revisions = revisions\<rparr>))"

abbreviation get_candidate :: "string \<Rightarrow> candidate_db \<Rightarrow> candidate_record option" where
  "get_candidate candidate_id db \<equiv> find_row (\<lambda>r. ca_id r = candidate_id) (cd_candidates db)"

definition put_candidate :: "candidate_record \<Rightarrow> candidate_db \<Rightarrow> candidate_db" where
  "put_candidate r db = db\<lparr>cd_candidates := update_rows (\<lambda>x. ca_id x = ca_id r) (\<lambda>_. r) (cd_candidates db)\<rparr>"

definition supersede_candidate ::
  "string \<Rightarrow> string \<Rightarrow> instant option \<Rightarrow> instant \<Rightarrow> candidate_db \<Rightarrow> candidate_db res" where
  "supersede_candidate candidate_id superseded_by updated_at now db =
     (if candidate_id = superseded_by then Inl (ValueError ''a candidate cannot supersede itself'')
      else case get_candidate candidate_id db of
        None \<Rightarrow> Inl (LookupError (''Action Candidate not found: '' @ candidate_id))
      | Some r \<Rightarrow> (case get_candidate superseded_by db of
          None \<Rightarrow> Inl (LookupError (''Action Candidate not found: '' @ superseded_by))
        | Some survivor \<Rightarrow>
            if ca_session_id r \<noteq> ca_session_id survivor
            then Inl (ValueError ''candidates from different Sessions cannot be merged'')
            else Inr (put_candidate (r\<lparr>ca_content_status := ''superseded'', ca_superseded_by_candidate_id := Some superseded_by,
                        ca_updated_at := or_else updated_at now\<rparr>) db)))"

definition EXECUTION_TRANSITIONS :: "(string, string list) dict" where
  "EXECUTION_TRANSITIONS = [(''not_requested'', [''handed_off'', ''executing'']), (''handed_off'', [''executing'', ''failed'']),
     (''executing'', [''executed'', ''failed'']), (''executed'', []), (''failed'', [])]"

definition transition_candidate_execution ::
  "string \<Rightarrow> string \<Rightarrow> instant option \<Rightarrow> instant \<Rightarrow> candidate_db \<Rightarrow> candidate_db res" where
  "transition_candidate_execution candidate_id target updated_at now db =
     (case get_candidate candidate_id db of
        None \<Rightarrow> Inl (LookupError (''Action Candidate not found: '' @ candidate_id))
      | Some r \<Rightarrow>
          if ca_execution_status r = target then Inr db
          else case dict_get EXECUTION_TRANSITIONS (ca_execution_status r) of
            None \<Rightarrow> Inl (KeyError (ca_execution_status r))
          | Some allowed \<Rightarrow>
              if target \<notin> set allowed
              then Inl (ValueError (''invalid candidate execution transition: '' @ ca_execution_status r @ '' -> '' @ target))
              else Inr (put_candidate (r\<lparr>ca_execution_status := target, ca_updated_at := or_else updated_at now\<rparr>) db))"

subsection \<open>Identity bindings\<close>

record identity_binding =
  ib_id :: string
  ib_actor_id :: string
  ib_linear_team_id :: string
  ib_normalized_mention :: string
  ib_linear_user_id :: string
  ib_status :: string
  ib_confirmed_by_actor_id :: string
  ib_last_verified_at :: "instant option"
  ib_created_at :: instant
  ib_updated_at :: instant
  ib_revoked_at :: "instant option"

definition normalize_identity_mention :: "string \<Rightarrow> string res" where
  "normalize_identity_mention mention = (if folded mention = [] then Inl (ValueError ''identity mention is required'') else Inr (folded mention))"

definition binding_match :: "string \<Rightarrow> string \<Rightarrow> string \<Rightarrow> string \<Rightarrow> identity_binding \<Rightarrow> bool" where
  "binding_match actor_id team mention status r \<longleftrightarrow> ib_actor_id r = actor_id \<and> ib_linear_team_id r = team
     \<and> ib_normalized_mention r = mention \<and> ib_status r = status"

text \<open>The unique constraint on actor, team, mention and status is checked when rows are written.\<close>

abbreviation binding_key :: "identity_binding \<Rightarrow> string \<times> string \<times> string \<times> string" where
  "binding_key r \<equiv> (ib_actor_id r, ib_linear_team_id r, ib_normalized_mention r, ib_status r)"

definition write_binding :: "identity_binding \<Rightarrow> identity_binding list \<Rightarrow> (identity_binding list \<times> identity_binding) res" where
  "write_binding r rows =
     (if list_ex (\<lambda>x. ib_id x \<noteq> ib_id r \<and> binding_key x = binding_key r) rows then Inl integrity_error
      else Inr (update_rows (\<lambda>x. ib_id x = ib_id r) (\<lambda>_. r) rows, r))"

definition confirm_identity_binding ::
  "string \<Rightarrow> string \<Rightarrow> string \<Rightarrow> string \<Rightarrow> string \<Rightarrow> instant option \<Rightarrow> string \<Rightarrow> instant \<Rightarrow> identity_binding list
   \<Rightarrow> (identity_binding list \<times> identity_binding) res" where
  "confirm_identity_binding actor_id team mention linear_user_id confirmed_by verified_at new_id now rows =
     rbind (normalize_identity_mention mention) (\<lambda>normalized.
       if actor_id = [] \<or> team = [] \<or> linear_user_id = [] then Inl (ValueError ''actor, Linear Team, and Linear user are required'')
       else if confirmed_by = [] then Inl (ValueError ''confirmed_by_actor_id is required'')
       else let timestamp = or_else verified_at now;
                existing = (case find_row (binding_match actor_id team normalized ''confirmed'') rows of
                   Some r \<Rightarrow> Some r
                 | None \<Rightarrow> find_row (\<lambda>r. True) (rev (sort_key ib_updated_at (rev (filter (binding_match actor_id team normalized ''revoked'') rows)))))
            in case existing of
                 None \<Rightarrow> (let r = \<lparr>ib_id = new_id, ib_actor_id = actor_id, ib_linear_team_id = team, ib_normalized_mention = normalized,
                     ib_linear_user_id = linear_user_id, ib_status = ''confirmed'', ib_confirmed_by_actor_id = confirmed_by,
                     ib_last_verified_at = Some timestamp, ib_created_at = timestamp, ib_updated_at = timestamp, ib_revoked_at = None\<rparr>
                   in if new_id \<in> set (map ib_id rows) \<or> binding_key r \<in> set (map binding_key rows) then Inl integrity_error
                      else Inr (rows @ [r], r))
               | Some r \<Rightarrow> write_binding (r\<lparr>ib_linear_user_id := linear_user_id, ib_status := ''confirmed'',
                     ib_confirmed_by_actor_id := confirmed_by, ib_last_verified_at := Some timestamp, ib_updated_at := timestamp,
                     ib_revoked_at := None\<rparr>) rows)"

definition revoke_identity_binding ::
  "string \<Rightarrow> instant option \<Rightarrow> instant \<Rightarrow> identity_binding list \<Rightarrow> (identity_binding list \<times> identity_binding) res" where
  "revoke_identity_binding binding_id revoked_at now rows =
     (case find_row (\<lambda>r. ib_id r = binding_id) rows of
        None \<Rightarrow> Inl (LookupError (''Identity binding not found: '' @ binding_id))
      | Some r \<Rightarrow>
          if ib_status r = ''revoked'' then Inr (rows, r)
          else let timestamp = or_else revoked_at now
               in write_binding (r\<lparr>ib_status := ''revoked'', ib_revoked_at := Some timestamp, ib_updated_at := timestamp\<rparr>) rows)"

definition find_identity_binding ::
  "string \<Rightarrow> string \<Rightarrow> string \<Rightarrow> string \<Rightarrow> identity_binding list \<Rightarrow> identity_binding option res" where
  "find_identity_binding actor_id team mention status rows =
     rbind (normalize_identity_mention mention) (\<lambda>normalized. Inr (find_row (binding_match actor_id team normalized status) rows))"

subsection \<open>Offsets only grow\<close>

lemma find_update_row:
  assumes "find_row (\<lambda>x. key x = k) rows = Some r" "key r' = k"
  shows "find_row (\<lambda>x. key x = k') (update_rows (\<lambda>x. key x = k) (\<lambda>_. r') rows) =
     (if k' = k then Some r' else find_row (\<lambda>x. key x = k') rows)"
proof (cases "k' = k")
  case True
  with assms show ?thesis by (induction rows) (auto simp: update_rows_def split: if_splits)
next
  case False
  then show ?thesis using assms(2) by (simp, induction rows) (auto simp: update_rows_def)
qed

lemma map_key_update_row:
  "key r' = k \<Longrightarrow> map key (update_rows (\<lambda>x. key x = k) (\<lambda>_. r') rows) = map key rows"
  by (auto simp: update_rows_def)

lemma advance_offset_processed:
  assumes "advance_offset s seg n ts i now rows = Inr (rows', r)" "distinct (map offset_key rows)"
  shows "distinct (map offset_key rows')"
    and "processed rows' s' seg' = (if s' = s \<and> seg' = seg then max (processed rows s seg) n else processed rows s' seg')"
proof -
  have "distinct (map offset_key rows') \<and> processed rows' s' seg' =
      (if (s', seg') = (s, seg) then max (processed rows s seg) n else processed rows s' seg')"
  proof (cases "find_row (\<lambda>r. offset_key r = (s, seg)) rows")
    case None
    then have "(s, seg) \<notin> set (map offset_key rows)" by (auto simp: find_row_None)
    with None assms show ?thesis
      by (auto simp: advance_offset_def Let_def processed_def find_row_append split: if_splits option.splits)
  next
    case (Some x)
    then have key: "offset_key x = (s, seg)" by (rule find_row_Some [THEN conjunct2])
    define x' where "x' = x\<lparr>of_processed_revision := n, of_processed_at := or_else ts now\<rparr>"
    have key': "offset_key x' = (s, seg)" using key by (simp add: x'_def)
    have rows': "rows' = (if n \<le> of_processed_revision x then rows else update_rows (\<lambda>y. offset_key y = (s, seg)) (\<lambda>_. x') rows)"
      using assms(1) Some by (auto simp: advance_offset_def x'_def Let_def split: if_splits)
    have "of_processed_revision x' = n" by (simp add: x'_def)
    then show ?thesis
      using assms(2) Some unfolding rows' processed_def find_update_row [where key = offset_key, OF Some key'] if_distrib
      by (simp add: find_update_row [where key = offset_key, OF Some key'] map_key_update_row [where key = offset_key, OF key']
          del: prod.inject)
  qed
  then show "distinct (map offset_key rows')" and "processed rows' s' seg' =
      (if s' = s \<and> seg' = seg then max (processed rows s seg) n else processed rows s' seg')" by auto
qed

lemma advance_offset_total:
  assumes "1 \<le> n" "i \<notin> set (map of_id rows)"
  shows "\<exists>rows' r. advance_offset s seg n ts i now rows = Inr (rows', r) \<and> set (map of_id rows') \<subseteq> insert i (set (map of_id rows))"
  using assms by (auto simp: advance_offset_def Let_def update_rows_def split: option.splits dest!: find_row_Some)

subsection \<open>A head is replaced by the next version only\<close>

lemma replace_head_Inr:
  assumes "replace_head s n v ts now existing heads = Inr (heads', r)" "distinct (map hr_session_id heads)"
    "existing = None \<Longrightarrow> get_head s heads = None"
  shows "r = head_of s (n + 1) v (or_else ts now)" "get_head s heads' = Some r"
    "(case get_head s heads of None \<Rightarrow> 0 | Some h \<Rightarrow> hr_version h) = n" "distinct (map hr_session_id heads')"
    "s' \<noteq> s \<Longrightarrow> get_head s' heads' = get_head s' heads"
proof -
  have "r = head_of s (n + 1) v (or_else ts now) \<and> get_head s heads' = Some r
      \<and> (case get_head s heads of None \<Rightarrow> 0 | Some h \<Rightarrow> hr_version h) = n \<and> distinct (map hr_session_id heads')
      \<and> (s' \<noteq> s \<longrightarrow> get_head s' heads' = get_head s' heads)"
  proof (cases existing)
    case None
    with assms show ?thesis
      by (auto simp: replace_head_def insert_row_def Let_def head_of_def find_row_append split: if_splits option.splits)
  next
    case (Some h)
    then have "cas_update hr_session_id s (\<lambda>r. hr_version r = n) (\<lambda>r. head_of (hr_session_id r) (n + 1) v (or_else ts now))
        (MeetingStateConflictError (''Meeting State head '' @ s @ '' no longer has version '' @ dumps_int n))
        (LookupError (''Meeting State head not found: '' @ s)) heads = Inr (heads', r)"
      using assms(1) by (auto simp: replace_head_def Let_def split: if_splits)
    then obtain x where x: "x \<in> set heads" "hr_session_id x = s" "hr_version x = n" "r = head_of (hr_session_id x) (n + 1) v (or_else ts now)"
      "heads' = update_rows (\<lambda>y. hr_session_id y = s) (\<lambda>_. r) heads"
      by (rule cas_update_Inr [OF assms(2), rotated 1]) (auto simp: head_of_def)
    have found: "get_head s heads = Some x"
      using find_distinct_key [OF assms(2) x(1)] x(2) by simp
    have "hr_session_id r = s" using x by (simp add: head_of_def)
    with x found find_update_row [OF found, of r] map_key_update_row [of hr_session_id r s heads] assms(2)
    show ?thesis by auto
  qed
  then show "r = head_of s (n + 1) v (or_else ts now)" "get_head s heads' = Some r"
    "(case get_head s heads of None \<Rightarrow> 0 | Some h \<Rightarrow> hr_version h) = n" "distinct (map hr_session_id heads')"
    "s' \<noteq> s \<Longrightarrow> get_head s' heads' = get_head s' heads" by auto
qed

lemma replace_head_total:
  assumes "length (hv_state_hash v) = 64" "0 \<le> hv_lag_ms v" "0 \<le> hv_pending_segment_count v" "distinct (map hr_session_id heads)"
    "n = (case get_head s heads of None \<Rightarrow> 0 | Some h \<Rightarrow> hr_version h)" "\<And>h. get_head s heads = Some h \<Longrightarrow> 0 \<le> hr_version h"
  shows "\<exists>heads' r. replace_head s n v ts now (get_head s heads) heads = Inr (heads', r)"
proof (cases "get_head s heads")
  case None
  then have "s \<notin> hr_session_id ` set heads" by (auto simp: find_row_None)
  with None assms show ?thesis by (simp add: replace_head_def insert_row_def Let_def head_of_def)
next
  case (Some h)
  then have "rowcount (\<lambda>r. hr_session_id r = s \<and> hr_version r = n) heads = 1"
    using assms(5) by (simp add: rowcount_distinct_key [OF assms(4)])
  moreover have "h \<in> set heads" "hr_session_id h = s" using Some by (auto dest: find_row_Some)
  moreover have "map hr_session_id (update_rows (\<lambda>r. hr_session_id r = s \<and> hr_version r = n)
      (\<lambda>r. head_of (hr_session_id r) (n + 1) v (or_else ts now)) heads) = map hr_session_id heads"
    by (rule map_key_update_rows) (simp add: head_of_def)
  then have "find_row (\<lambda>r. hr_session_id r = s) (update_rows (\<lambda>r. hr_session_id r = s \<and> hr_version r = n)
      (\<lambda>r. head_of (hr_session_id r) (n + 1) v (or_else ts now)) heads) \<noteq> None"
    using calculation(2,3) unfolding find_row_None by (metis (mono_tags, lifting) imageE image_eqI list.set_map)
  ultimately show ?thesis
    using Some assms(1-3) assms(5) assms(6) [OF Some]
    by (auto simp: replace_head_def Let_def cas_update_def split: option.splits)
qed

end
