(* ===== verification/Candidate_Policy.thy ===== *)
theory Candidate_Policy
  imports Meeting_Repository Segment_Store
begin

section \<open>Action candidates\<close>

text \<open>
  Models \<open>meeting_state/candidates.py\<close>: how the operations an extraction proposes (create, revise,
  merge, split, cancel) become revision-checked changes of the candidate tables. All changes of
  one call of \<open>apply\<close> belong to one transaction. The environment has the hash functions and what
  the code draws: the identifier and the instant of the revision it writes for a candidate, and
  the instant at which a candidate is superseded or cancelled.
\<close>

record policy_env =
  pl_hash :: hash_env
  pl_revision_id :: "string \<Rightarrow> int \<Rightarrow> string"
  pl_now :: "string \<Rightarrow> int \<Rightarrow> instant"
  pl_touched :: "string \<Rightarrow> instant"

subsection \<open>Identity and evidence\<close>

definition dump_proposal :: "('a \<Rightarrow> jvalue) \<Rightarrow> 'a grounded_proposal \<Rightarrow> jvalue" where
  "dump_proposal f p = VObj [(''value'', dump_opt f (gp_value p)), (''resolution'', VStr (resolution_value (gp_resolution p))),
     (''source_segment_ids'', dump_strs (gp_source_segment_ids p)), (''confidence'', dump_opt VFloat (gp_confidence p)),
     (''explanation'', dump_opt VStr (gp_explanation p))]"

definition dump_content_proposal :: "hash_env \<Rightarrow> content_proposal \<Rightarrow> jvalue" where
  "dump_content_proposal he p = VObj [(''title'', dump_proposal VStr (cp_title p)), (''deliverable'', dump_proposal VStr (cp_deliverable p)),
     (''assignee'', dump_proposal VStr (cp_assignee p)), (''due_at'', dump_proposal (\<lambda>t. VStr (he_iso he t)) (cp_due_at p)),
     (''priority'', dump_proposal (\<lambda>x. VStr (priority_value x)) (cp_priority p)),
     (''blocking_conflict_segment_ids'', dump_strs (cp_blocking_conflict_segment_ids p))]"

text \<open>\<open>str(uuid.UUID(hex=h))\<close> on 32 lower-case hexadecimal digits.\<close>

definition format_uuid :: "string \<Rightarrow> string" where
  "format_uuid h = take 8 h @ ''-'' @ take 4 (drop 8 h) @ ''-'' @ take 4 (drop 12 h) @ ''-'' @ take 4 (drop 16 h) @ ''-'' @ drop 20 h"

definition stable_candidate_id :: "hash_env \<Rightarrow> string \<Rightarrow> content_proposal \<Rightarrow> string list \<Rightarrow> string" where
  "stable_candidate_id he kind content evidence_ids =
     format_uuid (take 32 (he_sha256 he (utf8 (dumps (he_repr he) (VObj
       [(''kind'', VStr kind), (''content'', normalize_content (dump_content_proposal he content)),
        (''evidence_ids'', dump_strs (sort (remdups evidence_ids)))])))))"

definition caption_evidence_message_of :: "hash_env \<Rightarrow> projection_segment \<Rightarrow> caption_evidence_message res" where
  "caption_evidence_message_of he g =
     (let content_hash = he_sha256 he (utf8 (dumps (he_repr he) (VObj
            [(''session_id'', VStr (ps_session_id g)), (''segment_id'', VStr (ps_segment_id g)), (''revision'', VInt (ps_revision g)),
             (''raw_text'', VStr (ps_raw_text g)), (''display_text'', VStr (ps_display_text g))])));
          message_hash = he_sha256 he (utf8 (ps_session_id g @ '':'' @ ps_segment_id g @ '':'' @ dumps_int (ps_revision g)))
      in checked caption_evidence_ok ''CaptionEvidenceMessage''
        \<lparr>cv_message_id = ''caption_'' @ take 48 message_hash, cv_session_id = ps_session_id g, cv_speaker_label = None,
         cv_track_id = ps_track_id g, cv_segment_id = ps_segment_id g, cv_segment_revision = ps_revision g,
         cv_language = ps_language g, cv_raw_text = ps_raw_text g, cv_display_text = ps_display_text g,
         cv_audio_start_ms = ps_audio_start_ms g, cv_audio_end_ms = ps_audio_end_ms g, cv_confidence = ps_confidence g,
         cv_received_at_ms = ps_received_at_ms g, cv_finalized_at = ps_finalized_at g, cv_content_hash = content_hash\<rparr>)"

definition message_ids :: "(string, caption_evidence_message) dict \<Rightarrow> string list \<Rightarrow> string list res" where
  "message_ids messages ids = map_res (\<lambda>s. case dict_get messages s of
     None \<Rightarrow> Inl (KeyError s) | Some m \<Rightarrow> Inr (cv_message_id m)) ids"

definition grounded ::
  "(string, caption_evidence_message) dict \<Rightarrow> ('b \<Rightarrow> bool) \<Rightarrow> 'a grounded_proposal \<Rightarrow> 'b option \<Rightarrow> resolution \<Rightarrow> 'b grounded_value res" where
  "grounded messages ok p val res =
     rbind (message_ids messages (gp_source_segment_ids p)) (\<lambda>ids.
       checked (grounded_ok ok) ''GroundedValue''
         \<lparr>gv_value = val, gv_origin = Meeting_Inferred, gv_resolution = res, gv_evidence_message_ids = ids,
          gv_confidence = gp_confidence p, gv_explanation = gp_explanation p\<rparr>)"

definition assignee_of :: "string grounded_proposal \<Rightarrow> (assignee_value option \<times> resolution) res" where
  "assignee_of p = (case gp_value p of
     None \<Rightarrow> Inr (None, gp_resolution p)
   | Some spoken \<Rightarrow>
       rbind (checked assignee_ok ''AssigneeValue'' \<lparr>av_spoken_text = spoken, av_linear_user_id = None, av_is_placeholder = True\<rparr>)
         (\<lambda>a. Inr (Some a, if gp_resolution p = Known then Ambiguous else gp_resolution p)))"

definition segment_messages ::
  "hash_env \<Rightarrow> (string, projection_segment) dict \<Rightarrow> string list \<Rightarrow> (string, caption_evidence_message) dict res" where
  "segment_messages he evidence ids = map_res (\<lambda>s. case dict_get evidence s of
     None \<Rightarrow> Inl (KeyError s) | Some g \<Rightarrow> rbind (caption_evidence_message_of he g) (\<lambda>m. Inr (s, m))) ids"

definition unavailable :: "string list \<Rightarrow> (string, projection_segment) dict \<Rightarrow> string list" where
  "unavailable ids evidence = sort (remdups (filter (\<lambda>s. dict_get evidence s = None) ids))"

definition materialize_candidate_content ::
  "hash_env \<Rightarrow> content_proposal \<Rightarrow> (string, projection_segment) dict \<Rightarrow> candidate_content res" where
  "materialize_candidate_content he p evidence =
     (let ids = content_source_segment_ids p in
      if unavailable ids evidence \<noteq> []
      then Inl (ValueError (''candidate references unavailable Segment evidence: '' @ py_join '', '' (unavailable ids evidence)))
      else
        rbind (segment_messages he evidence ids) (\<lambda>messages.
        rbind (assignee_of (cp_assignee p)) (\<lambda>(assignee, assignee_resolution).
        rbind (grounded messages (\<lambda>_. True) (cp_title p) (gp_value (cp_title p)) (gp_resolution (cp_title p))) (\<lambda>title.
        rbind (grounded messages (\<lambda>_. True) (cp_deliverable p) (gp_value (cp_deliverable p)) (gp_resolution (cp_deliverable p))) (\<lambda>deliverable.
        rbind (grounded messages assignee_ok (cp_assignee p) assignee assignee_resolution) (\<lambda>assignee.
        rbind (grounded messages (\<lambda>_. True) (cp_due_at p) (gp_value (cp_due_at p)) (gp_resolution (cp_due_at p))) (\<lambda>due_at.
        rbind (grounded messages (\<lambda>_. True) (cp_priority p) (gp_value (cp_priority p)) (gp_resolution (cp_priority p))) (\<lambda>priority.
        rbind (message_ids messages (cp_blocking_conflict_segment_ids p)) (\<lambda>blocking.
        checked content_ok ''ActionCandidateContent''
          \<lparr>cc_title = title, cc_deliverable = deliverable, cc_assignee = assignee, cc_due_at = due_at, cc_priority = priority,
           cc_evidence_messages = map (\<lambda>e. Caption_Evidence (snd e)) messages, cc_blocking_conflict_message_ids = blocking\<rparr>)))))))))"

definition candidate_source_ids :: "candidate_content \<Rightarrow> string list" where
  "candidate_source_ids c = fromkeys (map cv_segment_id (List.map_filter caption_of (cc_evidence_messages c)))"

definition readiness_of :: "candidate_content \<Rightarrow> readiness" where
  "readiness_of c = (if is_known (cc_title c) \<and> is_known (cc_deliverable c) then Recordable else Detected)"

subsection \<open>Loading\<close>

definition current_revision_row :: "candidate_db \<Rightarrow> candidate_record \<Rightarrow> candidate_revision_record option" where
  "current_revision_row db r =
     find_row (\<lambda>v. cr_candidate_id v = ca_id r \<and> cr_revision v = ca_current_revision r) (cd_revisions db)"

definition revision_current :: "(string, int) dict \<Rightarrow> evidence_message \<Rightarrow> bool" where
  "revision_current current m = (case caption_of m of None \<Rightarrow> True
     | Some c \<Rightarrow> dict_get current (cv_segment_id c) = Some (cv_segment_revision c))"

definition load_candidate :: "(string, int) dict \<Rightarrow> candidate_db \<Rightarrow> candidate_record \<Rightarrow> action_candidate res" where
  "load_candidate current db r =
     (case current_revision_row db r of
        None \<Rightarrow> Inl (LookupError (''current Action Candidate revision not found: '' @ ca_id r))
      | Some v \<Rightarrow> rbind (checked content_ok ''ActionCandidateContent'' (cr_content v)) (\<lambda>content.
          checked candidate_ok ''ActionCandidate''
            \<lparr>ac_candidate_id = ca_id r, ac_lineage_root_id = ca_lineage_root_id r, ac_session_id = ca_session_id r,
             ac_current_revision = ca_current_revision r, ac_readiness = cr_readiness v,
             ac_content_status = ca_content_status r, ac_execution_status = ca_execution_status r, ac_content = content,
             ac_source_segment_ids = candidate_source_ids content,
             ac_evidence_revisions_current = list_all (revision_current current) (cc_evidence_messages content),
             ac_derived_from_candidate_id = ca_derived_from_candidate_id r,
             ac_derived_from_revision = ca_derived_from_revision r,
             ac_superseded_by_candidate_id = ca_superseded_by_candidate_id r\<rparr>))"

definition load_action_candidates ::
  "string \<Rightarrow> (string, int) dict \<Rightarrow> string list option \<Rightarrow> int option \<Rightarrow> int \<Rightarrow> candidate_db \<Rightarrow> action_candidate list res" where
  "load_action_candidates session_id current candidate_ids limit offset db =
     map_res (load_candidate current db)
       (paged limit offset (sort_key (\<lambda>r. (ca_created_at r, ca_id r))
         (filter (\<lambda>r. ca_session_id r = session_id \<and> opt_all (\<lambda>ids. ca_id r \<in> set ids) candidate_ids) (cd_candidates db))))"

subsection \<open>Merging two candidates\<close>

definition logical_key :: "candidate_content \<Rightarrow> string \<times> string" where
  "logical_key c = (folded (or_else (gv_value (cc_title c)) []), folded (or_else (gv_value (cc_deliverable c)) []))"

definition assignees_compatible :: "assignee_value option \<Rightarrow> assignee_value option \<Rightarrow> bool" where
  "assignees_compatible l r = (case (l, r) of
     (Some a, Some b) \<Rightarrow> (case (av_linear_user_id a, av_linear_user_id b) of
        (Some x, Some y) \<Rightarrow> x = y
      | _ \<Rightarrow> folded (av_spoken_text a) = folded (av_spoken_text b))
   | _ \<Rightarrow> True)"

definition values_compatible :: "'a option \<Rightarrow> 'a option \<Rightarrow> bool" where
  "values_compatible l r \<longleftrightarrow> l = None \<or> r = None \<or> l = r"

definition has_conflict :: "candidate_content \<Rightarrow> bool" where
  "has_conflict c \<longleftrightarrow> Conflicting \<in> {gv_resolution (cc_title c), gv_resolution (cc_deliverable c), gv_resolution (cc_assignee c),
     gv_resolution (cc_due_at c), gv_resolution (cc_priority c)}"

definition safe_merge :: "candidate_content list \<Rightarrow> bool" where
  "safe_merge contents = (case contents of
     [l, r] \<Rightarrow> fst (logical_key l) \<noteq> [] \<and> snd (logical_key l) \<noteq> [] \<and> logical_key l = logical_key r
       \<and> \<not> has_conflict l \<and> \<not> has_conflict r
       \<and> cc_blocking_conflict_message_ids l = [] \<and> cc_blocking_conflict_message_ids r = []
       \<and> assignees_compatible (gv_value (cc_assignee l)) (gv_value (cc_assignee r))
       \<and> values_compatible (gv_value (cc_due_at l)) (gv_value (cc_due_at r))
       \<and> values_compatible (gv_value (cc_priority l)) (gv_value (cc_priority r))
   | _ \<Rightarrow> False)"

fun rank :: "resolution \<Rightarrow> int" where
  "rank Missing = 0"
| "rank Ambiguous = 1"
| "rank Known = 2"
| "rank Conflicting = -1"

definition text_or :: "string option \<Rightarrow> string option \<Rightarrow> string option" where
  "text_or a b = (case a of None \<Rightarrow> b | Some t \<Rightarrow> if t = [] then b else Some t)"

definition max_confidence :: "rat option \<Rightarrow> rat option \<Rightarrow> rat option" where
  "max_confidence a b = (case a of None \<Rightarrow> b | Some x \<Rightarrow> (case b of None \<Rightarrow> Some x | Some y \<Rightarrow> Some (max x y)))"

definition merge_grounded :: "'a grounded_value \<Rightarrow> 'a grounded_value \<Rightarrow> 'a grounded_value" where
  "merge_grounded l r =
     (let (chosen, other) = (if rank (gv_resolution r) > rank (gv_resolution l) then (r, l) else (l, r))
      in chosen\<lparr>gv_evidence_message_ids := fromkeys (gv_evidence_message_ids l @ gv_evidence_message_ids r),
           gv_confidence := max_confidence (gv_confidence l) (gv_confidence r),
           gv_explanation := text_or (gv_explanation chosen) (gv_explanation other)\<rparr>)"

definition merge_messages :: "evidence_message list \<Rightarrow> evidence_message list" where
  "merge_messages messages = dict_values (foldl (\<lambda>d m. dict_set d (message_id m) m) [] messages)"

definition merge_content :: "candidate_content \<Rightarrow> candidate_content \<Rightarrow> candidate_content res" where
  "merge_content survivor duplicate = checked content_ok ''ActionCandidateContent''
     \<lparr>cc_title = merge_grounded (cc_title survivor) (cc_title duplicate),
      cc_deliverable = merge_grounded (cc_deliverable survivor) (cc_deliverable duplicate),
      cc_assignee = merge_grounded (cc_assignee survivor) (cc_assignee duplicate),
      cc_due_at = merge_grounded (cc_due_at survivor) (cc_due_at duplicate),
      cc_priority = merge_grounded (cc_priority survivor) (cc_priority duplicate),
      cc_evidence_messages = merge_messages (cc_evidence_messages survivor @ cc_evidence_messages duplicate),
      cc_blocking_conflict_message_ids =
        fromkeys (cc_blocking_conflict_message_ids survivor @ cc_blocking_conflict_message_ids duplicate)\<rparr>"

subsection \<open>The policy\<close>

definition final_revisions :: "string \<Rightarrow> segment_table \<Rightarrow> (string, int) dict" where
  "final_revisions session_id segments = map (\<lambda>r. (sg_segment_id r, sg_revision r))
     (filter (\<lambda>r. sg_session_id r = session_id \<and> sg_status r = ''final'') segments)"

definition validate_current_evidence :: "string \<Rightarrow> (string, projection_segment) dict \<Rightarrow> segment_table \<Rightarrow> unit res" where
  "validate_current_evidence session_id evidence segments =
     (if list_ex (\<lambda>e. ps_session_id (snd e) \<noteq> session_id) evidence then Inl (ValueError ''candidate evidence belongs to another Session'')
      else let stale = map fst (filter (\<lambda>e. dict_get (final_revisions session_id segments) (fst e) \<noteq> Some (ps_revision (snd e))) evidence)
        in if stale \<noteq> [] then Inl (ValueError (''candidate evidence is not the current Final revision: '' @ py_join '', '' (sort stale)))
           else Inr ())"

definition get_record :: "string \<Rightarrow> string \<Rightarrow> candidate_db \<Rightarrow> candidate_record res" where
  "get_record session_id candidate_id db = (case get_candidate candidate_id db of
     None \<Rightarrow> Inl (LookupError (''Action Candidate not found: '' @ candidate_id))
   | Some r \<Rightarrow> if ca_session_id r \<noteq> session_id then Inl (ValueError ''Action Candidate belongs to another Session'') else Inr r)"

definition current_content :: "candidate_db \<Rightarrow> candidate_record \<Rightarrow> candidate_content res" where
  "current_content db r = (case current_revision_row db r of
     None \<Rightarrow> Inl (LookupError (''Action Candidate revision not found: '' @ ca_id r))
   | Some v \<Rightarrow> checked content_ok ''ActionCandidateContent'' (cr_content v))"

definition policy_create ::
  "policy_env \<Rightarrow> string \<Rightarrow> content_proposal \<Rightarrow> string option \<Rightarrow> (string, projection_segment) dict \<Rightarrow> string \<Rightarrow> candidate_record option
   \<Rightarrow> candidate_db \<Rightarrow> (candidate_db \<times> candidate_record) res" where
  "policy_create pe session_id proposal change_summary evidence identity_kind derived_from db =
     rbind (materialize_candidate_content (pl_hash pe) proposal evidence) (\<lambda>content.
       let candidate_id = stable_candidate_id (pl_hash pe) identity_kind proposal (content_source_segment_ids proposal) in
       case get_candidate candidate_id db of
         Some existing \<Rightarrow> if ca_session_id existing \<noteq> session_id
           then Inl (ValueError ''stable Candidate ID belongs to another Session'') else Inr (db, existing)
       | None \<Rightarrow> create_candidate session_id content (readiness_of content) (Some candidate_id) (Some candidate_id)
           ''active'' ''not_requested'' (map_option ca_id derived_from) (map_option ca_current_revision derived_from)
           change_summary None candidate_id (pl_revision_id pe candidate_id 1) (pl_now pe candidate_id 1) db)"

definition append_revision ::
  "policy_env \<Rightarrow> string \<Rightarrow> int \<Rightarrow> candidate_content \<Rightarrow> string \<Rightarrow> string option \<Rightarrow> candidate_db \<Rightarrow> candidate_db res" where
  "append_revision pe candidate_id expected content change_kind change_summary =
     append_candidate_revision candidate_id expected content (readiness_of content) change_kind change_summary None
       (pl_revision_id pe candidate_id (expected + 1)) (pl_now pe candidate_id (expected + 1))"

definition policy_revise ::
  "policy_env \<Rightarrow> string \<Rightarrow> string \<Rightarrow> int \<Rightarrow> content_proposal \<Rightarrow> string option \<Rightarrow> (string, projection_segment) dict \<Rightarrow> candidate_db
   \<Rightarrow> candidate_db res" where
  "policy_revise pe session_id candidate_id expected proposal change_summary evidence db =
     rbind (get_record session_id candidate_id db) (\<lambda>r.
       if ca_current_revision r \<noteq> expected then Inl (ValueError ''candidate revision changed before revise'')
       else if ca_content_status r \<noteq> ''active'' then Inl (ValueError ''only active candidates can be revised'')
       else if ca_execution_status r = ''executing'' then Inl (ValueError ''an executing candidate cannot be revised'')
       else rbind (materialize_candidate_content (pl_hash pe) proposal evidence) (\<lambda>content.
         append_revision pe (ca_id r) expected content ''revise'' change_summary db))"

definition mergeable :: "(string, int) dict \<Rightarrow> candidate_record \<Rightarrow> unit res" where
  "mergeable expected r = (case dict_get expected (ca_id r) of
     None \<Rightarrow> Inl (KeyError (ca_id r))
   | Some n \<Rightarrow>
       if ca_current_revision r \<noteq> n then Inl (ValueError ''candidate revision changed before merge'')
       else if ca_content_status r \<noteq> ''active'' \<or> ca_execution_status r \<noteq> ''not_requested''
       then Inl (ValueError ''only active, unrequested candidates can be merged'') else Inr ())"

definition policy_merge ::
  "policy_env \<Rightarrow> string \<Rightarrow> string \<Rightarrow> string \<Rightarrow> (string, int) dict \<Rightarrow> string list \<Rightarrow> string option \<Rightarrow> (string, projection_segment) dict
   \<Rightarrow> candidate_db \<Rightarrow> candidate_db res" where
  "policy_merge pe session_id first_id second_id expected ids change_summary evidence db =
     (if unavailable ids evidence \<noteq> [] then Inl (ValueError ''merge references unavailable evidence'')
      else rbind (get_record session_id first_id db) (\<lambda>r1. rbind (get_record session_id second_id db) (\<lambda>r2.
        rbind (mergeable expected r1) (\<lambda>_. rbind (mergeable expected r2) (\<lambda>_.
        rbind (current_content db r1) (\<lambda>c1. rbind (current_content db r2) (\<lambda>c2.
          if \<not> safe_merge [c1, c2] then Inl (ValueError ''candidate merge is not a safe logical duplicate'')
          else let (survivor, sc, duplicate, dc) =
                 (if (ca_created_at r1, ca_id r1) \<le> (ca_created_at r2, ca_id r2) then (r1, c1, r2, c2) else (r2, c2, r1, c1))
               in rbind (merge_content sc dc) (\<lambda>merged.
                  rbind (append_revision pe (ca_id survivor) (ca_current_revision survivor) merged ''merge'' change_summary db) (\<lambda>db.
                  supersede_candidate (ca_id duplicate) (ca_id survivor) None (pl_touched pe (ca_id duplicate)) db)))))))))"

definition split_kind :: "string \<Rightarrow> nat \<Rightarrow> string" where
  "split_kind parent_id index = ''action_candidate_split:'' @ parent_id @ '':'' @ show_nat index"

fun create_children ::
  "policy_env \<Rightarrow> string \<Rightarrow> candidate_record \<Rightarrow> string option \<Rightarrow> (string, projection_segment) dict \<Rightarrow> nat \<Rightarrow> content_proposal list
   \<Rightarrow> candidate_db \<Rightarrow> (candidate_db \<times> candidate_record list) res" where
  "create_children pe session_id parent change_summary evidence index [] db = Inr (db, [])"
| "create_children pe session_id parent change_summary evidence index (p # ps) db =
     rbind (policy_create pe session_id p change_summary evidence (split_kind (ca_id parent) index) (Some parent) db) (\<lambda>(db, c).
     rbind (create_children pe session_id parent change_summary evidence (Suc index) ps db) (\<lambda>(db, cs).
     Inr (db, c # cs)))"

definition policy_split ::
  "policy_env \<Rightarrow> string \<Rightarrow> string \<Rightarrow> int \<Rightarrow> content_proposal list \<Rightarrow> string list \<Rightarrow> string option \<Rightarrow> (string, projection_segment) dict
   \<Rightarrow> candidate_db \<Rightarrow> candidate_db res" where
  "policy_split pe session_id candidate_id expected parts ids change_summary evidence db =
     (if unavailable ids evidence \<noteq> [] then Inl (ValueError ''split references unavailable evidence'')
      else rbind (get_record session_id candidate_id db) (\<lambda>parent.
        if ca_current_revision parent \<noteq> expected then Inl (ValueError ''candidate revision changed before split'')
        else if ca_content_status parent \<noteq> ''active'' \<or> ca_execution_status parent \<noteq> ''not_requested''
        then Inl (ValueError ''only active, unrequested candidates can be split'')
        else rbind (create_children pe session_id parent change_summary evidence 0 parts db) (\<lambda>(db, children).
          case children of
            [] \<Rightarrow> Inl (RuntimeError ''IndexError'')
          | c # _ \<Rightarrow> supersede_candidate (ca_id parent) (ca_id c) None (pl_touched pe (ca_id parent)) db)))"

definition mark_cancelled :: "policy_env \<Rightarrow> string \<Rightarrow> candidate_db \<Rightarrow> candidate_db" where
  "mark_cancelled pe candidate_id db = db\<lparr>cd_candidates := update_rows (\<lambda>r. ca_id r = candidate_id)
     (\<lambda>r. r\<lparr>ca_content_status := ''cancelled'', ca_updated_at := pl_touched pe candidate_id\<rparr>) (cd_candidates db)\<rparr>"

definition policy_cancel ::
  "policy_env \<Rightarrow> string \<Rightarrow> string \<Rightarrow> int \<Rightarrow> string list \<Rightarrow> string \<Rightarrow> (string, projection_segment) dict \<Rightarrow> candidate_db \<Rightarrow> candidate_db res" where
  "policy_cancel pe session_id candidate_id expected ids reason evidence db =
     (if unavailable ids evidence \<noteq> [] then Inl (ValueError ''cancel references unavailable evidence'')
      else rbind (get_record session_id candidate_id db) (\<lambda>r.
        if ca_current_revision r \<noteq> expected then Inl (ValueError ''candidate revision changed before cancel'')
        else if ca_content_status r \<noteq> ''active'' then Inl (ValueError ''only active candidates can be cancelled'')
        else rbind (current_content db r) (\<lambda>content.
          rbind (append_revision pe (ca_id r) (ca_current_revision r) content ''cancel'' (Some reason) db) (\<lambda>db.
          Inr (mark_cancelled pe (ca_id r) db)))))"

fun apply_operation ::
  "policy_env \<Rightarrow> string \<Rightarrow> (string, projection_segment) dict \<Rightarrow> candidate_operation \<Rightarrow> candidate_db \<Rightarrow> candidate_db res" where
  "apply_operation pe session_id evidence (Create p summary) db =
     rbind (policy_create pe session_id p summary evidence ''action_candidate'' None db) (\<lambda>(db, _). Inr db)"
| "apply_operation pe session_id evidence (Revise c n p summary) db = policy_revise pe session_id c n p summary evidence db"
| "apply_operation pe session_id evidence (Merge a b expected ids summary) db =
     policy_merge pe session_id a b expected ids summary evidence db"
| "apply_operation pe session_id evidence (Split c n parts ids summary) db =
     policy_split pe session_id c n parts ids summary evidence db"
| "apply_operation pe session_id evidence (Cancel c n ids reason) db = policy_cancel pe session_id c n ids reason evidence db"

fun apply_operations ::
  "policy_env \<Rightarrow> string \<Rightarrow> (string, projection_segment) dict \<Rightarrow> candidate_operation list \<Rightarrow> candidate_db \<Rightarrow> candidate_db res" where
  "apply_operations pe session_id evidence [] db = Inr db"
| "apply_operations pe session_id evidence (q # qs) db =
     rbind (apply_operation pe session_id evidence q db) (apply_operations pe session_id evidence qs)"

definition policy_apply ::
  "policy_env \<Rightarrow> string \<Rightarrow> candidate_operation list \<Rightarrow> (string, projection_segment) dict \<Rightarrow> segment_table \<Rightarrow> candidate_db
   \<Rightarrow> (candidate_db \<times> action_candidate list) res" where
  "policy_apply pe session_id operations evidence segments db =
     rbind (validate_current_evidence session_id evidence segments) (\<lambda>_.
     rbind (apply_operations pe session_id evidence operations db) (\<lambda>db.
     rbind (load_action_candidates session_id (final_revisions session_id segments) None None 0 db) (\<lambda>candidates.
     Inr (db, candidates))))"

end
