(* ===== verification/Candidate_History.thy ===== *)
theory Candidate_History
  imports Candidate_Policy
begin

section \<open>The history of action candidates\<close>

text \<open>
  The invariant of the candidate tables and how rows may change, for every sequence of calls of
  the merge policy and of execution transitions.
\<close>

definition revisions_of :: "candidate_db \<Rightarrow> string \<Rightarrow> int set" where
  "revisions_of db k = {cr_revision v | v. v \<in> set (cd_revisions db) \<and> cr_candidate_id v = k}"

text \<open>Contents the policy writes rest on captions only.\<close>

definition from_captions :: "candidate_content \<Rightarrow> bool" where
  "from_captions c \<longleftrightarrow> cc_evidence_messages c \<noteq> [] \<and> list_all (\<lambda>m. caption_of m \<noteq> None) (cc_evidence_messages c)"

definition survivor_ok :: "candidate_record list \<Rightarrow> candidate_record \<Rightarrow> bool" where
  "survivor_ok rows r \<longleftrightarrow> (ca_content_status r = ''superseded'' \<longleftrightarrow> ca_superseded_by_candidate_id r \<noteq> None)
     \<and> opt_all (\<lambda>i. length i \<le> 36 \<and> i \<noteq> ca_id r \<and> (\<exists>s \<in> set rows. ca_id s = i \<and> ca_session_id s = ca_session_id r))
         (ca_superseded_by_candidate_id r)"

definition fields_ok :: "candidate_record \<Rightarrow> bool" where
  "fields_ok r \<longleftrightarrow> len_in 1 36 (ca_id r) \<and> len_in 1 36 (ca_lineage_root_id r) \<and> len_in 1 36 (ca_session_id r)
     \<and> 1 \<le> ca_current_revision r \<and> ca_content_status r \<in> set CONTENT_STATUSES \<and> ca_execution_status r \<in> set EXECUTION_STATUSES
     \<and> opt_all (\<lambda>i. length i \<le> 36) (ca_derived_from_candidate_id r) \<and> opt_all (\<lambda>n. 1 \<le> n) (ca_derived_from_revision r)"

definition candidate_inv :: "candidate_db \<Rightarrow> bool" where
  "candidate_inv db \<longleftrightarrow> distinct (map ca_id (cd_candidates db))
     \<and> distinct (map (\<lambda>v. (cr_candidate_id v, cr_revision v)) (cd_revisions db))
     \<and> (\<forall>r \<in> set (cd_candidates db). fields_ok r \<and> survivor_ok (cd_candidates db) r
          \<and> revisions_of db (ca_id r) = {1 .. ca_current_revision r})
     \<and> (\<forall>v \<in> set (cd_revisions db). content_ok (cr_content v) \<and> from_captions (cr_content v)
          \<and> cr_candidate_id v \<in> ca_id ` set (cd_candidates db))"

definition execution_move :: "string \<Rightarrow> string \<Rightarrow> bool" where
  "execution_move a b \<longleftrightarrow> b \<in> set (or_else (dict_get EXECUTION_TRANSITIONS a) [])"

definition row_evolves :: "candidate_record \<Rightarrow> candidate_record \<Rightarrow> bool" where
  "row_evolves r r' \<longleftrightarrow> ca_id r' = ca_id r \<and> ca_session_id r' = ca_session_id r \<and> ca_lineage_root_id r' = ca_lineage_root_id r
     \<and> ca_derived_from_candidate_id r' = ca_derived_from_candidate_id r \<and> ca_derived_from_revision r' = ca_derived_from_revision r
     \<and> ca_created_at r' = ca_created_at r \<and> ca_current_revision r \<le> ca_current_revision r'
     \<and> execution_move\<^sup>*\<^sup>* (ca_execution_status r) (ca_execution_status r')
     \<and> (ca_content_status r \<noteq> ''active'' \<longrightarrow> ca_content_status r' = ca_content_status r
          \<and> ca_current_revision r' = ca_current_revision r
          \<and> ca_superseded_by_candidate_id r' = ca_superseded_by_candidate_id r)"

definition db_evolves :: "candidate_db \<Rightarrow> candidate_db \<Rightarrow> bool" where
  "db_evolves db db' \<longleftrightarrow> (\<exists>new. cd_revisions db' = cd_revisions db @ new)
     \<and> (\<forall>r \<in> set (cd_candidates db). \<exists>r' \<in> set (cd_candidates db'). row_evolves r r')"

lemma row_evolves_refl [simp]: "row_evolves r r"
  by (simp add: row_evolves_def)

lemma row_evolves_trans: "row_evolves a b \<Longrightarrow> row_evolves b c \<Longrightarrow> row_evolves a c"
  unfolding row_evolves_def by (auto intro: rtranclp_trans)

lemma db_evolves_refl [simp]: "db_evolves db db"
  using row_evolves_refl unfolding db_evolves_def by blast

lemma db_evolves_trans: "db_evolves a b \<Longrightarrow> db_evolves b c \<Longrightarrow> db_evolves a c"
  unfolding db_evolves_def by (metis append.assoc row_evolves_trans)

subsection \<open>Changing one row\<close>

text \<open>Rows change one at a time, with or without a new revision of the same candidate.\<close>

definition row_step :: "candidate_record \<Rightarrow> candidate_record \<Rightarrow> candidate_revision_record list \<Rightarrow> bool" where
  "row_step r r' new \<longleftrightarrow>
     new = [] \<and> ca_current_revision r' = ca_current_revision r
     \<or> (\<exists>v. new = [v] \<and> cr_candidate_id v = ca_id r \<and> cr_revision v = ca_current_revision r'
          \<and> ca_current_revision r' = ca_current_revision r + 1 \<and> content_ok (cr_content v) \<and> from_captions (cr_content v))"

lemma change_row:
  assumes inv: "candidate_inv db" and r: "get_candidate k db = Some r" and ev: "row_evolves r r'" and step: "row_step r r' new"
    and ok: "fields_ok r'" "survivor_ok (cd_candidates db) r'"
  defines "db' \<equiv> \<lparr>cd_candidates = update_rows (\<lambda>x. ca_id x = k) (\<lambda>_. r') (cd_candidates db), cd_revisions = cd_revisions db @ new\<rparr>"
  shows "candidate_inv db'" "db_evolves db db'"
proof -
  let ?rows = "cd_candidates db" and ?rows' = "update_rows (\<lambda>x. ca_id x = k) (\<lambda>_. r') (cd_candidates db)"
  have mem: "r \<in> set ?rows" "ca_id r = k" using r by (auto dest: find_row_Some)
  have dist: "distinct (map ca_id ?rows)" using inv by (simp add: candidate_inv_def)
  have only: "x = r" if "x \<in> set ?rows" "ca_id x = k" for x
    using dist that mem by (metis distinct_map inj_onD)
  have id': "ca_id r' = k" using ev mem by (simp add: row_evolves_def)
  have rows': "x \<in> set ?rows' \<longleftrightarrow> (x = r' \<or> x \<in> set ?rows \<and> ca_id x \<noteq> k)" for x
    using mem by (auto simp: update_rows_def)
  have keys: "map ca_id ?rows' = map ca_id ?rows" by (rule map_key_update_row [where key = ca_id, OF id'])
  have img: "ca_id ` set ?rows' = ca_id ` set ?rows" using keys by (metis list.set_map)
  have survivor: "survivor_ok ?rows' x" if "survivor_ok ?rows x" for x
  proof -
    have "\<exists>s \<in> set ?rows'. ca_id s = ca_id y \<and> ca_session_id s = ca_session_id y" if "y \<in> set ?rows" for y
    proof (cases "ca_id y = k")
      case True
      then have "y = r" using only that by simp
      then show ?thesis using rows' ev by (intro bexI [of _ r']) (simp_all add: row_evolves_def)
    next
      case False
      then show ?thesis using rows' that by (intro bexI [of _ y]) simp_all
    qed
    then show ?thesis using that unfolding survivor_ok_def opt_all_def by (fastforce split: option.splits)
  qed
  have one: "revisions_of db k = {1 .. ca_current_revision r}" "1 \<le> ca_current_revision r"
    using inv mem by (auto simp: candidate_inv_def fields_ok_def)
  have revs: "revisions_of db' j = (if j = k then {1 .. ca_current_revision r'} else revisions_of db j)" for j
  proof -
    have "revisions_of db' j = revisions_of db j \<union> {cr_revision v | v. v \<in> set new \<and> cr_candidate_id v = j}"
      by (auto simp: revisions_of_def db'_def)
    with step one show ?thesis using mem(2) by (auto simp: row_step_def)
  qed
  have pairs: "distinct (map (\<lambda>v. (cr_candidate_id v, cr_revision v)) (cd_revisions db @ new))"
  proof -
    have "(k, ca_current_revision r + 1) \<notin> set (map (\<lambda>v. (cr_candidate_id v, cr_revision v)) (cd_revisions db))"
    proof
      assume "(k, ca_current_revision r + 1) \<in> set (map (\<lambda>v. (cr_candidate_id v, cr_revision v)) (cd_revisions db))"
      then have "ca_current_revision r + 1 \<in> revisions_of db k" by (auto simp: revisions_of_def)
      with one show False by simp
    qed
    moreover have "distinct (map (\<lambda>v. (cr_candidate_id v, cr_revision v)) (cd_revisions db))"
      using inv by (simp add: candidate_inv_def)
    ultimately show ?thesis using step mem(2) by (auto simp: row_step_def image_iff)
  qed
  have "\<forall>x \<in> set ?rows'. fields_ok x \<and> survivor_ok ?rows' x \<and> revisions_of db' (ca_id x) = {1 .. ca_current_revision x}"
  proof
    fix x assume "x \<in> set ?rows'"
    with rows' consider "x = r'" | "x \<in> set ?rows" "ca_id x \<noteq> k" by blast
    then show "fields_ok x \<and> survivor_ok ?rows' x \<and> revisions_of db' (ca_id x) = {1 .. ca_current_revision x}"
      using inv survivor ok id' revs by cases (simp_all add: candidate_inv_def)
  qed
  moreover have "\<forall>v \<in> set (cd_revisions db @ new). content_ok (cr_content v) \<and> from_captions (cr_content v) \<and> cr_candidate_id v \<in> set (map ca_id ?rows')"
    using inv step mem unfolding keys by (auto simp: candidate_inv_def row_step_def)
  ultimately show "candidate_inv db'"
    using dist keys pairs img unfolding candidate_inv_def by (simp add: db'_def)
  show "db_evolves db db'"
    using only ev rows' unfolding db_evolves_def db'_def by (metis candidate_db.select_convs row_evolves_refl)
qed

subsection \<open>The repository's operations\<close>

lemma get_candidate_mem: "get_candidate k db = Some r \<Longrightarrow> r \<in> set (cd_candidates db) \<and> ca_id r = k"
  by (drule find_row_Some) simp

lemma inv_row:
  assumes "candidate_inv db" "get_candidate k db = Some r"
  shows "fields_ok r" "survivor_ok (cd_candidates db) r" "ca_id r = k"
  using assms get_candidate_mem [OF assms(2)] by (auto simp: candidate_inv_def)

lemma survivor_active: "survivor_ok rows r \<Longrightarrow> ca_content_status r = ''active'' \<Longrightarrow> ca_superseded_by_candidate_id r = None"
  by (auto simp: survivor_ok_def)

lemma append_inv:
  assumes inv: "candidate_inv db" and r: "get_candidate k db = Some r" and active: "ca_content_status r = ''active''"
    and ok: "content_ok content" "from_captions content"
    and app: "append_candidate_revision k n content rd kind summary ts rid now db = Inr db'"
  shows "candidate_inv db'" "db_evolves db db'" "get_candidate k db' = Some (r\<lparr>ca_current_revision := n + 1, ca_updated_at := or_else ts now\<rparr>)"
    "j \<noteq> k \<Longrightarrow> get_candidate j db' = get_candidate j db"
proof -
  let ?r' = "r\<lparr>ca_current_revision := n + 1, ca_updated_at := or_else ts now\<rparr>"
  have dist: "distinct (map ca_id (cd_candidates db))" using inv by (simp add: candidate_inv_def)
  obtain v where v: "cd_revisions db' = cd_revisions db @ [v]" "cr_candidate_id v = k" "cr_revision v = n + 1" "cr_content v = content"
    and db': "cd_candidates db' = update_rows (\<lambda>x. ca_id x = k \<and> ca_current_revision x = n)
      (\<lambda>x. x\<lparr>ca_current_revision := n + 1, ca_updated_at := or_else ts now\<rparr>) (cd_candidates db)"
    and one: "rowcount (\<lambda>x. ca_id x = k \<and> ca_current_revision x = n) (cd_candidates db) = 1"
    using app by (auto simp: append_candidate_revision_def insert_revision_def Let_def res_simps split: if_splits)
  from one have n: "ca_current_revision r = n" by (simp add: rowcount_distinct_key [OF dist] r split: if_splits)
  have rows': "cd_candidates db' = update_rows (\<lambda>x. ca_id x = k) (\<lambda>_. ?r') (cd_candidates db)"
    unfolding db' using update_rows_key_guard [OF dist, of r "\<lambda>x. ca_current_revision x = n" k] get_candidate_mem [OF r] n by simp
  have "row_evolves r ?r'" "row_step r ?r' [v]" "fields_ok ?r'" "survivor_ok (cd_candidates db) ?r'"
    using inv_row [OF inv r] v ok n active by (auto simp: row_evolves_def row_step_def fields_ok_def survivor_ok_def)
  note changed = change_row [OF inv r this]
  have "db' = \<lparr>cd_candidates = update_rows (\<lambda>x. ca_id x = k) (\<lambda>_. ?r') (cd_candidates db), cd_revisions = cd_revisions db @ [v]\<rparr>"
    using rows' v(1) by simp
  with changed show "candidate_inv db'" "db_evolves db db'" by simp_all
  show "get_candidate k db' = Some ?r'" "j \<noteq> k \<Longrightarrow> get_candidate j db' = get_candidate j db"
    using inv_row(3) [OF inv r] by (simp_all add: rows' find_update_row [OF r])
qed

lemma put_candidate_inv:
  assumes "candidate_inv db" "get_candidate k db = Some r" "row_evolves r r'" "ca_current_revision r' = ca_current_revision r"
    "fields_ok r'" "survivor_ok (cd_candidates db) r'"
  shows "candidate_inv (put_candidate r' db)" "db_evolves db (put_candidate r' db)"
proof -
  have "row_step r r' []" using assms(4) by (simp add: row_step_def)
  moreover have "ca_id r' = k" using assms(2,3) by (auto simp: row_evolves_def dest: get_candidate_mem)
  ultimately show "candidate_inv (put_candidate r' db)" "db_evolves db (put_candidate r' db)"
    using change_row [OF assms(1,2,3) _ assms(5,6), of "[]"]
    by (cases db, simp add: put_candidate_def)+
qed

lemma supersede_inv:
  assumes inv: "candidate_inv db" and r: "get_candidate k db = Some r" and active: "ca_content_status r = ''active''"
    and sup: "supersede_candidate k j ts now db = Inr db'"
  shows "candidate_inv db'" "db_evolves db db'"
proof -
  obtain s where s: "k \<noteq> j" "get_candidate j db = Some s" "ca_session_id r = ca_session_id s"
    and db': "db' = put_candidate (r\<lparr>ca_content_status := ''superseded'', ca_superseded_by_candidate_id := Some j,
       ca_updated_at := or_else ts now\<rparr>) db" (is "db' = put_candidate ?r' db")
    using sup r by (auto simp: supersede_candidate_def split: if_splits option.splits)
  have "length j \<le> 36" using inv_row [OF inv s(2)] by (auto simp: fields_ok_def len_in_def)
  then have "survivor_ok (cd_candidates db) ?r'"
    using s get_candidate_mem [OF s(2)] get_candidate_mem [OF r] by (auto simp: survivor_ok_def)
  moreover have "fields_ok ?r'" "row_evolves r ?r'"
    using inv_row(1) [OF inv r] active by (auto simp: fields_ok_def CONTENT_STATUSES_def row_evolves_def)
  ultimately show "candidate_inv db'" "db_evolves db db'"
    unfolding db' by (auto intro!: put_candidate_inv [OF inv r])
qed

lemma transition_inv:
  assumes inv: "candidate_inv db" and tr: "transition_candidate_execution k target ts now db = Inr db'"
  shows "candidate_inv db'" "db_evolves db db'"
proof -
  obtain r where r: "get_candidate k db = Some r" and cases: "db' = db \<or> execution_move (ca_execution_status r) target
      \<and> db' = put_candidate (r\<lparr>ca_execution_status := target, ca_updated_at := or_else ts now\<rparr>) db"
    using tr by (auto simp: transition_candidate_execution_def execution_move_def split: option.splits if_splits)
  show "candidate_inv db'" "db_evolves db db'"
    using cases
  proof (atomize (full), elim disjE conjE)
    assume step: "execution_move (ca_execution_status r) target"
      and db': "db' = put_candidate (r\<lparr>ca_execution_status := target, ca_updated_at := or_else ts now\<rparr>) db"
    have "target \<in> set EXECUTION_STATUSES"
      using step by (auto simp: execution_move_def EXECUTION_TRANSITIONS_def EXECUTION_STATUSES_def split: if_splits)
    then show "candidate_inv db' \<and> db_evolves db db'"
      using inv_row [OF inv r] step unfolding db'
      by (auto intro!: put_candidate_inv [OF inv r] simp: fields_ok_def survivor_ok_def row_evolves_def)
  qed (use inv in simp)
qed

lemma create_inv:
  assumes inv: "candidate_inv db" and ok: "content_ok content" "from_captions content" "len_in 1 36 k" "len_in 1 36 session"
      "opt_all (\<lambda>i. length i \<le> 36) df" "opt_all (\<lambda>n. 1 \<le> n) dr"
    and cr: "create_candidate session content rd (Some k) (Some k) ''active'' ''not_requested'' df dr summary ts k rid now db = Inr (db', r)"
  shows "candidate_inv db'" "db_evolves db db'" "get_candidate k db' = Some r" "ca_session_id r = session"
    "j \<noteq> k \<Longrightarrow> get_candidate j db' = get_candidate j db"
proof -
  have k: "k \<noteq> []" using ok(3) by (auto simp: len_in_def)
  obtain v where new: "k \<notin> set (map ca_id (cd_candidates db))" "cd_candidates db' = cd_candidates db @ [r]"
    and v: "cd_revisions db' = cd_revisions db @ [v]" "cr_candidate_id v = k" "cr_revision v = 1" "cr_content v = content"
    and r: "ca_id r = k" "ca_session_id r = session" "fields_ok r" "ca_superseded_by_candidate_id r = None"
      "ca_content_status r = ''active''" "ca_current_revision r = 1"
    using cr ok k by (auto simp: create_candidate_def insert_row_def insert_revision_def Let_def res_simps str_or_def fields_ok_def
        CONTENT_STATUSES_def EXECUTION_STATUSES_def split: if_splits)
  have none: "cr_candidate_id x \<noteq> k" if "x \<in> set (cd_revisions db)" for x
    using inv new(1) that by (auto simp: candidate_inv_def)
  have revs: "revisions_of db' j = (if j = k then {1} else revisions_of db j)" for j
    using v none by (auto simp: revisions_of_def)
  have survivor: "survivor_ok (cd_candidates db') x" if "survivor_ok (cd_candidates db) x" for x
    using that unfolding survivor_ok_def new(2) opt_all_def by (auto split: option.splits)
  have row: "fields_ok x \<and> survivor_ok (cd_candidates db') x \<and> revisions_of db' (ca_id x) = {1 .. ca_current_revision x}"
    if "x \<in> set (cd_candidates db')" for x
  proof (cases "x = r")
    case True
    then show ?thesis using r revs by (simp add: survivor_ok_def)
  next
    case False
    then have x: "x \<in> set (cd_candidates db)" using that new(2) by simp
    then have "ca_id x \<noteq> k" using new(1) by auto
    with x show ?thesis using inv survivor revs by (simp add: candidate_inv_def)
  qed
  show "candidate_inv db'"
    using inv new row v ok none r unfolding candidate_inv_def by (auto simp: image_iff)
  show "db_evolves db db'"
    using v(1) new(2) unfolding db_evolves_def by (metis Un_iff row_evolves_refl set_append)
  show "get_candidate k db' = Some r"
  proof -
    have "get_candidate k db = None" using new(1) by (auto simp: find_row_None)
    then show ?thesis using new(2) r(1) by (simp add: find_row_append)
  qed
  show "ca_session_id r = session" by (rule r(2))
  show "j \<noteq> k \<Longrightarrow> get_candidate j db' = get_candidate j db"
    using new r by (auto simp: find_row_append split: option.splits)
qed

subsection \<open>Contents\<close>

lemma map_res_length: "map_res f xs = Inr ys \<Longrightarrow> length ys = length xs"
  by (auto simp: map_res_Inr list_all2_lengthD)

lemma checked_InrD: "checked ok model x = Inr y \<Longrightarrow> ok y"
  by (auto simp: checked_def split: if_splits)

lemma materialize_ok:
  assumes "materialize_candidate_content he p evidence = Inr c"
  shows "content_ok c" "from_captions c"
proof -
  show ok: "content_ok c"
    using assms by (auto simp: materialize_candidate_content_def Let_def res_simps split: if_splits)
  obtain messages :: "(string, caption_evidence_message) dict"
    where "cc_evidence_messages c = map (\<lambda>e. Caption_Evidence (snd e)) messages" "gv_origin (cc_title c) = Meeting_Inferred"
    using assms by (auto simp: materialize_candidate_content_def Let_def res_simps grounded_def split: if_splits)
  moreover have "gv_evidence_message_ids (cc_title c) \<noteq> []"
    using ok calculation(2) by (simp add: content_ok_def grounded_ok_def)
  moreover have "set (gv_evidence_message_ids (cc_title c)) \<subseteq> set (map message_id (cc_evidence_messages c))"
    using ok unfolding content_ok_def referenced_messages_def by blast
  ultimately show "from_captions c" by (auto simp: from_captions_def list_all_iff)
qed

lemma put_messages_set:
  "set (dict_values (foldl (\<lambda>d m. dict_set d (message_id m) m) d ms)) \<subseteq> set (dict_values d) \<union> set ms"
proof (induction ms arbitrary: d)
  case (Cons m ms)
  have "set (dict_values (dict_set d (message_id m) m)) \<subseteq> insert m (set (dict_values d))"
    by (auto dest: set_dict_set)
  with Cons.IH [of "dict_set d (message_id m) m"] show ?case by auto
qed simp

lemma put_messages_keys:
  "fst ` set (foldl (\<lambda>d m. dict_set d (message_id m) m) d ms) = fst ` set d \<union> message_id ` set ms"
proof (induction ms arbitrary: d)
  case (Cons m ms)
  show ?case using dict_keys_set [of d "message_id m" m] by (simp add: Cons.IH)
qed simp

lemma merge_content_from_captions:
  assumes "merge_content l r = Inr c" "from_captions l" "from_captions r"
  shows "content_ok c" "from_captions c"
proof -
  have c: "cc_evidence_messages c = merge_messages (cc_evidence_messages l @ cc_evidence_messages r)" "content_ok c"
    using assms(1) by (auto simp: merge_content_def res_simps)
  then show "content_ok c" by simp
  have "set (cc_evidence_messages c) \<subseteq> set (cc_evidence_messages l) \<union> set (cc_evidence_messages r)"
    using put_messages_set [of "[]" "cc_evidence_messages l @ cc_evidence_messages r"] unfolding c merge_messages_def by auto
  moreover have "cc_evidence_messages c \<noteq> []"
    using put_messages_keys [of "[]" "cc_evidence_messages l @ cc_evidence_messages r"] assms(2)
    unfolding c merge_messages_def by (auto simp: from_captions_def)
  ultimately show "from_captions c" using assms(2,3) by (auto simp: from_captions_def list_all_iff)
qed

lemma current_content_ok:
  assumes "candidate_inv db" "current_content db r = Inr c"
  shows "content_ok c" "from_captions c"
  using assms by (auto simp: current_content_def current_revision_row_def candidate_inv_def res_simps split: option.splits dest!: find_row_Some)

text \<open>
  A proposal may name an empty assignee, which \<open>grounded_proposal_ok\<close> accepts and \<open>AssigneeValue\<close> does not:
  the operation, and with it the whole projection, is refused.
\<close>

lemma empty_assignee_refused:
  assumes "gp_value (cp_assignee p) = Some []"
  shows "\<exists>e. materialize_candidate_content he p evidence = Inl e"
proof -
  have "assignee_of (cp_assignee p) = Inl (ValueError ''validation error for AssigneeValue'')"
    using assms by (simp add: assignee_of_def checked_def assignee_ok_def len_in_def)
  then show ?thesis
    by (cases "segment_messages he evidence (content_source_segment_ids p)")
      (simp_all add: materialize_candidate_content_def Let_def)
qed

subsection \<open>The policy's operations\<close>

lemma get_record_Inr: "get_record session k db = Inr r \<longleftrightarrow> get_candidate k db = Some r \<and> ca_session_id r = session"
  by (auto simp: get_record_def split: option.splits if_splits)

lemma stable_candidate_id_length: "digests he \<Longrightarrow> length (stable_candidate_id he kind p ids) = 36"
  by (simp add: stable_candidate_id_def format_uuid_def digests_def digest_ok_def)

definition sound_step :: "candidate_db \<Rightarrow> candidate_db \<Rightarrow> bool" where
  "sound_step db db' \<longleftrightarrow> candidate_inv db \<longrightarrow> candidate_inv db' \<and> db_evolves db db'"

lemma sound_step_trans: "sound_step a b \<Longrightarrow> sound_step b c \<Longrightarrow> sound_step a c"
  using db_evolves_trans by (auto simp: sound_step_def)

lemma policy_create_sound:
  assumes "policy_create pe session p summary evidence kind df db = Inr (db', c)" "candidate_inv db"
    "digests (pl_hash pe)" "len_in 1 36 session" "opt_all fields_ok df"
  shows "candidate_inv db'" "db_evolves db db'" "get_candidate j db = Some r \<Longrightarrow> get_candidate j db' = Some r"
    "get_candidate (ca_id c) db' = Some c"
proof -
  obtain content where content: "materialize_candidate_content (pl_hash pe) p evidence = Inr content"
    using assms(1) by (auto simp: policy_create_def res_simps)
  note ok = materialize_ok [OF content]
  let ?k = "stable_candidate_id (pl_hash pe) kind p (content_source_segment_ids p)"
  have len: "len_in 1 36 ?k" using stable_candidate_id_length [OF assms(3)] by (simp add: len_in_def)
  have df: "opt_all (\<lambda>i. length i \<le> 36) (map_option ca_id df)" "opt_all (\<lambda>n. 1 \<le> n) (map_option ca_current_revision df)"
    using assms(5) by (auto simp: opt_all_def fields_ok_def len_in_def split: option.splits)
  have "candidate_inv db' \<and> db_evolves db db' \<and> (get_candidate j db = Some r \<longrightarrow> get_candidate j db' = Some r)
      \<and> get_candidate (ca_id c) db' = Some c"
  proof (cases "get_candidate ?k db")
    case (Some e)
    then have "db' = db" "c = e" using assms(1) content by (auto simp: policy_create_def Let_def split: if_splits)
    with Some assms(2) get_candidate_mem [OF Some] show ?thesis by simp
  next
    case None
    then have cr: "create_candidate session content (readiness_of content) (Some ?k) (Some ?k) ''active'' ''not_requested''
        (map_option ca_id df) (map_option ca_current_revision df) summary None ?k (pl_revision_id pe ?k 1) (pl_now pe ?k 1) db = Inr (db', c)"
      using assms(1) content by (simp add: policy_create_def Let_def)
    note new = create_inv [OF assms(2) ok len assms(4) df cr]
    have "j \<noteq> ?k" if "get_candidate j db = Some r" using that None by auto
    with new get_candidate_mem [OF new(3)] show ?thesis by auto
  qed
  then show "candidate_inv db'" "db_evolves db db'" "get_candidate j db = Some r \<Longrightarrow> get_candidate j db' = Some r"
    "get_candidate (ca_id c) db' = Some c" by blast+
qed

lemma policy_revise_sound:
  assumes "policy_revise pe session k n p summary evidence db = Inr db'"
  shows "sound_step db db'"
  unfolding sound_step_def
proof (intro impI conjI)
  assume inv: "candidate_inv db"
  obtain r content where r: "get_candidate k db = Some r" "ca_content_status r = ''active''"
    and content: "materialize_candidate_content (pl_hash pe) p evidence = Inr content"
    and app: "append_revision pe (ca_id r) n content ''revise'' summary db = Inr db'"
    using assms by (auto simp: policy_revise_def res_simps get_record_Inr split: if_splits)
  have "ca_id r = k" using get_candidate_mem [OF r(1)] by simp
  from append_inv [OF inv r materialize_ok [OF content] app [unfolded append_revision_def this]]
  show "candidate_inv db'" "db_evolves db db'" by simp_all
qed

lemma policy_cancel_sound:
  assumes "policy_cancel pe session k n ids reason evidence db = Inr db'"
  shows "sound_step db db'"
  unfolding sound_step_def
proof (intro impI)
  assume inv: "candidate_inv db"
  obtain r content db1 where r: "get_candidate k db = Some r" "ca_content_status r = ''active''"
    and content: "current_content db r = Inr content"
    and app: "append_revision pe (ca_id r) (ca_current_revision r) content ''cancel'' (Some reason) db = Inr db1"
    and db': "db' = mark_cancelled pe (ca_id r) db1"
    using assms by (auto simp: policy_cancel_def res_simps get_record_Inr split: if_splits)
  have k: "ca_id r = k" using get_candidate_mem [OF r(1)] by simp
  note app = append_inv [OF inv r current_content_ok [OF inv content] app [unfolded append_revision_def k]]
  let ?r1 = "r\<lparr>ca_current_revision := ca_current_revision r + 1, ca_updated_at := or_else None (pl_now pe k (ca_current_revision r + 1))\<rparr>"
  let ?r2 = "?r1\<lparr>ca_content_status := ''cancelled'', ca_updated_at := pl_touched pe k\<rparr>"
  have dist: "distinct (map ca_id (cd_candidates db1))" using app(1) by (simp add: candidate_inv_def)
  have "db' = put_candidate ?r2 db1"
    using update_rows_key_guard [OF dist, of ?r1 "\<lambda>_. True" k "\<lambda>r. r\<lparr>ca_content_status := ''cancelled'', ca_updated_at := pl_touched pe k\<rparr>"]
      get_candidate_mem [OF app(3)] by (simp add: db' mark_cancelled_def put_candidate_def k)
  moreover have "fields_ok ?r2" "survivor_ok (cd_candidates db1) ?r2" "row_evolves ?r1 ?r2"
    using inv_row [OF app(1,3)] r(2) survivor_active [OF inv_row(2) [OF app(1,3)]]
    by (auto simp: fields_ok_def CONTENT_STATUSES_def survivor_ok_def row_evolves_def)
  ultimately have "candidate_inv db'" "db_evolves db1 db'"
    using put_candidate_inv [OF app(1,3), of ?r2] by auto
  then show "candidate_inv db' \<and> db_evolves db db'" using app(2) db_evolves_trans by blast
qed

lemma mergeable_Inr: "mergeable expected r = Inr u \<Longrightarrow> ca_content_status r = ''active''"
  by (auto simp: mergeable_def split: option.splits if_splits)

lemma policy_merge_sound:
  assumes "policy_merge pe session a b expected ids summary evidence db = Inr db'"
  shows "sound_step db db'"
  unfolding sound_step_def
proof (intro impI)
  assume inv: "candidate_inv db"
  obtain r1 r2 c1 c2 where r1: "get_candidate a db = Some r1" "mergeable expected r1 = Inr ()" "current_content db r1 = Inr c1"
    and r2: "get_candidate b db = Some r2" "mergeable expected r2 = Inr ()" "current_content db r2 = Inr c2"
    and rest: "(let (survivor, sc, duplicate, dc) =
           (if (ca_created_at r1, ca_id r1) \<le> (ca_created_at r2, ca_id r2) then (r1, c1, r2, c2) else (r2, c2, r1, c1))
         in rbind (merge_content sc dc) (\<lambda>merged.
            rbind (append_revision pe (ca_id survivor) (ca_current_revision survivor) merged ''merge'' summary db) (\<lambda>db.
            supersede_candidate (ca_id duplicate) (ca_id survivor) None (pl_touched pe (ca_id duplicate)) db))) = Inr db'"
    using assms by (auto simp: policy_merge_def res_simps get_record_Inr split: if_splits simp del: prod.case_distrib)
  have ids: "ca_id r1 = a" "ca_id r2 = b" using r1(1) r2(1) by (auto dest: get_candidate_mem)
  obtain s sc d dc merged db1 where sd: "(s, sc, d, dc) \<in> {(r1, c1, r2, c2), (r2, c2, r1, c1)}"
    and merged: "merge_content sc dc = Inr merged"
    and app: "append_revision pe (ca_id s) (ca_current_revision s) merged ''merge'' summary db = Inr db1"
    and sup: "supersede_candidate (ca_id d) (ca_id s) None (pl_touched pe (ca_id d)) db1 = Inr db'"
  proof (cases "(ca_created_at r1, ca_id r1) \<le> (ca_created_at r2, ca_id r2)")
    case True
    with rest [unfolded if_P [OF True] Let_def prod.case] show ?thesis
      unfolding rbind_eq_Inr using that [of r1 c1 r2 c2] by blast
  next
    case False
    with rest [unfolded if_not_P [OF False] Let_def prod.case] show ?thesis
      unfolding rbind_eq_Inr using that [of r2 c2 r1 c1] by blast
  qed
  have s: "get_candidate (ca_id s) db = Some s" "ca_content_status s = ''active''" "current_content db s = Inr sc"
    and d: "get_candidate (ca_id d) db = Some d" "ca_content_status d = ''active''" "current_content db d = Inr dc"
    using sd r1 r2 ids mergeable_Inr [OF r1(2)] mergeable_Inr [OF r2(2)] by auto
  note content = merge_content_from_captions [OF merged current_content_ok(2) [OF inv s(3)] current_content_ok(2) [OF inv d(3)]]
  note app = append_inv [OF inv s(1,2) content app [unfolded append_revision_def]]
  have "ca_id d \<noteq> ca_id s" using sup by (auto simp: supersede_candidate_def)
  then have "get_candidate (ca_id d) db1 = Some d" using app(4) d(1) by simp
  from supersede_inv [OF app(1) this d(2) sup] app(2) db_evolves_trans
  show "candidate_inv db' \<and> db_evolves db db'" by blast
qed

lemma create_children_sound:
  assumes "create_children pe session parent summary evidence n ps db = Inr (db', cs)" "candidate_inv db"
    "digests (pl_hash pe)" "len_in 1 36 session" "fields_ok parent"
  shows "candidate_inv db' \<and> db_evolves db db' \<and> (\<forall>j r. get_candidate j db = Some r \<longrightarrow> get_candidate j db' = Some r)"
  using assms(1,2)
proof (induction ps arbitrary: n db cs)
  case (Cons p ps)
  obtain db1 c cs' where one: "policy_create pe session p summary evidence (split_kind (ca_id parent) n) (Some parent) db = Inr (db1, c)"
    and rest: "create_children pe session parent summary evidence (Suc n) ps db1 = Inr (db', cs')"
    using Cons.prems(1) by (auto simp: res_simps)
  note step = policy_create_sound [OF one Cons.prems(2) assms(3,4)]
  have df: "opt_all fields_ok (Some parent)" using assms(5) by simp
  from Cons.IH [OF rest step(1) [OF df]] step(2,3) [OF df] db_evolves_trans show ?case by blast
qed simp

lemma policy_split_sound:
  assumes "policy_split pe session k n parts ids summary evidence db = Inr db'" "digests (pl_hash pe)" "len_in 1 36 session"
  shows "sound_step db db'"
  unfolding sound_step_def
proof (intro impI)
  assume inv: "candidate_inv db"
  obtain parent db1 ch where p: "get_candidate k db = Some parent" "ca_content_status parent = ''active''"
    and made: "create_children pe session parent summary evidence 0 parts db = Inr (db1, ch)"
    and "(case ch of [] \<Rightarrow> Inl (RuntimeError ''IndexError'')
      | c # _ \<Rightarrow> supersede_candidate (ca_id parent) (ca_id c) None (pl_touched pe (ca_id parent)) db1) = Inr db'"
    using assms(1) by (auto simp: policy_split_def res_simps get_record_Inr split: if_splits simp del: list.case_eq_if)
  then obtain c cs where children: "create_children pe session parent summary evidence 0 parts db = Inr (db1, c # cs)"
    and sup: "supersede_candidate (ca_id parent) (ca_id c) None (pl_touched pe (ca_id parent)) db1 = Inr db'"
    by (cases ch) auto
  have k: "ca_id parent = k" using get_candidate_mem [OF p(1)] by simp
  note step = create_children_sound [OF children inv assms(2,3) inv_row(1) [OF inv p(1)]]
  then have "get_candidate k db1 = Some parent" using p(1) by blast
  from supersede_inv [OF _ this p(2) sup [unfolded k]] step db_evolves_trans
  show "candidate_inv db' \<and> db_evolves db db'" by blast
qed

lemma apply_operation_sound:
  assumes "apply_operation pe session evidence q db = Inr db'" "digests (pl_hash pe)" "len_in 1 36 session"
  shows "sound_step db db'"
proof (cases q)
  case (Create p summary)
  with assms obtain c where "policy_create pe session p summary evidence ''action_candidate'' None db = Inr (db', c)"
    by (auto simp: res_simps)
  from policy_create_sound(1,2) [OF this _ assms(2,3)] show ?thesis by (simp add: sound_step_def)
qed (use assms policy_revise_sound policy_merge_sound policy_split_sound policy_cancel_sound in auto)

lemma apply_operations_sound:
  assumes "apply_operations pe session evidence qs db = Inr db'" "digests (pl_hash pe)" "len_in 1 36 session"
  shows "sound_step db db'"
  using assms(1)
proof (induction qs arbitrary: db)
  case Nil
  then show ?case by (simp add: sound_step_def)
next
  case (Cons q qs)
  then obtain db1 where "apply_operation pe session evidence q db = Inr db1" "apply_operations pe session evidence qs db1 = Inr db'"
    by (auto simp: res_simps)
  with Cons.IH apply_operation_sound [OF _ assms(2,3)] sound_step_trans show ?case by blast
qed

subsection \<open>Loading never fails\<close>

definition loaded :: "(string, int) dict \<Rightarrow> candidate_db \<Rightarrow> candidate_record \<Rightarrow> action_candidate \<Rightarrow> bool" where
  "loaded current db r c \<longleftrightarrow> candidate_ok c \<and> ac_candidate_id c = ca_id r \<and> ac_lineage_root_id c = ca_lineage_root_id r
     \<and> ac_session_id c = ca_session_id r \<and> ac_current_revision c = ca_current_revision r
     \<and> ac_content_status c = ca_content_status r \<and> ac_execution_status c = ca_execution_status r
     \<and> ac_superseded_by_candidate_id c = ca_superseded_by_candidate_id r
     \<and> (\<exists>v \<in> set (cd_revisions db). cr_candidate_id v = ca_id r \<and> cr_revision v = ca_current_revision r \<and> ac_content c = cr_content v)
     \<and> (ac_evidence_revisions_current c \<longleftrightarrow> list_all (revision_current current) (cc_evidence_messages (ac_content c)))"

lemma from_captions_cites: "from_captions c \<Longrightarrow> candidate_source_ids c \<noteq> []"
  by (cases "cc_evidence_messages c") (auto simp: from_captions_def candidate_source_ids_def fromkeys_def List.map_filter_def)

lemma load_candidate_total:
  assumes inv: "candidate_inv db" and r: "r \<in> set (cd_candidates db)"
  shows "\<exists>c. load_candidate current db r = Inr c \<and> loaded current db r c"
proof -
  have fields: "fields_ok r" "survivor_ok (cd_candidates db) r" and "ca_current_revision r \<in> revisions_of db (ca_id r)"
    using inv r by (auto simp: candidate_inv_def fields_ok_def)
  then obtain v where v: "current_revision_row db r = Some v"
    by (auto simp: revisions_of_def current_revision_row_def find_row_None dest!: find_row_None [THEN iffD1])
      (metis (mono_tags, lifting) find_row_None not_Some_eq)
  then have mem: "v \<in> set (cd_revisions db)" "cr_candidate_id v = ca_id r" "cr_revision v = ca_current_revision r"
    by (auto simp: current_revision_row_def dest: find_row_Some)
  have ok: "content_ok (cr_content v)" "candidate_source_ids (cr_content v) \<noteq> []"
    using inv mem(1) from_captions_cites by (auto simp: candidate_inv_def)
  have "opt_all (\<lambda>i. length i \<le> 36) (ca_superseded_by_candidate_id r)"
    using fields(2) by (auto simp: survivor_ok_def opt_all_def split: option.splits)
  with fields(1) ok v mem show ?thesis
    by (auto simp: load_candidate_def loaded_def fields_ok_def candidate_ok_def checked_def)
qed

lemma map_res_exists: "(\<And>x. x \<in> set xs \<Longrightarrow> \<exists>y. f x = Inr y \<and> P x y) \<Longrightarrow> \<exists>ys. map_res f xs = Inr ys \<and> list_all2 P xs ys"
  by (induction xs) fastforce+

text \<open>The candidates of a session in the order in which they are returned.\<close>

definition session_candidates :: "string \<Rightarrow> candidate_db \<Rightarrow> candidate_record list" where
  "session_candidates session db = sort_key (\<lambda>r. (ca_created_at r, ca_id r)) (filter (\<lambda>r. ca_session_id r = session) (cd_candidates db))"

lemma load_total:
  assumes "candidate_inv db"
  shows "\<exists>cs. load_action_candidates session current None None 0 db = Inr cs
     \<and> list_all2 (loaded current db) (session_candidates session db) cs"
proof -
  have "\<exists>c. load_candidate current db r = Inr c \<and> loaded current db r c" if "r \<in> set (session_candidates session db)" for r
    using load_candidate_total [OF assms] that by (simp add: session_candidates_def)
  then have "\<exists>cs. map_res (load_candidate current db) (session_candidates session db) = Inr cs
      \<and> list_all2 (loaded current db) (session_candidates session db) cs"
    by (rule map_res_exists)
  then show ?thesis by (simp add: load_action_candidates_def session_candidates_def paged_def Let_def)
qed

subsection \<open>Histories\<close>

text \<open>Any caller may apply operations or move an execution on; a call that raises is rolled back.\<close>

datatype candidate_action =
    Apply_Operations policy_env string "candidate_operation list" "(string, projection_segment) dict" segment_table
  | Move_Execution string string instant

fun run_action :: "candidate_action \<Rightarrow> candidate_db \<Rightarrow> candidate_db" where
  "run_action (Apply_Operations pe session qs evidence segments) db =
     (case policy_apply pe session qs evidence segments db of Inl _ \<Rightarrow> db | Inr (db', _) \<Rightarrow> db')"
| "run_action (Move_Execution k target now) db =
     (case transition_candidate_execution k target None now db of Inl _ \<Rightarrow> db | Inr db' \<Rightarrow> db')"

definition run_actions :: "candidate_action list \<Rightarrow> candidate_db \<Rightarrow> candidate_db" where
  "run_actions acts db = foldl (\<lambda>db a. run_action a db) db acts"

fun action_ok :: "candidate_action \<Rightarrow> bool" where
  "action_ok (Apply_Operations pe session _ _ _) \<longleftrightarrow> digests (pl_hash pe) \<and> len_in 1 36 session"
| "action_ok (Move_Execution _ _ _) \<longleftrightarrow> True"

definition empty_db :: candidate_db where
  "empty_db = \<lparr>cd_candidates = [], cd_revisions = []\<rparr>"

lemma policy_apply_sound:
  assumes "policy_apply pe session qs evidence segments db = Inr (db', cs)" "digests (pl_hash pe)" "len_in 1 36 session"
  shows "sound_step db db'"
  using assms apply_operations_sound [OF _ assms(2,3)] by (auto simp: policy_apply_def res_simps)

lemma run_action_sound: "action_ok a \<Longrightarrow> sound_step db (run_action a db)"
proof (cases a)
  case (Apply_Operations pe session qs evidence segments)
  moreover assume "action_ok a"
  ultimately show ?thesis
    using policy_apply_sound [of pe session qs evidence segments db] by (auto simp: sound_step_def split: sum.split)
next
  case (Move_Execution k target now)
  then show ?thesis
    using transition_inv [of db k target None now] by (auto simp: sound_step_def split: sum.split)
qed

lemma run_actions_sound: "list_all action_ok acts \<Longrightarrow> sound_step db (run_actions acts db)"
proof (induction acts arbitrary: db)
  case (Cons a acts)
  then show ?case
    using sound_step_trans [OF run_action_sound [of a db]] by (simp add: run_actions_def)
qed (simp add: run_actions_def sound_step_def)

lemma empty_db_inv: "candidate_inv empty_db"
  by (simp add: candidate_inv_def empty_db_def)

lemma policy_apply_error:
  assumes "candidate_inv db" "digests (pl_hash pe)" "len_in 1 36 session" "policy_apply pe session qs evidence segments db = Inl e"
  shows "validate_current_evidence session evidence segments = Inl e \<or> apply_operations pe session evidence qs db = Inl e"
proof (rule ccontr)
  assume "\<not> ?thesis"
  then obtain db' where db': "apply_operations pe session evidence qs db = Inr db'"
      "load_action_candidates session (final_revisions session segments) None None 0 db' = Inl e"
    using assms(4) by (auto simp: policy_apply_def res_simps)
  have "candidate_inv db'" using apply_operations_sound [OF db'(1) assms(2,3)] assms(1) by (simp add: sound_step_def)
  from load_total [OF this] db'(2) show False by (metis Inl_Inr_False)
qed

text \<open>
  C36. The history of action candidates: after any sequence of policy calls and execution
  transitions, whatever is proposed, every candidate has exactly the revisions 1 to its current
  one, every stored content is valid and rests on captions, and a superseded candidate points to
  another one of its session. Revisions are append-only; the identity, session and lineage of a
  candidate never change, an inactive candidate is never revised or revived, executions only
  move along their transitions. Loading the candidates of a session always succeeds with the
  current content of each, so a policy call raises only for stale evidence or a refused operation.
\<close>

theorem candidate_history:
  assumes "list_all action_ok (before @ after)"
  shows "candidate_inv (run_actions (before @ after) empty_db)
    \<and> db_evolves (run_actions before empty_db) (run_actions (before @ after) empty_db)
    \<and> (\<forall>session current. \<exists>cs.
         load_action_candidates session current None None 0 (run_actions (before @ after) empty_db) = Inr cs
         \<and> list_all2 (loaded current (run_actions (before @ after) empty_db))
             (session_candidates session (run_actions (before @ after) empty_db)) cs)
    \<and> (\<forall>pe session qs evidence segments e. digests (pl_hash pe) \<and> len_in 1 36 session
         \<and> policy_apply pe session qs evidence segments (run_actions (before @ after) empty_db) = Inl e
         \<longrightarrow> validate_current_evidence session evidence segments = Inl e
           \<or> apply_operations pe session evidence qs (run_actions (before @ after) empty_db) = Inl e)"
proof -
  let ?db = "run_actions before empty_db" and ?db' = "run_actions (before @ after) empty_db"
  have split: "?db' = run_actions after ?db" by (simp add: run_actions_def)
  have "candidate_inv ?db"
    using run_actions_sound [of before empty_db] assms empty_db_inv by (simp add: sound_step_def)
  then have inv: "candidate_inv ?db'" and "db_evolves ?db ?db'"
    using run_actions_sound [of after ?db] assms unfolding split by (simp_all add: sound_step_def)
  then show ?thesis using load_total [OF inv] policy_apply_error [OF inv] by blast
qed

definition demo_policy :: policy_env where
  "demo_policy = \<lparr>pl_hash = demo_hashes, pl_revision_id = (\<lambda>k n. k @ show_nat (nat n)), pl_now = (\<lambda>_ n. n), pl_touched = (\<lambda>_. 9)\<rparr>"

definition demo_caption :: projection_segment where
  "demo_caption = \<lparr>ps_session_id = ''m'', ps_segment_id = ''a'', ps_revision = 1, ps_track_id = ''t'', ps_language = ''en'',
     ps_raw_text = ''ship it'', ps_display_text = ''ship it'', ps_audio_start_ms = Some 0, ps_audio_end_ms = Some 5, ps_confidence = None,
     ps_received_at_ms = 1, ps_finalized_at = 1, ps_updated_at = 1\<rparr>"

definition demo_caption_row :: segment_record where
  "demo_caption_row = \<lparr>sg_id = ''x'', sg_session_id = ''m'', sg_segment_id = ''a'', sg_track_id = ''t'', sg_revision = 1, sg_language = ''en'',
     sg_raw_text = ''ship it'', sg_display_text = ''ship it'', sg_audio_start_ms = Some 0, sg_audio_end_ms = Some 5,
     sg_confidence = None, sg_status = ''final'', sg_received_at_ms = 1, sg_finalized_at = 1, sg_created_at = 1, sg_updated_at = 1\<rparr>"

definition demo_field :: "'a option \<Rightarrow> resolution \<Rightarrow> 'a grounded_proposal" where
  "demo_field v r = \<lparr>gp_value = v, gp_resolution = r, gp_source_segment_ids = [''a''], gp_confidence = None, gp_explanation = None\<rparr>"

definition demo_proposal :: content_proposal where
  "demo_proposal = \<lparr>cp_title = demo_field (Some ''Ship'') Known, cp_deliverable = demo_field (Some ''Release'') Known,
     cp_assignee = demo_field None Missing, cp_due_at = demo_field None Missing, cp_priority = demo_field None Missing,
     cp_blocking_conflict_segment_ids = []\<rparr>"

definition demo_actions :: "candidate_operation list \<Rightarrow> candidate_action list" where
  "demo_actions qs = [Apply_Operations demo_policy ''m'' qs [(''a'', demo_caption)] [demo_caption_row]]"

lemma demo_sha: "he_sha256 demo_hashes bs = replicate 64 (CHR ''0'')"
  by (simp add: demo_hashes_def)

lemma demo_materialize:
  "\<exists>c. materialize_candidate_content demo_hashes demo_proposal [(''a'', demo_caption)] = Inr c"
  by (simp add: materialize_candidate_content_def demo_proposal_def demo_field_def demo_caption_def content_source_segment_ids_def
      fromkeys_def unavailable_def segment_messages_def caption_evidence_message_of_def demo_sha assignee_of_def grounded_def
      message_ids_def checked_def grounded_ok_def content_ok_def referenced_messages_def caption_evidence_ok_def len_in_def
      audio_bounds_ok_def digest_ok_def list_all_iff is_hex_digit_def is_digit_def Let_def)

lemma demo_actions_ok: "list_all action_ok (demo_actions qs @ demo_actions qs')"
  using demo_hashes_digests by (simp add: demo_actions_def demo_policy_def len_in_def)

lemma demo_created:
  "\<exists>r. cd_candidates (run_actions (demo_actions [Create demo_proposal None]) empty_db) = [r] \<and> ca_content_status r = ''active''"
proof -
  obtain c where c: "materialize_candidate_content demo_hashes demo_proposal [(''a'', demo_caption)] = Inr c"
    using demo_materialize by blast
  have evidence: "validate_current_evidence ''m'' [(''a'', demo_caption)] [demo_caption_row] = Inr ()"
    by (simp add: validate_current_evidence_def demo_caption_def demo_caption_row_def final_revisions_def)
  obtain db r where db: "apply_operations demo_policy ''m'' [(''a'', demo_caption)] [Create demo_proposal None] empty_db = Inr db"
      "cd_candidates db = [r]" "ca_content_status r = ''active''"
    using c by (auto simp: policy_create_def demo_policy_def empty_db_def create_candidate_def insert_row_def insert_revision_def Let_def)
  have "candidate_inv db"
    using apply_operations_sound [OF db(1)] empty_db_inv demo_hashes_digests
    by (simp add: sound_step_def demo_policy_def len_in_def)
  then obtain cs where "load_action_candidates ''m'' (final_revisions ''m'' [demo_caption_row]) None None 0 db = Inr cs"
    using load_total by blast
  then show ?thesis
    using db evidence by (simp add: run_actions_def demo_actions_def policy_apply_def)
qed

theorem candidate_history_witness:
  "candidate_inv (run_actions (demo_actions [Create demo_proposal None] @ demo_actions []) empty_db)
   \<and> db_evolves (run_actions (demo_actions [Create demo_proposal None]) empty_db)
       (run_actions (demo_actions [Create demo_proposal None] @ demo_actions []) empty_db)
   \<and> (\<exists>r. cd_candidates (run_actions (demo_actions [Create demo_proposal None]) empty_db) = [r])"
  using candidate_history [OF demo_actions_ok, of "[Create demo_proposal None]" "[]"] demo_created by blast

end
