(* ===== verification/Media_Contract.thy ===== *)
theory Media_Contract
  imports Canonical_Json
begin

section \<open>Media events\<close>

text \<open>
  Models \<open>media/contracts.py\<close>: the contracts of a media session and of a media event, and the
  walk that bounds a JSON payload and keeps credentials out of it. Timestamps are aware by
  their type, and a \<open>jvalue\<close> holds only what JSON can express.
\<close>

subsection \<open>Bounded JSON\<close>

definition MEDIA_EVENT_FAMILIES :: "string list" where
  "MEDIA_EVENT_FAMILIES = [''session'', ''playback'', ''transcript'', ''translation'', ''timeline'', ''audio'', ''video'',
     ''ocr'', ''chat'', ''user'']"

definition MAX_EVENT_PAYLOAD_BYTES :: nat where
  "MAX_EVENT_PAYLOAD_BYTES = 64 * 1024"

definition MAX_EVENT_PAYLOAD_DEPTH :: nat where
  "MAX_EVENT_PAYLOAD_DEPTH = 16"

definition SENSITIVE_KEYS :: "string list" where
  "SENSITIVE_KEYS = [''access_token'', ''accesstoken'', ''api_key'', ''apikey'', ''authorization'', ''client_secret'', ''clientsecret'',
     ''cookie'', ''password'', ''passwd'', ''private_key'', ''privatekey'', ''secret'']"

definition is_lower :: "char \<Rightarrow> bool" where
  "is_lower c = (let n = (of_char c :: nat) in 97 \<le> n \<and> n \<le> 122)"

text \<open>\<open>re.sub(r"[^a-z0-9]+", "_", s)\<close>; the flag tells that a run is being replaced.\<close>

fun squash :: "bool \<Rightarrow> string \<Rightarrow> string" where
  "squash run [] = []"
| "squash run (c # cs) = (if is_lower c \<or> is_digit c then c # squash False cs
     else if run then squash True cs else CHR ''_'' # squash True cs)"

definition normalized_key :: "string \<Rightarrow> string" where
  "normalized_key s = strip_by (\<lambda>c. c = CHR ''_'') (squash False (casefold s))"

fun walk :: "nat \<Rightarrow> bool \<Rightarrow> nat \<Rightarrow> jvalue \<Rightarrow> unit res"
  and walk_all :: "nat \<Rightarrow> bool \<Rightarrow> nat \<Rightarrow> jvalue list \<Rightarrow> unit res"
  and walk_entries :: "nat \<Rightarrow> bool \<Rightarrow> nat \<Rightarrow> (string \<times> jvalue) list \<Rightarrow> unit res" where
  "walk max_depth reject depth v =
     (if depth > max_depth then Inl (ValueError ''JSON payload exceeds maximum nesting depth'')
      else case v of
        VArr xs \<Rightarrow> walk_all max_depth reject (Suc depth) xs
      | VObj es \<Rightarrow> walk_entries max_depth reject (Suc depth) es
      | _ \<Rightarrow> Inr ())"
| "walk_all max_depth reject depth [] = Inr ()"
| "walk_all max_depth reject depth (x # xs) =
     rbind (walk max_depth reject depth x) (\<lambda>_. walk_all max_depth reject depth xs)"
| "walk_entries max_depth reject depth [] = Inr ()"
| "walk_entries max_depth reject depth ((k, x) # es) =
     (if reject \<and> normalized_key k \<in> set SENSITIVE_KEYS
      then Inl (ValueError (''sensitive-looking payload key is forbidden: '' @ k))
      else rbind (walk max_depth reject depth x) (\<lambda>_. walk_entries max_depth reject depth es))"

definition validate_bounded_json :: "(rat \<Rightarrow> string) \<Rightarrow> nat \<Rightarrow> nat \<Rightarrow> bool \<Rightarrow> jvalue \<Rightarrow> jvalue res" where
  "validate_bounded_json repr max_bytes max_depth reject v =
     rbind (walk max_depth reject 0 v) (\<lambda>_.
       if length (utf8 (dumps_value repr v)) > max_bytes then Inl (ValueError ''JSON payload exceeds the byte limit'')
       else Inr v)"

subsection \<open>Identifiers\<close>

text \<open>\<open>str.split(".")\<close>, and the two patterns of dotted identifiers.\<close>

fun split_dots :: "string \<Rightarrow> string \<Rightarrow> string list" where
  "split_dots acc [] = [rev acc]"
| "split_dots acc (c # cs) = (if c = CHR ''.'' then rev acc # split_dots [] cs else split_dots (c # acc) cs)"

definition lower_identifier :: "(char \<Rightarrow> bool) \<Rightarrow> string \<Rightarrow> bool" where
  "lower_identifier cls s \<longleftrightarrow> (case s of [] \<Rightarrow> False | c # cs \<Rightarrow> is_lower c \<and> list_all cls cs)"

definition event_type_char :: "char \<Rightarrow> bool" where
  "event_type_char c \<longleftrightarrow> is_lower c \<or> is_digit c \<or> c = CHR ''_''"

definition source_char :: "char \<Rightarrow> bool" where
  "source_char c \<longleftrightarrow> is_lower c \<or> is_digit c \<or> c = CHR ''_'' \<or> c = CHR ''-''"

definition dotted :: "(char \<Rightarrow> bool) \<Rightarrow> string \<Rightarrow> bool" where
  "dotted cls s \<longleftrightarrow> length (split_dots [] s) \<ge> 2 \<and> list_all (lower_identifier cls) (split_dots [] s)"

subsection \<open>Contracts\<close>

record media_session =
  mc_session_id :: string
  mc_mode :: string
  mc_source_kind :: string
  mc_status :: string
  mc_tracks :: "string list"
  mc_owner_scope :: "string option"
  mc_created_at :: instant
  mc_updated_at :: instant

definition media_mode_ok :: "string \<Rightarrow> bool" where
  "media_mode_ok mode \<longleftrightarrow> mode \<in> {''live'', ''playback''}"

definition normalize_tracks :: "string list \<Rightarrow> string list" where
  "normalize_tracks tracks = sort (remdups tracks)"

definition media_session_ok :: "media_session \<Rightarrow> bool" where
  "media_session_ok s \<longleftrightarrow> 1 \<le> length (mc_session_id s) \<and> length (mc_session_id s) \<le> 128 \<and> media_mode_ok (mc_mode s)
     \<and> length (mc_source_kind s) \<le> 64 \<and> lower_identifier source_char (mc_source_kind s)
     \<and> length (mc_status s) \<le> 32 \<and> lower_identifier source_char (mc_status s)
     \<and> set (mc_tracks s) \<subseteq> {''audio'', ''video'', ''transcript'', ''chat''}
     \<and> (case mc_owner_scope s of None \<Rightarrow> True | Some o' \<Rightarrow> length o' \<le> 256)"

record media_event =
  mv_event_id :: string
  mv_session_id :: string
  mv_sequence :: int
  mv_event_type :: string
  mv_media_time_ms :: "int option"
  mv_duration_ms :: "int option"
  mv_logical_id :: "string option"
  mv_revision :: "int option"
  mv_finality :: string
  mv_source :: string
  mv_payload :: "(string \<times> jvalue) list"
  mv_created_at :: instant

definition at_least :: "int \<Rightarrow> int option \<Rightarrow> bool" where
  "at_least m v \<longleftrightarrow> (case v of None \<Rightarrow> True | Some x \<Rightarrow> m \<le> x)"

definition validate_event_type :: "string \<Rightarrow> bool" where
  "validate_event_type s \<longleftrightarrow> dotted event_type_char s \<and> hd (split_dots [] s) \<in> set MEDIA_EVENT_FAMILIES"

definition validate_source :: "string \<Rightarrow> bool" where
  "validate_source s \<longleftrightarrow> dotted source_char s"

definition validate_payload :: "(rat \<Rightarrow> string) \<Rightarrow> (string \<times> jvalue) list \<Rightarrow> jvalue res" where
  "validate_payload repr es = validate_bounded_json repr MAX_EVENT_PAYLOAD_BYTES MAX_EVENT_PAYLOAD_DEPTH True (VObj es)"

definition media_event_ok :: "(rat \<Rightarrow> string) \<Rightarrow> media_event \<Rightarrow> bool" where
  "media_event_ok repr e \<longleftrightarrow> 1 \<le> length (mv_event_id e) \<and> length (mv_event_id e) \<le> 128
     \<and> 1 \<le> length (mv_session_id e) \<and> length (mv_session_id e) \<le> 128 \<and> 1 \<le> mv_sequence e
     \<and> 3 \<le> length (mv_event_type e) \<and> length (mv_event_type e) \<le> 96 \<and> validate_event_type (mv_event_type e)
     \<and> at_least 0 (mv_media_time_ms e) \<and> at_least 0 (mv_duration_ms e)
     \<and> (case mv_logical_id e of None \<Rightarrow> mv_revision e = None | Some l \<Rightarrow> 1 \<le> length l \<and> length l \<le> 256)
     \<and> at_least 1 (mv_revision e) \<and> mv_finality e \<in> {''draft'', ''final'', ''derived''}
     \<and> 3 \<le> length (mv_source e) \<and> length (mv_source e) \<le> 96 \<and> validate_source (mv_source e)
     \<and> succeeds (validate_payload repr (mv_payload e))"

text \<open>Constructing the contract; Pydantic's error is a \<open>ValueError\<close>.\<close>

definition media_event_contract :: "(rat \<Rightarrow> string) \<Rightarrow> media_event \<Rightarrow> media_event res" where
  "media_event_contract repr e = (if media_event_ok repr e then Inr e else Inl (ValueError ''invalid MediaEvent''))"

subsection \<open>What the walk establishes\<close>

text \<open>The depth of a value and the keys of all its dictionaries.\<close>

fun jdepth :: "jvalue \<Rightarrow> nat" where
  "jdepth (VArr xs) = (if xs = [] then 0 else Suc (Max (set (map jdepth xs))))"
| "jdepth (VObj es) = (if es = [] then 0 else Suc (Max (set (map (\<lambda>e. jdepth (snd e)) es))))"
| "jdepth _ = 0"

fun jkeys :: "jvalue \<Rightarrow> string set" where
  "jkeys (VArr xs) = \<Union> (set (map jkeys xs))"
| "jkeys (VObj es) = fst ` set es \<union> \<Union> (set (map (\<lambda>e. jkeys (snd e)) es))"
| "jkeys _ = {}"

abbreviation clean_keys :: "string set \<Rightarrow> bool" where
  "clean_keys ks \<equiv> \<forall>k \<in> ks. normalized_key k \<notin> set SENSITIVE_KEYS"

lemma max_depth_le:
  assumes "xs \<noteq> []"
  shows "Suc (d + Max (f ` set xs)) \<le> n \<longleftrightarrow> (\<forall>x \<in> set xs. Suc (d + f x) \<le> n)"
proof
  assume max: "Suc (d + Max (f ` set xs)) \<le> n"
  show "\<forall>x \<in> set xs. Suc (d + f x) \<le> n"
  proof
    fix x assume "x \<in> set xs"
    then have "f x \<le> Max (f ` set xs)" by simp
    with max show "Suc (d + f x) \<le> n" by linarith
  qed
next
  assume all: "\<forall>x \<in> set xs. Suc (d + f x) \<le> n"
  have "Max (f ` set xs) \<in> f ` set xs" using assms by simp
  with all show "Suc (d + Max (f ` set xs)) \<le> n" by force
qed

lemma walk_iff:
  "succeeds (walk n reject d v) \<longleftrightarrow> d + jdepth v \<le> n \<and> (reject \<longrightarrow> clean_keys (jkeys v))"
  "succeeds (walk_all n reject d vs) \<longleftrightarrow> (\<forall>v \<in> set vs. d + jdepth v \<le> n \<and> (reject \<longrightarrow> clean_keys (jkeys v)))"
  "succeeds (walk_entries n reject d es) \<longleftrightarrow> (\<forall>(k, v) \<in> set es. d + jdepth v \<le> n \<and> (reject \<longrightarrow> clean_keys (insert k (jkeys v))))"
proof (induction n reject d v and n reject d vs and n reject d es rule: walk_walk_all_walk_entries.induct)
  case (1 n reject d v)
  show ?case
  proof (cases v)
    case (VArr xs)
    then show ?thesis using 1 by (auto simp: max_depth_le not_less)
  next
    case (VObj es)
    then show ?thesis using 1 by (auto simp: max_depth_le not_less split_beta)
  qed auto
next
  case (3 n reject d x xs)
  then show ?case by (cases "walk n reject d x") auto
next
  case (5 n reject d k x es)
  then show ?case by (cases "walk n reject d x") auto
qed simp_all

end
