(* ===== verification/Media_Repository.thy ===== *)
theory Media_Repository
  imports Media_Contract Optimistic Session_Repository
begin

section \<open>The media event log\<close>

text \<open>
  Models \<open>media/repository.py\<close>: the bridge from a session to its media session, the log of events
  of every media session, the cursors of its consumers and the offsets of the projector.

  An ORM \<open>select\<close> may answer from an older version of a row. The operations on media sessions,
  events and cursors therefore look at rows given as arguments (what their \<open>select\<close> returned), which
  may be out of date; the unique columns of the tables are checked on the tables themselves. A flush
  writes the columns of a row that differ from what was loaded, and no others. The offsets are read in
  the transaction that writes them: only the projector writes them. A savepoint that fails leaves no trace.
\<close>

subsection \<open>Tables\<close>

definition MEDIA_SCHEMA_VERSION :: int where
  "MEDIA_SCHEMA_VERSION = 1"

record media_session_record =
  mse_id :: string
  mse_legacy_session_id :: "string option"
  mse_mode :: string
  mse_source_kind :: string
  mse_status :: string
  mse_owner_scope :: "string option"
  mse_next_sequence :: int
  mse_updated_at :: instant

record media_event_record =
  mer_id :: string
  mer_media_session_id :: string
  mer_sequence :: int
  mer_schema_version :: int
  mer_event_type :: string
  mer_media_time_ms :: "int option"
  mer_duration_ms :: "int option"
  mer_logical_id :: "string option"
  mer_revision :: "int option"
  mer_finality :: string
  mer_source :: string
  mer_payload :: "(string \<times> jvalue) list"
  mer_created_at :: instant

record bridge_offset_record =
  bo_id :: string
  bo_media_session_id :: string
  bo_source_table :: string
  bo_source_type :: string
  bo_source_logical_id :: string
  bo_processed_revision :: int
  bo_processed_at :: instant

record consumer_cursor_record =
  cu_id :: string
  cu_media_session_id :: string
  cu_consumer_id :: string
  cu_last_delivered_sequence :: int
  cu_last_acknowledged_sequence :: int
  cu_updated_at :: instant

record media_db =
  mdb_sessions :: "media_session_record list"
  mdb_events :: "media_event_record list"
  mdb_offsets :: "bridge_offset_record list"
  mdb_cursors :: "consumer_cursor_record list"

definition empty_media_db :: media_db where
  "empty_media_db = \<lparr>mdb_sessions = [], mdb_events = [], mdb_offsets = [], mdb_cursors = []\<rparr>"

abbreviation get_media_session :: "string \<Rightarrow> media_db \<Rightarrow> media_session_record option" where
  "get_media_session m db \<equiv> find_row (\<lambda>r. mse_id r = m) (mdb_sessions db)"

text \<open>The unique columns of an event. SQL never takes two missing values for equal.\<close>

definition source_key :: "media_event_record \<Rightarrow> (string \<times> string \<times> string \<times> int) option" where
  "source_key e = (case (mer_logical_id e, mer_revision e) of
     (Some l, Some r) \<Rightarrow> Some (mer_media_session_id e, mer_source e, l, r) | _ \<Rightarrow> None)"

definition insert_event :: "media_event_record \<Rightarrow> media_event_record list \<Rightarrow> media_event_record list res" where
  "insert_event e rows =
     (if list_ex (\<lambda>x. mer_id x = mer_id e
           \<or> mer_media_session_id x = mer_media_session_id e \<and> mer_sequence x = mer_sequence e
           \<or> source_key e \<noteq> None \<and> source_key x = source_key e) rows
      then Inl integrity_error else Inr (rows @ [e]))"

subsection \<open>The bridge\<close>

definition media_status :: "string \<Rightarrow> string" where
  "media_status s = (if s \<in> {''ended'', ''completed'', ''stopped''} then ''completed''
     else if s \<in> {''failed'', ''error''} then ''failed'' else ''active'')"

abbreviation bridged :: "string \<Rightarrow> media_session_record \<Rightarrow> bool" where
  "bridged s r \<equiv> mse_legacy_session_id r = Some s"

text \<open>\<open>seen\<close> are the media sessions of the first \<open>select\<close>.\<close>

definition ensure_legacy_session_bridge ::
  "session_record list \<Rightarrow> string \<Rightarrow> string \<Rightarrow> string option \<Rightarrow> string \<Rightarrow> instant \<Rightarrow> media_session_record list \<Rightarrow> media_db
   \<Rightarrow> (media_db \<times> media_session_record) res" where
  "ensure_legacy_session_bridge sessions s mode owner_scope new_id now seen db =
     (case find_row (bridged s) seen of
        Some r \<Rightarrow> Inr (db, r)
      | None \<Rightarrow> case find_row (\<lambda>r. ses_id r = s) sessions of
          None \<Rightarrow> Inl (LookupError (''legacy Session does not exist: '' @ s))
        | Some legacy \<Rightarrow>
            let r = \<lparr>mse_id = new_id, mse_legacy_session_id = Some s, mse_mode = mode, mse_source_kind = ses_source_type legacy,
                  mse_status = media_status (ses_status legacy), mse_owner_scope = owner_scope, mse_next_sequence = 1,
                  mse_updated_at = now\<rparr>
            in if new_id \<in> set (map mse_id (mdb_sessions db)) \<or> list_ex (bridged s) (mdb_sessions db)
               then (case find_row (bridged s) (mdb_sessions db) of None \<Rightarrow> Inl integrity_error | Some raced \<Rightarrow> Inr (db, raced))
               else Inr (db\<lparr>mdb_sessions := mdb_sessions db @ [r]\<rparr>, r))"

subsection \<open>Appending\<close>

text \<open>\<open>seen\<close> are the events of the first \<open>select\<close>.\<close>

record event_args =
  ea_media_session_id :: string
  ea_event_type :: string
  ea_finality :: string
  ea_source :: string
  ea_payload :: "(string \<times> jvalue) list"
  ea_media_time_ms :: "int option"
  ea_duration_ms :: "int option"
  ea_logical_id :: "string option"
  ea_revision :: "int option"
  ea_created_at :: "instant option"

definition find_source_revision :: "event_args \<Rightarrow> media_event_record list \<Rightarrow> media_event_record option" where
  "find_source_revision a rows = (case (ea_logical_id a, ea_revision a) of
     (Some l, Some r) \<Rightarrow> find_row (\<lambda>e. mer_media_session_id e = ea_media_session_id a \<and> mer_source e = ea_source a
        \<and> mer_logical_id e = Some l \<and> mer_revision e = Some r) rows
   | _ \<Rightarrow> None)"

definition event_contract :: "event_args \<Rightarrow> string \<Rightarrow> int \<Rightarrow> instant \<Rightarrow> media_event" where
  "event_contract a event_id sequence now =
     \<lparr>mv_event_id = event_id, mv_session_id = ea_media_session_id a, mv_sequence = sequence, mv_event_type = ea_event_type a,
      mv_media_time_ms = ea_media_time_ms a, mv_duration_ms = ea_duration_ms a, mv_logical_id = ea_logical_id a,
      mv_revision = ea_revision a, mv_finality = ea_finality a, mv_source = ea_source a, mv_payload = ea_payload a,
      mv_created_at = or_else (ea_created_at a) now\<rparr>"

definition media_event_row :: "media_event \<Rightarrow> media_event_record" where
  "media_event_row c = \<lparr>mer_id = mv_event_id c, mer_media_session_id = mv_session_id c, mer_sequence = mv_sequence c,
     mer_schema_version = MEDIA_SCHEMA_VERSION, mer_event_type = mv_event_type c, mer_media_time_ms = mv_media_time_ms c,
     mer_duration_ms = mv_duration_ms c, mer_logical_id = mv_logical_id c, mer_revision = mv_revision c,
     mer_finality = mv_finality c, mer_source = mv_source c, mer_payload = mv_payload c, mer_created_at = mv_created_at c\<rparr>"

text \<open>One savepoint: \<open>view\<close> is the media session as the \<open>select\<close> returned it.\<close>

definition append_attempt ::
  "(rat \<Rightarrow> string) \<Rightarrow> event_args \<Rightarrow> string \<Rightarrow> instant \<Rightarrow> media_session_record option \<Rightarrow> media_db
   \<Rightarrow> (media_db \<times> media_event_record) res" where
  "append_attempt repr a event_id now view db =
     (case view of
        None \<Rightarrow> Inl (LookupError (''MediaSession does not exist: '' @ ea_media_session_id a))
      | Some m \<Rightarrow>
          rbind (media_event_contract repr (event_contract a event_id (mse_next_sequence m) now)) (\<lambda>c.
          rbind (insert_event (media_event_row c) (mdb_events db)) (\<lambda>events.
            Inr (db\<lparr>mdb_events := events,
                    mdb_sessions := update_rows (\<lambda>r. mse_id r = ea_media_session_id a)
                      (\<lambda>r. r\<lparr>mse_next_sequence := mse_next_sequence m + 1, mse_updated_at := now\<rparr>) (mdb_sessions db)\<rparr>,
                 media_event_row c))))"

text \<open>The attempts: the identifier each draws and the media session it sees.\<close>

fun append_attempts ::
  "(rat \<Rightarrow> string) \<Rightarrow> event_args \<Rightarrow> instant \<Rightarrow> (string \<times> media_session_record option) list \<Rightarrow> media_db
   \<Rightarrow> (media_db \<times> media_event_record) res" where
  "append_attempts repr a now [] db = Inl (RuntimeError ''unreachable event allocation state'')"
| "append_attempts repr a now ((event_id, view) # attempts) db =
     (case append_attempt repr a event_id now view db of
        Inr r \<Rightarrow> Inr r
      | Inl e \<Rightarrow> if e \<noteq> integrity_error then Inl e
          else case find_source_revision a (mdb_events db) of
            Some existing \<Rightarrow> Inr (db, existing)
          | None \<Rightarrow> if attempts = [] then Inl e else append_attempts repr a now attempts db)"

definition append_media_event ::
  "(rat \<Rightarrow> string) \<Rightarrow> event_args \<Rightarrow> instant \<Rightarrow> (string \<times> media_session_record option) \<times> (string \<times> media_session_record option)
     \<times> (string \<times> media_session_record option) \<Rightarrow> media_event_record list \<Rightarrow> media_db \<Rightarrow> (media_db \<times> media_event_record) res" where
  "append_media_event repr a now attempts seen db =
     (case find_source_revision a seen of
        Some existing \<Rightarrow> Inr (db, existing)
      | None \<Rightarrow> (case attempts of (x, y, z) \<Rightarrow> append_attempts repr a now [x, y, z] db))"

subsection \<open>Consumers\<close>

abbreviation cursor_of :: "string \<Rightarrow> string \<Rightarrow> consumer_cursor_record \<Rightarrow> bool" where
  "cursor_of m c r \<equiv> cu_media_session_id r = m \<and> cu_consumer_id r = c"

definition get_or_create_cursor ::
  "string \<Rightarrow> string \<Rightarrow> string \<Rightarrow> instant \<Rightarrow> consumer_cursor_record list \<Rightarrow> media_db \<Rightarrow> (media_db \<times> consumer_cursor_record) res" where
  "get_or_create_cursor m consumer_id new_id now seen db =
     (case find_row (cursor_of m consumer_id) seen of
        Some r \<Rightarrow> Inr (db, r)
      | None \<Rightarrow>
          if get_media_session m db = None then Inl (LookupError (''MediaSession does not exist: '' @ m))
          else let r = \<lparr>cu_id = new_id, cu_media_session_id = m, cu_consumer_id = consumer_id, cu_last_delivered_sequence = 0,
                     cu_last_acknowledged_sequence = 0, cu_updated_at = now\<rparr>
            in if new_id \<in> set (map cu_id (mdb_cursors db)) \<or> list_ex (cursor_of m consumer_id) (mdb_cursors db)
               then (case find_row (cursor_of m consumer_id) (mdb_cursors db) of
                       None \<Rightarrow> Inl integrity_error | Some raced \<Rightarrow> Inr (db, raced))
               else Inr (db\<lparr>mdb_cursors := mdb_cursors db @ [r]\<rparr>, r))"

text \<open>The flush of a changed cursor: the columns that differ from the loaded ones are written.\<close>

definition flush_cursor :: "consumer_cursor_record \<Rightarrow> consumer_cursor_record \<Rightarrow> media_db \<Rightarrow> media_db" where
  "flush_cursor loaded cursor db =
     db\<lparr>mdb_cursors := update_rows (\<lambda>x. cu_id x = cu_id loaded)
       (\<lambda>x. x\<lparr>cu_last_delivered_sequence :=
                (if cu_last_delivered_sequence cursor \<noteq> cu_last_delivered_sequence loaded
                 then cu_last_delivered_sequence cursor else cu_last_delivered_sequence x),
              cu_last_acknowledged_sequence :=
                (if cu_last_acknowledged_sequence cursor \<noteq> cu_last_acknowledged_sequence loaded
                 then cu_last_acknowledged_sequence cursor else cu_last_acknowledged_sequence x),
              cu_updated_at := (if cu_updated_at cursor \<noteq> cu_updated_at loaded
                 then cu_updated_at cursor else cu_updated_at x)\<rparr>) (mdb_cursors db)\<rparr>"

text \<open>\<open>seen_events\<close> and \<open>seen\<close> are the events and the cursors the two selects returned.\<close>

definition list_events_after ::
  "string \<Rightarrow> int \<Rightarrow> int \<Rightarrow> string option \<Rightarrow> string \<Rightarrow> instant \<Rightarrow> media_event_record list
   \<Rightarrow> consumer_cursor_record list \<Rightarrow> media_db \<Rightarrow> (media_db \<times> media_event_record list) res" where
  "list_events_after m after_sequence limit consumer_id new_id now seen_events seen db =
     (if after_sequence < 0 then Inl (ValueError ''after_sequence must not be negative'')
      else if limit < 1 \<or> limit > 1000 then Inl (ValueError ''limit must be between 1 and 1000'')
      else let rows = take (nat limit) (sort_key mer_sequence
             (filter (\<lambda>e. mer_media_session_id e = m \<and> mer_sequence e > after_sequence) seen_events))
        in case consumer_id of
             None \<Rightarrow> Inr (db, rows)
           | Some c \<Rightarrow> if rows = [] then Inr (db, rows)
               else rbind (get_or_create_cursor m c new_id now seen db) (\<lambda>(db, cursor).
                 Inr (flush_cursor cursor (cursor\<lparr>cu_last_delivered_sequence :=
                        max (cu_last_delivered_sequence cursor) (mer_sequence (last rows)), cu_updated_at := now\<rparr>) db, rows)))"

definition acknowledge_cursor ::
  "string \<Rightarrow> string \<Rightarrow> int \<Rightarrow> string \<Rightarrow> instant \<Rightarrow> consumer_cursor_record list \<Rightarrow> media_db
   \<Rightarrow> (media_db \<times> consumer_cursor_record) res" where
  "acknowledge_cursor m consumer_id sequence new_id now seen db =
     (if sequence < 0 then Inl (ValueError ''acknowledged sequence must not be negative'')
      else rbind (get_or_create_cursor m consumer_id new_id now seen db) (\<lambda>(db, cursor).
        if sequence > cu_last_delivered_sequence cursor then Inl (ValueError ''cannot acknowledge an event that was not delivered'')
        else if sequence > cu_last_acknowledged_sequence cursor
        then let changed = cursor\<lparr>cu_last_acknowledged_sequence := sequence, cu_updated_at := now\<rparr>
             in Inr (flush_cursor cursor changed db, changed)
        else Inr (db, cursor)))"

subsection \<open>Offsets of the projector\<close>

type_synonym source_id = "string \<times> string \<times> string"

abbreviation offset_source :: "bridge_offset_record \<Rightarrow> source_id" where
  "offset_source r \<equiv> (bo_source_table r, bo_source_type r, bo_source_logical_id r)"

definition get_bridge_offset :: "string \<Rightarrow> source_id \<Rightarrow> media_db \<Rightarrow> bridge_offset_record option" where
  "get_bridge_offset m source db = find_row (\<lambda>r. (bo_media_session_id r, offset_source r) = (m, source)) (mdb_offsets db)"

definition advance_bridge_offset ::
  "string \<Rightarrow> source_id \<Rightarrow> int \<Rightarrow> instant \<Rightarrow> string \<Rightarrow> media_db \<Rightarrow> (media_db \<times> bridge_offset_record) res" where
  "advance_bridge_offset m source processed_revision processed_at new_id db =
     (if processed_revision < 1 then Inl (ValueError ''processed_revision must be positive'')
      else case get_bridge_offset m source db of
        Some existing \<Rightarrow>
          if processed_revision > bo_processed_revision existing
          then let r = existing\<lparr>bo_processed_revision := processed_revision, bo_processed_at := processed_at\<rparr>
               in Inr (db\<lparr>mdb_offsets := update_rows (\<lambda>x. bo_id x = bo_id existing) (\<lambda>_. r) (mdb_offsets db)\<rparr>, r)
          else Inr (db, existing)
      | None \<Rightarrow>
          let r = \<lparr>bo_id = new_id, bo_media_session_id = m, bo_source_table = fst source, bo_source_type = fst (snd source),
                bo_source_logical_id = snd (snd source), bo_processed_revision = processed_revision, bo_processed_at = processed_at\<rparr>
          in if new_id \<in> set (map bo_id (mdb_offsets db)) then Inl integrity_error
             else Inr (db\<lparr>mdb_offsets := mdb_offsets db @ [r]\<rparr>, r))"

subsection \<open>Histories\<close>

text \<open>
  Clients call the operations in any order. A \<open>Snapshot\<close> keeps the present state; a later \<open>select\<close> whose
  number is that of a snapshot is answered from it. A call that raises changes nothing.
\<close>

datatype media_op =
    Snapshot
  | Bridge "session_record list" string string "string option" string instant nat
  | Append event_args instant "string \<times> nat" "string \<times> nat" "string \<times> nat" nat
  | Read string int int "string option" string instant nat nat
  | Cursor string string string instant nat
  | Acknowledge string string int string instant nat
  | Advance string source_id int instant string

definition answered :: "media_db list \<Rightarrow> media_db \<Rightarrow> nat \<Rightarrow> media_db" where
  "answered snaps db k = (if k < length snaps then snaps ! k else db)"

abbreviation keep :: "media_db \<Rightarrow> (media_db \<times> 'a) res \<Rightarrow> media_db" where
  "keep db r \<equiv> (case r of Inl _ \<Rightarrow> db | Inr x \<Rightarrow> fst x)"

fun media_step :: "(rat \<Rightarrow> string) \<Rightarrow> media_op \<Rightarrow> media_db \<times> media_db list \<Rightarrow> media_db \<times> media_db list" where
  "media_step repr Snapshot (db, snaps) = (db, snaps @ [db])"
| "media_step repr (Bridge sessions s mode owner new_id now k) (db, snaps) =
     (keep db (ensure_legacy_session_bridge sessions s mode owner new_id now (mdb_sessions (answered snaps db k)) db), snaps)"
| "media_step repr (Append a now x y z k) (db, snaps) =
     (let view = (\<lambda>d. (fst d, get_media_session (ea_media_session_id a) (answered snaps db (snd d))))
      in (keep db (append_media_event repr a now (view x, view y, view z) (mdb_events (answered snaps db k)) db), snaps))"
| "media_step repr (Read m after_sequence limit consumer new_id now j k) (db, snaps) =
     (keep db (list_events_after m after_sequence limit consumer new_id now (mdb_events (answered snaps db j))
        (mdb_cursors (answered snaps db k)) db), snaps)"
| "media_step repr (Cursor m c new_id now k) (db, snaps) =
     (keep db (get_or_create_cursor m c new_id now (mdb_cursors (answered snaps db k)) db), snaps)"
| "media_step repr (Acknowledge m c sequence new_id now k) (db, snaps) =
     (keep db (acknowledge_cursor m c sequence new_id now (mdb_cursors (answered snaps db k)) db), snaps)"
| "media_step repr (Advance m source revision at_time new_id) (db, snaps) =
     (keep db (advance_bridge_offset m source revision at_time new_id db), snaps)"

definition media_run :: "(rat \<Rightarrow> string) \<Rightarrow> media_op list \<Rightarrow> media_db \<times> media_db list \<Rightarrow> media_db \<times> media_db list" where
  "media_run repr ops st = foldl (\<lambda>st op. media_step repr op st) st ops"

subsection \<open>Invariant\<close>

abbreviation events_of :: "string \<Rightarrow> media_event_record list \<Rightarrow> media_event_record list" where
  "events_of m rows \<equiv> filter (\<lambda>e. mer_media_session_id e = m) rows"

definition log_ok :: "media_session_record list \<Rightarrow> media_event_record list \<Rightarrow> bool" where
  "log_ok sessions events \<longleftrightarrow> distinct (map mse_id sessions)
     \<and> (\<forall>x \<in> set sessions. \<forall>y \<in> set sessions. mse_legacy_session_id x \<noteq> None \<longrightarrow> mse_legacy_session_id x = mse_legacy_session_id y \<longrightarrow> x = y)
     \<and> (\<forall>m \<in> set sessions. 1 \<le> mse_next_sequence m \<and> map mer_sequence (events_of (mse_id m) events) = [1..mse_next_sequence m - 1])
     \<and> (\<forall>e \<in> set events. mer_media_session_id e \<in> mse_id ` set sessions)
     \<and> distinct (map mer_id events)
     \<and> (\<forall>x \<in> set events. \<forall>y \<in> set events. source_key x \<noteq> None \<longrightarrow> source_key x = source_key y \<longrightarrow> x = y)"

definition cursors_ok :: "media_session_record list \<Rightarrow> consumer_cursor_record list \<Rightarrow> bool" where
  "cursors_ok sessions cursors \<longleftrightarrow> distinct (map cu_id cursors)
     \<and> distinct (map (\<lambda>c. (cu_media_session_id c, cu_consumer_id c)) cursors)
     \<and> (\<forall>c \<in> set cursors. 0 \<le> cu_last_acknowledged_sequence c \<and> 0 \<le> cu_last_delivered_sequence c
          \<and> (\<exists>m \<in> set sessions. mse_id m = cu_media_session_id c
               \<and> cu_last_delivered_sequence c < mse_next_sequence m \<and> cu_last_acknowledged_sequence c < mse_next_sequence m))"

definition offsets_ok :: "bridge_offset_record list \<Rightarrow> bool" where
  "offsets_ok offsets \<longleftrightarrow> distinct (map bo_id offsets)
     \<and> distinct (map (\<lambda>r. (bo_media_session_id r, offset_source r)) offsets) \<and> (\<forall>r \<in> set offsets. 1 \<le> bo_processed_revision r)"

definition media_inv :: "media_db \<Rightarrow> bool" where
  "media_inv db \<longleftrightarrow> log_ok (mdb_sessions db) (mdb_events db) \<and> cursors_ok (mdb_sessions db) (mdb_cursors db)
     \<and> offsets_ok (mdb_offsets db)"

text \<open>What one state keeps of an earlier one.\<close>

definition sessions_grow :: "media_session_record list \<Rightarrow> media_session_record list \<Rightarrow> bool" where
  "sessions_grow ms ms' \<longleftrightarrow> (\<forall>m \<in> set ms. \<exists>m' \<in> set ms'. mse_id m' = mse_id m
     \<and> mse_legacy_session_id m' = mse_legacy_session_id m \<and> mse_next_sequence m \<le> mse_next_sequence m')"

definition cursors_stay :: "consumer_cursor_record list \<Rightarrow> consumer_cursor_record list \<Rightarrow> bool" where
  "cursors_stay cs cs' \<longleftrightarrow> (\<forall>c \<in> set cs. \<exists>c' \<in> set cs'. cu_id c' = cu_id c \<and> cu_media_session_id c' = cu_media_session_id c
     \<and> cu_consumer_id c' = cu_consumer_id c)"

definition cursors_grow :: "consumer_cursor_record list \<Rightarrow> consumer_cursor_record list \<Rightarrow> bool" where
  "cursors_grow cs cs' \<longleftrightarrow> (\<forall>c \<in> set cs. \<exists>c' \<in> set cs'. cu_id c' = cu_id c \<and> cu_media_session_id c' = cu_media_session_id c
     \<and> cu_consumer_id c' = cu_consumer_id c \<and> cu_last_delivered_sequence c \<le> cu_last_delivered_sequence c'
     \<and> cu_last_acknowledged_sequence c \<le> cu_last_acknowledged_sequence c')"

definition offsets_grow :: "bridge_offset_record list \<Rightarrow> bridge_offset_record list \<Rightarrow> bool" where
  "offsets_grow rs rs' \<longleftrightarrow> (\<forall>r \<in> set rs. \<exists>r' \<in> set rs'. bo_id r' = bo_id r \<and> bo_media_session_id r' = bo_media_session_id r
     \<and> offset_source r' = offset_source r \<and> bo_processed_revision r \<le> bo_processed_revision r')"

definition events_grow :: "media_event_record list \<Rightarrow> media_event_record list \<Rightarrow> bool" where
  "events_grow es es' \<longleftrightarrow> (\<exists>new. es' = es @ new)"

definition media_grows :: "media_db \<Rightarrow> media_db \<Rightarrow> bool" where
  "media_grows db db' \<longleftrightarrow> sessions_grow (mdb_sessions db) (mdb_sessions db') \<and> events_grow (mdb_events db) (mdb_events db')
     \<and> cursors_stay (mdb_cursors db) (mdb_cursors db') \<and> offsets_grow (mdb_offsets db) (mdb_offsets db')"

lemma grow_refl [simp, intro]:
  "sessions_grow ms ms" "events_grow es es" "cursors_stay cs cs" "cursors_grow cs cs" "offsets_grow rs rs" "media_grows db db"
  by (auto simp: sessions_grow_def events_grow_def cursors_stay_def cursors_grow_def offsets_grow_def media_grows_def)

lemma grow_trans:
  "sessions_grow a b \<Longrightarrow> sessions_grow b c \<Longrightarrow> sessions_grow a c"
  "events_grow d e \<Longrightarrow> events_grow e f \<Longrightarrow> events_grow d f"
  "cursors_stay p q \<Longrightarrow> cursors_stay q r \<Longrightarrow> cursors_stay p r"
  "cursors_grow g h \<Longrightarrow> cursors_grow h i \<Longrightarrow> cursors_grow g i"
  "offsets_grow j k \<Longrightarrow> offsets_grow k l \<Longrightarrow> offsets_grow j l"
proof -
  show "sessions_grow a b \<Longrightarrow> sessions_grow b c \<Longrightarrow> sessions_grow a c"
    unfolding sessions_grow_def by (metis order_trans)
  show "events_grow d e \<Longrightarrow> events_grow e f \<Longrightarrow> events_grow d f" by (auto simp: events_grow_def)
  show "cursors_stay p q \<Longrightarrow> cursors_stay q r \<Longrightarrow> cursors_stay p r" unfolding cursors_stay_def by metis
  show "cursors_grow g h \<Longrightarrow> cursors_grow h i \<Longrightarrow> cursors_grow g i"
    unfolding cursors_grow_def by (metis order_trans)
  show "offsets_grow j k \<Longrightarrow> offsets_grow k l \<Longrightarrow> offsets_grow j l"
    unfolding offsets_grow_def by (metis order_trans)
qed

lemma media_grows_trans: "media_grows a b \<Longrightarrow> media_grows b c \<Longrightarrow> media_grows a c"
  unfolding media_grows_def using grow_trans by blast

subsection \<open>Every operation keeps the invariant\<close>

lemma log_ok_bridge:
  assumes "log_ok ms es" "mse_id r \<notin> mse_id ` set ms" "\<not> list_ex (bridged s) ms" "mse_legacy_session_id r = Some s"
    "mse_next_sequence r = 1"
  shows "log_ok (ms @ [r]) es"
proof -
  have "mer_media_session_id e \<noteq> mse_id r" if "e \<in> set es" for e
  proof -
    have "mer_media_session_id e \<in> mse_id ` set ms" using assms(1) that by (simp add: log_ok_def)
    with assms(2) show ?thesis by metis
  qed
  then have "events_of (mse_id r) es = []" by (simp add: filter_empty_conv)
  moreover have "mse_legacy_session_id m \<noteq> Some s" if "m \<in> set ms" for m using assms(3) that by (auto simp: list_ex_iff)
  moreover have "Some s \<noteq> mse_legacy_session_id m" if "m \<in> set ms" for m using assms(3) that by (auto simp: list_ex_iff)
  ultimately show ?thesis using assms by (auto simp: log_ok_def)
qed

lemma cursors_ok_grow:
  assumes "cursors_ok ms cs" "sessions_grow ms ms'"
  shows "cursors_ok ms' cs"
proof -
  have "\<exists>m \<in> set ms'. mse_id m = cu_media_session_id c \<and> cu_last_delivered_sequence c < mse_next_sequence m
      \<and> cu_last_acknowledged_sequence c < mse_next_sequence m" if "c \<in> set cs" for c
  proof -
    have "\<exists>m \<in> set ms. mse_id m = cu_media_session_id c \<and> cu_last_delivered_sequence c < mse_next_sequence m
        \<and> cu_last_acknowledged_sequence c < mse_next_sequence m"
      using assms(1) that by (simp add: cursors_ok_def)
    then obtain m where m: "m \<in> set ms" "mse_id m = cu_media_session_id c" "cu_last_delivered_sequence c < mse_next_sequence m"
      "cu_last_acknowledged_sequence c < mse_next_sequence m" by blast
    then obtain m' where "m' \<in> set ms'" "mse_id m' = mse_id m" "mse_next_sequence m \<le> mse_next_sequence m'"
      using assms(2) by (auto simp: sessions_grow_def)
    with m show ?thesis by (intro bexI [of _ m']) auto
  qed
  with assms(1) show ?thesis by (simp add: cursors_ok_def)
qed

lemma bridge_step:
  assumes "media_inv db" "ensure_legacy_session_bridge sessions s mode owner new_id now seen db = Inr (db', r)"
  shows "media_inv db' \<and> media_grows db db'"
proof (cases "db' = db")
  case False
  then obtain m where db': "db' = db\<lparr>mdb_sessions := mdb_sessions db @ [m]\<rparr>"
      and m: "mse_id m \<notin> mse_id ` set (mdb_sessions db)" "\<not> list_ex (bridged s) (mdb_sessions db)"
        "mse_legacy_session_id m = Some s" "mse_next_sequence m = 1"
    using assms(2) by (auto simp: ensure_legacy_session_bridge_def Let_def split: option.splits if_splits)
  have grow: "sessions_grow (mdb_sessions db) (mdb_sessions db @ [m])" by (auto simp: sessions_grow_def)
  show ?thesis
    using assms(1) log_ok_bridge [OF _ m] cursors_ok_grow [OF _ grow] grow by (simp add: db' media_inv_def media_grows_def)
qed (use assms(1) in simp)

lemma insert_event_Inr:
  assumes "insert_event e rows = Inr rows'"
  shows "rows' = rows @ [e]" "mer_id e \<notin> mer_id ` set rows"
    "x \<in> set rows \<Longrightarrow> mer_media_session_id x = mer_media_session_id e \<Longrightarrow> mer_sequence x \<noteq> mer_sequence e"
    "x \<in> set rows \<Longrightarrow> source_key e \<noteq> None \<Longrightarrow> source_key x \<noteq> source_key e"
  using assms by (auto simp: insert_event_def list_ex_iff split: if_splits)

lemma event_record_sel [simp]:
  "mer_media_session_id (media_event_row (event_contract a i q now)) = ea_media_session_id a"
  "mer_sequence (media_event_row (event_contract a i q now)) = q" "mer_id (media_event_row (event_contract a i q now)) = i"
  by (simp_all add: media_event_row_def event_contract_def)

text \<open>A view that is out of date cannot get an event in: its sequence number is taken.\<close>

lemma append_attempt_Inr:
  assumes "media_inv db" "append_attempt repr a event_id now view db = Inr (db', e)"
    and view: "\<And>v. view = Some v \<Longrightarrow> mse_id v = ea_media_session_id a \<and> 1 \<le> mse_next_sequence v
      \<and> (\<exists>m \<in> set (mdb_sessions db). mse_id m = mse_id v \<and> mse_next_sequence v \<le> mse_next_sequence m)"
  obtains m where "m \<in> set (mdb_sessions db)" "mse_id m = ea_media_session_id a"
    "insert_event e (mdb_events db) = Inr (mdb_events db @ [e])" "e = media_event_row (event_contract a event_id (mse_next_sequence m) now)"
    "media_event_ok repr (event_contract a event_id (mse_next_sequence m) now)"
    "db' = db\<lparr>mdb_events := mdb_events db @ [e], mdb_sessions := update_rows (\<lambda>r. mse_id r = ea_media_session_id a)
        (\<lambda>r. r\<lparr>mse_next_sequence := mse_next_sequence m + 1, mse_updated_at := now\<rparr>) (mdb_sessions db)\<rparr>"
proof -
  obtain v where v: "view = Some v" "media_event_ok repr (event_contract a event_id (mse_next_sequence v) now)"
      "e = media_event_row (event_contract a event_id (mse_next_sequence v) now)" "succeeds (insert_event e (mdb_events db))"
      "db' = db\<lparr>mdb_events := mdb_events db @ [e], mdb_sessions := update_rows (\<lambda>r. mse_id r = ea_media_session_id a)
        (\<lambda>r. r\<lparr>mse_next_sequence := mse_next_sequence v + 1, mse_updated_at := now\<rparr>) (mdb_sessions db)\<rparr>"
    using assms(2) insert_event_Inr(1)
    by (auto simp: append_attempt_def media_event_contract_def rbind_eq_Inr split: option.splits if_splits)
  then have ins: "insert_event e (mdb_events db) = Inr (mdb_events db @ [e])"
    using insert_event_Inr(1) by (auto simp: succeeds_iff)
  obtain m where m: "m \<in> set (mdb_sessions db)" "mse_id m = ea_media_session_id a" "mse_next_sequence v \<le> mse_next_sequence m"
    "1 \<le> mse_next_sequence v" using view [OF v(1)] by auto
  have "mse_next_sequence v = mse_next_sequence m"
  proof (rule ccontr)
    assume "mse_next_sequence v \<noteq> mse_next_sequence m"
    with m(3,4) have "mse_next_sequence v \<in> set [1..mse_next_sequence m - 1]" by simp
    then have "mse_next_sequence v \<in> set (map mer_sequence (events_of (mse_id m) (mdb_events db)))"
      using assms(1) m(1) by (simp add: media_inv_def log_ok_def)
    then obtain x where "x \<in> set (mdb_events db)" "mer_media_session_id x = mse_id m" "mer_sequence x = mse_next_sequence v" by auto
    then show False using insert_event_Inr(3) [OF ins, of x] m(2) v(3) by simp
  qed
  with that [OF m(1,2) ins] v show thesis by simp
qed

lemma log_ok_append:
  assumes "log_ok ms es" "m \<in> set ms" "insert_event e es = Inr (es @ [e])" "mer_media_session_id e = mse_id m"
    "mer_sequence e = mse_next_sequence m"
    and f: "\<And>r. mse_id (f r) = mse_id r \<and> mse_legacy_session_id (f r) = mse_legacy_session_id r \<and> mse_next_sequence (f r) = mse_next_sequence m + 1"
  shows "log_ok (update_rows (\<lambda>r. mse_id r = mse_id m) f ms) (es @ [e])"
    "sessions_grow ms (update_rows (\<lambda>r. mse_id r = mse_id m) f ms)"
proof -
  define g where "g = (\<lambda>r. if mse_id r = mse_id m then f r else r)"
  have ms': "update_rows (\<lambda>r. mse_id r = mse_id m) f ms = map g ms" by (simp add: update_rows_def g_def)
  have g: "mse_id (g r) = mse_id r" "mse_legacy_session_id (g r) = mse_legacy_session_id r" for r using f by (auto simp: g_def)
  have same: "r = m" if "r \<in> set ms" "mse_id r = mse_id m" for r
    using assms(1,2) that by (auto simp: log_ok_def distinct_map dest: inj_onD)
  have upto: "[1..mse_next_sequence m] = [1..mse_next_sequence m - 1] @ [mse_next_sequence m]"
    using assms(1,2) upto_rec2 [of 1 "mse_next_sequence m"] by (auto simp: log_ok_def)
  have nexts: "1 \<le> mse_next_sequence (g r) \<and> map mer_sequence (events_of (mse_id r) (es @ [e])) = [1..mse_next_sequence (g r) - 1]"
    if "r \<in> set ms" for r
    using assms(1,4,5) that same [OF that] upto f [of r] by (auto simp: log_ok_def g_def)
  have ids: "map mse_id (map g ms) = map mse_id ms" by (simp add: g)
  have legacy: "g x = g y" if "x \<in> set ms" "y \<in> set ms" "mse_legacy_session_id x \<noteq> None"
      "mse_legacy_session_id x = mse_legacy_session_id y" for x y
  proof -
    have "x = y" using that assms(1) by (simp add: log_ok_def)
    then show ?thesis by simp
  qed
  have sids: "mer_media_session_id x \<in> mse_id ` set ms" if "x \<in> set (es @ [e])" for x
    using assms(1,2,4) that by (auto simp: log_ok_def)
  have events: "distinct (map mer_id (es @ [e]))" using assms(1) insert_event_Inr(2) [OF assms(3)] by (simp add: log_ok_def)
  have sources: "x = y" if "x \<in> set (es @ [e])" "y \<in> set (es @ [e])" "source_key x \<noteq> None" "source_key x = source_key y" for x y
  proof (cases "x = e \<or> y = e")
    case True
    then show ?thesis using that insert_event_Inr(4) [OF assms(3)] by (metis Un_iff empty_iff empty_set insert_iff list.set(2) set_append)
  next
    case False
    then show ?thesis using that assms(1) by (simp add: log_ok_def)
  qed
  show "log_ok (update_rows (\<lambda>r. mse_id r = mse_id m) f ms) (es @ [e])"
    unfolding ms' log_ok_def
  proof (intro conjI ballI impI)
    show "distinct (map mse_id (map g ms))" unfolding ids using assms(1) by (simp add: log_ok_def)
    show "x = y" if xy: "x \<in> set (map g ms)" "y \<in> set (map g ms)" "mse_legacy_session_id x \<noteq> None"
        "mse_legacy_session_id x = mse_legacy_session_id y" for x y
    proof -
      obtain x1 y1 where "x = g x1" "y = g y1" "x1 \<in> set ms" "y1 \<in> set ms" using xy(1,2) by auto
      show ?thesis using \<open>mse_legacy_session_id x \<noteq> None\<close> \<open>mse_legacy_session_id x = mse_legacy_session_id y\<close>
        unfolding \<open>x = g x1\<close> \<open>y = g y1\<close> g(2) by (rule legacy [OF \<open>x1 \<in> set ms\<close> \<open>y1 \<in> set ms\<close>])
    qed
    show "mer_media_session_id x \<in> mse_id ` set (map g ms)" if "x \<in> set (es @ [e])" for x
      using sids [OF that] unfolding set_map [symmetric] ids .
    show "distinct (map mer_id (es @ [e]))" by (rule events)
    show "x = y" if "x \<in> set (es @ [e])" "y \<in> set (es @ [e])" "source_key x \<noteq> None" "source_key x = source_key y" for x y
      by (rule sources [OF that])
    have "1 \<le> mse_next_sequence x \<and> map mer_sequence (events_of (mse_id x) (es @ [e])) = [1..mse_next_sequence x - 1]"
      if x: "x \<in> set (map g ms)" for x
    proof -
      obtain r where "x = g r" "r \<in> set ms" using x by auto
      then show ?thesis using nexts [of r] unfolding \<open>x = g r\<close> g(1) by blast
    qed
    then show "1 \<le> mse_next_sequence x" "map mer_sequence (events_of (mse_id x) (es @ [e])) = [1..mse_next_sequence x - 1]"
      if "x \<in> set (map g ms)" for x
      using that by blast+
  qed
  have "mse_next_sequence r \<le> mse_next_sequence (g r)" if "r \<in> set ms" for r
    using same [OF that] f [of r] by (auto simp: g_def)
  then show "sessions_grow ms (update_rows (\<lambda>r. mse_id r = mse_id m) f ms)"
    unfolding ms' sessions_grow_def using g by auto
qed

lemma append_attempt_step:
  assumes "media_inv db" "append_attempt repr a event_id now view db = Inr (db', e)"
    "\<And>v. view = Some v \<Longrightarrow> mse_id v = ea_media_session_id a \<and> 1 \<le> mse_next_sequence v
      \<and> (\<exists>m \<in> set (mdb_sessions db). mse_id m = mse_id v \<and> mse_next_sequence v \<le> mse_next_sequence m)"
  shows "media_inv db' \<and> media_grows db db'"
proof (rule append_attempt_Inr [OF assms])
  fix m :: media_session_record
  let ?f = "\<lambda>r :: media_session_record. r\<lparr>mse_next_sequence := mse_next_sequence m + 1, mse_updated_at := now\<rparr>"
  assume m: "m \<in> set (mdb_sessions db)" "mse_id m = ea_media_session_id a"
    and ins: "insert_event e (mdb_events db) = Inr (mdb_events db @ [e])"
    and e: "e = media_event_row (event_contract a event_id (mse_next_sequence m) now)"
    and "media_event_ok repr (event_contract a event_id (mse_next_sequence m) now)"
    and db': "db' = db\<lparr>mdb_events := mdb_events db @ [e],
      mdb_sessions := update_rows (\<lambda>r. mse_id r = ea_media_session_id a) ?f (mdb_sessions db)\<rparr>"
  have "log_ok (mdb_sessions db) (mdb_events db)" using assms(1) by (simp add: media_inv_def)
  note log = log_ok_append [OF this m(1) ins, where f = ?f, unfolded m(2)]
  show ?thesis
    using assms(1) log cursors_ok_grow [OF _ log(2)] by (simp add: db' media_inv_def media_grows_def events_grow_def e m(2))
qed

text \<open>A select that is answered from an earlier state of the log.\<close>

definition earlier :: "media_db \<Rightarrow> media_db \<Rightarrow> bool" where
  "earlier s db \<longleftrightarrow> media_inv s \<and> media_grows s db"

lemma earlier_view:
  assumes "earlier s db" "get_media_session k s = Some v"
  shows "mse_id v = k \<and> 1 \<le> mse_next_sequence v
    \<and> (\<exists>m \<in> set (mdb_sessions db). mse_id m = mse_id v \<and> mse_next_sequence v \<le> mse_next_sequence m)"
proof -
  have v: "v \<in> set (mdb_sessions s)" "mse_id v = k" using find_row_Some [OF assms(2)] by auto
  then show ?thesis
    using assms(1) by (auto simp: earlier_def media_inv_def log_ok_def media_grows_def sessions_grow_def)
qed

lemma append_attempts_step:
  assumes "media_inv db" "append_attempts repr a now xs db = Inr (db', e)"
    "\<forall>x \<in> set xs. \<exists>s. earlier s db \<and> snd x = get_media_session (ea_media_session_id a) s"
  shows "media_inv db' \<and> media_grows db db'"
  using assms(2,3)
proof (induction xs)
  case (Cons x xs)
  obtain i v where x: "x = (i, v)" by (cases x)
  obtain s where s: "earlier s db" "v = get_media_session (ea_media_session_id a) s" using Cons.prems(2) x by auto
  show ?case
  proof (cases "append_attempt repr a i now v db")
    case (Inr p)
    then have "append_attempt repr a i now v db = Inr (db', e)" using Cons.prems(1) by (simp add: x)
    then show ?thesis
    proof (rule append_attempt_step [OF assms(1)])
      fix w assume "v = Some w"
      with s(2) have "get_media_session (ea_media_session_id a) s = Some w" by simp
      then show "mse_id w = ea_media_session_id a \<and> 1 \<le> mse_next_sequence w
          \<and> (\<exists>m \<in> set (mdb_sessions db). mse_id m = mse_id w \<and> mse_next_sequence w \<le> mse_next_sequence m)"
        by (rule earlier_view [OF s(1)])
    qed
  next
    case (Inl err)
    then have "db' = db \<or> append_attempts repr a now xs db = Inr (db', e)"
      using Cons.prems(1) by (simp add: x split: if_splits option.splits)
    then show ?thesis using Cons.IH Cons.prems(2) assms(1) by auto
  qed
qed simp

lemma append_media_step:
  assumes "media_inv db" "append_media_event repr a now (x, y, z) seen db = Inr (db', e)"
    "\<forall>d \<in> {x, y, z}. \<exists>s. earlier s db \<and> snd d = get_media_session (ea_media_session_id a) s"
  shows "media_inv db' \<and> media_grows db db'"
  using assms append_attempts_step [of db repr a now "[x, y, z]" db' e]
  by (auto simp: append_media_event_def simp del: append_attempts.simps split: option.splits)

lemma event_sequence:
  assumes "media_inv db" "e \<in> set (mdb_events db)"
  shows "\<exists>m \<in> set (mdb_sessions db). mse_id m = mer_media_session_id e \<and> 1 \<le> mer_sequence e \<and> mer_sequence e < mse_next_sequence m"
proof -
  have log: "log_ok (mdb_sessions db) (mdb_events db)" using assms(1) by (simp add: media_inv_def)
  have "mer_media_session_id e \<in> mse_id ` set (mdb_sessions db)" using log assms(2) by (simp add: log_ok_def)
  then obtain m where m: "m \<in> set (mdb_sessions db)" "mse_id m = mer_media_session_id e" by auto
  have "mer_sequence e \<in> set (map mer_sequence (events_of (mse_id m) (mdb_events db)))" using assms(2) m(2) by simp
  also have "map mer_sequence (events_of (mse_id m) (mdb_events db)) = [1..mse_next_sequence m - 1]"
    using log m(1) by (simp add: log_ok_def)
  finally show ?thesis using m by (intro bexI [of _ m]) auto
qed

text \<open>
  The values a cursor column may hold: those of the numbers given out so far. A row loaded from an
  earlier state still has such values, and its key is the key of the present row with its id.
\<close>

definition cursor_bounded :: "media_session_record list \<Rightarrow> consumer_cursor_record \<Rightarrow> bool" where
  "cursor_bounded ms c \<longleftrightarrow> 0 \<le> cu_last_acknowledged_sequence c \<and> 0 \<le> cu_last_delivered_sequence c
     \<and> (\<exists>m \<in> set ms. mse_id m = cu_media_session_id c
          \<and> cu_last_delivered_sequence c < mse_next_sequence m \<and> cu_last_acknowledged_sequence c < mse_next_sequence m)"

definition loaded_from :: "media_db \<Rightarrow> consumer_cursor_record \<Rightarrow> bool" where
  "loaded_from db r \<longleftrightarrow> cursor_bounded (mdb_sessions db) r \<and> (\<exists>x \<in> set (mdb_cursors db). cu_id x = cu_id r
     \<and> cu_media_session_id x = cu_media_session_id r \<and> cu_consumer_id x = cu_consumer_id r)"

lemma cursors_ok_bounded:
  "cursors_ok ms cs \<longleftrightarrow> distinct (map cu_id cs) \<and> distinct (map (\<lambda>c. (cu_media_session_id c, cu_consumer_id c)) cs)
     \<and> (\<forall>c \<in> set cs. cursor_bounded ms c)"
  by (simp add: cursors_ok_def cursor_bounded_def)

lemma distinct_map_same: "distinct (map f xs) \<Longrightarrow> x \<in> set xs \<Longrightarrow> y \<in> set xs \<Longrightarrow> f x = f y \<Longrightarrow> x = y"
  by (simp add: distinct_map inj_on_def)

text \<open>A flush writes only columns of values in the bounds, so it keeps the table in bounds.\<close>

lemma flush_cursor_step:
  assumes inv: "media_inv db" and r: "loaded_from db r"
    and c: "cursor_bounded (mdb_sessions db) c" "cu_id c = cu_id r" "cu_media_session_id c = cu_media_session_id r"
  shows "media_inv (flush_cursor r c db) \<and> media_grows db (flush_cursor r c db)"
proof -
  define f where "f = (\<lambda>x :: consumer_cursor_record. x\<lparr>cu_last_delivered_sequence :=
                (if cu_last_delivered_sequence c \<noteq> cu_last_delivered_sequence r
                 then cu_last_delivered_sequence c else cu_last_delivered_sequence x),
              cu_last_acknowledged_sequence :=
                (if cu_last_acknowledged_sequence c \<noteq> cu_last_acknowledged_sequence r
                 then cu_last_acknowledged_sequence c else cu_last_acknowledged_sequence x),
              cu_updated_at := (if cu_updated_at c \<noteq> cu_updated_at r then cu_updated_at c else cu_updated_at x)\<rparr>)"
  define g where "g = (\<lambda>x. if cu_id x = cu_id r then f x else x)"
  have cs': "mdb_cursors (flush_cursor r c db) = map g (mdb_cursors db)"
    by (simp add: flush_cursor_def update_rows_def g_def f_def)
  have ok: "cursors_ok (mdb_sessions db) (mdb_cursors db)" using inv by (simp add: media_inv_def)
  have key: "cu_id (g x) = cu_id x" "cu_media_session_id (g x) = cu_media_session_id x" "cu_consumer_id (g x) = cu_consumer_id x" for x
    by (simp_all add: g_def f_def)
  have dist: "distinct (map mse_id (mdb_sessions db))" using inv by (simp add: media_inv_def log_ok_def)
  have bounded: "cursor_bounded (mdb_sessions db) (g x)" if x: "x \<in> set (mdb_cursors db)" for x
  proof (cases "cu_id x = cu_id r")
    case True
    have bx: "cursor_bounded (mdb_sessions db) x" using ok x by (simp add: cursors_ok_bounded)
    obtain y where y: "y \<in> set (mdb_cursors db)" "cu_id y = cu_id r" "cu_media_session_id y = cu_media_session_id r"
      using r by (auto simp: loaded_from_def)
    have ids: "distinct (map cu_id (mdb_cursors db))" using ok by (simp add: cursors_ok_def)
    have "x = y" by (rule distinct_map_same [OF ids x y(1)]) (simp add: True y(2))
    then have xm: "cu_media_session_id x = cu_media_session_id c" using y(3) c(3) by simp
    obtain m where m: "m \<in> set (mdb_sessions db)" "mse_id m = cu_media_session_id x"
      "cu_last_delivered_sequence x < mse_next_sequence m" "cu_last_acknowledged_sequence x < mse_next_sequence m"
      using bx by (auto simp: cursor_bounded_def)
    obtain n where n: "n \<in> set (mdb_sessions db)" "mse_id n = cu_media_session_id c"
      "cu_last_delivered_sequence c < mse_next_sequence n" "cu_last_acknowledged_sequence c < mse_next_sequence n"
      using c(1) by (auto simp: cursor_bounded_def)
    have "n = m" by (rule distinct_map_same [OF dist n(1) m(1)]) (simp add: n(2) m(2) xm)
    have "g x = f x" by (simp add: g_def True)
    moreover have "cu_last_delivered_sequence (f x) \<in> {cu_last_delivered_sequence c, cu_last_delivered_sequence x}"
      "cu_last_acknowledged_sequence (f x) \<in> {cu_last_acknowledged_sequence c, cu_last_acknowledged_sequence x}"
      by (simp_all add: f_def)
    moreover have "0 \<le> cu_last_delivered_sequence c" "0 \<le> cu_last_delivered_sequence x"
      "0 \<le> cu_last_acknowledged_sequence c" "0 \<le> cu_last_acknowledged_sequence x"
      using bx c(1) by (simp_all add: cursor_bounded_def)
    ultimately have "0 \<le> cu_last_acknowledged_sequence (g x)" "0 \<le> cu_last_delivered_sequence (g x)"
      "cu_last_delivered_sequence (g x) < mse_next_sequence m" "cu_last_acknowledged_sequence (g x) < mse_next_sequence m"
      using m(3,4) n(3,4) \<open>n = m\<close> by auto
    moreover have "mse_id m = cu_media_session_id (g x)" using m(2) key(2) by simp
    ultimately show ?thesis using m(1) by (auto simp: cursor_bounded_def)
  next
    case False
    then show ?thesis using ok x by (simp add: g_def cursors_ok_bounded)
  qed
  have keys: "map cu_id (map g (mdb_cursors db)) = map cu_id (mdb_cursors db)"
    "map (\<lambda>c. (cu_media_session_id c, cu_consumer_id c)) (map g (mdb_cursors db))
      = map (\<lambda>c. (cu_media_session_id c, cu_consumer_id c)) (mdb_cursors db)"
    using key by simp_all
  have "cursors_ok (mdb_sessions db) (map g (mdb_cursors db))"
    using ok bounded unfolding cursors_ok_bounded keys by simp
  moreover have "cursors_stay (mdb_cursors db) (map g (mdb_cursors db))"
    unfolding cursors_stay_def using key by auto
  ultimately show ?thesis
    using inv by (simp add: media_inv_def media_grows_def cs') (simp add: flush_cursor_def)
qed

lemma loaded_earlier:
  assumes "media_inv db" "earlier s db" "r \<in> set (mdb_cursors s)"
  shows "loaded_from db r"
proof -
  have "cursors_ok (mdb_sessions db) (mdb_cursors s)"
    using assms(2) cursors_ok_grow by (auto simp: earlier_def media_inv_def media_grows_def)
  with assms(3) have "cursor_bounded (mdb_sessions db) r" by (simp add: cursors_ok_bounded)
  moreover have "\<exists>x \<in> set (mdb_cursors db). cu_id x = cu_id r
     \<and> cu_media_session_id x = cu_media_session_id r \<and> cu_consumer_id x = cu_consumer_id r"
    using assms(2,3) by (simp add: earlier_def media_grows_def cursors_stay_def)
  ultimately show ?thesis by (simp add: loaded_from_def)
qed

lemma loaded_present: "media_inv db \<Longrightarrow> r \<in> set (mdb_cursors db) \<Longrightarrow> loaded_from db r"
  by (rule loaded_earlier) (simp_all add: earlier_def)

lemma cursor_cases:
  assumes "get_or_create_cursor m c new_id now seen db = Inr (db', r)"
  obtains (found) "db' = db" "find_row (cursor_of m c) seen = Some r"
    | (raced) "db' = db" "find_row (cursor_of m c) seen = None" "find_row (cursor_of m c) (mdb_cursors db) = Some r"
    | (created) "db' = db\<lparr>mdb_cursors := mdb_cursors db @ [r]\<rparr>" "cu_id r \<notin> cu_id ` set (mdb_cursors db)"
        "\<not> list_ex (cursor_of m c) (mdb_cursors db)" "cursor_of m c r" "cu_last_delivered_sequence r = 0"
        "cu_last_acknowledged_sequence r = 0" "get_media_session m db \<noteq> None"
  using assms by (auto simp: get_or_create_cursor_def Let_def split: option.splits if_splits)

lemma cursor_step:
  assumes "media_inv db" "earlier s db" "get_or_create_cursor m c new_id now (mdb_cursors s) db = Inr (db', r)"
  shows "media_inv db' \<and> media_grows db db' \<and> mdb_sessions db' = mdb_sessions db \<and> mdb_events db' = mdb_events db
    \<and> loaded_from db' r \<and> cursor_of m c r"
  using assms(3)
proof (cases rule: cursor_cases)
  case found
  then have "r \<in> set (mdb_cursors s)" "cursor_of m c r" by (auto dest: find_row_Some)
  then show ?thesis using found loaded_earlier [OF assms(1,2)] assms(1) by simp
next
  case raced
  then have "r \<in> set (mdb_cursors db)" "cursor_of m c r" by (auto dest: find_row_Some)
  then show ?thesis using raced loaded_present [OF assms(1)] assms(1) by simp
next
  case created
  then obtain n where n: "n \<in> set (mdb_sessions db)" "mse_id n = m" by (auto dest: find_row_Some)
  then have "0 < mse_next_sequence n" using assms(1) by (auto simp: media_inv_def log_ok_def)
  with n have "\<exists>n \<in> set (mdb_sessions db). mse_id n = m \<and> 0 < mse_next_sequence n" by blast
  then have new: "cursor_bounded (mdb_sessions db) r" using created(4-6) by (auto simp: cursor_bounded_def)
  have "(m, c) \<notin> (\<lambda>c. (cu_media_session_id c, cu_consumer_id c)) ` set (mdb_cursors db)"
    using created(3) by (auto simp: list_ex_iff)
  then have "cursors_ok (mdb_sessions db) (mdb_cursors db @ [r])"
    using assms(1) created(2,4) new by (simp add: media_inv_def cursors_ok_bounded)
  moreover have "cursors_stay (mdb_cursors db) (mdb_cursors db @ [r])" by (auto simp: cursors_stay_def)
  ultimately show ?thesis
    using assms(1) created(4) new by (simp add: created(1) media_inv_def media_grows_def loaded_from_def)
qed

text \<open>The page read from an earlier state, and what a read does with the cursor.\<close>

lemma list_events_cases:
  assumes "list_events_after m after_sequence limit consumer new_id now evs seen db = Inr (db', rows)"
  obtains (unchanged) "db' = db"
    | (delivered) c db1 r where "consumer = Some c" "get_or_create_cursor m c new_id now seen db = Inr (db1, r)"
        "rows \<noteq> []" "last rows \<in> set evs" "mer_media_session_id (last rows) = m"
        "db' = flush_cursor r (r\<lparr>cu_last_delivered_sequence :=
           max (cu_last_delivered_sequence r) (mer_sequence (last rows)), cu_updated_at := now\<rparr>) db1"
proof -
  define page where "page = take (nat limit) (sort_key mer_sequence
     (filter (\<lambda>e. mer_media_session_id e = m \<and> mer_sequence e > after_sequence) evs))"
  have result: "(case consumer of None \<Rightarrow> Inr (db, page)
     | Some c \<Rightarrow> if page = [] then Inr (db, page)
         else rbind (get_or_create_cursor m c new_id now seen db) (\<lambda>(db, cursor).
           Inr (flush_cursor cursor (cursor\<lparr>cu_last_delivered_sequence :=
             max (cu_last_delivered_sequence cursor) (mer_sequence (last page)), cu_updated_at := now\<rparr>) db, page))) = Inr (db', rows)"
  proof -
    have "\<not> after_sequence < 0" "\<not> (limit < 1 \<or> limit > 1000)"
      using assms by (auto simp: list_events_after_def split: if_splits)
    then show ?thesis using assms unfolding list_events_after_def Let_def page_def by (simp only: if_False)
  qed
  show thesis
  proof (cases "consumer = None \<or> page = []")
    case True
    then have "db' = db" using result by (cases consumer) simp_all
    then show thesis by (rule unchanged)
  next
    case False
    then obtain c where c: "consumer = Some c" "page \<noteq> []" by auto
    then obtain db1 r where r: "get_or_create_cursor m c new_id now seen db = Inr (db1, r)" "rows = page"
        "db' = flush_cursor r (r\<lparr>cu_last_delivered_sequence :=
           max (cu_last_delivered_sequence r) (mer_sequence (last page)), cu_updated_at := now\<rparr>) db1"
      using result by (auto simp: rbind_eq_Inr)
    have "last page \<in> set page" using c(2) by (rule last_in_set)
    then have "last page \<in> set (sort_key mer_sequence
        (filter (\<lambda>e. mer_media_session_id e = m \<and> mer_sequence e > after_sequence) evs))"
      unfolding page_def by (rule in_set_takeD)
    with c r show thesis by (intro delivered) simp_all
  qed
qed

lemma list_events_step:
  assumes "media_inv db" "earlier t db" "earlier s db"
    and "list_events_after m after_sequence limit consumer new_id now (mdb_events t) (mdb_cursors s) db = Inr (db', rows)"
  shows "media_inv db' \<and> media_grows db db'"
  using assms(4)
proof (cases rule: list_events_cases)
  case (delivered c db1 r)
  have db1: "media_inv db1" "media_grows db db1" "mdb_events db1 = mdb_events db" "loaded_from db1 r" "cursor_of m c r"
    using cursor_step [OF assms(1,3) delivered(2)] by auto
  have "last rows \<in> set (mdb_events db1)"
    using delivered(4) assms(2) by (auto simp: db1(3) earlier_def media_grows_def events_grow_def)
  then obtain n where n: "n \<in> set (mdb_sessions db1)" "mse_id n = m" "mer_sequence (last rows) < mse_next_sequence n"
    using event_sequence [OF db1(1)] delivered(5) by blast
  have br: "cursor_bounded (mdb_sessions db1) r" using db1(4) by (simp add: loaded_from_def)
  then obtain n' where n': "n' \<in> set (mdb_sessions db1)" "mse_id n' = m" "cu_last_delivered_sequence r < mse_next_sequence n'"
    "cu_last_acknowledged_sequence r < mse_next_sequence n'" using db1(5) by (auto simp: cursor_bounded_def)
  have "distinct (map mse_id (mdb_sessions db1))" using db1(1) by (simp add: media_inv_def log_ok_def)
  then have "n' = n" using n(1,2) n'(1,2) by (metis distinct_map inj_onD)
  then have "cursor_bounded (mdb_sessions db1) (r\<lparr>cu_last_delivered_sequence :=
      max (cu_last_delivered_sequence r) (mer_sequence (last rows)), cu_updated_at := now\<rparr>)"
    using br n n' db1(5) unfolding cursor_bounded_def by (intro conjI bexI [OF _ n(1)]) auto
  then have "media_inv db' \<and> media_grows db1 db'"
    unfolding delivered(6) by (intro flush_cursor_step [OF db1(1,4)]) simp_all
  then show ?thesis using media_grows_trans [OF db1(2)] by blast
qed (use assms(1) in simp)

lemma acknowledge_cases:
  assumes "acknowledge_cursor m c q new_id now seen db = Inr (db', r)"
  obtains (unchanged) db1 x where "get_or_create_cursor m c new_id now seen db = Inr (db1, x)" "db' = db1"
    | (acknowledged) db1 x where "get_or_create_cursor m c new_id now seen db = Inr (db1, x)"
        "0 \<le> q" "q \<le> cu_last_delivered_sequence x" "cu_last_acknowledged_sequence x < q"
        "db' = flush_cursor x (x\<lparr>cu_last_acknowledged_sequence := q, cu_updated_at := now\<rparr>) db1"
  using assms by (auto simp: acknowledge_cursor_def Let_def rbind_eq_Inr not_less split: if_splits)

lemma acknowledge_step:
  assumes "media_inv db" "earlier s db" "acknowledge_cursor m c q new_id now (mdb_cursors s) db = Inr (db', r)"
  shows "media_inv db' \<and> media_grows db db'"
  using assms(3)
proof (cases rule: acknowledge_cases)
  case (unchanged db1 x)
  then show ?thesis using cursor_step [OF assms(1,2)] by blast
next
  case (acknowledged db1 x)
  have db1: "media_inv db1" "media_grows db db1" "loaded_from db1 x"
    using cursor_step [OF assms(1,2) acknowledged(1)] by auto
  then have "cursor_bounded (mdb_sessions db1) (x\<lparr>cu_last_acknowledged_sequence := q, cu_updated_at := now\<rparr>)"
    using acknowledged(2,3) by (auto simp: loaded_from_def cursor_bounded_def)
  then have "media_inv db' \<and> media_grows db1 db'"
    unfolding acknowledged(5) by (intro flush_cursor_step [OF db1(1,3)]) simp_all
  then show ?thesis using media_grows_trans [OF db1(2)] by blast
qed

lemma advance_step:
  assumes "offsets_ok (mdb_offsets db)" "advance_bridge_offset m source q at_time new_id db = Inr (db', r)"
  shows "\<exists>os. db' = db\<lparr>mdb_offsets := os\<rparr> \<and> offsets_ok os \<and> offsets_grow (mdb_offsets db) os \<and> r \<in> set os
    \<and> bo_media_session_id r = m \<and> offset_source r = source \<and> q \<le> bo_processed_revision r
    \<and> (\<forall>x \<in> set os. x \<in> set (mdb_offsets db) \<or> x = r \<and> bo_processed_revision r = q)"
proof -
  have q: "1 \<le> q" using assms(2) by (auto simp: advance_bridge_offset_def split: if_splits)
  show ?thesis
  proof (cases "get_bridge_offset m source db")
    case None
    then have fresh: "(m, source) \<notin> (\<lambda>r. (bo_media_session_id r, offset_source r)) ` set (mdb_offsets db)"
      by (auto simp: get_bridge_offset_def find_row_None)
    have r: "db' = db\<lparr>mdb_offsets := mdb_offsets db @ [r]\<rparr>" "bo_id r \<notin> bo_id ` set (mdb_offsets db)"
        "bo_media_session_id r = m" "offset_source r = source" "bo_processed_revision r = q"
      using assms(2) q None by (auto simp: advance_bridge_offset_def Let_def split: if_splits)
    have "offsets_ok (mdb_offsets db @ [r])" using assms(1) r q fresh by (simp add: offsets_ok_def)
    moreover have "offsets_grow (mdb_offsets db) (mdb_offsets db @ [r])" by (auto simp: offsets_grow_def)
    ultimately show ?thesis using r by (intro exI [of _ "mdb_offsets db @ [r]"]) auto
  next
    case (Some x)
    have x: "x \<in> set (mdb_offsets db)" "bo_media_session_id x = m" "offset_source x = source"
      using find_row_Some [OF Some [unfolded get_bridge_offset_def]] by auto
    show ?thesis
    proof (cases "q > bo_processed_revision x")
      case False
      then have "db' = db" "r = x" using assms(2) q Some by (auto simp: advance_bridge_offset_def)
      then show ?thesis using False assms(1) x by (intro exI [of _ "mdb_offsets db"]) auto
    next
      case True
      define g where "g = (\<lambda>y. if bo_id y = bo_id x then r else y)"
      have r: "r = x\<lparr>bo_processed_revision := q, bo_processed_at := at_time\<rparr>" "db' = db\<lparr>mdb_offsets := map g (mdb_offsets db)\<rparr>"
        using assms(2) q Some True by (auto simp: advance_bridge_offset_def Let_def update_rows_def g_def)
      have same: "y = x" if "y \<in> set (mdb_offsets db)" "bo_id y = bo_id x" for y
        using assms(1) x(1) that by (auto simp: offsets_ok_def distinct_map dest: inj_onD)
      have g: "bo_id (g y) = bo_id y \<and> bo_media_session_id (g y) = bo_media_session_id y \<and> offset_source (g y) = offset_source y
          \<and> bo_processed_revision y \<le> bo_processed_revision (g y) \<and> (g y = y \<or> g y = r)" if "y \<in> set (mdb_offsets db)" for y
        using same [OF that] True by (auto simp: g_def r(1))
      have keys: "map bo_id (map g (mdb_offsets db)) = map bo_id (mdb_offsets db)"
        "map (\<lambda>r. (bo_media_session_id r, offset_source r)) (map g (mdb_offsets db))
          = map (\<lambda>r. (bo_media_session_id r, offset_source r)) (mdb_offsets db)"
        using g by auto
      have "\<forall>y \<in> set (map g (mdb_offsets db)). 1 \<le> bo_processed_revision y"
        unfolding set_map ball_simps using g assms(1) by (meson offsets_ok_def order_trans)
      then have "offsets_ok (map g (mdb_offsets db))" using assms(1) unfolding offsets_ok_def keys by blast
      moreover have "offsets_grow (mdb_offsets db) (map g (mdb_offsets db))"
        unfolding offsets_grow_def using g by fastforce
      moreover have "r \<in> set (map g (mdb_offsets db))" using x(1) by (auto simp: g_def image_iff)
      moreover have "\<forall>y \<in> set (map g (mdb_offsets db)). y \<in> set (mdb_offsets db) \<or> y = r \<and> bo_processed_revision r = q"
        using g by (force simp: r(1))
      ultimately show ?thesis using x r by (intro exI [of _ "map g (mdb_offsets db)"]) auto
    qed
  qed
qed

subsection \<open>The log under all histories\<close>

definition history_ok :: "media_db \<times> media_db list \<Rightarrow> bool" where
  "history_ok st \<longleftrightarrow> media_inv (fst st) \<and> (\<forall>s \<in> set (snd st). earlier s (fst st))"

lemma answered_earlier: "history_ok (db, snaps) \<Longrightarrow> earlier (answered snaps db k) db"
  by (simp add: history_ok_def answered_def earlier_def)

lemma keep_step:
  assumes "media_inv db" "\<And>db' x. r = Inr (db', x) \<Longrightarrow> media_inv db' \<and> media_grows db db'"
  shows "media_inv (keep db r) \<and> media_grows db (keep db r)"
  using assms by (cases r) (auto split: prod.splits)

lemma media_step_ok:
  assumes "history_ok (db, snaps)"
  shows "media_inv (fst (media_step repr op (db, snaps))) \<and> media_grows db (fst (media_step repr op (db, snaps)))"
proof -
  have inv: "media_inv db" using assms by (simp add: history_ok_def)
  note keep = keep_step [OF inv]
  show ?thesis
  proof (cases op)
    case (Bridge sessions s mode owner new_id now k)
    show ?thesis unfolding Bridge media_step.simps fst_conv by (rule keep) (rule bridge_step [OF inv])
  next
    case (Append a now x y z k)
    show ?thesis
      unfolding Append media_step.simps Let_def fst_conv
    proof (rule keep, rule append_media_step [OF inv], assumption)
      fix db' e
      let ?v = "\<lambda>d :: string \<times> nat. (fst d, get_media_session (ea_media_session_id a) (answered snaps db (snd d)))"
      show "\<forall>d \<in> {?v x, ?v y, ?v z}. \<exists>s. earlier s db \<and> snd d = get_media_session (ea_media_session_id a) s"
        using answered_earlier [OF assms] by auto
    qed
  next
    case (Read m after_sequence limit consumer new_id now j k)
    show ?thesis unfolding Read media_step.simps fst_conv
      by (rule keep) (rule list_events_step [OF inv answered_earlier [OF assms] answered_earlier [OF assms]])
  next
    case (Cursor m c new_id now k)
    show ?thesis unfolding Cursor media_step.simps fst_conv by (rule keep) (use cursor_step [OF inv answered_earlier [OF assms]] in blast)
  next
    case (Acknowledge m c q new_id now k)
    show ?thesis unfolding Acknowledge media_step.simps fst_conv
      by (rule keep) (rule acknowledge_step [OF inv answered_earlier [OF assms]])
  next
    case (Advance m source q at_time new_id)
    show ?thesis
      unfolding Advance media_step.simps fst_conv
    proof (rule keep)
      fix db' r
      assume "advance_bridge_offset m source q at_time new_id db = Inr (db', r)"
      moreover have "offsets_ok (mdb_offsets db)" using inv by (simp add: media_inv_def)
      ultimately obtain os where "db' = db\<lparr>mdb_offsets := os\<rparr>" "offsets_ok os" "offsets_grow (mdb_offsets db) os"
        using advance_step by blast
      then show "media_inv db' \<and> media_grows db db'" using inv by (simp add: media_inv_def media_grows_def)
    qed
  qed (use inv in simp)
qed

lemma media_step_history: "history_ok st \<Longrightarrow> history_ok (media_step repr op st) \<and> media_grows (fst st) (fst (media_step repr op st))"
proof -
  assume ok: "history_ok st"
  obtain db snaps where st: "st = (db, snaps)" by (cases st)
  note step = media_step_ok [OF ok [unfolded st], of repr op]
  have "set (snd (media_step repr op (db, snaps))) \<subseteq> insert db (set snaps)" by (cases op) (auto simp: Let_def)
  then have "earlier s (fst (media_step repr op (db, snaps)))" if "s \<in> set (snd (media_step repr op (db, snaps)))" for s
    using that ok step media_grows_trans unfolding st history_ok_def earlier_def by fastforce
  with step show ?thesis by (simp add: st history_ok_def)
qed

lemma media_run_history: "history_ok st \<Longrightarrow> history_ok (media_run repr ops st) \<and> media_grows (fst st) (fst (media_run repr ops st))"
proof (induction ops arbitrary: st)
  case (Cons op ops)
  then show ?case
    using media_step_history [OF Cons.prems, of repr op] media_grows_trans by (simp add: media_run_def) blast
qed (simp add: media_run_def)

lemma empty_history: "history_ok (empty_media_db, [])"
  by (simp add: history_ok_def media_inv_def empty_media_db_def log_ok_def cursors_ok_def offsets_ok_def)

lemma distinct_source_keys:
  assumes "distinct (map mer_id es)" "\<forall>x \<in> set es. \<forall>y \<in> set es. source_key x \<noteq> None \<longrightarrow> source_key x = source_key y \<longrightarrow> x = y"
  shows "distinct (List.map_filter source_key es)"
  using assms
proof (induction es)
  case (Cons e es)
  have "source_key x \<noteq> source_key e" if "x \<in> set es" "source_key e \<noteq> None" for x
    using Cons.prems that by (metis distinct.simps(2) image_eqI list.set_intros list.set_map list.simps(9))
  then have "the (source_key e) \<notin> set (List.map_filter source_key es)" if "source_key e \<noteq> None"
    using that by (force simp: map_filter_def)
  moreover have "distinct (List.map_filter source_key es)" by (rule Cons.IH) (use Cons.prems in auto)
  ultimately show ?case by (auto simp: map_filter_simps split: option.splits)
qed (simp add: map_filter_simps)

subsection \<open>Cursors that are read fresh\<close>

text \<open>
  A call reads its cursor fresh when its \<open>select\<close> finds the row as it is now, or finds none (then the
  row is inserted, or selected again when the insert runs into the unique constraint).
\<close>

fun fresh_read :: "media_op \<Rightarrow> media_db \<times> media_db list \<Rightarrow> bool" where
  "fresh_read (Read m after_sequence limit (Some c) new_id now j k) (db, snaps) \<longleftrightarrow>
     find_row (cursor_of m c) (mdb_cursors (answered snaps db k)) \<in> {None, find_row (cursor_of m c) (mdb_cursors db)}"
| "fresh_read (Acknowledge m c sequence new_id now k) (db, snaps) \<longleftrightarrow>
     find_row (cursor_of m c) (mdb_cursors (answered snaps db k)) \<in> {None, find_row (cursor_of m c) (mdb_cursors db)}"
| "fresh_read _ _ \<longleftrightarrow> True"

fun fresh_run :: "(rat \<Rightarrow> string) \<Rightarrow> media_op list \<Rightarrow> media_db \<times> media_db list \<Rightarrow> bool" where
  "fresh_run repr [] st \<longleftrightarrow> True"
| "fresh_run repr (op # ops) st \<longleftrightarrow> fresh_read op st \<and> fresh_run repr ops (media_step repr op st)"

definition cursors_ordered :: "consumer_cursor_record list \<Rightarrow> bool" where
  "cursors_ordered cs \<longleftrightarrow> (\<forall>c \<in> set cs. cu_last_acknowledged_sequence c \<le> cu_last_delivered_sequence c)"

definition cursors_advance :: "consumer_cursor_record list \<Rightarrow> consumer_cursor_record list \<Rightarrow> bool" where
  "cursors_advance cs cs' \<longleftrightarrow> cursors_grow cs cs' \<and> (cursors_ordered cs \<longrightarrow> cursors_ordered cs')"

lemma cursors_advance_refl [simp, intro]: "cursors_advance cs cs"
  by (simp add: cursors_advance_def)

lemma cursors_advance_trans: "cursors_advance a b \<Longrightarrow> cursors_advance b c \<Longrightarrow> cursors_advance a c"
  unfolding cursors_advance_def using grow_trans(4) by blast

lemma flush_fresh:
  assumes ok: "cursors_ok ms (mdb_cursors db)" and r: "r \<in> set (mdb_cursors db)"
    and c: "cu_last_delivered_sequence r \<le> cu_last_delivered_sequence c"
      "cu_last_acknowledged_sequence r \<le> cu_last_acknowledged_sequence c"
      "cu_last_acknowledged_sequence r \<le> cu_last_delivered_sequence r
         \<Longrightarrow> cu_last_acknowledged_sequence c \<le> cu_last_delivered_sequence c"
  shows "cursors_advance (mdb_cursors db) (mdb_cursors (flush_cursor r c db))"
proof -
  define f where "f = (\<lambda>x :: consumer_cursor_record. x\<lparr>cu_last_delivered_sequence :=
                (if cu_last_delivered_sequence c \<noteq> cu_last_delivered_sequence r
                 then cu_last_delivered_sequence c else cu_last_delivered_sequence x),
              cu_last_acknowledged_sequence :=
                (if cu_last_acknowledged_sequence c \<noteq> cu_last_acknowledged_sequence r
                 then cu_last_acknowledged_sequence c else cu_last_acknowledged_sequence x),
              cu_updated_at := (if cu_updated_at c \<noteq> cu_updated_at r then cu_updated_at c else cu_updated_at x)\<rparr>)"
  define g where "g = (\<lambda>x. if cu_id x = cu_id r then f x else x)"
  have cs': "mdb_cursors (flush_cursor r c db) = map g (mdb_cursors db)"
    by (simp add: flush_cursor_def update_rows_def g_def f_def)
  have same: "x = r" if "x \<in> set (mdb_cursors db)" "cu_id x = cu_id r" for x
    by (rule distinct_map_same [OF _ that(1) r that(2)]) (use ok in \<open>simp add: cursors_ok_def\<close>)
  have g: "cu_id (g x) = cu_id x \<and> cu_media_session_id (g x) = cu_media_session_id x \<and> cu_consumer_id (g x) = cu_consumer_id x
      \<and> cu_last_delivered_sequence x \<le> cu_last_delivered_sequence (g x)
      \<and> cu_last_acknowledged_sequence x \<le> cu_last_acknowledged_sequence (g x)
      \<and> (cu_last_acknowledged_sequence x \<le> cu_last_delivered_sequence x
         \<longrightarrow> cu_last_acknowledged_sequence (g x) \<le> cu_last_delivered_sequence (g x))" if x: "x \<in> set (mdb_cursors db)" for x
    using same [OF x] c by (auto simp: g_def f_def)
  then show ?thesis
    unfolding cs' cursors_advance_def cursors_grow_def cursors_ordered_def by fastforce
qed

lemma cursor_fresh:
  assumes "get_or_create_cursor m c new_id now seen db = Inr (db', r)"
    and "find_row (cursor_of m c) seen \<in> {None, find_row (cursor_of m c) (mdb_cursors db)}"
  shows "cursors_advance (mdb_cursors db) (mdb_cursors db') \<and> r \<in> set (mdb_cursors db')"
  using assms(1)
proof (cases rule: cursor_cases)
  case created
  have "cursors_grow (mdb_cursors db) (mdb_cursors db @ [r])" by (auto simp: cursors_grow_def)
  then show ?thesis using created by (auto simp: cursors_advance_def cursors_ordered_def)
next
  case found
  then have "find_row (cursor_of m c) (mdb_cursors db) = Some r" using assms(2) by auto
  from find_row_Some [OF this] show ?thesis using found(1) by simp
next
  case raced
  from find_row_Some [OF raced(3)] show ?thesis using raced(1) by simp
qed

lemma cursor_created:
  assumes "get_or_create_cursor m c new_id now seen db = Inr (db', r)"
  shows "cursors_advance (mdb_cursors db) (mdb_cursors db')"
  using assms
proof (cases rule: cursor_cases)
  case created
  have "cursors_grow (mdb_cursors db) (mdb_cursors db @ [r])" by (auto simp: cursors_grow_def)
  then show ?thesis using created by (auto simp: cursors_advance_def cursors_ordered_def)
qed auto

lemma append_keeps_cursors:
  assumes "append_media_event repr a now (x, y, z) seen db = Inr (db', e)"
  shows "mdb_cursors db' = mdb_cursors db"
proof -
  have one: "mdb_cursors d' = mdb_cursors d" if "append_attempt repr a i now v d = Inr (d', e)" for i v d d' e
    using that by (auto simp: append_attempt_def rbind_eq_Inr split: option.splits)
  have "mdb_cursors d' = mdb_cursors d" if "append_attempts repr a now xs d = Inr (d', e)" for xs d d' e
    using that
  proof (induction xs)
    case (Cons v xs)
    then show ?case by (cases v) (auto split: sum.splits if_splits option.splits intro: one)
  qed simp
  with assms show ?thesis
    by (auto simp: append_media_event_def simp del: append_attempts.simps split: option.splits)
qed

lemma fresh_step:
  assumes ok: "history_ok (db, snaps)" and fresh: "fresh_read op (db, snaps)"
  shows "cursors_advance (mdb_cursors db) (mdb_cursors (fst (media_step repr op (db, snaps))))"
proof -
  have inv: "media_inv db" using ok by (simp add: history_ok_def)
  have keep: "cursors_advance (mdb_cursors db) (mdb_cursors (keep db r))"
    if "\<And>db' x. r = Inr (db', x) \<Longrightarrow> cursors_advance (mdb_cursors db) (mdb_cursors db')" for r :: "(media_db \<times> 'x) res"
    using that by (cases r) (auto split: prod.splits)
  show ?thesis
  proof (cases op)
    case (Bridge sessions s mode owner new_id now k)
    show ?thesis unfolding Bridge media_step.simps fst_conv
      by (rule keep) (auto simp: ensure_legacy_session_bridge_def Let_def split: option.splits if_splits)
  next
    case (Append a now x y z k)
    show ?thesis unfolding Append media_step.simps Let_def fst_conv
      by (rule keep) (simp add: append_keeps_cursors)
  next
    case (Cursor m c new_id now k)
    show ?thesis unfolding Cursor media_step.simps fst_conv by (rule keep) (rule cursor_created)
  next
    case (Read m after_sequence limit consumer new_id now j k)
    show ?thesis unfolding Read media_step.simps fst_conv
    proof (rule keep)
      fix db' rows
      assume step: "list_events_after m after_sequence limit consumer new_id now (mdb_events (answered snaps db j))
          (mdb_cursors (answered snaps db k)) db = Inr (db', rows)"
      then show "cursors_advance (mdb_cursors db) (mdb_cursors db')"
      proof (cases rule: list_events_cases)
        case (delivered c db1 r)
        have row: "cursors_advance (mdb_cursors db) (mdb_cursors db1)" "r \<in> set (mdb_cursors db1)"
          using cursor_fresh [OF delivered(2)] fresh delivered(1) unfolding Read by auto
        have "cursors_ok (mdb_sessions db1) (mdb_cursors db1)"
          using cursor_step [OF inv answered_earlier [OF ok] delivered(2)] unfolding media_inv_def by blast
        from flush_fresh [OF this row(2)] have "cursors_advance (mdb_cursors db1) (mdb_cursors db')"
          unfolding delivered(6) by simp
        with row(1) show ?thesis by (rule cursors_advance_trans)
      qed simp
    qed
  next
    case (Acknowledge m c q new_id now k)
    show ?thesis unfolding Acknowledge media_step.simps fst_conv
    proof (rule keep)
      fix db' r
      assume step: "acknowledge_cursor m c q new_id now (mdb_cursors (answered snaps db k)) db = Inr (db', r)"
      then show "cursors_advance (mdb_cursors db) (mdb_cursors db')"
      proof (cases rule: acknowledge_cases)
        case (unchanged db1 x)
        then show ?thesis using cursor_created by blast
      next
        case (acknowledged db1 x)
        have row: "cursors_advance (mdb_cursors db) (mdb_cursors db1)" "x \<in> set (mdb_cursors db1)"
          using cursor_fresh [OF acknowledged(1)] fresh unfolding Acknowledge by auto
        have "cursors_ok (mdb_sessions db1) (mdb_cursors db1)"
          using cursor_step [OF inv answered_earlier [OF ok] acknowledged(1)] unfolding media_inv_def by blast
        from flush_fresh [OF this row(2)] have "cursors_advance (mdb_cursors db1) (mdb_cursors db')"
          unfolding acknowledged(5) using acknowledged(3,4) by simp
        with row(1) show ?thesis by (rule cursors_advance_trans)
      qed
    qed
  next
    case (Advance m source q at_time new_id)
    show ?thesis unfolding Advance media_step.simps fst_conv
      by (rule keep) (auto simp: advance_bridge_offset_def Let_def split: option.splits if_splits)
  qed simp
qed

lemma fresh_run_advances:
  "history_ok st \<Longrightarrow> fresh_run repr ops st \<Longrightarrow>
     cursors_advance (mdb_cursors (fst st)) (mdb_cursors (fst (media_run repr ops st)))"
proof (induction ops arbitrary: st)
  case (Cons op ops)
  obtain db snaps where st: "st = (db, snaps)" by (cases st)
  have "cursors_advance (mdb_cursors (fst st)) (mdb_cursors (fst (media_step repr op st)))"
    using fresh_step [of db snaps op repr] Cons.prems by (simp add: st)
  moreover have "cursors_advance (mdb_cursors (fst (media_step repr op st))) (mdb_cursors (fst (media_run repr (op # ops) st)))"
    using Cons.IH [of "media_step repr op st"] media_step_history [OF Cons.prems(1), of repr op] Cons.prems(2)
    by (simp add: media_run_def)
  ultimately show ?case by (rule cursors_advance_trans)
qed (simp add: media_run_def)

text \<open>
  C39. The event log is reliable. However clients interleave their calls, and however old the rows
  are that their selects return: the events of every media session are numbered 1, 2, 3, ... without
  gaps in the order in which they were appended, no revision of a source is recorded twice, and events
  once appended stay as they are. There is one cursor per media session and consumer, it is never
  removed, and neither of its numbers leaves the range of the numbers given out so far. A cursor is
  read and written without a lock, so a stale read can move it back (lemma
  \<open>stale_read_moves_cursor_back\<close>); as long as the calls find the cursor rows as they are, no cursor
  goes back, and none acknowledges more than was delivered.
\<close>

theorem media_log_reliable:
  "let st = media_run repr before (empty_media_db, []); earlier_db = fst st;
       db = fst (media_run repr (before @ after) (empty_media_db, []))
   in list_all (\<lambda>m. map mer_sequence (events_of (mse_id m) (mdb_events db)) = [1..mse_next_sequence m - 1]) (mdb_sessions db)
     \<and> distinct (List.map_filter source_key (mdb_events db))
     \<and> take (length (mdb_events earlier_db)) (mdb_events db) = mdb_events earlier_db
     \<and> cursors_ok (mdb_sessions db) (mdb_cursors db) \<and> cursors_stay (mdb_cursors earlier_db) (mdb_cursors db)
     \<and> (fresh_run repr after st \<longrightarrow> cursors_grow (mdb_cursors earlier_db) (mdb_cursors db))
     \<and> (fresh_run repr (before @ after) (empty_media_db, []) \<longrightarrow> cursors_ordered (mdb_cursors db))"
proof -
  let ?st = "media_run repr before (empty_media_db, [])"
  let ?db = "fst (media_run repr (before @ after) (empty_media_db, []))"
  have st: "history_ok ?st" using media_run_history [OF empty_history] by blast
  have run: "media_run repr (before @ after) (empty_media_db, []) = media_run repr after ?st" by (simp add: media_run_def)
  have step: "media_inv ?db \<and> media_grows (fst ?st) ?db"
    using media_run_history [OF st, of repr after] unfolding run history_ok_def by blast
  have "fresh_run repr after ?st \<longrightarrow> cursors_grow (mdb_cursors (fst ?st)) (mdb_cursors ?db)"
    using fresh_run_advances [OF st, of repr after] unfolding run cursors_advance_def by blast
  moreover have "fresh_run repr (before @ after) (empty_media_db, []) \<longrightarrow> cursors_ordered (mdb_cursors ?db)"
    using fresh_run_advances [OF empty_history, of repr "before @ after"]
    by (simp add: cursors_advance_def cursors_ordered_def empty_media_db_def)
  moreover have "list_all (\<lambda>m. map mer_sequence (events_of (mse_id m) (mdb_events ?db)) = [1..mse_next_sequence m - 1]) (mdb_sessions ?db)"
    "distinct (List.map_filter source_key (mdb_events ?db))"
    using step distinct_source_keys [of "mdb_events ?db"] by (auto simp: media_inv_def log_ok_def list_all_iff)
  moreover have "take (length (mdb_events (fst ?st))) (mdb_events ?db) = mdb_events (fst ?st)"
    "cursors_ok (mdb_sessions ?db) (mdb_cursors ?db)" "cursors_stay (mdb_cursors (fst ?st)) (mdb_cursors ?db)"
    using step by (auto simp: media_inv_def media_grows_def events_grow_def)
  ultimately show ?thesis by (simp add: Let_def)
qed

subsection \<open>A consumer with two readers\<close>

text \<open>
  A bridged session with two events. One reader loads the cursor of a consumer; another reads both
  events and acknowledges them.
\<close>

definition demo_args :: event_args where
  "demo_args = \<lparr>ea_media_session_id = ''m1'', ea_event_type = ''user.note'', ea_finality = ''final'',
     ea_source = ''user.notes'', ea_payload = [], ea_media_time_ms = None, ea_duration_ms = None, ea_logical_id = None,
     ea_revision = None, ea_created_at = None\<rparr>"

definition demo_logging :: "media_op list" where
  "demo_logging = [Bridge [demo_session] ''s1'' ''live'' None ''m1'' 1 0,
     Append demo_args 5 (''e1'', 0) (''e1'', 0) (''e1'', 0) 0, Append demo_args 5 (''e2'', 0) (''e2'', 0) (''e2'', 0) 0]"

definition demo_reading :: "media_op list" where
  "demo_reading = [Cursor ''m1'' ''c'' ''u1'' 5 0, Snapshot, Read ''m1'' 0 2 (Some ''c'') ''u2'' 6 9 9,
     Acknowledge ''m1'' ''c'' 2 ''u3'' 7 9]"

definition stale_read :: media_op where
  "stale_read = Read ''m1'' 0 1 (Some ''c'') ''u4'' 8 9 0"

abbreviation demo_event_row :: "string \<Rightarrow> int \<Rightarrow> media_event_record" where
  "demo_event_row i n \<equiv> media_event_row (event_contract demo_args i n 5)"

definition demo_log :: media_db where
  "demo_log = \<lparr>mdb_sessions = [\<lparr>mse_id = ''m1'', mse_legacy_session_id = Some ''s1'', mse_mode = ''live'',
      mse_source_kind = ses_source_type demo_session, mse_status = ''active'', mse_owner_scope = None, mse_next_sequence = 3,
      mse_updated_at = 5\<rparr>],
     mdb_events = [demo_event_row ''e1'' 1, demo_event_row ''e2'' 2], mdb_offsets = [], mdb_cursors = []\<rparr>"

abbreviation demo_numbers :: "media_op list \<Rightarrow> (int \<times> int) list" where
  "demo_numbers ops \<equiv> map (\<lambda>c. (cu_last_delivered_sequence c, cu_last_acknowledged_sequence c))
     (mdb_cursors (fst (media_run (\<lambda>q. []) ops (empty_media_db, []))))"

lemma demo_names_ok: "validate_event_type ''user.note''" "validate_source ''user.notes''" "succeeds (validate_payload repr [])"
  by (simp_all add: validate_event_type_def validate_source_def dotted_def lower_identifier_def event_type_char_def
      source_char_def is_lower_def MEDIA_EVENT_FAMILIES_def validate_payload_def validate_bounded_json_def
      MAX_EVENT_PAYLOAD_BYTES_def utf8_def utf8_char_def)

lemma demo_contract_ok:
  "1 \<le> length i \<Longrightarrow> length i \<le> 128 \<Longrightarrow> 1 \<le> n \<Longrightarrow>
     media_event_contract repr (event_contract demo_args i n now) = Inr (event_contract demo_args i n now)"
  using demo_names_ok
  by (simp add: media_event_contract_def media_event_ok_def event_contract_def demo_args_def at_least_def)

lemma demo_append:
  assumes "get_media_session ''m1'' db = Some m" "1 \<le> mse_next_sequence m" "length i = 2"
    and "insert_event (demo_event_row i (mse_next_sequence m)) (mdb_events db) = Inr es"
  shows "media_step repr (Append demo_args 5 (i, 0) (i, 0) (i, 0) 0) (db, []) =
    (db\<lparr>mdb_events := es, mdb_sessions := update_rows (\<lambda>r. mse_id r = ''m1'')
       (\<lambda>r. r\<lparr>mse_next_sequence := mse_next_sequence m + 1, mse_updated_at := 5\<rparr>) (mdb_sessions db)\<rparr>, [])"
proof -
  have a: "ea_media_session_id demo_args = ''m1''" "ea_logical_id demo_args = None" by (simp_all add: demo_args_def)
  show ?thesis
    using assms demo_contract_ok [of i "mse_next_sequence m" repr 5]
    by (simp add: answered_def append_media_event_def find_source_revision_def append_attempt_def a)
qed

lemma demo_logged: "media_run repr demo_logging (empty_media_db, []) = (demo_log, [])"
proof -
  define start :: media_db where "start = \<lparr>mdb_sessions = [\<lparr>mse_id = ''m1'', mse_legacy_session_id = Some ''s1'', mse_mode = ''live'',
      mse_source_kind = ses_source_type demo_session, mse_status = ''active'', mse_owner_scope = None, mse_next_sequence = 1,
      mse_updated_at = 1\<rparr>], mdb_events = [], mdb_offsets = [], mdb_cursors = []\<rparr>"
  have bridge: "media_step repr (Bridge [demo_session] ''s1'' ''live'' None ''m1'' 1 0) (empty_media_db, []) = (start, [])"
    by (simp add: ensure_legacy_session_bridge_def answered_def empty_media_db_def demo_session_columns media_status_def
        status_value.simps start_def Let_def)
  have "mer_id (demo_event_row i n) = i" "mer_media_session_id (demo_event_row i n) = ''m1''"
    "mer_sequence (demo_event_row i n) = n" "source_key (demo_event_row i n) = None" for i n
    by (simp_all add: media_event_row_def event_contract_def demo_args_def source_key_def)
  then show ?thesis
    by (simp add: media_run_def demo_logging_def bridge demo_append insert_event_def start_def update_rows_def del: media_step.simps)
       (simp add: demo_log_def)
qed

definition demo_read :: "int \<Rightarrow> int \<Rightarrow> instant \<Rightarrow> media_db" where
  "demo_read delivered acknowledged now = demo_log\<lparr>mdb_cursors := [\<lparr>cu_id = ''u1'', cu_media_session_id = ''m1'', cu_consumer_id = ''c'',
     cu_last_delivered_sequence = delivered, cu_last_acknowledged_sequence = acknowledged, cu_updated_at = now\<rparr>]\<rparr>"

lemma demo_log_rows:
  "get_media_session ''m1'' demo_log \<noteq> None" "mdb_cursors demo_log = []"
  "map mer_sequence (mdb_events demo_log) = [1, 2]" "\<forall>e \<in> set (mdb_events demo_log). mer_media_session_id e = ''m1''"
  by (simp_all add: demo_log_def media_event_row_def event_contract_def demo_args_def)

lemma demo_steps:
  "media_step repr (Cursor ''m1'' ''c'' ''u1'' 5 0) (demo_log, []) = (demo_read 0 0 5, [])"
  "media_step repr (Read ''m1'' 0 2 (Some ''c'') ''u2'' 6 9 9) (demo_read 0 0 5, [demo_read 0 0 5])
     = (demo_read 2 0 6, [demo_read 0 0 5])"
  "media_step repr (Acknowledge ''m1'' ''c'' 2 ''u3'' 7 9) (demo_read 2 0 6, [demo_read 0 0 5]) = (demo_read 2 2 7, [demo_read 0 0 5])"
  "media_step repr stale_read (demo_read 2 2 7, [demo_read 0 0 5]) = (demo_read 1 2 8, [demo_read 0 0 5])"
  by (simp_all add: demo_read_def demo_log_def answered_def get_or_create_cursor_def list_events_after_def acknowledge_cursor_def
      flush_cursor_def update_rows_def stale_read_def media_event_row_def event_contract_def demo_args_def Let_def)

lemma demo_runs:
  "media_run repr demo_reading (demo_log, []) = (demo_read 2 2 7, [demo_read 0 0 5])"
  "media_run repr (demo_logging @ demo_reading) (empty_media_db, []) = (demo_read 2 2 7, [demo_read 0 0 5])"
  "media_run repr (demo_logging @ demo_reading @ [stale_read]) (empty_media_db, []) = (demo_read 1 2 8, [demo_read 0 0 5])"
proof -
  show 1: "media_run repr demo_reading (demo_log, []) = (demo_read 2 2 7, [demo_read 0 0 5])"
    by (simp add: media_run_def demo_reading_def demo_steps del: media_step.simps(2-7))
  have run: "media_run repr (xs @ ys) st = media_run repr ys (media_run repr xs st)" for xs ys st by (simp add: media_run_def)
  show 2: "media_run repr (demo_logging @ demo_reading) (empty_media_db, []) = (demo_read 2 2 7, [demo_read 0 0 5])"
    by (simp add: run demo_logged 1)
  have "media_run repr [stale_read] (demo_read 2 2 7, [demo_read 0 0 5]) = (demo_read 1 2 8, [demo_read 0 0 5])"
    by (simp add: media_run_def demo_steps del: media_step.simps(2-7))
  then show "media_run repr (demo_logging @ demo_reading @ [stale_read]) (empty_media_db, []) = (demo_read 1 2 8, [demo_read 0 0 5])"
    by (simp add: run demo_logged 1)
qed

text \<open>
  The first reader asks for one event and writes \<open>max(0, 1) = 1\<close> over the 2 that was delivered
  meanwhile: the cursor goes back, behind what was acknowledged.
\<close>

lemma stale_read_moves_cursor_back:
  "demo_numbers (demo_logging @ demo_reading) = [(2, 2)]"
  "demo_numbers (demo_logging @ demo_reading @ [stale_read]) = [(1, 2)]"
  "\<not> fresh_read stale_read (media_run repr (demo_logging @ demo_reading) (empty_media_db, []))"
  by (simp_all add: demo_runs) (simp_all add: demo_read_def stale_read_def answered_def)

theorem media_log_reliable_witness:
  "map mer_sequence (mdb_events (fst (media_run (\<lambda>q. []) (demo_logging @ demo_reading) (empty_media_db, [])))) = [1, 2]
   \<and> demo_numbers (demo_logging @ demo_reading) = [(2, 2)]
   \<and> cursors_ordered (mdb_cursors (fst (media_run (\<lambda>q. []) (demo_logging @ demo_reading) (empty_media_db, []))))
   \<and> cursors_grow (mdb_cursors (fst (media_run (\<lambda>q. []) demo_logging (empty_media_db, []))))
       (mdb_cursors (fst (media_run (\<lambda>q. []) (demo_logging @ demo_reading) (empty_media_db, []))))"
proof -
  have reading: "fresh_run repr demo_reading (demo_log, [])" for repr :: "rat \<Rightarrow> string"
    by (simp add: demo_reading_def demo_steps answered_def del: media_step.simps(2-7))
  have logging: "fresh_run repr (demo_logging @ demo_reading) (empty_media_db, [])" for repr :: "rat \<Rightarrow> string"
  proof -
    have "fresh_run repr (xs @ ys) st \<longleftrightarrow> fresh_run repr xs st \<and> fresh_run repr ys (media_run repr xs st)" for xs ys st
      by (induction xs arbitrary: st) (simp_all add: media_run_def)
    moreover have "fresh_run repr demo_logging (empty_media_db, [])" by (simp add: demo_logging_def)
    ultimately show ?thesis using reading by (simp add: demo_logged)
  qed
  have "map mer_sequence (mdb_events (fst (media_run (\<lambda>q. []) (demo_logging @ demo_reading) (empty_media_db, [])))) = [1, 2]"
    using demo_log_rows(3) by (simp add: demo_runs demo_read_def)
  with media_log_reliable [of "\<lambda>q. []" demo_logging demo_reading] reading logging stale_read_moves_cursor_back(1)
  show ?thesis by (simp only: Let_def demo_logged)
qed

end
