(* ===== verification/Meeting_Plugin.thy ===== *)
theory Meeting_Plugin
  imports Meeting_Repository Segment_Store Media_Repository
begin

section \<open>Admission of meeting analysis\<close>

text \<open>
  Models \<open>assistant/plugin_policy.py\<close> and \<open>assistant/plugin_repository.py\<close> with the scopes and intents of
  \<open>plugins/host_action_contracts.py\<close>: which sessions may be analysed, the epochs that fence off
  results computed under an authority that has been withdrawn, and single-use action intents.
  Of the plugin tables only the columns that the queries read are kept.
\<close>

subsection \<open>Tables\<close>

record plugin_binding_row =
  bi_id :: string
  bi_media_session_id :: string
  bi_package_id :: string
  bi_plugin_id :: string
  bi_plugin_version :: string
  bi_status :: string

record plugin_installation_row =
  in_plugin_id :: string
  in_status :: string
  in_preferred_package_id :: "string option"

record plugin_package_row =
  pg_id :: string
  pg_plugin_id :: string
  pg_version :: string
  pg_signature_status :: string

record plugin_permission_row =
  pr_package_id :: string
  pr_plugin_id :: string
  pr_plugin_version :: string
  pr_permission_name :: string
  pr_status :: string

record runtime_health_row =
  rh_plugin_id :: string
  rh_plugin_version :: string
  rh_status :: string

record plugin_tables =
  pt_media_sessions :: "media_session_record list"
  pt_bindings :: "plugin_binding_row list"
  pt_installations :: "plugin_installation_row list"
  pt_packages :: "plugin_package_row list"
  pt_permissions :: "plugin_permission_row list"
  pt_health :: "runtime_health_row list"

record meeting_session =
  mp_legacy_session_id :: string
  mp_media_session_id :: string
  mp_plugin_id :: string
  mp_plugin_version :: string
  mp_analysis_state :: string
  mp_analysis_epoch :: int
  mp_authority_epoch :: int
  mp_activated_by :: "string option"
  mp_activated_at :: "instant option"
  mp_stopped_reason :: "string option"
  mp_terminal_frontier :: "(string, int) dict option"

definition MEETING_PLUGIN_ID :: string where
  "MEETING_PLUGIN_ID = ''com.matinier.meeting-assistant''"

definition LIVE_SESSION_STATUSES :: "string list" where
  "LIVE_SESSION_STATUSES = [''created'', ''starting'', ''active'', ''running'']"

definition TERMINAL_SESSION_STATUSES :: "string list" where
  "TERMINAL_SESSION_STATUSES = [''completed'', ''cancelled'', ''failed'']"

subsection \<open>Admissions\<close>

record analysis_admission =
  ad_allowed :: bool
  ad_analysis_epoch :: int
  ad_authority_epoch :: int
  ad_state :: string
  ad_terminal_frontier :: "(string, int) dict option"

definition no_admission :: analysis_admission where
  "no_admission = \<lparr>ad_allowed = False, ad_analysis_epoch = -1, ad_authority_epoch = -1, ad_state = ''inactive'', ad_terminal_frontier = None\<rparr>"

definition permits :: "analysis_admission \<Rightarrow> int \<Rightarrow> bool" where
  "permits a epoch \<longleftrightarrow> ad_allowed a \<and> ad_analysis_epoch a = epoch"

definition permits_segment :: "analysis_admission \<Rightarrow> string \<Rightarrow> int \<Rightarrow> bool" where
  "permits_segment a segment_id revision \<longleftrightarrow> ad_allowed a
     \<and> (case ad_terminal_frontier a of None \<Rightarrow> True | Some f \<Rightarrow> dict_get f segment_id = Some revision)"

record meeting_policy =
  po_enabled :: bool
  po_require_runtime_ready :: bool

definition bindings :: "plugin_tables \<Rightarrow> plugin_binding_row list" where
  "bindings t = filter (\<lambda>b. bi_plugin_id b = MEETING_PLUGIN_ID \<and> bi_status b = ''open''
     \<and> list_ex (\<lambda>i. in_preferred_package_id i = Some (bi_package_id b) \<and> in_plugin_id i = MEETING_PLUGIN_ID \<and> in_status i = ''enabled'')
         (pt_installations t)
     \<and> list_ex (\<lambda>p. pg_id p = bi_package_id b \<and> pg_plugin_id p = MEETING_PLUGIN_ID \<and> pg_version p = bi_plugin_version b
         \<and> pg_signature_status p = ''verified'') (pt_packages t)
     \<and> list_ex (\<lambda>p. pr_package_id p = bi_package_id b \<and> pr_plugin_id p = MEETING_PLUGIN_ID \<and> pr_plugin_version p = bi_plugin_version b
         \<and> pr_permission_name p = ''meeting.state.query'' \<and> pr_status p = ''accepted'') (pt_permissions t)) (pt_bindings t)"

definition eligible :: "meeting_policy \<Rightarrow> plugin_tables \<Rightarrow> meeting_session \<Rightarrow> bool" where
  "eligible po t r \<longleftrightarrow> mp_plugin_id r = MEETING_PLUGIN_ID \<and> mp_analysis_state r \<in> {''active'', ''draining''}
     \<and> list_ex (\<lambda>b. bi_media_session_id b = mp_media_session_id r \<and> bi_plugin_version b = mp_plugin_version r) (bindings t)
     \<and> list_ex (\<lambda>m. mse_id m = mp_media_session_id r \<and> mse_legacy_session_id m = Some (mp_legacy_session_id r)) (pt_media_sessions t)
     \<and> (po_require_runtime_ready po \<longrightarrow> list_ex (\<lambda>h. rh_plugin_id h = MEETING_PLUGIN_ID \<and> rh_plugin_version h = mp_plugin_version r
          \<and> rh_status h \<in> {''ready'', ''degraded''}) (pt_health t))"

abbreviation get_meeting :: "string \<Rightarrow> meeting_session list \<Rightarrow> meeting_session option" where
  "get_meeting session_id rows \<equiv> find_row (\<lambda>r. mp_legacy_session_id r = session_id) rows"

abbreviation session_status_of :: "string \<Rightarrow> session_record list \<Rightarrow> string option" where
  "session_status_of session_id sessions \<equiv> map_option ses_status (find_row (\<lambda>s. ses_id s = session_id) sessions)"

definition status_admits :: "string option \<Rightarrow> string \<Rightarrow> bool" where
  "status_admits status analysis_state = (case status of
     None \<Rightarrow> False
   | Some st \<Rightarrow> \<not> (st \<in> set TERMINAL_SESSION_STATUSES \<and> analysis_state \<noteq> ''draining'')
       \<and> st \<in> set LIVE_SESSION_STATUSES \<union> set TERMINAL_SESSION_STATUSES \<union> {''finalizing''})"

definition admission ::
  "meeting_policy \<Rightarrow> plugin_tables \<Rightarrow> session_record list \<Rightarrow> string \<Rightarrow> meeting_session list \<Rightarrow> analysis_admission" where
  "admission po t sessions session_id rows =
     (if \<not> po_enabled po then no_admission
      else case get_meeting session_id rows of
        None \<Rightarrow> no_admission
      | Some r \<Rightarrow> \<lparr>ad_allowed = eligible po t r \<and> status_admits (session_status_of session_id sessions) (mp_analysis_state r),
          ad_analysis_epoch = mp_analysis_epoch r, ad_authority_epoch = mp_authority_epoch r, ad_state = mp_analysis_state r,
          ad_terminal_frontier = mp_terminal_frontier r\<rparr>)"

definition fence ::
  "meeting_policy \<Rightarrow> plugin_tables \<Rightarrow> session_record list \<Rightarrow> string \<Rightarrow> int \<Rightarrow> meeting_session list \<Rightarrow> analysis_admission res" where
  "fence po t sessions session_id epoch rows =
     (if \<not> po_enabled po then Inl (MeetingPluginDenied ''meeting analysis is disabled'')
      else let a = admission po t sessions session_id rows in
        if rowcount (\<lambda>r. mp_legacy_session_id r = session_id \<and> mp_analysis_epoch r = epoch \<and> eligible po t r) rows \<noteq> 1
           \<or> \<not> permits a epoch
        then Inl (MeetingPluginDenied ''meeting analysis authority has changed'')
        else Inr a)"

subsection \<open>Control of the analysis\<close>

definition ensure_session ::
  "plugin_tables \<Rightarrow> string \<Rightarrow> string \<Rightarrow> string \<Rightarrow> meeting_session list \<Rightarrow> (meeting_session list \<times> meeting_session) res" where
  "ensure_session t session_id media_id plugin_version rows =
     (if \<not> list_ex (\<lambda>m. mse_id m = media_id \<and> mse_legacy_session_id m = Some session_id) (pt_media_sessions t)
      then Inl (MeetingPluginConflict ''MediaSession does not match legacy Session'')
      else if py_strip plugin_version = [] \<or> length plugin_version > 64 then Inl (ValueError ''invalid plugin version'')
      else let rows' = (if list_ex (\<lambda>r. mp_legacy_session_id r = session_id \<or> mp_media_session_id r = media_id) rows then rows
             else rows @ [\<lparr>mp_legacy_session_id = session_id, mp_media_session_id = media_id, mp_plugin_id = MEETING_PLUGIN_ID,
               mp_plugin_version = plugin_version, mp_analysis_state = ''inactive'', mp_analysis_epoch = 0, mp_authority_epoch = 0,
               mp_activated_by = None, mp_activated_at = None, mp_stopped_reason = None, mp_terminal_frontier = None\<rparr>])
        in case get_meeting session_id rows' of
             None \<Rightarrow> Inl (MeetingPluginConflict ''meeting session has another owner or version'')
           | Some r \<Rightarrow> if (mp_media_session_id r, mp_plugin_id r, mp_plugin_version r) \<noteq> (media_id, MEETING_PLUGIN_ID, plugin_version)
               then Inl (MeetingPluginConflict ''meeting session has another owner or version'') else Inr (rows', r))"

abbreviation update_meeting :: "string \<Rightarrow> (meeting_session \<Rightarrow> meeting_session) \<Rightarrow> meeting_session list \<Rightarrow> meeting_session list" where
  "update_meeting session_id f rows \<equiv> update_rows (\<lambda>r. mp_legacy_session_id r = session_id) f rows"

definition activate ::
  "meeting_policy \<Rightarrow> plugin_tables \<Rightarrow> session_record list \<Rightarrow> string \<Rightarrow> string \<Rightarrow> string \<Rightarrow> string \<Rightarrow> instant \<Rightarrow> meeting_session list
   \<Rightarrow> (meeting_session list \<times> analysis_admission) res" where
  "activate po t sessions session_id media_id plugin_version actor_id now rows =
     (if \<not> po_enabled po \<or> py_strip actor_id = [] \<or> length actor_id > 255
      then Inl (MeetingPluginDenied ''meeting analysis is unavailable'')
      else if (case session_status_of session_id sessions of None \<Rightarrow> True | Some st \<Rightarrow> st \<notin> set LIVE_SESSION_STATUSES)
           \<or> \<not> list_ex (\<lambda>b. bi_media_session_id b = media_id \<and> bi_plugin_version b = plugin_version) (bindings t)
      then Inl (MeetingPluginDenied ''analysis requires a live Session and enabled authorized binding'')
      else rbind (ensure_session t session_id media_id plugin_version rows) (\<lambda>(rows, r).
        let rows' = (if mp_analysis_state r = ''active'' then rows
              else update_meeting session_id (\<lambda>r. r\<lparr>mp_analysis_state := ''active'', mp_analysis_epoch := mp_analysis_epoch r + 1,
                mp_activated_by := Some actor_id, mp_activated_at := Some now, mp_stopped_reason := None,
                mp_terminal_frontier := None\<rparr>) rows)
        in Inr (rows', admission po t sessions session_id rows')))"

definition stop_analysis :: "string \<Rightarrow> string \<Rightarrow> meeting_session list \<Rightarrow> meeting_session list" where
  "stop_analysis session_id reason rows = update_meeting session_id (\<lambda>r. r\<lparr>mp_analysis_state := ''inactive'',
     mp_analysis_epoch := mp_analysis_epoch r + 1, mp_stopped_reason := Some reason\<rparr>) rows"

definition begin_drain :: "segment_table \<Rightarrow> session_record list \<Rightarrow> string \<Rightarrow> meeting_session list \<Rightarrow> meeting_session list" where
  "begin_drain segments sessions session_id rows =
     (case (get_meeting session_id rows, session_status_of session_id sessions) of
        (Some r, Some st) \<Rightarrow>
          if mp_analysis_state r = ''active'' \<and> st \<in> set TERMINAL_SESSION_STATUSES
          then update_rows (\<lambda>x. mp_legacy_session_id x = session_id \<and> mp_analysis_epoch x = mp_analysis_epoch r \<and> mp_analysis_state x = ''active'')
            (\<lambda>x. x\<lparr>mp_analysis_state := ''draining'',
               mp_terminal_frontier := Some (map (\<lambda>g. (sg_segment_id g, sg_revision g))
                 (filter (\<lambda>g. sg_session_id g = session_id \<and> sg_status g = ''final'') segments))\<rparr>) rows
          else rows
      | _ \<Rightarrow> rows)"

definition finish_if_drained ::
  "meeting_policy \<Rightarrow> plugin_tables \<Rightarrow> session_record list \<Rightarrow> offset_record list \<Rightarrow> string \<Rightarrow> int \<Rightarrow> meeting_session list \<Rightarrow> meeting_session list res" where
  "finish_if_drained po t sessions offsets session_id epoch rows =
     (let a = admission po t sessions session_id rows in
      if \<not> permits a epoch \<or> ad_state a \<noteq> ''draining'' then Inr rows
      else if list_ex (\<lambda>e. processed offsets session_id (fst e) < snd e) (or_else (ad_terminal_frontier a) []) then Inr rows
      else rbind (fence po t sessions session_id epoch rows) (\<lambda>_.
        Inr (update_rows (\<lambda>r. mp_legacy_session_id r = session_id \<and> mp_analysis_epoch r = epoch)
               (\<lambda>r. r\<lparr>mp_analysis_state := ''completed''\<rparr>) rows)))"

definition eligible_session_ids :: "meeting_policy \<Rightarrow> plugin_tables \<Rightarrow> meeting_session list \<Rightarrow> string list" where
  "eligible_session_ids po t rows = map mp_legacy_session_id (filter (eligible po t) rows)"

fun finish_all ::
  "meeting_policy \<Rightarrow> plugin_tables \<Rightarrow> session_record list \<Rightarrow> offset_record list \<Rightarrow> string list \<Rightarrow> meeting_session list \<Rightarrow> meeting_session list res" where
  "finish_all po t sessions offsets [] rows = Inr rows"
| "finish_all po t sessions offsets (k # ks) rows =
     rbind (let a = admission po t sessions k rows in
            if ad_allowed a \<and> ad_state a = ''draining'' then finish_if_drained po t sessions offsets k (ad_analysis_epoch a) rows
            else Inr rows) (finish_all po t sessions offsets ks)"

definition scan_admissions ::
  "meeting_policy \<Rightarrow> plugin_tables \<Rightarrow> session_record list \<Rightarrow> segment_table \<Rightarrow> offset_record list \<Rightarrow> meeting_session list
   \<Rightarrow> (meeting_session list \<times> (string, analysis_admission) dict) res" where
  "scan_admissions po t sessions segments offsets rows =
     (if \<not> po_enabled po then Inr (rows, [])
      else let ids = eligible_session_ids po t rows;
               drained = foldl (\<lambda>rows k. begin_drain segments sessions k rows) rows ids
           in rbind (finish_all po t sessions offsets ids drained) (\<lambda>rows.
              Inr (rows, filter (\<lambda>e. ad_allowed (snd e)) (map (\<lambda>k. (k, admission po t sessions k rows)) ids))))"

subsection \<open>Scopes and intents\<close>

record host_action_scope =
  hs_plugin_id :: string
  hs_plugin_version :: string
  hs_media_session_id :: string
  hs_legacy_session_id :: string
  hs_actor_id :: string
  hs_authority_epoch :: int
  hs_analysis_epoch :: "int option"
  hs_action :: string
  hs_payload_hash :: string
  hs_candidate_revisions :: "(string, int) dict"
  hs_snapshot_id :: "string option"
  hs_team_id :: "string option"
  hs_max_side_effects :: int
  hs_source :: string
  hs_action_grant_id :: "string option"
  hs_capability_grant_id :: "string option"

definition HOST_ACTIONS :: "string list" where
  "HOST_ACTIONS = [''meeting.analysis.activate'', ''meeting.analysis.deactivate'', ''meeting.ask'', ''meeting.mark.create'',
     ''meeting.mark.accept'', ''meeting.mark.dismiss'', ''meeting.execute'', ''meeting.input'', ''meeting.cancel'']"

definition starts_with :: "string \<Rightarrow> string \<Rightarrow> bool" where
  "starts_with prefix s \<longleftrightarrow> take (length prefix) s = prefix"

definition scope_ok :: "host_action_scope \<Rightarrow> bool" where
  "scope_ok s \<longleftrightarrow> len_in 5 128 (hs_plugin_id s) \<and> len_in 1 64 (hs_plugin_version s) \<and> len_in 1 36 (hs_media_session_id s)
     \<and> len_in 1 36 (hs_legacy_session_id s) \<and> len_in 1 255 (hs_actor_id s) \<and> 0 \<le> hs_authority_epoch s
     \<and> opt_all (\<lambda>e. 0 \<le> e) (hs_analysis_epoch s) \<and> hs_action s \<in> set HOST_ACTIONS \<and> digest_ok (hs_payload_hash s)
     \<and> length (hs_candidate_revisions s) \<le> 20 \<and> list_all (\<lambda>e. len_in 1 255 (fst e) \<and> 1 \<le> snd e) (hs_candidate_revisions s)
     \<and> opt_all (len_in 1 255) (hs_snapshot_id s) \<and> opt_all (len_in 1 255) (hs_team_id s)
     \<and> 0 \<le> hs_max_side_effects s \<and> hs_max_side_effects s \<le> 20 \<and> hs_source s \<in> {''plugin'', ''host_history''}
     \<and> opt_all (len_in 1 255) (hs_action_grant_id s) \<and> opt_all (len_in 1 255) (hs_capability_grant_id s)
     \<and> \<not> (hs_source s = ''host_history'' \<and> hs_action s \<noteq> ''meeting.cancel'')
     \<and> \<not> (starts_with ''meeting.analysis.'' (hs_action s) \<and> hs_analysis_epoch s = None)
     \<and> (if hs_action s = ''meeting.execute''
        then hs_team_id s \<noteq> None \<and> hs_candidate_revisions s \<noteq> [] \<and> 1 \<le> hs_max_side_effects s
             \<and> hs_max_side_effects s \<le> int (length (hs_candidate_revisions s))
        else hs_max_side_effects s = 0 \<and> hs_team_id s = None \<and> hs_candidate_revisions s = [])"

definition dump_scope :: "host_action_scope \<Rightarrow> jvalue" where
  "dump_scope s = VObj [(''plugin_id'', VStr (hs_plugin_id s)), (''plugin_version'', VStr (hs_plugin_version s)),
     (''media_session_id'', VStr (hs_media_session_id s)), (''legacy_session_id'', VStr (hs_legacy_session_id s)),
     (''actor_id'', VStr (hs_actor_id s)), (''authority_epoch'', VInt (hs_authority_epoch s)),
     (''analysis_epoch'', dump_opt VInt (hs_analysis_epoch s)), (''action'', VStr (hs_action s)),
     (''payload_hash'', VStr (hs_payload_hash s)),
     (''candidate_revisions'', VObj (map (\<lambda>e. (fst e, VInt (snd e))) (hs_candidate_revisions s))),
     (''snapshot_id'', dump_opt VStr (hs_snapshot_id s)), (''team_id'', dump_opt VStr (hs_team_id s)),
     (''max_side_effects'', VInt (hs_max_side_effects s)), (''source'', VStr (hs_source s)),
     (''action_grant_id'', dump_opt VStr (hs_action_grant_id s)), (''capability_grant_id'', dump_opt VStr (hs_capability_grant_id s))]"

text \<open>\<open>canonical_hash\<close>, with its limit on the encoded payload.\<close>

definition canonical_hash :: "hash_env \<Rightarrow> jvalue \<Rightarrow> string res" where
  "canonical_hash he v = (let encoded = utf8 (dumps (he_repr he) v) in
     if length encoded > 256 * 1024 then Inl (ValueError ''meeting payload exceeds byte limit'') else Inr (he_sha256 he encoded))"

record host_action_intent =
  hi_token_hash :: string
  hi_scope :: host_action_scope
  hi_created_at :: instant
  hi_expires_at :: instant

definition intent_ok :: "host_action_intent \<Rightarrow> bool" where
  "intent_ok i \<longleftrightarrow> digest_ok (hi_token_hash i) \<and> scope_ok (hi_scope i)
     \<and> 0 < hi_expires_at i - hi_created_at i \<and> hi_expires_at i - hi_created_at i \<le> 15 * 60 * 1000"

record intent_record =
  it_id :: string
  it_token_hash :: string
  it_plugin_id :: string
  it_plugin_version :: string
  it_media_session_id :: string
  it_legacy_session_id :: string
  it_authority_epoch :: int
  it_scope_hash :: string
  it_scope :: host_action_scope
  it_status :: string
  it_created_at :: instant
  it_expires_at :: instant
  it_consumed_at :: "instant option"
  it_revoked_at :: "instant option"

definition create_intent ::
  "hash_env \<Rightarrow> plugin_tables \<Rightarrow> host_action_intent \<Rightarrow> string \<Rightarrow> intent_record list \<Rightarrow> (intent_record list \<times> intent_record) res" where
  "create_intent he t i new_id rows = (let s = hi_scope i in
     if \<not> list_ex (\<lambda>m. mse_id m = hs_media_session_id s \<and> mse_legacy_session_id m = Some (hs_legacy_session_id s)) (pt_media_sessions t)
     then Inl (MeetingPluginConflict ''MediaSession does not match legacy Session'')
     else rbind (canonical_hash he (dump_scope s)) (\<lambda>scope_hash.
       let r = \<lparr>it_id = new_id, it_token_hash = hi_token_hash i, it_plugin_id = hs_plugin_id s, it_plugin_version = hs_plugin_version s,
             it_media_session_id = hs_media_session_id s, it_legacy_session_id = hs_legacy_session_id s,
             it_authority_epoch = hs_authority_epoch s, it_scope_hash = scope_hash, it_scope = s, it_status = ''active'',
             it_created_at = hi_created_at i, it_expires_at = hi_expires_at i, it_consumed_at = None, it_revoked_at = None\<rparr>
       in if new_id \<in> set (map it_id rows) \<or> hi_token_hash i \<in> set (map it_token_hash rows) then Inl integrity_error
          else Inr (rows @ [r], r)))"

definition intent_usable :: "string \<Rightarrow> string \<Rightarrow> instant \<Rightarrow> intent_record \<Rightarrow> bool" where
  "intent_usable token_hash scope_hash now r \<longleftrightarrow> it_token_hash r = token_hash \<and> it_scope_hash r = scope_hash \<and> it_status r = ''active''
     \<and> it_revoked_at r = None \<and> it_consumed_at r = None \<and> it_created_at r \<le> now \<and> now < it_expires_at r"

definition consume_intent ::
  "hash_env \<Rightarrow> string \<Rightarrow> host_action_scope \<Rightarrow> instant \<Rightarrow> intent_record list \<Rightarrow> (intent_record list \<times> intent_record option) res" where
  "consume_intent he token_hash expected_scope now rows =
     rbind (canonical_hash he (dump_scope expected_scope)) (\<lambda>scope_hash.
       if rowcount (intent_usable token_hash scope_hash now) rows \<noteq> 1
       then Inl (MeetingPluginDenied ''intent is invalid, out of scope, expired or consumed'')
       else let rows' = update_rows (intent_usable token_hash scope_hash now)
              (\<lambda>r. r\<lparr>it_status := ''consumed'', it_consumed_at := Some now\<rparr>) rows
            in Inr (rows', find_row (\<lambda>r. it_token_hash r = token_hash) rows'))"

definition revoke_intents :: "string \<Rightarrow> instant \<Rightarrow> intent_record list \<Rightarrow> intent_record list" where
  "revoke_intents session_id now rows =
     update_rows (\<lambda>r. it_legacy_session_id r = session_id \<and> it_plugin_id r = MEETING_PLUGIN_ID \<and> it_status r = ''active'')
       (\<lambda>r. r\<lparr>it_status := ''revoked'', it_revoked_at := Some now\<rparr>) rows"

definition revoke_authority ::
  "string \<Rightarrow> string \<Rightarrow> instant \<Rightarrow> meeting_session list \<Rightarrow> intent_record list \<Rightarrow> meeting_session list \<times> intent_record list" where
  "revoke_authority session_id reason now rows intents =
     (update_meeting session_id (\<lambda>r. r\<lparr>mp_analysis_state := ''inactive'', mp_analysis_epoch := mp_analysis_epoch r + 1,
        mp_authority_epoch := mp_authority_epoch r + 1, mp_stopped_reason := Some reason\<rparr>) rows,
      revoke_intents session_id now intents)"

text \<open>The policy's own entry points.\<close>

definition deactivate :: "string \<Rightarrow> meeting_session list \<Rightarrow> meeting_session list" where
  "deactivate session_id rows = stop_analysis session_id ''user_stopped'' rows"

definition revoke :: "string \<Rightarrow> instant \<Rightarrow> meeting_session list \<Rightarrow> intent_record list \<Rightarrow> meeting_session list \<times> intent_record list" where
  "revoke session_id now rows intents = revoke_authority session_id ''plugin_disabled'' now rows intents"

subsection \<open>Operations\<close>

record operation_record =
  op_id :: string
  op_plugin_id :: string
  op_plugin_version :: string
  op_media_session_id :: string
  op_legacy_session_id :: string
  op_authority_epoch :: int
  op_intent_id :: "string option"
  op_client_request_id :: string
  op_action :: string
  op_request_hash :: string
  op_request_payload :: jvalue
  op_status :: string

fun has_secret :: "jvalue \<Rightarrow> bool" where
  "has_secret (VObj es) \<longleftrightarrow> list_ex (\<lambda>e. fst e \<in> {''intent_token'', ''admin_token'', ''api_key''} \<or> has_secret (snd e)) es"
| "has_secret (VArr xs) \<longleftrightarrow> list_ex has_secret xs"
| "has_secret _ \<longleftrightarrow> False"

abbreviation meeting_operation_key :: "operation_record \<Rightarrow> string \<times> string \<times> string \<times> string" where
  "meeting_operation_key r \<equiv> (op_plugin_id r, op_plugin_version r, op_media_session_id r, op_client_request_id r)"

definition accept_operation ::
  "hash_env \<Rightarrow> plugin_tables \<Rightarrow> host_action_scope \<Rightarrow> string \<Rightarrow> jvalue \<Rightarrow> string option \<Rightarrow> string \<Rightarrow> operation_record list
   \<Rightarrow> (operation_record list \<times> operation_record) res" where
  "accept_operation he t s client_request_id payload intent_id new_id rows =
     (if \<not> list_ex (\<lambda>m. mse_id m = hs_media_session_id s \<and> mse_legacy_session_id m = Some (hs_legacy_session_id s)) (pt_media_sessions t)
      then Inl (MeetingPluginConflict ''MediaSession does not match legacy Session'')
      else if py_strip client_request_id = [] \<or> length client_request_id > 255 then Inl (ValueError ''invalid client request ID'')
      else if has_secret payload then Inl (ValueError ''raw credentials must not be persisted'')
      else rbind (canonical_hash he (VObj [(''scope'', dump_scope s), (''payload'', payload)])) (\<lambda>request_hash.
        let r = \<lparr>op_id = new_id, op_plugin_id = hs_plugin_id s, op_plugin_version = hs_plugin_version s,
              op_media_session_id = hs_media_session_id s, op_legacy_session_id = hs_legacy_session_id s,
              op_authority_epoch = hs_authority_epoch s, op_intent_id = intent_id, op_client_request_id = client_request_id,
              op_action = hs_action s, op_request_hash = request_hash, op_request_payload = payload, op_status = ''accepted''\<rparr>;
            rows' = (if list_ex (\<lambda>x. meeting_operation_key x = meeting_operation_key r) rows then rows else rows @ [r])
        in if \<not> list_ex (\<lambda>x. meeting_operation_key x = meeting_operation_key r) rows \<and> new_id \<in> set (map op_id rows) then Inl integrity_error
           else case find_row (\<lambda>x. meeting_operation_key x = meeting_operation_key r) rows' of
             None \<Rightarrow> Inl (MeetingPluginConflict ''request ID already binds a different operation'')
           | Some x \<Rightarrow> if op_request_hash x \<noteq> request_hash
               then Inl (MeetingPluginConflict ''request ID already binds a different operation'') else Inr (rows', x)))"

subsection \<open>Rows of meetings move forward\<close>

lemma find_map_key: "(\<And>x. key (g x) = key x) \<Longrightarrow> find_row (\<lambda>x. key x = k) (map g xs) = map_option g (find_row (\<lambda>x. key x = k) xs)"
  by (induction xs) auto

definition moves_on :: "meeting_session list \<Rightarrow> meeting_session list \<Rightarrow> bool" where
  "moves_on rows rows' \<longleftrightarrow> (\<forall>s r. get_meeting s rows = Some r \<longrightarrow>
     (\<exists>r'. get_meeting s rows' = Some r' \<and> mp_analysis_epoch r \<le> mp_analysis_epoch r'))"

lemma moves_on_refl [simp, intro]: "moves_on rows rows"
  by (auto simp: moves_on_def)

lemma moves_on_trans: "moves_on a b \<Longrightarrow> moves_on b c \<Longrightarrow> moves_on a c"
  unfolding moves_on_def by (meson order_trans)

lemma update_moves_on:
  assumes "\<And>r. mp_legacy_session_id (f r) = mp_legacy_session_id r \<and> mp_analysis_epoch r \<le> mp_analysis_epoch (f r)"
  shows "moves_on rows (update_rows p f rows)"
proof -
  have "find_row (\<lambda>r. mp_legacy_session_id r = s) (update_rows p f rows) =
      map_option (\<lambda>r. if p r then f r else r) (get_meeting s rows)" for s
    unfolding update_rows_def by (rule find_map_key) (use assms in auto)
  then show ?thesis using assms by (auto simp: moves_on_def)
qed

lemma ensure_moves_on: "ensure_session t s m v rows = Inr (rows', r) \<Longrightarrow> moves_on rows rows'"
  by (auto simp: ensure_session_def Let_def moves_on_def find_row_append split: if_splits option.splits)

lemma activate_moves_on:
  assumes "activate po t sessions s m v actor now rows = Inr (rows', a)"
  shows "moves_on rows rows'"
proof -
  obtain rows1 r where "ensure_session t s m v rows = Inr (rows1, r)"
      and rows': "rows' = (if mp_analysis_state r = ''active'' then rows1
        else update_meeting s (\<lambda>r. r\<lparr>mp_analysis_state := ''active'', mp_analysis_epoch := mp_analysis_epoch r + 1,
          mp_activated_by := Some actor, mp_activated_at := Some now, mp_stopped_reason := None, mp_terminal_frontier := None\<rparr>) rows1)"
    using assms by (auto simp: activate_def res_simps Let_def split: if_splits option.splits)
  then have "moves_on rows rows1" by (intro ensure_moves_on)
  moreover have "moves_on rows1 rows'" unfolding rows' by (simp add: update_moves_on)
  ultimately show ?thesis by (rule moves_on_trans)
qed

lemma begin_drain_moves_on: "moves_on rows (begin_drain segments sessions s rows)"
  by (auto simp: begin_drain_def split: option.splits intro!: update_moves_on)

lemma finish_moves_on: "finish_if_drained po t sessions offsets s e rows = Inr rows' \<Longrightarrow> moves_on rows rows'"
  by (auto simp: finish_if_drained_def Let_def res_simps split: if_splits intro!: update_moves_on)

lemma finish_all_moves_on: "finish_all po t sessions offsets ks rows = Inr rows' \<Longrightarrow> moves_on rows rows'"
proof (induction ks arbitrary: rows)
  case (Cons k ks)
  then obtain rows1 where "moves_on rows rows1" "finish_all po t sessions offsets ks rows1 = Inr rows'"
    by (auto simp: Let_def res_simps split: if_splits dest: finish_moves_on)
  then show ?case using Cons.IH moves_on_trans by blast
qed simp

lemma drain_all_moves_on: "moves_on rows (foldl (\<lambda>rows k. begin_drain segments sessions k rows) rows ks)"
proof (induction ks arbitrary: rows)
  case (Cons k ks)
  then show ?case
    using moves_on_trans [OF begin_drain_moves_on [of rows segments sessions k]] by simp
qed simp

lemma scan_moves_on: "scan_admissions po t sessions segments offsets rows = Inr (rows', ads) \<Longrightarrow> moves_on rows rows'"
  using moves_on_trans [OF drain_all_moves_on finish_all_moves_on]
  by (auto simp: scan_admissions_def Let_def res_simps split: if_splits)

lemma stop_moves_on: "moves_on rows (stop_analysis s reason rows)"
  unfolding stop_analysis_def by (rule update_moves_on) simp

lemma fence_newer_epoch:
  assumes "get_meeting s rows = Some r" "e < mp_analysis_epoch r"
  shows "\<exists>m. fence po t sessions s e rows = Inl (MeetingPluginDenied m)"
  using assms by (auto simp: fence_def admission_def permits_def Let_def)

subsection \<open>Intents are spent once\<close>

definition spent :: "intent_record list \<Rightarrow> intent_record list \<Rightarrow> bool" where
  "spent rows rows' \<longleftrightarrow> (distinct (map it_token_hash rows) \<longrightarrow> distinct (map it_token_hash rows'))
     \<and> (\<forall>r \<in> set rows. it_status r \<noteq> ''active'' \<longrightarrow> r \<in> set rows')"

lemma spent_refl [simp, intro]: "spent rows rows"
  by (simp add: spent_def)

lemma spent_trans: "spent a b \<Longrightarrow> spent b c \<Longrightarrow> spent a c"
  by (auto simp: spent_def)

lemma create_spent: "create_intent he t i new_id rows = Inr (rows', r) \<Longrightarrow> spent rows rows'"
  by (auto simp: create_intent_def Let_def res_simps spent_def split: if_splits)

lemma update_spent:
  assumes "\<And>r. p r \<Longrightarrow> it_status r = ''active''" "\<And>r. it_token_hash (f r) = it_token_hash r"
  shows "spent rows (update_rows p f rows)"
proof -
  have "map it_token_hash (update_rows p f rows) = map it_token_hash rows"
    using assms(2) by (rule map_key_update_rows)
  moreover have "r \<in> set (update_rows p f rows)" if "r \<in> set rows" "it_status r \<noteq> ''active''" for r
    using that assms(1) [of r] unfolding update_rows_def set_map by (intro image_eqI [of _ _ r]) auto
  ultimately show ?thesis by (simp add: spent_def)
qed

lemma revoke_spent: "spent rows (revoke_intents s now rows)"
  unfolding revoke_intents_def by (rule update_spent) auto

lemma revoke_intents_spends:
  assumes "x \<in> set rows" "it_legacy_session_id x = s" "it_plugin_id x = MEETING_PLUGIN_ID"
  shows "\<exists>y \<in> set (revoke_intents s now rows). it_token_hash y = it_token_hash x \<and> it_status y \<noteq> ''active''"
proof -
  let ?g = "\<lambda>r. if it_legacy_session_id r = s \<and> it_plugin_id r = MEETING_PLUGIN_ID \<and> it_status r = ''active''
     then r\<lparr>it_status := ''revoked'', it_revoked_at := Some now\<rparr> else r"
  have "?g x \<in> set (revoke_intents s now rows)" using assms(1) by (simp add: revoke_intents_def update_rows_def)
  moreover have "it_token_hash (?g x) = it_token_hash x" "it_status (?g x) \<noteq> ''active''" using assms(2,3) by auto
  ultimately show ?thesis by blast
qed

lemma consume_spent: "consume_intent he token scope now rows = Inr (rows', r) \<Longrightarrow> spent rows rows'"
  by (auto simp: consume_intent_def Let_def res_simps intent_usable_def split: if_splits intro!: update_spent)

lemma consume_found:
  assumes "consume_intent he token scope now rows = Inr (rows', r)"
  shows "\<exists>x \<in> set rows. it_token_hash x = token \<and> it_status x = ''active'' \<and> it_created_at x \<le> now \<and> now < it_expires_at x
    \<and> canonical_hash he (dump_scope scope) = Inr (it_scope_hash x)
    \<and> x\<lparr>it_status := ''consumed'', it_consumed_at := Some now\<rparr> \<in> set rows'"
proof -
  obtain h where h: "canonical_hash he (dump_scope scope) = Inr h" "rowcount (intent_usable token h now) rows = 1"
      "rows' = update_rows (intent_usable token h now) (\<lambda>r. r\<lparr>it_status := ''consumed'', it_consumed_at := Some now\<rparr>) rows"
    using assms by (auto simp: consume_intent_def Let_def res_simps split: if_splits)
  then obtain x where "x \<in> set rows" "intent_usable token h now x"
    using rowcount_pos [of "intent_usable token h now" rows] by auto
  then show ?thesis using h by (force simp: intent_usable_def update_rows_def)
qed

lemma spent_token_refused:
  assumes "distinct (map it_token_hash rows)" "x \<in> set rows" "it_status x \<noteq> ''active''"
  shows "\<exists>e. consume_intent he (it_token_hash x) scope now rows = Inl e"
proof (cases "consume_intent he (it_token_hash x) scope now rows")
  case (Inr p)
  then obtain y where "y \<in> set rows" "it_token_hash y = it_token_hash x" "it_status y = ''active''"
    using consume_found [of he "it_token_hash x" scope now rows "fst p" "snd p"] by auto
  then have "y = x" using assms(1,2) by (metis distinct_map inj_onD)
  with \<open>it_status y = ''active''\<close> assms(3) show ?thesis by simp
qed simp

subsection \<open>Withdrawn authority\<close>

text \<open>Everything that may happen to the tables, in any order; a call that raises changes nothing.\<close>

record control_state =
  ct_rows :: "meeting_session list"
  ct_intents :: "intent_record list"
  ct_consumed :: "string list"  \<comment> \<open>tokens of successful consumptions\<close>

datatype control =
    Activate meeting_policy plugin_tables "session_record list" string string string string instant
  | Stop string string
  | Revoke string string instant
  | Scan meeting_policy plugin_tables "session_record list" segment_table "offset_record list"
  | Finish meeting_policy plugin_tables "session_record list" "offset_record list" string int
  | Create_Intent hash_env plugin_tables host_action_intent string
  | Consume hash_env string host_action_scope instant

fun control_step :: "control \<Rightarrow> control_state \<Rightarrow> control_state" where
  "control_step (Activate po t sessions s m v actor now) c =
     (case activate po t sessions s m v actor now (ct_rows c) of Inl _ \<Rightarrow> c | Inr (rows, _) \<Rightarrow> c\<lparr>ct_rows := rows\<rparr>)"
| "control_step (Stop s reason) c = c\<lparr>ct_rows := stop_analysis s reason (ct_rows c)\<rparr>"
| "control_step (Revoke s reason now) c =
     (let (rows, intents) = revoke_authority s reason now (ct_rows c) (ct_intents c) in c\<lparr>ct_rows := rows, ct_intents := intents\<rparr>)"
| "control_step (Scan po t sessions segments offsets) c =
     (case scan_admissions po t sessions segments offsets (ct_rows c) of Inl _ \<Rightarrow> c | Inr (rows, _) \<Rightarrow> c\<lparr>ct_rows := rows\<rparr>)"
| "control_step (Finish po t sessions offsets s e) c =
     (case finish_if_drained po t sessions offsets s e (ct_rows c) of Inl _ \<Rightarrow> c | Inr rows \<Rightarrow> c\<lparr>ct_rows := rows\<rparr>)"
| "control_step (Create_Intent he t i new_id) c =
     (case create_intent he t i new_id (ct_intents c) of Inl _ \<Rightarrow> c | Inr (intents, _) \<Rightarrow> c\<lparr>ct_intents := intents\<rparr>)"
| "control_step (Consume he token scope now) c =
     (case consume_intent he token scope now (ct_intents c) of
        Inl _ \<Rightarrow> c | Inr (intents, _) \<Rightarrow> c\<lparr>ct_intents := intents, ct_consumed := ct_consumed c @ [token]\<rparr>)"

definition control_run :: "control list \<Rightarrow> control_state \<Rightarrow> control_state" where
  "control_run cs c = foldl (\<lambda>c e. control_step e c) c cs"

text \<open>Tokens are unique, and every consumed token belongs to a spent intent, once.\<close>

definition control_inv :: "control_state \<Rightarrow> bool" where
  "control_inv c \<longleftrightarrow> distinct (map it_token_hash (ct_intents c)) \<and> distinct (ct_consumed c)
     \<and> (\<forall>k \<in> set (ct_consumed c). \<exists>r \<in> set (ct_intents c). it_token_hash r = k \<and> it_status r = ''consumed'')"

lemma control_step_moves:
  "moves_on (ct_rows c) (ct_rows (control_step e c)) \<and> spent (ct_intents c) (ct_intents (control_step e c))"
proof (cases e)
  case (Revoke s reason now)
  have "moves_on (ct_rows c) (fst (revoke_authority s reason now (ct_rows c) (ct_intents c)))"
    unfolding revoke_authority_def fst_conv by (rule update_moves_on) simp
  with Revoke show ?thesis using revoke_spent by (simp add: revoke_authority_def)
qed (use activate_moves_on scan_moves_on finish_moves_on stop_moves_on create_spent consume_spent in \<open>auto split: sum.splits\<close>)

lemma control_run_moves:
  "moves_on (ct_rows c) (ct_rows (control_run cs c)) \<and> spent (ct_intents c) (ct_intents (control_run cs c))"
proof (induction cs arbitrary: c)
  case (Cons e cs)
  then show ?case
    using control_step_moves [of c e] moves_on_trans spent_trans by (simp add: control_run_def) blast
qed (simp add: control_run_def)

lemma control_step_inv:
  assumes "control_inv c"
  shows "control_inv (control_step e c)"
proof (cases "\<exists>he token scope now rows r. e = Consume he token scope now \<and> consume_intent he token scope now (ct_intents c) = Inr (rows, r)")
  case True
  then obtain he token scope now rows r where e: "e = Consume he token scope now"
    and ok: "consume_intent he token scope now (ct_intents c) = Inr (rows, r)" by blast
  obtain x where x: "x \<in> set (ct_intents c)" "it_token_hash x = token" "it_status x = ''active''"
      "x\<lparr>it_status := ''consumed'', it_consumed_at := Some now\<rparr> \<in> set rows"
    using consume_found [OF ok] by blast
  have fresh: "token \<notin> set (ct_consumed c)"
  proof
    assume "token \<in> set (ct_consumed c)"
    then have "\<exists>r \<in> set (ct_intents c). it_token_hash r = token \<and> it_status r = ''consumed''"
      using assms by (simp add: control_inv_def)
    then obtain y where "y \<in> set (ct_intents c)" "it_token_hash y = token" "it_status y = ''consumed''" by blast
    then have "y = x" using x(1,2) assms by (metis control_inv_def distinct_map inj_onD)
    with x(3) \<open>it_status y = ''consumed''\<close> show False by simp
  qed
  have "it_token_hash (x\<lparr>it_status := ''consumed'', it_consumed_at := Some now\<rparr>) = token" using x(2) by simp
  with x(4) have new: "\<exists>y \<in> set rows. it_token_hash y = token \<and> it_status y = ''consumed''"
    by (intro bexI [of _ "x\<lparr>it_status := ''consumed'', it_consumed_at := Some now\<rparr>"]) simp_all
  have "spent (ct_intents c) rows" using consume_spent [OF ok] .
  moreover have "\<exists>y \<in> set rows. it_token_hash y = k \<and> it_status y = ''consumed''" if "k \<in> set (ct_consumed c)" for k
  proof -
    have "\<exists>r \<in> set (ct_intents c). it_token_hash r = k \<and> it_status r = ''consumed''"
      using assms that by (simp add: control_inv_def)
    then obtain y where "y \<in> set (ct_intents c)" "it_token_hash y = k" "it_status y = ''consumed''" by blast
    moreover from this have "y \<in> set rows" using \<open>spent (ct_intents c) rows\<close> by (simp add: spent_def)
    ultimately show ?thesis by blast
  qed
  ultimately show ?thesis using assms fresh new by (auto simp: e ok control_inv_def spent_def)
next
  case False
  then have "ct_consumed (control_step e c) = ct_consumed c"
    by (cases e) (auto simp: revoke_authority_def split: sum.splits)
  moreover have "\<exists>y \<in> set (ct_intents (control_step e c)). it_token_hash y = k \<and> it_status y = ''consumed''"
    if "k \<in> set (ct_consumed c)" for k
  proof -
    have "\<exists>r \<in> set (ct_intents c). it_token_hash r = k \<and> it_status r = ''consumed''"
      using assms that by (simp add: control_inv_def)
    then obtain y where "y \<in> set (ct_intents c)" "it_token_hash y = k" "it_status y = ''consumed''" by blast
    moreover from this have "y \<in> set (ct_intents (control_step e c))" using control_step_moves [of c e] by (simp add: spent_def)
    ultimately show ?thesis by blast
  qed
  ultimately show ?thesis using assms control_step_moves [of c e] by (simp add: control_inv_def spent_def)
qed

lemma control_run_inv: "control_inv c \<Longrightarrow> control_inv (control_run cs c)"
  by (induction cs arbitrary: c) (simp_all add: control_run_def control_step_inv)

text \<open>
  C37. Withdrawing authority is final: once the analysis of a session is revoked, no result
  computed under an epoch up to then passes the fence, whatever happens afterwards (even a new
  activation), and no intent of the session that was still unused can be consumed any more. In
  every history each intent is consumed at most once.
\<close>

theorem authority_withdrawn:
  assumes "control_inv c" "get_meeting s (ct_rows c) = Some r" "e \<le> mp_analysis_epoch r"
    "x \<in> set (ct_intents (control_run before c))" "it_legacy_session_id x = s" "it_plugin_id x = MEETING_PLUGIN_ID"
  shows "(\<exists>m. fence po t sessions s e (ct_rows (control_run (before @ Revoke s reason now # after) c)) = Inl (MeetingPluginDenied m))
    \<and> (\<exists>err. consume_intent he (it_token_hash x) scope at_time
          (ct_intents (control_run (before @ Revoke s reason now # after) c)) = Inl err)
    \<and> distinct (ct_consumed (control_run (before @ Revoke s reason now # after) c))"
proof -
  let ?b = "control_run before c" and ?z = "control_run (before @ Revoke s reason now # after) c"
  define m where "m = control_step (Revoke s reason now) ?b"
  have z: "?z = control_run after m" by (simp add: control_run_def m_def)
  obtain r1 where r1: "get_meeting s (ct_rows ?b) = Some r1" "mp_analysis_epoch r \<le> mp_analysis_epoch r1"
    using control_run_moves [of c before] assms(2) by (auto simp: moves_on_def)
  have "get_meeting s (ct_rows m) = map_option (\<lambda>r. if mp_legacy_session_id r = s then r\<lparr>mp_analysis_state := ''inactive'',
        mp_analysis_epoch := mp_analysis_epoch r + 1, mp_authority_epoch := mp_authority_epoch r + 1, mp_stopped_reason := Some reason\<rparr> else r)
      (get_meeting s (ct_rows ?b))"
    unfolding m_def control_step.simps revoke_authority_def update_rows_def by (simp, rule find_map_key) simp
  moreover have "mp_legacy_session_id r1 = s" using find_row_Some [OF r1(1)] by simp
  ultimately obtain r2 where "get_meeting s (ct_rows m) = Some r2" "mp_analysis_epoch r2 = mp_analysis_epoch r1 + 1"
    using r1(1) by simp
  then obtain r3 where "get_meeting s (ct_rows ?z) = Some r3" "e < mp_analysis_epoch r3"
    using control_run_moves [of m after] r1(2) assms(3) unfolding z moves_on_def by force
  then have fenced: "\<exists>m. fence po t sessions s e (ct_rows ?z) = Inl (MeetingPluginDenied m)" by (rule fence_newer_epoch)
  have inv: "control_inv ?z" using control_run_inv [OF assms(1)] .
  have "\<exists>y \<in> set (ct_intents m). it_token_hash y = it_token_hash x \<and> it_status y \<noteq> ''active''"
    using revoke_intents_spends [OF assms(4-6), of now] by (simp add: m_def revoke_authority_def)
  then obtain y where "y \<in> set (ct_intents ?z)" "it_token_hash y = it_token_hash x" "it_status y \<noteq> ''active''"
    using control_run_moves [of m after] unfolding z spent_def by blast
  then have "\<exists>err. consume_intent he (it_token_hash x) scope at_time (ct_intents ?z) = Inl err"
    using spent_token_refused [of "ct_intents ?z" y] inv by (auto simp: control_inv_def)
  with fenced inv show ?thesis by (simp add: control_inv_def)
qed

definition demo_scope :: host_action_scope where
  "demo_scope = \<lparr>hs_plugin_id = MEETING_PLUGIN_ID, hs_plugin_version = ''1'', hs_media_session_id = ''m'', hs_legacy_session_id = ''s'',
     hs_actor_id = ''u'', hs_authority_epoch = 0, hs_analysis_epoch = Some 1, hs_action = ''meeting.ask'', hs_payload_hash = [],
     hs_candidate_revisions = [], hs_snapshot_id = None, hs_team_id = None, hs_max_side_effects = 0, hs_source = ''plugin'',
     hs_action_grant_id = None, hs_capability_grant_id = None\<rparr>"

definition demo_meeting :: meeting_session where
  "demo_meeting = \<lparr>mp_legacy_session_id = ''s'', mp_media_session_id = ''m'', mp_plugin_id = MEETING_PLUGIN_ID, mp_plugin_version = ''1'',
     mp_analysis_state = ''active'', mp_analysis_epoch = 1, mp_authority_epoch = 0, mp_activated_by = Some ''u'',
     mp_activated_at = Some 0, mp_stopped_reason = None, mp_terminal_frontier = None\<rparr>"

definition demo_intent :: intent_record where
  "demo_intent = \<lparr>it_id = ''i'', it_token_hash = ''t'', it_plugin_id = MEETING_PLUGIN_ID, it_plugin_version = ''1'',
     it_media_session_id = ''m'', it_legacy_session_id = ''s'', it_authority_epoch = 0, it_scope_hash = ''h'', it_scope = demo_scope,
     it_status = ''active'', it_created_at = 0, it_expires_at = 100, it_consumed_at = None, it_revoked_at = None\<rparr>"

definition demo_control :: control_state where
  "demo_control = \<lparr>ct_rows = [demo_meeting], ct_intents = [demo_intent], ct_consumed = []\<rparr>"

theorem authority_withdrawn_witness:
  "(\<exists>m. fence \<lparr>po_enabled = True, po_require_runtime_ready = False\<rparr> \<lparr>pt_media_sessions = [], pt_bindings = [],
        pt_installations = [], pt_packages = [], pt_permissions = [], pt_health = []\<rparr> [] ''s'' 1
        (ct_rows (control_run ([] @ Revoke ''s'' ''host_revoked'' 5 # []) demo_control)) = Inl (MeetingPluginDenied m))
   \<and> (\<exists>err. consume_intent \<lparr>he_repr = (\<lambda>_. ''''), he_sha256 = (\<lambda>_. ''h''), he_iso = (\<lambda>_. '''')\<rparr> (it_token_hash demo_intent) demo_scope 6
        (ct_intents (control_run ([] @ Revoke ''s'' ''host_revoked'' 5 # []) demo_control)) = Inl err)
   \<and> distinct (ct_consumed (control_run ([] @ Revoke ''s'' ''host_revoked'' 5 # []) demo_control))"
  by (rule authority_withdrawn [where r = demo_meeting])
    (simp_all add: control_inv_def control_run_def demo_control_def demo_meeting_def demo_intent_def)

end
