(* ===== verification/Fair_Queue.thy ===== *)
theory Fair_Queue
  imports Prelude
begin

section \<open>The fair queue of sessions\<close>

text \<open>
  Models \<open>_FairSessionQueue\<close> of \<open>meeting_state/projector.py\<close>: two heaps of sessions, one with priority,
  and a streak counter that lets a normal session through after a burst. A heap is the list of
  its entries in the order in which \<open>heapq\<close> gives them out, by time and sequence number; an
  entry whose session has been scheduled otherwise meanwhile is skipped when it comes up.
\<close>

record queue_entry =
  qe_queued_at :: instant
  qe_sequence :: nat
  qe_session_id :: string

record fair_queue =
  fq_priority_burst :: nat
  fq_priority :: "queue_entry list"
  fq_normal :: "queue_entry list"
  fq_scheduled :: "(string, bool) dict"
  fq_sequence :: nat
  fq_priority_streak :: nat

definition entry_key :: "queue_entry \<Rightarrow> instant \<times> nat" where
  "entry_key e = (qe_queued_at e, qe_sequence e)"

definition fair_queue_init :: "nat \<Rightarrow> fair_queue" where
  "fair_queue_init burst = \<lparr>fq_priority_burst = burst, fq_priority = [], fq_normal = [], fq_scheduled = [], fq_sequence = 0,
     fq_priority_streak = 0\<rparr>"

definition queue_put :: "string \<Rightarrow> bool \<Rightarrow> instant \<Rightarrow> fair_queue \<Rightarrow> fair_queue" where
  "queue_put session_id priority now q =
     (let current = dict_get (fq_scheduled q) session_id in
      if current = Some True \<or> current = Some priority then q
      else let e = \<lparr>qe_queued_at = now, qe_sequence = fq_sequence q, qe_session_id = session_id\<rparr>;
               q = q\<lparr>fq_scheduled := dict_set (fq_scheduled q) session_id priority, fq_sequence := Suc (fq_sequence q)\<rparr>
           in if priority then q\<lparr>fq_priority := insort_key entry_key e (fq_priority q)\<rparr>
              else q\<lparr>fq_normal := insort_key entry_key e (fq_normal q)\<rparr>)"

definition uses_priority :: "fair_queue \<Rightarrow> bool" where
  "uses_priority q \<longleftrightarrow> fq_priority q \<noteq> [] \<and> \<not> (fq_normal q \<noteq> [] \<and> fq_priority_streak q \<ge> fq_priority_burst q)"

text \<open>\<open>get\<close>: the session that is handed out, or nothing when the caller has to wait.\<close>

function queue_get :: "fair_queue \<Rightarrow> (string \<times> bool) option \<times> fair_queue" where
  "queue_get q =
     (let use_priority = uses_priority q in
      case (if use_priority then fq_priority q else fq_normal q) of
        [] \<Rightarrow> (None, q)
      | e # rest \<Rightarrow>
          let q = (if use_priority then q\<lparr>fq_priority := rest\<rparr> else q\<lparr>fq_normal := rest\<rparr>) in
          if dict_get (fq_scheduled q) (qe_session_id e) \<noteq> Some use_priority then queue_get q
          else (Some (qe_session_id e, use_priority),
                q\<lparr>fq_scheduled := dict_pop (fq_scheduled q) (qe_session_id e),
                  fq_priority_streak := (if use_priority then Suc (fq_priority_streak q) else 0)\<rparr>))"
  by pat_completeness auto
termination
  by (relation "measure (\<lambda>q. length (fq_priority q) + length (fq_normal q))") (auto split: if_splits)

declare queue_get.simps [simp del]

subsection \<open>Invariant\<close>

text \<open>Heaps are ordered and old, and every scheduled session has an entry in its heap.\<close>

definition entries_of :: "bool \<Rightarrow> fair_queue \<Rightarrow> queue_entry list" where
  "entries_of priority q = (if priority then fq_priority q else fq_normal q)"

definition queue_inv :: "instant \<Rightarrow> fair_queue \<Rightarrow> bool" where
  "queue_inv now q \<longleftrightarrow> sorted (map entry_key (fq_priority q)) \<and> sorted (map entry_key (fq_normal q))
     \<and> (\<forall>e \<in> set (fq_priority q) \<union> set (fq_normal q). entry_key e < (now, fq_sequence q))
     \<and> (\<forall>s p. dict_get (fq_scheduled q) s = Some p \<longrightarrow> (\<exists>e \<in> set (entries_of p q). qe_session_id e = s))"

lemma insort_last: "(\<forall>x \<in> set xs. entry_key x < entry_key e) \<Longrightarrow> insort_key entry_key e xs = xs @ [e]"
  by (induction xs) (auto simp: leD)

lemma queue_inv_later:
  assumes "queue_inv now q" "now \<le> now'"
  shows "queue_inv now' q"
proof -
  have "(now, fq_sequence q) \<le> (now', fq_sequence q)" using assms(2) by auto
  with assms(1) show ?thesis unfolding queue_inv_def by (meson order_less_le_trans)
qed

lemma queue_put_inv:
  assumes "queue_inv now q"
  shows "queue_inv now (queue_put s p now q)"
proof -
  let ?e = "\<lparr>qe_queued_at = now, qe_sequence = fq_sequence q, qe_session_id = s\<rparr>"
  have less: "\<forall>x \<in> set (fq_priority q). entry_key x < entry_key ?e" "\<forall>x \<in> set (fq_normal q). entry_key x < entry_key ?e"
    using assms by (auto simp: queue_inv_def entry_key_def)
  have step: "x < (now, fq_sequence q) \<Longrightarrow> x < (now, Suc (fq_sequence q))" for x by (cases x) auto
  have key: "entry_key ?e = (now, fq_sequence q)" by (simp add: entry_key_def)
  show ?thesis
    using assms less step
    by (auto simp: queue_put_def Let_def queue_inv_def entries_of_def insort_last sorted_append key less_imp_le split: if_splits)
qed

lemma stale_pop_inv:
  assumes "queue_inv now q" "entries_of p q = e # rest" "dict_get (fq_scheduled q) (qe_session_id e) \<noteq> Some p"
  shows "queue_inv now (if p then q\<lparr>fq_priority := rest\<rparr> else q\<lparr>fq_normal := rest\<rparr>)"
  using assms unfolding queue_inv_def entries_of_def by (auto split: if_splits)

lemma served_inv:
  assumes "queue_inv now q" "entries_of p q = e # rest"
  shows "queue_inv now ((if p then q\<lparr>fq_priority := rest\<rparr> else q\<lparr>fq_normal := rest\<rparr>)
     \<lparr>fq_scheduled := dict_pop (fq_scheduled q) (qe_session_id e), fq_priority_streak := k\<rparr>)"
  using assms unfolding queue_inv_def entries_of_def by (auto split: if_splits)

text \<open>The two ways in which \<open>get\<close> goes on after taking an entry.\<close>

lemma queue_get_stale:
  "entries_of (uses_priority q) q = e # rest \<Longrightarrow> dict_get (fq_scheduled q) (qe_session_id e) \<noteq> Some (uses_priority q) \<Longrightarrow>
   queue_get q = queue_get (if uses_priority q then q\<lparr>fq_priority := rest\<rparr> else q\<lparr>fq_normal := rest\<rparr>)"
  by (subst queue_get.simps) (cases "uses_priority q"; simp add: entries_of_def Let_def)

lemma queue_get_served:
  "entries_of (uses_priority q) q = e # rest \<Longrightarrow> dict_get (fq_scheduled q) (qe_session_id e) = Some (uses_priority q) \<Longrightarrow>
   queue_get q = (Some (qe_session_id e, uses_priority q),
     (if uses_priority q then q\<lparr>fq_priority := rest\<rparr> else q\<lparr>fq_normal := rest\<rparr>)
       \<lparr>fq_scheduled := dict_pop (fq_scheduled q) (qe_session_id e),
        fq_priority_streak := (if uses_priority q then Suc (fq_priority_streak q) else 0)\<rparr>)"
  by (subst queue_get.simps) (simp add: entries_of_def Let_def)

lemma queue_get_waits: "entries_of (uses_priority q) q = [] \<Longrightarrow> queue_get q = (None, q)"
  by (subst queue_get.simps) (simp add: entries_of_def Let_def)

lemma queue_get_inv: "queue_inv now q \<Longrightarrow> queue_inv now (snd (queue_get q))"
proof (induction "length (fq_priority q) + length (fq_normal q)" arbitrary: q rule: less_induct)
  case less
  show ?case
  proof (cases "entries_of (uses_priority q) q")
    case Nil
    then show ?thesis using less.prems by (simp add: queue_get_waits)
  next
    case (Cons e rest)
    show ?thesis
    proof (cases "dict_get (fq_scheduled q) (qe_session_id e) = Some (uses_priority q)")
      case True
      then show ?thesis using served_inv [OF less.prems Cons] by (simp add: queue_get_served [OF Cons])
    next
      case False
      have "queue_inv now (if uses_priority q then q\<lparr>fq_priority := rest\<rparr> else q\<lparr>fq_normal := rest\<rparr>)"
        by (rule stale_pop_inv [OF less.prems Cons False])
      from less.hyps [OF _ this] Cons show ?thesis
        unfolding queue_get_stale [OF Cons False] by (auto simp: entries_of_def split: if_splits)
    qed
  qed
qed

subsection \<open>Bounded waiting\<close>

definition ahead :: "string \<Rightarrow> fair_queue \<Rightarrow> nat" where
  "ahead s q = length (takeWhile (\<lambda>e. qe_session_id e \<noteq> s) (fq_normal q))"

definition patience :: "string \<Rightarrow> fair_queue \<Rightarrow> nat" where
  "patience s q = ahead s q * Suc (fq_priority_burst q) + (fq_priority_burst q - fq_priority_streak q)"

lemma patience_bound: "patience s q \<le> length (fq_normal q) * Suc (fq_priority_burst q) + fq_priority_burst q"
proof -
  have "ahead s q \<le> length (fq_normal q)" by (simp add: ahead_def length_takeWhile_le)
  then show ?thesis unfolding patience_def by (intro add_mono mult_le_mono1) simp_all
qed

lemma queue_get_burst: "fq_priority_burst (snd (queue_get q)) = fq_priority_burst q"
  by (induction q rule: queue_get.induct) (subst queue_get.simps, auto simp: Let_def split: list.splits if_splits)

lemma queue_get_progress:
  assumes "queue_inv now q" "dict_get (fq_scheduled q) s = Some False"
  shows "\<exists>t p. fst (queue_get q) = Some (t, p) \<and> (if t = s then \<not> p else
     dict_get (fq_scheduled (snd (queue_get q))) s = Some False \<and> patience s (snd (queue_get q)) < patience s q)"
  using assms
proof (induction "length (fq_priority q) + length (fq_normal q)" arbitrary: q rule: less_induct)
  case less
  obtain x where "x \<in> set (fq_normal q)" "qe_session_id x = s"
    using less.prems by (force simp: queue_inv_def entries_of_def)
  then have normal: "fq_normal q \<noteq> []" by auto
  have "entries_of (uses_priority q) q \<noteq> []" using normal by (auto simp: entries_of_def uses_priority_def)
  then obtain e rest where heap: "entries_of (uses_priority q) q = e # rest" by (cases "entries_of (uses_priority q) q") auto
  show ?case
  proof (cases "dict_get (fq_scheduled q) (qe_session_id e) = Some (uses_priority q)")
    case True
    note get = queue_get_served [OF heap True]
    show ?thesis
    proof (cases "uses_priority q")
      case prio: True
      then have "qe_session_id e \<noteq> s" "fq_priority_streak q < fq_priority_burst q"
        using True less.prems(2) normal by (auto simp: uses_priority_def)
      with prio less.prems(2) show ?thesis by (auto simp: get patience_def ahead_def)
    next
      case norm: False
      then have "fq_normal q = e # rest" using heap by (simp add: entries_of_def)
      with norm less.prems(2) show ?thesis by (auto simp: get patience_def ahead_def)
    qed
  next
    case False
    define q1 where "q1 = (if uses_priority q then q\<lparr>fq_priority := rest\<rparr> else q\<lparr>fq_normal := rest\<rparr>)"
    have inv: "queue_inv now q1" unfolding q1_def by (rule stale_pop_inv [OF less.prems(1) heap False])
    have get: "queue_get q = queue_get q1" unfolding q1_def by (rule queue_get_stale [OF heap False])
    have "patience s q1 \<le> patience s q"
      using heap False less.prems(2) by (auto simp: q1_def patience_def ahead_def entries_of_def split: if_splits)
    moreover have "length (fq_priority q1) + length (fq_normal q1) < length (fq_priority q) + length (fq_normal q)"
      using heap by (auto simp: q1_def entries_of_def split: if_splits)
    moreover have "dict_get (fq_scheduled q1) s = Some False" using less.prems(2) by (simp add: q1_def)
    ultimately show ?thesis unfolding get using less.hyps [OF _ inv] by (metis order_less_le_trans)
  qed
qed

lemma queue_put_patience:
  assumes "queue_inv now q" "dict_get (fq_scheduled q) s = Some False" "\<not> (t = s \<and> p)"
  shows "dict_get (fq_scheduled (queue_put t p now q)) s = Some False" "patience s (queue_put t p now q) = patience s q"
proof -
  show "dict_get (fq_scheduled (queue_put t p now q)) s = Some False"
    using assms(2,3) by (auto simp: queue_put_def Let_def)
  obtain x where x: "x \<in> set (fq_normal q)" "qe_session_id x = s"
    using assms(1,2) by (force simp: queue_inv_def entries_of_def)
  have last: "insort_key entry_key \<lparr>qe_queued_at = now, qe_sequence = fq_sequence q, qe_session_id = t\<rparr> (fq_normal q)
      = fq_normal q @ [\<lparr>qe_queued_at = now, qe_sequence = fq_sequence q, qe_session_id = t\<rparr>]"
    using assms(1) by (intro insort_last) (auto simp: queue_inv_def entry_key_def)
  have "takeWhile (\<lambda>e. qe_session_id e \<noteq> s) (fq_normal q @ zs) = takeWhile (\<lambda>e. qe_session_id e \<noteq> s) (fq_normal q)" for zs
    using x by (intro takeWhile_append1) auto
  then show "patience s (queue_put t p now q) = patience s q"
    by (simp add: queue_put_def Let_def patience_def ahead_def last)
qed

subsection \<open>Runs\<close>

datatype queue_event = Put string bool instant | Get

fun queue_run :: "queue_event list \<Rightarrow> fair_queue \<Rightarrow> (string \<times> bool) option list \<times> fair_queue" where
  "queue_run [] q = ([], q)"
| "queue_run (Put s p now # es) q = queue_run es (queue_put s p now q)"
| "queue_run (Get # es) q = (let (r, q) = queue_get q; (rs, q) = queue_run es q in (r # rs, q))"

fun put_times :: "queue_event list \<Rightarrow> instant list" where
  "put_times [] = []"
| "put_times (Put _ _ now # es) = now # put_times es"
| "put_times (Get # es) = put_times es"

abbreviation gets :: "queue_event list \<Rightarrow> nat" where
  "gets es \<equiv> count_list es Get"

lemma queue_run_append: "queue_run (es @ es') q = (fst (queue_run es q) @ fst (queue_run es' (snd (queue_run es q))), snd (queue_run es' (snd (queue_run es q))))"
  by (induction es q rule: queue_run.induct) (auto simp: Let_def split: prod.splits)

lemma put_times_append: "put_times (es @ es') = put_times es @ put_times es'"
  by (induction es rule: put_times.induct) auto

lemma queue_run_inv:
  assumes "queue_inv now q" "sorted (now # put_times es)"
  shows "queue_inv (last (now # put_times es)) (snd (queue_run es q)) \<and> fq_priority_burst (snd (queue_run es q)) = fq_priority_burst q"
  using assms
proof (induction es q arbitrary: now rule: queue_run.induct)
  case (2 s p t es q)
  have "now \<le> t" "sorted (t # put_times es)" using 2(3) by simp_all
  moreover have "queue_inv t (queue_put s p t q)"
    by (rule queue_put_inv [OF queue_inv_later [OF 2(2) calculation(1)]])
  moreover have "fq_priority_burst (queue_put s p t q) = fq_priority_burst q" by (simp add: queue_put_def Let_def)
  ultimately show ?case using 2(1) [of t] by simp
next
  case (3 es q)
  obtain r q' where get: "queue_get q = (r, q')" by fastforce
  have "queue_inv now q'" using queue_get_inv [OF 3(2)] by (simp add: get)
  obtain rs q2 where run: "queue_run es q' = (rs, q2)" by fastforce
  have "queue_inv (last (now # put_times es)) q2 \<and> fq_priority_burst q2 = fq_priority_burst q'"
    using 3(1) [OF get [symmetric] refl \<open>queue_inv now q'\<close>] 3(3) by (simp add: run)
  then show ?case using queue_get_burst [of q] by (simp add: get run Let_def)
qed simp

lemma queue_run_serves:
  assumes "queue_inv now q" "dict_get (fq_scheduled q) s = Some False" "sorted (now # put_times es)"
    "\<forall>t. Put s True t \<notin> set es" "patience s q < gets es"
  shows "Some (s, False) \<in> set (fst (queue_run es q))"
  using assms
proof (induction es q arbitrary: now rule: queue_run.induct)
  case (2 t p u es q)
  have later: "queue_inv u q" by (rule queue_inv_later [OF 2(2)]) (use 2(4) in simp)
  have "\<not> (t = s \<and> p)" using 2(5) by auto
  note put = queue_put_patience [OF later 2(3) this]
  show ?case using 2(1) [OF queue_put_inv [OF later] put(1)] put(2) 2(4-6) by auto
next
  case (3 es q)
  obtain r q' where get: "queue_get q = (r, q')" by fastforce
  obtain t p where r: "r = Some (t, p)"
    and cases: "if t = s then \<not> p else dict_get (fq_scheduled q') s = Some False \<and> patience s q' < patience s q"
    using queue_get_progress [OF 3(2,3)] unfolding get fst_conv snd_conv by blast
  show ?case
  proof (cases "t = s")
    case True
    then show ?thesis using cases by (simp add: get r Let_def split: prod.splits)
  next
    case False
    have "queue_inv now q'" using queue_get_inv [OF 3(2)] by (simp add: get)
    then have "Some (s, False) \<in> set (fst (queue_run es q'))"
      using 3(1) [OF get [symmetric] refl] False cases 3(4-6) by auto
    moreover obtain rs q2 where "queue_run es q' = (rs, q2)" by fastforce
    ultimately show ?thesis by (simp add: get Let_def)
  qed
qed simp

lemma fair_queue_init_inv: "queue_inv now (fair_queue_init burst)"
  by (simp add: queue_inv_def fair_queue_init_def)

text \<open>
  C38. No session starves: after any history of the queue, a session that is scheduled without
  priority is handed out within (entries waiting + 1) * (burst + 1) calls of \<open>get\<close>, however many
  priority requests arrive meanwhile, unless it is given priority itself.
\<close>

theorem queue_bounded_wait:
  assumes "sorted (put_times (before @ after))" "dict_get (fq_scheduled (snd (queue_run before (fair_queue_init burst)))) s = Some False"
    "\<forall>t. Put s True t \<notin> set after"
    "gets after \<ge> Suc (length (fq_normal (snd (queue_run before (fair_queue_init burst))))) * Suc burst"
  shows "Some (s, False) \<in> set (fst (queue_run after (snd (queue_run before (fair_queue_init burst)))))"
proof -
  let ?q = "snd (queue_run before (fair_queue_init burst))"
  obtain start where "sorted (start # put_times (before @ after))"
    using assms(1) by (cases "put_times (before @ after)") auto
  then have sorted: "sorted (start # put_times before)" "sorted (last (start # put_times before) # put_times after)"
    unfolding put_times_append by (auto simp: sorted_append)
  have inv: "queue_inv (last (start # put_times before)) ?q" and burst: "fq_priority_burst ?q = burst"
    using queue_run_inv [OF fair_queue_init_inv sorted(1), of burst] by (simp_all add: fair_queue_init_def)
  have "patience s ?q < gets after"
    using patience_bound [of s ?q] assms(4) unfolding burst by simp
  from queue_run_serves [OF inv assms(2) sorted(2) assms(3) this] show ?thesis .
qed

definition demo_before :: "queue_event list" where
  "demo_before = [Put ''n'' False 1, Put ''a'' True 2, Put ''b'' True 3]"

theorem queue_bounded_wait_witness:
  "Some (''n'', False) \<in> set (fst (queue_run [Get, Get, Get, Get] (snd (queue_run demo_before (fair_queue_init 1)))))"
  by (rule queue_bounded_wait) (simp_all add: demo_before_def queue_put_def fair_queue_init_def Let_def)

end
