(* ===== verification/Media_Projection.thy ===== *)
theory Media_Projection
  imports Media_Repository Segment_Store
begin

section \<open>Projection of a session into its event log\<close>

text \<open>
  Models \<open>media/projector.py\<close>: the Finals of a session, its translations and its end are appended to the
  event log of its media session in batches, and an offset per source row remembers what has been
  done. A batch is two transactions, one that appends and one that advances the offsets, and the
  process may die between them. Projections in a process are serialized by a lock, so selects are
  answered from the present state here. Identifiers and clock are arguments that may look at the
  whole state; the polling loop calls \<open>project_session_to_completion\<close> on what \<open>list_session_ids\<close> returns.
\<close>

subsection \<open>What is to be projected\<close>

record host_world =
  hw_sessions :: "session_record list"
  hw_segments :: segment_table
  hw_translations :: translation_table

record projector_config =
  pc_poll_interval_ms :: int
  pc_batch_size :: int
  pc_scan_session_limit :: int

definition projector_config_ok :: "projector_config \<Rightarrow> bool" where
  "projector_config_ok c \<longleftrightarrow> pc_poll_interval_ms c > 0 \<and> \<not> (pc_batch_size c \<le> 0 \<or> pc_batch_size c > 1000)
     \<and> \<not> (pc_scan_session_limit c \<le> 0 \<or> pc_scan_session_limit c > 10000)"

record projector_env =
  pe_repr :: "rat \<Rightarrow> string"
  pe_uuid :: "nat \<Rightarrow> media_db \<Rightarrow> string"
  pe_now :: "media_db \<Rightarrow> instant"

record projection_item =
  pi_source_table :: string
  pi_source_type :: string
  pi_source_logical_id :: string
  pi_event_type :: string
  pi_logical_id :: string
  pi_revision :: int
  pi_media_time_ms :: "int option"
  pi_duration_ms :: "int option"
  pi_source :: string
  pi_payload :: "(string \<times> jvalue) list"
  pi_created_at :: instant
  pi_terminal_status :: "string option"

definition duration :: "int option \<Rightarrow> int option \<Rightarrow> int option" where
  "duration start_ms end_ms = (case (start_ms, end_ms) of (Some s, Some e) \<Rightarrow> Some (max 0 (e - s)) | _ \<Rightarrow> None)"

definition transcript_projection :: "segment_record \<Rightarrow> projection_item" where
  "transcript_projection r = (let l = ''transcript:'' @ sg_segment_id r in
     \<lparr>pi_source_table = ''segments'', pi_source_type = ''transcript.final'', pi_source_logical_id = l,
      pi_event_type = ''transcript.final'', pi_logical_id = l, pi_revision = sg_revision r,
      pi_media_time_ms = sg_audio_start_ms r, pi_duration_ms = duration (sg_audio_start_ms r) (sg_audio_end_ms r),
      pi_source = ''host.transcription'',
      pi_payload = [(''text'', VStr (sg_display_text r)), (''language'', VStr (sg_language r)), (''track_id'', VStr (sg_track_id r)),
        (''confidence'', case sg_confidence r of None \<Rightarrow> VNull | Some c \<Rightarrow> VFloat c),
        (''evidence'', VObj [(''legacy_session_id'', VStr (sg_session_id r)), (''segment_id'', VStr (sg_segment_id r)),
          (''record_id'', VStr (sg_id r))])],
      pi_created_at = sg_finalized_at r, pi_terminal_status = None\<rparr>)"

definition translation_projection :: "translation_record \<Rightarrow> projection_item" where
  "translation_projection r = (let l = ''translation:'' @ ts_target_language r @ '':'' @ ts_segment_id r in
     \<lparr>pi_source_table = ''translation_segments'', pi_source_type = ''translation.final'', pi_source_logical_id = l,
      pi_event_type = ''translation.final'', pi_logical_id = l, pi_revision = ts_revision r,
      pi_media_time_ms = ts_audio_start_ms r, pi_duration_ms = duration (ts_audio_start_ms r) (ts_audio_end_ms r),
      pi_source = ''host.translation'',
      pi_payload = [(''text'', VStr (ts_text r)), (''language'', VStr (ts_target_language r)), (''confidence'', VNull),
        (''source_language'', VStr (ts_source_language r)), (''target_language'', VStr (ts_target_language r)),
        (''source_segment_ids'', VArr (map VStr (ts_source_segment_ids r))),
        (''evidence'', VObj [(''legacy_session_id'', VStr (ts_session_id r)), (''translation_segment_id'', VStr (ts_segment_id r)),
          (''record_id'', VStr (ts_id r))])],
      pi_created_at = ts_finalized_at r, pi_terminal_status = None\<rparr>)"

definition terminal_item :: "session_record \<Rightarrow> projection_item" where
  "terminal_item s = (let l = ''session:'' @ ses_id s @ '':terminal''; t = ''session.'' @ ses_status s in
     \<lparr>pi_source_table = ''sessions'', pi_source_type = t, pi_source_logical_id = l, pi_event_type = t, pi_logical_id = l,
      pi_revision = 1, pi_media_time_ms = None, pi_duration_ms = None, pi_source = ''host.session'',
      pi_payload = [(''legacy_session_id'', VStr (ses_id s)), (''status'', VStr (ses_status s)),
        (''stop_reason'', case ses_stop_reason s of None \<Rightarrow> VNull | Some r \<Rightarrow> VStr r)],
      pi_created_at = or_else (ses_ended_at s) (ses_created_at s), pi_terminal_status = Some (ses_status s)\<rparr>)"

definition segment_finals :: "host_world \<Rightarrow> string \<Rightarrow> segment_record list" where
  "segment_finals w s = sort_key (\<lambda>r. (time_key (sg_audio_start_ms r), sg_finalized_at r, sg_id r))
     (filter (\<lambda>r. sg_session_id r = s \<and> sg_status r = ''final'') (hw_segments w))"

definition translation_finals :: "host_world \<Rightarrow> string \<Rightarrow> translation_record list" where
  "translation_finals w s = sort_key (\<lambda>r. (time_key (ts_audio_start_ms r), ts_finalized_at r, ts_id r))
     (filter (\<lambda>r. ts_session_id r = s \<and> ts_status r = ''final'') (hw_translations w))"

text \<open>Every item of a session, in the order of the code; the pending ones are ahead of their offsets.\<close>

definition items_of :: "host_world \<Rightarrow> session_record \<Rightarrow> projection_item list" where
  "items_of w legacy = map transcript_projection (segment_finals w (ses_id legacy)) @ map translation_projection (translation_finals w (ses_id legacy))
     @ (if ses_status legacy \<in> status_value ` set TERMINAL_SESSION_STATES then [terminal_item legacy] else [])"

abbreviation item_source :: "projection_item \<Rightarrow> source_id" where
  "item_source i \<equiv> (pi_source_table i, pi_source_type i, pi_source_logical_id i)"

definition offset_of :: "string \<Rightarrow> media_db \<Rightarrow> source_id \<Rightarrow> int" where
  "offset_of s db source = (case find_row (bridged s) (mdb_sessions db) of
     None \<Rightarrow> 0
   | Some m \<Rightarrow> case get_bridge_offset (mse_id m) source db of None \<Rightarrow> 0 | Some r \<Rightarrow> bo_processed_revision r)"

definition read_pending_items :: "host_world \<Rightarrow> string \<Rightarrow> media_db \<Rightarrow> projection_item list res" where
  "read_pending_items w s db = (case find_row (\<lambda>r. ses_id r = s) (hw_sessions w) of
     None \<Rightarrow> Inl (LookupError (''Session not found: '' @ s))
   | Some legacy \<Rightarrow> Inr (filter (\<lambda>i. \<not> offset_of s db (item_source i) \<ge> pi_revision i) (items_of w legacy)))"

subsection \<open>One batch\<close>

definition item_args :: "string \<Rightarrow> projection_item \<Rightarrow> event_args" where
  "item_args m i = \<lparr>ea_media_session_id = m, ea_event_type = pi_event_type i,
     ea_finality = (if pi_source_table i \<noteq> ''sessions'' then ''final'' else ''derived''), ea_source = pi_source i,
     ea_payload = pi_payload i, ea_media_time_ms = pi_media_time_ms i, ea_duration_ms = pi_duration_ms i,
     ea_logical_id = Some (pi_logical_id i), ea_revision = Some (pi_revision i), ea_created_at = Some (pi_created_at i)\<rparr>"

definition ensure_bridge :: "projector_env \<Rightarrow> host_world \<Rightarrow> string \<Rightarrow> media_db \<Rightarrow> (media_db \<times> media_session_record) res" where
  "ensure_bridge env w s db =
     ensure_legacy_session_bridge (hw_sessions w) s ''live'' None (pe_uuid env 0 db) (pe_now env db) (mdb_sessions db) db"

definition append_item :: "projector_env \<Rightarrow> string \<Rightarrow> projection_item \<Rightarrow> media_db \<Rightarrow> (media_db \<times> media_event_record) res" where
  "append_item env m i db = (let view = get_media_session m db in
     append_media_event (pe_repr env) (item_args m i) (pe_now env db)
       ((pe_uuid env 0 db, view), (pe_uuid env 1 db, view), (pe_uuid env 2 db, view)) (mdb_events db) db)"

fun persist_items :: "projector_env \<Rightarrow> string \<Rightarrow> projection_item list \<Rightarrow> nat \<Rightarrow> media_db \<Rightarrow> (media_db \<times> nat) res" where
  "persist_items env m [] projected db = Inr (db, projected)"
| "persist_items env m (i # is) projected db =
     (let existing = find_source_revision (item_args m i) (mdb_events db) in
      rbind (append_item env m i db) (\<lambda>(db, _).
        persist_items env m is (if existing = None then projected + 1 else projected) db))"

definition persist_event_batch ::
  "projector_env \<Rightarrow> host_world \<Rightarrow> string \<Rightarrow> projection_item list \<Rightarrow> media_db \<Rightarrow> (media_db \<times> string \<times> nat) res" where
  "persist_event_batch env w s items db =
     rbind (ensure_bridge env w s db) (\<lambda>(db, m).
     rbind (persist_items env (mse_id m) items 0 db) (\<lambda>(db, projected). Inr (db, mse_id m, projected)))"

fun advance_items ::
  "projector_env \<Rightarrow> string \<Rightarrow> projection_item list \<Rightarrow> string option \<Rightarrow> media_db \<Rightarrow> (media_db \<times> string option) res" where
  "advance_items env m [] terminal db = Inr (db, terminal)"
| "advance_items env m (i # is) terminal db =
     rbind (advance_bridge_offset m (item_source i) (pi_revision i) (pe_now env db) (pe_uuid env 0 db) db) (\<lambda>(db, _).
       advance_items env m is (if pi_terminal_status i = None then terminal else pi_terminal_status i) db)"

definition advance_offsets :: "projector_env \<Rightarrow> string \<Rightarrow> projection_item list \<Rightarrow> media_db \<Rightarrow> media_db res" where
  "advance_offsets env m items db =
     rbind (advance_items env m items None db) (\<lambda>(db, terminal). Inr (case terminal of
       None \<Rightarrow> db
     | Some st \<Rightarrow> db\<lparr>mdb_sessions := update_rows (\<lambda>r. mse_id r = m)
         (\<lambda>r. r\<lparr>mse_status := st, mse_updated_at := pe_now env db\<rparr>) (mdb_sessions db)\<rparr>))"

subsection \<open>To completion\<close>

text \<open>The \<open>while True\<close> loop; a run that never returned would be \<open>None\<close>.\<close>

partial_function (option) project_loop ::
  "projector_env \<Rightarrow> nat \<Rightarrow> host_world \<Rightarrow> string \<Rightarrow> nat \<Rightarrow> media_db \<Rightarrow> (media_db \<times> string \<times> nat) res option" where
  "project_loop env batch w s so_far db =
     (case read_pending_items w s db of
        Inl e \<Rightarrow> Some (Inl e)
      | Inr items \<Rightarrow>
          if items = [] then Some (rbind (ensure_bridge env w s db) (\<lambda>(db, m). Inr (db, mse_id m, so_far)))
          else case persist_event_batch env w s (take batch items) db of
            Inl e \<Rightarrow> Some (Inl e)
          | Inr (db1, m, projected) \<Rightarrow>
              case advance_offsets env m (take batch items) db1 of
                Inl e \<Rightarrow> Some (Inl e)
              | Inr db2 \<Rightarrow>
                  if length (take batch items) < batch then Some (Inr (db2, m, so_far + projected))
                  else project_loop env batch w s (so_far + projected) db2)"

record catch_up_result =
  cr_legacy_session_id :: string
  cr_media_session_id :: string
  cr_projected_event_count :: nat
  cr_latest_sequence :: int

definition latest_sequence :: "string \<Rightarrow> media_db \<Rightarrow> int" where
  "latest_sequence m db = fold max (map mer_sequence (events_of m (mdb_events db))) 0"

definition project_session_to_completion ::
  "projector_env \<Rightarrow> projector_config \<Rightarrow> host_world \<Rightarrow> string \<Rightarrow> media_db \<Rightarrow> (media_db \<times> catch_up_result) res option" where
  "project_session_to_completion env c w s db =
     map_option (\<lambda>r. rbind r (\<lambda>(db, m, total). Inr (db, \<lparr>cr_legacy_session_id = s, cr_media_session_id = m,
       cr_projected_event_count = total, cr_latest_sequence = latest_sequence m db\<rparr>)))
       (project_loop env (nat (pc_batch_size c)) w s 0 db)"

text \<open>The sessions of one scan.\<close>

definition list_session_ids :: "projector_config \<Rightarrow> host_world \<Rightarrow> string list" where
  "list_session_ids c w = take (nat (pc_scan_session_limit c))
     (map ses_id (sort_key (\<lambda>r. (ses_created_at r, ses_id r)) (hw_sessions w)))"

subsection \<open>Items and their events\<close>

definition recorded :: "string \<Rightarrow> projection_item \<Rightarrow> media_event_record list \<Rightarrow> bool" where
  "recorded m i rows \<longleftrightarrow> (\<exists>e \<in> set rows. source_key e = Some (m, pi_source i, pi_logical_id i, pi_revision i))"

text \<open>An event that was made from an item.\<close>

definition made_from :: "string \<Rightarrow> projection_item \<Rightarrow> media_event_record \<Rightarrow> bool" where
  "made_from m i e \<longleftrightarrow> (\<exists>event_id q now. e = media_event_row (event_contract (item_args m i) event_id q now))"

lemma made_from_key: "made_from m i e \<Longrightarrow> source_key e = Some (m, pi_source i, pi_logical_id i, pi_revision i)"
  by (auto simp: made_from_def source_key_def media_event_row_def event_contract_def item_args_def)

lemma source_key_Some:
  "source_key e = Some (m, src, l, r) \<longleftrightarrow> mer_media_session_id e = m \<and> mer_source e = src \<and> mer_logical_id e = Some l \<and> mer_revision e = Some r"
  by (auto simp: source_key_def split: option.splits)

lemma find_source_item:
  "find_source_revision (item_args m i) rows = None \<longleftrightarrow> \<not> recorded m i rows"
  by (auto simp: find_source_revision_def item_args_def recorded_def source_key_Some find_row_None)

text \<open>The kinds of items there are.\<close>

definition item_shape :: "projection_item \<Rightarrow> bool" where
  "item_shape i \<longleftrightarrow> pi_logical_id i = pi_source_logical_id i \<and> pi_logical_id i \<noteq> []
     \<and> (pi_source_table i, pi_source i) \<in> {(''segments'', ''host.transcription''), (''translation_segments'', ''host.translation''),
          (''sessions'', ''host.session'')}
     \<and> pi_event_type i \<in> {''transcript.final'', ''translation.final'', ''session.completed'', ''session.failed'', ''session.cancelled''}"

lemma items_of_shape: "i \<in> set (items_of w legacy) \<Longrightarrow> item_shape i"
  by (auto simp: items_of_def item_shape_def transcript_projection_def translation_projection_def terminal_item_def Let_def
      TERMINAL_SESSION_STATES_def status_value.simps split: if_splits)

definition source_of_table :: "string \<Rightarrow> string" where
  "source_of_table t = (if t = ''segments'' then ''host.transcription'' else if t = ''translation_segments'' then ''host.translation''
     else ''host.session'')"

lemma item_shape_source: "item_shape i \<Longrightarrow> pi_source i = source_of_table (pi_source_table i)"
  by (auto simp: item_shape_def source_of_table_def)

text \<open>What an item must satisfy for the contract of events to accept it.\<close>

definition item_fits :: "(rat \<Rightarrow> string) \<Rightarrow> projection_item \<Rightarrow> bool" where
  "item_fits repr i \<longleftrightarrow> 1 \<le> pi_revision i \<and> length (pi_logical_id i) \<le> 256 \<and> at_least 0 (pi_media_time_ms i)
     \<and> at_least 0 (pi_duration_ms i) \<and> succeeds (validate_payload repr (pi_payload i))"

lemma event_types_valid:
  "t \<in> {''transcript.final'', ''translation.final'', ''session.completed'', ''session.failed'', ''session.cancelled''} \<Longrightarrow>
   3 \<le> length t \<and> length t \<le> 96 \<and> validate_event_type t"
  by (auto simp: validate_event_type_def dotted_def lower_identifier_def event_type_char_def is_lower_def MEDIA_EVENT_FAMILIES_def)

lemma sources_valid:
  "t \<in> {''host.transcription'', ''host.translation'', ''host.session''} \<Longrightarrow> 3 \<le> length t \<and> length t \<le> 96 \<and> validate_source t"
  by (auto simp: validate_source_def dotted_def lower_identifier_def source_char_def is_lower_def)

definition id_ok :: "string \<Rightarrow> bool" where
  "id_ok s \<longleftrightarrow> 1 \<le> length s \<and> length s \<le> 128"

lemma item_contract:
  assumes "item_shape i" "item_fits repr i" "id_ok event_id" "id_ok m" "1 \<le> q"
  shows "media_event_ok repr (event_contract (item_args m i) event_id q now)"
proof -
  have "pi_logical_id i \<noteq> []" using assms(1) unfolding item_shape_def by blast
  then have "1 \<le> length (pi_logical_id i)" by (cases "pi_logical_id i") simp_all
  moreover have "pi_source i \<in> {''host.transcription'', ''host.translation'', ''host.session''}"
    using assms(1) by (auto simp: item_shape_def)
  note sources_valid [OF this]
  moreover have "pi_event_type i \<in> {''transcript.final'', ''translation.final'', ''session.completed'', ''session.failed'', ''session.cancelled''}"
    using assms(1) unfolding item_shape_def by blast
  note event_types_valid [OF this]
  ultimately show ?thesis
    using assms(2-5) by (simp add: media_event_ok_def event_contract_def item_args_def item_fits_def id_ok_def at_least_def)
qed

subsection \<open>Appending a batch\<close>

abbreviation session_keys :: "media_db \<Rightarrow> (string \<times> string option) list" where
  "session_keys db \<equiv> map (\<lambda>r. (mse_id r, mse_legacy_session_id r)) (mdb_sessions db)"

lemma earlier_self: "media_inv db \<Longrightarrow> earlier db db"
  by (simp add: earlier_def)

lemma append_attempts_Inr:
  assumes "append_attempts repr a now xs db = Inr (db', e)"
  shows "db' = db \<and> find_source_revision a (mdb_events db) = Some e
    \<or> (\<exists>i v. (i, v) \<in> set xs \<and> append_attempt repr a i now v db = Inr (db', e))"
  using assms
proof (induction xs)
  case (Cons x xs)
  then show ?case by (cases x) (auto split: sum.splits if_splits option.splits)
qed simp

lemma append_attempt_parts:
  assumes "append_attempt repr a j now view db = Inr (db', e)"
  shows "(\<exists>q. e = media_event_row (event_contract a j q now)) \<and> mdb_events db' = mdb_events db @ [e]
    \<and> mdb_offsets db' = mdb_offsets db \<and> session_keys db' = session_keys db"
proof -
  obtain v where v: "view = Some v"
      "rbind (insert_event (media_event_row (event_contract a j (mse_next_sequence v) now)) (mdb_events db)) (\<lambda>events.
        Inr (db\<lparr>mdb_events := events, mdb_sessions := update_rows (\<lambda>r. mse_id r = ea_media_session_id a)
           (\<lambda>r. r\<lparr>mse_next_sequence := mse_next_sequence v + 1, mse_updated_at := now\<rparr>) (mdb_sessions db)\<rparr>,
         media_event_row (event_contract a j (mse_next_sequence v) now))) = Inr (db', e)"
    using assms by (auto simp: append_attempt_def media_event_contract_def split: option.splits if_splits)
  then obtain events where ins: "insert_event (media_event_row (event_contract a j (mse_next_sequence v) now)) (mdb_events db) = Inr events"
      "e = media_event_row (event_contract a j (mse_next_sequence v) now)"
      "db' = db\<lparr>mdb_events := events, mdb_sessions := update_rows (\<lambda>r. mse_id r = ea_media_session_id a)
           (\<lambda>r. r\<lparr>mse_next_sequence := mse_next_sequence v + 1, mse_updated_at := now\<rparr>) (mdb_sessions db)\<rparr>"
    by (auto simp: rbind_eq_Inr)
  then show ?thesis using insert_event_Inr(1) [OF ins(1)] by (auto simp: map_update_rows)
qed

lemma append_item_Inr:
  assumes "media_inv db" "append_item env m i db = Inr (db', e)"
  shows "media_inv db' \<and> media_grows db db' \<and> mdb_offsets db' = mdb_offsets db \<and> session_keys db' = session_keys db \<and> recorded m i (mdb_events db')
    \<and> (if recorded m i (mdb_events db) then mdb_events db' = mdb_events db else mdb_events db' = mdb_events db @ [e] \<and> made_from m i e)"
proof (cases "find_source_revision (item_args m i) (mdb_events db)")
  case (Some x)
  then have "db' = db" using assms(2) by (simp add: append_item_def append_media_event_def Let_def)
  moreover have "recorded m i (mdb_events db)" using Some find_source_item [of m i "mdb_events db"] by auto
  ultimately show ?thesis using assms(1) by simp
next
  case None
  have step: "media_inv db' \<and> media_grows db db'"
    using append_media_step [OF assms(1) assms(2) [unfolded append_item_def Let_def]] earlier_self [OF assms(1)]
    by (auto simp: item_args_def)
  obtain j where att: "append_attempt (pe_repr env) (item_args m i) j (pe_now env db) (get_media_session m db) db = Inr (db', e)"
  proof -
    let ?x = "\<lambda>k. (pe_uuid env k db, get_media_session m db)"
    have "append_attempts (pe_repr env) (item_args m i) (pe_now env db) [?x 0, ?x 1, ?x 2] db = Inr (db', e)"
      using assms(2) None by (simp add: append_item_def append_media_event_def Let_def del: append_attempts.simps)
    from append_attempts_Inr [OF this] None obtain j v where "(j, v) \<in> set [?x 0, ?x 1, ?x 2]"
        "append_attempt (pe_repr env) (item_args m i) j (pe_now env db) v db = Inr (db', e)" by auto
    then show thesis using that by auto
  qed
  note parts = append_attempt_parts [OF att]
  have "made_from m i e" "mdb_events db' = mdb_events db @ [e]" "mdb_offsets db' = mdb_offsets db" "session_keys db' = session_keys db"
    using parts by (auto simp: made_from_def)
  with step None show ?thesis using made_from_key [of m i e] find_source_item [of m i "mdb_events db"] by (simp add: recorded_def)
qed

lemma persist_items_Inr:
  assumes "media_inv db" "persist_items env m is n db = Inr (db', k)"
  shows "media_inv db' \<and> media_grows db db' \<and> mdb_offsets db' = mdb_offsets db \<and> session_keys db' = session_keys db
    \<and> (\<forall>i \<in> set is. recorded m i (mdb_events db'))
    \<and> (\<exists>new. mdb_events db' = mdb_events db @ new \<and> k = n + length new \<and> length new \<le> length is
        \<and> (\<forall>e \<in> set new. \<exists>i \<in> set is. made_from m i e))"
  using assms
proof (induction "is" arbitrary: n db)
  case (Cons i js)
  obtain db1 e where first: "append_item env m i db = Inr (db1, e)"
      and rest: "persist_items env m js (if recorded m i (mdb_events db) then n else n + 1) db1 = Inr (db', k)"
    using Cons.prems(2) by (auto simp: Let_def rbind_eq_Inr find_source_item split: if_splits)
  have one: "media_inv db1 \<and> media_grows db db1 \<and> mdb_offsets db1 = mdb_offsets db \<and> session_keys db1 = session_keys db \<and> recorded m i (mdb_events db1)
    \<and> (if recorded m i (mdb_events db) then mdb_events db1 = mdb_events db else mdb_events db1 = mdb_events db @ [e] \<and> made_from m i e)"
    by (rule append_item_Inr [OF Cons.prems(1) first])
  then have inv1: "media_inv db1" by blast
  obtain new where IH: "media_inv db'" "media_grows db1 db'" "mdb_offsets db' = mdb_offsets db1" "session_keys db' = session_keys db1"
      "\<forall>i \<in> set js. recorded m i (mdb_events db')" "mdb_events db' = mdb_events db1 @ new"
      "k = (if recorded m i (mdb_events db) then n else n + 1) + length new" "length new \<le> length js"
      "\<forall>e \<in> set new. \<exists>i \<in> set js. made_from m i e"
    using Cons.IH [OF inv1 rest] by blast
  have grows: "media_grows db db'" using media_grows_trans one IH(2) by blast
  have rec: "recorded m i (mdb_events db')" using one IH(6) by (auto simp: recorded_def)
  show ?case
  proof (cases "recorded m i (mdb_events db)")
    case True
    then show ?thesis using one IH grows rec by (intro conjI exI [of _ new]) auto
  next
    case False
    then show ?thesis using one IH grows rec by (intro conjI exI [of _ "e # new"]) auto
  qed
qed simp

lemma ensure_bridge_Inr:
  assumes "media_inv db" "ensure_bridge env w s db = Inr (db', r)"
  shows "media_inv db' \<and> media_grows db db' \<and> mdb_offsets db' = mdb_offsets db \<and> mdb_events db' = mdb_events db
    \<and> find_row (bridged s) (mdb_sessions db') = Some r
    \<and> (if find_row (bridged s) (mdb_sessions db) = None
       then mdb_sessions db' = mdb_sessions db @ [r] \<and> mse_id r = pe_uuid env 0 db else db' = db)"
proof -
  note step = bridge_step [OF assms(1) assms(2) [unfolded ensure_bridge_def]]
  show ?thesis
  proof (cases "find_row (bridged s) (mdb_sessions db)")
    case (Some x)
    then have "db' = db" "r = x" using assms(2) by (simp_all add: ensure_bridge_def ensure_legacy_session_bridge_def)
    then show ?thesis using Some assms(1) by simp
  next
    case None
    then have "db' = db\<lparr>mdb_sessions := mdb_sessions db @ [r]\<rparr>" "bridged s r" "mse_id r = pe_uuid env 0 db"
      using assms(2) by (auto simp: ensure_bridge_def ensure_legacy_session_bridge_def Let_def split: option.splits if_splits)
    then show ?thesis using None step by (simp add: find_row_append)
  qed
qed

lemma find_bridge_keys:
  assumes "map (\<lambda>r. (mse_id r, mse_legacy_session_id r)) xs = map (\<lambda>r. (mse_id r, mse_legacy_session_id r)) ys"
  shows "map_option mse_id (find_row (bridged s) xs) = map_option mse_id (find_row (bridged s) ys)" "map mse_id xs = map mse_id ys"
proof -
  have "list_all2 (\<lambda>x y. mse_id x = mse_id y \<and> mse_legacy_session_id x = mse_legacy_session_id y) xs ys"
    using assms [folded list.rel_eq] by (simp add: list.rel_map)
  then show "map_option mse_id (find_row (bridged s) xs) = map_option mse_id (find_row (bridged s) ys)" "map mse_id xs = map mse_id ys"
    by (induction rule: list_all2_induct) simp_all
qed

lemma persist_batch_Inr:
  assumes "media_inv db" "persist_event_batch env w s items db = Inr (db', m, k)"
  shows "media_inv db' \<and> media_grows db db' \<and> mdb_offsets db' = mdb_offsets db
    \<and> (\<exists>r. find_row (bridged s) (mdb_sessions db') = Some r \<and> mse_id r = m)
    \<and> (\<forall>i \<in> set items. recorded m i (mdb_events db'))
    \<and> (\<exists>new. mdb_events db' = mdb_events db @ new \<and> k = length new \<and> length new \<le> length items
        \<and> (\<forall>e \<in> set new. \<exists>i \<in> set items. made_from m i e))
    \<and> (if find_row (bridged s) (mdb_sessions db) = None
       then map mse_id (mdb_sessions db') = map mse_id (mdb_sessions db) @ [pe_uuid env 0 db]
       else map mse_id (mdb_sessions db') = map mse_id (mdb_sessions db)
         \<and> map_option mse_id (find_row (bridged s) (mdb_sessions db)) = Some m)"
proof -
  obtain db1 r where r: "ensure_bridge env w s db = Inr (db1, r)" "persist_items env (mse_id r) items 0 db1 = Inr (db', k)" "m = mse_id r"
    using assms(2) by (auto simp: persist_event_batch_def rbind_eq_Inr)
  note b = ensure_bridge_Inr [OF assms(1) r(1)]
  then have inv1: "media_inv db1" by blast
  note p = persist_items_Inr [OF inv1 r(2)]
  have keys: "session_keys db' = session_keys db1" using p by blast
  note find = find_bridge_keys [OF keys]
  have "map_option mse_id (find_row (bridged s) (mdb_sessions db')) = Some m" using b r(3) by (simp add: find(1))
  then obtain x where x: "find_row (bridged s) (mdb_sessions db') = Some x" "mse_id x = m" by auto
  have grows: "media_grows db db'" using b p media_grows_trans by blast
  have ids: "if find_row (bridged s) (mdb_sessions db) = None
       then map mse_id (mdb_sessions db') = map mse_id (mdb_sessions db) @ [pe_uuid env 0 db]
       else map mse_id (mdb_sessions db') = map mse_id (mdb_sessions db)
         \<and> map_option mse_id (find_row (bridged s) (mdb_sessions db)) = Some m"
    using b find r(3) by (cases "find_row (bridged s) (mdb_sessions db)") auto
  show ?thesis
  proof (intro conjI)
    show "\<exists>r. find_row (bridged s) (mdb_sessions db') = Some r \<and> mse_id r = m" using x by blast
    show "\<exists>new. mdb_events db' = mdb_events db @ new \<and> k = length new \<and> length new \<le> length items
        \<and> (\<forall>e \<in> set new. \<exists>i \<in> set items. made_from m i e)"
      using b p r(3) by simp
  qed (use b p r(3) grows ids in simp_all)
qed

lemma advance_items_Inr:
  assumes "offsets_ok (mdb_offsets db)" "advance_items env m is t db = Inr (db', t')"
  shows "\<exists>os. db' = db\<lparr>mdb_offsets := os\<rparr> \<and> offsets_ok os \<and> offsets_grow (mdb_offsets db) os
    \<and> (\<forall>i \<in> set is. \<exists>r \<in> set os. bo_media_session_id r = m \<and> offset_source r = item_source i \<and> pi_revision i \<le> bo_processed_revision r)
    \<and> (\<forall>x \<in> set os. x \<in> set (mdb_offsets db)
         \<or> (\<exists>i \<in> set is. bo_media_session_id x = m \<and> offset_source x = item_source i \<and> bo_processed_revision x = pi_revision i))"
  using assms
proof (induction "is" arbitrary: t db)
  case (Cons i js)
  obtain db1 r where first: "advance_bridge_offset m (item_source i) (pi_revision i) (pe_now env db) (pe_uuid env 0 db) db = Inr (db1, r)"
      and rest: "advance_items env m js (if pi_terminal_status i = None then t else pi_terminal_status i) db1 = Inr (db', t')"
    using Cons.prems(2) by (auto simp: rbind_eq_Inr)
  obtain os1 where os1: "db1 = db\<lparr>mdb_offsets := os1\<rparr>" "offsets_ok os1" "offsets_grow (mdb_offsets db) os1" "r \<in> set os1"
      "bo_media_session_id r = m" "offset_source r = item_source i" "pi_revision i \<le> bo_processed_revision r"
      "\<forall>x \<in> set os1. x \<in> set (mdb_offsets db) \<or> x = r \<and> bo_processed_revision r = pi_revision i"
    using advance_step [OF Cons.prems(1) first] by blast
  have "offsets_ok (mdb_offsets db1)" using os1(1,2) by simp
  from Cons.IH [OF this rest] obtain os where os: "db' = db1\<lparr>mdb_offsets := os\<rparr>" "offsets_ok os" "offsets_grow os1 os"
      "\<forall>i \<in> set js. \<exists>r \<in> set os. bo_media_session_id r = m \<and> offset_source r = item_source i \<and> pi_revision i \<le> bo_processed_revision r"
      "\<forall>x \<in> set os. x \<in> set os1 \<or> (\<exists>i \<in> set js. bo_media_session_id x = m \<and> offset_source x = item_source i \<and> bo_processed_revision x = pi_revision i)"
    by (auto simp: os1(1))
  obtain r' where "r' \<in> set os" "bo_media_session_id r' = m" "offset_source r' = item_source i" "pi_revision i \<le> bo_processed_revision r'"
    using os(3) os1(4-7) unfolding offsets_grow_def by (metis order_trans)
  then have "\<exists>r \<in> set os. bo_media_session_id r = m \<and> offset_source r = item_source i \<and> pi_revision i \<le> bo_processed_revision r" by blast
  moreover have "offsets_grow (mdb_offsets db) os" by (rule grow_trans(5) [OF os1(3) os(3)])
  moreover have "\<forall>x \<in> set os. x \<in> set (mdb_offsets db)
      \<or> (\<exists>j \<in> set (i # js). bo_media_session_id x = m \<and> offset_source x = item_source j \<and> bo_processed_revision x = pi_revision j)"
    using os(5) os1(5,6,8) by (metis list.set_intros(1) list.set_intros(2))
  ultimately show ?case using os(1,2,4) os1(1) by (intro exI [of _ os]) auto
next
  case Nil
  then show ?case by (intro exI [of _ "mdb_offsets db"]) auto
qed

text \<open>Every offset is backed by an event: nothing is skipped.\<close>

definition covered :: "media_db \<Rightarrow> bool" where
  "covered db \<longleftrightarrow> (\<forall>x \<in> set (mdb_offsets db). \<exists>e \<in> set (mdb_events db). source_key e =
     Some (bo_media_session_id x, source_of_table (bo_source_table x), bo_source_logical_id x, bo_processed_revision x))"

lemma covered_grows: "covered db \<Longrightarrow> mdb_offsets db' = mdb_offsets db \<Longrightarrow> media_grows db db' \<Longrightarrow> covered db'"
  by (auto simp: covered_def media_grows_def events_grow_def) blast

lemma advance_offsets_Inr:
  assumes "media_inv db" "advance_offsets env m items db = Inr db'"
  shows "media_inv db' \<and> media_grows db db' \<and> mdb_events db' = mdb_events db \<and> session_keys db' = session_keys db
    \<and> (\<forall>i \<in> set items. \<exists>r \<in> set (mdb_offsets db'). bo_media_session_id r = m \<and> offset_source r = item_source i
         \<and> pi_revision i \<le> bo_processed_revision r)
    \<and> (\<forall>x \<in> set (mdb_offsets db'). x \<in> set (mdb_offsets db)
         \<or> (\<exists>i \<in> set items. bo_media_session_id x = m \<and> offset_source x = item_source i \<and> bo_processed_revision x = pi_revision i))"
proof -
  have "offsets_ok (mdb_offsets db)" using assms(1) by (simp add: media_inv_def)
  then obtain os t where os: "offsets_ok os" "offsets_grow (mdb_offsets db) os"
      "\<forall>i \<in> set items. \<exists>r \<in> set os. bo_media_session_id r = m \<and> offset_source r = item_source i \<and> pi_revision i \<le> bo_processed_revision r"
      "\<forall>x \<in> set os. x \<in> set (mdb_offsets db)
         \<or> (\<exists>i \<in> set items. bo_media_session_id x = m \<and> offset_source x = item_source i \<and> bo_processed_revision x = pi_revision i)"
    and db': "db' = (let d = db\<lparr>mdb_offsets := os\<rparr> in case t of None \<Rightarrow> d | Some st \<Rightarrow>
      d\<lparr>mdb_sessions := update_rows (\<lambda>r. mse_id r = m) (\<lambda>r. r\<lparr>mse_status := st, mse_updated_at := pe_now env d\<rparr>) (mdb_sessions d)\<rparr>)"
    using assms(2) advance_items_Inr [of db env m items None] by (auto simp: advance_offsets_def rbind_eq_Inr Let_def)
  have same: "media_inv d' \<and> media_grows db d' \<and> session_keys d' = session_keys db"
    if d': "mdb_events d' = mdb_events db" "mdb_offsets d' = os" "mdb_cursors d' = mdb_cursors db"
      and g: "mdb_sessions d' = map g (mdb_sessions db)"
        "\<And>r. mse_id (g r) = mse_id r \<and> mse_legacy_session_id (g r) = mse_legacy_session_id r \<and> mse_next_sequence (g r) = mse_next_sequence r"
    for d' :: media_db and g
  proof -
    have log: "log_ok (mdb_sessions db) (mdb_events db)" and cur: "cursors_ok (mdb_sessions db) (mdb_cursors db)"
      using assms(1) by (simp_all add: media_inv_def)
    have ids: "map mse_id (map g (mdb_sessions db)) = map mse_id (mdb_sessions db)" using g(2) by simp
    have idset: "mse_id ` set (map g (mdb_sessions db)) = mse_id ` set (mdb_sessions db)"
      unfolding set_map [symmetric] ids ..
    have legacy: "\<forall>x \<in> set (map g (mdb_sessions db)). \<forall>y \<in> set (map g (mdb_sessions db)).
        mse_legacy_session_id x \<noteq> None \<longrightarrow> mse_legacy_session_id x = mse_legacy_session_id y \<longrightarrow> x = y"
      unfolding set_map ball_simps using log g(2) unfolding log_ok_def by metis
    have "\<forall>m \<in> set (map g (mdb_sessions db)). 1 \<le> mse_next_sequence m
        \<and> map mer_sequence (events_of (mse_id m) (mdb_events db)) = [1..mse_next_sequence m - 1]"
      unfolding set_map ball_simps using log g(2) by (simp add: log_ok_def)
    with legacy have "log_ok (map g (mdb_sessions db)) (mdb_events db)"
      using log unfolding log_ok_def ids idset by blast
    moreover have grow: "sessions_grow (mdb_sessions db) (map g (mdb_sessions db))"
      unfolding sessions_grow_def using g(2) by auto
    moreover have "cursors_ok (map g (mdb_sessions db)) (mdb_cursors db)" by (rule cursors_ok_grow [OF cur grow])
    ultimately show ?thesis using d' g os(1,2) by (simp add: media_inv_def media_grows_def)
  qed
  have "media_inv db' \<and> media_grows db db' \<and> session_keys db' = session_keys db"
  proof (cases t)
    case None
    then show ?thesis by (intro same [of _ "\<lambda>r. r"]) (simp_all add: db')
  next
    case (Some st)
    then show ?thesis
      by (intro same [of _ "\<lambda>r. if mse_id r = m then r\<lparr>mse_status := st, mse_updated_at := pe_now env (db\<lparr>mdb_offsets := os\<rparr>)\<rparr> else r"])
        (simp_all add: db' Let_def update_rows_def)
  qed
  then show ?thesis using os(3,4) by (cases t) (auto simp: db' Let_def)
qed

subsection \<open>Nothing raises\<close>

text \<open>
  Identifiers are drawn from 2 ^ 122 values (\<open>uuid4\<close>): while the tables have fewer rows, a draw is
  taken to be unused.
\<close>

definition ID_SPACE :: nat where
  "ID_SPACE = 2 ^ 122"

definition row_ids :: "media_db \<Rightarrow> string list" where
  "row_ids db = map mse_id (mdb_sessions db) @ map mer_id (mdb_events db) @ map bo_id (mdb_offsets db)"

definition uuids_ok :: "projector_env \<Rightarrow> bool" where
  "uuids_ok env \<longleftrightarrow> (\<forall>k db. length (row_ids db) < ID_SPACE \<longrightarrow> id_ok (pe_uuid env k db) \<and> pe_uuid env k db \<notin> set (row_ids db))"

lemma append_item_total:
  assumes "media_inv db" "m \<in> mse_id ` set (mdb_sessions db)" "id_ok m" "uuids_ok env" "length (row_ids db) < ID_SPACE"
    "item_shape i" "item_fits (pe_repr env) i"
  shows "\<exists>p. append_item env m i db = Inr p"
proof (cases "recorded m i (mdb_events db)")
  case True
  then obtain e where "find_source_revision (item_args m i) (mdb_events db) = Some e"
    using find_source_item [of m i "mdb_events db"] by (cases "find_source_revision (item_args m i) (mdb_events db)") auto
  then show ?thesis by (simp add: append_item_def append_media_event_def Let_def)
next
  case False
  then have none: "find_source_revision (item_args m i) (mdb_events db) = None" using find_source_item by blast
  obtain v where v: "get_media_session m db = Some v"
    using assms(2) by (cases "get_media_session m db") (auto simp: find_row_None)
  then have mem: "v \<in> set (mdb_sessions db)" "mse_id v = m" by (auto dest: find_row_Some)
  have next_seq: "1 \<le> mse_next_sequence v" "map mer_sequence (events_of m (mdb_events db)) = [1..mse_next_sequence v - 1]"
    using assms(1) mem by (auto simp: media_inv_def log_ok_def)
  define e where "e = media_event_row (event_contract (item_args m i) (pe_uuid env 0 db) (mse_next_sequence v) (pe_now env db))"
  have made: "made_from m i e" by (auto simp: made_from_def e_def)
  have uuid: "id_ok (pe_uuid env 0 db)" "pe_uuid env 0 db \<notin> set (row_ids db)" using assms(4,5) by (simp_all add: uuids_ok_def)
  have "mer_id x \<noteq> mer_id e" if "x \<in> set (mdb_events db)" for x
    using uuid(2) that unfolding row_ids_def e_def event_record_sel set_append set_map by (metis UnCI image_eqI)
  moreover have "mer_sequence x \<noteq> mer_sequence e" if "x \<in> set (mdb_events db)" "mer_media_session_id x = mer_media_session_id e" for x
  proof -
    have "mer_media_session_id x = m" using that(2) by (simp add: e_def item_args_def)
    then have "mer_sequence x \<in> set (map mer_sequence (events_of m (mdb_events db)))" using that(1) by simp
    then show ?thesis unfolding next_seq(2) by (simp add: e_def)
  qed
  moreover have "source_key x \<noteq> source_key e" if "x \<in> set (mdb_events db)" for x
    using False that made_from_key [OF made] by (auto simp: recorded_def)
  ultimately have "insert_event e (mdb_events db) = Inr (mdb_events db @ [e])"
    by (auto simp: insert_event_def list_ex_iff)
  moreover have "media_event_ok (pe_repr env) (event_contract (item_args m i) (pe_uuid env 0 db) (mse_next_sequence v) (pe_now env db))"
    by (rule item_contract [OF assms(6,7) uuid(1) assms(3) next_seq(1)])
  ultimately have "\<exists>p. append_attempt (pe_repr env) (item_args m i) (pe_uuid env 0 db) (pe_now env db) (Some v) db = Inr p"
    by (simp add: append_attempt_def media_event_contract_def e_def)
  then show ?thesis using none v by (auto simp: append_item_def append_media_event_def Let_def)
qed

lemma row_ids_persist:
  assumes "mdb_offsets db' = mdb_offsets db" "map mse_id (mdb_sessions db') = map mse_id (mdb_sessions db)" "mdb_events db' = mdb_events db @ new"
  shows "length (row_ids db') = length (row_ids db) + length new"
  using assms arg_cong [OF assms(2), of length] by (simp add: row_ids_def)

lemma persist_items_total:
  assumes "media_inv db" "m \<in> mse_id ` set (mdb_sessions db)" "id_ok m" "uuids_ok env" "length (row_ids db) + length is \<le> ID_SPACE"
    "\<forall>i \<in> set is. item_shape i \<and> item_fits (pe_repr env) i"
  shows "\<exists>p. persist_items env m is n db = Inr p"
  using assms
proof (induction "is" arbitrary: n db)
  case (Cons i js)
  have "length (row_ids db) < ID_SPACE" using Cons.prems(5) by simp
  then obtain db1 e where first: "append_item env m i db = Inr (db1, e)"
    using append_item_total [OF Cons.prems(1-4)] Cons.prems(6) by fastforce
  note one = append_item_Inr [OF Cons.prems(1) first]
  have keys: "session_keys db1 = session_keys db" using one by blast
  note ids = find_bridge_keys(2) [OF keys]
  obtain new where "mdb_events db1 = mdb_events db @ new" "length new \<le> 1"
    using one by (cases "recorded m i (mdb_events db)") auto
  then have "length (row_ids db1) \<le> length (row_ids db) + 1" using row_ids_persist [of db1 db new] one ids by simp
  moreover have "m \<in> mse_id ` set (mdb_sessions db1)" using Cons.prems(2) unfolding set_map [symmetric] ids .
  ultimately have "\<exists>p. persist_items env m js k db1 = Inr p" for k
    using Cons.IH [of db1 k] one Cons.prems(3-6) by auto
  then show ?case using first by (simp add: Let_def)
qed simp

lemma advance_length:
  "advance_bridge_offset m source q at_time new_id db = Inr (db', r) \<Longrightarrow> mdb_sessions db' = mdb_sessions db
     \<and> mdb_events db' = mdb_events db \<and> length (mdb_offsets db') \<le> Suc (length (mdb_offsets db))"
  by (auto simp: advance_bridge_offset_def Let_def split: if_splits option.splits)

lemma advance_items_total:
  assumes "uuids_ok env" "length (row_ids db) + length is \<le> ID_SPACE" "\<forall>i \<in> set is. 1 \<le> pi_revision i"
  shows "\<exists>db' t'. advance_items env m is t db = Inr (db', t') \<and> length (row_ids db') \<le> length (row_ids db) + length is"
  using assms
proof (induction "is" arbitrary: t db)
  case (Cons i js)
  have "length (row_ids db) < ID_SPACE" using Cons.prems(2) by simp
  then have "pe_uuid env 0 db \<notin> set (map bo_id (mdb_offsets db))" using Cons.prems(1) by (auto simp: uuids_ok_def row_ids_def)
  then obtain db1 r where first: "advance_bridge_offset m (item_source i) (pi_revision i) (pe_now env db) (pe_uuid env 0 db) db = Inr (db1, r)"
    using Cons.prems(3) by (fastforce simp: advance_bridge_offset_def Let_def split: option.splits)
  then have len: "length (row_ids db1) \<le> length (row_ids db) + 1" using advance_length [OF first] by (simp add: row_ids_def)
  with Cons.IH [of db1 "if pi_terminal_status i = None then t else pi_terminal_status i"] Cons.prems
  obtain db' t' where "advance_items env m js (if pi_terminal_status i = None then t else pi_terminal_status i) db1 = Inr (db', t')"
      "length (row_ids db') \<le> length (row_ids db1) + length js" by auto
  then show ?case using first len by (intro exI [of _ db'] exI [of _ t']) (simp del: split_paired_Ex)
qed simp

lemma advance_offsets_total:
  assumes "uuids_ok env" "length (row_ids db) + length items \<le> ID_SPACE" "\<forall>i \<in> set items. 1 \<le> pi_revision i"
  shows "\<exists>db'. advance_offsets env m items db = Inr db' \<and> length (row_ids db') \<le> length (row_ids db) + length items"
proof -
  obtain db' t' where *: "advance_items env m items None db = Inr (db', t')" "length (row_ids db') \<le> length (row_ids db) + length items"
    using advance_items_total [OF assms] by blast
  then show ?thesis by (cases t') (simp_all add: advance_offsets_def row_ids_def)
qed

subsection \<open>Catching up\<close>

definition pending_items :: "host_world \<Rightarrow> session_record \<Rightarrow> media_db \<Rightarrow> projection_item list" where
  "pending_items w legacy db = filter (\<lambda>i. \<not> offset_of (ses_id legacy) db (item_source i) \<ge> pi_revision i) (items_of w legacy)"

lemma find_offset:
  assumes "offsets_ok (mdb_offsets db)" "r \<in> set (mdb_offsets db)"
  shows "get_bridge_offset (bo_media_session_id r) (offset_source r) db = Some r"
  using assms find_distinct_key [of "\<lambda>r. (bo_media_session_id r, offset_source r)" "mdb_offsets db" r]
  by (simp add: get_bridge_offset_def offsets_ok_def)

lemma offset_of_row:
  assumes "offsets_ok (mdb_offsets db)" "find_row (bridged s) (mdb_sessions db) = Some x" "r \<in> set (mdb_offsets db)"
    "bo_media_session_id r = mse_id x" "offset_source r = source"
  shows "offset_of s db source = bo_processed_revision r"
  using find_offset [OF assms(1,3)] assms(2,4,5) by (simp add: offset_of_def)

lemma offset_of_mono:
  assumes "offsets_ok (mdb_offsets db)" "offsets_ok (mdb_offsets db')" "offsets_grow (mdb_offsets db) (mdb_offsets db')"
    "find_row (bridged s) (mdb_sessions db) = Some x" "find_row (bridged s) (mdb_sessions db') = Some x'" "mse_id x' = mse_id x"
  shows "offset_of s db source \<le> offset_of s db' source"
proof (cases "get_bridge_offset (mse_id x) source db")
  case None
  have "0 \<le> offset_of s db' source"
  proof (cases "get_bridge_offset (mse_id x') source db'")
    case (Some r)
    then have "r \<in> set (mdb_offsets db')" by (auto simp: get_bridge_offset_def dest: find_row_Some)
    then have "1 \<le> bo_processed_revision r" using assms(2) by (simp add: offsets_ok_def)
    then show ?thesis using Some assms(5) by (simp add: offset_of_def)
  qed (simp add: offset_of_def assms(5))
  then show ?thesis using None assms(4) by (simp add: offset_of_def)
next
  case (Some r)
  then have r: "r \<in> set (mdb_offsets db)" "bo_media_session_id r = mse_id x" "offset_source r = source"
    by (auto simp: get_bridge_offset_def dest: find_row_Some)
  obtain r' where r': "r' \<in> set (mdb_offsets db')" "bo_media_session_id r' = mse_id x'" "offset_source r' = source"
      "bo_processed_revision r \<le> bo_processed_revision r'"
    using assms(3,6) r unfolding offsets_grow_def by metis
  then show ?thesis using offset_of_row [OF assms(2,5) r'(1-3)] Some assms(4) by (simp add: offset_of_def)
qed

lemma offset_of_unbridged: "find_row (bridged s) (mdb_sessions db) = None \<Longrightarrow> offset_of s db source = 0"
  by (simp add: offset_of_def)

lemma offset_of_nonneg:
  assumes "offsets_ok (mdb_offsets db)"
  shows "0 \<le> offset_of s db source"
proof -
  have "0 \<le> bo_processed_revision r" if "get_bridge_offset m source db = Some r" for m r
  proof -
    have "r \<in> set (mdb_offsets db)" using that by (auto simp: get_bridge_offset_def dest: find_row_Some)
    then have "1 \<le> bo_processed_revision r" using assms by (simp add: offsets_ok_def)
    then show ?thesis by simp
  qed
  then show ?thesis by (simp add: offset_of_def split: option.splits)
qed

lemma filter_batch:
  assumes "\<And>x. q x \<Longrightarrow> p x" "\<forall>x \<in> set (take b (filter p xs)). \<not> q x"
  shows "length (filter q xs) + length (take b (filter p xs)) \<le> length (filter p xs)"
proof -
  have "filter q xs = filter q (filter p xs)" using assms(1) by (auto intro: filter_cong)
  also have "\<dots> = filter q (take b (filter p xs) @ drop b (filter p xs))" by simp
  also have "\<dots> = filter q (drop b (filter p xs))" using assms(2) by (simp only: filter_append) simp
  finally have "length (filter q xs) \<le> length (drop b (filter p xs))" using length_filter_le by metis
  then show ?thesis by simp
qed

lemma covered_advance:
  assumes "media_inv db" "covered db" "advance_offsets env m items db = Inr db'"
    "\<forall>i \<in> set items. item_shape i \<and> recorded m i (mdb_events db)"
  shows "covered db'"
  unfolding covered_def
proof
  fix y assume y: "y \<in> set (mdb_offsets db')"
  note a = advance_offsets_Inr [OF assms(1,3)]
  have "y \<in> set (mdb_offsets db) \<or> (\<exists>i \<in> set items. bo_media_session_id y = m \<and> offset_source y = item_source i
      \<and> bo_processed_revision y = pi_revision i)" using a y by blast
  then show "\<exists>e \<in> set (mdb_events db'). source_key e =
      Some (bo_media_session_id y, source_of_table (bo_source_table y), bo_source_logical_id y, bo_processed_revision y)"
  proof
    assume "y \<in> set (mdb_offsets db)"
    then show ?thesis using assms(2) a by (simp add: covered_def)
  next
    assume "\<exists>i \<in> set items. bo_media_session_id y = m \<and> offset_source y = item_source i \<and> bo_processed_revision y = pi_revision i"
    then obtain i where i: "i \<in> set items" "bo_media_session_id y = m" "offset_source y = item_source i"
        "bo_processed_revision y = pi_revision i" by blast
    have shape: "item_shape i" and rec: "recorded m i (mdb_events db)" using assms(4) i(1) by blast+
    have "pi_logical_id i = pi_source_logical_id i" using shape unfolding item_shape_def by blast
    with rec item_shape_source [OF shape] have "\<exists>e \<in> set (mdb_events db).
        source_key e = Some (m, source_of_table (pi_source_table i), pi_source_logical_id i, pi_revision i)"
      by (simp add: recorded_def)
    then show ?thesis using i a by simp
  qed
qed

text \<open>One round of the loop.\<close>

definition log_good :: "media_db \<Rightarrow> bool" where
  "log_good db \<longleftrightarrow> media_inv db \<and> covered db \<and> (\<forall>m \<in> set (mdb_sessions db). id_ok (mse_id m))"

abbreviation unbridged :: "string \<Rightarrow> media_db \<Rightarrow> nat" where
  "unbridged s db \<equiv> (if find_row (bridged s) (mdb_sessions db) = None then 1 else 0)"

definition room :: "host_world \<Rightarrow> session_record \<Rightarrow> media_db \<Rightarrow> nat" where
  "room w legacy db = length (row_ids db) + 2 * length (pending_items w legacy db) + unbridged (ses_id legacy) db"

lemma ensure_bridge_total:
  assumes "uuids_ok env" "length (row_ids db) < ID_SPACE" "find_row (\<lambda>r. ses_id r = s) (hw_sessions w) = Some legacy"
  shows "\<exists>db' r. ensure_bridge env w s db = Inr (db', r)"
proof -
  have "pe_uuid env 0 db \<notin> mse_id ` set (mdb_sessions db)" using assms(1,2) by (auto simp: uuids_ok_def row_ids_def)
  then show ?thesis
    using assms(3) by (auto simp: ensure_bridge_def ensure_legacy_session_bridge_def Let_def list_ex_iff find_row_None split: option.splits)
qed

lemma batch_round:
  assumes "log_good db" "uuids_ok env" "find_row (\<lambda>r. ses_id r = s) (hw_sessions w) = Some legacy"
    "\<forall>i \<in> set (items_of w legacy). item_fits (pe_repr env) i" "room w legacy db \<le> ID_SPACE" "pending_items w legacy db \<noteq> []" "0 < b"
  obtains db1 db2 m new where "persist_event_batch env w s (take b (pending_items w legacy db)) db = Inr (db1, m, length new)"
    "advance_offsets env m (take b (pending_items w legacy db)) db1 = Inr db2" "log_good db2" "room w legacy db2 \<le> ID_SPACE"
    "length (pending_items w legacy db2) + length (take b (pending_items w legacy db)) \<le> length (pending_items w legacy db)"
    "mdb_events db2 = mdb_events db @ new" "\<forall>e \<in> set new. \<exists>i \<in> set (items_of w legacy). made_from m i e"
    "map_option mse_id (find_row (bridged s) (mdb_sessions db2)) = Some m"
    "\<forall>k. map_option mse_id (find_row (bridged s) (mdb_sessions db)) = Some k \<longrightarrow> k = m"
proof -
  define batch where "batch = take b (pending_items w legacy db)"
  have legacy: "ses_id legacy = s" using find_row_Some [OF assms(3)] by simp
  have mem: "i \<in> set (items_of w legacy)" if "i \<in> set batch" for i
    using that unfolding batch_def pending_items_def by (auto dest: in_set_takeD)
  have fits: "\<forall>i \<in> set batch. item_shape i \<and> item_fits (pe_repr env) i" using mem items_of_shape assms(4) by blast
  have len: "length batch \<le> length (pending_items w legacy db)" by (simp add: batch_def)
  have inv: "media_inv db" using assms(1) by (simp add: log_good_def)
  have "0 < length (pending_items w legacy db)" using assms(6) by simp
  then have ids: "length (row_ids db) < ID_SPACE" using assms(5) unfolding room_def by linarith
  obtain dbb r where bridge: "ensure_bridge env w s db = Inr (dbb, r)" using ensure_bridge_total [OF assms(2) ids assms(3)] by blast
  note b = ensure_bridge_Inr [OF inv bridge]
  have invb: "media_inv dbb" using b by blast
  have r: "r \<in> set (mdb_sessions dbb)" using b by (blast dest: find_row_Some)
  have idsb: "length (row_ids dbb) = length (row_ids db) + unbridged s db"
    using b by (auto simp: row_ids_def split: if_splits)
  have okb: "\<forall>x \<in> set (mdb_sessions dbb). id_ok (mse_id x)"
  proof (cases "find_row (bridged s) (mdb_sessions db) = None")
    case True
    have "id_ok (pe_uuid env 0 db)" using assms(2) ids by (simp add: uuids_ok_def)
    then show ?thesis using True b assms(1) by (auto simp: log_good_def)
  next
    case False
    then show ?thesis using b assms(1) by (simp add: log_good_def)
  qed
  have "length (row_ids dbb) + length batch \<le> ID_SPACE" using assms(5) len idsb legacy by (simp add: room_def)
  then obtain db1 k where items: "persist_items env (mse_id r) batch 0 dbb = Inr (db1, k)"
    using persist_items_total [OF invb _ _ assms(2), of "mse_id r" batch 0] fits r okb by auto
  then have persist: "persist_event_batch env w s batch db = Inr (db1, mse_id r, k)"
    using bridge by (simp add: persist_event_batch_def)
  note p = persist_items_Inr [OF invb items]
  then obtain new where new: "mdb_events db1 = mdb_events dbb @ new" "k = length new" "length new \<le> length batch"
      "\<forall>e \<in> set new. \<exists>i \<in> set batch. made_from (mse_id r) i e" by auto
  have inv1: "media_inv db1" and keys1: "session_keys db1 = session_keys dbb" and offs1: "mdb_offsets db1 = mdb_offsets dbb"
    using p by blast+
  have ids1: "length (row_ids db1) = length (row_ids dbb) + length new"
    by (rule row_ids_persist [OF offs1 find_bridge_keys(2) [OF keys1] new(1)])
  then have "length (row_ids db1) + length batch \<le> ID_SPACE"
    using assms(5) len idsb new(3) legacy by (simp add: room_def)
  then obtain db2 where advance: "advance_offsets env (mse_id r) batch db1 = Inr db2" "length (row_ids db2) \<le> length (row_ids db1) + length batch"
    using advance_offsets_total [OF assms(2), of db1 batch] fits by (auto simp: item_fits_def)
  note a = advance_offsets_Inr [OF inv1 advance(1)]
  have inv2: "media_inv db2" and keys2: "session_keys db2 = session_keys db1" and ev2: "mdb_events db2 = mdb_events db1" using a by blast+
  have bridge2: "map_option mse_id (find_row (bridged s) (mdb_sessions db2)) = Some (mse_id r)"
    using find_bridge_keys(1) [OF keys2, of s] find_bridge_keys(1) [OF keys1, of s] b by simp
  then obtain x where x: "find_row (bridged s) (mdb_sessions db2) = Some x" "mse_id x = mse_id r" by auto
  have offs: "offsets_ok (mdb_offsets db)" "offsets_ok (mdb_offsets db2)" using inv inv2 by (simp_all add: media_inv_def)
  have grow: "offsets_grow (mdb_offsets db) (mdb_offsets db2)"
    using a b offs1 by (simp add: media_grows_def)
  have mono: "offset_of s db source \<le> offset_of s db2 source" for source
  proof (cases "find_row (bridged s) (mdb_sessions db)")
    case None
    then show ?thesis using offset_of_unbridged offset_of_nonneg [OF offs(2)] by simp
  next
    case (Some y)
    then have "y = r" using b by auto
    then show ?thesis using offset_of_mono [OF offs grow Some x(1)] x(2) by simp
  qed
  have caught: "\<not> \<not> offset_of s db2 (item_source i) \<ge> pi_revision i" if i: "i \<in> set batch" for i
  proof -
    have "\<exists>x \<in> set (mdb_offsets db2). bo_media_session_id x = mse_id r \<and> offset_source x = item_source i
        \<and> pi_revision i \<le> bo_processed_revision x" using a i by blast
    then obtain o' where "o' \<in> set (mdb_offsets db2)" "bo_media_session_id o' = mse_id r" "offset_source o' = item_source i"
        "pi_revision i \<le> bo_processed_revision o'" by blast
    then show ?thesis using offset_of_row [OF offs(2) x(1), of o' "item_source i"] x(2) by simp
  qed
  have less: "length (pending_items w legacy db2) + length batch \<le> length (pending_items w legacy db)"
    unfolding pending_items_def batch_def legacy
  proof (rule filter_batch)
    show "\<not> offset_of s db (item_source i) \<ge> pi_revision i" if "\<not> offset_of s db2 (item_source i) \<ge> pi_revision i" for i
      using that mono [of "item_source i"] by simp
    show "\<forall>i \<in> set (take b (filter (\<lambda>i. \<not> offset_of s db (item_source i) \<ge> pi_revision i) (items_of w legacy))).
        \<not> \<not> offset_of s db2 (item_source i) \<ge> pi_revision i"
      using caught unfolding batch_def pending_items_def legacy by blast
  qed
  have "room w legacy db2 \<le> ID_SPACE"
    using less assms(5) advance(2) ids1 idsb new(3) x(1) legacy by (simp add: room_def)
  moreover have "log_good db2"
  proof -
    have "media_grows db db1" using b p media_grows_trans by blast
    then have "covered db1" using covered_grows [of db db1] assms(1) offs1 b by (simp add: log_good_def)
    then have "covered db2" by (rule covered_advance [OF inv1 _ advance(1)]) (use fits p in blast)
    moreover have "\<forall>x \<in> set (mdb_sessions db2). id_ok (mse_id x)"
    proof -
      have "map mse_id (mdb_sessions db2) = map mse_id (mdb_sessions dbb)"
        using find_bridge_keys(2) [OF keys2] find_bridge_keys(2) [OF keys1] by simp
      then have "mse_id ` set (mdb_sessions db2) = mse_id ` set (mdb_sessions dbb)" by (metis set_map)
      then show ?thesis using okb by (metis imageE imageI)
    qed
    ultimately show ?thesis using inv2 by (simp add: log_good_def)
  qed
  moreover have "mdb_events db2 = mdb_events db @ new" using ev2 new(1) b by simp
  moreover have "\<forall>e \<in> set new. \<exists>i \<in> set (items_of w legacy). made_from (mse_id r) i e" using new(4) mem by blast
  moreover have "\<forall>k. map_option mse_id (find_row (bridged s) (mdb_sessions db)) = Some k \<longrightarrow> k = mse_id r" using b by auto
  ultimately show thesis
    using that [of db1 "mse_id r" new db2] persist new(2) advance(1) less bridge2 unfolding batch_def by blast
qed

lemma read_pending:
  "find_row (\<lambda>r. ses_id r = s) (hw_sessions w) = Some legacy \<Longrightarrow> read_pending_items w s db = Inr (pending_items w legacy db)"
  using find_row_Some [of "\<lambda>r. ses_id r = s" "hw_sessions w" legacy] by (simp add: read_pending_items_def pending_items_def)

text \<open>The loop ends, and everything pending has been done.\<close>

lemma project_loop_completes:
  assumes "log_good db" "uuids_ok env" "find_row (\<lambda>r. ses_id r = s) (hw_sessions w) = Some legacy"
    "\<forall>i \<in> set (items_of w legacy). item_fits (pe_repr env) i" "room w legacy db \<le> ID_SPACE" "0 < b"
    "length (row_ids db) < ID_SPACE"
  shows "\<exists>db' m new. project_loop env b w s n db = Some (Inr (db', m, n + length new)) \<and> log_good db' \<and> pending_items w legacy db' = []
    \<and> mdb_events db' = mdb_events db @ new \<and> (\<forall>e \<in> set new. \<exists>i \<in> set (items_of w legacy). made_from m i e)
    \<and> map_option mse_id (find_row (bridged s) (mdb_sessions db')) = Some m
    \<and> (\<forall>k. map_option mse_id (find_row (bridged s) (mdb_sessions db)) = Some k \<longrightarrow> k = m)"
  using assms
proof (induction "length (pending_items w legacy db)" arbitrary: n db rule: less_induct)
  case (less db n)
  note read = read_pending [OF less.prems(3), of db]
  show ?case
  proof (cases "pending_items w legacy db = []")
    case True
    obtain db' r where bridge: "ensure_bridge env w s db = Inr (db', r)"
      using ensure_bridge_total [OF less.prems(2,7,3)] by blast
    have inv: "media_inv db" using less.prems(1) by (simp add: log_good_def)
    note b = ensure_bridge_Inr [OF inv bridge]
    have loop: "project_loop env b w s n db = Some (Inr (db', mse_id r, n + length []))"
      using read True bridge by (subst project_loop.simps) simp
    have ids: "id_ok (pe_uuid env 0 db)" using less.prems(2,7) by (simp add: uuids_ok_def)
    have "\<forall>x \<in> set (mdb_sessions db'). id_ok (mse_id x)"
      using b ids less.prems(1) by (cases "find_row (bridged s) (mdb_sessions db) = None") (auto simp: log_good_def)
    moreover have "covered db'" using covered_grows [of db db'] b less.prems(1) by (simp add: log_good_def)
    ultimately have good: "log_good db'" using b by (simp add: log_good_def)
    have "offset_of s db' source \<ge> offset_of s db source" for source
    proof (cases "find_row (bridged s) (mdb_sessions db) = None")
      case True
      have "media_inv db'" using b by blast
      then have "offsets_ok (mdb_offsets db')" by (simp add: media_inv_def)
      then show ?thesis using offset_of_unbridged [OF True] offset_of_nonneg by simp
    next
      case False
      then show ?thesis using b by simp
    qed
    then have "pending_items w legacy db' = []"
      using True find_row_Some [OF less.prems(3)] unfolding pending_items_def filter_empty_conv by (metis order_trans)
    moreover have "\<forall>k. map_option mse_id (find_row (bridged s) (mdb_sessions db)) = Some k \<longrightarrow> k = mse_id r" using b by auto
    ultimately show ?thesis using loop good b by (intro exI [of _ db'] exI [of _ "mse_id r"] exI [of _ "[]"]) simp
  next
    case False
    let ?batch = "take b (pending_items w legacy db)"
    obtain db1 db2 m new where round: "persist_event_batch env w s ?batch db = Inr (db1, m, length new)"
      "advance_offsets env m ?batch db1 = Inr db2" "log_good db2" "room w legacy db2 \<le> ID_SPACE"
      "length (pending_items w legacy db2) + length ?batch \<le> length (pending_items w legacy db)"
      "mdb_events db2 = mdb_events db @ new" "\<forall>e \<in> set new. \<exists>i \<in> set (items_of w legacy). made_from m i e"
      "map_option mse_id (find_row (bridged s) (mdb_sessions db2)) = Some m"
      "\<forall>k. map_option mse_id (find_row (bridged s) (mdb_sessions db)) = Some k \<longrightarrow> k = m"
      by (rule batch_round [OF less.prems(1-5) False less.prems(6)])
    have loop: "project_loop env b w s n db =
        (if length ?batch < b then Some (Inr (db2, m, n + length new)) else project_loop env b w s (n + length new) db2)"
      using read False round(1,2) by (subst project_loop.simps) simp
    show ?thesis
    proof (cases "length ?batch < b")
      case True
      then have "pending_items w legacy db2 = []" using round(5) by simp
      moreover have "project_loop env b w s n db = Some (Inr (db2, m, n + length new))" unfolding loop using True by (rule if_P)
      ultimately show ?thesis
        using round by (intro exI [of _ db2] exI [of _ m] exI [of _ new]) simp
    next
      case more: False
      have "0 < length (pending_items w legacy db)" using False by simp
      then have smaller: "length (pending_items w legacy db2) < length (pending_items w legacy db)" using round(5) less.prems(6) more by simp
      have ids2: "length (row_ids db2) < ID_SPACE \<or> pending_items w legacy db2 = []" using round(4) by (cases "pending_items w legacy db2") (simp_all add: room_def)
      show ?thesis
      proof (cases "pending_items w legacy db2 = []")
        case True
        obtain x where "find_row (bridged s) (mdb_sessions db2) = Some x" "mse_id x = m" using round(8) by auto
        then have "project_loop env b w s (n + length new) db2 = Some (Inr (db2, m, n + length new))"
          using read_pending [OF less.prems(3), of db2] True
          by (subst project_loop.simps) (simp add: ensure_bridge_def ensure_legacy_session_bridge_def)
        then show ?thesis using loop more True round by (intro exI [of _ db2] exI [of _ m] exI [of _ new]) simp
      next
        case False
        then have ids: "length (row_ids db2) < ID_SPACE" using ids2 by blast
        from less.hyps [OF smaller round(3) less.prems(2-4) round(4) less.prems(6) ids, of "n + length new"]
        obtain db' m' new' where IH: "project_loop env b w s (n + length new) db2 = Some (Inr (db', m', n + length new + length new'))"
          "log_good db'" "pending_items w legacy db' = []" "mdb_events db' = mdb_events db2 @ new'"
          "\<forall>e \<in> set new'. \<exists>i \<in> set (items_of w legacy). made_from m' i e"
          "map_option mse_id (find_row (bridged s) (mdb_sessions db')) = Some m'"
          "\<forall>k. map_option mse_id (find_row (bridged s) (mdb_sessions db2)) = Some k \<longrightarrow> k = m'" by blast
        have "m' = m" using IH(7) round(8) by blast
        then show ?thesis
          using loop more round(6,7,9) IH by (intro exI [of _ db'] exI [of _ m] exI [of _ "new @ new'"]) auto
      qed
    qed
  qed
qed

subsection \<open>Histories\<close>

text \<open>
  Between the transactions of a projection anything may happen: the host changes its tables, clients
  use the log, and the process dies, which loses the batch whose offsets were still to be advanced.
  Only the projector writes offsets.
\<close>

record projector_state =
  ps_world :: host_world
  ps_db :: media_db
  ps_inflight :: "(string \<times> projection_item list) option"

datatype projector_event =
    Change host_world
  | Log media_op
  | Append_Batch string nat
  | Commit_Offsets
  | Crash

fun projector_step :: "projector_env \<Rightarrow> projector_event \<Rightarrow> projector_state \<Rightarrow> projector_state" where
  "projector_step env (Change w) st = st\<lparr>ps_world := w\<rparr>"
| "projector_step env (Log op) st = (case op of
     Advance _ _ _ _ _ \<Rightarrow> st | _ \<Rightarrow> st\<lparr>ps_db := fst (media_step (pe_repr env) op (ps_db st, []))\<rparr>)"
| "projector_step env (Append_Batch s n) st =
     (case rbind (read_pending_items (ps_world st) s (ps_db st)) (\<lambda>items.
        rbind (persist_event_batch env (ps_world st) s (take n items) (ps_db st)) (\<lambda>(db, m, _). Inr (db, m, take n items))) of
        Inl _ \<Rightarrow> st
      | Inr (db, m, items) \<Rightarrow> st\<lparr>ps_db := db, ps_inflight := Some (m, items)\<rparr>)"
| "projector_step env Commit_Offsets st = (case ps_inflight st of
     None \<Rightarrow> st
   | Some (m, items) \<Rightarrow> (case advance_offsets env m items (ps_db st) of
        Inl _ \<Rightarrow> st\<lparr>ps_inflight := None\<rparr> | Inr db \<Rightarrow> st\<lparr>ps_db := db, ps_inflight := None\<rparr>))"
| "projector_step env Crash st = st\<lparr>ps_inflight := None\<rparr>"

definition projector_run :: "projector_env \<Rightarrow> projector_event list \<Rightarrow> host_world \<Rightarrow> projector_state" where
  "projector_run env es w = foldl (\<lambda>st e. projector_step env e st)
     \<lparr>ps_world = w, ps_db = empty_media_db, ps_inflight = None\<rparr> es"

definition projector_ok :: "projector_state \<Rightarrow> bool" where
  "projector_ok st \<longleftrightarrow> media_inv (ps_db st) \<and> covered (ps_db st)
     \<and> (case ps_inflight st of None \<Rightarrow> True
        | Some (m, items) \<Rightarrow> \<forall>i \<in> set items. item_shape i \<and> recorded m i (mdb_events (ps_db st)))"

lemma append_event_offsets: "append_media_event repr a now att seen db = Inr (db', e) \<Longrightarrow> mdb_offsets db' = mdb_offsets db"
  using append_attempts_Inr [of repr a now _ db db' e] append_attempt_parts [of repr a _ now _ db db' e]
  by (cases att) (fastforce simp: append_media_event_def simp del: append_attempts.simps split: option.splits)

lemma cursor_offsets:
  "get_or_create_cursor m c i now seen db = Inr (db', r) \<Longrightarrow> mdb_offsets db' = mdb_offsets db"
  by (auto simp: get_or_create_cursor_def Let_def split: option.splits if_splits)

lemma media_step_offsets:
  assumes "\<forall>m source q t i. op \<noteq> Advance m source q t i"
  shows "mdb_offsets (fst (media_step repr op (db, snaps))) = mdb_offsets db"
proof (cases op)
  case (Bridge sessions s mode owner i now k)
  then show ?thesis
    by (auto simp: ensure_legacy_session_bridge_def Let_def split: option.splits if_splits)
next
  case (Append a now x y z k)
  then show ?thesis using append_event_offsets by (auto simp: Let_def split: sum.splits)
next
  case (Read m after_sequence limit consumer i now j k)
  have "mdb_offsets db' = mdb_offsets db"
    if "list_events_after m after_sequence limit consumer i now seen_events seen db = Inr (db', rows)" for db' rows seen_events seen
    using that by (cases rule: list_events_cases) (auto simp: flush_cursor_def dest: cursor_offsets)
  then show ?thesis using Read by (auto split: sum.splits)
next
  case (Cursor m c i now k)
  then show ?thesis using cursor_offsets by (auto split: sum.splits)
next
  case (Acknowledge m c q i now k)
  have "mdb_offsets db' = mdb_offsets db" if "acknowledge_cursor m c q i now seen db = Inr (db', r)" for db' r seen
    using that by (cases rule: acknowledge_cases) (auto simp: flush_cursor_def dest: cursor_offsets)
  then show ?thesis using Acknowledge by (auto split: sum.splits)
qed (use assms in auto)

lemma recorded_grows: "recorded m i es \<Longrightarrow> events_grow es es' \<Longrightarrow> recorded m i es'"
  by (auto simp: recorded_def events_grow_def)

lemma projector_step_ok:
  assumes "projector_ok st"
  shows "projector_ok (projector_step env e st)"
proof -
  have inv: "media_inv (ps_db st)" and cov: "covered (ps_db st)" using assms by (simp_all add: projector_ok_def)
  show ?thesis
  proof (cases e)
    case (Log op)
    show ?thesis
    proof (cases "\<exists>m source q t i. op = Advance m source q t i")
      case False
      then have st': "projector_step env e st = st\<lparr>ps_db := fst (media_step (pe_repr env) op (ps_db st, []))\<rparr>"
        using Log by (cases op) auto
      have "history_ok (ps_db st, [])" using inv by (simp add: history_ok_def)
      note step = media_step_ok [OF this, of "pe_repr env" op]
      then have "covered (fst (media_step (pe_repr env) op (ps_db st, [])))"
        using covered_grows [OF cov media_step_offsets] False by blast
      moreover have "events_grow (mdb_events (ps_db st)) (mdb_events (fst (media_step (pe_repr env) op (ps_db st, []))))"
        using step by (simp add: media_grows_def)
      ultimately show ?thesis
        using step assms recorded_grows unfolding st' projector_ok_def by (auto split: option.splits)
    qed (use Log assms in auto)
  next
    case (Append_Batch s n)
    show ?thesis
    proof (cases "rbind (read_pending_items (ps_world st) s (ps_db st)) (\<lambda>items.
        rbind (persist_event_batch env (ps_world st) s (take n items) (ps_db st)) (\<lambda>(db, m, _). Inr (db, m, take n items)))")
      case (Inr p)
      then obtain items db m k where items: "read_pending_items (ps_world st) s (ps_db st) = Inr items"
          "persist_event_batch env (ps_world st) s (take n items) (ps_db st) = Inr (db, m, k)" "p = (db, m, take n items)"
        by (auto simp: rbind_eq_Inr)
      note b = persist_batch_Inr [OF inv items(2)]
      have "item_shape i" if "i \<in> set (take n items)" for i
        using items(1) that items_of_shape
        by (auto simp: read_pending_items_def split: option.splits dest!: in_set_takeD)
      moreover have "covered db" using covered_grows [OF cov] b by blast
      ultimately show ?thesis using b Inr items(3) Append_Batch by (simp add: projector_ok_def)
    qed (use Append_Batch assms in simp)
  next
    case Commit_Offsets
    show ?thesis
    proof (cases "ps_inflight st")
      case (Some p)
      obtain m items where p: "p = (m, items)" by (cases p)
      have items: "\<forall>i \<in> set items. item_shape i \<and> recorded m i (mdb_events (ps_db st))" using assms Some p by (simp add: projector_ok_def)
      show ?thesis
      proof (cases "advance_offsets env m items (ps_db st)")
        case (Inr db)
        then show ?thesis
          using advance_offsets_Inr [OF inv Inr] covered_advance [OF inv cov Inr items] Commit_Offsets Some p
          by (simp add: projector_ok_def)
      qed (use Commit_Offsets Some p inv cov in \<open>simp add: projector_ok_def\<close>)
    qed (use Commit_Offsets assms in simp)
  qed (use assms in \<open>auto simp: projector_ok_def split: option.splits\<close>)
qed

lemma projector_run_ok: "projector_ok (projector_run env es w)"
proof -
  have "projector_ok (foldl (\<lambda>st e. projector_step env e st) st es)" if "projector_ok st" for st
    using that by (induction es arbitrary: st) (simp_all add: projector_step_ok)
  moreover have "projector_ok \<lparr>ps_world = w, ps_db = empty_media_db, ps_inflight = None\<rparr>"
    using empty_history by (simp add: projector_ok_def history_ok_def covered_def empty_media_db_def)
  ultimately show ?thesis by (simp add: projector_run_def)
qed

lemma latest_sequence_count:
  assumes "media_inv db" "m \<in> mse_id ` set (mdb_sessions db)"
  shows "latest_sequence m db = int (length (events_of m (mdb_events db)))"
proof -
  obtain r where r: "r \<in> set (mdb_sessions db)" "mse_id r = m" using assms(2) by auto
  define k where "k = mse_next_sequence r - 1"
  have seqs: "map mer_sequence (events_of m (mdb_events db)) = [1..k]" and "0 \<le> k"
    using assms(1) r by (auto simp: media_inv_def log_ok_def k_def)
  have "fold max [1..k] 0 = Max (set (0 # [1..k]))" by (rule Max.set_eq_fold [symmetric])
  also have "\<dots> = k" using \<open>0 \<le> k\<close> by (intro Max_eqI) auto
  finally have "latest_sequence m db = k" by (simp add: latest_sequence_def seqs)
  moreover have "length (events_of m (mdb_events db)) = nat k" using arg_cong [OF seqs, of length] by simp
  ultimately show ?thesis using \<open>0 \<le> k\<close> by simp
qed

text \<open>
  C40. Catching up is complete and happens once. After any history of changes, crashes and other use of
  the log, if the items of a session fit the contract of events, then \<open>project_session_to_completion\<close>
  returns; it appends nothing but events made from Finals, translations and the end of the session, counts
  them, and leaves each of these recorded at its revision or a later one, no revision twice; running it
  again appends nothing.
\<close>

theorem media_catch_up:
  assumes "projector_config_ok c" "uuids_ok env"
    "find_row (\<lambda>r. ses_id r = s) (hw_sessions (ps_world (projector_run env es w))) = Some legacy"
    "\<forall>i \<in> set (items_of (ps_world (projector_run env es w)) legacy). item_fits (pe_repr env) i"
    "\<forall>m \<in> set (mdb_sessions (ps_db (projector_run env es w))). id_ok (mse_id m)"
    "length (row_ids (ps_db (projector_run env es w))) + 2 * length (items_of (ps_world (projector_run env es w)) legacy) + 1 \<le> ID_SPACE"
  shows "\<exists>db' r new. project_session_to_completion env c (ps_world (projector_run env es w)) s (ps_db (projector_run env es w)) = Some (Inr (db', r))
    \<and> mdb_events db' = mdb_events (ps_db (projector_run env es w)) @ new \<and> cr_projected_event_count r = length new
    \<and> cr_latest_sequence r = int (length (events_of (cr_media_session_id r) (mdb_events db')))
    \<and> (\<forall>e \<in> set new. \<exists>i \<in> set (items_of (ps_world (projector_run env es w)) legacy). made_from (cr_media_session_id r) i e)
    \<and> (\<forall>i \<in> set (items_of (ps_world (projector_run env es w)) legacy). \<exists>e \<in> set (mdb_events db'). \<exists>q.
         source_key e = Some (cr_media_session_id r, pi_source i, pi_logical_id i, q) \<and> pi_revision i \<le> q)
    \<and> distinct (List.map_filter source_key (mdb_events db'))
    \<and> project_session_to_completion env c (ps_world (projector_run env es w)) s db' = Some (Inr (db', r\<lparr>cr_projected_event_count := 0\<rparr>))"
proof -
  let ?w = "ps_world (projector_run env es w)" and ?db = "ps_db (projector_run env es w)"
  let ?b = "nat (pc_batch_size c)"
  have b: "0 < ?b" using assms(1) by (simp add: projector_config_ok_def)
  have good: "log_good ?db" using projector_run_ok [of env es w] assms(5) by (simp add: projector_ok_def log_good_def)
  have "length (pending_items ?w legacy ?db) \<le> length (items_of ?w legacy)" by (simp add: pending_items_def)
  then have room: "room ?w legacy ?db \<le> ID_SPACE" and ids: "length (row_ids ?db) < ID_SPACE"
    using assms(6) by (simp_all add: room_def)
  obtain db' m new where run: "project_loop env ?b ?w s 0 ?db = Some (Inr (db', m, 0 + length new))" "log_good db'"
      "pending_items ?w legacy db' = []" "mdb_events db' = mdb_events ?db @ new"
      "\<forall>e \<in> set new. \<exists>i \<in> set (items_of ?w legacy). made_from m i e"
      "map_option mse_id (find_row (bridged s) (mdb_sessions db')) = Some m"
    using project_loop_completes [OF good assms(2-4) room b ids, of 0] by blast
  obtain x where x: "find_row (bridged s) (mdb_sessions db') = Some x" "mse_id x = m" using run(6) by auto
  have inv: "media_inv db'" and cov: "covered db'" using run(2) by (simp_all add: log_good_def)
  have again: "project_loop env ?b ?w s 0 db' = Some (Inr (db', m, 0))"
    using read_pending [OF assms(3), of db'] run(3) x
    by (subst project_loop.simps) (simp add: ensure_bridge_def ensure_legacy_session_bridge_def)
  have "m \<in> mse_id ` set (mdb_sessions db')" using x find_row_Some [OF x(1)] by blast
  note latest = latest_sequence_count [OF inv this]
  have legacy: "ses_id legacy = s" using find_row_Some [OF assms(3)] by simp
  have "\<exists>e \<in> set (mdb_events db'). \<exists>q. source_key e = Some (m, pi_source i, pi_logical_id i, q) \<and> pi_revision i \<le> q"
    if i: "i \<in> set (items_of ?w legacy)" for i
  proof -
    have shape: "item_shape i" by (rule items_of_shape [OF i])
    have "1 \<le> pi_revision i" using assms(4) i by (simp add: item_fits_def)
    moreover have "offset_of s db' (item_source i) \<ge> pi_revision i"
      using run(3) i unfolding pending_items_def filter_empty_conv legacy by blast
    ultimately obtain o' where o': "get_bridge_offset m (item_source i) db' = Some o'" "pi_revision i \<le> bo_processed_revision o'"
      using x by (auto simp: offset_of_def split: option.splits)
    then have row: "o' \<in> set (mdb_offsets db')" "bo_media_session_id o' = m" "offset_source o' = item_source i"
      by (auto simp: get_bridge_offset_def dest: find_row_Some)
    have "\<exists>e \<in> set (mdb_events db'). source_key e =
        Some (bo_media_session_id o', source_of_table (bo_source_table o'), bo_source_logical_id o', bo_processed_revision o')"
      using cov row(1) by (simp add: covered_def)
    moreover have "pi_logical_id i = pi_source_logical_id i" using shape unfolding item_shape_def by blast
    ultimately show ?thesis using row(2,3) o'(2) item_shape_source [OF shape] by auto
  qed
  moreover have "distinct (List.map_filter source_key (mdb_events db'))"
    using inv unfolding media_inv_def log_ok_def by (intro distinct_source_keys) blast+
  ultimately show ?thesis
    using run again latest
    by (intro exI [of _ db'] exI [of _ "\<lparr>cr_legacy_session_id = s, cr_media_session_id = m, cr_projected_event_count = length new,
      cr_latest_sequence = latest_sequence m db'\<rparr>"] exI [of _ new]) (simp add: project_session_to_completion_def)
qed

subsection \<open>The scan\<close>

text \<open>
  The poll loop reads the oldest sessions only: once there are as many as its limit, a session that is
  created later is never among them, whatever happens to the others.
\<close>

lemma insort_below: "k x \<le> k y \<Longrightarrow> insort_key k x (zs @ [y]) = insort_key k x zs @ [y]"
  by (induction zs) auto

lemma late_session_not_scanned:
  assumes "nat (pc_scan_session_limit c) \<le> length (hw_sessions w)"
    "\<forall>r \<in> set (hw_sessions w). ses_created_at r < ses_created_at late" "ses_id late \<notin> ses_id ` set (hw_sessions w)"
  shows "ses_id late \<notin> set (list_session_ids c (w\<lparr>hw_sessions := hw_sessions w @ [late]\<rparr>))"
proof -
  let ?key = "\<lambda>r. (ses_created_at r, ses_id r)"
  have "foldr (insort_key ?key) rows [late] = sort_key ?key rows @ [late]"
    if "\<forall>r \<in> set rows. ses_created_at r < ses_created_at late" for rows
    using that by (induction rows) (simp_all add: sort_key_def insort_below)
  then have "sort_key ?key (hw_sessions w @ [late]) = sort_key ?key (hw_sessions w) @ [late]"
    using assms(2) by (simp add: sort_key_def)
  then have "list_session_ids c (w\<lparr>hw_sessions := hw_sessions w @ [late]\<rparr>)
      = take (nat (pc_scan_session_limit c)) (map ses_id (sort_key ?key (hw_sessions w)))"
    using assms(1) by (simp add: list_session_ids_def)
  then show ?thesis using assms(3) by (auto dest!: in_set_takeD)
qed

subsection \<open>A run\<close>

text \<open>Drawing an unused identifier.\<close>

definition unused_id :: "string list \<Rightarrow> string" where
  "unused_id ids = hd (filter (\<lambda>s. s \<notin> set ids) (map show_nat [0..<Suc (length ids)]))"

lemma unused_id_fresh: "unused_id ids \<notin> set ids \<and> (\<exists>n \<le> length ids. unused_id ids = show_nat n)"
proof -
  let ?xs = "filter (\<lambda>s. s \<notin> set ids) (map show_nat [0..<Suc (length ids)])"
  have "inj show_nat" by (rule inj_on_inverseI [where g = read_nat]) simp
  then have "card (set (map show_nat [0..<Suc (length ids)])) = Suc (length ids)"
    by (simp add: card_image inj_on_subset del: upt_Suc)
  moreover have "card (set ids) \<le> length ids" by (rule card_length)
  ultimately have "\<not> set (map show_nat [0..<Suc (length ids)]) \<subseteq> set ids" by (metis List.finite_set card_mono not_less_eq_eq)
  then have "?xs \<noteq> []" by (auto simp: filter_empty_conv simp del: upt_Suc)
  then have "hd ?xs \<in> set ?xs" by (rule hd_in_set)
  then show ?thesis unfolding unused_id_def by (auto simp: less_Suc_eq_le simp del: upt_Suc intro: exI)
qed

definition demo_projector_env :: projector_env where
  "demo_projector_env = \<lparr>pe_repr = (\<lambda>_. ''0.5''), pe_uuid = (\<lambda>k db. unused_id (row_ids db)), pe_now = (\<lambda>_. 0)\<rparr>"

lemma demo_env_uuids: "uuids_ok demo_projector_env"
  unfolding uuids_ok_def
proof (intro allI impI)
  fix k db
  assume room: "length (row_ids db) < ID_SPACE"
  obtain n where n: "n \<le> length (row_ids db)" "unused_id (row_ids db) = show_nat n" using unused_id_fresh [of "row_ids db"] by blast
  have "(2 :: nat) ^ 122 < 10 ^ 128" by simp
  then have "n < 10 ^ 128" using n(1) room unfolding ID_SPACE_def by linarith
  then have "length (show_nat n) \<le> 128" using length_show_nat_le [of n 128] by simp
  moreover have "1 \<le> length (show_nat n)" by (simp add: show_nat.simps [of n])
  ultimately show "id_ok (pe_uuid demo_projector_env k db) \<and> pe_uuid demo_projector_env k db \<notin> set (row_ids db)"
    using n(2) unused_id_fresh [of "row_ids db"] by (simp add: demo_projector_env_def id_ok_def)
qed

definition demo_projected :: segment_record where
  "demo_projected = \<lparr>sg_id = ''x'', sg_session_id = ''s1'', sg_segment_id = ''a'', sg_track_id = ''t'', sg_revision = 1, sg_language = ''en'',
     sg_raw_text = ''hello'', sg_display_text = ''hello'', sg_audio_start_ms = Some 0, sg_audio_end_ms = Some 5,
     sg_confidence = None, sg_status = ''final'', sg_received_at_ms = 1, sg_finalized_at = 1, sg_created_at = 1, sg_updated_at = 1\<rparr>"

definition demo_host_world :: host_world where
  "demo_host_world = \<lparr>hw_sessions = [demo_session], hw_segments = [demo_projected], hw_translations = []\<rparr>"

lemma demo_projector_start:
  "projector_run demo_projector_env [Crash] demo_host_world = \<lparr>ps_world = demo_host_world, ps_db = empty_media_db, ps_inflight = None\<rparr>"
  by (simp add: projector_run_def)

lemma demo_items: "items_of demo_host_world demo_session = [transcript_projection demo_projected]"
  by (simp add: items_of_def segment_finals_def translation_finals_def demo_host_world_def demo_projected_def demo_session_columns
      TERMINAL_SESSION_STATES_def status_value.simps)

lemma demo_item_fits: "item_fits (pe_repr demo_projector_env) (transcript_projection demo_projected)"
proof -
  have payload: "pi_payload (transcript_projection demo_projected) = [(''text'', VStr ''hello''), (''language'', VStr ''en''), (''track_id'', VStr ''t''),
      (''confidence'', VNull), (''evidence'', VObj [(''legacy_session_id'', VStr ''s1''), (''segment_id'', VStr ''a''), (''record_id'', VStr ''x'')])]"
    by (simp add: transcript_projection_def demo_projected_def Let_def)
  have clean: "normalized_key ''text'' = ''text''" "normalized_key ''language'' = ''language''" "normalized_key ''track_id'' = ''track_id''"
    "normalized_key ''confidence'' = ''confidence''" "normalized_key ''evidence'' = ''evidence''"
    "normalized_key ''legacy_session_id'' = ''legacy_session_id''" "normalized_key ''segment_id'' = ''segment_id''"
    "normalized_key ''record_id'' = ''record_id''"
    by (simp_all add: normalized_key_def casefold_def casefold_char_def strip_by_def is_lower_def is_digit_def Let_def)
  have "walk MAX_EVENT_PAYLOAD_DEPTH True 0 (VObj (pi_payload (transcript_projection demo_projected))) = Inr ()"
    unfolding payload by (simp add: clean MAX_EVENT_PAYLOAD_DEPTH_def SENSITIVE_KEYS_def)
  moreover have "length (utf8 (dumps_value (\<lambda>_. ''0.5'') (VObj (pi_payload (transcript_projection demo_projected))))) \<le> MAX_EVENT_PAYLOAD_BYTES"
    unfolding payload
    by (simp add: utf8_def utf8_char_def dumps_str_def escape_char_def MAX_EVENT_PAYLOAD_BYTES_def Let_def)
  ultimately show ?thesis
    by (simp add: item_fits_def validate_payload_def validate_bounded_json_def demo_projector_env_def)
      (simp add: transcript_projection_def demo_projected_def Let_def at_least_def duration_def)
qed

theorem media_catch_up_witness:
  "\<exists>db' r new. project_session_to_completion demo_projector_env \<lparr>pc_poll_interval_ms = 500, pc_batch_size = 100, pc_scan_session_limit = 100\<rparr>
      (ps_world (projector_run demo_projector_env [Crash] demo_host_world)) ''s1'' (ps_db (projector_run demo_projector_env [Crash] demo_host_world)) = Some (Inr (db', r))
    \<and> mdb_events db' = mdb_events (ps_db (projector_run demo_projector_env [Crash] demo_host_world)) @ new \<and> cr_projected_event_count r = length new
    \<and> cr_latest_sequence r = int (length (events_of (cr_media_session_id r) (mdb_events db')))
    \<and> (\<forall>e \<in> set new. \<exists>i \<in> set (items_of (ps_world (projector_run demo_projector_env [Crash] demo_host_world)) demo_session). made_from (cr_media_session_id r) i e)
    \<and> (\<forall>i \<in> set (items_of (ps_world (projector_run demo_projector_env [Crash] demo_host_world)) demo_session). \<exists>e \<in> set (mdb_events db'). \<exists>q.
         source_key e = Some (cr_media_session_id r, pi_source i, pi_logical_id i, q) \<and> pi_revision i \<le> q)
    \<and> distinct (List.map_filter source_key (mdb_events db'))
    \<and> project_session_to_completion demo_projector_env \<lparr>pc_poll_interval_ms = 500, pc_batch_size = 100, pc_scan_session_limit = 100\<rparr>
        (ps_world (projector_run demo_projector_env [Crash] demo_host_world)) ''s1'' db' = Some (Inr (db', r\<lparr>cr_projected_event_count := 0\<rparr>))"
proof (rule media_catch_up)
  show "find_row (\<lambda>r. ses_id r = ''s1'') (hw_sessions (ps_world (projector_run demo_projector_env [Crash] demo_host_world))) = Some demo_session"
    unfolding demo_projector_start by (simp add: demo_host_world_def demo_session_columns)
qed (simp_all add: demo_projector_start demo_items demo_item_fits demo_env_uuids projector_config_ok_def empty_media_db_def row_ids_def ID_SPACE_def)

end
