(* ===== verification/Spec2Isabelle.thy ===== *)
theory Spec2Isabelle
  imports Session_Repository Captions Translation Audio Segment_Store Timeline Export Grants Tool_Calls
    Text_Processing Caption_Runtime Revision_Builder Url_Policy Action_Scheduler Candidate_History Meeting_Plugin Fair_Queue
    Media_Projection
begin

text \<open>
  Verification development of the Matinier backend (\<open>src/backend/app\<close>), the server of a
  live-captioning and meeting-assistant application. Definitions are named after the functions
  and classes they model; the paths below are relative to \<open>src/backend/app\<close>.

  \<^bold>\<open>The program.\<close> A worker receives audio of a room, cuts it into chunks
  (\<open>transcription/chunker.py\<close>, \<open>worker/audio_router.py\<close>), sends them to a speech recognizer and
  reconciles the recognizer's events into caption revisions (\<open>captions/\<close>, \<open>translation/\<close>). Finals
  are stored (\<open>persistence/\<close>), put on a timeline (\<open>timeline/\<close>), exported (\<open>export/\<close>), condensed into
  scripts (\<open>text_processing/\<close>) and frozen into hashed result packages (\<open>packages/\<close>). An assistant
  runs executions, tool calls and external actions under grants (\<open>assistant/\<close>), all through
  optimistic-concurrency repositories.

  \<^bold>\<open>Conventions.\<close> \<open>Prelude\<close> has the shared vocabulary: exceptions are values of \<open>py_error\<close>, a raising
  operation returns \<open>Inl\<close> and its transaction is rolled back; tables are lists of rows; clocks and
  identifiers that the code draws are arguments; strings are code points below 256;
  floats are rationals (no NaN, infinity or negative zero); a savepoint that the caller may switch off is always
  taken.

  \<^bold>\<open>Sessions.\<close> \<open>Session_State\<close> (\<open>sessions/state.py\<close>) has the lifecycle and the locale
  \<open>status_machine\<close> of all lifecycles; \<open>Session_Repository\<close> (\<open>persistence/sessions.py\<close>) every operation on a
  session row. Shown: which transitions exist, that a session never moves backwards and that
  terminal rows stay, for every sequence of operations; a failed or completed row lacks its error or
  metrics only when a bare \<open>transition\<close> made it so.

  \<^bold>\<open>Captions.\<close> \<open>Reconciler\<close> states the contract of a revision reconciler as a locale;
  \<open>Captions\<close> (\<open>captions/models.py\<close>, \<open>captions/reconciler.py\<close>) and \<open>Translation\<close> (\<open>translation/models.py\<close>,
  \<open>translation/reconciler.py\<close>) interpret it. Shown: revisions increase, at most one Final per
  segment, nothing after it. \<open>Caption_Runtime\<close> (\<open>captions/runtime.py\<close>, \<open>errors.py\<close>) composes reconciler, stores
  and publisher into the handlers of a worker; its step relation lets every publication fail
  and lets other processes end the session or add segments between the handlers. Shown: a
  published Final is stored, and a terminal worker has a terminal row and stays silent.

  \<^bold>\<open>Audio.\<close> \<open>Audio\<close> models chunker and router: chunking loses no byte, a failing optional route
  never reaches the mandatory one.

  \<^bold>\<open>Stores and documents.\<close> \<open>Segment_Store\<close> (\<open>persistence/segments.py\<close>, \<open>translations.py\<close>, \<open>rooms.py\<close>) with the locale
  \<open>revision_store\<close>: the newest revision wins in any order of arrival. \<open>Timeline\<close> (\<open>timeline/\<close>): normalized
  times are ordered and complete. \<open>Export\<close> (\<open>export/\<close>): SRT, VTT and Markdown with their round trips.
  \<open>Text_Processing\<close> (\<open>text_processing/\<close>): chunking and acceptance of generated scripts.

  \<^bold>\<open>Packages.\<close> \<open>Canonical_Json\<close> (\<open>packages/canonical.py\<close>): the canonical bytes identify a value up to the
  order of keys. \<open>Package_Model\<close>, \<open>Package_Validator\<close>, \<open>Package_Repository\<close>, \<open>Package_Binding\<close> and \<open>Package_Builder\<close>
  (\<open>packages/models.py\<close>, \<open>validator.py\<close>, \<open>repository.py\<close>, \<open>builder.py\<close>, \<open>assistant/package_binding.py\<close>): packages can be assembled and built from
  stored Finals of a consistent table, load back unchanged, are tamper-evident up to collisions of the hash, are delivered
  completely page by page, and bind the executions of their session.

  \<^bold>\<open>Revisions.\<close> \<open>Revisions\<close> (\<open>revisions/\<close>): validation, storage and approval of edited transcripts; the history
  of a transcript is immutable and has at most one approved revision. \<open>Revision_Builder\<close>
  (\<open>build_from_revision\<close> of \<open>packages/builder.py\<close>): an approved revision becomes a valid package.


  \<^bold>\<open>Remote media.\<close> \<open>Url_Policy\<close> (\<open>hls/url_policy.py\<close>): normalization of a URL and the loop that resolves, judges
  and probes it and its redirects; only hosts all of whose addresses are public are contacted.

  \<^bold>\<open>Scheduling.\<close> \<open>Action_Scheduler\<close> (\<open>assistant/action_scheduler.py\<close>): the queue, its workers and the callers that
  wait, as events that interleave at every suspension point; no execution runs twice at once.

  \<^bold>\<open>Meeting state.\<close> \<open>Meeting_Model\<close> (\<open>meeting_state/models.py\<close>, \<open>contracts.py\<close>): the collections extracted from a
  meeting and the validation of an extraction. \<open>Meeting_Merge\<close> (\<open>merge.py\<close>): merging an extraction refines an
  abstract overwrite of every collection. \<open>Meeting_Repository\<close> (\<open>repository.py\<close>): offsets, heads, marks, candidates
  and their revisions. \<open>Candidate_Policy\<close> and \<open>Candidate_History\<close> (\<open>candidates.py\<close>): what may be done to an action
  candidate, and that its history stays gapless, append-only and loadable. \<open>Fair_Queue\<close> (\<open>_FairSessionQueue\<close> of
  \<open>projector.py\<close>): no session starves. \<open>Meeting_Plugin\<close> (\<open>assistant/plugin_policy.py\<close>, \<open>assistant/plugin_repository.py\<close>,
  \<open>plugins/host_action_contracts.py\<close>): admission of analysis, epochs and single-use intents; authority that
  has been revoked is never used again.

  \<^bold>\<open>Media log.\<close> \<open>Media_Contract\<close> (\<open>media/contracts.py\<close>): the contracts of media sessions and events, and the walk
  that bounds a JSON payload. \<open>Media_Repository\<close> (\<open>media/repository.py\<close>): the log of events with its cursors and
  offsets; however old the rows are that a client looks at, the log has no gap and no duplicate, and cursors
  stay within it; a cursor that is read stale may go back, one that is read fresh does not.
  \<open>Media_Projection\<close> (\<open>media/projector.py\<close>): Finals, translations and the end of a session are put into the log
  completely and once, whatever happens between the transactions.

  \<^bold>\<open>Assistant.\<close> \<open>Assistant_State\<close> (\<open>assistant/state_machine.py\<close>), \<open>Json\<close> (values of JSON columns), \<open>Optimistic\<close> (compare-and-swap
  updates and idempotent inserts as locales), \<open>Grants\<close> (\<open>assistant/grants.py\<close> and the grant operations of
  \<open>assistant/repository.py\<close>), \<open>Executions\<close> and \<open>Tool_Calls\<close> (the rest of \<open>assistant/repository.py\<close>). Shown, for all interleavings of
  clients that act on rows they read earlier: budgets are kept, rows move along legal
  transitions, requests and external actions are idempotent, the event stream is complete.

  \<^bold>\<open>Bounds and fuel.\<close> Only two functions take fuel: \<open>follow\<close> (event pages) with \<open>Suc (length events)\<close> and
  \<open>deliver_package\<close> (package pages) with \<open>max 1 (number of items)\<close>; the theorems show that this is enough,
  because every page that has a successor is non-empty. The loop of \<open>Media_Projection\<close> is a
  \<open>partial_function\<close> that is shown to return (the pending items decrease). Everything else terminates by
  structural recursion or a measure (the redirects left in the loop of \<open>Url_Policy\<close>, the
  entries of both heaps in \<open>queue_get\<close>).

  \<^bold>\<open>Arguments of the model.\<close> Code outside \<open>src\<close> and functions of the standard library that are treated as
  opaque are arguments: SHA-256, \<open>uuid5\<close>, \<open>float.__repr__\<close>, \<open>isoformat\<close>, \<open>urlsplit\<close>, \<open>json.loads\<close>, Pydantic's reading
  of a JSON column, the publisher's failures. What is used of them is a named hypothesis.

  \<^bold>\<open>Not modelled.\<close> HTTP routing and request schemas (\<open>api/\<close>), process and network plumbing (\<open>worker/entrypoint.py\<close>,
  HLS download and decoding, LiveKit, providers of recognition, translation and language
  models), settings and logging, database migrations, scripts and evaluation tools: they are
  input and output around the logic above. Left out for the size of the development: the plugin
  host (\<open>plugins/\<close> beyond \<open>host_action_contracts.py\<close>), the runners of the assistant, which write through the
  repositories modelled here, \<open>MeetingStateProjector\<close>, \<open>processing/\<close>, \<open>task_system/\<close> and \<open>artifacts/\<close>.
\<close>


section \<open>From the recognizer to the exported document\<close>

lemma mset_singletonD: "mset xs = mset [a] \<Longrightarrow> xs = [a]"
  by simp

lemma timeline_of_rows:
  assumes "normalize_timeline rs = Inr tln"
  shows "mset (map (\<lambda>t. (tl_segment_id t, tl_display_text t)) (tln_segments tln)) =
    mset (map (\<lambda>r. (sg_segment_id r, sg_display_text r)) rs)"
proof -
  let ?L = "fst (normalize_loop 0 0 (sort_key timeline_sort_key rs))"
  have "map snd (map (\<lambda>t. (tl_id t, tl_segment_id t, tl_display_text t)) ?L) =
      map snd (map (\<lambda>r. (sg_id r, sg_segment_id r, sg_display_text r)) (sort_key timeline_sort_key rs))"
    by (simp only: normalize_loop_segments)
  then have "map (\<lambda>t. (tl_segment_id t, tl_display_text t)) ?L =
      map (\<lambda>r. (sg_segment_id r, sg_display_text r)) (sort_key timeline_sort_key rs)"
    by (simp add: comp_def)
  then have "mset (map (\<lambda>t. (tl_segment_id t, tl_display_text t)) ?L) =
      mset (map (\<lambda>r. (sg_segment_id r, sg_display_text r)) rs)"
    by (simp add: mset_map)
  with assms show ?thesis by (simp add: normalize_timeline_Inr)
qed

lemma list_final_rows:
  assumes "segment_table_inv segs"
  shows "set (list_final segs sid) = {r \<in> set segs. sg_session_id r = sid}"
    "\<exists>tln. normalize_timeline (list_final segs sid) = Inr tln"
proof -
  show "set (list_final segs sid) = {r \<in> set segs. sg_session_id r = sid}"
    using assms by (auto simp: list_final_def segment_table_inv_def list_all_iff)
  have "list_all (\<lambda>r. sg_status r = ''final'') (list_final segs sid)"
    by (simp add: list_final_def list_all_iff)
  then show "\<exists>tln. normalize_timeline (list_final segs sid) = Inr tln"
    by (intro exI [of _ "\<lparr>tln_segments = fst (normalize_loop 0 0 (sort_key timeline_sort_key (list_final segs sid))),
        tln_duration_ms = snd (normalize_loop 0 0 (sort_key timeline_sort_key (list_final segs sid)))\<rparr>"])
       (simp add: normalize_timeline_Inr)
qed

text \<open>
  C25. End to end: every Final a worker has published appears in the exported document. In every
  state a worker can reach, the timeline built from the stored segments of its session exists,
  has exactly one entry for the segment of each published Final, with the published text, and
  the SRT export of that timeline succeeds.
\<close>

theorem published_final_exported:
  assumes "runtime_reach cfg w" and "c \<in> set (published_finals w)"
  shows "\<exists>tln. normalize_timeline (list_final (cw_segments w) (rc_session_id cfg)) = Inr tln
    \<and> map tl_display_text (filter (\<lambda>t. tl_segment_id t = ce_segment_id c) (tln_segments tln)) = [ce_text c]
    \<and> succeeds (export_srt \<lparr>ed_session = r, ed_timeline = tln, ed_content = content, ed_exported_at = exported\<rparr>)"
proof -
  let ?rows = "list_final (cw_segments w) (rc_session_id cfg)"
  note I = runtime_reach_inv [OF assms(1), unfolded runtime_inv_def]
  then have inv: "segment_table_inv (cw_segments w)" by blast
  obtain tln where tln: "normalize_timeline ?rows = Inr tln" using list_final_rows(2) [OF inv] by blast
  obtain row where row: "row \<in> set (cw_segments w)" "segment_key row = (rc_session_id cfg, ce_segment_id c)"
    "sg_display_text row = ce_text c"
    using I assms(2) by (auto simp: durable_def dest!: find_row_Some)
  then have "filter (\<lambda>r. sg_segment_id r = ce_segment_id c) ?rows = [row]"
    using list_final_rows(1) [OF inv] list_final_segment_ids(1) [OF inv] by (intro distinct_filter_key) (auto simp: segment_key_def)
  then have "map snd (filter (\<lambda>p. fst p = ce_segment_id c)
      (map (\<lambda>r. (sg_segment_id r, sg_display_text r)) ?rows)) = [ce_text c]"
    by (simp add: filter_map comp_def row(3))
  then have "mset (map snd (filter (\<lambda>p. fst p = ce_segment_id c)
      (map (\<lambda>t. (tl_segment_id t, tl_display_text t)) (tln_segments tln)))) = mset [ce_text c]"
    unfolding mset_map [of snd] mset_filter timeline_of_rows [OF tln]
    unfolding mset_filter [symmetric] mset_map [of snd, symmetric] by simp
  from mset_singletonD [OF this]
  have "map tl_display_text (filter (\<lambda>t. tl_segment_id t = ce_segment_id c) (tln_segments tln)) = [ce_text c]"
    by (simp add: filter_map comp_def)
  moreover have "succeeds (export_srt \<lparr>ed_session = r, ed_timeline = tln, ed_content = content, ed_exported_at = exported\<rparr>)"
    using srt_cues_ok(1) [OF timeline_wellformed(2) [OF tln], of 1] by (auto simp: export_srt_def)
  ultimately show ?thesis using tln by (intro exI [of _ tln] conjI)
qed

theorem published_final_exported_witness:
  "\<exists>tln. normalize_timeline (list_final (cw_segments demo_sent) ''s1'') = Inr tln
    \<and> map tl_display_text (filter (\<lambda>t. tl_segment_id t = ''a'') (tln_segments tln)) = [''hello'']"
proof -
  have reach: "runtime_reach demo_config demo_sent"
    unfolding demo_sent_def by (rule runtime_reach.call [OF demo_world_reach])
  have "published_finals demo_sent \<noteq> []"
    "list_all (\<lambda>c. ce_segment_id c = ''a'' \<and> ce_text c = ''hello'') (published_finals demo_sent)"
    by code_simp+
  then have "hd (published_finals demo_sent) \<in> set (published_finals demo_sent)"
    "ce_segment_id (hd (published_finals demo_sent)) = ''a''" "ce_text (hd (published_finals demo_sent)) = ''hello''"
    by (cases "published_finals demo_sent"; simp)+
  with published_final_exported [OF reach, of "hd (published_finals demo_sent)" demo_session "[]" 0] show ?thesis
    unfolding demo_config_def by auto
qed

end
